(* ===== verification/Go_Prelude.thy ===== *)
theory Go_Prelude
  imports Main "HOL-Library.AList" "HOL-Library.Multiset" "HOL-Library.Char_ord"
    "HOL-Library.List_Lexorder" "HOL-Library.Sublist"
begin

text \<open>
  The part of Go that every component of the processor uses, and the generic lemmas about it:
  results of code that can panic, Go maps as association lists, the unspecified order of a
  \<open>range\<close> over a map, byte strings and the functions of package \<open>strings\<close> that the code calls,
  and the arithmetic of \<open>int64\<close>, \<open>time.Time\<close> and \<open>time.Duration\<close>.
\<close>

named_theorems go_defs \<open>definitions of the Go layer, for unfolding\<close>
named_theorems gomap_simps \<open>lookup equations of Go maps\<close>
named_theorems frame \<open>what an operation leaves unchanged\<close>

section \<open>Code that can panic\<close>

text \<open>
  A run-time panic (assignment to an entry of a nil map, slice bounds out of range, nil pointer)
  is the left injection with the run-time's message; a normal return is the right injection.
\<close>

type_synonym 'a go = "string + 'a"

abbreviation panic :: "string \<Rightarrow> 'a go" where
  "panic \<equiv> Inl"

abbreviation ret :: "'a \<Rightarrow> 'a go" where
  "ret \<equiv> Inr"

definition andThen :: "'a go \<Rightarrow> ('a \<Rightarrow> 'b go) \<Rightarrow> 'b go" where
  "andThen x f = (case x of Inl e \<Rightarrow> Inl e | Inr a \<Rightarrow> f a)"

lemma andThen_simps [simp]:
  "andThen (Inl e) f = Inl e"
  "andThen (Inr a) f = f a"
  by (simp_all add: andThen_def)

lemma andThen_Inr_iff: "andThen x f = Inr b \<longleftrightarrow> (\<exists>a. x = Inr a \<and> f a = Inr b)"
  by (cases x) auto

lemma andThen_Inl_iff: "andThen x f = Inl e \<longleftrightarrow> x = Inl e \<or> (\<exists>a. x = Inr a \<and> f a = Inl e)"
  by (cases x) auto

lemma andThen_cong [fundef_cong]:
  "x = y \<Longrightarrow> (\<And>a. y = Inr a \<Longrightarrow> f a = g a) \<Longrightarrow> andThen x f = andThen y g"
  by (cases y) auto

definition returns :: "'a go \<Rightarrow> bool" where
  "returns x = (case x of Inl _ \<Rightarrow> False | Inr _ \<Rightarrow> True)"

lemma returns_simps [simp]: "returns (Inr a)" "\<not> returns (Inl e)"
  by (simp_all add: returns_def)

lemma returns_iff: "returns x \<longleftrightarrow> (\<exists>a. x = Inr a)"
  by (cases x) auto

lemma returns_andThen: "returns (andThen x f) \<longleftrightarrow> (\<exists>a. x = Inr a \<and> returns (f a))"
  by (cases x) auto

section \<open>Go maps\<close>

text \<open>
  A non-nil Go map is an association list with distinct keys; \<open>map_of\<close> is the lookup with the
  comma-ok form, \<open>AList.update\<close> the assignment \<open>m[k] = v\<close>, \<open>AList.delete\<close> the built-in
  \<open>delete\<close> (which ignores a missing key). A map that may be nil is an option.
\<close>

type_synonym ('k, 'v) gomap = "('k \<times> 'v) list"

abbreviation keys :: "('k, 'v) gomap \<Rightarrow> 'k list" where
  "keys m \<equiv> map fst m"

definition gomap_ok :: "('k, 'v) gomap \<Rightarrow> bool" where
  "gomap_ok m = distinct (keys m)"

lemma gomap_ok_Nil [simp]: "gomap_ok []"
  by (simp add: gomap_ok_def)

lemma gomap_ok_update [simp]: "gomap_ok m \<Longrightarrow> gomap_ok (AList.update k v m)"
  by (simp add: gomap_ok_def distinct_update)

lemma gomap_ok_delete [simp]: "gomap_ok m \<Longrightarrow> gomap_ok (AList.delete k m)"
  by (simp add: gomap_ok_def distinct_delete)

lemma gomap_ok_map_of: "gomap_ok m \<Longrightarrow> map_of m k = Some v \<longleftrightarrow> (k, v) \<in> set m"
  by (simp add: gomap_ok_def)

lemma update_ne_Nil [simp]: "AList.update k v m \<noteq> []"
  by (induction m) auto

lemma length_update_new [gomap_simps]:
  "map_of m k = None \<Longrightarrow> length (AList.update k v m) = Suc (length m)"
  by (induction m) (auto split: if_splits)

lemma length_update_old [gomap_simps]:
  "map_of m k \<noteq> None \<Longrightarrow> length (AList.update k v m) = length m"
  by (induction m) (auto split: if_splits)

lemma map_of_update [simp]: "map_of (AList.update k v m) = (map_of m)(k \<mapsto> v)"
  by (simp add: update_conv')

lemma map_of_delete [simp]: "map_of (AList.delete k m) = (map_of m)(k := None)"
  by (simp add: delete_conv')

lemma map_of_filter_fst: "map_of (filter (\<lambda>(k, v). P k) m) k = (if P k then map_of m k else None)"
  by (induction m) auto

lemma map_of_filter_ok:
  assumes "gomap_ok m"
  shows "map_of (filter P m) k =
     (case map_of m k of None \<Rightarrow> None | Some v \<Rightarrow> if P (k, v) then Some v else None)"
  using assms
proof (induction m)
  case (Cons e m)
  moreover obtain k' v where "e = (k', v)" by (cases e)
  moreover have "map_of m k' = None" if "gomap_ok ((k', v) # m)"
    using that by (simp add: gomap_ok_def map_of_eq_None_iff)
  ultimately show ?case by (auto simp: gomap_ok_def)
qed simp

lemma gomap_ok_filter [simp]: "gomap_ok m \<Longrightarrow> gomap_ok (filter P m)"
  by (induction m) (auto simp: gomap_ok_def)

section \<open>The order of a range over a map\<close>

text \<open>
  Go leaves the iteration order of a map unspecified and changes it from run to run. A \<open>range\<close>
  therefore takes a choice sequence and visits the entries in the order it selects: every
  choice sequence gives a permutation, and every permutation is given by one.
\<close>

fun shuffle :: "nat list \<Rightarrow> 'a list \<Rightarrow> 'a list" where
  "shuffle [] xs = xs"
| "shuffle (n # ns) [] = []"
| "shuffle (n # ns) (x # xs) =
     (let ys = x # xs; i = n mod length ys
      in ys ! i # shuffle ns (take i ys @ drop (Suc i) ys))"

lemma mset_take_nth_drop:
  "i < length ys \<Longrightarrow> add_mset (ys ! i) (mset (take i ys) + mset (drop (Suc i) ys)) = mset ys"
  by (subst (4) id_take_nth_drop [of i ys]) simp_all

lemma mset_shuffle [simp]: "mset (shuffle ns xs) = mset xs"
proof (induction ns xs rule: shuffle.induct)
  case (3 n ns x xs)
  have "n mod length (x # xs) < length (x # xs)" by simp
  from mset_take_nth_drop [OF this] 3 show ?case by (simp add: Let_def)
qed auto

lemma shuffle_complete: "mset ys = mset xs \<Longrightarrow> \<exists>ns. shuffle ns xs = ys"
proof (induction ys arbitrary: xs)
  case Nil
  then show ?case by (auto intro: exI [of _ "[]"])
next
  case (Cons y ys)
  then have "y \<in> set xs" by (metis list.set_intros(1) set_mset_mset)
  then obtain i where i: "i < length xs" "xs ! i = y" by (auto simp: in_set_conv_nth)
  then obtain x xs' where xs: "xs = x # xs'" by (cases xs) auto
  have "add_mset y (mset (take i xs) + mset (drop (Suc i) xs)) = add_mset y (mset ys)"
    using mset_take_nth_drop [OF i(1)] Cons.prems i(2) by simp
  then have "mset ys = mset (take i xs @ drop (Suc i) xs)" by simp
  then obtain ns where "shuffle ns (take i xs @ drop (Suc i) xs) = ys"
    using Cons.IH by blast
  with i xs have "shuffle (i # ns) xs = y # ys" by (simp add: Let_def)
  then show ?case by blast
qed

lemma set_shuffle [simp]: "set (shuffle ns xs) = set xs"
  by (metis mset_shuffle set_mset_mset)

lemma length_shuffle [simp]: "length (shuffle ns xs) = length xs"
  by (metis mset_shuffle size_mset)

lemma shuffle_Nil [simp]: "shuffle ns [] = []"
  by (cases ns) auto

lemma gomap_ok_shuffle [simp]: "gomap_ok (shuffle ns m) \<longleftrightarrow> gomap_ok m"
  unfolding gomap_ok_def by (rule mset_eq_imp_distinct_iff) simp

lemma map_of_shuffle [simp]:
  assumes "gomap_ok m"
  shows "map_of (shuffle ns m) = map_of m"
proof
  fix k
  have ok: "gomap_ok (shuffle ns m)" using assms by simp
  show "map_of (shuffle ns m) k = map_of m k"
    using gomap_ok_map_of [OF ok] gomap_ok_map_of [OF assms]
    by (metis not_Some_eq set_shuffle)
qed

end
