(* ===== verification/Go_Strings.thy ===== *)
theory Go_Strings
  imports Go_Prelude
begin

text \<open>
  Go strings are byte strings, here \<open>string = char list\<close>: \<open>len\<close> is \<open>length\<close>, \<open>+\<close> is \<open>@\<close>, and a
  slice expression out of range panics. The theory defines the functions of the packages
  \<open>strings\<close>, \<open>sort\<close>, \<open>strconv\<close> and \<open>fmt\<close> that the code calls, on bytes.
\<close>

section \<open>Searching\<close>

definition has_prefix :: "string \<Rightarrow> string \<Rightarrow> bool" where
  "has_prefix s p = (take (length p) s = p)"

definition has_suffix :: "string \<Rightarrow> string \<Rightarrow> bool" where
  "has_suffix s p = has_prefix (rev s) (rev p)"

lemma has_prefix_iff: "has_prefix s p \<longleftrightarrow> (\<exists>t. s = p @ t)"
  by (auto simp: has_prefix_def) (metis append_take_drop_id)

lemma has_suffix_iff: "has_suffix s p \<longleftrightarrow> (\<exists>t. s = t @ p)"
proof
  assume "has_suffix s p"
  then obtain t where "rev s = rev p @ t" by (auto simp: has_suffix_def has_prefix_iff)
  then have "rev (rev s) = rev (rev p @ t)" by simp
  then show "\<exists>t. s = t @ p" by auto
qed (auto simp: has_suffix_def has_prefix_iff)

lemma has_prefix_append [simp]: "has_prefix (p @ t) p"
  by (simp add: has_prefix_def)

definition trim_prefix :: "string \<Rightarrow> string \<Rightarrow> string" where
  "trim_prefix s p = (if has_prefix s p then drop (length p) s else s)"

definition trim_suffix :: "string \<Rightarrow> string \<Rightarrow> string" where
  "trim_suffix s p = (if has_suffix s p then take (length s - length p) s else s)"

lemma trim_prefix_append [simp]: "trim_prefix (p @ t) p = t"
  by (simp add: trim_prefix_def)

lemma trim_suffix_append [simp]: "trim_suffix (t @ p) p = t"
  by (auto simp: trim_suffix_def has_suffix_iff)

text \<open>\<open>strings.Index\<close>: the offset of the first occurrence (Go's -1 is \<open>None\<close>).\<close>

fun str_index :: "string \<Rightarrow> string \<Rightarrow> nat option" where
  "str_index sub [] = (if sub = [] then Some 0 else None)"
| "str_index sub (c # cs) =
     (if has_prefix (c # cs) sub then Some 0 else map_option Suc (str_index sub cs))"

lemma str_index_Some:
  "str_index sub s = Some i \<Longrightarrow> \<exists>u v. s = u @ sub @ v \<and> length u = i"
proof (induction sub s arbitrary: i rule: str_index.induct)
  case (2 sub c cs)
  show ?case
  proof (cases "has_prefix (c # cs) sub")
    case True
    with 2 show ?thesis by (auto simp: has_prefix_iff)
  next
    case False
    with 2 obtain j where j: "str_index sub cs = Some j" "i = Suc j" by auto
    with 2 False obtain u v where "cs = u @ sub @ v" "length u = j" by blast
    with j have "c # cs = (c # u) @ sub @ v \<and> length (c # u) = i" by simp
    then show ?thesis by blast
  qed
qed (auto split: if_splits)

lemma str_index_bound: "str_index sub s = Some i \<Longrightarrow> i + length sub \<le> length s"
  by (auto dest: str_index_Some)

definition contains :: "string \<Rightarrow> string \<Rightarrow> bool" where
  "contains s sub = (str_index sub s \<noteq> None)"

definition contains_any :: "string \<Rightarrow> string \<Rightarrow> bool" where
  "contains_any s cs = list_ex (\<lambda>c. c \<in> set cs) s"

text \<open>\<open>strings.LastIndexAny\<close> followed by \<open>s[idx+1:]\<close>: what follows the last of the separators.\<close>

definition last_index_any :: "string \<Rightarrow> string \<Rightarrow> nat option" where
  "last_index_any s cs =
     (if contains_any s cs
      then Some (length s - Suc (length (takeWhile (\<lambda>c. c \<notin> set cs) (rev s)))) else None)"

lemma last_index_any_bound:
  assumes "last_index_any s cs = Some i"
  shows "i < length s"
proof -
  from assms have "s \<noteq> []" by (auto simp: last_index_any_def contains_any_def split: if_splits)
  with assms show ?thesis by (auto simp: last_index_any_def split: if_splits)
qed

lemma after_last_index_any:
  assumes "last_index_any s cs = Some i"
  shows "drop (Suc i) s = rev (takeWhile (\<lambda>c. c \<notin> set cs) (rev s))"
proof -
  let ?t = "takeWhile (\<lambda>c. c \<notin> set cs) (rev s)"
  let ?d = "dropWhile (\<lambda>c. c \<notin> set cs) (rev s)"
  from assms have ex: "\<exists>c\<in>set s. c \<in> set cs" and i: "i = length s - Suc (length ?t)"
    by (auto simp: last_index_any_def contains_any_def list_ex_iff split: if_splits)
  from ex have "?d \<noteq> []" by auto
  then obtain x d where d: "?d = x # d" by (cases ?d) auto
  have "rev (rev s) = rev (?t @ ?d)" by (simp only: takeWhile_dropWhile_id)
  then have s: "s = (rev d @ [x]) @ rev ?t" by (simp add: d)
  then have "length s = length (rev d @ [x]) + length ?t" by (metis length_append length_rev)
  with i have "Suc i = length (rev d @ [x])" by simp
  then show ?thesis by (metis s append_eq_conv_conj)
qed

section \<open>Splitting, joining, replacing\<close>

fun split_on :: "char \<Rightarrow> string \<Rightarrow> string list" where
  "split_on c [] = [[]]"
| "split_on c (x # xs) =
     (if x = c then [] # split_on c xs
      else case split_on c xs of [] \<Rightarrow> [[x]] | p # ps \<Rightarrow> (x # p) # ps)"

fun join :: "string \<Rightarrow> string list \<Rightarrow> string" where
  "join sep [] = []"
| "join sep [p] = p"
| "join sep (p # q # ps) = p @ sep @ join sep (q # ps)"

lemma split_on_ne [simp]: "split_on c s \<noteq> []"
  by (cases s) (auto split: list.splits)

lemma join_split_on [simp]: "join [c] (split_on c s) = s"
proof (induction s)
  case (Cons x s)
  obtain p ps where eq: "split_on c s = p # ps" by (cases "split_on c s") auto
  show ?case
  proof (cases "x = c")
    case True
    with Cons eq show ?thesis by simp
  next
    case False
    from Cons eq have "x # join [c] (p # ps) = x # s" by simp
    moreover have "x # join [c] (p # ps) = join [c] ((x # p) # ps)" by (cases ps) auto
    ultimately show ?thesis using False eq by simp
  qed
qed simp

lemma split_on_no_sep: "p \<in> set (split_on c s) \<Longrightarrow> c \<notin> set p"
  by (induction s arbitrary: p) (auto split: if_splits list.splits)

lemma split_on_id: "c \<notin> set s \<Longrightarrow> split_on c s = [s]"
  by (induction s) auto

lemma split_on_append_sep: "c \<notin> set u \<Longrightarrow> split_on c (u @ c # v) = u # split_on c v"
  by (induction u) auto

lemma split_on_join:
  "ps \<noteq> [] \<Longrightarrow> (\<forall>p\<in>set ps. c \<notin> set p) \<Longrightarrow> split_on c (join [c] ps) = ps"
  by (induction "[c]" ps rule: join.induct) (auto simp: split_on_id split_on_append_sep)

text \<open>\<open>strings.Replace(s, a, b, 1)\<close> and \<open>strings.ReplaceAll(s, c, "")\<close> for one byte.\<close>

definition replace1 :: "string \<Rightarrow> string \<Rightarrow> string \<Rightarrow> string" where
  "replace1 s a b = (case str_index a s of None \<Rightarrow> s
     | Some i \<Rightarrow> take i s @ b @ drop (i + length a) s)"

definition trim_right :: "string \<Rightarrow> string \<Rightarrow> string" where
  "trim_right s cs = rev (dropWhile (\<lambda>c. c \<in> set cs) (rev s))"

lemma trim_right_last: "trim_right s cs \<noteq> [] \<Longrightarrow> last (trim_right s cs) \<notin> set cs"
  using hd_dropWhile [of "\<lambda>c. c \<in> set cs" "rev s"] by (simp add: trim_right_def last_rev)

lemma trim_right_prefix: "\<exists>t. s = trim_right s cs @ t \<and> set t \<subseteq> set cs"
proof -
  let ?t = "takeWhile (\<lambda>c. c \<in> set cs) (rev s)"
  have "rev (rev s) = rev (?t @ dropWhile (\<lambda>c. c \<in> set cs) (rev s))"
    by (simp only: takeWhile_dropWhile_id)
  then have "s = trim_right s cs @ rev ?t" by (simp add: trim_right_def del: takeWhile_dropWhile_id)
  moreover have "set (rev ?t) \<subseteq> set cs" by (auto dest: set_takeWhileD)
  ultimately show ?thesis by blast
qed

section \<open>White space and case\<close>

text \<open>
  \<open>strings.TrimSpace\<close> removes the runes for which \<open>unicode.IsSpace\<close> holds from both ends. In UTF-8
  these are the six ASCII bytes below and the multi-byte sequences of U+0085, U+00A0, U+1680,
  U+2000 to U+200A, U+2028, U+2029, U+202F, U+205F and U+3000.
\<close>

definition space_runes :: "string list" where
  "space_runes =
     map (\<lambda>b. [char_of (b :: nat)]) [9, 10, 11, 12, 13, 32] @
     map (map (\<lambda>b. char_of (b :: nat)))
       ([[194, 133], [194, 160], [225, 154, 128]] @
        map (\<lambda>b. [226, 128, b]) [128..<139] @
        [[226, 128, 168], [226, 128, 169], [226, 128, 175], [226, 129, 159], [227, 128, 128]])"

definition strip_one :: "string list \<Rightarrow> string \<Rightarrow> string option" where
  "strip_one rs s = (case List.find (has_prefix s) rs of None \<Rightarrow> None
     | Some r \<Rightarrow> Some (drop (length r) s))"

fun strip_all :: "nat \<Rightarrow> string list \<Rightarrow> string \<Rightarrow> string" where
  "strip_all 0 rs s = s"
| "strip_all (Suc n) rs s = (case strip_one rs s of None \<Rightarrow> s | Some t \<Rightarrow> strip_all n rs t)"

definition trim_space :: "string \<Rightarrow> string" where
  "trim_space s =
     (let l = strip_all (length s) space_runes s
      in rev (strip_all (length l) (map rev space_runes) (rev l)))"

lemma strip_all_suffix: "\<exists>u. s = u @ strip_all n rs s"
proof (induction n rs s rule: strip_all.induct)
  case (2 n rs s)
  show ?case
  proof (cases "strip_one rs s")
    case (Some t)
    then obtain r where r: "List.find (has_prefix s) rs = Some r" "t = drop (length r) s"
      by (auto simp: strip_one_def split: option.splits)
    then have "s = take (length r) s @ t" by simp
    moreover from 2 [OF Some] obtain u where "t = u @ strip_all n rs t" by blast
    ultimately have "s = (take (length r) s @ u) @ strip_all (Suc n) rs s"
      using Some by simp
    then show ?thesis by blast
  qed simp
qed simp

lemma trim_space_infix: "\<exists>u v. s = u @ trim_space s @ v"
proof -
  let ?l = "strip_all (length s) space_runes s"
  obtain u where "s = u @ ?l" using strip_all_suffix by blast
  moreover obtain v where "rev ?l = v @ strip_all (length ?l) (map rev space_runes) (rev ?l)"
    using strip_all_suffix by blast
  then have "rev (rev ?l) = rev (v @ strip_all (length ?l) (map rev space_runes) (rev ?l))"
    by simp
  then have "?l = trim_space s @ rev v" by (simp add: trim_space_def Let_def)
  ultimately show ?thesis by metis
qed

definition graphic :: "char \<Rightarrow> bool" where
  "graphic c \<longleftrightarrow> 33 \<le> (of_char c :: nat) \<and> (of_char c :: nat) < 127"

lemma space_runes_ends: "r \<in> set space_runes \<Longrightarrow> r \<noteq> [] \<and> \<not> graphic (hd r) \<and> \<not> graphic (last r)"
  by (auto simp: space_runes_def graphic_def)

lemma strip_all_id: "(\<And>r. r \<in> set rs \<Longrightarrow> \<not> has_prefix s r) \<Longrightarrow> strip_all n rs s = s"
  by (cases n) (auto simp: strip_one_def find_None_iff split: option.split dest: find_Some_iff [THEN iffD1])

lemma graphic_prefix: "s \<noteq> [] \<Longrightarrow> graphic (hd s) \<Longrightarrow> r \<noteq> [] \<Longrightarrow> \<not> graphic (hd r) \<Longrightarrow> \<not> has_prefix s r"
  by (cases r) (auto simp: has_prefix_iff)

lemma trim_graphic:
  assumes "s \<noteq> []" "graphic (hd s)" "graphic (last s)"
  shows "trim_space s = s"
proof -
  have "strip_all (length s) space_runes s = s"
    using graphic_prefix [OF assms(1,2)] space_runes_ends by (intro strip_all_id) blast
  moreover have "\<not> has_prefix (rev s) r" if "r \<in> set (map rev space_runes)" for r
    using that assms space_runes_ends graphic_prefix [of "rev s" r] by (auto simp: hd_rev)
  then have "strip_all (length s) (map rev space_runes) (rev s) = rev s" by (intro strip_all_id)
  ultimately show ?thesis by (simp add: trim_space_def Let_def)
qed

text \<open>ASCII letters are lowered bytewise; \<open>strings.ToLower\<close> of a string with other runes is not
  under the repository's control and stays a parameter where it is used.\<close>

definition is_ascii :: "string \<Rightarrow> bool" where
  "is_ascii s = list_all (\<lambda>c. of_char c < (128 :: nat)) s"

definition lower_byte :: "char \<Rightarrow> char" where
  "lower_byte c = (let n = of_char c :: nat in if 65 \<le> n \<and> n \<le> 90 then char_of (n + 32) else c)"

definition ascii_lower :: "string \<Rightarrow> string" where
  "ascii_lower = map lower_byte"

lemma length_ascii_lower [simp]: "length (ascii_lower s) = length s"
  by (simp add: ascii_lower_def)

section \<open>Runes\<close>

text \<open>The width of the first rune of a non-empty string (\<open>utf8.DecodeRuneInString\<close>), 1 for an invalid one.\<close>

definition in_range :: "nat \<Rightarrow> nat \<Rightarrow> char \<Rightarrow> bool" where
  "in_range lo hi c \<longleftrightarrow> lo \<le> of_char c \<and> of_char c \<le> hi"

definition rune_width :: "string \<Rightarrow> nat" where
  "rune_width s =
     (let cont = in_range 128 191
      in case s of
           a # b # rest \<Rightarrow>
             (if in_range 194 223 a \<and> cont b then 2
              else (case rest of
                c # rest' \<Rightarrow>
                  (if (in_range 225 236 a \<or> in_range 238 239 a) \<and> cont b \<and> cont c \<or>
                      in_range 224 224 a \<and> in_range 160 191 b \<and> cont c \<or>
                      in_range 237 237 a \<and> in_range 128 159 b \<and> cont c then 3
                   else (case rest' of
                     d # _ \<Rightarrow>
                       (if in_range 241 243 a \<and> cont b \<and> cont c \<and> cont d \<or>
                           in_range 240 240 a \<and> in_range 144 191 b \<and> cont c \<and> cont d \<or>
                           in_range 244 244 a \<and> in_range 128 143 b \<and> cont c \<and> cont d then 4 else 1)
                   | [] \<Rightarrow> 1))
              | [] \<Rightarrow> 1))
         | _ \<Rightarrow> 1)"

section \<open>Decimal numbers\<close>

definition digit_char :: "nat \<Rightarrow> char" where
  "digit_char d = char_of (48 + d)"

definition digit_val :: "char \<Rightarrow> nat" where
  "digit_val c = of_char c - 48"

definition is_digit :: "char \<Rightarrow> bool" where
  "is_digit c = (48 \<le> (of_char c :: nat) \<and> (of_char c :: nat) \<le> 57)"

fun nat_str :: "nat \<Rightarrow> string" where
  "nat_str n = (if n < 10 then [digit_char n] else nat_str (n div 10) @ [digit_char (n mod 10)])"

declare nat_str.simps [simp del]

definition int_str :: "int \<Rightarrow> string" where
  "int_str i = (if i < 0 then CHR ''-'' # nat_str (nat (- i)) else nat_str (nat i))"

definition str_nat :: "string \<Rightarrow> nat" where
  "str_nat = foldl (\<lambda>a c. 10 * a + digit_val c) 0"

lemma digit_val_char [simp]: "d < 10 \<Longrightarrow> digit_val (digit_char d) = d"
  by (simp add: digit_val_def digit_char_def)

lemma is_digit_char [simp]: "d < 10 \<Longrightarrow> is_digit (digit_char d)"
  by (simp add: is_digit_def digit_char_def)

lemma nat_str_ne [simp]: "nat_str n \<noteq> []"
  by (subst nat_str.simps) simp

lemma str_nat_nat_str [simp]: "str_nat (nat_str n) = n"
proof (induction n rule: nat_str.induct)
  case (1 n)
  then show ?case by (subst nat_str.simps) (auto simp: str_nat_def)
qed

lemma nat_str_inject [simp]: "nat_str m = nat_str n \<longleftrightarrow> m = n"
  by (metis str_nat_nat_str)

lemma nat_str_digits: "list_all is_digit (nat_str n)"
proof (induction n rule: nat_str.induct)
  case (1 n)
  then show ?case by (subst nat_str.simps) auto
qed

lemma not_digit_minus [simp]: "\<not> is_digit (CHR ''-'')"
  by (simp add: is_digit_def)

lemma int_str_inject [simp]: "int_str i = int_str j \<longleftrightarrow> i = j"
proof -
  have "CHR ''-'' # s \<noteq> nat_str n" for s n
    by (metis list.pred_inject(2) nat_str_digits not_digit_minus)
  then show ?thesis by (auto simp: int_str_def dest: sym)
qed

lemma int_str_chars: "c \<in> set (int_str i) \<Longrightarrow> c = CHR ''-'' \<or> is_digit c"
  using nat_str_digits [of "nat i"] nat_str_digits [of "nat (- i)"]
  by (auto simp: int_str_def list_all_iff split: if_splits)

end
