(* ===== verification/Go_Float64.thy ===== *)
theory Go_Float64
  imports Complex_Main Go_Strings
begin

text \<open>
  Go's \<open>float64\<close>: IEEE 754 binary64 with round to nearest, ties to even. A finite non-zero value
  and positive zero are rationals, negative zero, the infinities and NaN have constructors of
  their own. Every operation computes the exact rational result and rounds it once, as the
  standard and the Go specification require of an unfused operation; \<open>is_f64\<close> says which rationals
  are values of the format, and every operation returns one. (The Go compiler may fuse
  \<open>x*y + z\<close> on some architectures; the model is the unfused evaluation of amd64.)
\<close>

section \<open>Values and rounding\<close>

datatype f64 = NaN | PInf | NInf | NegZero | Fin rat

fun nbits :: "nat \<Rightarrow> nat" where
  "nbits n = (if n = 0 then 0 else Suc (nbits (n div 2)))"

declare nbits.simps [simp del]

definition ilog2 :: "rat \<Rightarrow> int" where
  "ilog2 q =
     (if 1 \<le> q then int (nbits (nat \<lfloor>q\<rfloor>)) - 1
      else - int (nbits (nat (\<lceil>1 / q\<rceil> - 1))))"

definition round_even :: "rat \<Rightarrow> int" where
  "round_even x =
     (let n = \<lfloor>x\<rfloor>; d = x - of_int n
      in if d < 1/2 then n else if 1/2 < d then n + 1 else if even n then n else n + 1)"

text \<open>The exponent of the unit in the last place: 53 significant bits, at least \<open>2 ^ -1074\<close>.\<close>

definition ulp_exp :: "rat \<Rightarrow> int" where
  "ulp_exp q = max (ilog2 \<bar>q\<bar> - 52) (- 1074)"

definition round_fin :: "rat \<Rightarrow> rat" where
  "round_fin q =
     (if q = 0 then 0 else of_int (round_even (q / 2 powi ulp_exp q)) * 2 powi ulp_exp q)"

definition overflows :: "rat \<Rightarrow> bool" where
  "overflows r = (r \<noteq> 0 \<and> 1024 \<le> ilog2 \<bar>r\<bar>)"

definition rnd :: "rat \<Rightarrow> f64" where
  "rnd q =
     (let r = round_fin q
      in if overflows r then (if 0 < r then PInf else NInf)
         else if r = 0 \<and> q < 0 then NegZero else Fin r)"

section \<open>Correctness of the rounding\<close>

lemma nbits_bounds: "0 < n \<Longrightarrow> \<exists>k. nbits n = Suc k \<and> 2 ^ k \<le> n \<and> n < 2 ^ Suc k"
proof (induction n rule: nbits.induct)
  case (1 n)
  have eq: "nbits n = Suc (nbits (n div 2))" using 1 by (subst nbits.simps) simp
  show ?case
  proof (cases "n div 2 = 0")
    case True
    with 1 have "n = 1" by auto
    then show ?thesis by (simp add: nbits.simps)
  next
    case False
    with 1 obtain k where "nbits (n div 2) = Suc k" "2 ^ k \<le> n div 2" "n div 2 < 2 ^ Suc k"
      by auto
    with eq show ?thesis by (intro exI [of _ "Suc k"]) auto
  qed
qed

lemma powi2_le_iff: "(2::rat) powi a \<le> 2 powi b \<longleftrightarrow> a \<le> b"
  using power_int_increasing [of a b "2::rat"] power_int_strict_increasing [of b a "2::rat"]
  by (cases "a \<le> b") auto

lemma powi2_less_iff: "(2::rat) powi a < 2 powi b \<longleftrightarrow> a < b"
  using powi2_le_iff [of b a] by linarith

lemma of_nat_pow2_le: "2 ^ k \<le> n \<Longrightarrow> (2::rat) ^ k \<le> of_nat n"
  by (metis of_nat_le_iff of_nat_numeral of_nat_power)

lemma of_nat_pow2_less: "n < 2 ^ k \<Longrightarrow> of_nat n + 1 \<le> (2::rat) ^ k"
  using of_nat_le_iff [of "Suc n" "2 ^ k", where 'a = rat] by (simp add: add.commute)

lemma ilog2_bounds_ge1:
  assumes "1 \<le> q"
  shows "2 powi (ilog2 q) \<le> q \<and> q < 2 powi (ilog2 q + 1)"
proof -
  define n where "n = nat \<lfloor>q\<rfloor>"
  have n: "0 < n" and nf: "of_nat n = (of_int \<lfloor>q\<rfloor> :: rat)" using assms by (simp_all add: n_def)
  from nbits_bounds [OF n] obtain k
    where k: "nbits n = Suc k" and lo: "2 ^ k \<le> n" and hi: "n < 2 ^ Suc k" by blast
  have e: "ilog2 q = int k" using assms k by (simp add: ilog2_def n_def)
  have "2 ^ k \<le> q" using of_nat_pow2_le [OF lo] nf of_int_floor_le [of q] by linarith
  moreover have "q < 2 ^ Suc k"
    using of_nat_pow2_less [OF hi] nf floor_correct [of q] by linarith
  moreover have "2 powi (int k + 1) = (2 ^ Suc k :: rat)"
    using power_int_of_nat [of "2::rat" "Suc k"] by (simp add: add.commute)
  ultimately show ?thesis unfolding e by simp
qed

lemma ilog2_bounds_lt1:
  assumes "0 < q" and "q < 1"
  shows "2 powi (ilog2 q) \<le> q \<and> q < 2 powi (ilog2 q + 1)"
proof -
  define n where "n = nat (\<lceil>1 / q\<rceil> - 1)"
  have "1 < 1 / q" using assms by simp
  then have c: "1 < \<lceil>1 / q\<rceil>" by (simp add: less_ceiling_iff)
  then have ni: "int n = \<lceil>1 / q\<rceil> - 1" unfolding n_def by linarith
  then have n: "0 < n" using c by linarith
  have nf: "of_nat n = (of_int \<lceil>1 / q\<rceil> - 1 :: rat)"
    using arg_cong [OF ni, of "of_int :: int \<Rightarrow> rat"]
    by (simp only: of_int_of_nat_eq of_int_diff of_int_1)
  from nbits_bounds [OF n] obtain k
    where k: "nbits n = Suc k" and lo: "2 ^ k \<le> n" and hi: "n < 2 ^ Suc k" by blast
  have e: "ilog2 q = - int (Suc k)" using assms k by (simp add: ilog2_def n_def)
  have "2 ^ k < 1 / q" using of_nat_pow2_le [OF lo] nf ceiling_correct [of "1 / q"] by linarith
  then have "q < 1 / 2 ^ k" using assms by (simp add: field_simps)
  moreover have "1 / q \<le> 2 ^ Suc k"
    using of_nat_pow2_less [OF hi] nf le_of_int_ceiling [of "1 / q"] by linarith
  then have "1 / 2 ^ Suc k \<le> q" using assms by (simp add: field_simps)
  moreover have "2 powi (- int (Suc k)) = (1 / 2 ^ Suc k :: rat)"
    unfolding power_int_minus power_int_of_nat by (simp only: inverse_eq_divide)
  moreover have "2 powi (- int (Suc k) + 1) = (1 / 2 ^ k :: rat)"
  proof -
    have "- int (Suc k) + 1 = - int k" by simp
    moreover have "2 powi (- int k) = (1 / 2 ^ k :: rat)"
      unfolding power_int_minus power_int_of_nat by (simp only: inverse_eq_divide)
    ultimately show ?thesis by presburger
  qed
  ultimately show ?thesis unfolding e by linarith
qed

lemma ilog2_bounds:
  assumes "0 < q"
  shows "2 powi (ilog2 q) \<le> q" and "q < 2 powi (ilog2 q + 1)"
  using ilog2_bounds_ge1 [of q] ilog2_bounds_lt1 [of q] assms by linarith+

lemma ilog2_unique:
  assumes "2 powi e \<le> q" and "q < 2 powi (e + 1)"
  shows "ilog2 q = e"
proof -
  have q: "0 < q" using assms(1) by (metis zero_less_power_int less_le_trans zero_less_numeral)
  have "2 powi e < (2::rat) powi (ilog2 q + 1)"
    using assms(1) ilog2_bounds(2) [OF q] by linarith
  moreover have "2 powi ilog2 q < (2::rat) powi (e + 1)"
    using assms(2) ilog2_bounds(1) [OF q] by linarith
  ultimately show ?thesis unfolding powi2_less_iff by linarith
qed

lemma ilog2_mono:
  assumes "0 < p" and "p \<le> q"
  shows "ilog2 p \<le> ilog2 q"
proof -
  have "2 powi ilog2 p < (2::rat) powi (ilog2 q + 1)"
    using ilog2_bounds(1) [of p] ilog2_bounds(2) [of q] assms by linarith
  then show ?thesis unfolding powi2_less_iff by linarith
qed

lemma ilog2_ge_iff: "0 < q \<Longrightarrow> e \<le> ilog2 q \<longleftrightarrow> 2 powi e \<le> q"
proof
  assume "0 < q" "e \<le> ilog2 q"
  then show "2 powi e \<le> q" using ilog2_bounds(1) [of q] powi2_le_iff [of e "ilog2 q"] by linarith
next
  assume "0 < q" "2 powi e \<le> q"
  then have "2 powi e < (2::rat) powi (ilog2 q + 1)" using ilog2_bounds(2) [of q] by linarith
  then show "e \<le> ilog2 q" unfolding powi2_less_iff by linarith
qed

lemma round_even_of_int [simp]: "round_even (of_int n) = n"
  by (simp add: round_even_def)

lemma round_even_cases:
  "round_even x = \<lfloor>x\<rfloor> \<and> x - of_int \<lfloor>x\<rfloor> \<le> 1/2 \<or>
   round_even x = \<lfloor>x\<rfloor> + 1 \<and> 1/2 \<le> x - of_int \<lfloor>x\<rfloor>"
  by (simp add: round_even_def Let_def)

lemma round_even_dist: "\<bar>of_int (round_even x) - x\<bar> \<le> 1/2"
  using round_even_cases [of x] floor_correct [of x] by (auto simp: abs_le_iff)

lemma round_even_mono:
  assumes "x \<le> y"
  shows "round_even x \<le> round_even y"
proof (cases "\<lfloor>x\<rfloor> = \<lfloor>y\<rfloor>")
  case True
  with assms show ?thesis by (auto simp: round_even_def Let_def)
next
  case False
  moreover have "\<lfloor>x\<rfloor> \<le> \<lfloor>y\<rfloor>" using assms by (rule floor_mono)
  ultimately have "\<lfloor>x\<rfloor> + 1 \<le> \<lfloor>y\<rfloor>" by linarith
  then show ?thesis using round_even_cases [of x] round_even_cases [of y] by linarith
qed

lemma round_even_minus: "round_even (- x) = - round_even x"
proof (cases "x = of_int \<lfloor>x\<rfloor>")
  case True
  then show ?thesis by (metis of_int_minus round_even_of_int)
next
  case False
  have f: "\<lfloor>- x\<rfloor> = - \<lfloor>x\<rfloor> - 1" using False by (simp add: floor_minus ceiling_altdef)
  have "0 < x - of_int \<lfloor>x\<rfloor>" using False floor_correct [of x] by linarith
  then show ?thesis unfolding round_even_def Let_def f by (auto simp: field_simps)
qed

section \<open>Rounding of rationals: symmetry, exactness, monotonicity\<close>

lemma powi2_pos [simp]: "0 < (2::rat) powi e"
  by simp

lemma round_fin_0 [simp]: "round_fin 0 = 0"
  by (simp add: round_fin_def)

lemma round_fin_minus [simp]: "round_fin (- q) = - round_fin q"
  by (simp add: round_fin_def ulp_exp_def round_even_minus)

lemma ulp_exp_ge: "- 1074 \<le> ulp_exp q" and ulp_exp_ilog2: "ilog2 \<bar>q\<bar> \<le> ulp_exp q + 52"
  by (simp_all add: ulp_exp_def)

lemma scaled_less: "0 < q \<Longrightarrow> q / 2 powi ulp_exp q < 2 ^ 53"
proof -
  assume q: "0 < q"
  have "q < 2 powi (ilog2 q + 1)" by (rule ilog2_bounds(2) [OF q])
  also have "\<dots> \<le> 2 powi (53 + ulp_exp q)"
    unfolding powi2_le_iff using ulp_exp_ilog2 [of q] q by simp
  also have "\<dots> = 2 ^ 53 * 2 powi ulp_exp q" by (simp add: power_int_add)
  finally show ?thesis by (simp add: divide_less_eq)
qed

definition representable :: "rat \<Rightarrow> bool" where
  "representable q \<longleftrightarrow> (\<exists>n k. q = of_int n * 2 powi k \<and> \<bar>n\<bar> \<le> 2 ^ 53 \<and> - 1074 \<le> k)"

lemma representable_minus: "representable q \<Longrightarrow> representable (- q)"
proof -
  assume "representable q"
  then obtain n k where "q = of_int n * 2 powi k" "\<bar>n\<bar> \<le> 2 ^ 53" "- 1074 \<le> k"
    by (auto simp: representable_def)
  then have "- q = of_int (- n) * 2 powi k" "\<bar>- n\<bar> \<le> 2 ^ 53" by simp_all
  with \<open>- 1074 \<le> k\<close> show "representable (- q)" unfolding representable_def by blast
qed

lemma representable_int: "\<bar>n\<bar> \<le> 2 ^ 53 \<Longrightarrow> representable (of_int n)"
  unfolding representable_def by (intro exI [of _ n] exI [of _ "0::int"]) simp

lemma representable_round_fin_pos: "0 < q \<Longrightarrow> representable (round_fin q)"
proof -
  assume q: "0 < q"
  let ?n = "round_even (q / 2 powi ulp_exp q)"
  have "round_even 0 \<le> ?n" by (rule round_even_mono) (use q in simp)
  then have "0 \<le> ?n" using round_even_of_int [of 0] by simp
  moreover have "?n \<le> round_even (of_int (2 ^ 53))"
    by (rule round_even_mono) (use scaled_less [OF q] in simp)
  ultimately have "\<bar>?n\<bar> \<le> 2 ^ 53" unfolding round_even_of_int by simp
  then show ?thesis unfolding representable_def
    using q ulp_exp_ge [of q] by (auto simp: round_fin_def)
qed

lemma representable_round_fin: "representable (round_fin q)"
proof (cases q "0 :: rat" rule: linorder_cases)
  case less
  then have "representable (- round_fin (- q))"
    by (intro representable_minus representable_round_fin_pos) simp
  then show ?thesis by simp
next
  case equal
  then show ?thesis using representable_int [of 0] by simp
qed (rule representable_round_fin_pos)

lemma round_fin_int_multiple:
  assumes "q = of_int m * 2 powi ulp_exp q"
  shows "round_fin q = q"
proof (cases "q = 0")
  case False
  have "q / 2 powi ulp_exp q = of_int m" using assms by (metis nonzero_mult_div_cancel_right
        less_irrefl powi2_pos)
  then show ?thesis using False assms by (simp add: round_fin_def)
qed simp

lemma round_fin_exact_pos:
  assumes "0 < q" and "representable q"
  shows "round_fin q = q"
proof -
  from assms(2) obtain n k where q: "q = of_int n * 2 powi k" and n: "\<bar>n\<bar> \<le> 2 ^ 53"
    and k: "- 1074 \<le> k" by (auto simp: representable_def)
  let ?e = "ulp_exp q"
  show ?thesis
  proof (cases "?e \<le> k")
    case True
    have "(2::rat) powi k = 2 powi (k - ?e) * 2 powi ?e"
      by (simp flip: power_int_add)
    also have "(2::rat) powi (k - ?e) = of_int (2 ^ nat (k - ?e))"
      using True by (simp add: power_int_nonneg_exp)
    finally have "q = of_int (n * 2 ^ nat (k - ?e)) * 2 powi ?e" by (simp add: q)
    then show ?thesis by (rule round_fin_int_multiple)
  next
    case False
    then have e: "?e = ilog2 q - 52" using k assms(1) by (simp add: ulp_exp_def split: if_splits)
    have "2 powi (?e + 52) \<le> q" using ilog2_bounds(1) [OF assms(1)] e by simp
    moreover have qle: "q \<le> 2 ^ 53 * 2 powi k"
    proof -
      have "of_int n \<le> (of_int (2 ^ 53) :: rat)" using n by (simp only: of_int_le_iff)
      then show ?thesis unfolding q by (intro mult_right_mono) simp_all
    qed
    moreover have p53: "(2::rat) ^ 53 * 2 powi k = 2 powi (k + 53)" by (simp add: power_int_add)
    ultimately have "2 powi (?e + 52) \<le> (2::rat) powi (k + 53)" by simp
    then have ek: "?e = k + 1" using False unfolding powi2_le_iff by simp
    with \<open>2 powi (?e + 52) \<le> q\<close> qle p53 have "q = 2 powi (?e + 52)" by (simp add: add.commute)
    then have "q = of_int (2 ^ 52) * 2 powi ?e" by (simp add: power_int_add)
    then show ?thesis by (rule round_fin_int_multiple)
  qed
qed

lemma round_fin_exact: "representable q \<Longrightarrow> round_fin q = q"
proof (cases q "0 :: rat" rule: linorder_cases)
  case less
  moreover assume "representable q"
  ultimately have "round_fin (- q) = - q"
    by (intro round_fin_exact_pos representable_minus) auto
  then show ?thesis by simp
qed (auto intro: round_fin_exact_pos)

lemma round_fin_idem [simp]: "round_fin (round_fin q) = round_fin q"
  by (rule round_fin_exact) (rule representable_round_fin)

lemma representable_powi: "- 1074 \<le> e \<Longrightarrow> representable (2 powi e)"
  unfolding representable_def by (intro exI [of _ "1::int"] exI [of _ e]) simp

lemma round_fin_mono_same_ulp:
  assumes "0 < p" "p \<le> q" "ulp_exp p = ulp_exp q"
  shows "round_fin p \<le> round_fin q"
proof -
  have "round_even (p / 2 powi ulp_exp q) \<le> round_even (q / 2 powi ulp_exp q)"
    by (intro round_even_mono divide_right_mono) (use assms in simp_all)
  then show ?thesis using assms by (simp add: round_fin_def mult_right_mono)
qed

text \<open>A power of two on the grid of \<open>q\<close> separates what is rounded below from above it.\<close>

lemma round_fin_le_powi:
  assumes "0 < q" "q \<le> 2 powi e" "ulp_exp q \<le> e"
  shows "round_fin q \<le> 2 powi e"
proof -
  let ?u = "ulp_exp q"
  have "(2::rat) powi e = of_int (2 ^ nat (e - ?u)) * 2 powi ?u"
    using assms(3) by (simp flip: power_int_nonneg_exp power_int_add)
  moreover from this have "q / 2 powi ?u \<le> of_int (2 ^ nat (e - ?u))"
    using assms(2) by (simp add: divide_le_eq)
  then have "round_even (q / 2 powi ?u) \<le> round_even (of_int (2 ^ nat (e - ?u)))"
    by (rule round_even_mono)
  then have "(of_int (round_even (q / 2 powi ?u)) :: rat) \<le> of_int (2 ^ nat (e - ?u))"
    unfolding round_even_of_int of_int_le_iff .
  ultimately show ?thesis using assms(1) by (simp add: round_fin_def mult_right_mono)
qed

lemma round_fin_ge_powi:
  assumes "0 < q" "2 powi e \<le> q" "ulp_exp q \<le> e"
  shows "2 powi e \<le> round_fin q"
proof -
  let ?u = "ulp_exp q"
  have "(2::rat) powi e = of_int (2 ^ nat (e - ?u)) * 2 powi ?u"
    using assms(3) by (simp flip: power_int_nonneg_exp power_int_add)
  moreover from this have "of_int (2 ^ nat (e - ?u)) \<le> q / 2 powi ?u"
    using assms(2) by (simp add: le_divide_eq)
  then have "round_even (of_int (2 ^ nat (e - ?u))) \<le> round_even (q / 2 powi ?u)"
    by (rule round_even_mono)
  then have "of_int (2 ^ nat (e - ?u)) \<le> (of_int (round_even (q / 2 powi ?u)) :: rat)"
    unfolding round_even_of_int of_int_le_iff .
  ultimately show ?thesis using assms(1) by (simp add: round_fin_def mult_right_mono)
qed

lemma round_fin_mono_pos:
  assumes "0 < p" "p \<le> q"
  shows "round_fin p \<le> round_fin q"
proof (cases "ulp_exp p = ulp_exp q")
  case True
  with assms show ?thesis by (rule round_fin_mono_same_ulp)
next
  case False
  let ?e = "ilog2 q"
  have q: "0 < q" using assms by simp
  have "ilog2 p \<le> ?e" using assms by (rule ilog2_mono)
  with False have lt: "ilog2 p < ?e" and u: "ulp_exp q = ?e - 52" "ulp_exp p \<le> ?e"
    using assms q by (auto simp: ulp_exp_def)
  have "2 powi (ilog2 p + 1) \<le> (2::rat) powi ?e" unfolding powi2_le_iff using lt by simp
  then have "p \<le> 2 powi ?e" using ilog2_bounds(2) [OF assms(1)] by linarith
  then have "round_fin p \<le> 2 powi ?e" using assms(1) u(2) by (intro round_fin_le_powi)
  also have "2 powi ?e \<le> round_fin q"
    using q ilog2_bounds(1) [OF q] u(1) by (intro round_fin_ge_powi) simp_all
  finally show ?thesis .
qed

lemma round_fin_nonneg: "0 \<le> q \<Longrightarrow> 0 \<le> round_fin q"
proof (cases "q = 0")
  case False
  assume "0 \<le> q"
  have "round_even (of_int 0) \<le> round_even (q / 2 powi ulp_exp q)"
    by (rule round_even_mono) (use \<open>0 \<le> q\<close> in simp)
  then show ?thesis unfolding round_even_of_int by (simp add: round_fin_def)
qed simp

lemma round_fin_mono: "p \<le> q \<Longrightarrow> round_fin p \<le> round_fin q"
proof -
  assume le: "p \<le> q"
  consider "0 < p" | "p \<le> 0" "0 \<le> q" | "q < 0" by linarith
  then show ?thesis
  proof cases
    case 1
    with le show ?thesis by (intro round_fin_mono_pos)
  next
    case 2
    then show ?thesis using round_fin_nonneg [of "- p"] round_fin_nonneg [of q] by simp
  next
    case 3
    with le have "round_fin (- q) \<le> round_fin (- p)" by (intro round_fin_mono_pos) auto
    then show ?thesis by simp
  qed
qed

section \<open>Operations\<close>

fun fval :: "f64 \<Rightarrow> rat" where
  "fval (Fin q) = q"
| "fval _ = 0"

fun is_nan :: "f64 \<Rightarrow> bool" where
  "is_nan NaN = True"
| "is_nan _ = False"

fun is_inf :: "f64 \<Rightarrow> bool" where
  "is_inf PInf = True"
| "is_inf NInf = True"
| "is_inf _ = False"

fun sign_bit :: "f64 \<Rightarrow> bool" where
  "sign_bit NInf = True"
| "sign_bit NegZero = True"
| "sign_bit (Fin q) = (q < 0)"
| "sign_bit _ = False"

definition is_zero :: "f64 \<Rightarrow> bool" where
  "is_zero x = (x = NegZero \<or> x = Fin 0)"

definition is_f64 :: "f64 \<Rightarrow> bool" where
  "is_f64 x = (case x of Fin q \<Rightarrow> round_fin q = q \<and> \<not> overflows q | _ \<Rightarrow> True)"

definition signed_zero :: "bool \<Rightarrow> f64" where
  "signed_zero s = (if s then NegZero else Fin 0)"

definition signed_inf :: "bool \<Rightarrow> f64" where
  "signed_inf s = (if s then NInf else PInf)"

fun fneg :: "f64 \<Rightarrow> f64" where
  "fneg NaN = NaN"
| "fneg PInf = NInf"
| "fneg NInf = PInf"
| "fneg NegZero = Fin 0"
| "fneg (Fin q) = (if q = 0 then NegZero else Fin (- q))"

definition fadd :: "f64 \<Rightarrow> f64 \<Rightarrow> f64" where
  "fadd x y =
     (if is_nan x \<or> is_nan y then NaN
      else if is_inf x then (if is_inf y \<and> x \<noteq> y then NaN else x)
      else if is_inf y then y
      else if x = NegZero \<and> y = NegZero then NegZero
      else rnd (fval x + fval y))"

definition fsub :: "f64 \<Rightarrow> f64 \<Rightarrow> f64" where
  "fsub x y = fadd x (fneg y)"

definition fmul :: "f64 \<Rightarrow> f64 \<Rightarrow> f64" where
  "fmul x y =
     (let s = (sign_bit x \<noteq> sign_bit y)
      in if is_nan x \<or> is_nan y then NaN
         else if is_inf x \<or> is_inf y then
           (if is_zero x \<or> is_zero y then NaN else signed_inf s)
         else if is_zero x \<or> is_zero y then signed_zero s
         else rnd (fval x * fval y))"

definition fdiv :: "f64 \<Rightarrow> f64 \<Rightarrow> f64" where
  "fdiv x y =
     (let s = (sign_bit x \<noteq> sign_bit y)
      in if is_nan x \<or> is_nan y then NaN
         else if is_inf x then (if is_inf y then NaN else signed_inf s)
         else if is_inf y then signed_zero s
         else if is_zero y then (if is_zero x then NaN else signed_inf s)
         else if is_zero x then signed_zero s
         else rnd (fval x / fval y))"

text \<open>Comparison: every comparison with NaN is false, the two zeros are equal. Go's \<open>a >= b\<close> is
  \<open>fle b a\<close>, its \<open>a > b\<close> is \<open>flt b a\<close>.\<close>

definition fle :: "f64 \<Rightarrow> f64 \<Rightarrow> bool" where
  "fle x y =
     (\<not> is_nan x \<and> \<not> is_nan y \<and>
      (x = NInf \<or> y = PInf \<or> \<not> is_inf x \<and> \<not> is_inf y \<and> fval x \<le> fval y))"

definition flt :: "f64 \<Rightarrow> f64 \<Rightarrow> bool" where
  "flt x y = (\<not> is_nan x \<and> \<not> is_nan y \<and> \<not> fle y x)"

definition feq :: "f64 \<Rightarrow> f64 \<Rightarrow> bool" where
  "feq x y = (fle x y \<and> fle y x)"

text \<open>The conversion \<open>float64(i)\<close> of an integer.\<close>

definition f64_of_int :: "int \<Rightarrow> f64" where
  "f64_of_int i = rnd (of_int i)"

text \<open>The conversion of a finite number to an integer truncates toward zero; it is specified only when the result fits.\<close>

definition trunc_rat :: "rat \<Rightarrow> int" where
  "trunc_rat q = (if q < 0 then - \<lfloor>- q\<rfloor> else \<lfloor>q\<rfloor>)"

section \<open>Laws of the operations\<close>

lemma fle_refl [simp]: "fle x x \<longleftrightarrow> \<not> is_nan x"
  by (cases x) (auto simp: fle_def)

lemma fle_trans: "fle x y \<Longrightarrow> fle y z \<Longrightarrow> fle x z"
  by (cases x; cases y; cases z) (auto simp: fle_def)

lemma fle_total: "\<not> is_nan x \<Longrightarrow> \<not> is_nan y \<Longrightarrow> fle x y \<or> fle y x"
  by (cases x; cases y) (auto simp: fle_def)

lemma flt_fle: "flt x y \<Longrightarrow> fle x y"
  using fle_total by (auto simp: flt_def)

lemma flt_not_fle: "flt x y \<Longrightarrow> \<not> fle y x"
  by (simp add: flt_def)

lemma not_flt_fle: "\<not> is_nan x \<Longrightarrow> \<not> is_nan y \<Longrightarrow> \<not> flt x y \<Longrightarrow> fle y x"
  by (simp add: flt_def)

lemma fle_nan [simp]: "\<not> fle NaN y" "\<not> fle x NaN" "\<not> flt NaN y" "\<not> flt x NaN"
  by (simp_all add: fle_def flt_def)

lemma fle_not_nan: "fle x y \<Longrightarrow> \<not> is_nan x \<and> \<not> is_nan y"
  by (simp add: fle_def)

lemma flt_not_nan: "flt x y \<Longrightarrow> \<not> is_nan x \<and> \<not> is_nan y"
  by (simp add: flt_def)

lemma fle_Fin [simp]: "fle (Fin p) (Fin q) \<longleftrightarrow> p \<le> q"
  by (simp add: fle_def)

lemma flt_Fin [simp]: "flt (Fin p) (Fin q) \<longleftrightarrow> p < q"
  by (auto simp: flt_def)

lemma overflows_iff: "overflows r \<longleftrightarrow> 2 ^ 1024 \<le> \<bar>r\<bar>"
proof (cases "r = 0")
  case False
  have "2 powi 1024 = (2 ^ 1024 :: rat)" by (rule power_int_numeral)
  then show ?thesis
    using False ilog2_ge_iff [of "\<bar>r\<bar>" 1024] by (simp only: overflows_def) simp
qed (simp add: overflows_def)

lemma rnd_mono: "p \<le> q \<Longrightarrow> fle (rnd p) (rnd q)"
proof -
  assume "p \<le> q"
  then have le: "round_fin p \<le> round_fin q" by (rule round_fin_mono)
  have pos: "(0::rat) < 2 ^ 1024" by (rule zero_less_power) simp
  show ?thesis
    using le pos unfolding rnd_def Let_def overflows_iff
    by (auto simp: fle_def abs_le_iff simp del: power_numeral)
qed

lemma rnd_not_nan [simp]: "\<not> is_nan (rnd q)"
  by (simp add: rnd_def Let_def)

lemma is_f64_rnd [simp]: "is_f64 (rnd q)"
  by (simp add: is_f64_def rnd_def Let_def)

lemma is_f64_simps [simp]: "is_f64 NaN" "is_f64 PInf" "is_f64 NInf" "is_f64 NegZero"
  "is_f64 (signed_zero s)" "is_f64 (signed_inf s)"
  by (simp_all add: is_f64_def signed_zero_def signed_inf_def overflows_def)

lemma overflows_minus [simp]: "overflows (- q) = overflows q"
  by (simp add: overflows_def)

lemma is_f64_fneg [simp]: "is_f64 x \<Longrightarrow> is_f64 (fneg x)"
  by (cases x) (auto simp: is_f64_def overflows_def)

lemma is_f64_fadd [simp]: "is_f64 x \<Longrightarrow> is_f64 y \<Longrightarrow> is_f64 (fadd x y)"
  by (simp add: fadd_def)

lemma is_f64_fsub [simp]: "is_f64 x \<Longrightarrow> is_f64 y \<Longrightarrow> is_f64 (fsub x y)"
  by (simp add: fsub_def)

lemma is_f64_fmul [simp]: "is_f64 (fmul x y)"
  by (simp add: fmul_def Let_def)

lemma is_f64_fdiv [simp]: "is_f64 (fdiv x y)"
  by (simp add: fdiv_def Let_def)

lemma is_f64_of_int [simp]: "is_f64 (f64_of_int i)"
  by (simp add: f64_of_int_def)

text \<open>A representable result below the overflow bound is returned exactly.\<close>

lemma rnd_exact: "representable q \<Longrightarrow> \<bar>q\<bar> < 2 ^ 1024 \<Longrightarrow> rnd q = Fin q"
  by (simp only: rnd_def round_fin_exact Let_def overflows_iff) auto

lemma pow53_lt_pow1024: "(2::rat) ^ 53 < 2 ^ 1024"
  by (rule power_strict_increasing) simp_all

lemma rnd_of_int: "\<bar>i\<bar> \<le> 2 ^ 53 \<Longrightarrow> rnd (of_int i) = Fin (of_int i)"
proof (rule rnd_exact)
  assume i: "\<bar>i\<bar> \<le> 2 ^ 53"
  then show "representable (of_int i)" by (rule representable_int)
  from i have "(of_int \<bar>i\<bar> :: rat) \<le> of_int (2 ^ 53)" by (simp only: of_int_le_iff)
  then have "\<bar>of_int i :: rat\<bar> \<le> 2 ^ 53" by simp
  then show "\<bar>of_int i :: rat\<bar> < 2 ^ 1024" using pow53_lt_pow1024 by (rule le_less_trans)
qed

lemma f64_of_int_exact: "\<bar>i\<bar> \<le> 2 ^ 53 \<Longrightarrow> f64_of_int i = Fin (of_int i)"
  by (simp add: f64_of_int_def rnd_of_int)

text \<open>Addition is monotone in both arguments, multiplication by a finite non-negative number in one.\<close>

definition is_fin :: "f64 \<Rightarrow> bool" where
  "is_fin x = (\<not> is_nan x \<and> \<not> is_inf x)"

lemma is_fin_simps [simp]: "is_fin (Fin q)" "is_fin NegZero" "\<not> is_fin NaN" "\<not> is_fin PInf" "\<not> is_fin NInf"
  by (simp_all add: is_fin_def)

lemma rnd_0 [simp]: "rnd 0 = Fin 0"
  using rnd_of_int [of 0] by simp

lemma fle_inf [simp]: "fle x PInf \<longleftrightarrow> \<not> is_nan x" "fle NInf x \<longleftrightarrow> \<not> is_nan x"
  "fle PInf x \<longleftrightarrow> x = PInf" "fle x NInf \<longleftrightarrow> x = NInf"
  by (cases x; simp add: fle_def)+

lemma fle_fin: "is_fin x \<Longrightarrow> is_fin y \<Longrightarrow> fle x y \<longleftrightarrow> fval x \<le> fval y"
  by (cases x; cases y) (simp_all add: fle_def)

lemma between_fin: "flt (Fin p) x \<Longrightarrow> fle x (Fin q) \<Longrightarrow> \<not> is_inf x"
  by (cases x) (auto simp: flt_def)

lemma fle_NegZero [simp]: "fle NegZero x = fle (Fin 0) x" "fle x NegZero = fle x (Fin 0)"
  by (cases x; simp add: fle_def)+

lemma fle_fadd_fin:
  assumes "is_fin x" "is_fin y"
  shows "fle (fadd x y) z = fle (rnd (fval x + fval y)) z" "fle z (fadd x y) = fle z (rnd (fval x + fval y))"
  using assms by (cases x; cases y; simp add: fadd_def)+

lemma fle_fmul_fin:
  assumes "is_fin x" "is_fin y"
  shows "fle (fmul x y) z = fle (rnd (fval x * fval y)) z" "fle z (fmul x y) = fle z (rnd (fval x * fval y))"
  using assms by (cases x; cases y; simp add: fmul_def signed_zero_def is_zero_def Let_def)+

lemma fadd_inf:
  assumes "\<not> is_nan (fadd x y)"
  shows "x = PInf \<or> y = PInf \<Longrightarrow> fadd x y = PInf" "x = NInf \<or> y = NInf \<Longrightarrow> fadd x y = NInf"
  using assms by (cases x; cases y; simp add: fadd_def)+

lemma fle_fin_cases: "fle x y \<Longrightarrow> is_fin x \<and> is_fin y \<or> x = NInf \<or> y = PInf"
  by (cases x; cases y) (auto simp: fle_def)

lemma fadd_mono:
  assumes "fle a b" "fle c d" "\<not> is_nan (fadd a c)" "\<not> is_nan (fadd b d)"
  shows "fle (fadd a c) (fadd b d)"
proof (cases "is_fin a \<and> is_fin b \<and> is_fin c \<and> is_fin d")
  case True
  with assms have "fval a + fval c \<le> fval b + fval d" by (simp add: fle_fin add_mono)
  with True show ?thesis by (simp add: fle_fadd_fin rnd_mono)
next
  case False
  with assms(1,2) consider "a = NInf \<or> c = NInf" | "b = PInf \<or> d = PInf"
    by (blast dest: fle_fin_cases)
  then show ?thesis
  proof cases
    case 1
    from fadd_inf(2) [OF assms(3) 1] show ?thesis using assms(4) by simp
  next
    case 2
    from fadd_inf(1) [OF assms(4) 2] show ?thesis using assms(3) by simp
  qed
qed

lemma fmul_commute: "fmul x y = fmul y x"
  by (cases x; cases y) (auto simp: fmul_def Let_def signed_inf_def signed_zero_def is_zero_def mult.commute)

lemma fmul_mono:
  assumes "fle (Fin 0) s" "\<not> is_inf s" "fle a b" "\<not> is_nan (fmul s a)" "\<not> is_nan (fmul s b)"
  shows "fle (fmul s a) (fmul s b)"
proof (cases "is_fin a \<and> is_fin b")
  case True
  moreover have s: "is_fin s" "0 \<le> fval s"
    using assms(1,2) by (auto simp: is_fin_def fle_fin dest: fle_not_nan) (cases s; simp add: fle_def)
  ultimately have "fval s * fval a \<le> fval s * fval b"
    using assms(3) by (simp add: fle_fin mult_left_mono)
  with True s show ?thesis by (simp add: fle_fmul_fin rnd_mono)
next
  case False
  with assms(3) consider "a = NInf" | "b = PInf"
    by (blast dest: fle_fin_cases)
  then show ?thesis
    using assms by cases (cases s; auto simp: fmul_def is_zero_def signed_inf_def Let_def split: if_splits)+
qed

section \<open>Printing with a fixed number of decimals\<close>

text \<open>
  The verbs \<open>%.1f\<close>, \<open>%.2f\<close> and \<open>%.4f\<close> of \<open>fmt.Sprintf\<close>: the exact decimal expansion rounded to
  \<open>p\<close> decimals, ties to even.
\<close>

definition pad_zeros :: "nat \<Rightarrow> string \<Rightarrow> string" where
  "pad_zeros n s = replicate (n - length s) (CHR ''0'') @ s"

definition fixed_body :: "nat \<Rightarrow> rat \<Rightarrow> string" where
  "fixed_body p q =
     (let m = nat (round_even (q * 10 ^ p))
      in nat_str (m div 10 ^ p) @
         (if p = 0 then [] else CHR ''.'' # pad_zeros p (nat_str (m mod 10 ^ p))))"

fun fmt_fixed :: "nat \<Rightarrow> f64 \<Rightarrow> string" where
  "fmt_fixed p NaN = ''NaN''"
| "fmt_fixed p PInf = ''+Inf''"
| "fmt_fixed p NInf = ''-Inf''"
| "fmt_fixed p NegZero = CHR ''-'' # fixed_body p 0"
| "fmt_fixed p (Fin q) =
     (if q < 0 then CHR ''-'' # fixed_body p (- q) else fixed_body p q)"

end
