(* ===== verification/Go_Time.thy ===== *)
theory Go_Time
  imports Go_Float64
begin

text \<open>
  \<open>int64\<close> arithmetic, \<open>time.Time\<close> and \<open>time.Duration\<close>. An instant is the number of nanoseconds
  since Go's zero time (1 January of year 1), so the zero value of \<open>time.Time\<close> is 0; a duration is
  an \<open>int64\<close> of nanoseconds and the difference of two instants saturates, as \<open>Time.Sub\<close> does.
  \<open>Duration.Minutes\<close> and \<open>Duration.Seconds\<close> return a \<open>float64\<close>; the comparison of such a value
  with a whole number of units is shown to be the comparison of the durations themselves.
\<close>

section \<open>64-bit integers\<close>

definition wrap64 :: "int \<Rightarrow> int" where
  "wrap64 i = (i + 2 ^ 63) mod 2 ^ 64 - 2 ^ 63"

definition is_int64 :: "int \<Rightarrow> bool" where
  "is_int64 i = (- (2 ^ 63) \<le> i \<and> i < 2 ^ 63)"

lemma wrap64_id [simp]: "is_int64 i \<Longrightarrow> wrap64 i = i"
  by (simp add: wrap64_def is_int64_def)

lemma is_int64_wrap64 [simp]: "is_int64 (wrap64 i)"
  by (simp add: wrap64_def is_int64_def)

text \<open>Go's \<open>/\<close> and \<open>%\<close> on integers truncate towards zero.\<close>

definition quot :: "int \<Rightarrow> int \<Rightarrow> int" where
  "quot a b = sgn a * sgn b * (\<bar>a\<bar> div \<bar>b\<bar>)"

definition rem :: "int \<Rightarrow> int \<Rightarrow> int" where
  "rem a b = a - b * quot a b"

lemma quot_nonneg [simp]: "0 \<le> a \<Longrightarrow> 0 < b \<Longrightarrow> quot a b = a div b"
  by (cases "a = 0") (simp_all add: quot_def sgn_if)

lemma rem_nonneg [simp]: "0 \<le> a \<Longrightarrow> 0 < b \<Longrightarrow> rem a b = a mod b"
  by (simp add: rem_def minus_mult_div_eq_mod)

lemma quot_neg: "a < 0 \<Longrightarrow> 0 < b \<Longrightarrow> quot a b = - ((- a) div b)"
  by (simp add: quot_def sgn_if)

lemma rem_neg: "a < 0 \<Longrightarrow> 0 < b \<Longrightarrow> rem a b = - ((- a) mod b)"
  by (simp add: rem_def quot_neg) (simp add: algebra_simps minus_div_mult_eq_mod [symmetric])

section \<open>Instants and durations\<close>

type_synonym time = int
type_synonym duration = int

definition zero_time :: time where
  "zero_time = 0"

definition is_zero_time :: "time \<Rightarrow> bool" where
  "is_zero_time t = (t = zero_time)"

definition second :: duration where
  "second = 1000000000"

definition minute :: duration where
  "minute = 60000000000"

text \<open>\<open>Time.Sub\<close> saturates at the bounds of a \<open>Duration\<close>.\<close>

definition time_sub :: "time \<Rightarrow> time \<Rightarrow> duration" where
  "time_sub t u = max (- (2 ^ 63)) (min (2 ^ 63 - 1) (t - u))"

definition unix_seconds :: "time \<Rightarrow> int" where
  "unix_seconds t = t div second - 62135596800"

lemma is_int64_time_sub [simp]: "is_int64 (time_sub t u)"
  by (simp add: time_sub_def is_int64_def)

lemma time_sub_less_iff:
  assumes "is_int64 d"
  shows "time_sub t u < d \<longleftrightarrow> t - u < d \<and> d \<noteq> - (2 ^ 63)"
  using assms by (auto simp: time_sub_def is_int64_def)

text \<open>\<open>Duration.Minutes\<close> and \<open>Duration.Seconds\<close>: whole units plus the rest as a fraction.\<close>

definition dur_units :: "duration \<Rightarrow> duration \<Rightarrow> f64" where
  "dur_units unit d = fadd (f64_of_int (quot d unit)) (fdiv (f64_of_int (rem d unit)) (f64_of_int unit))"

definition dur_minutes :: "duration \<Rightarrow> f64" where
  "dur_minutes d = dur_units minute d"

definition dur_seconds :: "duration \<Rightarrow> f64" where
  "dur_seconds d = dur_units second d"

section \<open>Comparing a duration in units with a whole number of units\<close>

lemma fdiv_Fin: "b \<noteq> 0 \<Longrightarrow> fdiv (Fin a) (Fin b) = (if a = 0 then signed_zero (b < 0) else rnd (a / b))"
  by (simp add: fdiv_def is_zero_def)

lemma fadd_Fin_rnd:
  assumes "\<bar>q\<bar> \<le> 1"
  shows "fadd (Fin p) (rnd q) = rnd (p + fval (rnd q))"
proof -
  have "fle (rnd q) (rnd (of_int 1))" "fle (rnd (of_int (- 1))) (rnd q)"
    using assms by (auto intro!: rnd_mono simp: abs_le_iff)
  then have "\<not> is_inf (rnd q)"
    using rnd_of_int [of 1] rnd_of_int [of "- 1"] by (cases "rnd q") (auto simp: fle_def)
  then show ?thesis by (simp add: fadd_def)
qed

lemma zdiv_ge_iff: "0 < u \<Longrightarrow> m \<le> d div u \<longleftrightarrow> m * u \<le> (d :: int)"
proof
  assume "0 < u" "m \<le> d div u"
  then have "m * u \<le> d div u * u" by simp
  also have "\<dots> = d - d mod u" by (rule minus_mod_eq_div_mult [symmetric])
  also have "\<dots> \<le> d" using \<open>0 < u\<close> by simp
  finally show "m * u \<le> d" .
next
  assume "0 < u" "m * u \<le> d"
  then have "m * u div u \<le> d div u" by (intro zdiv_mono1)
  then show "m \<le> d div u" using \<open>0 < u\<close> by simp
qed

lemma quot_rem_bounds:
  assumes u: "2 ^ 10 \<le> u" and d: "is_int64 d"
  shows "\<bar>quot d u\<bar> \<le> 2 ^ 53" and "\<bar>rem d u\<bar> < u"
proof -
  have u0: "0 < u" using u by (rule less_le_trans [rotated]) simp
  have "\<bar>d\<bar> \<le> 2 ^ 63" using d by (auto simp: is_int64_def)
  also have "(2::int) ^ 63 = 2 ^ 53 * 2 ^ 10" by simp
  also have "\<dots> \<le> 2 ^ 53 * u" using u by simp
  finally have "\<bar>d\<bar> div u \<le> 2 ^ 53 * u div u" using u0 by (intro zdiv_mono1)
  then have "\<bar>d\<bar> div u \<le> 2 ^ 53" using u0 by simp
  moreover have "0 \<le> \<bar>d\<bar> div u" using u0 by (simp add: pos_imp_zdiv_nonneg_iff)
  moreover have "\<bar>quot d u\<bar> \<le> \<bar>\<bar>d\<bar> div u\<bar>" using u0 by (simp add: quot_def sgn_if)
  ultimately show "\<bar>quot d u\<bar> \<le> 2 ^ 53" by linarith
  show "\<bar>rem d u\<bar> < u"
    using u0 by (cases "0 \<le> d") (auto simp: rem_neg)
qed

lemma f64_of_rem:
  assumes "2 ^ 10 \<le> u" "u \<le> 2 ^ 36" "is_int64 d"
  shows "f64_of_int (rem d u) = Fin (of_int (rem d u))"
proof (rule f64_of_int_exact)
  have "\<bar>rem d u\<bar> < 2 ^ 36" using quot_rem_bounds(2) [OF assms(1,3)] assms(2) by linarith
  then show "\<bar>rem d u\<bar> \<le> 2 ^ 53" by simp
qed

lemma dur_units_eq:
  assumes u: "2 ^ 10 \<le> u" "u \<le> 2 ^ 36" and d: "is_int64 d"
  shows "dur_units u d = rnd (of_int (quot d u) + fval (rnd (of_int (rem d u) / of_int u)))"
proof -
  have u0: "0 < u" using u(1) by (rule less_le_trans [rotated]) simp
  have fu: "f64_of_int u = Fin (of_int u)" using u u0 by (intro f64_of_int_exact) simp
  have fq: "f64_of_int (quot d u) = Fin (of_int (quot d u))"
    by (rule f64_of_int_exact) (rule quot_rem_bounds(1) [OF u(1) d])
  have le1: "\<bar>of_int (rem d u) / of_int u :: rat\<bar> \<le> 1"
  proof -
    have "\<bar>of_int (rem d u) :: rat\<bar> \<le> of_int u"
      using quot_rem_bounds(2) [OF u(1) d] by (simp flip: of_int_abs)
    then show ?thesis using u0 by (simp add: abs_divide divide_le_eq)
  qed
  show ?thesis
  proof (cases "rem d u = 0")
    case True
    then have "f64_of_int (rem d u) = Fin 0" using f64_of_rem [OF u d] by simp
    then have "fdiv (f64_of_int (rem d u)) (f64_of_int u) = Fin 0"
      using u0 by (simp add: fu fdiv_Fin signed_zero_def)
    moreover have "rnd 0 = Fin 0" using rnd_of_int [of 0] by simp
    ultimately show ?thesis using True by (simp add: dur_units_def fq fadd_def)
  next
    case False
    then have "fdiv (f64_of_int (rem d u)) (f64_of_int u) = rnd (of_int (rem d u) / of_int u)"
      using u0 by (simp add: fu f64_of_rem [OF u d] fdiv_Fin)
    then show ?thesis by (simp add: dur_units_def fq fadd_Fin_rnd [OF le1])
  qed
qed

text \<open>The fraction of a unit is rounded to at most \<open>1 - 2 ^ -36\<close>, so adding it to fewer than
  \<open>m\<close> whole units stays below \<open>m\<close>.\<close>

lemma representable_below:
  assumes "0 \<le> m" "m \<le> 2 ^ 17"
  shows "representable (of_int m - 1 / 2 ^ 36)"
proof -
  have "of_int m - 1 / 2 ^ 36 = (of_int (m * 2 ^ 36 - 1) * 2 powi (- 36) :: rat)"
    by (simp add: power_int_minus field_simps)
  moreover have "\<bar>m * 2 ^ 36 - 1\<bar> \<le> 2 ^ 53" using assms by simp
  ultimately show ?thesis unfolding representable_def
    by (intro exI [of _ "m * 2 ^ 36 - 1"] exI [of _ "- 36 :: int"]) simp
qed

lemma rnd_below:
  assumes "0 \<le> m" "m \<le> 2 ^ 17"
  shows "rnd (of_int m - 1 / 2 ^ 36) = Fin (of_int m - 1 / 2 ^ 36)"
proof (rule rnd_exact [OF representable_below [OF assms]])
  have "of_int m \<le> (of_int (2 ^ 17) :: rat)" using assms(2) by (simp only: of_int_le_iff)
  moreover have "0 \<le> (of_int m :: rat)" using assms(1) by simp
  moreover have "(1 / 2 ^ 36 :: rat) \<le> 1" by simp
  ultimately have "\<bar>of_int m - 1 / 2 ^ 36 :: rat\<bar> < 2 ^ 53" by (simp add: abs_less_iff)
  then show "\<bar>of_int m - 1 / 2 ^ 36 :: rat\<bar> < 2 ^ 1024"
    using pow53_lt_pow1024 by (rule less_trans)
qed

lemma fval_rnd_le:
  assumes "q \<le> r" "rnd r = Fin r" "0 \<le> r"
  shows "fval (rnd q) \<le> r"
proof -
  have "fle (rnd q) (Fin r)" using rnd_mono [OF assms(1)] assms(2) by simp
  then show ?thesis using assms(3) by (cases "rnd q") (auto simp: fle_def)
qed

lemma fval_rnd_nonneg: "0 \<le> q \<Longrightarrow> 0 \<le> fval (rnd q)"
proof -
  assume "0 \<le> q"
  then have "fle (rnd (of_int 0)) (rnd q)" by (intro rnd_mono) simp
  then show ?thesis using rnd_of_int [of 0] by (cases "rnd q") (auto simp: fle_def)
qed

lemma dur_units_less:
  assumes u: "2 ^ 10 \<le> u" "u \<le> 2 ^ 36" and d: "is_int64 d"
    and m: "1 \<le> m" "m \<le> 2 ^ 17" and lt: "d < m * u"
  shows "flt (dur_units u d) (f64_of_int m)"
proof -
  have u0: "0 < u" using u(1) by (rule less_le_trans [rotated]) simp
  have q: "quot d u \<le> m - 1"
  proof (cases "0 \<le> d")
    case True
    then have "quot d u = d div u" using u0 by simp
    moreover have "d div u < m" using lt zdiv_ge_iff [OF u0, of m d] by linarith
    ultimately show ?thesis by simp
  next
    case False
    then have "quot d u \<le> 0" using u0 by (simp add: quot_neg pos_imp_zdiv_nonneg_iff)
    then show ?thesis using m(1) by simp
  qed
  have "of_int (rem d u) / of_int u \<le> (1 - 1 / 2 ^ 36 :: rat)"
  proof -
    have "rem d u + 1 \<le> u" using quot_rem_bounds(2) [OF u(1) d] by simp
    then have "of_int (rem d u + 1) \<le> (of_int u :: rat)" by (simp only: of_int_le_iff)
    then have "of_int (rem d u) + 1 \<le> (of_int u :: rat)" by simp
    moreover have "(of_int u :: rat) / 2 ^ 36 \<le> 1"
    proof -
      have "of_int u \<le> (of_int (2 ^ 36) :: rat)" using u(2) by (simp only: of_int_le_iff)
      then show ?thesis by simp
    qed
    ultimately have "of_int (rem d u) \<le> (1 - 1 / 2 ^ 36) * (of_int u :: rat)"
      by (simp add: left_diff_distrib)
    then show ?thesis using u0 by (simp add: divide_le_eq)
  qed
  then have "fval (rnd (of_int (rem d u) / of_int u)) \<le> 1 - 1 / 2 ^ 36"
    using rnd_below [of 1] by (intro fval_rnd_le) simp_all
  moreover have "(of_int (quot d u) :: rat) \<le> of_int (m - 1)" using q by (simp only: of_int_le_iff)
  ultimately have "of_int (quot d u) + fval (rnd (of_int (rem d u) / of_int u))
      \<le> of_int m - 1 / 2 ^ 36" by simp
  then have "fle (dur_units u d) (Fin (of_int m - 1 / 2 ^ 36))"
    unfolding dur_units_eq [OF u d] using rnd_mono rnd_below [of m] m by fastforce
  moreover have "f64_of_int m = Fin (of_int m)" using m by (intro f64_of_int_exact) simp
  ultimately show ?thesis by (cases "dur_units u d") (auto simp: flt_def fle_def)
qed

lemma dur_units_ge:
  assumes u: "2 ^ 10 \<le> u" "u \<le> 2 ^ 36" and d: "is_int64 d"
    and m: "1 \<le> m" and ge: "m * u \<le> d"
  shows "fle (f64_of_int m) (dur_units u d)"
proof -
  have u0: "0 < u" using u(1) by (rule less_le_trans [rotated]) simp
  have d0: "0 \<le> d" using ge m u0 by (meson dual_order.trans mult_nonneg_nonneg less_imp_le
        zero_le_one)
  have "m \<le> d div u" using ge zdiv_ge_iff [OF u0] by blast
  then have "(of_int m :: rat) \<le> of_int (quot d u)" using d0 u0 by simp
  moreover have "0 \<le> fval (rnd (of_int (rem d u) / of_int u))"
    using d0 u0 by (intro fval_rnd_nonneg) simp
  ultimately show ?thesis
    unfolding dur_units_eq [OF u d] f64_of_int_def by (intro rnd_mono) simp
qed

lemma dur_units_less_iff:
  assumes "2 ^ 10 \<le> u" "u \<le> 2 ^ 36" and "is_int64 d" and "1 \<le> m" "m \<le> 2 ^ 17"
  shows "flt (dur_units u d) (f64_of_int m) \<longleftrightarrow> d < m * u"
  using dur_units_less [OF assms] dur_units_ge [OF assms(1-4)]
  by (meson flt_not_fle not_less)

lemma dur_minutes_less_iff:
  "is_int64 d \<Longrightarrow> 1 \<le> m \<Longrightarrow> m \<le> 2 ^ 17 \<Longrightarrow>
     flt (dur_minutes d) (f64_of_int m) \<longleftrightarrow> d < m * minute"
  unfolding dur_minutes_def by (rule dur_units_less_iff) (simp_all add: minute_def)

lemma dur_seconds_less_iff:
  "is_int64 d \<Longrightarrow> 1 \<le> m \<Longrightarrow> m \<le> 2 ^ 17 \<Longrightarrow>
     flt (dur_seconds d) (f64_of_int m) \<longleftrightarrow> d < m * second"
  unfolding dur_seconds_def by (rule dur_units_less_iff) (simp_all add: second_def)

end
