(* ===== verification/Pdata.thy ===== *)
theory Pdata
  imports Go_Time
begin

text \<open>
  The OTLP data the processor reads and writes (package \<open>pdata\<close> of the OpenTelemetry collector,
  which the repository only imports): attribute values and maps, number data points, metrics,
  scopes, resources. What the processor reads is data here; contents it only passes on are opaque
  payloads; library code whose result the processor uses but whose source is not in the
  repository is a parameter, collected in the record \<open>lib\<close>.
\<close>

section \<open>Attribute values\<close>

datatype val = VEmpty | VStr string | VBool bool | VInt int | VDouble f64 | VBytes string
  | VSlice "val list" | VMap "(string \<times> val) list"

type_synonym attrs = "(string, val) gomap"

type_synonym payload = nat

text \<open>JSON documents, as \<open>encoding/json\<close> builds them from Go values and reads them back. \<open>JInt\<close> is
  a Go integer being marshalled; unmarshalling only produces \<open>JNum\<close>.\<close>

datatype json = JNull | JBool bool | JNum f64 | JInt int | JStr string | JArr "json list"
  | JObj "(string \<times> json) list"

section \<open>Number data points, metrics, resources\<close>

datatype point = DoublePoint f64 payload | IntPoint int payload | EmptyPoint payload

datatype metric_data = Gauge "point list" | Sum "point list" | Histogram payload
  | ExponentialHistogram payload | Summary payload | NoData

record metric =
  Name :: string
  Data :: metric_data

record scope_metrics =
  Scope :: payload
  Metrics :: "metric list"

record resource_metrics =
  Resource :: attrs
  ScopeMetrics :: "scope_metrics list"

type_synonym metrics = "resource_metrics list"

section \<open>Library code outside the repository\<close>

text \<open>
  \<^item> \<open>val_text\<close>: \<open>Value.AsString\<close> of a value that is not a string, a Boolean or an integer;
  \<^item> \<open>val_raw\<close>: \<open>fmt.Sprintf("%v", v.AsRaw())\<close> of such a value;
  \<^item> \<open>other_double\<close>: \<open>NumberDataPoint.DoubleValue\<close> of a point that holds no double;
  \<^item> \<open>lower_runes\<close>: \<open>strings.ToLower\<close> of a string with runes outside ASCII (the Unicode tables);
  \<^item> \<open>marshal_obj\<close>: \<open>json.Marshal\<close> of a \<open>map[string]any\<close>, \<open>None\<close> when it returns an error;
  \<^item> \<open>unmarshal_obj\<close>: \<open>json.Unmarshal\<close> into a \<open>map[string]any\<close>: \<open>None\<close> for an error,
    \<open>Some None\<close> when the document is \<open>null\<close> and the map stays nil.
\<close>

record lib =
  val_text :: "val \<Rightarrow> string"
  val_raw :: "val \<Rightarrow> string"
  other_double :: "point \<Rightarrow> f64"
  lower_runes :: "string \<Rightarrow> string"
  marshal_obj :: "(string, json) gomap \<Rightarrow> string option"
  unmarshal_obj :: "string \<Rightarrow> (string, json) gomap option option"

definition bool_str :: "bool \<Rightarrow> string" where
  "bool_str b = (if b then ''true'' else ''false'')"

fun as_string :: "lib \<Rightarrow> val \<Rightarrow> string" where
  "as_string L (VStr s) = s"
| "as_string L (VBool b) = bool_str b"
| "as_string L (VInt i) = int_str i"
| "as_string L v = val_text L v"

fun raw_string :: "lib \<Rightarrow> val \<Rightarrow> string" where
  "raw_string L (VStr s) = s"
| "raw_string L (VBool b) = bool_str b"
| "raw_string L (VInt i) = int_str i"
| "raw_string L v = val_raw L v"

text \<open>\<open>Value.Str\<close> is the empty string on a value of another type.\<close>

fun str_of :: "val \<Rightarrow> string" where
  "str_of (VStr s) = s"
| "str_of _ = []"

fun is_str :: "val \<Rightarrow> bool" where
  "is_str (VStr s) = True"
| "is_str _ = False"

fun double_value :: "lib \<Rightarrow> point \<Rightarrow> f64" where
  "double_value L (DoublePoint v _) = v"
| "double_value L p = other_double L p"

definition to_lower :: "lib \<Rightarrow> string \<Rightarrow> string" where
  "to_lower L s = (if is_ascii s then ascii_lower s else lower_runes L s)"

text \<open>The getter of a protobuf field that is not set returns the zero value of its type.\<close>

definition zero_getter :: "lib \<Rightarrow> bool" where
  "zero_getter L = (\<forall>i r. other_double L (IntPoint i r) = Fin 0)"

text \<open>A concrete library, for evaluating the model on examples.\<close>

definition plain_lib :: lib where
  "plain_lib = \<lparr>val_text = (\<lambda>_. []), val_raw = (\<lambda>_. []), other_double = (\<lambda>_. Fin 0),
     lower_runes = (\<lambda>s. s), marshal_obj = (\<lambda>_. Some []), unmarshal_obj = (\<lambda>_. None)\<rparr>"

section \<open>The interface of an attribute map\<close>

text \<open>
  What the processor relies on in \<open>pcommon.Map\<close>: \<open>Get\<close>, \<open>Put\<close> (\<open>PutStr\<close> and \<open>PutBool\<close> insert or
  update) and \<open>Remove\<close>. The lemmas are proved from the contract; the interpretation below is the
  association list of the model.
\<close>

locale attribute_map =
  fixes get :: "'m \<Rightarrow> 'k \<Rightarrow> 'v option"
    and put :: "'k \<Rightarrow> 'v \<Rightarrow> 'm \<Rightarrow> 'm"
    and remove :: "'k \<Rightarrow> 'm \<Rightarrow> 'm"
  assumes get_put: "get (put k v m) j = (if j = k then Some v else get m j)"
    and get_remove: "get (remove k m) j = (if j = k then None else get m j)"
begin

lemma get_put_same: "get (put k v m) k = Some v"
  by (simp add: get_put)

lemma get_put_other: "j \<noteq> k \<Longrightarrow> get (put k v m) j = get m j"
  by (simp add: get_put)

lemma put_twice: "get (put k v (put k w m)) = get (put k v m)"
  by (rule ext) (simp add: get_put)

lemma remove_put: "get (remove k (put k v m)) = get (remove k m)"
  by (rule ext) (simp add: get_put get_remove)

lemma get_remove_same: "get (remove k m) k = None"
  by (simp add: get_remove)

lemma get_remove_other: "j \<noteq> k \<Longrightarrow> get (remove k m) j = get m j"
  by (simp add: get_remove)

lemma remove_fresh: "get m k = None \<Longrightarrow> get (remove k m) = get m"
  by (rule ext) (auto simp: get_remove)

end

definition attr_get :: "attrs \<Rightarrow> string \<Rightarrow> val option" where
  "attr_get m k = map_of m k"

definition attr_put :: "string \<Rightarrow> val \<Rightarrow> attrs \<Rightarrow> attrs" where
  "attr_put k v m = AList.update k v m"

definition attr_remove :: "string \<Rightarrow> attrs \<Rightarrow> attrs" where
  "attr_remove k m = AList.delete k m"

interpretation pmap: attribute_map attr_get attr_put attr_remove
  by unfold_locales (auto simp: attr_get_def attr_put_def attr_remove_def)

lemmas attr_simps [simp] = pmap.get_put pmap.get_remove

definition has_attr :: "attrs \<Rightarrow> string \<Rightarrow> bool" where
  "has_attr m k = (attr_get m k \<noteq> None)"

text \<open>The attribute \<open>k\<close> is a string with the text \<open>s\<close> (\<open>Type() == ValueTypeStr\<close>).\<close>

definition attr_str :: "attrs \<Rightarrow> string \<Rightarrow> string option" where
  "attr_str m k = (case attr_get m k of Some (VStr s) \<Rightarrow> Some s | _ \<Rightarrow> None)"

lemma has_attr_put [simp]: "has_attr (attr_put k v m) j \<longleftrightarrow> j = k \<or> has_attr m j"
  by (simp add: has_attr_def)

lemma attr_str_put [simp]:
  "attr_str (attr_put k v m) j = (if j = k then (case v of VStr s \<Rightarrow> Some s | _ \<Rightarrow> None)
     else attr_str m j)"
  by (simp add: attr_str_def split: val.splits)

lemma attr_str_has: "attr_str m k = Some s \<Longrightarrow> has_attr m k"
  by (simp add: attr_str_def has_attr_def split: option.splits)

section \<open>Counting\<close>

definition metrics_of_resource :: "resource_metrics \<Rightarrow> metric list" where
  "metrics_of_resource rm = concat (map Metrics (ScopeMetrics rm))"

definition metrics_of :: "metrics \<Rightarrow> metric list" where
  "metrics_of md = concat (map metrics_of_resource md)"

lemma metrics_of_simps [simp]:
  "metrics_of [] = []"
  "metrics_of (rm # md) = metrics_of_resource rm @ metrics_of md"
  by (simp_all add: metrics_of_def)

lemma metrics_of_append [simp]: "metrics_of (a @ b) = metrics_of a @ metrics_of b"
  by (simp add: metrics_of_def)

end
