(* ===== verification/Atp_Config.thy ===== *)
theory Atp_Config
  imports Pdata
begin

text \<open>
  The processor's configuration (config.go, constants.go, factory.go): the record, its defaults,
  \<open>Normalize\<close>, which repairs and caps values, and \<open>Validate\<close>, which rejects what must not be
  negative. A YAML map that is absent is a nil map, \<open>None\<close> here.
\<close>

section \<open>Constants\<close>

definition internalFilterStageAttributeKey :: string where
  "internalFilterStageAttributeKey = ''ProcessATPFilterStage''"

definition stageIncludeList :: string where
  "stageIncludeList = ''include_list''"

definition stageDefaultInclusion :: string where
  "stageDefaultInclusion = ''default_inclusion''"

definition stageZombieProcess :: string where
  "stageZombieProcess = ''zombie_process''"

definition stageStaticThreshold :: string where
  "stageStaticThreshold = ''static_threshold''"

definition stageDynamicThreshold :: string where
  "stageDynamicThreshold = ''dynamic_threshold''"

definition stageMultiMetric :: string where
  "stageMultiMetric = ''multi_metric''"

definition stageAnomalyDetection :: string where
  "stageAnomalyDetection = ''anomaly_detection''"

definition stageAnomalyRetention :: string where
  "stageAnomalyRetention = ''anomaly_retention''"

definition stageStandardRetention :: string where
  "stageStandardRetention = ''standard_retention''"

definition stageResourceProcessingTimeout :: string where
  "stageResourceProcessingTimeout = ''resource_processing_timeout''"

lemmas stage_defs = stageIncludeList_def stageDefaultInclusion_def stageZombieProcess_def
  stageStaticThreshold_def stageDynamicThreshold_def stageMultiMetric_def
  stageAnomalyDetection_def stageAnomalyRetention_def stageStandardRetention_def
  stageResourceProcessingTimeout_def

text \<open>A decimal constant of the source is the nearest \<open>float64\<close>.\<close>

definition dynamicSmoothingFactor :: f64 where
  "dynamicSmoothingFactor = rnd (1 / 5)"

definition dynamicUpdateIntervalSecs :: int where
  "dynamicUpdateIntervalSecs = 60"

definition genericScalingFactor :: f64 where
  "genericScalingFactor = rnd (1 / 5)"

definition defaultRetentionMinutes :: int where
  "defaultRetentionMinutes = 30"

definition maxRetentionMinutes :: int where
  "maxRetentionMinutes = 30"

definition defaultDynamicSmoothingFactor :: f64 where
  "defaultDynamicSmoothingFactor = rnd (1 / 5)"

definition maxAnomalyHistorySize :: int where
  "maxAnomalyHistorySize = 100"

definition defaultCompositeThreshold :: f64 where
  "defaultCompositeThreshold = Fin (3 / 2)"

definition defaultAnomalyHistorySize :: int where
  "defaultAnomalyHistorySize = 10"

definition defaultAnomalyChangeThreshold :: f64 where
  "defaultAnomalyChangeThreshold = Fin 200"

definition defaultAnomalyMinDataPoints :: int where
  "defaultAnomalyMinDataPoints = 3"

definition factoryDefaultCompositeThreshold :: f64 where
  "factoryDefaultCompositeThreshold = Fin (3 / 2)"

lemmas config_consts = defaultRetentionMinutes_def maxRetentionMinutes_def
  maxAnomalyHistorySize_def defaultAnomalyHistorySize_def defaultAnomalyMinDataPoints_def
  defaultCompositeThreshold_def defaultAnomalyChangeThreshold_def

section \<open>The configuration\<close>

record Config =
  MetricThresholds :: "(string, f64) gomap option"
  RetentionMinutes :: int
  EnableStorage :: "bool option"
  EnableDynamicThresholds :: bool
  DynamicSmoothingFactor :: f64
  MinThresholds :: "(string, f64) gomap option"
  MaxThresholds :: "(string, f64) gomap option"
  EnableMultiMetric :: bool
  CompositeThreshold :: f64
  Weights :: "(string, f64) gomap option"
  EnableAnomalyDetection :: bool
  AnomalyHistorySize :: int
  AnomalyChangeThreshold :: f64
  AnomalyMinDataPoints :: int
  IncludeProcessList :: "string list"
  DebugShowAllFilterStages :: bool

text \<open>Reading a nil map finds nothing; \<open>make\<close> gives an empty one.\<close>

definition entries :: "('k, 'v) gomap option \<Rightarrow> ('k, 'v) gomap" where
  "entries m = (case m of None \<Rightarrow> [] | Some x \<Rightarrow> x)"

definition lookup :: "('k, 'v) gomap option \<Rightarrow> 'k \<Rightarrow> 'v option" where
  "lookup m k = map_of (entries m) k"

lemma entries_simps [simp]: "entries None = []" "entries (Some x) = x"
  by (simp_all add: entries_def)

lemma lookup_simps [simp]: "lookup None k = None" "lookup (Some x) k = map_of x k"
  by (simp_all add: lookup_def)

definition non_nil :: "('k, 'v) gomap option \<Rightarrow> ('k, 'v) gomap option" where
  "non_nil m = (if m = None then Some [] else m)"

lemma entries_non_nil [simp]: "entries (non_nil m) = entries m"
  by (simp add: non_nil_def)

lemma lookup_non_nil [simp]: "lookup (non_nil m) = lookup m"
  by (rule ext) (simp add: lookup_def)

lemma non_nil_non_nil [simp]: "non_nil (non_nil m) = non_nil m" "non_nil m \<noteq> None"
  by (simp_all add: non_nil_def)

definition createDefaultConfig :: Config where
  "createDefaultConfig = \<lparr>
     MetricThresholds = Some [],
     RetentionMinutes = 30,
     EnableStorage = None,
     EnableDynamicThresholds = False,
     DynamicSmoothingFactor = rnd (1 / 5),
     MinThresholds = Some [],
     MaxThresholds = Some [],
     EnableMultiMetric = False,
     CompositeThreshold = factoryDefaultCompositeThreshold,
     Weights = Some [],
     EnableAnomalyDetection = False,
     AnomalyHistorySize = 10,
     AnomalyChangeThreshold = Fin 200,
     AnomalyMinDataPoints = 0,
     IncludeProcessList = [],
     DebugShowAllFilterStages = False\<rparr>"

section \<open>Normalize\<close>

text \<open>The printed warnings have no effect on the configuration. The steps are those of the
  source, each reading what the one before wrote.\<close>

definition normalizeMaps :: "Config \<Rightarrow> Config" where
  "normalizeMaps cfg = cfg\<lparr>
     MetricThresholds := non_nil (MetricThresholds cfg),
     MinThresholds := non_nil (MinThresholds cfg),
     MaxThresholds := non_nil (MaxThresholds cfg),
     Weights := non_nil (Weights cfg)\<rparr>"

definition normalizeRetention :: "Config \<Rightarrow> Config" where
  "normalizeRetention cfg =
     (let r = (if RetentionMinutes cfg \<le> 0 then defaultRetentionMinutes else RetentionMinutes cfg);
          r' = (if r > maxRetentionMinutes then maxRetentionMinutes else r)
      in cfg\<lparr>RetentionMinutes := r'\<rparr>)"

definition normalizeSmoothing :: "Config \<Rightarrow> Config" where
  "normalizeSmoothing cfg =
     (if EnableDynamicThresholds cfg \<and>
         (fle (DynamicSmoothingFactor cfg) (Fin 0) \<or> flt (Fin 1) (DynamicSmoothingFactor cfg))
      then cfg\<lparr>DynamicSmoothingFactor := defaultDynamicSmoothingFactor\<rparr> else cfg)"

definition normalizeComposite :: "Config \<Rightarrow> Config" where
  "normalizeComposite cfg =
     (if EnableMultiMetric cfg \<and> fle (CompositeThreshold cfg) (Fin 0)
      then cfg\<lparr>CompositeThreshold := defaultCompositeThreshold\<rparr> else cfg)"

definition normalizeAnomalyEnabled :: "Config \<Rightarrow> Config" where
  "normalizeAnomalyEnabled cfg =
     (let h = (if AnomalyHistorySize cfg \<le> 0 then defaultAnomalyHistorySize
               else AnomalyHistorySize cfg);
          h' = (if h > maxAnomalyHistorySize then maxAnomalyHistorySize else h);
          c = (if fle (AnomalyChangeThreshold cfg) (Fin 0) then defaultAnomalyChangeThreshold
               else AnomalyChangeThreshold cfg);
          m = (if AnomalyMinDataPoints cfg \<le> 0 then defaultAnomalyMinDataPoints
               else AnomalyMinDataPoints cfg);
          m' = (if m < defaultAnomalyMinDataPoints then defaultAnomalyMinDataPoints else m);
          m'' = (if h' < m' then defaultAnomalyMinDataPoints else m')
      in cfg\<lparr>AnomalyHistorySize := h', AnomalyChangeThreshold := c, AnomalyMinDataPoints := m''\<rparr>)"

definition normalizeAnomalyDisabled :: "Config \<Rightarrow> Config" where
  "normalizeAnomalyDisabled cfg = cfg\<lparr>
     AnomalyHistorySize := (if AnomalyHistorySize cfg = 0 then defaultAnomalyHistorySize
                            else AnomalyHistorySize cfg),
     AnomalyChangeThreshold := (if feq (AnomalyChangeThreshold cfg) (Fin 0)
                            then defaultAnomalyChangeThreshold else AnomalyChangeThreshold cfg),
     AnomalyMinDataPoints := (if AnomalyMinDataPoints cfg = 0 then defaultAnomalyMinDataPoints
                            else AnomalyMinDataPoints cfg)\<rparr>"

definition Normalize :: "Config \<Rightarrow> Config" where
  "Normalize cfg0 =
     (let cfg = normalizeComposite (normalizeSmoothing (normalizeRetention (normalizeMaps cfg0)))
      in if EnableAnomalyDetection cfg then normalizeAnomalyEnabled cfg
         else normalizeAnomalyDisabled cfg)"

lemmas normalize_defs = normalizeMaps_def normalizeRetention_def normalizeSmoothing_def
  normalizeComposite_def normalizeAnomalyEnabled_def normalizeAnomalyDisabled_def

section \<open>Validate\<close>

datatype config_error =
    NegativeThreshold string f64
  | NegativeMinThreshold string f64
  | NegativeMaxThreshold string f64
  | BadHistorySize int
  | BadChangeThreshold f64
  | BadMinDataPoints int
  | BadCompositeThreshold f64

definition first_negative :: "(string, f64) gomap \<Rightarrow> (string \<times> f64) option" where
  "first_negative m = List.find (\<lambda>(k, v). flt v (Fin 0)) m"

text \<open>The choice sequences \<open>o1\<close>, \<open>o2\<close>, \<open>o3\<close> order the three ranges: which negative entry is
  reported is not determined, that one is reported is.\<close>

definition Validate :: "nat list \<Rightarrow> nat list \<Rightarrow> nat list \<Rightarrow> Config \<Rightarrow> config_error option" where
  "Validate o1 o2 o3 cfg =
     (case first_negative (shuffle o1 (entries (MetricThresholds cfg))) of
        Some (m, v) \<Rightarrow> Some (NegativeThreshold m v)
      | None \<Rightarrow>
     (case first_negative (shuffle o2 (entries (MinThresholds cfg))) of
        Some (m, v) \<Rightarrow> Some (NegativeMinThreshold m v)
      | None \<Rightarrow>
     (case first_negative (shuffle o3 (entries (MaxThresholds cfg))) of
        Some (m, v) \<Rightarrow> Some (NegativeMaxThreshold m v)
      | None \<Rightarrow>
        if EnableAnomalyDetection cfg \<and> AnomalyHistorySize cfg \<le> 0
        then Some (BadHistorySize (AnomalyHistorySize cfg))
        else if EnableAnomalyDetection cfg \<and> fle (AnomalyChangeThreshold cfg) (Fin 0)
        then Some (BadChangeThreshold (AnomalyChangeThreshold cfg))
        else if EnableAnomalyDetection cfg \<and> AnomalyMinDataPoints cfg \<le> 0
        then Some (BadMinDataPoints (AnomalyMinDataPoints cfg))
        else if EnableMultiMetric cfg \<and> fle (CompositeThreshold cfg) (Fin 0)
        then Some (BadCompositeThreshold (CompositeThreshold cfg))
        else None)))"

section \<open>Properties\<close>

lemma first_negative_None:
  "first_negative m = None \<longleftrightarrow> (\<forall>(k, v)\<in>set m. \<not> flt v (Fin 0))"
  by (auto simp: first_negative_def find_None_iff)

lemma first_negative_Some: "first_negative m = Some (k, v) \<Longrightarrow> (k, v) \<in> set m \<and> flt v (Fin 0)"
  unfolding first_negative_def find_Some_iff by (metis (mono_tags, lifting) case_prodD nth_mem)

definition no_negative :: "(string, f64) gomap option \<Rightarrow> bool" where
  "no_negative m = list_all (\<lambda>(k, v). \<not> flt v (Fin 0)) (entries m)"

lemma first_negative_shuffle:
  "first_negative (shuffle ns (entries m)) = None \<longleftrightarrow> no_negative m"
  by (simp add: first_negative_None no_negative_def list_all_iff)

text \<open>What a configuration satisfies once it has been normalized, one predicate per step.\<close>

definition maps_normal :: "Config \<Rightarrow> bool" where
  "maps_normal cfg = (MetricThresholds cfg \<noteq> None \<and> MinThresholds cfg \<noteq> None \<and>
     MaxThresholds cfg \<noteq> None \<and> Weights cfg \<noteq> None)"

definition retention_normal :: "Config \<Rightarrow> bool" where
  "retention_normal cfg = (1 \<le> RetentionMinutes cfg \<and> RetentionMinutes cfg \<le> 30)"

definition smoothing_normal :: "Config \<Rightarrow> bool" where
  "smoothing_normal cfg = (EnableDynamicThresholds cfg \<longrightarrow>
     \<not> fle (DynamicSmoothingFactor cfg) (Fin 0) \<and> \<not> flt (Fin 1) (DynamicSmoothingFactor cfg))"

definition composite_normal :: "Config \<Rightarrow> bool" where
  "composite_normal cfg = (EnableMultiMetric cfg \<longrightarrow> \<not> fle (CompositeThreshold cfg) (Fin 0))"

definition anomaly_normal :: "Config \<Rightarrow> bool" where
  "anomaly_normal cfg =
     (if EnableAnomalyDetection cfg
      then 1 \<le> AnomalyHistorySize cfg \<and> AnomalyHistorySize cfg \<le> 100 \<and>
        \<not> fle (AnomalyChangeThreshold cfg) (Fin 0) \<and> 3 \<le> AnomalyMinDataPoints cfg \<and>
        (AnomalyHistorySize cfg < AnomalyMinDataPoints cfg \<longrightarrow> AnomalyMinDataPoints cfg = 3)
      else AnomalyHistorySize cfg \<noteq> 0 \<and> \<not> feq (AnomalyChangeThreshold cfg) (Fin 0) \<and>
        AnomalyMinDataPoints cfg \<noteq> 0)"

definition config_normal :: "Config \<Rightarrow> bool" where
  "config_normal cfg = (maps_normal cfg \<and> retention_normal cfg \<and> smoothing_normal cfg \<and>
     composite_normal cfg \<and> anomaly_normal cfg)"

lemmas normal_defs = maps_normal_def retention_normal_def smoothing_normal_def
  composite_normal_def anomaly_normal_def

lemma smoothing_default:
  "flt (Fin 0) defaultDynamicSmoothingFactor" "fle defaultDynamicSmoothingFactor (Fin 1)"
proof -
  have "fle (rnd (2 powi (- 3))) (rnd (1 / 5))" "fle (rnd (1 / 5)) (rnd (of_int 1))"
    by (rule rnd_mono, simp add: power_int_minus)+
  moreover have "rnd (2 powi (- 3)) = Fin (1 / 8)"
  proof -
    have "rnd (2 powi (- 3)) = Fin (2 powi (- 3))"
      by (rule rnd_exact [OF representable_powi]) (simp_all add: power_int_minus field_simps)
    then show ?thesis by (simp add: power_int_minus)
  qed
  ultimately show "flt (Fin 0) defaultDynamicSmoothingFactor" "fle defaultDynamicSmoothingFactor (Fin 1)"
    using rnd_of_int [of 1] unfolding defaultDynamicSmoothingFactor_def
    by (cases "rnd (1 / 5)"; auto simp: fle_def flt_def)+
qed

text \<open>Each step establishes its own predicate and keeps those of the steps before it.\<close>

lemma maps_steps [simp]:
  "maps_normal (normalizeMaps cfg)"
  "maps_normal (normalizeRetention cfg) = maps_normal cfg"
  "maps_normal (normalizeSmoothing cfg) = maps_normal cfg"
  "maps_normal (normalizeComposite cfg) = maps_normal cfg"
  "maps_normal (normalizeAnomalyEnabled cfg) = maps_normal cfg"
  "maps_normal (normalizeAnomalyDisabled cfg) = maps_normal cfg"
  unfolding maps_normal_def normalize_defs Let_def
  by (simp_all del: not_None_eq)

lemma retention_steps [simp]:
  "retention_normal (normalizeRetention cfg)"
  "retention_normal (normalizeSmoothing cfg) = retention_normal cfg"
  "retention_normal (normalizeComposite cfg) = retention_normal cfg"
  "retention_normal (normalizeAnomalyEnabled cfg) = retention_normal cfg"
  "retention_normal (normalizeAnomalyDisabled cfg) = retention_normal cfg"
  unfolding retention_normal_def normalize_defs Let_def by (simp_all add: config_consts)

lemma smoothing_steps [simp]:
  "smoothing_normal (normalizeSmoothing cfg)"
  "smoothing_normal (normalizeComposite cfg) = smoothing_normal cfg"
  "smoothing_normal (normalizeAnomalyEnabled cfg) = smoothing_normal cfg"
  "smoothing_normal (normalizeAnomalyDisabled cfg) = smoothing_normal cfg"
  unfolding smoothing_normal_def normalize_defs Let_def
  using smoothing_default by (simp_all add: flt_not_fle flt_def)

lemma composite_steps [simp]:
  "composite_normal (normalizeComposite cfg)"
  "composite_normal (normalizeAnomalyEnabled cfg) = composite_normal cfg"
  "composite_normal (normalizeAnomalyDisabled cfg) = composite_normal cfg"
  unfolding composite_normal_def normalize_defs Let_def by (simp_all add: config_consts)

lemma anomaly_steps:
  "EnableAnomalyDetection cfg \<Longrightarrow> anomaly_normal (normalizeAnomalyEnabled cfg)"
  "\<not> EnableAnomalyDetection cfg \<Longrightarrow> anomaly_normal (normalizeAnomalyDisabled cfg)"
  unfolding anomaly_normal_def normalize_defs Let_def
  by (simp_all add: config_consts feq_def)

lemma config_normal_Normalize: "config_normal (Normalize cfg)"
  unfolding config_normal_def Normalize_def Let_def using anomaly_steps by simp

text \<open>A normalized configuration is a fixed point of every step.\<close>

lemma normal_fixed:
  "maps_normal cfg \<Longrightarrow> normalizeMaps cfg = cfg"
  "retention_normal cfg \<Longrightarrow> normalizeRetention cfg = cfg"
  "smoothing_normal cfg \<Longrightarrow> normalizeSmoothing cfg = cfg"
  "composite_normal cfg \<Longrightarrow> normalizeComposite cfg = cfg"
  "anomaly_normal cfg \<Longrightarrow> EnableAnomalyDetection cfg \<Longrightarrow> normalizeAnomalyEnabled cfg = cfg"
  "anomaly_normal cfg \<Longrightarrow> \<not> EnableAnomalyDetection cfg \<Longrightarrow> normalizeAnomalyDisabled cfg = cfg"
  by (auto simp: normal_defs normalize_defs Let_def non_nil_def config_consts)

lemma Normalize_fixed: "config_normal cfg \<Longrightarrow> Normalize cfg = cfg"
  by (simp add: config_normal_def Normalize_def normal_fixed)

text \<open>After \<open>Normalize\<close> only the sign of the configured thresholds can make \<open>Validate\<close> fail.\<close>

lemma Validate_None_iff:
  "Validate o1 o2 o3 cfg = None \<longleftrightarrow>
     no_negative (MetricThresholds cfg) \<and> no_negative (MinThresholds cfg) \<and>
     no_negative (MaxThresholds cfg) \<and>
     (EnableAnomalyDetection cfg \<longrightarrow> 0 < AnomalyHistorySize cfg \<and>
        \<not> fle (AnomalyChangeThreshold cfg) (Fin 0) \<and> 0 < AnomalyMinDataPoints cfg) \<and>
     (EnableMultiMetric cfg \<longrightarrow> \<not> fle (CompositeThreshold cfg) (Fin 0))"
  unfolding Validate_def first_negative_shuffle [of o1 "MetricThresholds cfg", symmetric]
    first_negative_shuffle [of o2 "MinThresholds cfg", symmetric]
    first_negative_shuffle [of o3 "MaxThresholds cfg", symmetric]
  by (auto split: option.splits if_splits)

lemma Validate_normal:
  assumes "config_normal cfg"
  shows "Validate o1 o2 o3 cfg = None \<longleftrightarrow>
     no_negative (MetricThresholds cfg) \<and> no_negative (MinThresholds cfg) \<and>
     no_negative (MaxThresholds cfg)"
  using assms unfolding Validate_None_iff
  by (auto simp: config_normal_def composite_normal_def anomaly_normal_def)

lemma no_negative_Normalize:
  "no_negative (MetricThresholds (Normalize cfg)) = no_negative (MetricThresholds cfg)"
  "no_negative (MinThresholds (Normalize cfg)) = no_negative (MinThresholds cfg)"
  "no_negative (MaxThresholds (Normalize cfg)) = no_negative (MaxThresholds cfg)"
  by (simp_all add: no_negative_def Normalize_def normalize_defs Let_def)

section \<open>Claims\<close>


text \<open>C6: after \<open>Normalize\<close>, \<open>Validate\<close> reports an error exactly when a configured, minimal or
  maximal threshold is negative, in whatever order the maps are ranged over: every other
  value has been repaired.\<close>

theorem validate_normalized:
  "Validate o1 o2 o3 (Normalize cfg) = None \<longleftrightarrow>
     no_negative (MetricThresholds cfg) \<and> no_negative (MinThresholds cfg) \<and>
     no_negative (MaxThresholds cfg)"
  unfolding Validate_normal [OF config_normal_Normalize] by (simp add: no_negative_Normalize)

end
