(* ===== verification/Atp_Types.thy ===== *)
theory Atp_Types
  imports Atp_Config
begin

text \<open>
  The state of the processor (types.go, processor.go, the structures of storage.go) and what one
  evaluation draws from its surroundings.

  The value maps of a tracked entity are Go maps, that is references: \<open>createNewTrackedEntity\<close>
  stores the same map as current and as maximal values. They are therefore addresses into a
  store, and an update through one of them is seen through the other. A tracked entity itself is
  only reached through its entry of \<open>trackedEntities\<close>, so it is a value there.
\<close>

section \<open>The store of value maps\<close>

type_synonym addr = nat
type_synonym valmap = "(string, f64) gomap"

record vstore =
  cells :: "addr \<Rightarrow> valmap"
  next_addr :: addr

definition empty_store :: vstore where
  "empty_store = \<lparr>cells = (\<lambda>_. []), next_addr = 0\<rparr>"

definition alloc :: "valmap \<Rightarrow> vstore \<Rightarrow> addr \<times> vstore" where
  "alloc m h = (next_addr h, h\<lparr>cells := (cells h)(next_addr h := m), next_addr := Suc (next_addr h)\<rparr>)"

definition cell_put :: "addr \<Rightarrow> string \<Rightarrow> f64 \<Rightarrow> vstore \<Rightarrow> vstore" where
  "cell_put a k v h = h\<lparr>cells := (cells h)(a := AList.update k v (cells h a))\<rparr>"

lemma alloc_simps [simp]:
  "fst (alloc m h) = next_addr h"
  "cells (snd (alloc m h)) a = (if a = next_addr h then m else cells h a)"
  "next_addr (snd (alloc m h)) = Suc (next_addr h)"
  by (simp_all add: alloc_def)

lemma cell_put_simps [simp]:
  "cells (cell_put a k v h) b = (if b = a then AList.update k v (cells h a) else cells h b)"
  "next_addr (cell_put a k v h) = next_addr h"
  by (simp_all add: cell_put_def)

section \<open>Tracked entities\<close>

record trackedEntity =
  Identity :: string
  FirstSeen :: time
  LastExceeded :: time
  CurrentValues :: "addr option"
  MaxValues :: "addr option"
  Attributes :: "(string, string) gomap option"
  MetricHistory :: "(string, f64 list) gomap option"
  LastAnomalyDetected :: time

definition value_of :: "vstore \<Rightarrow> addr option \<Rightarrow> string \<Rightarrow> f64 option" where
  "value_of h a k = (case a of None \<Rightarrow> None | Some x \<Rightarrow> map_of (cells h x) k)"

definition history_of :: "trackedEntity \<Rightarrow> string \<Rightarrow> f64 list" where
  "history_of te m = (case lookup (MetricHistory te) m of None \<Rightarrow> [] | Some l \<Rightarrow> l)"

section \<open>The processor\<close>

record fileStorage =
  filePath :: string
  allowedBaseDir :: string
  skipValidation :: bool

record processorImp =
  config :: Config
  trackedEntities :: "(string, trackedEntity) gomap option"
  values_store :: vstore
  storage :: "fileStorage option"
  lastPersistenceOp :: time
  persistenceEnabled :: bool
  lastThresholdUpdate :: time
  dynamicThresholdsEnabled :: bool
  multiMetricEnabled :: bool
  dynamicCustomThresholds :: "(string, f64) gomap option"

definition threshold_of :: "processorImp \<Rightarrow> string \<Rightarrow> f64 option" where
  "threshold_of p m = lookup (MetricThresholds (config p)) m"

definition dynamic_of :: "processorImp \<Rightarrow> string \<Rightarrow> f64 option" where
  "dynamic_of p m = lookup (dynamicCustomThresholds p) m"

definition weight_of :: "processorImp \<Rightarrow> string \<Rightarrow> f64 option" where
  "weight_of p m = lookup (Weights (config p)) m"

section \<open>What an evaluation draws from its surroundings\<close>

text \<open>
  Each call of \<open>time.Now\<close> and each range over a map is a site of the source. An environment gives
  the instant each call returns and the order each range visits; nothing is assumed about either.
\<close>

datatype site =
    Capture nat | CaptureRange | TargetedStatic | TargetedDynamic
  | UpsertNow | UpdateRange
  | DetectRange | AnomalyNow
  | DynamicRange | DynamicNow | StaticRange | StaticNow | MultiNow
  | AnomalyRetentionNow | StandardRetentionNow
  | CreateNow | CreateRange | NewDynamicRange | NewStaticRange | NewThresholdNow | NewMultiNow
  | DebugRange

record env =
  now :: "site \<Rightarrow> time"
  order :: "site \<Rightarrow> nat list"

definition visit :: "env \<Rightarrow> site \<Rightarrow> ('k, 'v) gomap \<Rightarrow> ('k \<times> 'v) list" where
  "visit E s m = shuffle (order E s) m"

lemma set_visit [simp]: "set (visit E s m) = set m"
  by (simp add: visit_def)

lemma visit_Nil [simp]: "visit E s [] = []"
  by (simp add: visit_def)

lemma mset_visit [simp]: "mset (visit E s m) = mset m"
  by (simp add: visit_def)

lemma gomap_ok_visit [simp]: "gomap_ok (visit E s m) = gomap_ok m"
  by (simp add: visit_def)

lemma map_of_visit [simp]: "gomap_ok m \<Longrightarrow> map_of (visit E s m) = map_of m"
  by (simp add: visit_def)

section \<open>Example states\<close>

text \<open>A configuration with one threshold, a processor and an environment, for evaluating the model.\<close>

definition sample_config :: Config where
  "sample_config = \<lparr>
     MetricThresholds = Some [(''m'', Fin 5)], RetentionMinutes = 30, EnableStorage = None,
     EnableDynamicThresholds = False, DynamicSmoothingFactor = Fin (1 / 2),
     MinThresholds = Some [], MaxThresholds = Some [(''m'', Fin 8)],
     EnableMultiMetric = False, CompositeThreshold = Fin (3 / 2), Weights = Some [],
     EnableAnomalyDetection = True, AnomalyHistorySize = 10, AnomalyChangeThreshold = Fin 200,
     AnomalyMinDataPoints = 3, IncludeProcessList = [], DebugShowAllFilterStages = False\<rparr>"

definition sample_processor :: "Config \<Rightarrow> processorImp" where
  "sample_processor cfg = \<lparr>
     config = cfg, trackedEntities = Some [], values_store = empty_store, storage = None,
     lastPersistenceOp = 0, persistenceEnabled = False, lastThresholdUpdate = 0,
     dynamicThresholdsEnabled = EnableDynamicThresholds cfg,
     multiMetricEnabled = EnableMultiMetric cfg, dynamicCustomThresholds = Some []\<rparr>"

definition sample_env :: "time \<Rightarrow> env" where
  "sample_env t = \<lparr>now = (\<lambda>_. t), order = (\<lambda>_. [])\<rparr>"

definition sample_entity :: "f64 list \<Rightarrow> trackedEntity" where
  "sample_entity h = \<lparr>
     Identity = ''e'', FirstSeen = 0, LastExceeded = 0, CurrentValues = Some 0, MaxValues = Some 1,
     Attributes = None, MetricHistory = Some [(''m'', h)], LastAnomalyDetected = 0\<rparr>"

end
