(* ===== verification/Atp_Identity.thy ===== *)
theory Atp_Identity
  imports Atp_Types
begin

text \<open>
  What a resource is: its kind (resource_utils.go), the identity under which it is tracked, and
  the process-specific attributes the filter reads (utils.go). An identity is a pure function of
  the attributes and of the library's text of values that are neither strings, Booleans nor
  integers.
\<close>

section \<open>The kind of a resource\<close>

definition str_in :: "attrs \<Rightarrow> string \<Rightarrow> string list \<Rightarrow> bool" where
  "str_in attrs k vs = (case attr_str attrs k of None \<Rightarrow> False | Some s \<Rightarrow> s \<in> set vs)"

definition processStatuses :: "string list" where
  "processStatuses = [''blocked'', ''daemon'', ''detached'', ''idle'', ''locked'', ''orphan'',
     ''paging'', ''running'', ''sleeping'', ''stopped'', ''system'', ''unknown'', ''zombies'']"

definition memoryStates :: "string list" where
  "memoryStates = [''buffered'', ''cached'', ''inactive'', ''free'', ''slab_reclaimable'',
     ''slab_unreclaimable'', ''used'']"

text \<open>
  The first test that succeeds decides. (A \<open>cpu\<close> attribute decides with or without a known
  \<open>state\<close>, so the inner test of the source is not visible in the result.)
\<close>

definition identifyHostMetricType :: "attrs \<Rightarrow> string option" where
  "identifyHostMetricType attrs =
     (if has_attr attrs ''cpu'' then Some ''cpu''
      else if attr_str attrs ''device'' \<noteq> None \<and> str_in attrs ''direction'' [''read'', ''write'']
      then Some ''disk''
      else if has_attr attrs ''mountpoint'' then Some ''filesystem''
      else if has_attr attrs ''type'' \<and> str_in attrs ''state'' [''free'', ''reserved'', ''used'']
      then Some ''filesystem''
      else if str_in attrs ''state'' memoryStates then Some ''memory''
      else if has_attr attrs ''device'' \<and>
        (str_in attrs ''direction'' [''receive'', ''transmit''] \<or> has_attr attrs ''protocol'' \<or>
         attr_str attrs ''state'' \<noteq> None)
      then Some ''network''
      else if has_attr attrs ''protocol'' \<and> attr_str attrs ''state'' \<noteq> None then Some ''network''
      else if str_in attrs ''direction'' [''page_in'', ''page_out''] then Some ''paging''
      else if str_in attrs ''state'' [''cached'', ''free'', ''used''] \<and> has_attr attrs ''device''
      then Some ''paging''
      else if str_in attrs ''type'' [''major'', ''minor''] then Some ''paging''
      else if has_attr attrs ''process.pid'' then Some ''process''
      else if str_in attrs ''status'' processStatuses then Some ''processes''
      else if attr_str attrs ''device'' \<noteq> None \<and> \<not> has_attr attrs ''direction'' \<and>
        \<not> has_attr attrs ''mountpoint'' \<and> \<not> has_attr attrs ''protocol'' \<and>
        \<not> has_attr attrs ''state'' \<and> \<not> has_attr attrs ''type''
      then Some ''disk''
      else if has_attr attrs ''host.name'' then Some ''system''
      else None)"

definition getResourceType :: "lib \<Rightarrow> attrs \<Rightarrow> string" where
  "getResourceType L attrs =
     (case identifyHostMetricType attrs of
        Some t \<Rightarrow> t
      | None \<Rightarrow>
        (case attr_get attrs ''service.name'' of
           Some v \<Rightarrow> ''service:'' @ as_string L v
         | None \<Rightarrow> ''unknown''))"

definition countMetricsInResource :: "resource_metrics \<Rightarrow> nat" where
  "countMetricsInResource rm = sum_list (map (length \<circ> Metrics) (ScopeMetrics rm))"

section \<open>Identities\<close>

definition getHostName :: "lib \<Rightarrow> attrs \<Rightarrow> string" where
  "getHostName L attrs =
     (case attr_get attrs ''host.name'' of Some v \<Rightarrow> as_string L v | None \<Rightarrow> [])"

text \<open>\<open>fmt.Sprintf("%s@%s", name, host)\<close> when there is a host, the bare name otherwise.\<close>

definition at_host :: "string \<Rightarrow> string \<Rightarrow> string" where
  "at_host name host = (if host \<noteq> [] then name @ ''@'' @ host else name)"

definition buildCPUIdentity :: "lib \<Rightarrow> attrs \<Rightarrow> string \<Rightarrow> string" where
  "buildCPUIdentity L attrs host =
     (let cpuNum = (case attr_get attrs ''cpu'' of Some v \<Rightarrow> ''.'' @ as_string L v | None \<Rightarrow> [])
      in at_host (''cpu'' @ cpuNum) host)"

definition buildProcessIdentity :: "lib \<Rightarrow> attrs \<Rightarrow> string \<Rightarrow> string" where
  "buildProcessIdentity L attrs host =
     (let pid = (case attr_get attrs ''process.pid'' of Some v \<Rightarrow> raw_string L v | None \<Rightarrow> []);
          pid' = (if pid = [] then
              (case attr_get attrs ''process.command'' of Some v \<Rightarrow> as_string L v | None \<Rightarrow> [])
            else pid);
          pid'' = (if pid' = [] then ''unknown'' else pid')
      in at_host (''process.'' @ pid'') host)"

definition buildPagingIdentity :: "lib \<Rightarrow> attrs \<Rightarrow> string \<Rightarrow> string" where
  "buildPagingIdentity L attrs host =
     (case attr_get attrs ''device'' of
        Some v \<Rightarrow> at_host (''paging.'' @ as_string L v) host
      | None \<Rightarrow> at_host ''paging'' host)"

definition buildFilesystemIdentity :: "lib \<Rightarrow> attrs \<Rightarrow> string \<Rightarrow> string" where
  "buildFilesystemIdentity L attrs host =
     (let i = (case attr_get attrs ''mountpoint'' of Some v \<Rightarrow> as_string L v | None \<Rightarrow> []);
          i' = (if i = [] then
              (case attr_get attrs ''device'' of Some v \<Rightarrow> as_string L v | None \<Rightarrow> []) else i);
          i'' = (if i' = [] then ''unknown'' else i')
      in at_host (''filesystem.'' @ i'') host)"

definition buildDeviceBasedIdentity :: "lib \<Rightarrow> attrs \<Rightarrow> string \<Rightarrow> string \<Rightarrow> string" where
  "buildDeviceBasedIdentity L attrs host hostMetricType =
     (let device = (case attr_get attrs ''device'' of Some v \<Rightarrow> ''.'' @ as_string L v | None \<Rightarrow> [])
      in at_host (hostMetricType @ device) host)"

definition buildSimpleHostIdentity :: "string \<Rightarrow> string \<Rightarrow> string" where
  "buildSimpleHostIdentity host hostMetricType = at_host hostMetricType host"

definition buildHostMetricIdentity :: "lib \<Rightarrow> attrs \<Rightarrow> string \<Rightarrow> string" where
  "buildHostMetricIdentity L attrs host =
     (case identifyHostMetricType attrs of
        None \<Rightarrow> []
      | Some t \<Rightarrow>
        if t = ''cpu'' then buildCPUIdentity L attrs host
        else if t = ''process'' then buildProcessIdentity L attrs host
        else if t = ''disk'' \<or> t = ''network'' then buildDeviceBasedIdentity L attrs host t
        else if t = ''filesystem'' then buildFilesystemIdentity L attrs host
        else if t = ''paging'' then buildPagingIdentity L attrs host
        else if t \<in> {''load'', ''memory'', ''processes'', ''system''}
        then buildSimpleHostIdentity host t
        else [])"

definition buildServiceIdentity :: "lib \<Rightarrow> attrs \<Rightarrow> string" where
  "buildServiceIdentity L attrs =
     (case attr_get attrs ''service.instance.id'' of
        Some v \<Rightarrow> ''service.instance.id:'' @ as_string L v
      | None \<Rightarrow>
        (case attr_get attrs ''service.name'' of
           Some v \<Rightarrow>
             (let namespace = (case attr_get attrs ''service.namespace'' of
                                 Some nv \<Rightarrow> as_string L nv | None \<Rightarrow> [])
              in if namespace \<noteq> [] then ''service:'' @ namespace @ ''/'' @ as_string L v
                 else ''service:'' @ as_string L v)
         | None \<Rightarrow> []))"

definition buildFallbackIdentity :: "lib \<Rightarrow> attrs \<Rightarrow> string" where
  "buildFallbackIdentity L attrs =
     (if attrs = [] then ''resource:empty''
      else
        (let ks = sort (keys attrs);
             parts = List.map_filter (\<lambda>k. map_option (\<lambda>v. k @ ''='' @ as_string L v) (attr_get attrs k)) ks;
             i = join '','' parts
         in if 512 < length i then take 512 i else i))"

definition buildResourceIdentity :: "lib \<Rightarrow> attrs \<Rightarrow> string" where
  "buildResourceIdentity L attrs =
     (let host = getHostName L attrs;
          h = buildHostMetricIdentity L attrs host;
          s = buildServiceIdentity L attrs
      in if h \<noteq> [] then h else if s \<noteq> [] then s else buildFallbackIdentity L attrs)"

definition snapshotResourceAttributes :: "lib \<Rightarrow> attrs \<Rightarrow> (string, string) gomap" where
  "snapshotResourceAttributes L attrs =
     foldl (\<lambda>out (k, v). AList.update k (as_string L v) out) [] attrs"

section \<open>Processes\<close>

definition extractProcessName :: "attrs \<Rightarrow> string" where
  "extractProcessName attrs =
     (let exec = (case attr_get attrs ''process.executable.name'' of Some v \<Rightarrow> str_of v | None \<Rightarrow> []);
          cmd = (case attr_get attrs ''process.command'' of Some v \<Rightarrow> str_of v | None \<Rightarrow> [])
      in if exec \<noteq> [] then exec
         else if cmd \<noteq> [] then
           (case last_index_any cmd [CHR ''/'', CHR 0x5C] of
              Some i \<Rightarrow> drop (Suc i) cmd
            | None \<Rightarrow> cmd)
         else [])"

text \<open>
  The end of the executable in a Windows command line: after the first \<open>.exe\<close>, else the first
  \<open>.bat\<close>, else the first \<open>.cmd\<close> of the lowered command. The offsets are those of the lowered
  string; slicing the original with them panics when they are past its end.
\<close>

definition windowsExeEnd :: "lib \<Rightarrow> string \<Rightarrow> nat option" where
  "windowsExeEnd L cmd =
     (let low = to_lower L cmd;
          ends = (\<lambda>ext. case str_index ext low of
                          Some i \<Rightarrow> if 0 < i then Some (i + 4) else None | None \<Rightarrow> None)
      in case ends ''.exe'' of Some e \<Rightarrow> Some e | None \<Rightarrow>
         (case ends ''.bat'' of Some e \<Rightarrow> Some e | None \<Rightarrow> ends ''.cmd''))"

definition slice_to :: "string \<Rightarrow> nat \<Rightarrow> string go" where
  "slice_to s n = (if n \<le> length s then Inr (take n s)
     else Inl ''runtime error: slice bounds out of range'')"

definition upToSpace :: "string \<Rightarrow> string" where
  "upToSpace cmd = (case str_index '' '' cmd of
     Some i \<Rightarrow> if 0 < i then take i cmd else cmd | None \<Rightarrow> cmd)"

definition isWindowsPath :: "string \<Rightarrow> bool" where
  "isWindowsPath cmd = (2 < length cmd \<and> cmd ! 1 = CHR '':'')"

definition extractProcessExecutablePath :: "lib \<Rightarrow> attrs \<Rightarrow> string go" where
  "extractProcessExecutablePath L attrs =
     (let path = (case attr_get attrs ''process.executable.path'' of Some v \<Rightarrow> str_of v | None \<Rightarrow> []);
          cmd = (case attr_get attrs ''process.command'' of Some v \<Rightarrow> str_of v | None \<Rightarrow> [])
      in if path \<noteq> [] then Inr path
         else if cmd \<noteq> [] \<and> (has_prefix cmd ''/'' \<or> isWindowsPath cmd) then
           (if isWindowsPath cmd then
              (case windowsExeEnd L cmd of
                 Some e \<Rightarrow> slice_to cmd e
               | None \<Rightarrow> Inr (upToSpace cmd))
            else Inr (upToSpace cmd))
         else Inr [])"

definition matchesInclude :: "string \<Rightarrow> string \<Rightarrow> bool" where
  "matchesInclude processPath included =
     (let clean = trim_space included
      in included \<noteq> [] \<and> contains_any clean [CHR ''/'', CHR 0x5C] \<and>
         (processPath = clean \<or> trim_space processPath = clean))"

definition isProcessInIncludeList :: "lib \<Rightarrow> attrs \<Rightarrow> string list \<Rightarrow> bool go" where
  "isProcessInIncludeList L attrs includeList =
     (if includeList = [] then Inr False
      else andThen (extractProcessExecutablePath L attrs) (\<lambda>processPath.
        if processPath = [] then Inr False
        else Inr (list_ex (matchesInclude processPath) includeList)))"

definition isZombieProcess :: "attrs \<Rightarrow> bool" where
  "isZombieProcess attrs =
     (case attr_get attrs ''process.state'' of Some v \<Rightarrow> str_of v = ''Z'' | None \<Rightarrow> False)"

section \<open>Identities are never empty\<close>

lemma at_host_ne [simp]: "at_host n h = [] \<longleftrightarrow> n = [] \<and> h = []"
  by (auto simp: at_host_def)

lemma identifyHostMetricType_range:
  "identifyHostMetricType attrs = Some t \<Longrightarrow> t \<in> {''cpu'', ''disk'', ''filesystem'', ''memory'',
     ''network'', ''paging'', ''process'', ''processes'', ''system''}"
  unfolding identifyHostMetricType_def by (simp split: if_split_asm)

lemma buildHostMetricIdentity_ne:
  assumes "identifyHostMetricType attrs = Some t"
  shows "buildHostMetricIdentity L attrs host \<noteq> []"
  using identifyHostMetricType_range [OF assms] unfolding buildHostMetricIdentity_def assms
  by (auto simp: buildCPUIdentity_def buildProcessIdentity_def buildPagingIdentity_def
    buildFilesystemIdentity_def buildDeviceBasedIdentity_def buildSimpleHostIdentity_def Let_def
    split: option.split)

lemma join_ne: "p \<in> set ps \<Longrightarrow> p \<noteq> [] \<Longrightarrow> join sep ps \<noteq> []"
  by (induction sep ps rule: join.induct) auto

lemma map_filter_all:
  "(\<And>x. x \<in> set xs \<Longrightarrow> f x = Some (g x)) \<Longrightarrow> List.map_filter f xs = map g xs"
  by (induction xs) auto

text \<open>The parts of a fallback identity: every key has a value.\<close>

definition fallback_part :: "lib \<Rightarrow> attrs \<Rightarrow> string \<Rightarrow> string" where
  "fallback_part L attrs k = k @ ''='' @ as_string L (the (attr_get attrs k))"

lemma fallback_parts:
  "List.map_filter (\<lambda>k. map_option (\<lambda>v. k @ ''='' @ as_string L v) (attr_get attrs k)) (sort (keys attrs)) =
   map (fallback_part L attrs) (sort (keys attrs))"
proof (rule map_filter_all)
  fix k assume "k \<in> set (sort (keys attrs))"
  then have "map_of attrs k \<noteq> None" by (simp add: map_of_eq_None_iff del: not_None_eq)
  then show "map_option (\<lambda>v. k @ ''='' @ as_string L v) (attr_get attrs k) = Some (fallback_part L attrs k)"
    by (auto simp: attr_get_def fallback_part_def)
qed

lemma fallback_part_ne [simp]: "fallback_part L attrs k \<noteq> []"
  by (simp add: fallback_part_def)

lemma buildFallbackIdentity_bounds:
  "buildFallbackIdentity L attrs \<noteq> []" "length (buildFallbackIdentity L attrs) \<le> 512"
proof -
  have "join '','' (map (fallback_part L attrs) (sort (keys attrs))) \<noteq> []" if "attrs \<noteq> []"
  proof -
    from that have "keys attrs \<noteq> []" by simp
    then obtain k where "k \<in> set (sort (keys attrs))" by (metis last_in_set set_sort)
    then show ?thesis by (intro join_ne [of "fallback_part L attrs k"]) auto
  qed
  then show "buildFallbackIdentity L attrs \<noteq> []" "length (buildFallbackIdentity L attrs) \<le> 512"
    unfolding buildFallbackIdentity_def Let_def fallback_parts by auto
qed

lemma buildResourceIdentity_ne: "buildResourceIdentity L attrs \<noteq> []"
  using buildFallbackIdentity_bounds(1) by (simp add: buildResourceIdentity_def Let_def)

section \<open>Identities do not depend on the order of the attributes\<close>

lemma map_of_mset_eq: "gomap_ok a \<Longrightarrow> mset a = mset b \<Longrightarrow> map_of a = map_of b"
  by (metis map_of_shuffle shuffle_complete gomap_ok_def)

lemma attr_get_mset_eq: "gomap_ok a \<Longrightarrow> mset a = mset b \<Longrightarrow> attr_get a = attr_get b"
  by (rule ext) (simp add: attr_get_def map_of_mset_eq)

lemma sort_keys_mset_eq: "mset a = mset b \<Longrightarrow> sort (keys a) = sort (keys b)"
  by (metis mset_map sorted_list_of_multiset_mset)

lemma buildResourceIdentity_cong:
  assumes "gomap_ok a" "mset a = mset b"
  shows "buildResourceIdentity L a = buildResourceIdentity L b"
proof -
  have get: "attr_get a = attr_get b" using assms by (rule attr_get_mset_eq)
  have "a = [] \<longleftrightarrow> b = []" using assms(2) by auto
  then have "buildFallbackIdentity L a = buildFallbackIdentity L b"
    by (simp add: buildFallbackIdentity_def Let_def fallback_parts fallback_part_def [abs_def] get
      sort_keys_mset_eq [OF assms(2)])
  moreover have "getHostName L a = getHostName L b" by (simp only: getHostName_def get)
  moreover have "buildServiceIdentity L a = buildServiceIdentity L b"
    by (simp only: buildServiceIdentity_def get)
  moreover have "identifyHostMetricType a = identifyHostMetricType b"
    by (simp only: identifyHostMetricType_def str_in_def attr_str_def has_attr_def get)
  moreover have "buildHostMetricIdentity L a h = buildHostMetricIdentity L b h" for h
    unfolding buildHostMetricIdentity_def buildCPUIdentity_def buildProcessIdentity_def
      buildPagingIdentity_def buildFilesystemIdentity_def buildDeviceBasedIdentity_def
    by (simp only: get calculation(4))
  ultimately show ?thesis by (simp only: buildResourceIdentity_def Let_def)
qed

section \<open>Processes are told apart by pid and host\<close>

lemma int_str_ne [simp]: "int_str i \<noteq> []"
  by (simp add: int_str_def)

lemma at_not_in_int_str: "CHR ''@'' \<notin> set (int_str i)"
  by (auto dest!: int_str_chars simp: is_digit_def)

lemma at_host_inject:
  assumes "CHR ''@'' \<notin> set n" "CHR ''@'' \<notin> set n'"
  shows "at_host n h = at_host n' h' \<longleftrightarrow> n = n' \<and> h = h'"
proof -
  have "n @ ''@'' @ h = n' @ ''@'' @ h' \<longleftrightarrow> n = n' \<and> h = h'" for h h'
    using assms split_on_append_sep [of "CHR ''@''" n h] split_on_append_sep [of "CHR ''@''" n' h']
    by (auto simp: append_eq_append_conv2 Cons_eq_append_conv append_eq_Cons_conv)
  moreover have "n @ ''@'' @ h \<noteq> n'" for h using assms by auto
  moreover have "n' @ ''@'' @ h \<noteq> n" for h using assms by auto
  ultimately show ?thesis by (auto simp: at_host_def)
qed

lemma buildProcessIdentity_pid:
  "attr_get attrs ''process.pid'' = Some (VInt i) \<Longrightarrow>
   buildProcessIdentity L attrs host = at_host (''process.'' @ int_str i) host"
  by (simp add: buildProcessIdentity_def)

lemma process_identity:
  assumes "identifyHostMetricType attrs = Some ''process''"
    and "attr_get attrs ''process.pid'' = Some (VInt i)"
  shows "buildResourceIdentity L attrs = at_host (''process.'' @ int_str i) (getHostName L attrs)"
  using assms by (simp add: buildResourceIdentity_def buildHostMetricIdentity_def Let_def
    buildProcessIdentity_pid)

lemma process_identity_inject:
  assumes "identifyHostMetricType a = Some ''process''" "attr_get a ''process.pid'' = Some (VInt i)"
    and "identifyHostMetricType b = Some ''process''" "attr_get b ''process.pid'' = Some (VInt j)"
  shows "buildResourceIdentity L a = buildResourceIdentity L b \<longleftrightarrow>
     i = j \<and> getHostName L a = getHostName L b"
  by (simp add: process_identity [OF assms(1,2)] process_identity [OF assms(3,4)] at_host_inject
    at_not_in_int_str)

section \<open>The executable of a process\<close>

lemma windowsExeEnd_bound:
  assumes "windowsExeEnd L cmd = Some e"
  shows "e \<le> length (to_lower L cmd)"
  using assms str_index_bound [of "''.exe''"] str_index_bound [of "''.bat''"]
    str_index_bound [of "''.cmd''"]
  by (fastforce simp: windowsExeEnd_def Let_def split: option.splits if_splits)

lemma length_to_lower_ascii [simp]: "is_ascii s \<Longrightarrow> length (to_lower L s) = length s"
  by (simp add: to_lower_def)

definition processCommand :: "attrs \<Rightarrow> string" where
  "processCommand attrs = (case attr_get attrs ''process.command'' of Some v \<Rightarrow> str_of v | None \<Rightarrow> [])"

definition processPath :: "attrs \<Rightarrow> string" where
  "processPath attrs =
     (case attr_get attrs ''process.executable.path'' of Some v \<Rightarrow> str_of v | None \<Rightarrow> [])"

lemma upToSpace_prefix: "prefix (upToSpace s) s"
  by (auto simp: upToSpace_def take_is_prefix split: option.splits)

text \<open>The path attribute wins; otherwise the executable is a prefix of the command line.\<close>

lemma extractProcessExecutablePath_cases:
  assumes "extractProcessExecutablePath L attrs = Inr path"
  shows "if processPath attrs \<noteq> [] then path = processPath attrs
     else prefix path (processCommand attrs)"
  using assms upToSpace_prefix
  by (auto simp: extractProcessExecutablePath_def processPath_def processCommand_def slice_to_def
    Let_def take_is_prefix split: if_splits option.splits)

lemma extractProcessExecutablePath_returns:
  assumes "length (to_lower L (processCommand attrs)) \<le> length (processCommand attrs)"
  shows "returns (extractProcessExecutablePath L attrs)"
  using assms windowsExeEnd_bound
  by (fastforce simp: extractProcessExecutablePath_def processCommand_def slice_to_def Let_def
    split: option.splits)

section \<open>The include list\<close>

lemma isProcessInIncludeList_True:
  "isProcessInIncludeList L attrs l = Inr True \<longleftrightarrow>
     (\<exists>path e. extractProcessExecutablePath L attrs = Inr path \<and> path \<noteq> [] \<and>
        e \<in> set l \<and> contains_any (trim_space e) [CHR ''/'', CHR 0x5C] \<and>
        (path = trim_space e \<or> trim_space path = trim_space e))"
proof -
  have "included \<noteq> []" if "contains_any (trim_space included) cs" for included cs
    using that by (auto simp: trim_space_def contains_any_def)
  then show ?thesis
    by (auto simp: isProcessInIncludeList_def andThen_Inr_iff matchesInclude_def Let_def list_ex_iff
      cong: conj_cong)
qed

section \<open>The snapshot of the attributes\<close>

lemma snapshot_fold:
  "map_of (foldl (\<lambda>out (k, v). AList.update k (f v) out) acc m) k =
     (case map_of (rev m) k of Some v \<Rightarrow> Some (f v) | None \<Rightarrow> map_of acc k)"
  by (induction m arbitrary: acc) (auto simp: map_add_def split: option.splits)

lemma gomap_ok_snapshot_fold:
  "gomap_ok acc \<Longrightarrow> gomap_ok (foldl (\<lambda>out (k, v). AList.update k (f v) out) acc m)"
  by (induction m arbitrary: acc) auto

lemma map_of_rev: "gomap_ok m \<Longrightarrow> map_of (rev m) = map_of m"
  by (rule map_of_mset_eq) (auto simp: gomap_ok_def simp flip: rev_map)

lemma snapshotResourceAttributes_spec:
  assumes "gomap_ok attrs"
  shows "gomap_ok (snapshotResourceAttributes L attrs)"
    "map_of (snapshotResourceAttributes L attrs) k = map_option (as_string L) (attr_get attrs k)"
proof -
  show "gomap_ok (snapshotResourceAttributes L attrs)"
    by (simp add: snapshotResourceAttributes_def gomap_ok_snapshot_fold)
  show "map_of (snapshotResourceAttributes L attrs) k = map_option (as_string L) (attr_get attrs k)"
    using assms by (simp add: snapshotResourceAttributes_def snapshot_fold map_of_rev attr_get_def
      split: option.splits)
qed

section \<open>Claims\<close>

text \<open>Every resource has an identity: the string under which it is tracked is never empty, and
  the fallback built from all attributes has at most 512 bytes.\<close>

theorem identity_total:
  "buildResourceIdentity L attrs \<noteq> [] \<and> length (buildFallbackIdentity L attrs) \<le> 512"
  using buildResourceIdentity_ne buildFallbackIdentity_bounds(2) by blast

text \<open>The identity of a resource does not depend on the order in which its attributes arrive.\<close>

theorem identity_order_independent:
  assumes "gomap_ok a" "mset a = mset b"
  shows "buildResourceIdentity L a = buildResourceIdentity L b"
  using assms by (rule buildResourceIdentity_cong)

theorem identity_order_independent_witness:
  "buildResourceIdentity plain_lib [(''b'', VInt 1), (''a'', VStr ''x'')] =
   buildResourceIdentity plain_lib [(''a'', VStr ''x''), (''b'', VInt 1)] \<and>
   buildResourceIdentity plain_lib [(''a'', VStr ''x''), (''b'', VInt 1)] = ''a=x,b=1''"
proof -
  have "buildResourceIdentity plain_lib [(''a'', VStr ''x''), (''b'', VInt 1)] = ''a=x,b=1''"
    by code_simp
  then show ?thesis
    using identity_order_independent [of "[(''b'', VInt 1), (''a'', VStr ''x'')]"
      "[(''a'', VStr ''x''), (''b'', VInt 1)]" plain_lib] by (simp add: gomap_ok_def)
qed

text \<open>Two processes with integer pids are tracked under the same identity exactly when pid and
  host name agree; the separator between them cannot be forged by either.\<close>

theorem process_identities_distinct:
  assumes "identifyHostMetricType a = Some ''process''" "attr_get a ''process.pid'' = Some (VInt i)"
    and "identifyHostMetricType b = Some ''process''" "attr_get b ''process.pid'' = Some (VInt j)"
  shows "buildResourceIdentity L a = buildResourceIdentity L b \<longleftrightarrow>
     i = j \<and> getHostName L a = getHostName L b"
  using assms by (rule process_identity_inject)

theorem process_identities_distinct_witness:
  "buildResourceIdentity plain_lib [(''process.pid'', VInt 1)] \<noteq>
   buildResourceIdentity plain_lib [(''process.pid'', VInt 12), (''host.name'', VStr ''h'')]"
proof -
  have "identifyHostMetricType [(''process.pid'', VInt 1)] = Some ''process''"
    "attr_get [(''process.pid'', VInt 1)] ''process.pid'' = Some (VInt 1)"
    "identifyHostMetricType [(''process.pid'', VInt 12), (''host.name'', VStr ''h'')] = Some ''process''"
    "attr_get [(''process.pid'', VInt 12), (''host.name'', VStr ''h'')] ''process.pid'' = Some (VInt 12)"
    by code_simp+
  from process_identities_distinct [OF this] show ?thesis by simp
qed

text \<open>A process matches the include list exactly when its executable path, as it stands or
  trimmed, equals a trimmed entry that contains a path separator. Entries without a separator
  never match anything.\<close>

theorem include_list_exact:
  "isProcessInIncludeList L attrs l = Inr True \<longleftrightarrow>
     (\<exists>path e. extractProcessExecutablePath L attrs = Inr path \<and> path \<noteq> [] \<and>
        e \<in> set l \<and> contains_any (trim_space e) [CHR ''/'', CHR 0x5C] \<and>
        (path = trim_space e \<or> trim_space path = trim_space e))"
  by (rule isProcessInIncludeList_True)

text \<open>Extracting the executable path returns, without a slice panic, whenever lower-casing does
  not lengthen the command line, and what it returns is the path attribute or a prefix of the
  command line.\<close>

theorem executable_path_safe:
  assumes "length (to_lower L (processCommand attrs)) \<le> length (processCommand attrs)"
  shows "\<exists>path. extractProcessExecutablePath L attrs = Inr path \<and>
     (if processPath attrs \<noteq> [] then path = processPath attrs
      else prefix path (processCommand attrs))"
proof -
  from extractProcessExecutablePath_returns [OF assms] obtain path where
    "extractProcessExecutablePath L attrs = Inr path" by (auto simp: returns_iff)
  with extractProcessExecutablePath_cases show ?thesis by blast
qed

theorem executable_path_safe_witness:
  "\<exists>path. extractProcessExecutablePath plain_lib [(''process.command'', VStr ''C:a.EXE -x'')] = Inr path \<and>
     prefix path ''C:a.EXE -x'' \<and> path = ''C:a.EXE''"
proof -
  let ?a = "[(''process.command'', VStr ''C:a.EXE -x'')]"
  have c: "processPath ?a = []" "processCommand ?a = ''C:a.EXE -x''" by code_simp+
  have "length (to_lower plain_lib (processCommand ?a)) \<le> length (processCommand ?a)" by code_simp
  from executable_path_safe [OF this] obtain path where
    "extractProcessExecutablePath plain_lib ?a = Inr path" "prefix path ''C:a.EXE -x''"
    by (auto simp: c)
  moreover have "extractProcessExecutablePath plain_lib ?a = Inr ''C:a.EXE''" by code_simp
  ultimately show ?thesis by auto
qed

text \<open>
  When lower-casing lengthens the command line the slice can panic. U+023A is two bytes in UTF-8
  and its lower-case form U+2C65 is three.
\<close>

definition capitals :: string where
  "capitals = concat (replicate 5 [char_of (200 :: nat), char_of (186 :: nat)])"

definition smalls :: string where
  "smalls = concat (replicate 5 [char_of (226 :: nat), char_of (177 :: nat), char_of (165 :: nat)])"

lemma executable_path_panics:
  assumes "lower_runes L (''C:'' @ capitals @ ''.EXE'') = ''c:'' @ smalls @ ''.exe''"
  shows "extractProcessExecutablePath L [(''process.command'', VStr (''C:'' @ capitals @ ''.EXE''))] =
     Inl ''runtime error: slice bounds out of range''"
proof -
  let ?c = "''C:'' @ capitals @ ''.EXE''"
  have na: "\<not> is_ascii ?c" by code_simp
  then have low: "to_lower L ?c = ''c:'' @ smalls @ ''.exe''" using assms by (simp add: to_lower_def)
  have i: "str_index ''.exe'' (''c:'' @ smalls @ ''.exe'') = Some 17" by code_simp
  have c: "isWindowsPath ?c" "length ?c = 16" "?c \<noteq> []" by code_simp+
  have e: "windowsExeEnd L ?c = Some 21" unfolding windowsExeEnd_def Let_def low i by simp
  show ?thesis
    unfolding extractProcessExecutablePath_def Let_def
    using c e by (simp add: attr_get_def slice_to_def)
qed

end
