(* ===== verification/Atp_Composite.thy ===== *)
theory Atp_Composite
  imports Atp_Identity
begin

text \<open>
  The values of a resource (composite_metrics.go), the thresholds they are compared with
  (threshold_ingestion.go) and the composite score. The log lines the source writes on the way
  have no counterpart; the reason string is kept, because it is returned.
\<close>

section \<open>Values of a resource\<close>

definition shouldProcessMetric :: "processorImp \<Rightarrow> string \<Rightarrow> bool" where
  "shouldProcessMetric p n =
     (if threshold_of p n \<noteq> None then True
      else if multiMetricEnabled p then weight_of p n \<noteq> None
      else False)"

definition sum_points :: "lib \<Rightarrow> point list \<Rightarrow> f64" where
  "sum_points L ps = foldl (\<lambda>total d. fadd total (double_value L d)) (Fin 0) ps"

definition extractGaugeValue :: "lib \<Rightarrow> point list \<Rightarrow> f64" where
  "extractGaugeValue L dataPoints =
     (case dataPoints of [] \<Rightarrow> Fin 0 | [d] \<Rightarrow> double_value L d | _ \<Rightarrow> sum_points L dataPoints)"

definition extractSumValue :: "lib \<Rightarrow> point list \<Rightarrow> f64" where
  "extractSumValue L dataPoints =
     (case dataPoints of [] \<Rightarrow> Fin 0 | [d] \<Rightarrow> double_value L d | _ \<Rightarrow> sum_points L dataPoints)"

fun extractSingleMetricValue :: "lib \<Rightarrow> metric_data \<Rightarrow> f64 option" where
  "extractSingleMetricValue L (Gauge ps) = Some (extractGaugeValue L ps)"
| "extractSingleMetricValue L (Sum ps) = Some (extractSumValue L ps)"
| "extractSingleMetricValue L _ = None"

definition extractStep :: "lib \<Rightarrow> processorImp \<Rightarrow> valmap \<Rightarrow> metric \<Rightarrow> valmap" where
  "extractStep L p values m =
     (if shouldProcessMetric p (Name m) then
        (case extractSingleMetricValue L (Data m) of
           Some v \<Rightarrow> AList.update (Name m) v values
         | None \<Rightarrow> values)
      else values)"

definition extractMetricValues :: "lib \<Rightarrow> processorImp \<Rightarrow> resource_metrics \<Rightarrow> valmap" where
  "extractMetricValues L p rm =
     foldl (\<lambda>values sm. foldl (extractStep L p) values (Metrics sm)) [] (ScopeMetrics rm)"

section \<open>Thresholds in effect\<close>

definition isValidMetricValue :: "f64 \<Rightarrow> bool" where
  "isValidMetricValue v = (\<not> is_nan v \<and> \<not> is_inf v)"

definition isValidThreshold :: "f64 \<Rightarrow> bool" where
  "isValidThreshold t = (isValidMetricValue t \<and> flt (Fin 0) t)"

text \<open>The threshold with its kind, \<open>None\<close> for the source's \<open>0, "", false\<close>.\<close>

definition determineEffectiveThreshold ::
  "processorImp \<Rightarrow> string \<Rightarrow> f64 \<Rightarrow> (f64 \<times> string) option" where
  "determineEffectiveThreshold p metricName staticThreshold =
     (let dynamic = (if dynamicThresholdsEnabled p then dynamic_of p metricName else None)
      in case dynamic of
           Some dt \<Rightarrow>
             (if isValidThreshold dt then Some (dt, ''dynamic'')
              else if isValidThreshold staticThreshold then Some (staticThreshold, ''static'')
              else None)
         | None \<Rightarrow>
             (if isValidThreshold staticThreshold then Some (staticThreshold, ''static'')
              else None))"

definition addThresholdAttributes ::
  "env \<Rightarrow> nat \<Rightarrow> string \<Rightarrow> f64 \<Rightarrow> f64 \<Rightarrow> string \<Rightarrow> (string, json) gomap \<Rightarrow> (string, json) gomap" where
  "addThresholdAttributes E i metricName threshold value thresholdType details =
     AList.update metricName
       (JObj [(''threshold'', JNum threshold), (''observed_value'', JNum value),
              (''threshold_type'', JStr thresholdType),
              (''evaluation_timestamp'', JInt (unix_seconds (now E (Capture i))))]) details"

text \<open>
  \<open>updateProcessATPAttribute\<close>: read the JSON object in the attribute \<open>process.atp\<close> (an unreadable
  or missing one counts as empty), set one key, write it back. An object that cannot be
  marshalled leaves the attribute as it was.
\<close>

definition atpData :: "lib \<Rightarrow> attrs \<Rightarrow> (string, json) gomap" where
  "atpData L attrs =
     (case attr_get attrs ''process.atp'' of
        None \<Rightarrow> []
      | Some v \<Rightarrow> (case unmarshal_obj L (as_string L v) of Some (Some m) \<Rightarrow> m | _ \<Rightarrow> []))"

definition updateProcessATPAttribute :: "lib \<Rightarrow> string \<Rightarrow> json \<Rightarrow> attrs \<Rightarrow> attrs" where
  "updateProcessATPAttribute L key data attrs =
     (case marshal_obj L (AList.update key data (atpData L attrs)) of
        Some s \<Rightarrow> attr_put ''process.atp'' (VStr s) attrs
      | None \<Rightarrow> attrs)"

fun captureLoop ::
  "env \<Rightarrow> processorImp \<Rightarrow> nat \<Rightarrow> valmap \<Rightarrow> (string, json) gomap \<Rightarrow> (string, json) gomap" where
  "captureLoop E p i [] details = details"
| "captureLoop E p i ((metricName, metricValue) # rest) details =
     (if metricName = [] then captureLoop E p (Suc i) rest details
      else case threshold_of p metricName of
        None \<Rightarrow> captureLoop E p (Suc i) rest details
      | Some staticThreshold \<Rightarrow>
        (if \<not> isValidMetricValue metricValue then captureLoop E p (Suc i) rest details
         else case determineEffectiveThreshold p metricName staticThreshold of
           None \<Rightarrow> captureLoop E p (Suc i) rest details
         | Some (t, kind) \<Rightarrow>
             captureLoop E p (Suc i) rest
               (addThresholdAttributes E i metricName t metricValue kind details)))"

definition captureUsedMetricThresholds ::
  "lib \<Rightarrow> env \<Rightarrow> processorImp \<Rightarrow> valmap \<Rightarrow> attrs \<Rightarrow> attrs" where
  "captureUsedMetricThresholds L E p values attrs =
     (if MetricThresholds (config p) = None \<or> values = [] then attrs
      else let details = captureLoop E p 0 (visit E CaptureRange values) []
           in if details \<noteq> [] then
                updateProcessATPAttribute L ''threshold_details'' (JObj details) attrs
              else attrs)"

section \<open>The composite score\<close>

text \<open>The threshold a weighted metric is divided by: 1.5 times the value itself when none is
  configured, the dynamic one when there is a positive one, the static one otherwise.\<close>

definition compositeThresholdOf :: "processorImp \<Rightarrow> string \<Rightarrow> f64 \<Rightarrow> f64" where
  "compositeThresholdOf p metric v =
     (case threshold_of p metric of
        None \<Rightarrow> fmul v (Fin (3 / 2))
      | Some t \<Rightarrow>
        (if dynamicThresholdsEnabled p then
           (case dynamic_of p metric of
              Some dt \<Rightarrow> if flt (Fin 0) dt then dt else t
            | None \<Rightarrow> t)
         else t))"

text \<open>The multiplication sign of the reason is U+00D7, two bytes in UTF-8.\<close>

definition compositePart :: "string \<Rightarrow> f64 \<Rightarrow> f64 \<Rightarrow> f64 \<Rightarrow> string" where
  "compositePart metric v t w =
     ''('' @ metric @ '':'' @ fmt_fixed 2 v @ ''/'' @ fmt_fixed 2 t @
     [char_of (195 :: nat), char_of (151 :: nat)] @ fmt_fixed 2 w @ '')''"

fun compositeLoop ::
  "processorImp \<Rightarrow> valmap \<Rightarrow> string list \<Rightarrow> f64 \<Rightarrow> string list \<Rightarrow> f64 \<times> string list" where
  "compositeLoop p values [] score parts = (score, parts)"
| "compositeLoop p values (metric # rest) score parts =
     (let w = (case weight_of p metric of Some x \<Rightarrow> x | None \<Rightarrow> Fin 0)
      in case map_of values metric of
           None \<Rightarrow> compositeLoop p values rest score parts
         | Some v \<Rightarrow>
           (let t = compositeThresholdOf p metric v
            in if fle t (Fin 0) then compositeLoop p values rest score parts
               else compositeLoop p values rest (fadd score (fmul (fdiv v t) w))
                      (parts @ [compositePart metric v t w])))"

definition calculateCompositeGeneric :: "processorImp \<Rightarrow> valmap \<Rightarrow> f64 \<times> string" where
  "calculateCompositeGeneric p values =
     (let weights = entries (Weights (config p))
      in if weights = [] then (Fin 0, [])
         else let (score, parts) = compositeLoop p values (sort (keys weights)) (Fin 0) []
              in if parts = [] then (Fin 0, [])
                 else (score, ''Score '' @ fmt_fixed 2 score @ '' = '' @ join '' + '' parts))"

definition compositeScore :: "processorImp \<Rightarrow> valmap \<Rightarrow> f64" where
  "compositeScore p values = fst (calculateCompositeGeneric p values)"

definition compositeLimit :: "processorImp \<Rightarrow> f64" where
  "compositeLimit p = (if fle (CompositeThreshold (config p)) (Fin 0)
     then defaultCompositeThreshold else CompositeThreshold (config p))"

definition addMultiMetricData :: "lib \<Rightarrow> processorImp \<Rightarrow> valmap \<Rightarrow> attrs \<Rightarrow> attrs" where
  "addMultiMetricData L p values attrs =
     updateProcessATPAttribute L ''multi_metric''
       (JObj [(''composite_score'', JNum (compositeScore p values)),
              (''threshold'', JNum (compositeLimit p))]) attrs"

section \<open>The values of a resource, metric by metric\<close>

text \<open>The reference: the value of the last gauge or sum of a name, whatever the grouping in scopes.\<close>

fun last_value :: "lib \<Rightarrow> metric list \<Rightarrow> string \<Rightarrow> f64 option" where
  "last_value L [] n = None"
| "last_value L (m # ms) n =
     (case last_value L ms n of
        Some v \<Rightarrow> Some v
      | None \<Rightarrow> if Name m = n then extractSingleMetricValue L (Data m) else None)"

lemma foldl_concat: "foldl (\<lambda>a x. foldl f a (g x)) a xs = foldl f a (concat (map g xs))"
  by (induction xs arbitrary: a) auto

lemma extractMetricValues_flat:
  "extractMetricValues L p rm = foldl (extractStep L p) [] (metrics_of_resource rm)"
  by (simp add: extractMetricValues_def foldl_concat metrics_of_resource_def)

lemma map_of_extractStep_fold:
  "map_of (foldl (extractStep L p) acc ms) n =
     (if shouldProcessMetric p n then
        (case last_value L ms n of Some v \<Rightarrow> Some v | None \<Rightarrow> map_of acc n)
      else map_of acc n)"
  by (induction ms arbitrary: acc) (auto simp: extractStep_def split: option.splits)

lemma gomap_ok_extractStep_fold: "gomap_ok acc \<Longrightarrow> gomap_ok (foldl (extractStep L p) acc ms)"
  by (induction ms arbitrary: acc) (auto simp: extractStep_def split: option.splits)

lemma gomap_ok_extractMetricValues [simp]: "gomap_ok (extractMetricValues L p rm)"
  by (simp add: extractMetricValues_flat gomap_ok_extractStep_fold)

lemma map_of_extractMetricValues:
  "map_of (extractMetricValues L p rm) n =
     (if shouldProcessMetric p n then last_value L (metrics_of_resource rm) n else None)"
  by (simp add: extractMetricValues_flat map_of_extractStep_fold split: option.splits)

text \<open>What extraction reads of the processor never changes during a batch.\<close>

lemma extractMetricValues_cong:
  assumes "config p = config q" "multiMetricEnabled p = multiMetricEnabled q"
  shows "extractMetricValues L p rm = extractMetricValues L q rm"
proof -
  have "shouldProcessMetric p = shouldProcessMetric q"
    by (rule ext) (simp add: shouldProcessMetric_def threshold_of_def weight_of_def assms)
  then have "extractStep L p = extractStep L q" by (intro ext) (simp add: extractStep_def)
  then show ?thesis by (simp add: extractMetricValues_def)
qed

section \<open>The attribute process.atp\<close>

lemma updateProcessATPAttribute_other [frame]:
  "k \<noteq> ''process.atp'' \<Longrightarrow> attr_get (updateProcessATPAttribute L key data attrs) k = attr_get attrs k"
  by (simp add: updateProcessATPAttribute_def split: option.split)

lemma captureUsedMetricThresholds_other [frame]:
  "k \<noteq> ''process.atp'' \<Longrightarrow> attr_get (captureUsedMetricThresholds L E p values attrs) k = attr_get attrs k"
  by (simp add: captureUsedMetricThresholds_def Let_def updateProcessATPAttribute_other)

lemma addMultiMetricData_other [frame]:
  "k \<noteq> ''process.atp'' \<Longrightarrow> attr_get (addMultiMetricData L p values attrs) k = attr_get attrs k"
  by (simp add: addMultiMetricData_def updateProcessATPAttribute_other)

lemma gomap_ok_attr_put [simp]: "gomap_ok m \<Longrightarrow> gomap_ok (attr_put k v m)"
  by (simp add: attr_put_def)

lemma gomap_ok_attr_remove [simp]: "gomap_ok m \<Longrightarrow> gomap_ok (attr_remove k m)"
  by (simp add: attr_remove_def)

lemma gomap_ok_updateProcessATPAttribute [simp]:
  "gomap_ok attrs \<Longrightarrow> gomap_ok (updateProcessATPAttribute L key data attrs)"
  by (simp add: updateProcessATPAttribute_def split: option.split)

text \<open>
  When the document written can be read back, the attribute holds the old object with one key set:
  the entries other stages have written stay.
\<close>

lemma atpData_update:
  assumes "marshal_obj L (AList.update key data (atpData L attrs)) = Some s"
    and "unmarshal_obj L s = Some (Some m)"
  shows "atpData L (updateProcessATPAttribute L key data attrs) = m"
  using assms by (simp add: updateProcessATPAttribute_def atpData_def)

section \<open>The thresholds in effect\<close>

lemma isValidThreshold_pos: "isValidThreshold t \<longleftrightarrow> flt (Fin 0) t \<and> \<not> is_inf t"
  by (auto simp: isValidThreshold_def isValidMetricValue_def dest: flt_not_nan)

lemma determineEffectiveThreshold_valid:
  "determineEffectiveThreshold p m t = Some (e, k) \<Longrightarrow> isValidThreshold e"
  by (auto simp: determineEffectiveThreshold_def Let_def split: option.splits if_splits)

definition reportable :: "processorImp \<Rightarrow> string \<times> f64 \<Rightarrow> bool" where
  "reportable p = (\<lambda>(n, v). n \<noteq> [] \<and> isValidMetricValue v \<and>
     (case threshold_of p n of None \<Rightarrow> False
      | Some t \<Rightarrow> determineEffectiveThreshold p n t \<noteq> None))"

lemma captureLoop_step:
  "\<not> reportable p (n, v) \<Longrightarrow> captureLoop E p i ((n, v) # rest) details = captureLoop E p (Suc i) rest details"
  "reportable p (n, v) \<Longrightarrow> \<exists>t w k. captureLoop E p i ((n, v) # rest) details =
     captureLoop E p (Suc i) rest (addThresholdAttributes E i n t w k details)"
  by (auto simp: reportable_def split: option.splits if_splits)

lemma captureLoop_keys:
  "set (keys (captureLoop E p i vs details)) =
     set (keys details) \<union> set (keys (filter (reportable p) vs))"
proof (induction vs arbitrary: i details)
  case (Cons e vs)
  obtain n v where e: "e = (n, v)" by (cases e)
  have upd: "set (keys (addThresholdAttributes E i n t w k details)) = insert n (set (keys details))"
    for t w k
    by (simp add: addThresholdAttributes_def flip: dom_map_of_conv_image_fst)
  show ?case
  proof (cases "reportable p (n, v)")
    case True
    with captureLoop_step(2) obtain t w k where
      "captureLoop E p i (e # vs) details =
         captureLoop E p (Suc i) vs (addThresholdAttributes E i n t w k details)"
      unfolding e by blast
    with True show ?thesis by (simp only: Cons.IH upd) (simp add: e)
  next
    case False
    then have "captureLoop E p i (e # vs) details = captureLoop E p (Suc i) vs details"
      unfolding e by (rule captureLoop_step(1))
    with False show ?thesis by (simp only: Cons.IH) (simp add: e)
  qed
qed simp

section \<open>The composite score\<close>

text \<open>The reference: the weighted ratios of the metrics that contribute, added in key order.\<close>

definition contributes :: "processorImp \<Rightarrow> valmap \<Rightarrow> string \<Rightarrow> bool" where
  "contributes p values metric = (case map_of values metric of None \<Rightarrow> False
     | Some v \<Rightarrow> \<not> fle (compositeThresholdOf p metric v) (Fin 0))"

definition weighted_ratio :: "processorImp \<Rightarrow> valmap \<Rightarrow> string \<Rightarrow> f64" where
  "weighted_ratio p values metric =
     (let v = the (map_of values metric); w = (case weight_of p metric of Some x \<Rightarrow> x | None \<Rightarrow> Fin 0)
      in fmul (fdiv v (compositeThresholdOf p metric v)) w)"

lemma compositeLoop_fst:
  "fst (compositeLoop p values ms score parts) =
     foldl fadd score (map (weighted_ratio p values) (filter (contributes p values) ms))"
  by (induction p "values" ms score parts rule: compositeLoop.induct)
    (simp_all add: contributes_def weighted_ratio_def Let_def split: option.split)

lemma compositeLoop_parts:
  "snd (compositeLoop p values ms score parts) = [] \<longleftrightarrow>
     parts = [] \<and> filter (contributes p values) ms = []"
  by (induction p "values" ms score parts rule: compositeLoop.induct)
    (simp_all add: contributes_def Let_def split: option.split)

lemma compositeScore_eq:
  "compositeScore p values = foldl fadd (Fin 0) (map (weighted_ratio p values)
     (filter (contributes p values) (sort (keys (entries (Weights (config p)))))))"
  using compositeLoop_fst [of p "values" "sort (keys (entries (Weights (config p))))" "Fin 0" "[]"]
    compositeLoop_parts [of p "values" "sort (keys (entries (Weights (config p))))" "Fin 0" "[]"]
  by (auto simp: compositeScore_def calculateCompositeGeneric_def Let_def split: prod.split)

text \<open>The loop reads the values and the weights only through lookups.\<close>

lemma compositeLoop_cong:
  assumes "\<And>m. compositeThresholdOf p m = compositeThresholdOf q m" "weight_of p = weight_of q"
    and "map_of values = map_of values'"
  shows "compositeLoop p values ms score parts = compositeLoop q values' ms score parts"
  by (induction ms arbitrary: score parts) (simp_all add: assms Let_def split: option.split)

section \<open>Claims\<close>

text \<open>The value map of a resource has distinct keys and holds, for each configured metric, the
  value of the last gauge or sum of that name, however the metrics are grouped in scopes;
  other metric types and metrics that are not configured leave no entry.\<close>

theorem extraction_spec:
  "gomap_ok (extractMetricValues L p rm) \<and>
   map_of (extractMetricValues L p rm) n =
     (if shouldProcessMetric p n then last_value L (metrics_of_resource rm) n else None)"
  by (simp add: map_of_extractMetricValues)


text \<open>The reported threshold details cover exactly the visited metrics that have a name, a finite
  value, a configured threshold and a valid threshold in effect.\<close>

theorem details_exact:
  "set (keys (captureLoop E p i vs [])) = set (keys (filter (reportable p) vs))"
  unfolding captureLoop_keys by simp

text \<open>Writing one part of the attribute \<open>process.atp\<close> keeps the parts that other stages wrote,
  and every other attribute, when the codec reads back what it wrote.\<close>

theorem process_atp_merge:
  assumes "marshal_obj L (AList.update key data (atpData L attrs)) = Some s"
    and "unmarshal_obj L s = Some (Some (AList.update key data (atpData L attrs)))"
  shows "map_of (atpData L (updateProcessATPAttribute L key data attrs)) =
       (map_of (atpData L attrs))(key \<mapsto> data) \<and>
     (\<forall>k. k \<noteq> ''process.atp'' \<longrightarrow> attr_get (updateProcessATPAttribute L key data attrs) k = attr_get attrs k)"
  using atpData_update [OF assms] updateProcessATPAttribute_other by simp

theorem process_atp_merge_witness:
  "\<exists>L. map_of (atpData L (updateProcessATPAttribute L ''k'' JNull [])) = [''k'' \<mapsto> JNull]"
proof -
  let ?L = "plain_lib\<lparr>marshal_obj := (\<lambda>_. Some ''x''), unmarshal_obj := (\<lambda>_. Some (Some [(''k'', JNull)]))\<rparr>"
  have e: "atpData ?L [] = []" by (simp add: atpData_def attr_get_def)
  then have "marshal_obj ?L (AList.update ''k'' JNull (atpData ?L [])) = Some ''x''"
    "unmarshal_obj ?L ''x'' = Some (Some (AList.update ''k'' JNull (atpData ?L [])))" by simp_all
  from process_atp_merge [OF this] show ?thesis unfolding e by auto
qed

text \<open>
  A sum or gauge of integers is read through the getter of the other type: with the getters of
  the library, which return the zero value, its value is zero whatever the points hold.
\<close>

lemma integer_points_read_as_zero:
  assumes "zero_getter L" "list_all (\<lambda>d. \<exists>i r. d = IntPoint i r) ps"
  shows "extractGaugeValue L ps = Fin 0"
proof -
  have d: "double_value L x = Fin 0" if "x \<in> set ps" for x
    using that assms by (auto simp: list_all_iff zero_getter_def)
  have "foldl (\<lambda>t x. fadd t (double_value L x)) (Fin 0) qs = Fin 0" if "set qs \<subseteq> set ps" for qs
    using that by (induction qs) (simp_all add: d fadd_def)
  then have "sum_points L ps = Fin 0" by (simp add: sum_points_def)
  then show ?thesis using d by (cases ps rule: remdups_adj.cases) (simp_all add: extractGaugeValue_def)
qed

end
