(* ===== verification/Atp_Anomaly.thy ===== *)
theory Atp_Anomaly
  imports Atp_Composite
begin

text \<open>
  Anomaly detection (anomaly_detection.go): per entity and metric a bounded history, and a
  comparison of the current value with the average of the history before it. The metrics of a
  resource are visited in an unspecified order and the first anomaly ends the loop, so the
  histories of the metrics after it are not extended.
\<close>

definition getAnomalyConfig :: "processorImp \<Rightarrow> int \<times> f64" where
  "getAnomalyConfig p =
     ((if AnomalyHistorySize (config p) \<le> 0 then defaultAnomalyHistorySize
       else AnomalyHistorySize (config p)),
      (if fle (AnomalyChangeThreshold (config p)) (Fin 0) then defaultAnomalyChangeThreshold
       else AnomalyChangeThreshold (config p)))"

definition minDataPoints :: "processorImp \<Rightarrow> int" where
  "minDataPoints p = (if AnomalyMinDataPoints (config p) \<le> 0 then defaultAnomalyMinDataPoints
     else AnomalyMinDataPoints (config p))"

definition initializeMetricHistory :: "trackedEntity \<Rightarrow> trackedEntity" where
  "initializeMetricHistory te = te\<lparr>MetricHistory := non_nil (MetricHistory te)\<rparr>"

definition updateMetricHistory :: "string \<Rightarrow> f64 \<Rightarrow> int \<Rightarrow> trackedEntity \<Rightarrow> trackedEntity" where
  "updateMetricHistory metricName currentValue historySize te =
     (let h = history_of te metricName @ [currentValue];
          h' = (if int (length h) > historySize then tl h else h)
      in te\<lparr>MetricHistory := Some (AList.update metricName h' (entries (MetricHistory te)))\<rparr>)"

definition calculateAverage :: "f64 list \<Rightarrow> f64" where
  "calculateAverage history =
     fdiv (foldl fadd (Fin 0) history) (f64_of_int (int (length history)))"

definition calculatePercentageChange :: "f64 \<Rightarrow> f64 \<Rightarrow> f64" where
  "calculatePercentageChange currentValue avg =
     (if flt (Fin 0) avg then fmul (fdiv (fsub currentValue avg) avg) (Fin 100) else Fin 0)"

definition anomalyReason :: "string \<Rightarrow> f64 \<Rightarrow> f64 \<Rightarrow> f64 \<Rightarrow> string" where
  "anomalyReason metricName currentValue pctChange avg =
     metricName @ '' anomaly: '' @ fmt_fixed 2 currentValue @ '' ('' @ fmt_fixed 1 pctChange @
     ''% change from avg '' @ fmt_fixed 2 avg @ '')''"

definition handleAnomalyDetection ::
  "env \<Rightarrow> string \<Rightarrow> f64 \<Rightarrow> f64 \<Rightarrow> f64 \<Rightarrow> trackedEntity \<Rightarrow> (bool \<times> string) \<times> trackedEntity" where
  "handleAnomalyDetection E metricName currentValue pctChange avg te =
     ((True, anomalyReason metricName currentValue pctChange avg),
      te\<lparr>LastAnomalyDetected := now E AnomalyNow\<rparr>)"

definition checkMetricAnomaly ::
  "env \<Rightarrow> processorImp \<Rightarrow> string \<Rightarrow> f64 \<Rightarrow> int \<Rightarrow> f64 \<Rightarrow> trackedEntity
     \<Rightarrow> (bool \<times> string) \<times> trackedEntity" where
  "checkMetricAnomaly E p metricName currentValue historySize changeThreshold te =
     (if threshold_of p metricName = None then ((False, []), te)
      else
        (let history = history_of te metricName;
             te' = updateMetricHistory metricName currentValue historySize te
         in if int (length history) < minDataPoints p then ((False, []), te')
            else
              (let avg = calculateAverage history;
                   pctChange = calculatePercentageChange currentValue avg
               in if fle changeThreshold pctChange
                  then handleAnomalyDetection E metricName currentValue pctChange avg te'
                  else ((False, []), te'))))"

fun detectLoop ::
  "env \<Rightarrow> processorImp \<Rightarrow> int \<Rightarrow> f64 \<Rightarrow> valmap \<Rightarrow> trackedEntity
     \<Rightarrow> (bool \<times> string) \<times> trackedEntity" where
  "detectLoop E p historySize changeThreshold [] te = ((False, []), te)"
| "detectLoop E p historySize changeThreshold ((m, v) # rest) te =
     (case checkMetricAnomaly E p m v historySize changeThreshold te of
        ((True, reason), te') \<Rightarrow> ((True, reason), te')
      | ((False, _), te') \<Rightarrow> detectLoop E p historySize changeThreshold rest te')"

definition detectAnomalyUtil ::
  "env \<Rightarrow> processorImp \<Rightarrow> valmap \<Rightarrow> trackedEntity \<Rightarrow> (bool \<times> string) \<times> trackedEntity" where
  "detectAnomalyUtil E p currentValues te =
     (if \<not> EnableAnomalyDetection (config p) then ((False, []), te)
      else
        (let (historySize, changeThreshold) = getAnomalyConfig p
         in detectLoop E p historySize changeThreshold (visit E DetectRange currentValues)
              (initializeMetricHistory te)))"

definition detectAnomaly ::
  "env \<Rightarrow> processorImp \<Rightarrow> valmap \<Rightarrow> trackedEntity \<Rightarrow> (bool \<times> string) \<times> trackedEntity" where
  "detectAnomaly E p values te = detectAnomalyUtil E p values te"

section \<open>Histories\<close>

text \<open>Appending a value to a history of at most \<open>sz\<close> entries drops the oldest one.\<close>

definition push :: "int \<Rightarrow> f64 list \<Rightarrow> f64 \<Rightarrow> f64 list" where
  "push sz h v = (if int (length h) + 1 > sz then tl (h @ [v]) else h @ [v])"

definition histories_bounded :: "int \<Rightarrow> trackedEntity \<Rightarrow> bool" where
  "histories_bounded n te = (\<forall>m. int (length (history_of te m)) \<le> n)"

lemma push_length: "int (length h) \<le> sz \<Longrightarrow> 1 \<le> sz \<Longrightarrow> int (length (push sz h v)) \<le> sz"
  by (simp add: push_def)

lemma history_of_updateMetricHistory [simp]:
  "history_of (updateMetricHistory m v sz te) n =
     (if n = m then push sz (history_of te m) v else history_of te n)"
  by (simp add: updateMetricHistory_def history_of_def push_def Let_def lookup_def)

lemma history_of_fields [simp]:
  "history_of (te\<lparr>LastAnomalyDetected := t\<rparr>) = history_of te"
  "history_of (te\<lparr>LastExceeded := t\<rparr>) = history_of te"
  "history_of (te\<lparr>CurrentValues := c, MaxValues := x\<rparr>) = history_of te"
  by (simp_all add: history_of_def fun_eq_iff)

lemma history_of_initialize [simp]: "history_of (initializeMetricHistory te) = history_of te"
  by (rule ext) (simp add: initializeMetricHistory_def history_of_def)

lemma updateMetricHistory_frame [simp, frame]:
  "Identity (updateMetricHistory m v sz te) = Identity te"
  "FirstSeen (updateMetricHistory m v sz te) = FirstSeen te"
  "LastExceeded (updateMetricHistory m v sz te) = LastExceeded te"
  "CurrentValues (updateMetricHistory m v sz te) = CurrentValues te"
  "MaxValues (updateMetricHistory m v sz te) = MaxValues te"
  "Attributes (updateMetricHistory m v sz te) = Attributes te"
  "LastAnomalyDetected (updateMetricHistory m v sz te) = LastAnomalyDetected te"
  by (simp_all add: updateMetricHistory_def Let_def)

section \<open>One metric\<close>

definition anomalous :: "processorImp \<Rightarrow> f64 \<Rightarrow> trackedEntity \<Rightarrow> string \<times> f64 \<Rightarrow> bool" where
  "anomalous p change te = (\<lambda>(m, v).
     threshold_of p m \<noteq> None \<and> minDataPoints p \<le> int (length (history_of te m)) \<and>
     fle change (calculatePercentageChange v (calculateAverage (history_of te m))))"

lemma checkMetricAnomaly_verdict:
  "fst (fst (checkMetricAnomaly E p m v sz change te)) = anomalous p change te (m, v)"
  by (auto simp: checkMetricAnomaly_def anomalous_def handleAnomalyDetection_def Let_def)

lemma checkMetricAnomaly_history:
  "history_of (snd (checkMetricAnomaly E p m v sz change te)) n =
     (if n = m \<and> threshold_of p m \<noteq> None then push sz (history_of te m) v else history_of te n)"
  by (auto simp: checkMetricAnomaly_def handleAnomalyDetection_def Let_def)

lemma checkMetricAnomaly_frame:
  "LastAnomalyDetected (snd (checkMetricAnomaly E p m v sz change te)) =
     (if anomalous p change te (m, v) then now E AnomalyNow else LastAnomalyDetected te)"
  "Identity (snd (checkMetricAnomaly E p m v sz change te)) = Identity te"
  "FirstSeen (snd (checkMetricAnomaly E p m v sz change te)) = FirstSeen te"
  "LastExceeded (snd (checkMetricAnomaly E p m v sz change te)) = LastExceeded te"
  "CurrentValues (snd (checkMetricAnomaly E p m v sz change te)) = CurrentValues te"
  "MaxValues (snd (checkMetricAnomaly E p m v sz change te)) = MaxValues te"
  "Attributes (snd (checkMetricAnomaly E p m v sz change te)) = Attributes te"
  by (auto simp: checkMetricAnomaly_def anomalous_def handleAnomalyDetection_def Let_def)

lemma checkMetricAnomaly_hit:
  "anomalous p change te (m, v) \<Longrightarrow>
     snd (checkMetricAnomaly E p m v sz change te) =
       (updateMetricHistory m v sz te)\<lparr>LastAnomalyDetected := now E AnomalyNow\<rparr>"
  by (auto simp: checkMetricAnomaly_def anomalous_def handleAnomalyDetection_def Let_def)

section \<open>All metrics\<close>

lemma detectLoop_Cons:
  "detectLoop E p sz change ((m, v) # rest) te =
     (let r = checkMetricAnomaly E p m v sz change te
      in if fst (fst r) then ((True, snd (fst r)), snd r) else detectLoop E p sz change rest (snd r))"
  by (simp add: Let_def split: prod.split bool.split)

declare detectLoop.simps(2) [simp del]

lemma anomalous_cong:
  "history_of te m = history_of te' m \<Longrightarrow> anomalous p change te (m, v) = anomalous p change te' (m, v)"
  by (simp add: anomalous_def)

text \<open>
  The verdict is that of the metrics taken one by one: checking a metric changes no other
  metric's history, so the order of the loop cannot be seen in it.
\<close>

lemma detectLoop_verdict:
  "gomap_ok vs \<Longrightarrow> fst (fst (detectLoop E p sz change vs te)) = list_ex (anomalous p change te) vs"
proof (induction vs arbitrary: te)
  case (Cons e vs)
  obtain m v where e: "e = (m, v)" by (cases e)
  let ?te = "snd (checkMetricAnomaly E p m v sz change te)"
  have "anomalous p change ?te (n, w) = anomalous p change te (n, w)" if "(n, w) \<in> set vs" for n w
    using Cons.prems that by (intro anomalous_cong) (force simp: e gomap_ok_def checkMetricAnomaly_history)
  then have "list_ex (anomalous p change ?te) vs = list_ex (anomalous p change te) vs"
    by (auto simp: list_ex_iff)
  moreover have "gomap_ok vs" using Cons.prems by (simp add: gomap_ok_def)
  ultimately show ?case
    by (simp add: e detectLoop_Cons checkMetricAnomaly_verdict Cons.IH Let_def)
qed simp

lemma detectLoop_frame:
  "LastAnomalyDetected (snd (detectLoop E p sz change vs te)) =
     (if fst (fst (detectLoop E p sz change vs te)) then now E AnomalyNow else LastAnomalyDetected te) \<and>
   Identity (snd (detectLoop E p sz change vs te)) = Identity te \<and>
   FirstSeen (snd (detectLoop E p sz change vs te)) = FirstSeen te \<and>
   LastExceeded (snd (detectLoop E p sz change vs te)) = LastExceeded te \<and>
   CurrentValues (snd (detectLoop E p sz change vs te)) = CurrentValues te \<and>
   MaxValues (snd (detectLoop E p sz change vs te)) = MaxValues te \<and>
   Attributes (snd (detectLoop E p sz change vs te)) = Attributes te"
proof (induction vs arbitrary: te)
  case (Cons e vs)
  then show ?case
    by (cases e) (simp add: detectLoop_Cons Let_def checkMetricAnomaly_frame checkMetricAnomaly_verdict)
qed simp

lemma detectLoop_bounded:
  assumes "1 \<le> sz" "histories_bounded sz te"
  shows "histories_bounded sz (snd (detectLoop E p sz change vs te))"
  using assms(2)
proof (induction vs arbitrary: te)
  case (Cons e vs)
  obtain m v where e: "e = (m, v)" by (cases e)
  have "histories_bounded sz (snd (checkMetricAnomaly E p m v sz change te))"
    using Cons.prems push_length assms(1)
    by (simp add: histories_bounded_def checkMetricAnomaly_history)
  then show ?case using Cons.IH by (simp add: e detectLoop_Cons Let_def)
qed simp

text \<open>Without an anomaly every configured metric's history has grown by its value.\<close>

lemma detectLoop_history:
  "gomap_ok vs \<Longrightarrow> \<not> fst (fst (detectLoop E p sz change vs te)) \<Longrightarrow>
   history_of (snd (detectLoop E p sz change vs te)) n =
     (case map_of vs n of
        Some v \<Rightarrow> if threshold_of p n \<noteq> None then push sz (history_of te n) v else history_of te n
      | None \<Rightarrow> history_of te n)"
proof (induction vs arbitrary: te)
  case (Cons e vs)
  obtain m v where e: "e = (m, v)" by (cases e)
  have "map_of vs m = None" "gomap_ok vs"
    using Cons.prems(1) by (auto simp: e gomap_ok_def map_of_eq_None_iff)
  with Cons show ?case
    by (auto simp: e detectLoop_Cons Let_def checkMetricAnomaly_history split: if_splits option.split)
qed simp

section \<open>The whole detection\<close>

lemma detectAnomaly_off: "\<not> EnableAnomalyDetection (config p) \<Longrightarrow> detectAnomaly E p values te = ((False, []), te)"
  by (simp add: detectAnomaly_def detectAnomalyUtil_def)

lemma detectAnomaly_on:
  "EnableAnomalyDetection (config p) \<Longrightarrow> detectAnomaly E p values te =
     detectLoop E p (fst (getAnomalyConfig p)) (snd (getAnomalyConfig p)) (visit E DetectRange values)
       (initializeMetricHistory te)"
  by (simp add: detectAnomaly_def detectAnomalyUtil_def split: prod.split)

lemma anomalous_initialize [simp]: "anomalous p change (initializeMetricHistory te) = anomalous p change te"
  by (simp add: anomalous_def fun_eq_iff)

lemma list_ex_visit [simp]: "list_ex P (visit E s m) = list_ex P m"
  by (simp add: list_ex_iff)

lemma detectAnomaly_verdict:
  assumes "gomap_ok values"
  shows "fst (fst (detectAnomaly E p values te)) \<longleftrightarrow>
     EnableAnomalyDetection (config p) \<and> list_ex (anomalous p (snd (getAnomalyConfig p)) te) values"
  using assms
  by (cases "EnableAnomalyDetection (config p)")
    (simp_all add: detectAnomaly_on detectAnomaly_off detectLoop_verdict)

lemma initializeMetricHistory_frame [simp]:
  "Identity (initializeMetricHistory te) = Identity te"
  "FirstSeen (initializeMetricHistory te) = FirstSeen te"
  "LastExceeded (initializeMetricHistory te) = LastExceeded te"
  "CurrentValues (initializeMetricHistory te) = CurrentValues te"
  "MaxValues (initializeMetricHistory te) = MaxValues te"
  "Attributes (initializeMetricHistory te) = Attributes te"
  "LastAnomalyDetected (initializeMetricHistory te) = LastAnomalyDetected te"
  by (simp_all add: initializeMetricHistory_def)

lemma detectAnomaly_frame [frame]:
  "LastAnomalyDetected (snd (detectAnomaly E p values te)) =
     (if fst (fst (detectAnomaly E p values te)) then now E AnomalyNow else LastAnomalyDetected te)"
  "Identity (snd (detectAnomaly E p values te)) = Identity te"
  "FirstSeen (snd (detectAnomaly E p values te)) = FirstSeen te"
  "LastExceeded (snd (detectAnomaly E p values te)) = LastExceeded te"
  "CurrentValues (snd (detectAnomaly E p values te)) = CurrentValues te"
  "MaxValues (snd (detectAnomaly E p values te)) = MaxValues te"
  "Attributes (snd (detectAnomaly E p values te)) = Attributes te"
  by (cases "EnableAnomalyDetection (config p)";
      simp add: detectAnomaly_on detectAnomaly_off detectLoop_frame)+

lemma historySize_pos: "1 \<le> fst (getAnomalyConfig p)"
  by (simp add: getAnomalyConfig_def config_consts)

lemma minDataPoints_pos: "1 \<le> minDataPoints p"
  by (simp add: minDataPoints_def config_consts)

lemma detectAnomaly_bounded:
  assumes "histories_bounded (fst (getAnomalyConfig p)) te"
  shows "histories_bounded (fst (getAnomalyConfig p)) (snd (detectAnomaly E p values te))"
proof (cases "EnableAnomalyDetection (config p)")
  case True
  from assms have "histories_bounded (fst (getAnomalyConfig p)) (initializeMetricHistory te)"
    by (simp add: histories_bounded_def)
  with True show ?thesis by (simp add: detectAnomaly_on detectLoop_bounded historySize_pos)
qed (simp add: detectAnomaly_off assms)

lemma detectAnomaly_short:
  assumes "gomap_ok values" "histories_bounded n te" "n < minDataPoints p"
  shows "\<not> fst (fst (detectAnomaly E p values te))"
proof -
  have "\<not> anomalous p change te (m, v)" for change m v
    using assms(2,3) by (auto simp: anomalous_def histories_bounded_def not_le intro: le_less_trans)
  then show ?thesis using assms(1) by (auto simp: detectAnomaly_verdict list_ex_iff)
qed

section \<open>Claims\<close>

text \<open>C11: an anomaly is reported exactly when some metric of the resource, taken alone, has enough
  history and rises by the configured percentage over its average; neither the order of the
  map nor the metrics checked before it matter. The time of the anomaly is set in that case only.\<close>

theorem anomaly_verdict:
  assumes "gomap_ok values"
  shows "(fst (fst (detectAnomaly E p values te)) \<longleftrightarrow>
       EnableAnomalyDetection (config p) \<and> list_ex (anomalous p (snd (getAnomalyConfig p)) te) values) \<and>
     LastAnomalyDetected (snd (detectAnomaly E p values te)) =
       (if fst (fst (detectAnomaly E p values te)) then now E AnomalyNow else LastAnomalyDetected te)"
  using detectAnomaly_verdict [OF assms] detectAnomaly_frame(1) by simp

theorem anomaly_verdict_witness:
  "fst (fst (detectAnomaly (sample_env 7) (sample_processor sample_config) [(''m'', Fin 8)]
     (sample_entity [Fin 2, Fin 2, Fin 2]))) \<and>
   LastAnomalyDetected (snd (detectAnomaly (sample_env 7) (sample_processor sample_config) [(''m'', Fin 8)]
     (sample_entity [Fin 2, Fin 2, Fin 2]))) = 7"
proof -
  have "gomap_ok [(''m'', Fin 8)]" by (simp add: gomap_ok_def)
  note * = anomaly_verdict [OF this, of "sample_env 7" "sample_processor sample_config"
      "sample_entity [Fin 2, Fin 2, Fin 2]"]
  have "fst (fst (detectAnomaly (sample_env 7) (sample_processor sample_config) [(''m'', Fin 8)]
     (sample_entity [Fin 2, Fin 2, Fin 2])))" by code_simp
  with * show ?thesis by (simp add: sample_env_def)
qed

text \<open>A call that reports nothing appends the value of every configured metric to its history,
  dropping the oldest value beyond the configured size, and no call makes a history exceed
  that size.\<close>

theorem anomaly_history:
  assumes "gomap_ok values" "histories_bounded (fst (getAnomalyConfig p)) te"
  shows "histories_bounded (fst (getAnomalyConfig p)) (snd (detectAnomaly E p values te)) \<and>
     (EnableAnomalyDetection (config p) \<and> \<not> fst (fst (detectAnomaly E p values te)) \<longrightarrow>
       history_of (snd (detectAnomaly E p values te)) n =
         (case map_of values n of
            Some v \<Rightarrow> if threshold_of p n \<noteq> None then push (fst (getAnomalyConfig p)) (history_of te n) v
                      else history_of te n
          | None \<Rightarrow> history_of te n))"
proof (cases "EnableAnomalyDetection (config p)")
  case True
  have "map_of (visit E DetectRange values) n = map_of values n" using assms(1) by simp
  then show ?thesis
    using detectAnomaly_bounded [OF assms(2)] assms(1) True
      detectLoop_history [of "visit E DetectRange values" E p "fst (getAnomalyConfig p)"
        "snd (getAnomalyConfig p)" "initializeMetricHistory te" n]
    by (simp add: detectAnomaly_on history_of_initialize split: option.split)
qed (simp add: detectAnomaly_off assms)

theorem anomaly_history_witness:
  "history_of (snd (detectAnomaly (sample_env 7) (sample_processor sample_config) [(''m'', Fin 3)]
     (sample_entity [Fin 2, Fin 4]))) ''m'' = [Fin 2, Fin 4, Fin 3]"
proof -
  let ?p = "sample_processor sample_config" and ?te = "sample_entity [Fin 2, Fin 4]"
  have ok: "gomap_ok [(''m'', Fin 3)]" by (simp add: gomap_ok_def)
  have n: "fst (getAnomalyConfig ?p) = 10" by code_simp
  have b: "histories_bounded (fst (getAnomalyConfig ?p)) ?te"
    by (simp add: n histories_bounded_def history_of_def sample_entity_def)
  have "\<not> fst (fst (detectAnomaly (sample_env 7) ?p [(''m'', Fin 3)] ?te))" by code_simp
  moreover have "EnableAnomalyDetection (config ?p)" "threshold_of ?p ''m'' \<noteq> None"
    "history_of ?te ''m'' = [Fin 2, Fin 4]"
    by (simp_all add: sample_processor_def sample_config_def threshold_of_def history_of_def sample_entity_def)
  ultimately show ?thesis
    using anomaly_history [OF ok b, of "sample_env 7" "''m''"] by (simp add: n push_def)
qed

text \<open>An entity whose histories hold fewer values than the minimum number of data points is
  never reported, whatever its values are. In particular detection can never report anything
  with a history size below that minimum.\<close>

theorem anomaly_needs_data:
  assumes "gomap_ok values" "histories_bounded n te" "n < minDataPoints p"
  shows "\<not> fst (fst (detectAnomaly E p values te))"
  using assms by (rule detectAnomaly_short)

theorem anomaly_needs_data_witness:
  "\<not> fst (fst (detectAnomaly (sample_env 7) (sample_processor sample_config) [(''m'', PInf)]
     (sample_entity [Fin 1, Fin 1])))"
proof (rule anomaly_needs_data)
  show "gomap_ok [(''m'', PInf)]" by (simp add: gomap_ok_def)
  show "histories_bounded 2 (sample_entity [Fin 1, Fin 1])"
    by (simp add: histories_bounded_def history_of_def sample_entity_def)
  show "2 < minDataPoints (sample_processor sample_config)" by code_simp
qed

text \<open>
  \<open>Normalize\<close> keeps a history size of 1 or 2 and raises the minimum number of data points to 3, so
  a normalized configuration can enable detection and yet never report.
\<close>

lemma small_history_never_detects:
  assumes "gomap_ok values" "config_normal (config p)" "EnableAnomalyDetection (config p)"
    and "AnomalyHistorySize (config p) \<le> 2" "histories_bounded (fst (getAnomalyConfig p)) te"
  shows "\<not> fst (fst (detectAnomaly E p values te))"
proof (rule detectAnomaly_short [OF assms(1,5)])
  show "fst (getAnomalyConfig p) < minDataPoints p"
    using assms(2-4) by (auto simp: config_normal_def anomaly_normal_def getAnomalyConfig_def minDataPoints_def)
qed

text \<open>A history that is longer than the configured size, as after a restart with a smaller one,
  never shrinks: each call drops one value and adds one.\<close>

lemma long_history_stays: "sz \<le> int (length h) \<Longrightarrow> h \<noteq> [] \<Longrightarrow> length (push sz h v) = length h"
  by (simp add: push_def)

end
