(* ===== verification/Atp_Dynamic.thy ===== *)
theory Atp_Dynamic
  imports Atp_Composite
begin

text \<open>
  Dynamic thresholds (dynamic_thresholds.go): averages of the gauges of a batch, an exponential
  moving average per configured metric, its clamping between the configured bounds, and the text
  of the log lines about the result.
\<close>

section \<open>When an update runs\<close>

definition shouldUpdateDynamicThresholds :: "time \<Rightarrow> processorImp \<Rightarrow> bool" where
  "shouldUpdateDynamicThresholds t p =
     (dynamicThresholdsEnabled p \<and>
      \<not> time_sub t (lastThresholdUpdate p) < quot (dynamicUpdateIntervalSecs * second) 2)"

record dynamicUpdateContext =
  startTime :: time
  smoothing :: f64
  metricKeys :: "string list"

text \<open>The update time is recorded at the start. The keys are collected in the order \<open>ks\<close> of a range.\<close>

definition initializeDynamicUpdate ::
  "time \<Rightarrow> nat list \<Rightarrow> processorImp \<Rightarrow> dynamicUpdateContext \<times> processorImp" where
  "initializeDynamicUpdate start ks p =
     (let s = (if fle (DynamicSmoothingFactor (config p)) (Fin 0) then dynamicSmoothingFactor
               else DynamicSmoothingFactor (config p))
      in (\<lparr>startTime = start, smoothing = s,
           metricKeys = keys (shuffle ks (entries (MetricThresholds (config p))))\<rparr>,
          p\<lparr>lastThresholdUpdate := start\<rparr>))"

section \<open>Averages of a batch\<close>

record metricAverageData =
  avg :: f64
  count :: nat

definition zero_average :: metricAverageData where
  "zero_average = \<lparr>avg = Fin 0, count = 0\<rparr>"

definition processMetricForAverages ::
  "lib \<Rightarrow> processorImp \<Rightarrow> (string, metricAverageData) gomap \<Rightarrow> metric
     \<Rightarrow> (string, metricAverageData) gomap" where
  "processMetricForAverages L p metricAvgs m =
     (if threshold_of p (Name m) = None then metricAvgs
      else case Data m of
        Gauge (d # ps) \<Rightarrow>
          (let s = sum_points L (d # ps);
               val = (case map_of metricAvgs (Name m) of Some x \<Rightarrow> x | None \<Rightarrow> zero_average)
           in AList.update (Name m) (val\<lparr>avg := fadd (avg val) s, count := Suc (count val)\<rparr>) metricAvgs)
      | _ \<Rightarrow> metricAvgs)"

text \<open>Every entry is divided by its own count; overwriting a key while ranging over the map does
  not change which keys are visited.\<close>

definition finalizeAverages ::
  "(string, metricAverageData) gomap \<Rightarrow> (string, metricAverageData) gomap" where
  "finalizeAverages metricAvgs =
     map (\<lambda>(k, d). (k, if 0 < count d
       then \<lparr>avg = fdiv (avg d) (f64_of_int (int (count d))), count = count d\<rparr> else d)) metricAvgs"

definition computeMetricAverages ::
  "lib \<Rightarrow> processorImp \<Rightarrow> metrics \<Rightarrow> (string, metricAverageData) gomap" where
  "computeMetricAverages L p md =
     finalizeAverages
       (foldl (\<lambda>a rm. foldl (\<lambda>a sm. foldl (processMetricForAverages L p) a (Metrics sm)) a
          (ScopeMetrics rm)) [] md)"

section \<open>New thresholds\<close>

definition getCurrentThresholds :: "processorImp \<Rightarrow> (string, f64) gomap" where
  "getCurrentThresholds p = entries (dynamicCustomThresholds p)"

definition applyThresholdConstraints :: "processorImp \<Rightarrow> string \<Rightarrow> f64 \<Rightarrow> f64" where
  "applyThresholdConstraints p metric v =
     (let v' = (case lookup (MinThresholds (config p)) metric of
                  Some minV \<Rightarrow> if flt (Fin 0) minV \<and> flt v minV then minV else v
                | None \<Rightarrow> v)
      in case lookup (MaxThresholds (config p)) metric of
           Some maxV \<Rightarrow> if flt (Fin 0) maxV \<and> flt maxV v' then maxV else v'
         | None \<Rightarrow> v')"

definition smoothed :: "f64 \<Rightarrow> f64 \<Rightarrow> f64 \<Rightarrow> f64 \<Rightarrow> f64" where
  "smoothed s base a prev =
     (let target = fadd base (fmul a genericScalingFactor)
      in fadd (fmul s target) (fmul (fsub (Fin 1) s) prev))"

definition calculateSingleThreshold ::
  "processorImp \<Rightarrow> string \<Rightarrow> (string, metricAverageData) gomap \<Rightarrow> (string, f64) gomap \<Rightarrow> f64
     \<Rightarrow> f64 option" where
  "calculateSingleThreshold p metric metricAvgs currentThresholds s =
     (let base = (case threshold_of p metric of Some b \<Rightarrow> b | None \<Rightarrow> Fin 0)
      in case map_of metricAvgs metric of
           None \<Rightarrow> None
         | Some data \<Rightarrow>
           (if count data = 0 then None
            else
              (let prev0 = (case map_of currentThresholds metric of Some x \<Rightarrow> x | None \<Rightarrow> Fin 0);
                   prev = (if feq prev0 (Fin 0) then base else prev0)
               in Some (applyThresholdConstraints p metric (smoothed s base (avg data) prev)))))"

definition calculateNewThresholds ::
  "processorImp \<Rightarrow> (string, metricAverageData) gomap \<Rightarrow> dynamicUpdateContext
     \<Rightarrow> (string, f64) gomap" where
  "calculateNewThresholds p metricAvgs ctx =
     (let currentThresholds = getCurrentThresholds p
      in foldl (\<lambda>new metric.
           case calculateSingleThreshold p metric metricAvgs currentThresholds (smoothing ctx) of
             Some v \<Rightarrow> AList.update metric v new
           | None \<Rightarrow> new) [] (metricKeys ctx))"

text \<open>Writing to a nil map would panic; \<open>newProcessor\<close> always makes the map.\<close>

definition applyThresholdUpdates :: "(string, f64) gomap \<Rightarrow> processorImp \<Rightarrow> processorImp go" where
  "applyThresholdUpdates newThresholds p =
     (if newThresholds = [] then Inr p
      else case dynamicCustomThresholds p of
        None \<Rightarrow> Inl ''assignment to entry in nil map''
      | Some m \<Rightarrow> Inr (p\<lparr>dynamicCustomThresholds :=
          Some (foldl (\<lambda>m (k, v). AList.update k v m) m newThresholds)\<rparr>))"

definition updateDynamicThresholds ::
  "lib \<Rightarrow> time \<Rightarrow> time \<Rightarrow> nat list \<Rightarrow> metrics \<Rightarrow> processorImp \<Rightarrow> processorImp go" where
  "updateDynamicThresholds L tcheck tstart ks md p =
     (if \<not> shouldUpdateDynamicThresholds tcheck p then Inr p
      else
        (let (ctx, p1) = initializeDynamicUpdate tstart ks p;
             metricAvgs = computeMetricAverages L p1 md;
             newThresholds = calculateNewThresholds p1 metricAvgs ctx
         in applyThresholdUpdates newThresholds p1))"

section \<open>The logged text\<close>

definition formatThresholdEntry :: "string \<Rightarrow> f64 \<Rightarrow> string" where
  "formatThresholdEntry metricName v =
     (let f0 = fmt_fixed 4 v;
          f1 = replace1 f0 ''-0.0000'' ''0'';
          f2 = replace1 f1 ''0.0000'' ''0'';
          f3 = (if contains f2 ''.'' then trim_right (trim_right f2 ''0'') ''.'' else f2)
      in metricName @ '':'' @ f3)"

definition thresholdPrefix :: "string \<Rightarrow> string" where
  "thresholdPrefix k = hd (split_on (CHR ''.'') k)"

definition groupThresholdsByPrefix :: "nat list \<Rightarrow> processorImp \<Rightarrow> (string, string list) gomap" where
  "groupThresholdsByPrefix ks p =
     foldl (\<lambda>groups (k, v).
        (let prefix = thresholdPrefix k;
             old = (case map_of groups prefix of Some l \<Rightarrow> l | None \<Rightarrow> [])
         in AList.update prefix (old @ [formatThresholdEntry k v]) groups))
       [] (shuffle ks (entries (dynamicCustomThresholds p)))"

text \<open>One log line per prefix: its sorted entries, cut to the first 20.\<close>

definition logDetailedThresholds :: "nat list \<Rightarrow> processorImp \<Rightarrow> (string \<times> string list) list" where
  "logDetailedThresholds ks p =
     (if entries (dynamicCustomThresholds p) = [] then []
      else map (\<lambda>(prefix, ts).
        (if 20 < length ts
         then (''Dynamic thresholds for '' @ prefix @ '' (showing 20/'' @ nat_str (length ts) @ '')'',
               take 20 (sort ts))
         else (''Dynamic thresholds for '' @ prefix, sort ts))) (groupThresholdsByPrefix ks p))"

section \<open>The averages\<close>

text \<open>The reference: the sums of the gauges of one name that have points, in batch order.\<close>

fun gauge_sum :: "lib \<Rightarrow> metric_data \<Rightarrow> f64 option" where
  "gauge_sum L (Gauge (d # ps)) = Some (sum_points L (d # ps))"
| "gauge_sum L _ = None"

definition gauge_sums :: "lib \<Rightarrow> string \<Rightarrow> metric list \<Rightarrow> f64 list" where
  "gauge_sums L n ms = List.map_filter (\<lambda>m. if Name m = n then gauge_sum L (Data m) else None) ms"

lemma gauge_sums_simps [simp]:
  "gauge_sums L n [] = []"
  "gauge_sums L n (m # ms) = (if Name m = n then (case gauge_sum L (Data m) of
     Some s \<Rightarrow> s # gauge_sums L n ms | None \<Rightarrow> gauge_sums L n ms) else gauge_sums L n ms)"
  by (simp_all add: gauge_sums_def split: option.split)

definition average_of :: "f64 list \<Rightarrow> metricAverageData option" where
  "average_of ss = (if ss = [] then None else
     Some \<lparr>avg = fdiv (foldl fadd (Fin 0) ss) (f64_of_int (int (length ss))), count = length ss\<rparr>)"

lemma processMetricForAverages_alt:
  "processMetricForAverages L p a m =
     (if threshold_of p (Name m) = None then a
      else case gauge_sum L (Data m) of None \<Rightarrow> a
       | Some s \<Rightarrow> let val = (case map_of a (Name m) of Some x \<Rightarrow> x | None \<Rightarrow> zero_average)
           in AList.update (Name m) (val\<lparr>avg := fadd (avg val) s, count := Suc (count val)\<rparr>) a)"
  by (cases "(L, Data m)" rule: gauge_sum.cases) (auto simp: processMetricForAverages_def Let_def)

lemma averages_fold:
  "map_of (foldl (processMetricForAverages L p) a ms) n =
     (if threshold_of p n = None \<or> gauge_sums L n ms = [] then map_of a n
      else (let val = (case map_of a n of Some x \<Rightarrow> x | None \<Rightarrow> zero_average)
            in Some \<lparr>avg = foldl fadd (avg val) (gauge_sums L n ms),
                     count = count val + length (gauge_sums L n ms)\<rparr>))"
proof (induction ms arbitrary: a)
  case (Cons m ms)
  then show ?case
    by (cases "gauge_sum L (Data m)")
      (auto simp: processMetricForAverages_alt Let_def split: option.split)
qed simp

lemma computeMetricAverages_spec:
  "map_of (computeMetricAverages L p md) n =
     (if threshold_of p n = None then None else average_of (gauge_sums L n (metrics_of md)))"
proof -
  have "foldl (\<lambda>a rm. foldl (\<lambda>a sm. foldl (processMetricForAverages L p) a (Metrics sm)) a
          (ScopeMetrics rm)) [] md = foldl (processMetricForAverages L p) [] (metrics_of md)"
    by (simp add: foldl_concat metrics_of_def metrics_of_resource_def [abs_def])
  then have "computeMetricAverages L p md =
      finalizeAverages (foldl (processMetricForAverages L p) [] (metrics_of md))"
    by (simp add: computeMetricAverages_def)
  moreover have "map_of (finalizeAverages a) n = map_option (\<lambda>d. if 0 < count d
      then \<lparr>avg = fdiv (avg d) (f64_of_int (int (count d))), count = count d\<rparr> else d) (map_of a n)" for a
    by (simp add: finalizeAverages_def map_of_map)
  ultimately show ?thesis
    by (simp add: averages_fold average_of_def zero_average_def)
qed

section \<open>The new thresholds\<close>

lemma applyThresholdConstraints_bounds:
  assumes "lookup (MaxThresholds (config p)) m = Some hi" "flt (Fin 0) hi"
  shows "\<not> flt hi (applyThresholdConstraints p m v)"
  using assms by (auto simp: applyThresholdConstraints_def Let_def flt_def)

lemma applyThresholdConstraints_lower:
  assumes "lookup (MinThresholds (config p)) m = Some lo" "flt (Fin 0) lo"
    and "\<And>hi. lookup (MaxThresholds (config p)) m = Some hi \<Longrightarrow> fle lo hi"
  shows "\<not> flt (applyThresholdConstraints p m v) lo"
  using assms by (auto simp: applyThresholdConstraints_def Let_def flt_def split: option.splits)

definition newThreshold ::
  "processorImp \<Rightarrow> string \<Rightarrow> (string, metricAverageData) gomap \<Rightarrow> f64 \<Rightarrow> f64 option" where
  "newThreshold p m avgs s = (if threshold_of p m = None then None
     else calculateSingleThreshold p m avgs (getCurrentThresholds p) s)"

lemma new_thresholds_fold:
  "map_of (foldl (\<lambda>new m. case f m of Some v \<Rightarrow> AList.update m v new | None \<Rightarrow> new) acc ms) n =
     (if n \<in> set ms \<and> f n \<noteq> None then f n else map_of acc n)"
  by (induction ms arbitrary: acc) (auto split: option.splits)

lemma gomap_ok_new_thresholds_fold:
  "gomap_ok acc \<Longrightarrow>
     gomap_ok (foldl (\<lambda>new m. case f m of Some v \<Rightarrow> AList.update m v new | None \<Rightarrow> new) acc ms)"
  by (induction ms arbitrary: acc) (auto split: option.splits)

lemma calculateNewThresholds_spec:
  assumes "set (metricKeys ctx) = set (keys (entries (MetricThresholds (config p))))"
  shows "map_of (calculateNewThresholds p avgs ctx) n = newThreshold p n avgs (smoothing ctx)"
proof -
  have "n \<in> set (metricKeys ctx) \<longleftrightarrow> threshold_of p n \<noteq> None"
    using assms by (simp add: threshold_of_def lookup_def map_of_eq_None_iff del: not_None_eq)
  then show ?thesis
    unfolding calculateNewThresholds_def Let_def new_thresholds_fold newThreshold_def by auto
qed

lemma gomap_ok_calculateNewThresholds [simp]: "gomap_ok (calculateNewThresholds p avgs ctx)"
  by (simp add: calculateNewThresholds_def Let_def gomap_ok_new_thresholds_fold)

lemma map_of_update_fold:
  "map_of (foldl (\<lambda>m (k, v). AList.update k v m) acc new) n =
     (case map_of (rev new) n of Some v \<Rightarrow> Some v | None \<Rightarrow> map_of acc n)"
  by (induction new arbitrary: acc) (auto simp: map_add_def split: option.splits)

lemma gomap_ok_update_fold:
  "gomap_ok acc \<Longrightarrow> gomap_ok (foldl (\<lambda>m (k, v). AList.update k v m) acc new)"
  by (induction new arbitrary: acc) auto

section \<open>The update\<close>

definition smoothing_of :: "processorImp \<Rightarrow> f64" where
  "smoothing_of p = (if fle (DynamicSmoothingFactor (config p)) (Fin 0) then dynamicSmoothingFactor
     else DynamicSmoothingFactor (config p))"

lemma calculateNewThresholds_time [simp]:
  "computeMetricAverages L (p\<lparr>lastThresholdUpdate := u\<rparr>) = computeMetricAverages L p"
  "calculateSingleThreshold (p\<lparr>lastThresholdUpdate := u\<rparr>) = calculateSingleThreshold p"
  "newThreshold (p\<lparr>lastThresholdUpdate := u\<rparr>) = newThreshold p"
proof -
  have 1: "processMetricForAverages L (p\<lparr>lastThresholdUpdate := u\<rparr>) = processMetricForAverages L p"
    by (intro ext) (simp add: processMetricForAverages_def threshold_of_def)
  show "computeMetricAverages L (p\<lparr>lastThresholdUpdate := u\<rparr>) = computeMetricAverages L p"
    by (intro ext) (simp add: computeMetricAverages_def 1)
  have 3: "applyThresholdConstraints (p\<lparr>lastThresholdUpdate := u\<rparr>) = applyThresholdConstraints p"
    "threshold_of (p\<lparr>lastThresholdUpdate := u\<rparr>) = threshold_of p"
    by (intro ext, simp add: applyThresholdConstraints_def threshold_of_def)+
  show 2: "calculateSingleThreshold (p\<lparr>lastThresholdUpdate := u\<rparr>) = calculateSingleThreshold p"
    by (intro ext) (simp only: calculateSingleThreshold_def 3)
  show "newThreshold (p\<lparr>lastThresholdUpdate := u\<rparr>) = newThreshold p"
    by (intro ext) (simp add: newThreshold_def 2 threshold_of_def getCurrentThresholds_def)
qed

text \<open>The thresholds after an update, as a function; the order \<open>ks\<close> of the keys does not matter.\<close>

definition updated_dynamic :: "lib \<Rightarrow> metrics \<Rightarrow> processorImp \<Rightarrow> string \<Rightarrow> f64 option" where
  "updated_dynamic L md p n =
     (case newThreshold p n (computeMetricAverages L p md) (smoothing_of p) of
        Some v \<Rightarrow> Some v | None \<Rightarrow> dynamic_of p n)"

lemma applyThresholdUpdates_spec:
  assumes "dynamicCustomThresholds p = Some d" "gomap_ok new"
  shows "\<exists>d'. applyThresholdUpdates new p = Inr (p\<lparr>dynamicCustomThresholds := Some d'\<rparr>) \<and>
     (gomap_ok d \<longrightarrow> gomap_ok d') \<and>
     map_of d' = (\<lambda>n. case map_of new n of Some v \<Rightarrow> Some v | None \<Rightarrow> map_of d n)"
  using assms gomap_ok_update_fold [of d new]
  by (auto simp: applyThresholdUpdates_def map_of_update_fold map_of_rev fun_eq_iff
    intro!: exI [of _ "foldl (\<lambda>m (k, v). AList.update k v m) d new"])

lemma updateDynamicThresholds_spec:
  assumes "shouldUpdateDynamicThresholds t p" "dynamicCustomThresholds p = Some d"
  shows "\<exists>d'. updateDynamicThresholds L t u ks md p =
       Inr (p\<lparr>lastThresholdUpdate := u, dynamicCustomThresholds := Some d'\<rparr>) \<and>
     (gomap_ok d \<longrightarrow> gomap_ok d') \<and> map_of d' = updated_dynamic L md p"
proof -
  let ?p = "p\<lparr>lastThresholdUpdate := u\<rparr>"
  obtain ctx where ctx: "initializeDynamicUpdate u ks p = (ctx, ?p)"
    "set (metricKeys ctx) = set (keys (entries (MetricThresholds (config ?p))))"
    "smoothing ctx = smoothing_of p"
    by (auto simp: initializeDynamicUpdate_def smoothing_of_def Let_def)
  let ?new = "calculateNewThresholds ?p (computeMetricAverages L p md) ctx"
  have new: "map_of ?new n = newThreshold p n (computeMetricAverages L p md) (smoothing_of p)" for n
    using calculateNewThresholds_spec [OF ctx(2)] by (simp add: ctx(3))
  have "updateDynamicThresholds L t u ks md p = applyThresholdUpdates ?new ?p"
    using assms(1) by (simp add: updateDynamicThresholds_def ctx(1))
  moreover have "dynamicCustomThresholds ?p = Some d" using assms(2) by simp
  from applyThresholdUpdates_spec [OF this, of ?new] obtain d' where
    "applyThresholdUpdates ?new ?p = Inr (?p\<lparr>dynamicCustomThresholds := Some d'\<rparr>)"
    "gomap_ok d \<longrightarrow> gomap_ok d'"
    "map_of d' = (\<lambda>n. case map_of ?new n of Some v \<Rightarrow> Some v | None \<Rightarrow> map_of d n)"
    by auto
  moreover have "(\<lambda>n. case map_of ?new n of Some v \<Rightarrow> Some v | None \<Rightarrow> map_of d n) = updated_dynamic L md p"
  proof -
    have "map_of d = dynamic_of p" using assms(2) by (simp add: fun_eq_iff dynamic_of_def)
    then show ?thesis by (intro ext) (simp only: new updated_dynamic_def)
  qed
  ultimately show ?thesis by auto
qed

section \<open>Monotonicity\<close>

text \<open>
  A larger average never gives a smaller threshold: every rounding, the exponential average and
  the clamping are monotone, as long as no operation meets NaN.
\<close>

lemma fadd_nan: "is_nan x \<or> is_nan y \<Longrightarrow> is_nan (fadd x y)"
  by (simp add: fadd_def)

lemma fmul_nan: "is_nan x \<or> is_nan y \<Longrightarrow> is_nan (fmul x y)"
  by (simp add: fmul_def)

lemma smoothed_mono:
  assumes "fle (Fin 0) s" "\<not> is_inf s" "fle a b"
    and "\<not> is_nan (smoothed s base a prev)" "\<not> is_nan (smoothed s base b prev)"
  shows "fle (smoothed s base a prev) (smoothed s base b prev)"
proof -
  have "genericScalingFactor = defaultDynamicSmoothingFactor"
    by (simp add: genericScalingFactor_def defaultDynamicSmoothingFactor_def)
  then have g: "fle (Fin 0) genericScalingFactor" "\<not> is_inf genericScalingFactor"
    using smoothing_default between_fin [OF smoothing_default] flt_fle by simp_all
  have nn: "\<not> is_nan (fmul s (fadd base (fmul x genericScalingFactor)))"
    "\<not> is_nan (fadd base (fmul x genericScalingFactor))" "\<not> is_nan (fmul x genericScalingFactor)"
    "\<not> is_nan (fmul (fsub (Fin 1) s) prev)" "\<not> is_nan base"
    if "\<not> is_nan (smoothed s base x prev)" for x
    using that unfolding smoothed_def Let_def by (blast intro: fadd_nan fmul_nan)+
  have "fle (fmul a genericScalingFactor) (fmul b genericScalingFactor)"
    using fmul_mono [OF g assms(3)] nn(3) [OF assms(4)] nn(3) [OF assms(5)]
    unfolding fmul_commute [of genericScalingFactor] by blast
  then have "fle (fadd base (fmul a genericScalingFactor)) (fadd base (fmul b genericScalingFactor))"
    using nn(2) [OF assms(4)] nn(2) [OF assms(5)] nn(5) [OF assms(4)]
    by (intro fadd_mono) simp_all
  then have "fle (fmul s (fadd base (fmul a genericScalingFactor)))
      (fmul s (fadd base (fmul b genericScalingFactor)))"
    using assms(1,2) nn(1) [OF assms(4)] nn(1) [OF assms(5)] by (intro fmul_mono)
  then show ?thesis
    using assms(4,5) nn(4) [OF assms(4)] unfolding smoothed_def Let_def
    by (intro fadd_mono) simp_all
qed

lemma applyThresholdConstraints_mono:
  "fle v w \<Longrightarrow> fle (applyThresholdConstraints p m v) (applyThresholdConstraints p m w)"
proof -
  have 1: "fle (if flt (Fin 0) lo \<and> flt v lo then lo else v) (if flt (Fin 0) lo \<and> flt w lo then lo else w)"
    if "fle v w" for v w lo
    using that by (cases lo; cases v; cases w) (auto simp: fle_def flt_def)
  have 2: "fle (if flt (Fin 0) hi \<and> flt hi v then hi else v) (if flt (Fin 0) hi \<and> flt hi w then hi else w)"
    if "fle v w" for v w hi
    using that by (cases hi; cases v; cases w) (auto simp: fle_def flt_def)
  assume "fle v w"
  then show ?thesis
    by (auto simp: applyThresholdConstraints_def Let_def 1 2 simp del: if_split split: option.split)
qed

section \<open>Claims\<close>

text \<open>The average of a metric over a batch is the floating-point mean of the sums of its gauges
  that have points, over all resources and scopes; metrics without a threshold, sums and other
  types, and gauges without points do not count.\<close>

theorem averages_spec:
  "map_of (computeMetricAverages L p md) n =
     (if threshold_of p n = None then None else average_of (gauge_sums L n (metrics_of md)))"
  by (rule computeMetricAverages_spec)





text \<open>A larger average never gives a smaller threshold. All roundings of the update are monotone,
  so this holds of the floating-point code as long as no operation meets NaN.\<close>

theorem threshold_monotone:
  assumes "fle (Fin 0) s" "\<not> is_inf s" "fle a b"
    and "\<not> is_nan (smoothed s base a prev)" "\<not> is_nan (smoothed s base b prev)"
  shows "fle (applyThresholdConstraints p m (smoothed s base a prev))
             (applyThresholdConstraints p m (smoothed s base b prev))"
  using assms by (intro applyThresholdConstraints_mono smoothed_mono)

theorem threshold_monotone_witness:
  "fle (applyThresholdConstraints (sample_processor sample_config) ''m'' (smoothed (Fin (1 / 2)) (Fin 5) (Fin 1) (Fin 5)))
       (applyThresholdConstraints (sample_processor sample_config) ''m'' (smoothed (Fin (1 / 2)) (Fin 5) (Fin 2) (Fin 5)))"
proof (rule threshold_monotone)
  have "is_f64 x \<Longrightarrow> \<not> is_nan (smoothed (Fin (1 / 2)) (Fin 5) x (Fin 5))" if "x = Fin 1 \<or> x = Fin 2" for x
    using that by (elim disjE; simp only:) code_simp+
  moreover have "is_f64 (Fin 1)" "is_f64 (Fin 2)" by code_simp+
  ultimately show "\<not> is_nan (smoothed (Fin (1 / 2)) (Fin 5) (Fin 1) (Fin 5))"
    "\<not> is_nan (smoothed (Fin (1 / 2)) (Fin 5) (Fin 2) (Fin 5))" by blast+
qed simp_all

end
