(* ===== verification/Atp_Evaluate.thy ===== *)
theory Atp_Evaluate
  imports Atp_Anomaly Atp_Dynamic
begin

text \<open>
  The decision for one resource (process_metrics.go, lines 284 to 773 and 830 to 851): default
  inclusion, zombies and the include list, then for a known entity anomaly, threshold,
  multi-metric and retention stages, for a new one anomaly, threshold and multi-metric stages.
  A stage that includes the resource writes its name into the attribute
  \<open>ProcessATPFilterStage\<close>. The functions pass the processor and the resource's attributes.
\<close>

definition setResourceFilterStage :: "string \<Rightarrow> attrs \<Rightarrow> attrs" where
  "setResourceFilterStage stage attrs = attr_put internalFilterStageAttributeKey (VStr stage) attrs"

section \<open>Updating an entity\<close>

text \<open>
  \<open>updateEntityValues\<close>: nil maps are replaced by fresh ones; then each value is written into the
  current map and, when it exceeds what the maximal map holds \<open>at that moment\<close>, into that one.
  Both writes go through the store, so with one map in both fields the second comparison reads
  the value the first write has just stored.
\<close>

definition ensureMap :: "addr option \<Rightarrow> vstore \<Rightarrow> addr \<times> vstore" where
  "ensureMap a h = (case a of Some x \<Rightarrow> (x, h) | None \<Rightarrow> alloc [] h)"

definition updateValue :: "addr \<Rightarrow> addr \<Rightarrow> vstore \<Rightarrow> string \<times> f64 \<Rightarrow> vstore" where
  "updateValue c x h mv =
     (let (m, v) = mv;
          h1 = cell_put c m v h;
          old = (case map_of (cells h1 x) m of Some o' \<Rightarrow> o' | None \<Rightarrow> Fin 0)
      in if flt old v then cell_put x m v h1 else h1)"

definition updateEntityValues ::
  "env \<Rightarrow> valmap \<Rightarrow> trackedEntity \<times> vstore \<Rightarrow> trackedEntity \<times> vstore" where
  "updateEntityValues E values = (\<lambda>(te, h).
     let (c, h1) = ensureMap (CurrentValues te) h;
         (x, h2) = ensureMap (MaxValues te) h1
     in (te\<lparr>CurrentValues := Some c, MaxValues := Some x\<rparr>,
         foldl (updateValue c x) h2 (visit E UpdateRange values)))"

section \<open>Zombies and the include list\<close>

text \<open>Both fields of a new entity get the map \<open>values\<close>: one address.\<close>

definition upsertTrackedEntityForIncludeList ::
  "lib \<Rightarrow> env \<Rightarrow> string \<Rightarrow> valmap \<Rightarrow> attrs \<Rightarrow> processorImp \<Rightarrow> processorImp go" where
  "upsertTrackedEntityForIncludeList L E i values attrs p =
     (let t = now E UpsertNow
      in case lookup (trackedEntities p) i of
        None \<Rightarrow>
          (case trackedEntities p of
             None \<Rightarrow> Inl ''assignment to entry in nil map''
           | Some m \<Rightarrow>
             (let (a, h) = alloc values (values_store p);
                  te = \<lparr>Identity = i, FirstSeen = t, LastExceeded = t, CurrentValues = Some a,
                        MaxValues = Some a, Attributes = Some (snapshotResourceAttributes L attrs),
                        MetricHistory = None, LastAnomalyDetected = zero_time\<rparr>
              in Inr (p\<lparr>trackedEntities := Some (AList.update i te m), values_store := h\<rparr>)))
      | Some te \<Rightarrow>
          (let (te', h) = updateEntityValues E values (te, values_store p)
           in Inr (p\<lparr>trackedEntities := Some (AList.update i (te'\<lparr>LastExceeded := t\<rparr>)
                        (entries (trackedEntities p))), values_store := h\<rparr>)))"

definition isResourceTargeted :: "env \<Rightarrow> processorImp \<Rightarrow> valmap \<Rightarrow> bool" where
  "isResourceTargeted E p values =
     (list_ex (\<lambda>(m, v). threshold_of p m \<noteq> None) (visit E TargetedStatic values) \<or>
      dynamicThresholdsEnabled p \<and>
      list_ex (\<lambda>(m, v). dynamic_of p m \<noteq> None) (visit E TargetedDynamic values))"

section \<open>The stages of a known entity\<close>

text \<open>Each stage returns whether it includes the resource, the attributes and the entity.\<close>

type_synonym stage_result = "bool \<times> attrs \<times> trackedEntity"

definition checkAnomalyDetectionStage ::
  "env \<Rightarrow> processorImp \<Rightarrow> valmap \<Rightarrow> attrs \<Rightarrow> trackedEntity \<Rightarrow> stage_result" where
  "checkAnomalyDetectionStage E p values attrs te =
     (if \<not> EnableAnomalyDetection (config p) then (False, attrs, te)
      else case detectAnomaly E p values te of
        ((True, _), te') \<Rightarrow> (True, setResourceFilterStage stageAnomalyDetection attrs, te')
      | ((False, _), te') \<Rightarrow> (False, attrs, te'))"

definition exceedsDynamic :: "processorImp \<Rightarrow> string \<times> f64 \<Rightarrow> bool" where
  "exceedsDynamic p = (\<lambda>(m, v). case dynamic_of p m of Some t \<Rightarrow> fle t v | None \<Rightarrow> False)"

definition exceedsStatic :: "processorImp \<Rightarrow> string \<times> f64 \<Rightarrow> bool" where
  "exceedsStatic p =
     (\<lambda>(m, v). case threshold_of p m of Some t \<Rightarrow> feq t (Fin 0) \<or> fle t v | None \<Rightarrow> False)"

definition checkDynamicThresholds ::
  "env \<Rightarrow> processorImp \<Rightarrow> valmap \<Rightarrow> attrs \<Rightarrow> trackedEntity \<Rightarrow> stage_result" where
  "checkDynamicThresholds E p values attrs te =
     (if list_ex (exceedsDynamic p) (visit E DynamicRange values)
      then (True, setResourceFilterStage stageDynamicThreshold attrs,
            te\<lparr>LastExceeded := now E DynamicNow\<rparr>)
      else (False, attrs, te))"

definition checkStaticThresholds ::
  "env \<Rightarrow> processorImp \<Rightarrow> valmap \<Rightarrow> attrs \<Rightarrow> trackedEntity \<Rightarrow> stage_result" where
  "checkStaticThresholds E p values attrs te =
     (if list_ex (exceedsStatic p) (visit E StaticRange values)
      then (True, setResourceFilterStage stageStaticThreshold attrs,
            te\<lparr>LastExceeded := now E StaticNow\<rparr>)
      else (False, attrs, te))"

definition checkThresholdStages ::
  "env \<Rightarrow> processorImp \<Rightarrow> valmap \<Rightarrow> attrs \<Rightarrow> trackedEntity \<Rightarrow> stage_result" where
  "checkThresholdStages E p values attrs te =
     (if dynamicThresholdsEnabled p then checkDynamicThresholds E p values attrs te
      else checkStaticThresholds E p values attrs te)"

definition checkMultiMetricStage ::
  "env \<Rightarrow> processorImp \<Rightarrow> valmap \<Rightarrow> attrs \<Rightarrow> trackedEntity \<Rightarrow> stage_result" where
  "checkMultiMetricStage E p values attrs te =
     (if \<not> multiMetricEnabled p then (False, attrs, te)
      else if fle (compositeLimit p) (compositeScore p values)
      then (True, setResourceFilterStage stageMultiMetric attrs,
            te\<lparr>LastExceeded := now E MultiNow\<rparr>)
      else (False, attrs, te))"

text \<open>\<open>int(p.config.RetentionMinutes)\<close> is the identity on a 64-bit platform.\<close>

definition anomalyRetentionMins :: "processorImp \<Rightarrow> int" where
  "anomalyRetentionMins p =
     (if 0 < RetentionMinutes (config p) then RetentionMinutes (config p) else 30)"

definition checkAnomalyRetention ::
  "env \<Rightarrow> processorImp \<Rightarrow> attrs \<Rightarrow> trackedEntity \<Rightarrow> stage_result" where
  "checkAnomalyRetention E p attrs te =
     (if \<not> EnableAnomalyDetection (config p) \<or> is_zero_time (LastAnomalyDetected te)
      then (False, attrs, te)
      else if flt (dur_minutes (time_sub (now E AnomalyRetentionNow) (LastAnomalyDetected te)))
                  (f64_of_int (anomalyRetentionMins p))
      then (True, setResourceFilterStage stageAnomalyRetention attrs, te)
      else (False, attrs, te))"

definition checkStandardRetention ::
  "env \<Rightarrow> processorImp \<Rightarrow> attrs \<Rightarrow> trackedEntity \<Rightarrow> stage_result" where
  "checkStandardRetention E p attrs te =
     (if RetentionMinutes (config p) \<le> 0 \<or> is_zero_time (LastExceeded te) then (False, attrs, te)
      else if time_sub (now E StandardRetentionNow) (LastExceeded te)
                < wrap64 (RetentionMinutes (config p) * minute)
      then (True, setResourceFilterStage stageStandardRetention attrs, te)
      else (False, attrs, te))"

text \<open>The short-circuit \<open>a || b\<close> of the source: the second stage runs only if the first fails.\<close>

definition orElse :: "stage_result \<Rightarrow> (attrs \<Rightarrow> trackedEntity \<Rightarrow> stage_result) \<Rightarrow> stage_result" where
  "orElse r f = (case r of (ok, attrs, te) \<Rightarrow> if ok then (True, attrs, te) else f attrs te)"

definition checkRetentionStages ::
  "env \<Rightarrow> processorImp \<Rightarrow> attrs \<Rightarrow> trackedEntity \<Rightarrow> stage_result" where
  "checkRetentionStages E p attrs te =
     orElse (checkAnomalyRetention E p attrs te) (checkStandardRetention E p)"

definition evaluateExistingEntity ::
  "lib \<Rightarrow> env \<Rightarrow> string \<Rightarrow> trackedEntity \<Rightarrow> valmap \<Rightarrow> attrs \<Rightarrow> processorImp
     \<Rightarrow> bool \<times> attrs \<times> processorImp" where
  "evaluateExistingEntity L E i te values attrs p =
     (let (te1, h) = updateEntityValues E values (te, values_store p);
          attrs1 = (if multiMetricEnabled p then addMultiMetricData L p values attrs else attrs);
          (ok, attrs2, te2) =
            orElse (orElse (orElse
              (checkAnomalyDetectionStage E p values attrs1 te1)
              (checkThresholdStages E p values))
              (checkMultiMetricStage E p values))
              (checkRetentionStages E p)
      in (ok, attrs2, p\<lparr>trackedEntities := Some (AList.update i te2 (entries (trackedEntities p))),
                        values_store := h\<rparr>))"

section \<open>The stages of a new entity\<close>

definition createNewTrackedEntity ::
  "lib \<Rightarrow> env \<Rightarrow> processorImp \<Rightarrow> string \<Rightarrow> valmap \<Rightarrow> attrs \<Rightarrow> trackedEntity \<times> vstore" where
  "createNewTrackedEntity L E p i values attrs =
     (let (a, h) = alloc values (values_store p)
      in (\<lparr>Identity = i, FirstSeen = now E CreateNow, LastExceeded = zero_time,
           CurrentValues = Some a, MaxValues = Some a,
           Attributes = Some (snapshotResourceAttributes L attrs),
           MetricHistory =
             (if EnableAnomalyDetection (config p)
              then Some (foldl (\<lambda>hm (m, v). AList.update m [v] hm) [] (visit E CreateRange values))
              else None),
           LastAnomalyDetected = zero_time\<rparr>, h))"

definition checkNewEntityThresholds :: "env \<Rightarrow> processorImp \<Rightarrow> valmap \<Rightarrow> string option" where
  "checkNewEntityThresholds E p values =
     (if dynamicThresholdsEnabled p then
        (if list_ex (exceedsDynamic p) (visit E NewDynamicRange values)
         then Some stageDynamicThreshold else None)
      else
        (if list_ex (exceedsStatic p) (visit E NewStaticRange values)
         then Some stageStaticThreshold else None))"

definition checkNewEntityMultiMetric :: "processorImp \<Rightarrow> valmap \<Rightarrow> string option" where
  "checkNewEntityMultiMetric p values =
     (if \<not> multiMetricEnabled p then None
      else if fle (compositeLimit p) (compositeScore p values) then Some stageMultiMetric
      else None)"

definition checkNewEntityAnomaly ::
  "env \<Rightarrow> processorImp \<Rightarrow> valmap \<Rightarrow> trackedEntity \<Rightarrow> string option \<times> trackedEntity" where
  "checkNewEntityAnomaly E p values te =
     (if \<not> EnableAnomalyDetection (config p) then (None, te)
      else case detectAnomaly E p values te of
        ((True, _), te') \<Rightarrow> (Some stageAnomalyDetection, te')
      | ((False, _), te') \<Rightarrow> (None, te'))"

definition checkNewEntityFilterStages ::
  "lib \<Rightarrow> env \<Rightarrow> processorImp \<Rightarrow> valmap \<Rightarrow> attrs \<Rightarrow> trackedEntity
     \<Rightarrow> string option \<times> attrs \<times> trackedEntity" where
  "checkNewEntityFilterStages L E p values attrs te =
     (let attrs1 = (if multiMetricEnabled p then addMultiMetricData L p values attrs else attrs)
      in case checkNewEntityAnomaly E p values te of
        (Some stage, te1) \<Rightarrow> (Some stage, attrs1, te1)
      | (None, te1) \<Rightarrow>
        (case checkNewEntityThresholds E p values of
           Some stage \<Rightarrow> (Some stage, attrs1, te1\<lparr>LastExceeded := now E NewThresholdNow\<rparr>)
         | None \<Rightarrow>
           (case checkNewEntityMultiMetric p values of
              Some stage \<Rightarrow> (Some stage, attrs1, te1\<lparr>LastExceeded := now E NewMultiNow\<rparr>)
            | None \<Rightarrow> (None, attrs1, te1))))"

section \<open>Debug mode\<close>

definition maxRatio :: "(string \<Rightarrow> f64 option) \<Rightarrow> (string \<times> f64) list \<Rightarrow> f64" where
  "maxRatio thr vs =
     foldl (\<lambda>mx (m, v). case thr m of
        None \<Rightarrow> mx
      | Some t \<Rightarrow>
        (if flt (Fin 0) t then (let ratio = fdiv v t in if flt mx ratio then ratio else mx) else mx))
       (Fin 0) vs"

definition debugReason :: "env \<Rightarrow> processorImp \<Rightarrow> valmap \<Rightarrow> string" where
  "debugReason E p values =
     (let ratio = (if dynamicThresholdsEnabled p
            then ''dynamic_max_ratio='' @ fmt_fixed 2 (maxRatio (dynamic_of p) (visit E DebugRange values))
            else ''static_max_ratio='' @ fmt_fixed 2 (maxRatio (threshold_of p) (visit E DebugRange values)));
          multi = (if multiMetricEnabled p
            then [''multi_metric='' @ fmt_fixed 2 (compositeScore p values) @ ''/'' @
                  fmt_fixed 2 (compositeLimit p)] else []);
          anomaly = (if EnableAnomalyDetection (config p) then [''anomaly=none''] else [])
      in ''debug_no_match:'' @ ''['' @ join '' '' ([ratio] @ multi @ anomaly) @ '']'')"

definition handleDebugMode :: "env \<Rightarrow> processorImp \<Rightarrow> valmap \<Rightarrow> attrs \<Rightarrow> bool \<times> attrs" where
  "handleDebugMode E p values attrs = (True, setResourceFilterStage (debugReason E p values) attrs)"

section \<open>New entities\<close>

definition storeEntity :: "string \<Rightarrow> trackedEntity \<Rightarrow> processorImp \<Rightarrow> processorImp go" where
  "storeEntity i te p =
     (case trackedEntities p of
        None \<Rightarrow> Inl ''assignment to entry in nil map''
      | Some m \<Rightarrow> Inr (p\<lparr>trackedEntities := Some (AList.update i te m)\<rparr>))"

definition evaluateNewEntity ::
  "lib \<Rightarrow> env \<Rightarrow> string \<Rightarrow> valmap \<Rightarrow> attrs \<Rightarrow> processorImp \<Rightarrow> (bool \<times> attrs \<times> processorImp) go" where
  "evaluateNewEntity L E i values attrs p =
     (let (te0, h) = createNewTrackedEntity L E p i values attrs;
          (stage, attrs1, te1) = checkNewEntityFilterStages L E p values attrs te0;
          p1 = p\<lparr>values_store := h\<rparr>
      in case stage of
        Some s \<Rightarrow> andThen (storeEntity i te1 p1)
          (\<lambda>p2. Inr (True, setResourceFilterStage s attrs1, p2))
      | None \<Rightarrow>
        (if DebugShowAllFilterStages (config p) then
           andThen (storeEntity i te1 p1)
             (\<lambda>p2. case handleDebugMode E p2 values attrs1 of (ok, attrs2) \<Rightarrow> Inr (ok, attrs2, p2))
         else Inr (False, attrs1, p1)))"

section \<open>The decision\<close>

definition shouldIncludeResource ::
  "lib \<Rightarrow> env \<Rightarrow> resource_metrics \<Rightarrow> processorImp \<Rightarrow> (bool \<times> attrs \<times> processorImp) go" where
  "shouldIncludeResource L E rm p =
     (let attrs0 = Resource rm;
          i = buildResourceIdentity L attrs0;
          values = extractMetricValues L p rm;
          attrs = captureUsedMetricThresholds L E p values attrs0
      in if \<not> isResourceTargeted E p values
         then Inr (True, setResourceFilterStage stageDefaultInclusion attrs, p)
         else if isZombieProcess attrs
         then
           (let attrs1 = setResourceFilterStage stageZombieProcess attrs
            in andThen (upsertTrackedEntityForIncludeList L E i values attrs1 p)
                 (\<lambda>p1. Inr (True, attrs1, p1)))
         else andThen (isProcessInIncludeList L attrs (IncludeProcessList (config p)))
           (\<lambda>match.
             if match then
               (let attrs1 = setResourceFilterStage stageIncludeList attrs
                in andThen (upsertTrackedEntityForIncludeList L E i values attrs1 p)
                     (\<lambda>p1. Inr (True, attrs1, p1)))
             else case lookup (trackedEntities p) i of
               Some te \<Rightarrow> Inr (evaluateExistingEntity L E i te values attrs p)
             | None \<Rightarrow> evaluateNewEntity L E i values attrs p))"

section \<open>The values of an entity\<close>

definition maximum :: "f64 option \<Rightarrow> f64 \<Rightarrow> f64 option" where
  "maximum old v = (if flt (case old of Some o' \<Rightarrow> o' | None \<Rightarrow> Fin 0) v then Some v else old)"

lemma updateValue_other: "a \<noteq> c \<Longrightarrow> a \<noteq> x \<Longrightarrow> cells (updateValue c x h mv) a = cells h a"
  by (simp add: updateValue_def Let_def split: prod.split)

lemma next_addr_updateValue [simp]: "next_addr (updateValue c x h mv) = next_addr h"
  by (simp add: updateValue_def Let_def split: prod.split)

lemma updateValue_fold_frame:
  "next_addr (foldl (updateValue c x) h vs) = next_addr h"
  "a \<noteq> c \<Longrightarrow> a \<noteq> x \<Longrightarrow> cells (foldl (updateValue c x) h vs) a = cells h a"
  by (induction vs arbitrary: h) (simp_all add: updateValue_other)

lemma updateValue_current:
  "map_of (cells (updateValue c x h (m, v)) c) = (map_of (cells h c))(m \<mapsto> v)"
  by (auto simp: updateValue_def Let_def)

lemma updateValue_max:
  "c \<noteq> x \<Longrightarrow> map_of (cells (updateValue c x h (m, v)) x) =
     (map_of (cells h x))(m := maximum (map_of (cells h x) m) v)"
  by (auto simp: updateValue_def Let_def maximum_def fun_upd_idem)

lemma updateValue_fold_current:
  "gomap_ok vs \<Longrightarrow> map_of (cells (foldl (updateValue c x) h vs) c) n =
     (case map_of vs n of Some v \<Rightarrow> Some v | None \<Rightarrow> map_of (cells h c) n)"
proof (induction vs arbitrary: h)
  case (Cons e vs)
  obtain m v where e: "e = (m, v)" by (cases e)
  have "map_of vs m = None" "gomap_ok vs"
    using Cons.prems by (auto simp: e gomap_ok_def map_of_eq_None_iff)
  then show ?case using Cons.IH by (auto simp: e updateValue_current split: option.split)
qed simp

lemma updateValue_fold_max:
  "c \<noteq> x \<Longrightarrow> gomap_ok vs \<Longrightarrow> map_of (cells (foldl (updateValue c x) h vs) x) n =
     (case map_of vs n of Some v \<Rightarrow> maximum (map_of (cells h x) n) v | None \<Rightarrow> map_of (cells h x) n)"
proof (induction vs arbitrary: h)
  case (Cons e vs)
  obtain m v where e: "e = (m, v)" by (cases e)
  have "map_of vs m = None" "gomap_ok vs"
    using Cons.prems by (auto simp: e gomap_ok_def map_of_eq_None_iff)
  then show ?case using Cons by (auto simp: e updateValue_max split: option.split)
qed simp

text \<open>An entity whose two maps are separate, as after a load, keeps the maximum of each metric.\<close>

lemma updateEntityValues_separate:
  assumes "gomap_ok values" "CurrentValues te = Some c" "MaxValues te = Some x" "c \<noteq> x"
    and "updateEntityValues E values (te, h) = (te', h')"
  shows "te' = te"
    "value_of h' (CurrentValues te') n =
       (case map_of values n of Some v \<Rightarrow> Some v | None \<Rightarrow> value_of h (CurrentValues te) n)"
    "value_of h' (MaxValues te') n =
       (case map_of values n of Some v \<Rightarrow> maximum (value_of h (MaxValues te) n) v
        | None \<Rightarrow> value_of h (MaxValues te) n)"
  using assms updateValue_fold_current [of "visit E UpdateRange values" c x h n]
    updateValue_fold_max [of c x "visit E UpdateRange values" h n]
  by (cases "map_of values n"; auto simp: updateEntityValues_def ensureMap_def value_of_def)+

text \<open>An entity whose two fields hold the same map keeps no maximum: both are the latest values.\<close>

lemma updateEntityValues_aliased:
  assumes "gomap_ok values" "CurrentValues te = Some c" "MaxValues te = Some c"
    and "updateEntityValues E values (te, h) = (te', h')"
  shows "te' = te"
    "value_of h' (MaxValues te') n =
       (case map_of values n of Some v \<Rightarrow> Some v | None \<Rightarrow> value_of h (MaxValues te) n)"
  using assms updateValue_fold_current [of "visit E UpdateRange values" c c h n]
  by (cases "map_of values n"; auto simp: updateEntityValues_def ensureMap_def value_of_def)+

lemma updateEntityValues_frame:
  assumes "updateEntityValues E values (te, h) = (te', h')"
  shows "Identity te' = Identity te" "FirstSeen te' = FirstSeen te"
    "LastExceeded te' = LastExceeded te" "LastAnomalyDetected te' = LastAnomalyDetected te"
    "Attributes te' = Attributes te" "history_of te' = history_of te"
    "MetricHistory te' = MetricHistory te"
  using assms by (auto simp: updateEntityValues_def Let_def split: prod.splits)

section \<open>Which resources are targeted\<close>

definition targeted :: "processorImp \<Rightarrow> valmap \<Rightarrow> bool" where
  "targeted p values = list_ex (\<lambda>(m, v). threshold_of p m \<noteq> None \<or>
     dynamicThresholdsEnabled p \<and> dynamic_of p m \<noteq> None) values"

lemma isResourceTargeted_iff: "isResourceTargeted E p values = targeted p values"
  by (fastforce simp: isResourceTargeted_def targeted_def list_ex_iff)

section \<open>What the stages decide\<close>

text \<open>Each condition without the effects and the iteration order of its stage.\<close>

definition exceeds :: "processorImp \<Rightarrow> valmap \<Rightarrow> bool" where
  "exceeds p values = (if dynamicThresholdsEnabled p then list_ex (exceedsDynamic p) values
     else list_ex (exceedsStatic p) values)"

definition scores :: "processorImp \<Rightarrow> valmap \<Rightarrow> bool" where
  "scores p values = (multiMetricEnabled p \<and> fle (compositeLimit p) (compositeScore p values))"

definition spikes :: "processorImp \<Rightarrow> valmap \<Rightarrow> trackedEntity \<Rightarrow> bool" where
  "spikes p values te = (EnableAnomalyDetection (config p) \<and>
     list_ex (anomalous p (snd (getAnomalyConfig p)) te) values)"

definition retained :: "env \<Rightarrow> processorImp \<Rightarrow> trackedEntity \<Rightarrow> bool" where
  "retained E p te = (fst (checkAnomalyRetention E p [] te) \<or> fst (checkStandardRetention E p [] te))"

lemma orElse_fst: "fst (orElse r f) \<longleftrightarrow> fst r \<or> fst (f (fst (snd r)) (snd (snd r)))"
  by (simp add: orElse_def split: prod.split)

lemma orElse_fail: "\<not> fst r \<Longrightarrow> orElse r f = f (fst (snd r)) (snd (snd r))"
  by (cases r) (simp add: orElse_def)

lemma orElse_hit: "fst r \<Longrightarrow> orElse r f = r"
  by (cases r) (auto simp: orElse_def)

lemma checkThresholdStages_eq:
  "fst (checkThresholdStages E p values attrs te) = exceeds p values"
  "\<not> exceeds p values \<Longrightarrow> checkThresholdStages E p values attrs te = (False, attrs, te)"
  by (cases "dynamicThresholdsEnabled p"; simp add: checkThresholdStages_def
    checkDynamicThresholds_def checkStaticThresholds_def exceeds_def)+

lemma checkMultiMetricStage_eq:
  "fst (checkMultiMetricStage E p values attrs te) = scores p values"
  "\<not> scores p values \<Longrightarrow> checkMultiMetricStage E p values attrs te = (False, attrs, te)"
  by (auto simp: checkMultiMetricStage_def scores_def)

lemma checkAnomalyDetectionStage_eq:
  assumes "gomap_ok values"
  shows "fst (checkAnomalyDetectionStage E p values attrs te) = spikes p values te"
    "checkAnomalyDetectionStage E p values attrs te =
       (spikes p values te,
        if spikes p values te then setResourceFilterStage stageAnomalyDetection attrs else attrs,
        snd (detectAnomaly E p values te))"
  using detectAnomaly_verdict [OF assms, of E p te]
  by (auto simp: checkAnomalyDetectionStage_def spikes_def detectAnomaly_off split: prod.split bool.split)

lemma retention_attrs:
  "fst (checkAnomalyRetention E p attrs te) = fst (checkAnomalyRetention E p [] te)"
  "fst (checkStandardRetention E p attrs te) = fst (checkStandardRetention E p [] te)"
  by (simp_all add: checkAnomalyRetention_def checkStandardRetention_def)

lemma retention_entity:
  "snd (snd (checkAnomalyRetention E p attrs te)) = te"
  "snd (snd (checkStandardRetention E p attrs te)) = te"
  "\<not> fst (checkAnomalyRetention E p attrs te) \<Longrightarrow> fst (snd (checkAnomalyRetention E p attrs te)) = attrs"
  by (auto simp: checkAnomalyRetention_def checkStandardRetention_def split: if_splits)

lemma checkRetentionStages_eq: "fst (checkRetentionStages E p attrs te) = retained E p te"
  using retention_attrs [of E p]
  by (auto simp: checkRetentionStages_def orElse_fst retained_def retention_entity)

lemma retained_cong:
  "LastAnomalyDetected te = LastAnomalyDetected te' \<Longrightarrow> LastExceeded te = LastExceeded te' \<Longrightarrow>
     retained E p te = retained E p te'"
  by (simp add: retained_def checkAnomalyRetention_def checkStandardRetention_def)

lemma spikes_cong: "history_of te = history_of te' \<Longrightarrow> spikes p values te = spikes p values te'"
  by (simp add: spikes_def anomalous_def)

section \<open>A known entity\<close>

definition existingStages ::
  "lib \<Rightarrow> env \<Rightarrow> valmap \<Rightarrow> attrs \<Rightarrow> processorImp \<Rightarrow> trackedEntity \<Rightarrow> stage_result" where
  "existingStages L E values attrs p te =
     orElse (orElse (orElse
       (checkAnomalyDetectionStage E p values
          (if multiMetricEnabled p then addMultiMetricData L p values attrs else attrs) te)
       (checkThresholdStages E p values))
       (checkMultiMetricStage E p values))
       (checkRetentionStages E p)"

lemma evaluateExistingEntity_eq:
  "evaluateExistingEntity L E i te values attrs p =
     (let (te1, h) = updateEntityValues E values (te, values_store p);
          r = existingStages L E values attrs p te1
      in (fst r, fst (snd r),
          p\<lparr>trackedEntities := Some (AList.update i (snd (snd r)) (entries (trackedEntities p))),
            values_store := h\<rparr>))"
  by (simp add: evaluateExistingEntity_def existingStages_def Let_def split: prod.split)

lemma existingStages_verdict:
  assumes "gomap_ok values"
  shows "fst (existingStages L E values attrs p te) \<longleftrightarrow>
     spikes p values te \<or> exceeds p values \<or> scores p values \<or> retained E p te"
proof -
  let ?a = "if multiMetricEnabled p then addMultiMetricData L p values attrs else attrs"
  let ?r = "checkAnomalyDetectionStage E p values ?a te"
  have "retained E p (snd (snd ?r)) = retained E p te" if "\<not> fst ?r"
    using that detectAnomaly_verdict [OF assms, of E p te]
    by (intro retained_cong) (auto simp: checkAnomalyDetectionStage_eq [OF assms] spikes_def detectAnomaly_frame)
  then show ?thesis
    using assms unfolding existingStages_def
    by (cases "fst ?r"; cases "exceeds p values"; cases "scores p values")
      (simp_all add: orElse_fst orElse_fail orElse_hit checkThresholdStages_eq checkMultiMetricStage_eq
        checkRetentionStages_eq checkAnomalyDetectionStage_eq(1))
qed

lemma evaluateExistingEntity_verdict:
  assumes "gomap_ok values"
  shows "fst (evaluateExistingEntity L E i te values attrs p) \<longleftrightarrow>
     spikes p values te \<or> exceeds p values \<or> scores p values \<or> retained E p te"
proof -
  obtain te1 h where u: "updateEntityValues E values (te, values_store p) = (te1, h)"
    by (cases "updateEntityValues E values (te, values_store p)")
  from updateEntityValues_frame [OF u] have "spikes p values te1 = spikes p values te"
    "retained E p te1 = retained E p te"
    by (metis spikes_cong, metis retained_cong)
  then show ?thesis
    by (simp add: evaluateExistingEntity_eq u Let_def existingStages_verdict [OF assms])
qed

section \<open>A new entity\<close>

lemma updates_fold:
  "gomap_ok vs \<Longrightarrow> map_of (foldl (\<lambda>hm (m, v). AList.update m (f v) hm) acc vs) n =
     (case map_of vs n of Some v \<Rightarrow> Some (f v) | None \<Rightarrow> map_of acc n)"
  using snapshot_fold [of f acc vs n] by (simp add: map_of_rev)

lemma new_entity_history:
  assumes "gomap_ok values"
  shows "length (history_of (fst (createNewTrackedEntity L E p i values attrs)) n) \<le> 1"
  using assms
  by (auto simp: createNewTrackedEntity_def history_of_def lookup_def alloc_def
    updates_fold [of "visit E CreateRange values" "\<lambda>v. [v]"] split: option.split)

lemma new_entity_no_spike:
  assumes "gomap_ok values" "2 \<le> minDataPoints p"
  shows "\<not> spikes p values (fst (createNewTrackedEntity L E p i values attrs))"
proof -
  have "\<not> minDataPoints p \<le> int (length (history_of (fst (createNewTrackedEntity L E p i values attrs)) n))" for n
    using new_entity_history [OF assms(1), of L E p i attrs n] assms(2) by linarith
  then show ?thesis by (auto simp: spikes_def anomalous_def list_ex_iff)
qed

lemma checkNewEntityThresholds_eq: "checkNewEntityThresholds E p values \<noteq> None \<longleftrightarrow> exceeds p values"
  by (simp add: checkNewEntityThresholds_def exceeds_def)

lemma checkNewEntityMultiMetric_eq: "checkNewEntityMultiMetric p values \<noteq> None \<longleftrightarrow> scores p values"
  by (simp add: checkNewEntityMultiMetric_def scores_def)

lemma checkNewEntityFilterStages_verdict:
  assumes "gomap_ok values"
  shows "fst (checkNewEntityFilterStages L E p values attrs te) \<noteq> None \<longleftrightarrow>
     spikes p values te \<or> exceeds p values \<or> scores p values"
  using detectAnomaly_verdict [OF assms, of E p te] checkNewEntityThresholds_eq [of E p "values"]
    checkNewEntityMultiMetric_eq [of p "values"]
  by (auto simp: checkNewEntityFilterStages_def checkNewEntityAnomaly_def spikes_def Let_def
    detectAnomaly_off split: prod.split bool.split option.split)

section \<open>The decision as a whole\<close>

lemma evaluateNewEntity_eq:
  "evaluateNewEntity L E i values attrs p =
     (let c = createNewTrackedEntity L E p i values attrs;
          r = checkNewEntityFilterStages L E p values attrs (fst c);
          p1 = p\<lparr>values_store := snd c\<rparr>
      in case fst r of
           Some s \<Rightarrow> andThen (storeEntity i (snd (snd r)) p1)
             (\<lambda>p2. Inr (True, setResourceFilterStage s (fst (snd r)), p2))
         | None \<Rightarrow> if DebugShowAllFilterStages (config p)
             then andThen (storeEntity i (snd (snd r)) p1)
               (\<lambda>p2. Inr (True, setResourceFilterStage (debugReason E p2 values) (fst (snd r)), p2))
             else Inr (False, fst (snd r), p1))"
  by (cases "createNewTrackedEntity L E p i values attrs";
      cases "checkNewEntityFilterStages L E p values attrs (fst (createNewTrackedEntity L E p i values attrs))")
    (simp add: evaluateNewEntity_def handleDebugMode_def Let_def split: option.split)

lemma evaluateNewEntity_verdict:
  assumes "gomap_ok values" "evaluateNewEntity L E i values attrs p = Inr (ok, attrs', p')"
  shows "ok \<longleftrightarrow> spikes p values (fst (createNewTrackedEntity L E p i values attrs)) \<or>
     exceeds p values \<or> scores p values \<or> DebugShowAllFilterStages (config p)"
proof -
  let ?te = "fst (createNewTrackedEntity L E p i values attrs)"
  from assms(2) have "ok \<longleftrightarrow> fst (checkNewEntityFilterStages L E p values attrs ?te) \<noteq> None \<or>
      DebugShowAllFilterStages (config p)"
    by (auto simp: evaluateNewEntity_eq Let_def andThen_Inr_iff split: option.splits if_splits)
  then show ?thesis unfolding checkNewEntityFilterStages_verdict [OF assms(1)] by blast
qed

text \<open>The values and the attributes a decision works on.\<close>

abbreviation values_of :: "lib \<Rightarrow> processorImp \<Rightarrow> resource_metrics \<Rightarrow> valmap" where
  "values_of L p rm \<equiv> extractMetricValues L p rm"

definition evaluated_attrs :: "lib \<Rightarrow> env \<Rightarrow> processorImp \<Rightarrow> resource_metrics \<Rightarrow> attrs" where
  "evaluated_attrs L E p rm = captureUsedMetricThresholds L E p (values_of L p rm) (Resource rm)"

definition id_of :: "lib \<Rightarrow> resource_metrics \<Rightarrow> string" where
  "id_of L rm = buildResourceIdentity L (Resource rm)"

lemma shouldIncludeResource_eq:
  "shouldIncludeResource L E rm p =
     (let attrs = evaluated_attrs L E p rm; vs = values_of L p rm; i = id_of L rm
      in if \<not> targeted p vs then Inr (True, setResourceFilterStage stageDefaultInclusion attrs, p)
         else if isZombieProcess attrs then
           (let a = setResourceFilterStage stageZombieProcess attrs
            in andThen (upsertTrackedEntityForIncludeList L E i vs a p) (\<lambda>p1. Inr (True, a, p1)))
         else andThen (isProcessInIncludeList L attrs (IncludeProcessList (config p)))
           (\<lambda>match. if match then
               (let a = setResourceFilterStage stageIncludeList attrs
                in andThen (upsertTrackedEntityForIncludeList L E i vs a p) (\<lambda>p1. Inr (True, a, p1)))
             else case lookup (trackedEntities p) i of
               Some te \<Rightarrow> Inr (evaluateExistingEntity L E i te vs attrs p)
             | None \<Rightarrow> evaluateNewEntity L E i vs attrs p))"
  by (simp add: shouldIncludeResource_def evaluated_attrs_def id_of_def isResourceTargeted_iff Let_def)

definition listed :: "lib \<Rightarrow> env \<Rightarrow> processorImp \<Rightarrow> resource_metrics \<Rightarrow> bool" where
  "listed L E p rm = (isProcessInIncludeList L (evaluated_attrs L E p rm)
     (IncludeProcessList (config p)) = Inr True)"

text \<open>
  The specification of the decision: a resource is dropped only when it is targeted, is neither
  a zombie nor listed, and no condition of its kind of entity holds.
\<close>

definition kept :: "lib \<Rightarrow> env \<Rightarrow> resource_metrics \<Rightarrow> processorImp \<Rightarrow> bool" where
  "kept L E rm p =
     (let vs = values_of L p rm
      in \<not> targeted p vs \<or> isZombieProcess (Resource rm) \<or> listed L E p rm \<or>
         exceeds p vs \<or> scores p vs \<or>
         (case lookup (trackedEntities p) (id_of L rm) of
            Some te \<Rightarrow> spikes p vs te \<or> retained E p te
          | None \<Rightarrow> DebugShowAllFilterStages (config p)))"

lemma evaluated_attrs_other:
  "k \<noteq> ''process.atp'' \<Longrightarrow> attr_get (evaluated_attrs L E p rm) k = attr_get (Resource rm) k"
  by (simp add: evaluated_attrs_def captureUsedMetricThresholds_other)

lemma isZombieProcess_evaluated [simp]:
  "isZombieProcess (evaluated_attrs L E p rm) = isZombieProcess (Resource rm)"
  by (simp add: isZombieProcess_def evaluated_attrs_other)

lemma shouldIncludeResource_verdict:
  assumes "2 \<le> minDataPoints p" "shouldIncludeResource L E rm p = Inr (ok, attrs', p')"
  shows "ok = kept L E rm p"
proof -
  let ?vs = "values_of L p rm" and ?a = "evaluated_attrs L E p rm" and ?i = "id_of L rm"
  have vs: "gomap_ok ?vs" by simp
  consider "\<not> targeted p ?vs" | "targeted p ?vs" "isZombieProcess (Resource rm)"
    | "targeted p ?vs" "\<not> isZombieProcess (Resource rm)" "listed L E p rm"
    | te where "targeted p ?vs" "\<not> isZombieProcess (Resource rm)" "\<not> listed L E p rm"
        "lookup (trackedEntities p) ?i = Some te"
        "evaluateExistingEntity L E ?i te ?vs ?a p = (ok, attrs', p')"
    | "targeted p ?vs" "\<not> isZombieProcess (Resource rm)" "\<not> listed L E p rm"
        "lookup (trackedEntities p) ?i = None"
        "evaluateNewEntity L E ?i ?vs ?a p = Inr (ok, attrs', p')"
    using assms(2) unfolding shouldIncludeResource_eq listed_def
    by (auto simp: Let_def andThen_Inr_iff split: if_splits option.splits)
  then show ?thesis
  proof cases
    case (4 te)
    then show ?thesis using evaluateExistingEntity_verdict [OF vs, of L E ?i te ?a p]
      by (auto simp: kept_def)
  next
    case 5
    then show ?thesis
      using evaluateNewEntity_verdict [OF vs 5(5)] new_entity_no_spike [OF vs assms(1)]
      by (auto simp: kept_def)
  qed (use assms(2) in \<open>auto simp: shouldIncludeResource_eq kept_def listed_def Let_def andThen_Inr_iff\<close>)
qed

section \<open>What a decision leaves unchanged\<close>

definition same_settings :: "processorImp \<Rightarrow> processorImp \<Rightarrow> bool" where
  "same_settings p q = (config q = config p \<and> storage q = storage p \<and>
     lastPersistenceOp q = lastPersistenceOp p \<and> persistenceEnabled q = persistenceEnabled p \<and>
     lastThresholdUpdate q = lastThresholdUpdate p \<and>
     dynamicThresholdsEnabled q = dynamicThresholdsEnabled p \<and>
     multiMetricEnabled q = multiMetricEnabled p \<and>
     dynamicCustomThresholds q = dynamicCustomThresholds p)"

lemma same_settings_refl [simp]: "same_settings p p"
  by (simp add: same_settings_def)

lemma same_settings_trans: "same_settings p q \<Longrightarrow> same_settings q r \<Longrightarrow> same_settings p r"
  by (simp add: same_settings_def)

lemma upsert_settings:
  "upsertTrackedEntityForIncludeList L E i vs a p = Inr p' \<Longrightarrow> same_settings p p'"
  by (auto simp: upsertTrackedEntityForIncludeList_def same_settings_def Let_def
    split: option.splits prod.splits)

lemma storeEntity_settings:
  "storeEntity i te p = Inr p' \<Longrightarrow> p' = p\<lparr>trackedEntities := trackedEntities p'\<rparr>"
  by (auto simp: storeEntity_def split: option.splits)

lemma evaluateNewEntity_settings:
  "evaluateNewEntity L E i vs a p = Inr (ok, a', p') \<Longrightarrow> same_settings p p'"
  by (auto simp: evaluateNewEntity_eq same_settings_def storeEntity_def Let_def andThen_Inr_iff
    split: option.splits if_splits)

lemma evaluateExistingEntity_settings:
  "evaluateExistingEntity L E i te vs a p = (ok, a', p') \<Longrightarrow> same_settings p p'"
  by (auto simp: evaluateExistingEntity_eq same_settings_def Let_def split: prod.splits)

lemma shouldIncludeResource_settings:
  "shouldIncludeResource L E rm p = Inr (ok, a', p') \<Longrightarrow> same_settings p p'"
  by (auto simp: shouldIncludeResource_eq Let_def andThen_Inr_iff
    dest: upsert_settings evaluateNewEntity_settings evaluateExistingEntity_settings
    split: if_splits option.splits)

text \<open>Only the entity of the resource can change.\<close>

lemma upsert_other:
  "upsertTrackedEntityForIncludeList L E i vs a p = Inr p' \<Longrightarrow> j \<noteq> i \<Longrightarrow>
     lookup (trackedEntities p') j = lookup (trackedEntities p) j"
  by (auto simp: upsertTrackedEntityForIncludeList_def lookup_def Let_def
    split: option.splits prod.splits)

lemma evaluateNewEntity_other:
  "evaluateNewEntity L E i vs a p = Inr (ok, a', p') \<Longrightarrow> j \<noteq> i \<Longrightarrow>
     lookup (trackedEntities p') j = lookup (trackedEntities p) j"
  by (auto simp: evaluateNewEntity_eq storeEntity_def lookup_def Let_def andThen_Inr_iff
    split: option.splits if_splits)

lemma evaluateExistingEntity_other:
  "evaluateExistingEntity L E i te vs a p = (ok, a', p') \<Longrightarrow> j \<noteq> i \<Longrightarrow>
     lookup (trackedEntities p') j = lookup (trackedEntities p) j"
  by (auto simp: evaluateExistingEntity_eq lookup_def Let_def split: prod.splits)

lemma shouldIncludeResource_other:
  "shouldIncludeResource L E rm p = Inr (ok, a', p') \<Longrightarrow> j \<noteq> id_of L rm \<Longrightarrow>
     lookup (trackedEntities p') j = lookup (trackedEntities p) j"
  by (auto simp: shouldIncludeResource_eq Let_def andThen_Inr_iff
    dest: upsert_other evaluateNewEntity_other evaluateExistingEntity_other
    split: if_splits option.splits)

section \<open>No panic\<close>

definition list_check_safe :: "lib \<Rightarrow> processorImp \<Rightarrow> attrs \<Rightarrow> bool" where
  "list_check_safe L p a = (IncludeProcessList (config p) = [] \<or>
     length (to_lower L (processCommand a)) \<le> length (processCommand a))"

lemma isProcessInIncludeList_returns:
  "list_check_safe L p a \<Longrightarrow> returns (isProcessInIncludeList L a (IncludeProcessList (config p)))"
  using extractProcessExecutablePath_returns [of L a]
  by (cases "extractProcessExecutablePath L a") (auto simp: isProcessInIncludeList_def list_check_safe_def)

lemma upsert_returns:
  "trackedEntities p \<noteq> None \<Longrightarrow> \<exists>p'. upsertTrackedEntityForIncludeList L E i vs a p = Inr p' \<and>
     trackedEntities p' \<noteq> None"
  by (auto simp: upsertTrackedEntityForIncludeList_def Let_def split: option.splits prod.splits)

lemma evaluateNewEntity_returns:
  "trackedEntities p \<noteq> None \<Longrightarrow> \<exists>ok a' p'. evaluateNewEntity L E i vs a p = Inr (ok, a', p') \<and>
     trackedEntities p' \<noteq> None"
  by (auto simp: evaluateNewEntity_eq storeEntity_def Let_def split: option.splits)

lemma evaluateExistingEntity_returns:
  "\<exists>ok a' p'. evaluateExistingEntity L E i te vs a p = (ok, a', p') \<and> trackedEntities p' \<noteq> None"
  by (auto simp: evaluateExistingEntity_eq Let_def split: prod.splits)

lemma processCommand_evaluated [simp]: "processCommand (evaluated_attrs L E p rm) = processCommand (Resource rm)"
  by (simp add: processCommand_def evaluated_attrs_other)

lemma list_check_safe_evaluated [simp]:
  "list_check_safe L p (evaluated_attrs L E p rm) = list_check_safe L p (Resource rm)"
  by (simp add: list_check_safe_def)

lemma shouldIncludeResource_returns:
  assumes "trackedEntities p \<noteq> None" "list_check_safe L p (Resource rm)"
  shows "\<exists>ok a' p'. shouldIncludeResource L E rm p = Inr (ok, a', p') \<and> trackedEntities p' \<noteq> None"
proof -
  obtain b where b: "isProcessInIncludeList L (evaluated_attrs L E p rm) (IncludeProcessList (config p)) = Inr b"
    using isProcessInIncludeList_returns [of L p "evaluated_attrs L E p rm"] assms(2)
    by (auto simp: returns_iff)
  show ?thesis
    using assms(1) upsert_returns [OF assms(1)] evaluateNewEntity_returns [OF assms(1)]
      evaluateExistingEntity_returns
    unfolding shouldIncludeResource_eq Let_def
    by (cases "targeted p (values_of L p rm)"; cases "isZombieProcess (Resource rm)"; cases b;
        cases "lookup (trackedEntities p) (id_of L rm)") (simp_all add: b, (metis andThen_simps(2))+)
qed

section \<open>The specification of the decision\<close>

text \<open>
  The abstract decision: the name of the first condition that keeps the resource, \<open>None\<close> to
  drop it. It has no state, no order of evaluation inside a stage and no effect.
\<close>

definition thresholdStage :: "processorImp \<Rightarrow> string" where
  "thresholdStage p = (if dynamicThresholdsEnabled p then stageDynamicThreshold else stageStaticThreshold)"

definition decide_known :: "env \<Rightarrow> processorImp \<Rightarrow> valmap \<Rightarrow> trackedEntity \<Rightarrow> string option" where
  "decide_known E p values te =
     (if spikes p values te then Some stageAnomalyDetection
      else if exceeds p values then Some (thresholdStage p)
      else if scores p values then Some stageMultiMetric
      else if fst (checkAnomalyRetention E p [] te) then Some stageAnomalyRetention
      else if fst (checkStandardRetention E p [] te) then Some stageStandardRetention
      else None)"

definition decide_new :: "env \<Rightarrow> processorImp \<Rightarrow> valmap \<Rightarrow> string option" where
  "decide_new E p values =
     (if exceeds p values then Some (thresholdStage p)
      else if scores p values then Some stageMultiMetric
      else if DebugShowAllFilterStages (config p) then Some (debugReason E p values)
      else None)"

definition decide :: "lib \<Rightarrow> env \<Rightarrow> resource_metrics \<Rightarrow> processorImp \<Rightarrow> string option" where
  "decide L E rm p =
     (let vs = values_of L p rm
      in if \<not> targeted p vs then Some stageDefaultInclusion
         else if isZombieProcess (Resource rm) then Some stageZombieProcess
         else if listed L E p rm then Some stageIncludeList
         else case lookup (trackedEntities p) (id_of L rm) of
           Some te \<Rightarrow> decide_known E p vs te
         | None \<Rightarrow> decide_new E p vs)"

lemma kept_decide: "kept L E rm p \<longleftrightarrow> decide L E rm p \<noteq> None"
  by (simp add: kept_def decide_def decide_known_def decide_new_def retained_def Let_def
    split: option.split)

section \<open>The attributes after a decision\<close>

definition stage_attr :: "attrs \<Rightarrow> string option \<Rightarrow> attrs \<Rightarrow> bool" where
  "stage_attr a0 s a \<longleftrightarrow>
     (\<forall>k. k \<noteq> ''process.atp'' \<longrightarrow> attr_get a k =
        (if k = internalFilterStageAttributeKey \<and> s \<noteq> None then Some (VStr (the s)) else attr_get a0 k))"

lemma stage_key_ne [simp]: "internalFilterStageAttributeKey \<noteq> ''process.atp''"
  "''process.atp'' \<noteq> internalFilterStageAttributeKey"
  by (simp_all add: internalFilterStageAttributeKey_def)

lemma stage_attr_set: "stage_attr a0 None a \<Longrightarrow> stage_attr a0 (Some s) (setResourceFilterStage s a)"
  by (simp add: stage_attr_def setResourceFilterStage_def)

lemma stage_attr_evaluated: "stage_attr (Resource rm) None (evaluated_attrs L E p rm)"
  by (simp add: stage_attr_def evaluated_attrs_other)

lemma stage_attr_multi:
  "stage_attr a0 None a \<Longrightarrow> stage_attr a0 None (if b then addMultiMetricData L p vs a else a)"
  by (simp add: stage_attr_def addMultiMetricData_other)

lemma existingStages_attrs:
  assumes "gomap_ok vs" "stage_attr a0 None a"
  shows "stage_attr a0 (decide_known E p vs te) (fst (snd (existingStages L E vs a p te)))"
proof -
  let ?a = "if multiMetricEnabled p then addMultiMetricData L p vs a else a"
  let ?r = "checkAnomalyDetectionStage E p vs ?a te"
  have a: "stage_attr a0 None ?a" using assms(2) by (rule stage_attr_multi)
  note set = stage_attr_set [OF a]
  have frame: "LastAnomalyDetected (snd (detectAnomaly E p vs te)) = LastAnomalyDetected te"
    "LastExceeded (snd (detectAnomaly E p vs te)) = LastExceeded te" if "\<not> spikes p vs te"
    using that detectAnomaly_verdict [OF assms(1), of E p te] by (auto simp: spikes_def detectAnomaly_frame)
  have ret: "fst (checkAnomalyRetention E p b (snd (detectAnomaly E p vs te))) = fst (checkAnomalyRetention E p [] te)"
    "fst (checkStandardRetention E p b (snd (detectAnomaly E p vs te))) = fst (checkStandardRetention E p [] te)"
    if "\<not> spikes p vs te" for b
    using frame [OF that] by (simp_all add: checkAnomalyRetention_def checkStandardRetention_def)
  have att: "fst (snd (checkAnomalyRetention E p b u)) =
      (if fst (checkAnomalyRetention E p b u) then setResourceFilterStage stageAnomalyRetention b else b)"
    "fst (snd (checkStandardRetention E p b u)) =
      (if fst (checkStandardRetention E p b u) then setResourceFilterStage stageStandardRetention b else b)"
    for b u
    by (auto simp: checkAnomalyRetention_def checkStandardRetention_def)
  consider "spikes p vs te" | "\<not> spikes p vs te" "exceeds p vs"
    | "\<not> spikes p vs te" "\<not> exceeds p vs" "scores p vs"
    | "\<not> spikes p vs te" "\<not> exceeds p vs" "\<not> scores p vs" by blast
  then show ?thesis
  proof cases
    case 1
    then show ?thesis using set
      by (simp add: existingStages_def checkAnomalyDetectionStage_eq [OF assms(1)] orElse_hit decide_known_def)
  next
    case 2
    then have "fst (snd (existingStages L E vs a p te)) = setResourceFilterStage (thresholdStage p) ?a"
      by (simp add: existingStages_def checkAnomalyDetectionStage_eq [OF assms(1)] orElse_fail orElse_hit
        checkThresholdStages_eq)
        (simp add: checkThresholdStages_def checkDynamicThresholds_def checkStaticThresholds_def
          exceeds_def thresholdStage_def split: if_splits)
    with 2 show ?thesis using set by (simp add: decide_known_def)
  next
    case 3
    then have "fst (snd (existingStages L E vs a p te)) = setResourceFilterStage stageMultiMetric ?a"
      by (simp add: existingStages_def checkAnomalyDetectionStage_eq [OF assms(1)] orElse_fail orElse_hit
        checkThresholdStages_eq checkMultiMetricStage_eq)
        (simp add: checkMultiMetricStage_def scores_def)
    with 3 show ?thesis using set by (simp add: decide_known_def)
  next
    case 4
    then have "existingStages L E vs a p te = checkRetentionStages E p ?a (snd (detectAnomaly E p vs te))"
      by (simp add: existingStages_def checkAnomalyDetectionStage_eq [OF assms(1)] orElse_fail
        checkThresholdStages_eq checkMultiMetricStage_eq)
    with 4 show ?thesis using set a
      by (cases "fst (checkAnomalyRetention E p [] te)"; cases "fst (checkStandardRetention E p [] te)")
        (simp_all add: checkRetentionStages_def decide_known_def orElse_hit orElse_fail att ret
          retention_entity)
  qed
qed

lemma newStages_attrs:
  assumes "gomap_ok vs" "\<not> spikes p vs te" "stage_attr a0 None a"
  shows "stage_attr a0 None (fst (snd (checkNewEntityFilterStages L E p vs a te)))"
    "fst (checkNewEntityFilterStages L E p vs a te) =
       (if exceeds p vs then Some (thresholdStage p) else if scores p vs then Some stageMultiMetric else None)"
proof -
  have v: "fst (checkNewEntityAnomaly E p vs te) = None"
    using assms(2) detectAnomaly_verdict [OF assms(1), of E p te]
    by (auto simp: checkNewEntityAnomaly_def spikes_def split: prod.split bool.split)
  have "checkNewEntityThresholds E p vs = (if exceeds p vs then Some (thresholdStage p) else None)"
    "checkNewEntityMultiMetric p vs = (if scores p vs then Some stageMultiMetric else None)"
    by (simp_all add: checkNewEntityThresholds_def exceeds_def thresholdStage_def
      checkNewEntityMultiMetric_def scores_def)
  with v show "stage_attr a0 None (fst (snd (checkNewEntityFilterStages L E p vs a te)))"
    "fst (checkNewEntityFilterStages L E p vs a te) =
       (if exceeds p vs then Some (thresholdStage p) else if scores p vs then Some stageMultiMetric else None)"
    using stage_attr_multi [OF assms(3)]
    by (cases "checkNewEntityAnomaly E p vs te"; simp add: checkNewEntityFilterStages_def Let_def)+
qed

lemma debugReason_cong:
  assumes "same_settings p q"
  shows "debugReason E p vs = debugReason E q vs"
proof -
  have 1: "dynamic_of p = dynamic_of q" "threshold_of p = threshold_of q" "weight_of p = weight_of q"
    using assms by (auto simp: same_settings_def dynamic_of_def threshold_of_def weight_of_def)
  have 2: "compositeThresholdOf p = compositeThresholdOf q"
    using assms by (intro ext) (simp only: compositeThresholdOf_def 1 same_settings_def)
  have 3: "compositeLoop p = compositeLoop q"
    using compositeLoop_cong [OF fun_cong [OF 2] 1(3) refl] by (intro ext) blast
  have 4: "config q = config p" using assms by (simp add: same_settings_def)
  have "compositeScore p vs = compositeScore q vs"
    by (simp only: compositeScore_def calculateCompositeGeneric_def 3 4)
  then show ?thesis using assms 1
    by (simp only: debugReason_def same_settings_def compositeLimit_def)
qed

text \<open>The code implements the specification, and touches only two attributes.\<close>

lemma shouldIncludeResource_refines:
  assumes "2 \<le> minDataPoints p" "shouldIncludeResource L E rm p = Inr (ok, a', p')"
  shows "(ok \<longleftrightarrow> decide L E rm p \<noteq> None) \<and> stage_attr (Resource rm) (decide L E rm p) a'"
proof -
  let ?vs = "values_of L p rm" and ?a = "evaluated_attrs L E p rm" and ?i = "id_of L rm"
  have vs: "gomap_ok ?vs" by simp
  note a0 = stage_attr_evaluated [of rm L E p]
  have "ok \<longleftrightarrow> decide L E rm p \<noteq> None"
    using shouldIncludeResource_verdict [OF assms] kept_decide by blast
  moreover consider "\<not> targeted p ?vs" | "targeted p ?vs" "isZombieProcess (Resource rm)"
    | "targeted p ?vs" "\<not> isZombieProcess (Resource rm)" "listed L E p rm"
    | te where "targeted p ?vs" "\<not> isZombieProcess (Resource rm)" "\<not> listed L E p rm"
        "lookup (trackedEntities p) ?i = Some te"
        "evaluateExistingEntity L E ?i te ?vs ?a p = (ok, a', p')"
    | "targeted p ?vs" "\<not> isZombieProcess (Resource rm)" "\<not> listed L E p rm"
        "lookup (trackedEntities p) ?i = None"
        "evaluateNewEntity L E ?i ?vs ?a p = Inr (ok, a', p')"
    using assms(2) unfolding shouldIncludeResource_eq listed_def
    by (auto simp: Let_def andThen_Inr_iff split: if_splits option.splits)
  then have "stage_attr (Resource rm) (decide L E rm p) a'"
  proof cases
    case (4 te)
    obtain te1 h where u: "updateEntityValues E ?vs (te, values_store p) = (te1, h)"
      by (cases "updateEntityValues E ?vs (te, values_store p)")
    from updateEntityValues_frame [OF u] have "decide_known E p ?vs te1 = decide_known E p ?vs te"
      using spikes_cong [of te1 te p ?vs]
      by (simp add: decide_known_def checkAnomalyRetention_def checkStandardRetention_def)
    with 4 u show ?thesis using existingStages_attrs [OF vs a0, of E p te1 L]
      by (auto simp: evaluateExistingEntity_eq decide_def Let_def)
  next
    case 5
    let ?te = "fst (createNewTrackedEntity L E p ?i ?vs ?a)"
    have spike: "\<not> spikes p ?vs ?te" using vs assms(1) by (rule new_entity_no_spike)
    note new = newStages_attrs [OF vs spike a0, of L E]
    have d: "debugReason E p2 ?vs = debugReason E p ?vs" if "storeEntity i te (p\<lparr>values_store := h\<rparr>) = Inr p2"
      for i te h p2
      using that by (intro debugReason_cong) (auto simp: storeEntity_def same_settings_def split: option.splits)
    from 5 new show ?thesis
      by (auto simp: evaluateNewEntity_eq decide_def decide_new_def Let_def andThen_Inr_iff d
        intro: stage_attr_set split: if_splits option.splits)
  qed (use assms(2) stage_attr_set [OF a0] in
      \<open>auto simp: shouldIncludeResource_eq decide_def listed_def Let_def andThen_Inr_iff\<close>)
  ultimately show ?thesis by blast
qed

section \<open>What an evaluation writes\<close>

text \<open>
  The footprint of one evaluation: in the table only the entry \<open>i\<close>, in the store only the maps of
  that entity and freshly allocated ones. \<open>tracks p\<close> says that the table exists.
\<close>

definition addrs :: "trackedEntity \<Rightarrow> addr set" where
  "addrs te = set_option (CurrentValues te) \<union> set_option (MaxValues te)"

definition entity_addrs :: "processorImp \<Rightarrow> string \<Rightarrow> addr set" where
  "entity_addrs p i = (case lookup (trackedEntities p) i of Some te \<Rightarrow> addrs te | None \<Rightarrow> {})"

definition fresh_of :: "vstore \<Rightarrow> vstore \<Rightarrow> addr set" where
  "fresh_of h h' = {a. next_addr h \<le> a \<and> a < next_addr h'}"

definition footprint :: "string \<Rightarrow> processorImp \<Rightarrow> processorImp \<Rightarrow> bool" where
  "footprint i p p' \<longleftrightarrow>
     (gomap_ok (entries (trackedEntities p)) \<longrightarrow> gomap_ok (entries (trackedEntities p'))) \<and>
     next_addr (values_store p) \<le> next_addr (values_store p') \<and>
     (\<forall>j. j \<noteq> i \<longrightarrow> lookup (trackedEntities p') j = lookup (trackedEntities p) j) \<and>
     entity_addrs p' i \<subseteq> entity_addrs p i \<union> fresh_of (values_store p) (values_store p') \<and>
     (\<forall>a. a < next_addr (values_store p) \<longrightarrow> a \<notin> entity_addrs p i \<longrightarrow>
        cells (values_store p') a = cells (values_store p) a)"

lemma footprint_refl [simp]: "footprint i p p"
  by (simp add: footprint_def)

lemma updateEntityValues_footprint:
  assumes "updateEntityValues E vs (te, h) = (te', h')"
  shows "next_addr h \<le> next_addr h'" "addrs te' \<subseteq> addrs te \<union> fresh_of h h'"
    "a < next_addr h \<Longrightarrow> a \<notin> addrs te \<Longrightarrow> cells h' a = cells h a"
  using assms
  by (cases "CurrentValues te"; cases "MaxValues te";
      force simp: updateEntityValues_def ensureMap_def addrs_def fresh_of_def alloc_def
        updateValue_fold_frame)+

lemma footprint_intro:
  assumes "trackedEntities p' = Some (AList.update i te' (entries (trackedEntities p)))"
    and "next_addr (values_store p) \<le> next_addr (values_store p')"
    and "addrs te' \<subseteq> entity_addrs p i \<union> fresh_of (values_store p) (values_store p')"
    and "\<And>a. a < next_addr (values_store p) \<Longrightarrow> a \<notin> entity_addrs p i \<Longrightarrow>
       cells (values_store p') a = cells (values_store p) a"
  shows "footprint i p p'"
  using assms by (simp add: footprint_def entity_addrs_def lookup_def)

lemma createNew_eq:
  "snd (createNewTrackedEntity L E p i vs a) = snd (alloc vs (values_store p))"
  "addrs (fst (createNewTrackedEntity L E p i vs a)) = {next_addr (values_store p)}"
  by (simp_all add: createNewTrackedEntity_def alloc_def addrs_def)

lemma checkNewEntityFilterStages_entity:
  "CurrentValues (snd (snd (checkNewEntityFilterStages L E p vs a te))) = CurrentValues te"
  "MaxValues (snd (snd (checkNewEntityFilterStages L E p vs a te))) = MaxValues te"
  "history_of (snd (snd (checkNewEntityFilterStages L E p vs a te))) = history_of (snd (detectAnomaly E p vs te))"
proof -
  have d: "snd (checkNewEntityAnomaly E p vs te) = snd (detectAnomaly E p vs te)"
    by (auto simp: checkNewEntityAnomaly_def detectAnomaly_off split: prod.split bool.split)
  have e: "\<exists>t. snd (snd (checkNewEntityFilterStages L E p vs a te)) = snd (detectAnomaly E p vs te) \<or>
      snd (snd (checkNewEntityFilterStages L E p vs a te)) = (snd (detectAnomaly E p vs te))\<lparr>LastExceeded := t\<rparr>"
    using d by (cases "checkNewEntityAnomaly E p vs te")
      (auto simp: checkNewEntityFilterStages_def Let_def split: option.split)
  from e show "CurrentValues (snd (snd (checkNewEntityFilterStages L E p vs a te))) = CurrentValues te"
    "MaxValues (snd (snd (checkNewEntityFilterStages L E p vs a te))) = MaxValues te"
    "history_of (snd (snd (checkNewEntityFilterStages L E p vs a te))) = history_of (snd (detectAnomaly E p vs te))"
    by (auto simp: detectAnomaly_frame)
qed

lemma existingStages_entity:
  "\<exists>t. snd (snd (existingStages L E vs a p te)) =
     (snd (detectAnomaly E p vs te))\<lparr>LastExceeded := t\<rparr> \<or>
     snd (snd (existingStages L E vs a p te)) = snd (detectAnomaly E p vs te)"
proof -
  have 1: "snd (snd (checkAnomalyDetectionStage E p vs b te)) = snd (detectAnomaly E p vs te)" for b
    by (auto simp: checkAnomalyDetectionStage_def detectAnomaly_off split: prod.split bool.split)
  have 2: "snd (snd (checkThresholdStages E p vs b u)) = u \<or>
      (\<exists>t. snd (snd (checkThresholdStages E p vs b u)) = u\<lparr>LastExceeded := t\<rparr>)" for b u
    by (simp add: checkThresholdStages_def checkDynamicThresholds_def checkStaticThresholds_def) blast
  have 3: "snd (snd (checkMultiMetricStage E p vs b u)) = u \<or>
      (\<exists>t. snd (snd (checkMultiMetricStage E p vs b u)) = u\<lparr>LastExceeded := t\<rparr>)" for b u
    by (simp add: checkMultiMetricStage_def) blast
  have 4: "snd (snd (checkRetentionStages E p b u)) = u" for b u
    by (cases "fst (checkAnomalyRetention E p b u)")
      (simp_all add: checkRetentionStages_def orElse_hit orElse_fail retention_entity)
  show ?thesis
    unfolding existingStages_def
    by (cases "fst (checkAnomalyDetectionStage E p vs (if multiMetricEnabled p then addMultiMetricData L p vs a else a) te)";
        cases "exceeds p vs"; cases "scores p vs")
      (simp_all add: orElse_hit orElse_fail checkThresholdStages_eq checkMultiMetricStage_eq 1 4;
        metis 1 2 3)+
qed

lemma entity_update_addrs [simp]: "addrs (te\<lparr>LastExceeded := t\<rparr>) = addrs te"
  by (simp add: addrs_def)

lemma detectAnomaly_addrs [simp]: "addrs (snd (detectAnomaly E p vs te)) = addrs te"
  by (simp add: addrs_def detectAnomaly_frame)

text \<open>How the entry of the evaluated resource comes about.\<close>

definition entity_after :: "env \<Rightarrow> valmap \<Rightarrow> processorImp \<Rightarrow> string \<Rightarrow> processorImp \<Rightarrow> bool" where
  "entity_after E vs p i p' \<longleftrightarrow>
     (\<exists>te te1 te'. lookup (trackedEntities p) i = Some te \<and>
        updateEntityValues E vs (te, values_store p) = (te1, values_store p') \<and>
        trackedEntities p' = Some (AList.update i te' (entries (trackedEntities p))) \<and>
        addrs te' = addrs te1 \<and> CurrentValues te' = CurrentValues te1 \<and> MaxValues te' = MaxValues te1 \<and>
        (history_of te' = history_of te \<or> history_of te' = history_of (snd (detectAnomaly E p vs te1)))) \<or>
     (lookup (trackedEntities p) i = None \<and> values_store p' = snd (alloc vs (values_store p)) \<and>
        (trackedEntities p' = trackedEntities p \<or>
         (\<exists>te'. trackedEntities p' = Some (AList.update i te' (entries (trackedEntities p))) \<and>
            CurrentValues te' = Some (next_addr (values_store p)) \<and>
            MaxValues te' = Some (next_addr (values_store p)) \<and>
            ((\<forall>n. history_of te' n = []) \<or> (\<exists>te0. (\<forall>n. length (history_of te0 n) \<le> 1) \<and>
               history_of te' = history_of (snd (detectAnomaly E p vs te0))))))) \<or>
     (values_store p' = values_store p \<and> trackedEntities p' = trackedEntities p)"

lemma shouldIncludeResource_entity:
  assumes "shouldIncludeResource L E rm p = Inr (ok, a', p')"
  shows "entity_after E (values_of L p rm) p (id_of L rm) p'"
proof -
  let ?vs = "values_of L p rm" and ?a = "evaluated_attrs L E p rm" and ?i = "id_of L rm"
  have up: "entity_after E ?vs p ?i p'" if "upsertTrackedEntityForIncludeList L E ?i ?vs a p = Inr p'" for a
  proof (cases "lookup (trackedEntities p) ?i")
    case (Some te)
    then show ?thesis
      using that updateEntityValues_frame(6)
      by (fastforce simp: upsertTrackedEntityForIncludeList_def entity_after_def addrs_def Let_def
        split: prod.splits)
  next
    case None
    then show ?thesis
      using that by (auto simp: upsertTrackedEntityForIncludeList_def entity_after_def Let_def
        alloc_def history_of_def split: option.splits prod.splits)
  qed
  have ex: "entity_after E ?vs p ?i p'"
    if "lookup (trackedEntities p) ?i = Some te" "evaluateExistingEntity L E ?i te ?vs ?a p = (ok, a', p')" for te
  proof -
    obtain te1 h where u: "updateEntityValues E ?vs (te, values_store p) = (te1, h)"
      by (cases "updateEntityValues E ?vs (te, values_store p)")
    obtain t where t: "snd (snd (existingStages L E ?vs ?a p te1)) = (snd (detectAnomaly E p ?vs te1))\<lparr>LastExceeded := t\<rparr> \<or>
        snd (snd (existingStages L E ?vs ?a p te1)) = snd (detectAnomaly E p ?vs te1)"
      using existingStages_entity by blast
    show ?thesis
      using that u t unfolding entity_after_def evaluateExistingEntity_eq Let_def
      by (intro disjI1 exI [of _ te] exI [of _ te1] exI [of _ "snd (snd (existingStages L E ?vs ?a p te1))"])
        (auto simp: detectAnomaly_frame addrs_def)
  qed
  have new: "entity_after E ?vs p ?i p'"
    if l: "lookup (trackedEntities p) ?i = None" and "evaluateNewEntity L E ?i ?vs ?a p = Inr (ok, a', p')"
  proof -
    let ?c = "createNewTrackedEntity L E p ?i ?vs ?a"
    let ?r = "checkNewEntityFilterStages L E p ?vs ?a (fst ?c)"
    have h: "\<forall>n. length (history_of (fst ?c) n) \<le> 1" using new_entity_history by simp
    have c: "CurrentValues (fst ?c) = Some (next_addr (values_store p))"
      "MaxValues (fst ?c) = Some (next_addr (values_store p))"
      by (simp_all add: createNewTrackedEntity_def alloc_def)
    from that(2) have "values_store p' = snd ?c \<and> (trackedEntities p' = trackedEntities p \<or>
        trackedEntities p' = Some (AList.update ?i (snd (snd ?r)) (entries (trackedEntities p))))"
      by (auto simp: evaluateNewEntity_eq storeEntity_def Let_def andThen_Inr_iff split: option.splits if_splits)
    then have st: "values_store p' = snd (alloc ?vs (values_store p))"
      and t: "trackedEntities p' = trackedEntities p \<or>
        trackedEntities p' = Some (AList.update ?i (snd (snd ?r)) (entries (trackedEntities p)))"
      by (simp_all add: createNew_eq(1))
    have "\<exists>te0. (\<forall>n. length (history_of te0 n) \<le> 1) \<and>
        history_of (snd (snd ?r)) = history_of (snd (detectAnomaly E p ?vs te0))"
      using h checkNewEntityFilterStages_entity(3) by blast
    moreover have "CurrentValues (snd (snd ?r)) = Some (next_addr (values_store p))"
      "MaxValues (snd (snd ?r)) = Some (next_addr (values_store p))"
      by (simp_all add: checkNewEntityFilterStages_entity c)
    ultimately show ?thesis
      using l st t unfolding entity_after_def
      by (intro disjI2 [OF disjI1] conjI) (simp_all, blast)
  qed
  show ?thesis
    using assms up ex new unfolding shouldIncludeResource_eq
    by (auto simp: Let_def andThen_Inr_iff entity_after_def split: if_splits option.splits)
qed

lemma entity_after_cases:
  assumes "entity_after E vs p i p'"
  obtains (known) te te1 te' where "lookup (trackedEntities p) i = Some te"
      "updateEntityValues E vs (te, values_store p) = (te1, values_store p')"
      "trackedEntities p' = Some (AList.update i te' (entries (trackedEntities p)))"
      "addrs te' = addrs te1" "CurrentValues te' = CurrentValues te1" "MaxValues te' = MaxValues te1"
      "history_of te' = history_of te \<or> history_of te' = history_of (snd (detectAnomaly E p vs te1))"
  | (created) te' where "values_store p' = snd (alloc vs (values_store p))"
      "trackedEntities p' = Some (AList.update i te' (entries (trackedEntities p)))"
      "CurrentValues te' = Some (next_addr (values_store p))"
      "MaxValues te' = Some (next_addr (values_store p))"
      "(\<forall>n. history_of te' n = []) \<or> (\<exists>te0. (\<forall>n. length (history_of te0 n) \<le> 1) \<and>
         history_of te' = history_of (snd (detectAnomaly E p vs te0)))"
  | (unchanged) "trackedEntities p' = trackedEntities p"
      "values_store p' = values_store p \<or> values_store p' = snd (alloc vs (values_store p))"
  using assms unfolding entity_after_def by blast

text \<open>The footprint follows, for any evaluation.\<close>

lemma entity_after_footprint:
  assumes "entity_after E vs p i p'"
  shows "footprint i p p'"
  using assms
proof (cases rule: entity_after_cases)
  case (known te te1 te')
  from known(1) have "entity_addrs p i = addrs te" by (simp add: entity_addrs_def)
  then show ?thesis
    using updateEntityValues_footprint [OF known(2)] known(4) by (intro footprint_intro [OF known(3)]) auto
next
  case (created te')
  then show ?thesis by (intro footprint_intro [OF created(2)]) (auto simp: addrs_def fresh_of_def)
next
  case unchanged
  then show ?thesis by (auto simp: footprint_def entity_addrs_def)
qed

section \<open>The invariant of the table\<close>

text \<open>
  The table exists and is a map, every address is allocated, and no two entities share a map.
\<close>

definition table_inv :: "processorImp \<Rightarrow> bool" where
  "table_inv p \<longleftrightarrow> trackedEntities p \<noteq> None \<and> gomap_ok (entries (trackedEntities p)) \<and>
     (\<forall>i. \<forall>a \<in> entity_addrs p i. a < next_addr (values_store p)) \<and>
     (\<forall>i j. i \<noteq> j \<longrightarrow> entity_addrs p i \<inter> entity_addrs p j = {})"

lemma footprint_addrs: "footprint i p p' \<Longrightarrow> j \<noteq> i \<Longrightarrow> entity_addrs p' j = entity_addrs p j"
  by (simp add: footprint_def entity_addrs_def)

lemma footprint_table_inv:
  assumes "table_inv p" "footprint i p p'" "trackedEntities p' \<noteq> None"
  shows "table_inv p'"
proof -
  have fp: "entity_addrs p' i \<subseteq> entity_addrs p i \<union> fresh_of (values_store p) (values_store p')"
    "next_addr (values_store p) \<le> next_addr (values_store p')"
    using assms(2) by (auto simp: footprint_def)
  have "a < next_addr (values_store p')" if "a \<in> entity_addrs p' j" for a j
    using that fp assms(1) footprint_addrs [OF assms(2), of j]
    by (cases "j = i") (fastforce simp: table_inv_def fresh_of_def)+
  moreover have "entity_addrs p' i \<inter> entity_addrs p' j = {}" if "j \<noteq> i" for j
    using that fp assms(1) footprint_addrs [OF assms(2) that]
    by (fastforce simp: table_inv_def fresh_of_def)
  moreover have "entity_addrs p' j \<inter> entity_addrs p' k = {}" if "j \<noteq> i" "k \<noteq> i" "j \<noteq> k" for j k
    using that assms(1) footprint_addrs [OF assms(2)] by (simp add: table_inv_def)
  ultimately show ?thesis
    using assms unfolding table_inv_def footprint_def by (metis Int_commute)
qed

text \<open>The values of the other entities stay as they are.\<close>

lemma footprint_values:
  assumes "table_inv p" "footprint i p p'" "j \<noteq> i" "lookup (trackedEntities p) j = Some te"
  shows "lookup (trackedEntities p') j = Some te"
    "value_of (values_store p') (CurrentValues te) n = value_of (values_store p) (CurrentValues te) n"
    "value_of (values_store p') (MaxValues te) n = value_of (values_store p) (MaxValues te) n"
proof -
  have j: "entity_addrs p j = addrs te" using assms(4) by (simp add: entity_addrs_def)
  have "cells (values_store p') a = cells (values_store p) a" if "a \<in> addrs te" for a
    using that assms(1-3) j unfolding table_inv_def footprint_def by blast
  then show "value_of (values_store p') (CurrentValues te) n = value_of (values_store p) (CurrentValues te) n"
    "value_of (values_store p') (MaxValues te) n = value_of (values_store p) (MaxValues te) n"
    by (auto simp: value_of_def addrs_def split: option.split)
  show "lookup (trackedEntities p') j = Some te" using assms(2-4) by (simp add: footprint_def)
qed

section \<open>Aliasing and histories\<close>

text \<open>Created by this process: both fields hold one map.\<close>

definition aliased :: "trackedEntity \<Rightarrow> bool" where
  "aliased te = (CurrentValues te \<noteq> None \<and> MaxValues te = CurrentValues te)"

definition all_entities :: "(trackedEntity \<Rightarrow> bool) \<Rightarrow> processorImp \<Rightarrow> bool" where
  "all_entities P p = (\<forall>i te. lookup (trackedEntities p) i = Some te \<longrightarrow> P te)"

lemma entity_after_all:
  assumes "entity_after E vs p i p'" "all_entities P p"
    and "\<And>te. lookup (trackedEntities p') i = Some te \<Longrightarrow> P te"
  shows "all_entities P p'"
  using assms entity_after_footprint [OF assms(1)] unfolding all_entities_def footprint_def by metis

lemma aliased_update: "aliased te \<Longrightarrow> updateEntityValues E vs (te, h) = (te', h') \<Longrightarrow> te' = te"
  by (auto simp: aliased_def updateEntityValues_def ensureMap_def Let_def)

lemma entity_after_aliased:
  assumes "entity_after E vs p i p'" "all_entities aliased p"
  shows "all_entities aliased p'"
proof (rule entity_after_all [OF assms])
  fix te assume l: "lookup (trackedEntities p') i = Some te"
  from assms(1) show "aliased te"
  proof (cases rule: entity_after_cases)
    case (known u u1 u')
    then have "aliased u" using assms(2) by (simp add: all_entities_def)
    with known(2) have "u1 = u" using aliased_update by blast
    with known l \<open>aliased u\<close> show ?thesis by (simp add: aliased_def)
  next
    case (created u')
    with l show ?thesis by (simp add: aliased_def)
  next
    case unchanged
    with l show ?thesis using assms(2) by (simp add: all_entities_def)
  qed
qed

lemma entity_after_bounded:
  assumes "entity_after E vs p i p'" "all_entities (histories_bounded (fst (getAnomalyConfig p))) p"
  shows "all_entities (histories_bounded (fst (getAnomalyConfig p))) p'"
proof (rule entity_after_all [OF assms])
  let ?n = "fst (getAnomalyConfig p)"
  have one: "histories_bounded ?n te" if "\<forall>n. length (history_of te n) \<le> 1" for te
    unfolding histories_bounded_def
  proof
    fix m
    have "length (history_of te m) \<le> 1" using that by blast
    then show "int (length (history_of te m)) \<le> ?n" using historySize_pos [of p] by linarith
  qed
  have cong: "histories_bounded ?n te = histories_bounded ?n te'" if "history_of te = history_of te'" for te te'
    using that by (simp add: histories_bounded_def)
  fix te' assume l: "lookup (trackedEntities p') i = Some te'"
  from assms(1) show "histories_bounded ?n te'"
  proof (cases rule: entity_after_cases)
    case (known te te1 u)
    then have te: "histories_bounded ?n te" "u = te'" using assms(2) l by (simp_all add: all_entities_def)
    moreover have "history_of te1 = history_of te" using updateEntityValues_frame(6) [OF known(2)] .
    ultimately show ?thesis using known(7) cong detectAnomaly_bounded [of p te1 E vs] by metis
  next
    case (created u)
    then have "u = te'" using l by simp
    with created(5) show ?thesis
      using one cong detectAnomaly_bounded [of p _ E vs] by (metis le_zero_eq list.size(3) zero_le_one)
  next
    case unchanged
    with l show ?thesis using assms(2) by (simp add: all_entities_def)
  qed
qed

section \<open>Retention as a window of time\<close>

lemma anomaly_retention_iff:
  assumes "1 \<le> RetentionMinutes (config p)" "RetentionMinutes (config p) \<le> 30"
  shows "fst (checkAnomalyRetention E p attrs te) \<longleftrightarrow>
     EnableAnomalyDetection (config p) \<and> LastAnomalyDetected te \<noteq> 0 \<and>
     now E AnomalyRetentionNow - LastAnomalyDetected te < RetentionMinutes (config p) * minute"
proof -
  have 64: "is_int64 (RetentionMinutes (config p) * minute)" "RetentionMinutes (config p) * minute \<noteq> - (2 ^ 63)"
    using assms by (simp_all add: is_int64_def minute_def)
  have "flt (dur_minutes (time_sub (now E AnomalyRetentionNow) (LastAnomalyDetected te)))
      (f64_of_int (RetentionMinutes (config p))) \<longleftrightarrow>
    time_sub (now E AnomalyRetentionNow) (LastAnomalyDetected te) < RetentionMinutes (config p) * minute"
    using assms by (intro dur_minutes_less_iff) simp_all
  then show ?thesis
    using assms 64 by (auto simp: checkAnomalyRetention_def anomalyRetentionMins_def time_sub_less_iff
      is_zero_time_def zero_time_def)
qed

lemma standard_retention_iff:
  assumes "1 \<le> RetentionMinutes (config p)" "RetentionMinutes (config p) \<le> 30"
  shows "fst (checkStandardRetention E p attrs te) \<longleftrightarrow>
     LastExceeded te \<noteq> 0 \<and> now E StandardRetentionNow - LastExceeded te < RetentionMinutes (config p) * minute"
proof -
  have 64: "is_int64 (RetentionMinutes (config p) * minute)" "RetentionMinutes (config p) * minute \<noteq> - (2 ^ 63)"
    using assms by (simp_all add: is_int64_def minute_def)
  then show ?thesis
    using assms by (auto simp: checkStandardRetention_def time_sub_less_iff is_zero_time_def zero_time_def)
qed

section \<open>Claims\<close>

text \<open>C2: the code implements the specification \<open>decide\<close>: a resource is included exactly when the
  specification names a stage, the stage attribute then holds that name and is otherwise what
  it was, and apart from it and \<open>process.atp\<close> every attribute is left as it came. The minimum
  of two data points is what \<open>Normalize\<close> guarantees.\<close>

theorem decision_refines:
  assumes "2 \<le> minDataPoints p" "shouldIncludeResource L E rm p = Inr (ok, a', p')"
  shows "(ok \<longleftrightarrow> decide L E rm p \<noteq> None) \<and> stage_attr (Resource rm) (decide L E rm p) a'"
  using assms by (rule shouldIncludeResource_refines)

definition sample_resource :: "f64 \<Rightarrow> resource_metrics" where
  "sample_resource v = \<lparr>Resource = [(''process.pid'', VInt 4)], ScopeMetrics =
     [\<lparr>Scope = 0, Metrics = [\<lparr>Name = ''m'', Data = Gauge [DoublePoint v 0]\<rparr>]\<rparr>]\<rparr>"

lemma sample_decisions:
  "2 \<le> minDataPoints (sample_processor sample_config)"
  "fst (projr (shouldIncludeResource plain_lib (sample_env 7) (sample_resource (Fin 6)) (sample_processor sample_config)))"
  "isl (shouldIncludeResource plain_lib (sample_env 7) (sample_resource (Fin 6)) (sample_processor sample_config)) = False"
  "decide plain_lib (sample_env 7) (sample_resource (Fin 6)) (sample_processor sample_config) = Some stageStaticThreshold"
  "decide plain_lib (sample_env 7) (sample_resource (Fin 4)) (sample_processor sample_config) = None"
  by code_simp+

theorem decision_refines_witness:
  "\<exists>a' p'. shouldIncludeResource plain_lib (sample_env 7) (sample_resource (Fin 6)) (sample_processor sample_config) =
       Inr (True, a', p') \<and> attr_get a' internalFilterStageAttributeKey = Some (VStr ''static_threshold'')"
proof -
  let ?r = "shouldIncludeResource plain_lib (sample_env 7) (sample_resource (Fin 6)) (sample_processor sample_config)"
  obtain ok a' p' where r: "?r = Inr (ok, a', p')"
    using sample_decisions(3) by (cases ?r) auto
  from decision_refines [OF sample_decisions(1) r] show ?thesis
    unfolding sample_decisions(4) by (auto simp: r stage_attr_def stageStaticThreshold_def)
qed

text \<open>No resource that exceeds a threshold is ever dropped: with static thresholds a metric at or
  above its configured value, or configured as zero, with dynamic ones a metric at or above the
  current dynamic value, makes every returning evaluation include the resource.\<close>

theorem exceeding_never_dropped:
  assumes "shouldIncludeResource L E rm p = Inr (ok, a', p')"
    and "(m, v) \<in> set (extractMetricValues L p rm)"
    and "if dynamicThresholdsEnabled p then exceedsDynamic p (m, v) else exceedsStatic p (m, v)"
    and "2 \<le> minDataPoints p"
  shows ok
proof -
  have "exceeds p (extractMetricValues L p rm)"
    using assms(2,3) by (auto simp: exceeds_def list_ex_iff split: if_splits)
  then have "kept L E rm p" by (simp add: kept_def Let_def)
  with shouldIncludeResource_verdict [OF assms(4,1)] show ok by simp
qed

theorem exceeding_never_dropped_witness:
  "\<exists>ok a' p'. shouldIncludeResource plain_lib (sample_env 7) (sample_resource (Fin 6)) (sample_processor sample_config) =
       Inr (ok, a', p') \<and> ok"
proof -
  let ?p = "sample_processor sample_config"
  let ?r = "shouldIncludeResource plain_lib (sample_env 7) (sample_resource (Fin 6)) ?p"
  obtain ok a' p' where r: "?r = Inr (ok, a', p')"
    using sample_decisions(3) by (cases ?r) auto
  have "extractMetricValues plain_lib ?p (sample_resource (Fin 6)) = [(''m'', Fin 6)]" by code_simp
  then have m: "(''m'', Fin 6) \<in> set (extractMetricValues plain_lib ?p (sample_resource (Fin 6)))" by simp
  have "if dynamicThresholdsEnabled ?p then exceedsDynamic ?p (''m'', Fin 6) else exceedsStatic ?p (''m'', Fin 6)"
    by code_simp
  from exceeding_never_dropped [OF r m this sample_decisions(1)] r show ?thesis by blast
qed

text \<open>C14: an evaluation is local: it changes no setting, no other entity and no value of another
  entity, and it keeps the invariant of the table (no two entities share a value map, every map
  is allocated).\<close>

theorem evaluation_local:
  assumes "table_inv p" "shouldIncludeResource L E rm p = Inr (ok, a', p')"
  shows "table_inv p' \<and> same_settings p p' \<and>
     (j \<noteq> id_of L rm \<and> lookup (trackedEntities p) j = Some te \<longrightarrow>
        lookup (trackedEntities p') j = Some te \<and>
        value_of (values_store p') (CurrentValues te) n = value_of (values_store p) (CurrentValues te) n \<and>
        value_of (values_store p') (MaxValues te) n = value_of (values_store p) (MaxValues te) n)"
proof -
  note f = entity_after_footprint [OF shouldIncludeResource_entity [OF assms(2)]]
  have "trackedEntities p' \<noteq> None"
    using shouldIncludeResource_entity [OF assms(2)] assms(1)
    by (cases rule: entity_after_cases) (auto simp: table_inv_def)
  then have "table_inv p'" using footprint_table_inv [OF assms(1) f] by blast
  moreover note shouldIncludeResource_settings [OF assms(2)]
  ultimately show ?thesis using footprint_values [OF assms(1) f] by blast
qed

theorem evaluation_local_witness:
  "\<exists>ok a' p'. shouldIncludeResource plain_lib (sample_env 7) (sample_resource (Fin 6)) (sample_processor sample_config) =
       Inr (ok, a', p') \<and> table_inv p' \<and> config p' = sample_config"
proof -
  let ?p = "sample_processor sample_config"
  let ?r = "shouldIncludeResource plain_lib (sample_env 7) (sample_resource (Fin 6)) ?p"
  obtain ok a' p' where r: "?r = Inr (ok, a', p')"
    using sample_decisions(3) by (cases ?r) auto
  have "table_inv ?p" by (simp add: table_inv_def sample_processor_def entity_addrs_def)
  from evaluation_local [OF this r] r show ?thesis
    by (auto simp: same_settings_def) (simp add: sample_processor_def)
qed

text \<open>An evaluation returns, without a panic, when the table exists and, if an include list is
  configured, lower-casing does not lengthen the command line; the table still exists then.\<close>

theorem evaluation_returns:
  assumes "trackedEntities p \<noteq> None" "list_check_safe L p (Resource rm)"
  shows "\<exists>ok a' p'. shouldIncludeResource L E rm p = Inr (ok, a', p') \<and> trackedEntities p' \<noteq> None"
  using assms by (rule shouldIncludeResource_returns)

theorem evaluation_returns_witness:
  "\<exists>ok a' p'. shouldIncludeResource plain_lib (sample_env 7) (sample_resource NaN) (sample_processor sample_config) =
     Inr (ok, a', p') \<and> trackedEntities p' \<noteq> None"
  by (rule evaluation_returns) (simp_all add: sample_processor_def list_check_safe_def sample_config_def)

text \<open>C15: both retentions are the same window: with a normalized retention a stage keeps the entity
  exactly when its time was set and lies less than the configured minutes in the past, to the
  nanosecond, although one of the checks converts to floating-point minutes and the other does not.\<close>

theorem retention_window:
  assumes "1 \<le> RetentionMinutes (config p)" "RetentionMinutes (config p) \<le> 30"
  shows "(fst (checkAnomalyRetention E p attrs te) \<longleftrightarrow>
       EnableAnomalyDetection (config p) \<and> LastAnomalyDetected te \<noteq> 0 \<and>
       now E AnomalyRetentionNow - LastAnomalyDetected te < RetentionMinutes (config p) * minute) \<and>
     (fst (checkStandardRetention E p attrs te) \<longleftrightarrow>
       LastExceeded te \<noteq> 0 \<and>
       now E StandardRetentionNow - LastExceeded te < RetentionMinutes (config p) * minute)"
  using anomaly_retention_iff [OF assms] standard_retention_iff [OF assms] by blast

theorem retention_window_witness:
  "fst (checkAnomalyRetention (sample_env (30 * minute)) (sample_processor sample_config) []
     ((sample_entity [])\<lparr>LastAnomalyDetected := 1\<rparr>)) \<and>
   \<not> fst (checkAnomalyRetention (sample_env (30 * minute + 1)) (sample_processor sample_config) []
     ((sample_entity [])\<lparr>LastAnomalyDetected := 1\<rparr>))"
proof -
  let ?p = "sample_processor sample_config"
  have "1 \<le> RetentionMinutes (config ?p)" "RetentionMinutes (config ?p) \<le> 30" "RetentionMinutes (config ?p) = 30"
    "EnableAnomalyDetection (config ?p)"
    by (simp_all add: sample_processor_def sample_config_def)
  with retention_window [OF this(1,2)] show ?thesis by (simp add: sample_env_def)
qed

text \<open>An entity that keeps its two maps apart has, after an update, the latest value of each
  metric in one and the larger of the stored and the new value in the other.\<close>

theorem maxima_kept:
  assumes "gomap_ok values" "CurrentValues te = Some c" "MaxValues te = Some x" "c \<noteq> x"
    and "updateEntityValues E values (te, h) = (te', h')"
  shows "value_of h' (CurrentValues te') n =
       (case map_of values n of Some v \<Rightarrow> Some v | None \<Rightarrow> value_of h (CurrentValues te) n) \<and>
     value_of h' (MaxValues te') n =
       (case map_of values n of Some v \<Rightarrow> maximum (value_of h (MaxValues te) n) v
        | None \<Rightarrow> value_of h (MaxValues te) n)"
  using updateEntityValues_separate [OF assms] by blast

theorem maxima_kept_witness:
  "\<exists>te' h'. updateEntityValues (sample_env 0) [(''m'', Fin 3)]
       (sample_entity [], empty_store\<lparr>cells := (\<lambda>_. [(''m'', Fin 9)]), next_addr := 2\<rparr>) = (te', h') \<and>
     value_of h' (CurrentValues te') ''m'' = Some (Fin 3) \<and> value_of h' (MaxValues te') ''m'' = Some (Fin 9)"
proof -
  let ?h = "empty_store\<lparr>cells := (\<lambda>_. [(''m'', Fin 9)]), next_addr := 2\<rparr>" and ?te = "sample_entity []"
  obtain te' h' where u: "updateEntityValues (sample_env 0) [(''m'', Fin 3)] (?te, ?h) = (te', h')"
    by (cases "updateEntityValues (sample_env 0) [(''m'', Fin 3)] (?te, ?h)")
  have "gomap_ok [(''m'', Fin 3)]" "CurrentValues ?te = Some 0" "MaxValues ?te = Some 1" "(0::nat) \<noteq> 1"
    by (simp_all add: gomap_ok_def sample_entity_def)
  from maxima_kept [OF this u, of "''m''"] u show ?thesis
    by (auto simp: value_of_def sample_entity_def maximum_def)
qed

end
