(* ===== verification/Go_Path.thy ===== *)
theory Go_Path
  imports Go_Strings
begin

text \<open>
  The functions of package \<open>path/filepath\<close> that the code calls, for Unix: cleaning, joining and
  splitting slash-separated paths.
\<close>

text \<open>\<open>filepath.Clean\<close>: the components are read left to right onto a stack.\<close>

fun clean_step :: "bool \<Rightarrow> string list \<Rightarrow> string \<Rightarrow> string list" where
  "clean_step rooted out c =
     (if c = [] \<or> c = ''.'' then out
      else if c = ''..'' then
        (if out \<noteq> [] \<and> last out \<noteq> ''..'' then butlast out
         else if rooted then out else out @ [''..''])
      else out @ [c])"

definition unix_clean :: "string \<Rightarrow> string" where
  "unix_clean path =
     (if path = [] then ''.''
      else (let rooted = has_prefix path ''/'';
                out = foldl (clean_step rooted) [] (split_on (CHR ''/'') path)
            in if rooted then ''/'' @ join ''/'' out
               else if out = [] then ''.'' else join ''/'' out))"

definition unix_join :: "string list \<Rightarrow> string" where
  "unix_join elems =
     (case dropWhile (\<lambda>e. e = []) elems of [] \<Rightarrow> [] | es \<Rightarrow> unix_clean (join ''/'' es))"

definition unix_dir :: "string \<Rightarrow> string" where
  "unix_dir path =
     unix_clean (case last_index_any path ''/'' of Some i \<Rightarrow> take (Suc i) path | None \<Rightarrow> [])"

definition unix_is_abs :: "string \<Rightarrow> bool" where
  "unix_is_abs path = has_prefix path ''/''"

text \<open>\<open>filepath.Ext\<close>: the suffix from the last dot of the last component.\<close>

definition unix_ext :: "string \<Rightarrow> string" where
  "unix_ext path =
     (let t = takeWhile (\<lambda>c. c \<noteq> CHR ''.'' \<and> c \<noteq> CHR ''/'') (rev path)
      in case drop (length t) (rev path) of
           c # _ \<Rightarrow> (if c = CHR ''.'' then c # rev t else [])
         | [] \<Rightarrow> [])"

lemma unix_ext_append:
  assumes "CHR ''.'' \<notin> set e" "CHR ''/'' \<notin> set e"
  shows "unix_ext (p @ CHR ''.'' # e) = CHR ''.'' # e"
proof -
  have "takeWhile (\<lambda>c. c \<noteq> CHR ''.'' \<and> c \<noteq> CHR ''/'') (rev (p @ CHR ''.'' # e)) = rev e"
    using assms by (auto simp: takeWhile_append takeWhile_eq_all_conv)
  then show ?thesis by (simp add: unix_ext_def)
qed

end
