(* ===== verification/Atp_Storage.thy ===== *)
theory Atp_Storage
  imports Atp_Types Go_Path
begin

text \<open>
  The file that keeps the tracked entities between runs (storage.go, storage_unix.go): where it
  may be, the check of its path for symbolic links, loading and saving. The operating system and
  the JSON codec of the file are parameters (\<open>os\<close>, \<open>entity_codec\<close>); the functions of
  \<open>path/filepath\<close> are fields of \<open>os\<close> since they differ between Unix (\<open>Go_Path\<close>) and Windows.
\<close>

section \<open>The operating system\<close>

datatype lstat_result = NotExist | LstatError string | LstatInfo bool

text \<open>
  \<open>'s\<close> is the state of the file system. \<open>lstat\<close> answers whether the entry is a symbolic link;
  \<open>stat_missing\<close> is \<open>os.IsNotExist\<close> of the error of \<open>os.Stat\<close>; an operation that may fail returns
  the error's text. \<open>reparse_point\<close> is \<open>isWindowsReparsePoint\<close> of the Windows build.
\<close>

record 's os =
  goos :: string
  getenv :: "string \<Rightarrow> string"
  user_home :: "string option"
  sep :: string
  path_clean :: "string \<Rightarrow> string"
  path_join :: "string list \<Rightarrow> string"
  path_dir :: "string \<Rightarrow> string"
  path_is_abs :: "string \<Rightarrow> bool"
  stat_missing :: "'s \<Rightarrow> string \<Rightarrow> bool"
  lstat :: "'s \<Rightarrow> string \<Rightarrow> lstat_result"
  read_file :: "'s \<Rightarrow> string \<Rightarrow> string + string"
  mkdir_all :: "string \<Rightarrow> 's \<Rightarrow> string option \<times> 's"
  write_file :: "string \<Rightarrow> string \<Rightarrow> 's \<Rightarrow> string option \<times> 's"
  remove_file :: "string \<Rightarrow> 's \<Rightarrow> 's"
  reparse_point :: "'s \<Rightarrow> string \<Rightarrow> bool"

definition unix_paths :: "'s os \<Rightarrow> bool" where
  "unix_paths S = (goos S \<noteq> ''windows'' \<and> sep S = ''/'' \<and> path_clean S = unix_clean \<and>
     path_join S = unix_join \<and> path_dir S = unix_dir \<and> path_is_abs S = unix_is_abs)"

text \<open>storage_unix.go answers \<open>false\<close>; only the Windows build asks the system.\<close>

definition isWindowsReparsePoint :: "'s os \<Rightarrow> 's \<Rightarrow> string \<Rightarrow> bool" where
  "isWindowsReparsePoint S s path = (if goos S = ''windows'' then reparse_point S s path else False)"

section \<open>The allowed directory\<close>

definition isPathWritableOrCreatable :: "'s os \<Rightarrow> string \<Rightarrow> 's \<Rightarrow> bool \<times> 's" where
  "isPathWritableOrCreatable S path s =
     (case mkdir_all S path s of
        (Some e, s1) \<Rightarrow> (False, s1)
      | (None, s1) \<Rightarrow>
        (let testFile = path_join S [path, ''.write_test'']
         in case write_file S testFile ''test'' s1 of
              (Some e, s2) \<Rightarrow> (False, s2)
            | (None, s2) \<Rightarrow> (True, remove_file S testFile s2)))"

definition varLibPath :: string where
  "varLibPath = ''/var/lib/nrdot-collector''"

definition tryVarLib :: "'s os \<Rightarrow> 's \<Rightarrow> string \<times> 's" where
  "tryVarLib S s =
     (case isPathWritableOrCreatable S varLibPath s of
        (True, s1) \<Rightarrow> (varLibPath @ sep S, s1)
      | (False, s1) \<Rightarrow> ([], s1))"

definition getAllowedStorageDirectory :: "'s os \<Rightarrow> 's \<Rightarrow> string \<times> 's" where
  "getAllowedStorageDirectory S s =
     (if goos S = ''windows'' then
        (let l = getenv S ''LOCALAPPDATA'';
             l' = (if l = [] then path_join S [getenv S ''USERPROFILE'', ''AppData'', ''Local''] else l)
         in (path_join S [l', ''nrdot-collector''] @ sep S, s))
      else case user_home S of
        Some home \<Rightarrow>
          (if home \<noteq> [] \<and> home \<noteq> ''/'' then
             (let xdgPath = path_join S [home, ''.local'', ''state'', ''nrdot-collector'']
              in case isPathWritableOrCreatable S xdgPath s of
                   (True, s1) \<Rightarrow> (xdgPath @ sep S, s1)
                 | (False, s1) \<Rightarrow> tryVarLib S s1)
           else tryVarLib S s)
      | None \<Rightarrow> tryVarLib S s)"

definition getDefaultStoragePath :: "'s os \<Rightarrow> 's \<Rightarrow> string \<times> 's" where
  "getDefaultStoragePath S s =
     (case getAllowedStorageDirectory S s of
        (d, s1) \<Rightarrow> (path_join S [d, ''adaptiveprocess.db''], s1))"

definition createDirectoryIfNotExists :: "'s os \<Rightarrow> string \<Rightarrow> 's \<Rightarrow> string option \<times> 's" where
  "createDirectoryIfNotExists S d s = (if stat_missing S s d then mkdir_all S d s else (None, s))"

section \<open>The path check\<close>

datatype path_error =
    EmptyPath | NotAbsolute string | NotUnderAllowed string | SymlinkDetected path_error
  | NotUnderBase string string | Traversal | CannotVerify string string | IsSymlink string
  | IsReparsePoint string

fun checkComponents :: "'s os \<Rightarrow> 's \<Rightarrow> string \<Rightarrow> string list \<Rightarrow> path_error option" where
  "checkComponents S s current [] = None"
| "checkComponents S s current (part # parts) =
     (if part = [] \<or> part = ''.'' then checkComponents S s current parts
      else if part = ''..'' then Some Traversal
      else
        (let current' = path_join S [current, part]
         in case lstat S s current' of
              NotExist \<Rightarrow> checkComponents S s current' parts
            | LstatError e \<Rightarrow> Some (CannotVerify current' e)
            | LstatInfo link \<Rightarrow>
                (if link then Some (IsSymlink current')
                 else if goos S = ''windows'' \<and> isWindowsReparsePoint S s current'
                 then Some (IsReparsePoint current')
                 else checkComponents S s current' parts)))"

definition checkPathForSymlinks :: "'s os \<Rightarrow> 's \<Rightarrow> string \<Rightarrow> string \<Rightarrow> path_error option" where
  "checkPathForSymlinks S s path0 baseDir0 =
     (let path = path_clean S path0;
          baseDir = path_clean S (trim_suffix baseDir0 (sep S))
      in if path = baseDir then None
         else if \<not> has_prefix path (baseDir @ sep S) then Some (NotUnderBase path baseDir)
         else checkComponents S s baseDir
                (split_on (hd (sep S)) (trim_prefix path (baseDir @ sep S))))"

definition validateStoragePath :: "'s os \<Rightarrow> string \<Rightarrow> 's \<Rightarrow> path_error option \<times> 's" where
  "validateStoragePath S storagePath s =
     (if storagePath = [] then (Some EmptyPath, s)
      else case getAllowedStorageDirectory S s of
        (allowedDir, s1) \<Rightarrow>
          (let cleanPath = path_clean S storagePath
           in if \<not> path_is_abs S cleanPath then (Some (NotAbsolute storagePath), s1)
              else if \<not> has_prefix (cleanPath @ sep S) allowedDir \<and>
                cleanPath \<noteq> trim_suffix allowedDir (sep S)
              then (Some (NotUnderAllowed cleanPath), s1)
              else case checkPathForSymlinks S s1 cleanPath allowedDir of
                Some e \<Rightarrow> (Some (SymlinkDetected e), s1)
              | None \<Rightarrow> (None, s1)))"

section \<open>The stored form of the entities\<close>

text \<open>In the file an entity holds its maps by value: two references to one map become two maps.\<close>

record storedEntity =
  s_Identity :: string
  s_FirstSeen :: time
  s_LastExceeded :: time
  s_CurrentValues :: "valmap option"
  s_MaxValues :: "valmap option"
  s_Attributes :: "(string, string) gomap option"
  s_MetricHistory :: "(string, f64 list) gomap option"
  s_LastAnomalyDetected :: time

definition extern :: "vstore \<Rightarrow> trackedEntity \<Rightarrow> storedEntity" where
  "extern h te = \<lparr>
     s_Identity = Identity te, s_FirstSeen = FirstSeen te, s_LastExceeded = LastExceeded te,
     s_CurrentValues = map_option (cells h) (CurrentValues te),
     s_MaxValues = map_option (cells h) (MaxValues te),
     s_Attributes = Attributes te, s_MetricHistory = MetricHistory te,
     s_LastAnomalyDetected = LastAnomalyDetected te\<rparr>"

definition alloc_opt :: "valmap option \<Rightarrow> vstore \<Rightarrow> addr option \<times> vstore" where
  "alloc_opt m h = (case m of None \<Rightarrow> (None, h) | Some x \<Rightarrow> (let (a, h1) = alloc x h in (Some a, h1)))"

definition intern :: "storedEntity \<Rightarrow> vstore \<Rightarrow> trackedEntity \<times> vstore" where
  "intern se h =
     (let (c, h1) = alloc_opt (s_CurrentValues se) h;
          (x, h2) = alloc_opt (s_MaxValues se) h1
      in (\<lparr>Identity = s_Identity se, FirstSeen = s_FirstSeen se, LastExceeded = s_LastExceeded se,
           CurrentValues = c, MaxValues = x, Attributes = s_Attributes se,
           MetricHistory = s_MetricHistory se,
           LastAnomalyDetected = s_LastAnomalyDetected se\<rparr>, h2))"

text \<open>
  \<open>json.MarshalIndent\<close> and \<open>json.Unmarshal\<close> at \<open>map[string]*trackedEntity\<close>. An entity \<open>null\<close> in the
  file is a nil pointer, the document \<open>null\<close> a nil map; \<open>Inl\<close> is the codec's error.
\<close>

record entity_codec =
  marshal_entities :: "(string, storedEntity) gomap option \<Rightarrow> string + string"
  unmarshal_entities :: "string \<Rightarrow> string + (string, storedEntity option) gomap option"

section \<open>Operations of the file storage\<close>

definition newFileStorage :: "'s os \<Rightarrow> string \<Rightarrow> 's \<Rightarrow> fileStorage \<times> 's" where
  "newFileStorage S path s =
     (case getAllowedStorageDirectory S s of
        (d, s1) \<Rightarrow> (\<lparr>filePath = path, allowedBaseDir = d, skipValidation = False\<rparr>, s1))"

definition newFileStorageForTesting :: "string \<Rightarrow> string \<Rightarrow> fileStorage" where
  "newFileStorageForTesting path base =
     \<lparr>filePath = path, allowedBaseDir = base, skipValidation = (base = [])\<rparr>"

definition Load ::
  "'s os \<Rightarrow> entity_codec \<Rightarrow> fileStorage \<Rightarrow> 's \<Rightarrow> string + (string, storedEntity option) gomap option" where
  "Load S J st s =
     (if stat_missing S s (filePath st) then Inr (Some [])
      else case read_file S s (filePath st) of
        Inl e \<Rightarrow> Inl e
      | Inr data \<Rightarrow> unmarshal_entities J data)"

datatype save_error = MkdirFailed string | SymlinkValidation path_error | MarshalFailed string
  | WriteFailed string

definition Save ::
  "'s os \<Rightarrow> entity_codec \<Rightarrow> fileStorage \<Rightarrow> (string, storedEntity) gomap option \<Rightarrow> 's
     \<Rightarrow> save_error option \<times> 's" where
  "Save S J st es s =
     (case mkdir_all S (path_dir S (filePath st)) s of
        (Some e, s1) \<Rightarrow> (Some (MkdirFailed e), s1)
      | (None, s1) \<Rightarrow>
        (case (if skipValidation st then None
               else checkPathForSymlinks S s1 (filePath st) (allowedBaseDir st)) of
           Some e \<Rightarrow> (Some (SymlinkValidation e), s1)
         | None \<Rightarrow>
           (case marshal_entities J es of
              Inl e \<Rightarrow> (Some (MarshalFailed e), s1)
            | Inr data \<Rightarrow>
              (case write_file S (filePath st) data s1 of
                 (Some e, s2) \<Rightarrow> (Some (WriteFailed e), s2)
               | (None, s2) \<Rightarrow> (None, s2)))))"

definition Close :: "fileStorage \<Rightarrow> string option" where
  "Close st = None"

section \<open>The walk along a path\<close>

text \<open>The paths that the walk asks the system about: the components joined one by one.\<close>

fun visited :: "'s os \<Rightarrow> string \<Rightarrow> string list \<Rightarrow> string list" where
  "visited S current [] = []"
| "visited S current (part # parts) =
     (if part = [] \<or> part = ''.'' then visited S current parts
      else path_join S [current, part] # visited S (path_join S [current, part]) parts)"

definition harmless :: "'s os \<Rightarrow> 's \<Rightarrow> string \<Rightarrow> bool" where
  "harmless S s path = (case lstat S s path of
     NotExist \<Rightarrow> True
   | LstatError e \<Rightarrow> False
   | LstatInfo link \<Rightarrow> \<not> link \<and> \<not> (goos S = ''windows'' \<and> isWindowsReparsePoint S s path))"

lemma checkComponents_None_iff:
  "checkComponents S s current parts = None \<longleftrightarrow>
     ''..'' \<notin> set parts \<and> (\<forall>path\<in>set (visited S current parts). harmless S s path)"
proof (induction parts arbitrary: current)
  case (Cons part parts)
  show ?case
  proof (cases "part = [] \<or> part = ''.''")
    case False
    then show ?thesis
      using Cons by (cases "lstat S s (path_join S [current, part])") (auto simp: harmless_def Let_def)
  qed (use Cons in auto)
qed simp

lemma checkPathForSymlinks_None:
  assumes "checkPathForSymlinks S s path base = None"
  shows "path_clean S path = path_clean S (trim_suffix base (sep S)) \<or>
     (has_prefix (path_clean S path) (path_clean S (trim_suffix base (sep S)) @ sep S) \<and>
      (\<forall>q\<in>set (visited S (path_clean S (trim_suffix base (sep S)))
         (split_on (hd (sep S)) (trim_prefix (path_clean S path)
            (path_clean S (trim_suffix base (sep S)) @ sep S)))). harmless S s q))"
  using assms by (auto simp: checkPathForSymlinks_def checkComponents_None_iff Let_def split: if_splits)

text \<open>A write of the file happens only after the check has passed in the state that is written.\<close>

lemma Save_None:
  assumes "Save S J st es s = (None, s')"
  shows "\<exists>s1 data. mkdir_all S (path_dir S (filePath st)) s = (None, s1) \<and>
     (skipValidation st \<or> checkPathForSymlinks S s1 (filePath st) (allowedBaseDir st) = None) \<and>
     marshal_entities J es = Inr data \<and> write_file S (filePath st) data s1 = (None, s')"
  using assms by (auto simp: Save_def split: prod.splits option.splits sum.splits if_splits)

section \<open>The allowed directory\<close>

lemma has_suffix_append [simp]: "has_suffix (t @ p) p"
  by (auto simp: has_suffix_iff)

lemma tryVarLib_sep: "fst (tryVarLib S s) = [] \<or> has_suffix (fst (tryVarLib S s)) (sep S)"
  by (cases "isPathWritableOrCreatable S varLibPath s"; cases "fst (isPathWritableOrCreatable S varLibPath s)")
    (simp_all add: tryVarLib_def)

lemma getAllowedStorageDirectory_sep:
  "fst (getAllowedStorageDirectory S s) = [] \<or> has_suffix (fst (getAllowedStorageDirectory S s)) (sep S)"
proof (cases "goos S = ''windows''")
  case True
  then show ?thesis by (simp add: getAllowedStorageDirectory_def Let_def)
next
  case False
  show ?thesis
  proof (cases "user_home S")
    case None
    with False show ?thesis by (simp add: getAllowedStorageDirectory_def tryVarLib_sep)
  next
    case (Some home)
    obtain b s1 where r: "isPathWritableOrCreatable S
        (path_join S [home, ''.local'', ''state'', ''nrdot-collector'']) s = (b, s1)" by fastforce
    from False Some r tryVarLib_sep [of S s] tryVarLib_sep [of S s1] show ?thesis
      by (cases b) (simp_all add: getAllowedStorageDirectory_def Let_def)
  qed
qed

section \<open>An example system\<close>

text \<open>A Unix system whose state is the contents of its files; no entry is a symbolic link, every
  directory can be made.\<close>

definition sample_os :: "(string, string) gomap os" where
  "sample_os = \<lparr>
     goos = ''linux'', getenv = (\<lambda>_. []), user_home = Some ''/h'', sep = ''/'',
     path_clean = unix_clean, path_join = unix_join, path_dir = unix_dir, path_is_abs = unix_is_abs,
     stat_missing = (\<lambda>s path. map_of s path = None),
     lstat = (\<lambda>s path. if map_of s path = None then NotExist else LstatInfo False),
     read_file = (\<lambda>s path. case map_of s path of None \<Rightarrow> Inl ''no such file'' | Some d \<Rightarrow> Inr d),
     mkdir_all = (\<lambda>path s. (None, s)),
     write_file = (\<lambda>path d s. (None, AList.update path d s)),
     remove_file = (\<lambda>path s. AList.delete path s),
     reparse_point = (\<lambda>s path. False)\<rparr>"

section \<open>Claims\<close>

text \<open>The base directory that a check of the path against \<open>base\<close> starts from, and the paths it visits.\<close>

definition base_of :: "'s os \<Rightarrow> string \<Rightarrow> string" where
  "base_of S base = path_clean S (trim_suffix base (sep S))"

definition walk_of :: "'s os \<Rightarrow> string \<Rightarrow> string \<Rightarrow> string list" where
  "walk_of S path base = visited S (base_of S base)
     (split_on (hd (sep S)) (trim_prefix (path_clean S path) (base_of S base @ sep S)))"

definition contained :: "'s os \<Rightarrow> 's \<Rightarrow> string \<Rightarrow> string \<Rightarrow> bool" where
  "contained S s path base \<longleftrightarrow> path_clean S path = base_of S base \<or>
     has_prefix (path_clean S path) (base_of S base @ sep S) \<and> list_all (harmless S s) (walk_of S path base)"

lemma check_contained: "checkPathForSymlinks S s path base = None \<Longrightarrow> contained S s path base"
  using checkPathForSymlinks_None [of S s path base]
  by (auto simp: contained_def base_of_def walk_of_def list_all_iff)

text \<open>C18: whenever a save reports success, the directory was made first, the path was then checked to
  be the allowed directory or to lie below it with no component that is a symbolic link or a
  reparse point or cannot be examined, and the data written in that very state is the codec's
  encoding of the entities.\<close>

theorem save_checks_path:
  assumes "Save S J st es s = (None, s')" "\<not> skipValidation st"
  shows "\<exists>s1 data. mkdir_all S (path_dir S (filePath st)) s = (None, s1) \<and>
     contained S s1 (filePath st) (allowedBaseDir st) \<and> marshal_entities J es = Inr data \<and>
     write_file S (filePath st) data s1 = (None, s')"
proof -
  from Save_None [OF assms(1)] assms(2) obtain s1 data where
    1: "mkdir_all S (path_dir S (filePath st)) s = (None, s1)"
      "marshal_entities J es = Inr data" "write_file S (filePath st) data s1 = (None, s')"
    and "checkPathForSymlinks S s1 (filePath st) (allowedBaseDir st) = None" by (elim exE conjE disjE) simp_all
  from check_contained [OF this(4)] 1 show ?thesis by (intro exI conjI)
qed

theorem save_checks_path_witness:
  "contained sample_os [] ''/h/d/../f'' ''/h/'' \<and>
   Save sample_os \<lparr>marshal_entities = (\<lambda>_. Inr ''x''), unmarshal_entities = (\<lambda>_. Inl [])\<rparr>
     \<lparr>filePath = ''/h/d/../f'', allowedBaseDir = ''/h/'', skipValidation = False\<rparr> None [] =
     (None, [(''/h/d/../f'', ''x'')])"
proof -
  let ?st = "\<lparr>filePath = ''/h/d/../f'', allowedBaseDir = ''/h/'', skipValidation = False\<rparr>"
  let ?J = "\<lparr>marshal_entities = (\<lambda>_. Inr ''x''), unmarshal_entities = (\<lambda>_. Inl [])\<rparr>"
  have "Save sample_os ?J ?st None [] = (None, [(''/h/d/../f'', ''x'')])" by code_simp
  from save_checks_path [OF this] this show ?thesis by (auto simp: sample_os_def)
qed

lemma has_prefix_Nil [simp]: "has_prefix s [] = True"
  by (simp add: has_prefix_def)

text \<open>A storage path that is accepted is not empty, is absolute once cleaned, and is the allowed
  directory itself or lies below it with no symbolic link on the way.\<close>

theorem storage_path_contained:
  assumes "validateStoragePath S path s = (None, s1)"
  shows "path \<noteq> [] \<and> path_is_abs S (path_clean S path) \<and>
     contained S s1 (path_clean S path) (fst (getAllowedStorageDirectory S s))"
  using assms
  by (auto simp: validateStoragePath_def Let_def check_contained split: if_splits prod.splits option.splits)

theorem storage_path_contained_witness:
  "validateStoragePath sample_os ''/h/.local/state/nrdot-collector/a.db'' [] = (None, []) \<and>
   contained sample_os [] ''/h/.local/state/nrdot-collector/a.db'' ''/h/.local/state/nrdot-collector/''"
proof -
  let ?path = "''/h/.local/state/nrdot-collector/a.db''"
  have v: "validateStoragePath sample_os ?path [] = (None, [])" by code_simp
  have a: "fst (getAllowedStorageDirectory sample_os []) = ''/h/.local/state/nrdot-collector/''" by code_simp
  have c: "path_clean sample_os ?path = ?path" by code_simp
  from storage_path_contained [OF v] show ?thesis unfolding a c using v by blast
qed

text \<open>A path with a link never is written: when a component below the base is a symbolic link,
  or its status cannot be read, after the directory was made, the save fails and the state is
  the one the creation of the directory left.\<close>

theorem link_never_written:
  assumes "\<not> skipValidation st" "mkdir_all S (path_dir S (filePath st)) s = (None, s1)"
    and "path_clean S (filePath st) \<noteq> base_of S (allowedBaseDir st)"
    and "q \<in> set (walk_of S (filePath st) (allowedBaseDir st))" "\<not> harmless S s1 q"
  shows "\<exists>e. Save S J st es s = (Some (SymlinkValidation e), s1)"
proof -
  have "\<not> contained S s1 (filePath st) (allowedBaseDir st)"
    using assms(3-5) by (auto simp: contained_def list_all_iff)
  then obtain e where "checkPathForSymlinks S s1 (filePath st) (allowedBaseDir st) = Some e"
    using check_contained [of S s1 "filePath st" "allowedBaseDir st"] by fastforce
  then show ?thesis using assms(1,2) by (simp add: Save_def)
qed

theorem link_never_written_witness:
  "\<exists>e. Save (sample_os\<lparr>lstat := (\<lambda>s path. LstatInfo (path = ''/h/d''))\<rparr>)
     \<lparr>marshal_entities = (\<lambda>_. Inr ''x''), unmarshal_entities = (\<lambda>_. Inl [])\<rparr>
     \<lparr>filePath = ''/h/d/f'', allowedBaseDir = ''/h/'', skipValidation = False\<rparr> None [] =
     (Some (SymlinkValidation e), [])"
proof (rule link_never_written [where q = "''/h/d''"])
  let ?S = "sample_os\<lparr>lstat := (\<lambda>s path. LstatInfo (path = ''/h/d''))\<rparr>"
  let ?st = "\<lparr>filePath = ''/h/d/f'', allowedBaseDir = ''/h/'', skipValidation = False\<rparr>"
  have "walk_of ?S (filePath ?st) (allowedBaseDir ?st) = [''/h/d'', ''/h/d/f'']" by code_simp
  then show "''/h/d'' \<in> set (walk_of ?S (filePath ?st) (allowedBaseDir ?st))" by simp
  show "\<not> harmless ?S [] ''/h/d''" by (simp add: harmless_def)
  show "path_clean ?S (filePath ?st) \<noteq> base_of ?S (allowedBaseDir ?st)" by code_simp
qed (simp_all add: sample_os_def)

text \<open>
  With no writable directory the default path is relative, the allowed directory empty, and every
  save fails the check of the path.
\<close>

lemma no_directory_never_saves:
  assumes "unix_paths S" "fst (getAllowedStorageDirectory S s) = []"
  shows "fst (getDefaultStoragePath S s) = ''adaptiveprocess.db'' \<and>
    checkPathForSymlinks S s1 ''adaptiveprocess.db'' [] = Some (NotUnderBase ''adaptiveprocess.db'' ''.'')"
proof -
  have "unix_join [[], ''adaptiveprocess.db''] = ''adaptiveprocess.db''"
    "unix_clean ''adaptiveprocess.db'' = ''adaptiveprocess.db''"
    "unix_clean (trim_suffix [] ''/'') = ''.''"
    "has_prefix ''adaptiveprocess.db'' ''./'' = False"
    by code_simp+
  then show ?thesis
    using assms by (simp add: getDefaultStoragePath_def unix_paths_def checkPathForSymlinks_def split_beta Let_def)
qed

end
