(* ===== verification/Atp_Init.thy ===== *)
theory Atp_Init
  imports Atp_Storage Atp_Evaluate
begin

text \<open>
  Loading, persisting and expiring the tracked entities (persistence.go) and the life of the
  processor (processor_init.go): construction, \<open>Shutdown\<close>, \<open>Start\<close>, \<open>Capabilities\<close>.
\<close>

section \<open>Persistence\<close>

fun internAll ::
  "(string \<times> storedEntity option) list \<Rightarrow> vstore \<Rightarrow> ((string, trackedEntity) gomap \<times> vstore) go" where
  "internAll [] h = Inr ([], h)"
| "internAll ((i, None) # rest) h = Inl ''invalid memory address or nil pointer dereference''"
| "internAll ((i, Some se) # rest) h =
     (let (te, h1) = intern se h
      in andThen (internAll rest h1) (\<lambda>(m, h2). Inr ((i, te) # m, h2)))"

text \<open>
  \<open>loadTrackedEntities\<close>: reading an attribute of a nil entity while counting the resource types
  panics; an error leaves the processor as it was; otherwise the loaded map, nil or not, becomes
  the map of tracked entities.
\<close>

definition loadTrackedEntities ::
  "'s os \<Rightarrow> entity_codec \<Rightarrow> 's \<Rightarrow> processorImp \<Rightarrow> (string option \<times> processorImp) go" where
  "loadTrackedEntities S J s p =
     (case storage p of
        None \<Rightarrow> Inr (None, p)
      | Some st \<Rightarrow>
        (if \<not> persistenceEnabled p then Inr (None, p)
         else case Load S J st s of
           Inl e \<Rightarrow> Inr (Some e, p)
         | Inr None \<Rightarrow> Inr (None, p\<lparr>trackedEntities := None\<rparr>)
         | Inr (Some es) \<Rightarrow>
             andThen (internAll es (values_store p))
               (\<lambda>(m, h). Inr (None, p\<lparr>trackedEntities := Some m, values_store := h\<rparr>))))"

definition externAll :: "processorImp \<Rightarrow> (string, storedEntity) gomap option" where
  "externAll p = map_option (map (\<lambda>(i, te). (i, extern (values_store p) te))) (trackedEntities p)"

definition persistTrackedEntities ::
  "'s os \<Rightarrow> entity_codec \<Rightarrow> processorImp \<Rightarrow> 's \<Rightarrow> save_error option \<times> 's" where
  "persistTrackedEntities S J p s =
     (case storage p of
        None \<Rightarrow> (None, s)
      | Some st \<Rightarrow>
        (if \<not> persistenceEnabled p then (None, s) else Save S J st (externAll p) s))"

definition expiry :: "time \<Rightarrow> int \<Rightarrow> time" where
  "expiry t mins = t + wrap64 (wrap64 (- mins) * minute)"

definition cleanupExpiredEntities :: "time \<Rightarrow> processorImp \<Rightarrow> processorImp" where
  "cleanupExpiredEntities t p =
     (if RetentionMinutes (config p) \<le> 0 then p
      else p\<lparr>trackedEntities := map_option
             (filter (\<lambda>(i, te). \<not> LastExceeded te < expiry t (RetentionMinutes (config p))))
             (trackedEntities p)\<rparr>)"

section \<open>Construction and shutdown\<close>

definition seedThresholds :: "(string \<times> f64) list \<Rightarrow> (string, f64) gomap" where
  "seedThresholds ts =
     foldl (\<lambda>m (k, b). if flt (Fin 0) b then AList.update k b m else m) [] ts"

definition freshProcessor :: "Config \<Rightarrow> bool \<Rightarrow> time \<Rightarrow> nat list \<Rightarrow> processorImp" where
  "freshProcessor cfg storageEnabled t ks = \<lparr>
     config = cfg,
     trackedEntities = Some [],
     values_store = empty_store,
     storage = None,
     lastPersistenceOp = zero_time,
     persistenceEnabled = storageEnabled,
     lastThresholdUpdate = t,
     dynamicThresholdsEnabled = EnableDynamicThresholds cfg,
     multiMetricEnabled = EnableMultiMetric cfg,
     dynamicCustomThresholds = Some (seedThresholds (shuffle ks (entries (MetricThresholds cfg))))\<rparr>"

record init_choices =
  validate1 :: "nat list"
  validate2 :: "nat list"
  validate3 :: "nat list"
  seedOrder :: "nat list"
  initNow :: time

definition setupStorage ::
  "'s os \<Rightarrow> entity_codec \<Rightarrow> string \<Rightarrow> processorImp \<Rightarrow> 's \<Rightarrow> (processorImp \<times> 's) go" where
  "setupStorage S J storagePath p s =
     (if \<not> persistenceEnabled p then Inr (p, s)
      else case createDirectoryIfNotExists S (path_dir S storagePath) s of
        (Some e, s1) \<Rightarrow> Inr (p\<lparr>persistenceEnabled := False\<rparr>, s1)
      | (None, s1) \<Rightarrow>
        (case newFileStorage S storagePath s1 of
           (st, s2) \<Rightarrow> andThen (loadTrackedEntities S J s2 (p\<lparr>storage := Some st\<rparr>))
                         (\<lambda>(err, p1). Inr (p1, s2))))"

definition newProcessor ::
  "'s os \<Rightarrow> entity_codec \<Rightarrow> init_choices \<Rightarrow> Config \<Rightarrow> 's \<Rightarrow> (config_error + processorImp \<times> 's) go" where
  "newProcessor S J C config0 s =
     (let cfg = Normalize config0
      in case Validate (validate1 C) (validate2 C) (validate3 C) cfg of
           Some e \<Rightarrow> Inr (Inl e)
         | None \<Rightarrow>
           (let storageEnabled = (case EnableStorage cfg of Some b \<Rightarrow> b | None \<Rightarrow> True)
            in case getDefaultStoragePath S s of
              (storagePath, s1) \<Rightarrow>
                andThen (setupStorage S J storagePath
                           (freshProcessor cfg storageEnabled (initNow C) (seedOrder C)) s1)
                  (\<lambda>ps. Inr (Inr ps))))"

text \<open>\<open>createMetricsProcessor\<close> first asserts the type of the configuration, here an option.\<close>

datatype factory_error = InvalidConfigType | ConfigError config_error

definition createMetricsProcessor ::
  "'s os \<Rightarrow> entity_codec \<Rightarrow> init_choices \<Rightarrow> Config option \<Rightarrow> 's
     \<Rightarrow> (factory_error + processorImp \<times> 's) go" where
  "createMetricsProcessor S J C cfg s =
     (case cfg of
        None \<Rightarrow> Inr (Inl InvalidConfigType)
      | Some pCfg \<Rightarrow> andThen (newProcessor S J C pCfg s)
          (\<lambda>r. Inr (case r of Inl e \<Rightarrow> Inl (ConfigError e) | Inr ps \<Rightarrow> Inr ps)))"

definition Shutdown :: "'s os \<Rightarrow> entity_codec \<Rightarrow> processorImp \<Rightarrow> 's \<Rightarrow> string option \<times> 's" where
  "Shutdown S J p s =
     (if persistenceEnabled p \<and> storage p \<noteq> None
      then (None, snd (persistTrackedEntities S J p s)) else (None, s))"

definition Start :: "processorImp \<Rightarrow> string option" where
  "Start p = None"

text \<open>\<open>Capabilities\<close>: the processor mutates its data.\<close>

definition mutatesData :: "processorImp \<Rightarrow> bool" where
  "mutatesData p = True"

section \<open>Entities as stored\<close>

lemma alloc_opt_frame:
  "alloc_opt m h = (a, h') \<Longrightarrow> next_addr h \<le> next_addr h' \<and>
     (\<forall>b. b < next_addr h \<longrightarrow> cells h' b = cells h b) \<and>
     (\<forall>b. a = Some b \<longrightarrow> next_addr h \<le> b \<and> b < next_addr h') \<and> map_option (cells h') a = m"
  by (auto simp: alloc_opt_def alloc_def split: option.splits)

text \<open>
  Reading an entity back allocates separate maps, gives the stored form again, and touches no
  address below.
\<close>

lemma intern_spec:
  assumes "intern se h = (te, h')"
  shows "extern h' te = se" "next_addr h \<le> next_addr h'"
    "b < next_addr h \<Longrightarrow> cells h' b = cells h b"
    "addrs te \<subseteq> fresh_of h h'"
    "CurrentValues te = Some c \<Longrightarrow> MaxValues te = Some x \<Longrightarrow> c \<noteq> x"
proof -
  obtain c0 h1 where 1: "alloc_opt (s_CurrentValues se) h = (c0, h1)" by (cases "alloc_opt (s_CurrentValues se) h")
  obtain x0 h2 where 2: "alloc_opt (s_MaxValues se) h1 = (x0, h2)" by (cases "alloc_opt (s_MaxValues se) h1")
  note f = alloc_opt_frame [OF 1] alloc_opt_frame [OF 2]
  have te: "h' = h2" "CurrentValues te = c0" "MaxValues te = x0"
    using assms 1 2 by (auto simp: intern_def)
  have "map_option (cells h2) c0 = s_CurrentValues se"
    using f by (cases c0) auto
  with f assms te show "extern h' te = se" by (auto simp: extern_def intern_def 1 2)
  show "next_addr h \<le> next_addr h'" "b < next_addr h \<Longrightarrow> cells h' b = cells h b"
    using f te by auto
  show "addrs te \<subseteq> fresh_of h h'" using f te by (force simp: addrs_def fresh_of_def)
  show "CurrentValues te = Some c \<Longrightarrow> MaxValues te = Some x \<Longrightarrow> c \<noteq> x" using f te by force
qed

lemma extern_cong: "(\<And>a. a \<in> addrs te \<Longrightarrow> cells h a = cells h' a) \<Longrightarrow> extern h te = extern h' te"
  by (auto simp: extern_def addrs_def intro!: map_option_cong)

lemma internAll_spec:
  assumes "internAll (map (\<lambda>(i, se). (i, Some se)) es) h = Inr (m, h')"
  shows "map (\<lambda>(i, te). (i, extern h' te)) m = es \<and> next_addr h \<le> next_addr h' \<and>
    (\<forall>b<next_addr h. cells h' b = cells h b) \<and> (\<forall>(i, te)\<in>set m. addrs te \<subseteq> fresh_of h h')"
  using assms
proof (induction es arbitrary: h m h')
  case (Cons e es)
  obtain i se where e: "e = (i, se)" by (cases e)
  obtain te h1 where int: "intern se h = (te, h1)" by (cases "intern se h")
  obtain m' where m: "m = (i, te) # m'" "internAll (map (\<lambda>(i, se). (i, Some se)) es) h1 = Inr (m', h')"
    using Cons.prems by (auto simp: e int Let_def andThen_Inr_iff)
  note IH = Cons.IH [OF m(2)] and sp = intern_spec [OF int]
  have "extern h' te = extern h1 te"
    using IH sp(4) by (intro extern_cong) (auto simp: fresh_of_def)
  moreover have "addrs te \<subseteq> fresh_of h h'" using IH sp(4) by (auto simp: fresh_of_def)
  moreover have "\<forall>(j, u)\<in>set m'. addrs u \<subseteq> fresh_of h h'" using IH sp(2) by (fastforce simp: fresh_of_def)
  ultimately show ?case using IH sp(1-3) by (auto simp: e m(1))
qed simp

lemma internAll_returns:
  "\<exists>m h'. internAll (map (\<lambda>(i, se). (i, Some se)) es) h = Inr (m, h')"
proof (induction es arbitrary: h)
  case (Cons e es)
  obtain i se where e: "e = (i, se)" by (cases e)
  obtain te h1 where int: "intern se h = (te, h1)" by (cases "intern se h")
  from Cons.IH [of h1] show ?case by (auto simp: e int Let_def)
qed simp

lemma internAll_separate:
  assumes "internAll es h = Inr (m, h')" "(i, te) \<in> set m" "CurrentValues te = Some c" "MaxValues te = Some x"
  shows "c \<noteq> x"
  using assms
proof (induction es h arbitrary: m h' rule: internAll.induct)
  case (3 i se rest h)
  obtain te' h1 where int: "intern se h = (te', h1)" by (cases "intern se h")
  obtain m' where m: "m = (i, te') # m'" "internAll rest h1 = Inr (m', h')"
    using 3(2) by (auto simp: int Let_def andThen_Inr_iff)
  show ?case
    using 3(1) [OF int [symmetric] refl m(2)] 3(3-5) intern_spec(5) [OF int] by (auto simp: m(1))
qed simp_all

lemma internAll_keys:
  "internAll es h = Inr (m, h') \<Longrightarrow> keys m = keys es"
  by (induction es h arbitrary: m h' rule: internAll.induct)
    (auto simp: Let_def andThen_Inr_iff split: prod.splits)

text \<open>Different entities get different maps.\<close>

lemma internAll_disjoint:
  assumes "internAll es h = Inr (m, h')" "gomap_ok es"
  shows "next_addr h \<le> next_addr h' \<and> (\<forall>(i, te)\<in>set m. addrs te \<subseteq> fresh_of h h') \<and>
    (\<forall>(i, te)\<in>set m. \<forall>(j, u)\<in>set m. i \<noteq> j \<longrightarrow> addrs te \<inter> addrs u = {})"
  using assms
proof (induction es h arbitrary: m h' rule: internAll.induct)
  case (3 i se rest h)
  obtain te h1 where int: "intern se h = (te, h1)" by (cases "intern se h")
  obtain m' where m: "m = (i, te) # m'" "internAll rest h1 = Inr (m', h')"
    using 3(2) by (auto simp: int Let_def andThen_Inr_iff)
  have "gomap_ok rest" using 3(3) by (simp add: gomap_ok_def)
  with 3(1) [OF int [symmetric] refl m(2)] have IH: "next_addr h1 \<le> next_addr h'"
    "\<forall>(i, te)\<in>set m'. addrs te \<subseteq> fresh_of h1 h'"
    "\<forall>(i, te)\<in>set m'. \<forall>(j, u)\<in>set m'. i \<noteq> j \<longrightarrow> addrs te \<inter> addrs u = {}"
    by blast+
  note sp = intern_spec [OF int]
  have "addrs te \<inter> addrs u = {}" if "(j, u) \<in> set m'" for j u
    using IH(2) that sp(4) by (fastforce simp: fresh_of_def)
  then have "\<forall>(j, u)\<in>set m'. addrs te \<inter> addrs u = {}" by blast
  moreover have "addrs te \<subseteq> fresh_of h h'" "\<forall>(j, u)\<in>set m'. addrs u \<subseteq> fresh_of h h'"
    using IH(1,2) sp(2,4) by (fastforce simp: fresh_of_def)+
  ultimately show ?case using IH(1,3) sp(2) by (auto simp: m(1) Int_commute) fastforce
qed simp_all

section \<open>Loading what was saved\<close>

lemma lookup_map_snd: "lookup (map_option (map (\<lambda>(i, v). (i, f v))) m) i = map_option f (lookup m i)"
  by (cases m) (simp_all add: lookup_def map_of_map)

lemma loadTrackedEntities_returns:
  assumes "storage p = Some st" "persistenceEnabled p" "trackedEntities p \<noteq> None"
    and "\<And>es. Load S J st s = Inr es \<Longrightarrow> \<exists>m. es = Some m \<and> (\<forall>(i, se)\<in>set m. se \<noteq> None)"
  shows "\<exists>err p'. loadTrackedEntities S J s p = Inr (err, p') \<and> trackedEntities p' \<noteq> None"
proof (cases "Load S J st s")
  case (Inl e)
  then show ?thesis using assms(1-3) by (simp add: loadTrackedEntities_def)
next
  case (Inr es)
  then obtain m where m: "es = Some m" "\<forall>(i, se)\<in>set m. se \<noteq> None" using assms(4) by blast
  have "m = map (\<lambda>(i, se). (i, Some se)) (map (\<lambda>(i, se). (i, the se)) m)"
    using m(2) by (induction m) auto
  then obtain t h where "internAll m (values_store p) = Inr (t, h)"
    using internAll_returns by metis
  then show ?thesis using assms(1,2) Inr m(1) by (simp add: loadTrackedEntities_def)
qed

lemma loadTrackedEntities_settings:
  "loadTrackedEntities S J s p = Inr (err, p') \<Longrightarrow> same_settings p p'"
  by (auto simp: loadTrackedEntities_def same_settings_def andThen_Inr_iff
    split: option.splits sum.splits if_splits)

text \<open>A loaded table is well formed, and its entities keep their two maps apart.\<close>

lemma loadTrackedEntities_inv:
  assumes "storage p = Some st" "persistenceEnabled p"
    and "Load S J st s = Inr (Some es)" "gomap_ok es"
    and "loadTrackedEntities S J s p = Inr (err, p')"
  shows "table_inv p'"
    "lookup (trackedEntities p') i = Some te \<Longrightarrow> CurrentValues te = Some c \<Longrightarrow> MaxValues te = Some x \<Longrightarrow> c \<noteq> x"
proof -
  obtain m h where m: "internAll es (values_store p) = Inr (m, h)"
    and p': "p' = p\<lparr>trackedEntities := Some m, values_store := h\<rparr>"
    using assms by (auto simp: loadTrackedEntities_def andThen_Inr_iff)
  have ok: "gomap_ok m" using internAll_keys [OF m] assms(4) by (simp add: gomap_ok_def)
  have mem: "lookup (trackedEntities p') i = Some te \<longleftrightarrow> (i, te) \<in> set m" for i te
    using ok by (simp add: p' gomap_ok_map_of)
  note d = internAll_disjoint [OF m assms(4)]
  show "c \<noteq> x" if "lookup (trackedEntities p') i = Some te" "CurrentValues te = Some c" "MaxValues te = Some x"
    using internAll_separate [OF m] that mem by blast
  have "a < next_addr h" if "a \<in> entity_addrs p' i" for i a
    using that d mem [of i] by (fastforce simp: entity_addrs_def fresh_of_def split: option.splits)
  moreover have "entity_addrs p' i \<inter> entity_addrs p' j = {}" if "i \<noteq> j" for i j
  proof -
    have "addrs te \<inter> addrs u = {}" if "(i, te) \<in> set m" "(j, u) \<in> set m" for te u
      using d that \<open>i \<noteq> j\<close> by fastforce
    then show ?thesis using mem by (auto simp: entity_addrs_def split: option.splits)
  qed
  ultimately show "table_inv p'" using ok by (simp add: table_inv_def p')
qed

text \<open>Saving and loading again gives entities with the same contents.\<close>

definition codec_inverse :: "entity_codec \<Rightarrow> (string, storedEntity) gomap \<Rightarrow> bool" where
  "codec_inverse J es \<longleftrightarrow> (\<forall>data. marshal_entities J (Some es) = Inr data \<longrightarrow>
     unmarshal_entities J data = Inr (Some (map (\<lambda>(i, se). (i, Some se)) es)))"

definition file_holds :: "'s os \<Rightarrow> 's \<Rightarrow> string \<Rightarrow> string \<Rightarrow> bool" where
  "file_holds S s path data = (\<not> stat_missing S s path \<and> read_file S s path = Inr data)"

lemma persist_load:
  assumes "storage p = Some st" "persistenceEnabled p" "trackedEntities p = Some m"
    and "\<And>data s1 s2. write_file S (filePath st) data s1 = (None, s2) \<Longrightarrow> file_holds S s2 (filePath st) data"
    and "codec_inverse J (map (\<lambda>(i, te). (i, extern (values_store p) te)) m)"
    and "persistTrackedEntities S J p s = (None, s')"
    and "storage q = Some st" "persistenceEnabled q"
  shows "\<exists>q'. loadTrackedEntities S J s' q = Inr (None, q') \<and> externAll q' = externAll p"
proof -
  let ?es = "map (\<lambda>(i, te). (i, extern (values_store p) te)) m"
  have "Save S J st (Some ?es) s = (None, s')"
    using assms(1-3,6) by (simp add: persistTrackedEntities_def externAll_def)
  from Save_None [OF this] obtain s1 data where
    w: "marshal_entities J (Some ?es) = Inr data" "write_file S (filePath st) data s1 = (None, s')" by blast
  have "Load S J st s' = Inr (Some (map (\<lambda>(i, se). (i, Some se)) ?es))"
    using assms(4) [OF w(2)] assms(5) w(1) by (simp add: Load_def file_holds_def codec_inverse_def)
  moreover obtain m' h' where i: "internAll (map (\<lambda>(i, se). (i, Some se)) ?es) (values_store q) = Inr (m', h')"
    using internAll_returns by blast
  ultimately have "loadTrackedEntities S J s' q = Inr (None, q\<lparr>trackedEntities := Some m', values_store := h'\<rparr>)"
    using assms(7,8) by (simp add: loadTrackedEntities_def)
  moreover have "map (\<lambda>(i, te). (i, extern h' te)) m' = ?es" using internAll_spec [OF i] by blast
  ultimately show ?thesis using assms(3) by (simp add: externAll_def)
qed

section \<open>Cleaning up\<close>

lemma cleanupExpiredEntities_settings: "same_settings p (cleanupExpiredEntities t p)"
  by (simp add: cleanupExpiredEntities_def same_settings_def)

lemma cleanupExpiredEntities_lookup:
  assumes "gomap_ok (entries (trackedEntities p))"
  shows "lookup (trackedEntities (cleanupExpiredEntities t p)) i =
     (if RetentionMinutes (config p) \<le> 0 then lookup (trackedEntities p) i
      else case lookup (trackedEntities p) i of None \<Rightarrow> None
        | Some te \<Rightarrow> if LastExceeded te < expiry t (RetentionMinutes (config p)) then None else Some te)"
  using assms
  by (cases "trackedEntities p") (auto simp: cleanupExpiredEntities_def map_of_filter_ok split: option.split)

lemma expiry_small:
  assumes "1 \<le> m" "m \<le> 30"
  shows "expiry t m = t - m * minute"
proof -
  have "wrap64 (- m) = - m" using assms by (intro wrap64_id) (simp add: is_int64_def)
  moreover have "wrap64 (- m * minute) = - m * minute"
    using assms by (intro wrap64_id) (simp add: is_int64_def minute_def)
  ultimately show ?thesis by (simp add: expiry_def)
qed

lemma cleanup_all:
  assumes "gomap_ok (entries (trackedEntities p))" "all_entities P p"
  shows "all_entities P (cleanupExpiredEntities t p)"
  using assms by (auto simp: all_entities_def cleanupExpiredEntities_lookup split: option.splits if_splits)

lemma cleanup_table_inv:
  assumes "table_inv p"
  shows "table_inv (cleanupExpiredEntities t p)"
proof -
  have ok: "gomap_ok (entries (trackedEntities p))" using assms by (simp add: table_inv_def)
  then have "entity_addrs (cleanupExpiredEntities t p) i \<subseteq> entity_addrs p i" for i
    by (auto simp: entity_addrs_def cleanupExpiredEntities_lookup split: option.splits if_splits)
  moreover have "gomap_ok (entries (trackedEntities (cleanupExpiredEntities t p)))"
    "trackedEntities (cleanupExpiredEntities t p) \<noteq> None"
    "values_store (cleanupExpiredEntities t p) = values_store p"
    using assms ok by (auto simp: table_inv_def cleanupExpiredEntities_def)
  ultimately show ?thesis using assms unfolding table_inv_def by (metis (no_types) disjoint_iff subsetD)
qed

section \<open>A fresh processor\<close>

lemma seedThresholds_fold:
  "gomap_ok ts \<Longrightarrow> map_of (foldl (\<lambda>m (k, b). if flt (Fin 0) b then AList.update k b m else m) acc ts) n =
     (case map_of ts n of Some b \<Rightarrow> if flt (Fin 0) b then Some b else map_of acc n | None \<Rightarrow> map_of acc n)"
proof (induction ts arbitrary: acc)
  case (Cons e ts)
  obtain k b where e: "e = (k, b)" by (cases e)
  have "map_of ts k = None" "gomap_ok ts"
    using Cons.prems by (auto simp: e gomap_ok_def map_of_eq_None_iff)
  then show ?case using Cons.IH by (auto simp: e split: option.split)
qed simp

lemma freshProcessor_dynamic:
  assumes "gomap_ok (entries (MetricThresholds cfg))"
  shows "dynamic_of (freshProcessor cfg b t ks) n = (case lookup (MetricThresholds cfg) n of
     Some v \<Rightarrow> if flt (Fin 0) v then Some v else None | None \<Rightarrow> None)"
  using assms by (simp add: dynamic_of_def freshProcessor_def seedThresholds_def seedThresholds_fold lookup_def
    split: option.split)

lemma freshProcessor_table_inv [simp]: "table_inv (freshProcessor cfg b t ks)"
  by (simp add: table_inv_def freshProcessor_def entity_addrs_def)

lemma freshProcessor_entities [simp]: "all_entities P (freshProcessor cfg b t ks)"
  by (simp add: all_entities_def freshProcessor_def)

section \<open>Claims\<close>


definition sample_file :: fileStorage where
  "sample_file = \<lparr>filePath = ''/h/d.db'', allowedBaseDir = ''/h/'', skipValidation = False\<rparr>"

definition sample_stored :: processorImp where
  "sample_stored = (sample_processor sample_config)\<lparr>
     trackedEntities := Some [(''e'', sample_entity [Fin 1])],
     values_store := snd (alloc [(''m'', Fin 9)] (snd (alloc [(''m'', Fin 3)] empty_store))),
     storage := Some sample_file, persistenceEnabled := True\<rparr>"

definition sample_codec :: entity_codec where
  "sample_codec = \<lparr>
     marshal_entities = (\<lambda>es. if es = externAll sample_stored then Inr ''{e}'' else Inl ''unsupported''),
     unmarshal_entities = (\<lambda>d. if d = ''{e}''
       then Inr (map_option (map (\<lambda>(i, se). (i, Some se))) (externAll sample_stored)) else Inl ''syntax'')\<rparr>"

lemma sample_codec_inverse:
  "externAll sample_stored = Some es \<Longrightarrow> codec_inverse sample_codec es"
  by (simp add: codec_inverse_def sample_codec_def)


text \<open>The clean-up drops exactly the entities whose last exceeding lies further back than the
  retention, with no rounding and no overflow for a normalized retention, keeps every other
  entity as it is, and changes no setting.\<close>

theorem cleanup_exact:
  assumes "gomap_ok (entries (trackedEntities p))"
    and "1 \<le> RetentionMinutes (config p)" "RetentionMinutes (config p) \<le> 30"
  shows "lookup (trackedEntities (cleanupExpiredEntities t p)) i =
       (case lookup (trackedEntities p) i of None \<Rightarrow> None
        | Some te \<Rightarrow> if RetentionMinutes (config p) * minute < t - LastExceeded te then None else Some te) \<and>
     same_settings p (cleanupExpiredEntities t p)"
  using cleanupExpiredEntities_lookup [OF assms(1), of t i] assms(2,3) cleanupExpiredEntities_settings
  by (auto simp: expiry_small split: option.split)

theorem cleanup_exact_witness:
  "lookup (trackedEntities (cleanupExpiredEntities (30 * minute) sample_stored)) ''e'' = Some (sample_entity [Fin 1]) \<and>
   lookup (trackedEntities (cleanupExpiredEntities (30 * minute + 1) sample_stored)) ''e'' = None"
proof -
  have "gomap_ok (entries (trackedEntities sample_stored))"
    "1 \<le> RetentionMinutes (config sample_stored)" "RetentionMinutes (config sample_stored) \<le> 30"
    by (simp_all add: sample_stored_def sample_processor_def sample_config_def gomap_ok_def)
  note c = cleanup_exact [OF this, THEN conjunct1, of _ "''e''"]
  show ?thesis
    unfolding c by (simp add: sample_stored_def sample_processor_def sample_config_def lookup_def sample_entity_def)
qed

text \<open>
  The time of an anomaly plays no part: an entity that is inside its anomaly retention is dropped
  when it has not exceeded a threshold for as long.
\<close>

lemma cleanup_drops_anomalous:
  assumes "gomap_ok (entries (trackedEntities p))"
    and "1 \<le> RetentionMinutes (config p)" "RetentionMinutes (config p) \<le> 30"
    and "lookup (trackedEntities p) i = Some te" "LastExceeded te = 0"
    and "RetentionMinutes (config p) * minute < t" "LastAnomalyDetected te = t"
  shows "lookup (trackedEntities (cleanupExpiredEntities t p)) i = None"
  using cleanupExpiredEntities_lookup [OF assms(1), of t i] assms(2-6) by (simp add: expiry_small)

text \<open>A stored table with a null entity makes the start panic.\<close>

lemma null_entity_panics:
  assumes "storage p = Some st" "persistenceEnabled p" "Load S J st s = Inr (Some [(i, None)])"
  shows "loadTrackedEntities S J s p = Inl ''invalid memory address or nil pointer dereference''"
  using assms by (simp add: loadTrackedEntities_def)

section \<open>Construction\<close>

definition seeded :: "processorImp \<Rightarrow> Config \<Rightarrow> bool" where
  "seeded p cfg = (\<forall>n. dynamic_of p n = (case lookup (MetricThresholds cfg) n of
     Some v \<Rightarrow> if flt (Fin 0) v then Some v else None | None \<Rightarrow> None))"

lemma setupStorage_settings:
  assumes "setupStorage S J path p s = Inr (p', s')"
  shows "config p' = config p \<and> dynamicCustomThresholds p' = dynamicCustomThresholds p \<and>
     dynamicThresholdsEnabled p' = dynamicThresholdsEnabled p \<and> multiMetricEnabled p' = multiMetricEnabled p \<and>
     (persistenceEnabled p' \<longrightarrow> persistenceEnabled p \<and> storage p' \<noteq> None)"
proof (cases "persistenceEnabled p")
  case True
  show ?thesis
  proof (cases "createDirectoryIfNotExists S (path_dir S path) s")
    case (Pair e s1)
    show ?thesis
    proof (cases e)
      case None
      obtain st s2 where st: "newFileStorage S path s1 = (st, s2)" by (cases "newFileStorage S path s1")
      from assms True Pair None st obtain err where
        "loadTrackedEntities S J s2 (p\<lparr>storage := Some st\<rparr>) = Inr (err, p')"
        by (auto simp: setupStorage_def andThen_Inr_iff)
      from loadTrackedEntities_settings [OF this] show ?thesis using True by (simp add: same_settings_def)
    qed (use assms True Pair in \<open>auto simp: setupStorage_def\<close>)
  qed
qed (use assms in \<open>simp add: setupStorage_def\<close>)

lemma newProcessor_Inr:
  assumes "newProcessor S J C cfg s = Inr (Inr (p, s'))"
  obtains b path s1 where
    "Validate (validate1 C) (validate2 C) (validate3 C) (Normalize cfg) = None"
    "setupStorage S J path (freshProcessor (Normalize cfg) b (initNow C) (seedOrder C)) s1 = Inr (p, s')"
    "b = (case EnableStorage cfg of Some b \<Rightarrow> b | None \<Rightarrow> True)"
proof (cases "Validate (validate1 C) (validate2 C) (validate3 C) (Normalize cfg)")
  case None
  obtain path s1 where g: "getDefaultStoragePath S s = (path, s1)" by (cases "getDefaultStoragePath S s")
  have "EnableStorage (Normalize cfg) = EnableStorage cfg" by (simp add: Normalize_def Let_def normalize_defs)
  with assms None g show thesis
    by (intro that [OF None]) (auto simp: newProcessor_def Let_def andThen_Inr_iff)
qed (use assms in \<open>simp add: newProcessor_def Let_def\<close>)

text \<open>A processor that is constructed has a configuration in the documented ranges with no
  negative threshold, the flags of that configuration, one dynamic threshold per positive
  configured one in whatever order they are ranged over, and persistence only with a storage.\<close>

theorem construction_sound:
  assumes "newProcessor S J C cfg s = Inr (Inr (p, s'))" "gomap_ok (entries (MetricThresholds (Normalize cfg)))"
  shows "config p = Normalize cfg \<and> config_normal (config p) \<and> no_negative (MetricThresholds cfg) \<and>
     seeded p (Normalize cfg) \<and> dynamicThresholdsEnabled p = EnableDynamicThresholds (Normalize cfg) \<and>
     multiMetricEnabled p = EnableMultiMetric (Normalize cfg) \<and>
     (persistenceEnabled p \<longrightarrow> EnableStorage cfg \<noteq> Some False \<and> storage p \<noteq> None)"
proof -
  from newProcessor_Inr [OF assms(1)] obtain b path s1 where
    v: "Validate (validate1 C) (validate2 C) (validate3 C) (Normalize cfg) = None"
    and s: "setupStorage S J path (freshProcessor (Normalize cfg) b (initNow C) (seedOrder C)) s1 = Inr (p, s')"
    and b: "b = (case EnableStorage cfg of Some b \<Rightarrow> b | None \<Rightarrow> True)" .
  let ?f = "freshProcessor (Normalize cfg) b (initNow C) (seedOrder C)"
  have "no_negative (MetricThresholds cfg)"
    using v unfolding Validate_normal [OF config_normal_Normalize] by (simp add: no_negative_Normalize)
  moreover have "seeded p (Normalize cfg)"
    using freshProcessor_dynamic [OF assms(2), of b "initNow C" "seedOrder C"] setupStorage_settings [OF s]
    by (simp add: seeded_def dynamic_of_def)
  moreover have "config ?f = Normalize cfg" "persistenceEnabled ?f = b"
    "dynamicThresholdsEnabled ?f = EnableDynamicThresholds (Normalize cfg)"
    "multiMetricEnabled ?f = EnableMultiMetric (Normalize cfg)"
    by (simp_all add: freshProcessor_def)
  ultimately show ?thesis
    using setupStorage_settings [OF s] b config_normal_Normalize by (auto split: option.splits)
qed

definition sample_choices :: init_choices where
  "sample_choices = \<lparr>validate1 = [], validate2 = [], validate3 = [], seedOrder = [], initNow = 5\<rparr>"

definition failing_codec :: entity_codec where
  "failing_codec = \<lparr>marshal_entities = (\<lambda>_. Inl []), unmarshal_entities = (\<lambda>_. Inl [])\<rparr>"

lemma sample_new:
  obtains p s where "newProcessor sample_os failing_codec sample_choices sample_config [] = Inr (Inr (p, s))"
    "trackedEntities p = Some []" "dynamicCustomThresholds p \<noteq> None" "IncludeProcessList (config p) = []"
proof -
  let ?r = "newProcessor sample_os failing_codec sample_choices sample_config []"
  have "(case ?r of Inr (Inr (p, s)) \<Rightarrow> trackedEntities p = Some [] \<and> dynamicCustomThresholds p \<noteq> None \<and>
      IncludeProcessList (config p) = [] | _ \<Rightarrow> False)"
    by code_simp
  then show thesis using that by (auto split: sum.splits prod.splits)
qed

theorem construction_sound_witness:
  "\<exists>p s. newProcessor sample_os failing_codec sample_choices sample_config [] = Inr (Inr (p, s)) \<and>
     config_normal (config p) \<and> dynamic_of p ''m'' = Some (Fin 5)"
proof -
  obtain p s where n: "newProcessor sample_os failing_codec sample_choices sample_config [] = Inr (Inr (p, s))"
    by (rule sample_new)
  have "gomap_ok (entries (MetricThresholds (Normalize sample_config)))"
    "lookup (MetricThresholds (Normalize sample_config)) ''m'' = Some (Fin 5)" "flt (Fin 0) (Fin 5)"
    by code_simp+
  with construction_sound [OF n this(1)] n show ?thesis by (auto simp: seeded_def)
qed



end
