(* ===== verification/Atp_Process.thy ===== *)
theory Atp_Process
  imports Atp_Evaluate Atp_Init
begin

text \<open>
  One batch (process_metrics.go, lines 17 to 282 and 775 to 828): the checks of the context, the
  update of the dynamic thresholds, the loop over the resources, the clean-up and the summary.
  The resources of the incoming batch are mutated in place, so a batch yields both the filtered
  metrics and the mutated input; when the context is cancelled in the middle of the loop the two
  are the same object.
\<close>

section \<open>What a batch draws from its surroundings\<close>

text \<open>
  \<open>ctx_err 0\<close> is the answer of \<open>ctx.Err()\<close> before the loop, \<open>ctx_err i\<close> the one before resource
  \<open>i\<close>; \<open>random\<close> is the result of \<open>rand.Float64()\<close>.
\<close>

record batch =
  ctx_err :: "nat \<Rightarrow> string option"
  sinceNow :: time
  checkNow :: time
  startNow :: time
  updatedNow :: time
  keyOrder :: "nat list"
  per_resource :: "nat \<Rightarrow> env"
  random :: f64
  cleanupNow :: time
  summaryNow :: time
  summary_env :: "nat \<Rightarrow> env"

section \<open>Counting\<close>

type_synonym counts = "(string, nat) gomap"

definition bump :: "string \<Rightarrow> counts \<Rightarrow> counts" where
  "bump k m = AList.update k (Suc (case map_of m k of Some n \<Rightarrow> n | None \<Rightarrow> 0)) m"

fun metricTypeName :: "metric_data \<Rightarrow> string" where
  "metricTypeName (Gauge _) = ''gauge''"
| "metricTypeName (Sum _) = ''sum''"
| "metricTypeName (Histogram _) = ''histogram''"
| "metricTypeName (Summary _) = ''summary''"
| "metricTypeName (ExponentialHistogram _) = ''exp_histogram''"
| "metricTypeName NoData = ''unknown''"

definition countScope :: "nat \<times> counts \<Rightarrow> scope_metrics \<Rightarrow> nat \<times> counts" where
  "countScope = (\<lambda>(total, types) sm.
     (total + length (Metrics sm), foldl (\<lambda>t m. bump (metricTypeName (Data m)) t) types (Metrics sm)))"

definition countMetricsByType :: "metrics \<Rightarrow> counts \<Rightarrow> nat \<times> counts" where
  "countMetricsByType md types =
     foldl (\<lambda>acc rm. foldl countScope acc (ScopeMetrics rm)) (0, types) md"

definition countOutputMetrics :: "metrics \<Rightarrow> nat" where
  "countOutputMetrics filtered =
     foldl (\<lambda>n rm. foldl (\<lambda>n sm. n + length (Metrics sm)) n (ScopeMetrics rm)) 0 filtered"

record processingContext =
  resourceCount :: nat
  totalMetricCount :: nat
  metricTypeCount :: counts
  stageHits :: counts

definition initializeProcessingContext :: "metrics \<Rightarrow> processingContext" where
  "initializeProcessingContext md =
     (let (total, types) = countMetricsByType md []
      in \<lparr>resourceCount = length md, totalMetricCount = total, metricTypeCount = types,
          stageHits = []\<rparr>)"

section \<open>Dynamic thresholds\<close>

definition updateDynamicThresholdsIfNeeded ::
  "lib \<Rightarrow> batch \<Rightarrow> metrics \<Rightarrow> processorImp \<Rightarrow> processorImp go" where
  "updateDynamicThresholdsIfNeeded L B md p =
     (if \<not> dynamicThresholdsEnabled p \<or>
         flt (dur_seconds (time_sub (sinceNow B) (lastThresholdUpdate p)))
             (f64_of_int dynamicUpdateIntervalSecs)
      then Inr p
      else andThen (updateDynamicThresholds L (checkNow B) (startNow B) (keyOrder B) md p)
             (\<lambda>p1. Inr (p1\<lparr>lastThresholdUpdate := updatedNow B\<rparr>)))"

section \<open>One resource\<close>

text \<open>The copy that goes into the output.\<close>

definition includedAttributes :: "Config \<Rightarrow> string \<Rightarrow> attrs \<Rightarrow> attrs" where
  "includedAttributes cfg includeReason attrs =
     (let attrs1 = (if includeReason \<noteq> stageDefaultInclusion \<and> includeReason \<noteq> []
            then attr_put ''process.atp.enabled'' (VBool True) attrs else attrs)
      in if DebugShowAllFilterStages cfg then attrs1
         else attr_remove internalFilterStageAttributeKey attrs1)"

definition handleIncludedResource ::
  "processorImp \<Rightarrow> resource_metrics \<Rightarrow> string \<Rightarrow> metrics \<Rightarrow> metrics" where
  "handleIncludedResource p rm includeReason filtered =
     filtered @ [rm\<lparr>Resource := includedAttributes (config p) includeReason (Resource rm)\<rparr>]"

definition includeReasonOf :: "lib \<Rightarrow> attrs \<Rightarrow> string" where
  "includeReasonOf L attrs =
     (case attr_get attrs internalFilterStageAttributeKey of Some v \<Rightarrow> as_string L v | None \<Rightarrow> [])"

text \<open>Whether it was included, the resource as it is afterwards, the output, the hits, the state.\<close>

definition processingSingleResource ::
  "lib \<Rightarrow> env \<Rightarrow> resource_metrics \<Rightarrow> metrics \<Rightarrow> counts \<Rightarrow> processorImp
     \<Rightarrow> (bool \<times> resource_metrics \<times> metrics \<times> counts \<times> processorImp) go" where
  "processingSingleResource L E rm filtered hits p =
     andThen (shouldIncludeResource L E rm p)
       (\<lambda>(ok, attrs, p1).
          let rm1 = rm\<lparr>Resource := attrs\<rparr>; reason = includeReasonOf L attrs
          in Inr (if ok
             then (True, rm1, handleIncludedResource p1 rm1 reason filtered, bump reason hits, p1)
             else (False, rm1, filtered, hits, p1)))"

section \<open>All resources\<close>

definition unmarked :: "resource_metrics \<Rightarrow> bool" where
  "unmarked rm = (\<not> has_attr (Resource rm) internalFilterStageAttributeKey)"

definition markTimeout :: "resource_metrics \<Rightarrow> resource_metrics" where
  "markTimeout rm = (if unmarked rm
     then rm\<lparr>Resource := setResourceFilterStage stageResourceProcessingTimeout (Resource rm)\<rparr>
     else rm)"

text \<open>
  \<open>seen\<close> are the resources already processed, as they are now; \<open>returnedInput\<close> tells that the
  function returned the input batch itself.
\<close>

record loop_result =
  inputThen :: metrics
  outputSoFar :: metrics
  returnedInput :: bool
  hitsAfter :: counts
  includedCount :: nat
  procAfter :: processorImp

fun processLoop ::
  "lib \<Rightarrow> batch \<Rightarrow> nat \<Rightarrow> metrics \<Rightarrow> metrics \<Rightarrow> metrics \<Rightarrow> counts \<Rightarrow> nat \<Rightarrow> processorImp
     \<Rightarrow> loop_result go" where
  "processLoop L B i seen [] filtered hits n p =
     Inr \<lparr>inputThen = seen, outputSoFar = filtered, returnedInput = False, hitsAfter = hits,
          includedCount = n, procAfter = p\<rparr>"
| "processLoop L B i seen (rm # rest) filtered hits n p =
     (if 0 < i \<and> i mod 25 = 0 \<and> ctx_err B i \<noteq> None then
        (let all = seen @ rm # rest; md = map markTimeout all
         in Inr \<lparr>inputThen = md, outputSoFar = md, returnedInput = True,
                 hitsAfter = foldl (\<lambda>h _. bump stageResourceProcessingTimeout h) hits (filter unmarked all),
                 includedCount = 0, procAfter = p\<rparr>)
      else andThen (processingSingleResource L (per_resource B i) rm filtered hits p)
        (\<lambda>(ok, rm1, filtered1, hits1, p1).
           processLoop L B (Suc i) (seen @ [rm1]) rest filtered1 hits1 (if ok then Suc n else n) p1))"

definition processAllResources ::
  "lib \<Rightarrow> batch \<Rightarrow> counts \<Rightarrow> metrics \<Rightarrow> processorImp \<Rightarrow> loop_result go" where
  "processAllResources L B hits md p = processLoop L B 0 [] md [] hits 0 p"

section \<open>The summary\<close>

definition efficiencyRatio :: "nat \<Rightarrow> nat \<Rightarrow> f64" where
  "efficiencyRatio inputResourceCount outputResourceCount =
     fdiv (f64_of_int (int inputResourceCount - int outputResourceCount))
          (f64_of_int (int inputResourceCount))"

definition summaryDetails :: "time \<Rightarrow> nat \<Rightarrow> nat \<Rightarrow> counts \<Rightarrow> json" where
  "summaryDetails t inputResourceCount outputResourceCount hits = JObj
     [(''source'', JStr ''adaptive_telemetry_processor''),
      (''metric_type'', JStr ''filter_summary''),
      (''efficiency_ratio'', JNum (efficiencyRatio inputResourceCount outputResourceCount)),
      (''total_resource_count'', JInt (int inputResourceCount)),
      (''resources_filtered_count'', JInt (int inputResourceCount - int outputResourceCount)),
      (''resources_included_count'', JInt (int outputResourceCount)),
      (''stage_hits'', JObj (map (\<lambda>(k, n). (k, JInt (int n))) hits)),
      (''evaluation_timestamp'', JInt (unix_seconds t))]"

definition addSummary ::
  "lib \<Rightarrow> batch \<Rightarrow> processorImp \<Rightarrow> json \<Rightarrow> nat \<times> resource_metrics \<Rightarrow> resource_metrics" where
  "addSummary L B p details = (\<lambda>(i, rm).
     if isResourceTargeted (summary_env B i) p (extractMetricValues L p rm)
     then rm\<lparr>Resource := updateProcessATPAttribute L ''filtering_summary'' details (Resource rm)\<rparr>
     else rm)"

definition generateFilteringSummaryMetrics ::
  "lib \<Rightarrow> batch \<Rightarrow> processorImp \<Rightarrow> nat \<Rightarrow> nat \<Rightarrow> counts \<Rightarrow> metrics \<Rightarrow> metrics" where
  "generateFilteringSummaryMetrics L B p inputResourceCount outputResourceCount hits filtered =
     (if inputResourceCount = 0 \<or> filtered = [] then filtered
      else map (addSummary L B p (summaryDetails (summaryNow B) inputResourceCount outputResourceCount hits))
             (enumerate 0 filtered))"

definition cleanupProbability :: f64 where
  "cleanupProbability = rnd (1 / 100)"

definition performPostProcessingTasks ::
  "lib \<Rightarrow> batch \<Rightarrow> processingContext \<Rightarrow> metrics \<Rightarrow> processorImp \<Rightarrow> metrics \<times> processorImp" where
  "performPostProcessingTasks L B ctx filtered p =
     (let p1 = (if 0 < resourceCount ctx \<and> 0 < RetentionMinutes (config p) \<and>
                  flt (random B) cleanupProbability
                then cleanupExpiredEntities (cleanupNow B) p else p)
      in (generateFilteringSummaryMetrics L B p1 (resourceCount ctx) (length filtered)
            (stageHits ctx) filtered, p1))"

section \<open>The batch\<close>

text \<open>The returned metrics, the error, the input batch as it is afterwards, the processor.\<close>

record batch_result =
  filteredMetrics :: metrics
  batchError :: "string option"
  inputAfter :: metrics
  processorAfter :: processorImp

definition handleContextCancellation :: "string option \<Rightarrow> metrics \<Rightarrow> processorImp \<Rightarrow> batch_result" where
  "handleContextCancellation e md p =
     \<lparr>filteredMetrics = md, batchError = e, inputAfter = md, processorAfter = p\<rparr>"

definition processMetrics :: "lib \<Rightarrow> batch \<Rightarrow> metrics \<Rightarrow> processorImp \<Rightarrow> batch_result go" where
  "processMetrics L B md p =
     (if md = [] then
        Inr \<lparr>filteredMetrics = md, batchError = None, inputAfter = md, processorAfter = p\<rparr>
      else
        (let ctx = initializeProcessingContext md
         in if ctx_err B 0 \<noteq> None then Inr (handleContextCancellation (ctx_err B 0) md p)
            else andThen (updateDynamicThresholdsIfNeeded L B md p) (\<lambda>p1.
              andThen (processAllResources L B (stageHits ctx) md p1) (\<lambda>r.
                case performPostProcessingTasks L B (ctx\<lparr>stageHits := hitsAfter r\<rparr>) (outputSoFar r)
                       (procAfter r) of
                  (filtered, p2) \<Rightarrow>
                    Inr \<lparr>filteredMetrics = filtered, batchError = None,
                         inputAfter = (if returnedInput r then filtered else inputThen r),
                         processorAfter = p2\<rparr>))))"

section \<open>Counting, in closed form\<close>

lemma bump_lookup: "map_of (bump k m) j = (if j = k then Some (Suc (case map_of m k of Some n \<Rightarrow> n | None \<Rightarrow> 0)) else map_of m j)"
  by (simp add: bump_def)

definition total_hits :: "counts \<Rightarrow> nat" where
  "total_hits m = sum_list (map snd m)"

lemma total_hits_update:
  "gomap_ok m \<Longrightarrow> total_hits (AList.update k v m) + (case map_of m k of Some n \<Rightarrow> n | None \<Rightarrow> 0) =
     v + total_hits m"
proof (induction m)
  case (Cons e m)
  obtain j n where e: "e = (j, n)" by (cases e)
  have "map_of m j = None" "gomap_ok m"
    using Cons.prems by (auto simp: e gomap_ok_def map_of_eq_None_iff)
  then show ?case using Cons.IH by (auto simp: e total_hits_def)
qed (simp add: total_hits_def)

lemma total_hits_bump [simp]: "gomap_ok m \<Longrightarrow> total_hits (bump k m) = Suc (total_hits m)"
  using total_hits_update [of m k "Suc (case map_of m k of Some n \<Rightarrow> n | None \<Rightarrow> 0)"]
  unfolding bump_def by linarith

lemma gomap_ok_bump [simp]: "gomap_ok m \<Longrightarrow> gomap_ok (bump k m)"
  by (simp add: bump_def)

lemma countOutputMetrics_eq: "countOutputMetrics md = length (metrics_of md)"
proof -
  have 1: "foldl (\<lambda>n sm. n + length (Metrics sm)) n sms = n + length (concat (map Metrics sms))" for n sms
    by (induction sms arbitrary: n) auto
  have "foldl (\<lambda>n rm. foldl (\<lambda>n sm. n + length (Metrics sm)) n (ScopeMetrics rm)) n md = n + length (metrics_of md)" for n
    by (induction md arbitrary: n) (simp_all add: metrics_of_resource_def 1)
  then show ?thesis by (simp add: countOutputMetrics_def)
qed

lemma countScope_fold:
  "fst (foldl countScope acc sms) = fst acc + length (concat (map Metrics sms))"
  by (induction sms arbitrary: acc) (auto simp: countScope_def split: prod.split)

lemma countMetricsByType_total: "fst (countMetricsByType md types) = length (metrics_of md)"
proof -
  have "fst (foldl (\<lambda>acc rm. foldl countScope acc (ScopeMetrics rm)) acc md) = fst acc + length (metrics_of md)" for acc
    by (induction md arbitrary: acc) (auto simp: countScope_fold metrics_of_resource_def)
  then show ?thesis by (simp add: countMetricsByType_def)
qed

section \<open>One resource\<close>

lemma processingSingleResource_Inr:
  "processingSingleResource L E rm filtered hits p = Inr (ok, rm1, filtered1, hits1, p1) \<longleftrightarrow>
     (\<exists>attrs. shouldIncludeResource L E rm p = Inr (ok, attrs, p1) \<and> rm1 = rm\<lparr>Resource := attrs\<rparr> \<and>
        filtered1 = (if ok then handleIncludedResource p1 rm1 (includeReasonOf L attrs) filtered else filtered) \<and>
        hits1 = (if ok then bump (includeReasonOf L attrs) hits else hits))"
  by (auto simp: processingSingleResource_def Let_def andThen_Inr_iff)

lemma includedAttributes_clean:
  "\<not> DebugShowAllFilterStages cfg \<Longrightarrow> \<not> has_attr (includedAttributes cfg r a) internalFilterStageAttributeKey"
  by (simp add: includedAttributes_def has_attr_def Let_def)

lemma includedAttributes_get:
  "attr_get (includedAttributes cfg r a) k =
     (if k = internalFilterStageAttributeKey \<and> \<not> DebugShowAllFilterStages cfg then None
      else if k = ''process.atp.enabled'' \<and> r \<noteq> stageDefaultInclusion \<and> r \<noteq> [] then Some (VBool True)
      else attr_get a k)"
  by (auto simp: includedAttributes_def Let_def internalFilterStageAttributeKey_def)

section \<open>The loop\<close>

definition stopped :: "batch \<Rightarrow> nat \<Rightarrow> bool" where
  "stopped B i = (0 < i \<and> i mod 25 = 0 \<and> ctx_err B i \<noteq> None)"

lemma processLoop_stop:
  "stopped B i \<Longrightarrow> processLoop L B i seen (rm # rest) filtered hits n p =
     Inr \<lparr>inputThen = map markTimeout (seen @ rm # rest),
          outputSoFar = map markTimeout (seen @ rm # rest), returnedInput = True,
          hitsAfter = foldl (\<lambda>h _. bump stageResourceProcessingTimeout h) hits
            (filter unmarked (seen @ rm # rest)),
          includedCount = 0, procAfter = p\<rparr>"
  unfolding stopped_def processLoop.simps Let_def by (simp only: simp_thms if_True)

lemma processLoop_go:
  "\<not> stopped B i \<Longrightarrow> processLoop L B i seen (rm # rest) filtered hits n p = Inr r \<longleftrightarrow>
     (\<exists>ok rm1 f1 h1 p1.
        processingSingleResource L (per_resource B i) rm filtered hits p = Inr (ok, rm1, f1, h1, p1) \<and>
        processLoop L B (Suc i) (seen @ [rm1]) rest f1 h1 (if ok then Suc n else n) p1 = Inr r)"
  unfolding stopped_def processLoop.simps by (simp only: if_False andThen_Inr_iff split_paired_Ex prod.case)

declare processLoop.simps(2) [simp del]

text \<open>What every evaluation preserves, the loop preserves.\<close>

lemma processLoop_inv:
  assumes "processLoop L B i seen rest filtered hits n p = Inr r" "Q p"
    and "\<And>E rm p ok a p'. Q p \<Longrightarrow> shouldIncludeResource L E rm p = Inr (ok, a, p') \<Longrightarrow> Q p'"
  shows "Q (procAfter r)"
  using assms(1,2)
proof (induction rest arbitrary: i seen filtered hits n p)
  case (Cons rm rest)
  show ?case
  proof (cases "stopped B i")
    case True
    with Cons.prems show ?thesis by (auto simp: processLoop_stop)
  next
    case False
    then obtain ok rm1 f1 h1 p1 where
      s: "processingSingleResource L (per_resource B i) rm filtered hits p = Inr (ok, rm1, f1, h1, p1)"
      and l: "processLoop L B (Suc i) (seen @ [rm1]) rest f1 h1 (if ok then Suc n else n) p1 = Inr r"
      using Cons.prems(1) by (auto simp: processLoop_go)
    have "Q p1" using s Cons.prems(2) assms(3) by (auto simp: processingSingleResource_Inr)
    then show ?thesis using Cons.IH [OF l] by blast
  qed
qed auto

definition debug_off :: "processorImp \<Rightarrow> bool" where
  "debug_off p = (\<not> DebugShowAllFilterStages (config p))"

text \<open>
  Unless the batch was cancelled, the output is a subsequence of the input (with changed
  attributes), without internal attributes, and the hits count its resources.
\<close>

definition loop_ok :: "bool \<Rightarrow> metrics \<Rightarrow> metrics \<Rightarrow> metrics \<Rightarrow> counts \<Rightarrow> nat \<Rightarrow> loop_result \<Rightarrow> bool" where
  "loop_ok clean seen rest filtered hits n r \<longleftrightarrow>
     map ScopeMetrics (inputThen r) = map ScopeMetrics (seen @ rest) \<and>
     (returnedInput r \<longrightarrow> outputSoFar r = inputThen r \<and> (\<forall>rm\<in>set (outputSoFar r). \<not> unmarked rm)) \<and>
     (\<not> returnedInput r \<longrightarrow> (\<exists>out. outputSoFar r = filtered @ out \<and>
        subseq (map ScopeMetrics out) (map ScopeMetrics rest) \<and>
        (clean \<longrightarrow> list_all unmarked out) \<and>
        includedCount r = n + length out \<and>
        (gomap_ok hits \<longrightarrow> gomap_ok (hitsAfter r) \<and> total_hits (hitsAfter r) = total_hits hits + length out)))"

lemma ScopeMetrics_markTimeout [simp]: "ScopeMetrics (markTimeout rm) = ScopeMetrics rm"
  by (simp add: markTimeout_def)

lemma unmarked_markTimeout [simp]: "\<not> unmarked (markTimeout rm)"
  by (simp add: markTimeout_def unmarked_def setResourceFilterStage_def)

lemma loop_ok_included:
  assumes "loop_ok c (seen @ [rm1]) rest (filtered @ [d]) h1 (Suc n) r"
    and "ScopeMetrics rm1 = ScopeMetrics rm" "ScopeMetrics d = ScopeMetrics rm" "c \<Longrightarrow> unmarked d"
    and "h1 = bump k hits"
  shows "loop_ok c seen (rm # rest) filtered hits n r"
proof (cases "returnedInput r")
  case False
  with assms obtain out where o: "outputSoFar r = (filtered @ [d]) @ out"
    "subseq (map ScopeMetrics out) (map ScopeMetrics rest)" "c \<longrightarrow> list_all unmarked out"
    "includedCount r = Suc n + length out"
    "gomap_ok h1 \<longrightarrow> gomap_ok (hitsAfter r) \<and> total_hits (hitsAfter r) = total_hits h1 + length out"
    unfolding loop_ok_def by blast
  have "outputSoFar r = filtered @ (d # out) \<and> subseq (map ScopeMetrics (d # out)) (map ScopeMetrics (rm # rest)) \<and>
    (c \<longrightarrow> list_all unmarked (d # out)) \<and> includedCount r = n + length (d # out) \<and>
    (gomap_ok hits \<longrightarrow> gomap_ok (hitsAfter r) \<and> total_hits (hitsAfter r) = total_hits hits + length (d # out))"
    using o assms(3-5) by simp
  then have ex: "\<exists>o'. outputSoFar r = filtered @ o' \<and> subseq (map ScopeMetrics o') (map ScopeMetrics (rm # rest)) \<and>
    (c \<longrightarrow> list_all unmarked o') \<and> includedCount r = n + length o' \<and>
    (gomap_ok hits \<longrightarrow> gomap_ok (hitsAfter r) \<and> total_hits (hitsAfter r) = total_hits hits + length o')"
    by blast
  have "map ScopeMetrics (inputThen r) = map ScopeMetrics (seen @ rm # rest)"
    using assms(1,2) by (simp add: loop_ok_def)
  with False ex show ?thesis unfolding loop_ok_def by blast
qed (use assms in \<open>auto simp: loop_ok_def\<close>)

lemma loop_ok_excluded:
  assumes "loop_ok c (seen @ [rm1]) rest filtered hits n r" "ScopeMetrics rm1 = ScopeMetrics rm"
  shows "loop_ok c seen (rm # rest) filtered hits n r"
  using assms unfolding loop_ok_def by (simp, meson list_emb_Cons)

lemma processLoop_ok:
  "processLoop L B i seen rest filtered hits n p = Inr r \<Longrightarrow>
     loop_ok (debug_off p) seen rest filtered hits n r"
proof (induction rest arbitrary: i seen filtered hits n p)
  case Nil
  then show ?case by (auto simp: loop_ok_def)
next
  case (Cons rm rest)
  show ?case
  proof (cases "stopped B i")
    case True
    with Cons.prems show ?thesis by (auto simp: loop_ok_def processLoop_stop)
  next
    case False
    with Cons.prems obtain ok rm1 f1 h1 p1 where s:
      "processingSingleResource L (per_resource B i) rm filtered hits p = Inr (ok, rm1, f1, h1, p1)"
      and l: "processLoop L B (Suc i) (seen @ [rm1]) rest f1 h1 (if ok then Suc n else n) p1 = Inr r"
      by (auto simp: processLoop_go)
    note IH = Cons.IH [OF l]
    from s obtain a where a: "shouldIncludeResource L (per_resource B i) rm p = Inr (ok, a, p1)"
      "rm1 = rm\<lparr>Resource := a\<rparr>"
      "f1 = (if ok then handleIncludedResource p1 rm1 (includeReasonOf L a) filtered else filtered)"
      "h1 = (if ok then bump (includeReasonOf L a) hits else hits)"
      by (auto simp: processingSingleResource_Inr)
    have d: "debug_off p1 = debug_off p"
      using shouldIncludeResource_settings [OF a(1)] by (simp add: same_settings_def debug_off_def)
    show ?thesis
    proof (cases ok)
      case True
      let ?d = "rm1\<lparr>Resource := includedAttributes (config p1) (includeReasonOf L a) (Resource rm1)\<rparr>"
      have "unmarked ?d" if "debug_off p"
        using that d includedAttributes_clean by (simp add: unmarked_def debug_off_def)
      moreover from IH True a(3,4) d have "loop_ok (debug_off p) (seen @ [rm1]) rest (filtered @ [?d])
          (bump (includeReasonOf L a) hits) (Suc n) r"
        by (simp add: handleIncludedResource_def)
      moreover have "ScopeMetrics rm1 = ScopeMetrics rm" "ScopeMetrics ?d = ScopeMetrics rm"
        using a(2) by simp_all
      ultimately show ?thesis using loop_ok_included [OF _ _ _ _ refl] by blast
    next
      case False
      then show ?thesis using IH a d by (intro loop_ok_excluded [of _ seen rm1]) simp_all
    qed
  qed
qed

text \<open>No cancellation is noticed in a batch of at most 25 resources, nor with a context that lasts.\<close>

lemma processLoop_uncancelled:
  assumes "processLoop L B i seen rest filtered hits n p = Inr r"
    and "\<And>j. i \<le> j \<Longrightarrow> j < i + length rest \<Longrightarrow> \<not> stopped B j"
  shows "\<not> returnedInput r"
  using assms
proof (induction rest arbitrary: i seen filtered hits n p)
  case (Cons rm rest)
  have no: "\<not> stopped B i" using Cons.prems(2) [of i] by simp
  with Cons.prems obtain ok rm1 f1 h1 p1 where
    l: "processLoop L B (Suc i) (seen @ [rm1]) rest f1 h1 (if ok then Suc n else n) p1 = Inr r"
    by (auto simp: processLoop_go)
  show ?case by (rule Cons.IH [OF l]) (use Cons.prems(2) in auto)
qed auto

lemma processLoop_returns:
  assumes "trackedEntities p \<noteq> None" "\<forall>rm\<in>set rest. list_check_safe L p (Resource rm)"
  shows "\<exists>r. processLoop L B i seen rest filtered hits n p = Inr r \<and> trackedEntities (procAfter r) \<noteq> None"
  using assms
proof (induction rest arbitrary: i seen filtered hits n p)
  case (Cons rm rest)
  from Cons.prems obtain ok a p1 where s: "shouldIncludeResource L (per_resource B i) rm p = Inr (ok, a, p1)"
    "trackedEntities p1 \<noteq> None"
    using shouldIncludeResource_returns [of p L rm] by fastforce
  then obtain rm1 f1 h1 where sp:
    "processingSingleResource L (per_resource B i) rm filtered hits p = Inr (ok, rm1, f1, h1, p1)"
    by (simp add: processingSingleResource_Inr)
  have safe: "\<forall>rm\<in>set rest. list_check_safe L p1 (Resource rm)"
    using Cons.prems(2) shouldIncludeResource_settings [OF s(1)] by (auto simp: list_check_safe_def same_settings_def)
  show ?case
  proof (cases "stopped B i")
    case True
    then show ?thesis using Cons.prems(1) by (simp add: processLoop_stop)
  next
    case False
    from Cons.IH [OF s(2) safe] obtain r where
      "processLoop L B (Suc i) (seen @ [rm1]) rest f1 h1 (if ok then Suc n else n) p1 = Inr r"
      "trackedEntities (procAfter r) \<noteq> None" by blast
    then have "processLoop L B i seen (rm # rest) filtered hits n p = Inr r"
      using processLoop_go [OF False] sp by blast
    with \<open>trackedEntities (procAfter r) \<noteq> None\<close> show ?thesis by blast
  qed
qed auto

section \<open>The update of the thresholds in a batch\<close>

lemma enough_time: "\<not> flt (dur_seconds (time_sub t u)) (f64_of_int dynamicUpdateIntervalSecs) \<longleftrightarrow> 60 * second \<le> t - u"
proof -
  have "flt (dur_seconds (time_sub t u)) (f64_of_int dynamicUpdateIntervalSecs) \<longleftrightarrow> time_sub t u < 60 * second"
    using dur_seconds_less_iff [of "time_sub t u" 60] by (simp add: dynamicUpdateIntervalSecs_def)
  also have "\<dots> \<longleftrightarrow> t - u < 60 * second"
    by (subst time_sub_less_iff) (simp_all add: is_int64_def second_def)
  finally show ?thesis by (simp add: not_less)
qed

lemma threshold_fields_swap:
  "p\<lparr>dynamicCustomThresholds := d, lastThresholdUpdate := t\<rparr> =
   p\<lparr>lastThresholdUpdate := t, dynamicCustomThresholds := d\<rparr>"
  by simp

text \<open>The inner check asks for half the interval only, so it never decides.\<close>

lemma inner_check_redundant:
  assumes "60 * second \<le> t - lastThresholdUpdate p" "t \<le> t'" "dynamicThresholdsEnabled p"
  shows "shouldUpdateDynamicThresholds t' p"
proof -
  have "quot (dynamicUpdateIntervalSecs * second) 2 = 30000000000"
    by (simp add: dynamicUpdateIntervalSecs_def second_def)
  moreover have "\<not> time_sub t' (lastThresholdUpdate p) < 30000000000"
    using assms(1,2) by (subst time_sub_less_iff) (simp_all add: is_int64_def second_def)
  ultimately show ?thesis using assms(3) by (simp add: shouldUpdateDynamicThresholds_def)
qed

lemma updateIfNeeded_skip:
  "\<not> dynamicThresholdsEnabled p \<or> sinceNow B - lastThresholdUpdate p < 60 * second \<Longrightarrow>
     updateDynamicThresholdsIfNeeded L B md p = Inr p"
  using enough_time [of "sinceNow B" "lastThresholdUpdate p"]
  by (auto simp: updateDynamicThresholdsIfNeeded_def)

lemma updateIfNeeded_run:
  assumes "dynamicThresholdsEnabled p" "60 * second \<le> sinceNow B - lastThresholdUpdate p"
    and "sinceNow B \<le> checkNow B" "dynamicCustomThresholds p = Some d"
  shows "\<exists>d'. updateDynamicThresholdsIfNeeded L B md p =
       Inr (p\<lparr>lastThresholdUpdate := updatedNow B, dynamicCustomThresholds := Some d'\<rparr>) \<and>
     (gomap_ok d \<longrightarrow> gomap_ok d') \<and> map_of d' = updated_dynamic L md p"
proof -
  have "\<not> flt (dur_seconds (time_sub (sinceNow B) (lastThresholdUpdate p))) (f64_of_int dynamicUpdateIntervalSecs)"
    using enough_time assms(2) by blast
  moreover from updateDynamicThresholds_spec [OF inner_check_redundant [OF assms(2,3,1)] assms(4)]
  obtain d' where "updateDynamicThresholds L (checkNow B) (startNow B) (keyOrder B) md p =
       Inr (p\<lparr>lastThresholdUpdate := startNow B, dynamicCustomThresholds := Some d'\<rparr>)"
    "gomap_ok d \<longrightarrow> gomap_ok d'" "map_of d' = updated_dynamic L md p" by blast
  ultimately show ?thesis using assms(1)
    by (auto simp: updateDynamicThresholdsIfNeeded_def threshold_fields_swap intro!: exI [of _ d'])
qed

text \<open>Whatever the clock says, only the thresholds and the time of the update can change.\<close>

lemma updateDynamicThresholds_shape:
  assumes "dynamicCustomThresholds p \<noteq> None"
  shows "\<exists>u d'. updateDynamicThresholds L t s ks md p = Inr (p\<lparr>lastThresholdUpdate := u, dynamicCustomThresholds := Some d'\<rparr>)"
proof (cases "shouldUpdateDynamicThresholds t p")
  case True
  obtain d where "dynamicCustomThresholds p = Some d" using assms by blast
  from updateDynamicThresholds_spec [OF True this] show ?thesis by blast
next
  case False
  obtain d where d: "dynamicCustomThresholds p = Some d" using assms by blast
  have "p = p\<lparr>lastThresholdUpdate := lastThresholdUpdate p, dynamicCustomThresholds := Some d\<rparr>"
    using d by simp
  with False show ?thesis by (auto simp: updateDynamicThresholds_def simp del: threshold_fields_swap
    intro!: exI [of _ "lastThresholdUpdate p"] exI [of _ d])
qed

lemma updateIfNeeded_shape:
  assumes "dynamicCustomThresholds p \<noteq> None"
  shows "\<exists>u d'. updateDynamicThresholdsIfNeeded L B md p = Inr (p\<lparr>lastThresholdUpdate := u, dynamicCustomThresholds := Some d'\<rparr>)"
proof -
  obtain d where d: "dynamicCustomThresholds p = Some d" using assms by blast
  have "p = p\<lparr>lastThresholdUpdate := lastThresholdUpdate p, dynamicCustomThresholds := Some d\<rparr>"
    using d by simp
  moreover obtain u d' where u: "updateDynamicThresholds L (checkNow B) (startNow B) (keyOrder B) md p =
      Inr (p\<lparr>lastThresholdUpdate := u, dynamicCustomThresholds := Some d'\<rparr>)"
    using updateDynamicThresholds_shape [OF assms] by blast
  moreover have "updateDynamicThresholdsIfNeeded L B md p = Inr p \<or>
      updateDynamicThresholdsIfNeeded L B md p =
        Inr (p\<lparr>lastThresholdUpdate := updatedNow B, dynamicCustomThresholds := Some d'\<rparr>)"
    unfolding updateDynamicThresholdsIfNeeded_def u by (simp add: threshold_fields_swap)
  ultimately show ?thesis by metis
qed

section \<open>The summary\<close>

lemma ScopeMetrics_addSummary [simp]: "ScopeMetrics (addSummary L B p d (i, rm)) = ScopeMetrics rm"
  by (simp add: addSummary_def)

lemma addSummary_attr:
  "k \<noteq> ''process.atp'' \<Longrightarrow> attr_get (Resource (addSummary L B p d (i, rm))) k = attr_get (Resource rm) k"
  by (simp add: addSummary_def updateProcessATPAttribute_other)

lemma addSummary_unmarked [simp]: "unmarked (addSummary L B p d (i, rm)) = unmarked rm"
  by (simp add: unmarked_def has_attr_def addSummary_attr)

lemma generateSummary_frame:
  "map ScopeMetrics (generateFilteringSummaryMetrics L B p n m h f) = map ScopeMetrics f"
  "list_all unmarked (generateFilteringSummaryMetrics L B p n m h f) = list_all unmarked f"
  "length (generateFilteringSummaryMetrics L B p n m h f) = length f"
proof -
  have "map ScopeMetrics (map (addSummary L B p d) (enumerate k f)) = map ScopeMetrics f" for d k
    by (induction f arbitrary: k) auto
  moreover have "list_all unmarked (map (addSummary L B p d) (enumerate k f)) = list_all unmarked f" for d k
    by (induction f arbitrary: k) auto
  ultimately show "map ScopeMetrics (generateFilteringSummaryMetrics L B p n m h f) = map ScopeMetrics f"
    "list_all unmarked (generateFilteringSummaryMetrics L B p n m h f) = list_all unmarked f"
    "length (generateFilteringSummaryMetrics L B p n m h f) = length f"
    by (simp_all add: generateFilteringSummaryMetrics_def)
qed

text \<open>The reported ratio of a batch is a proportion.\<close>

lemma efficiencyRatio_bounds:
  assumes "m \<le> n" "0 < n" "n \<le> 2 ^ 53"
  shows "fle (Fin 0) (efficiencyRatio n m)" "fle (efficiencyRatio n m) (Fin 1)"
proof -
  have n: "f64_of_int (int n) = Fin (of_nat n)" "f64_of_int (int n - int m) = Fin (of_nat n - of_nat m)"
    using assms by (simp_all add: f64_of_int_exact)
  have q: "0 \<le> (of_nat n - of_nat m) / (of_nat n :: rat)" "(of_nat n - of_nat m) / (of_nat n :: rat) \<le> 1"
    using assms by (simp_all add: field_simps)
  have e: "efficiencyRatio n m = (if n = m then Fin 0 else rnd ((of_nat n - of_nat m) / of_nat n))"
    using assms by (simp add: efficiencyRatio_def n fdiv_Fin signed_zero_def)
  have "fle (rnd 0) (rnd ((of_nat n - of_nat m) / of_nat n))" using q(1) by (rule rnd_mono)
  moreover have "fle (rnd ((of_nat n - of_nat m) / of_nat n)) (rnd (of_int 1))"
    using q(2) by (intro rnd_mono) simp
  moreover have "rnd (of_int 1) = Fin 1" using rnd_of_int [of 1] by simp
  ultimately show "fle (Fin 0) (efficiencyRatio n m)" "fle (efficiencyRatio n m) (Fin 1)"
    by (simp_all add: e)
qed

section \<open>The batch\<close>

text \<open>The four ways a batch can return.\<close>

lemma processMetrics_cases:
  assumes "processMetrics L B md p = Inr r"
  obtains (empty) "md = []" "r = \<lparr>filteredMetrics = [], batchError = None, inputAfter = [], processorAfter = p\<rparr>"
  | (cancelled) "md \<noteq> []" "ctx_err B 0 \<noteq> None" "r = handleContextCancellation (ctx_err B 0) md p"
  | (processed) p1 l where "md \<noteq> []" "ctx_err B 0 = None"
      "updateDynamicThresholdsIfNeeded L B md p = Inr p1"
      "processAllResources L B [] md p1 = Inr l"
      "processorAfter r = (if 0 < RetentionMinutes (config (procAfter l)) \<and> flt (random B) cleanupProbability
         then cleanupExpiredEntities (cleanupNow B) (procAfter l) else procAfter l)"
      "filteredMetrics r = generateFilteringSummaryMetrics L B (processorAfter r) (length md)
         (length (outputSoFar l)) (hitsAfter l) (outputSoFar l)"
      "batchError r = None"
      "inputAfter r = (if returnedInput l then filteredMetrics r else inputThen l)"
proof (cases "md = []")
  case True
  with assms empty show thesis by (simp add: processMetrics_def)
next
  case False
  note md = this
  show thesis
  proof (cases "ctx_err B 0 = None")
    case True
    have rc: "resourceCount (initializeProcessingContext md) = length md"
      "stageHits (initializeProcessingContext md) = []"
      by (simp_all add: initializeProcessingContext_def split: prod.split)
    from assms md True obtain p1 l where u: "updateDynamicThresholdsIfNeeded L B md p = Inr p1"
      and l: "processAllResources L B [] md p1 = Inr l"
      and r: "(case performPostProcessingTasks L B ((initializeProcessingContext md)\<lparr>stageHits := hitsAfter l\<rparr>)
              (outputSoFar l) (procAfter l) of (filtered, p2) \<Rightarrow>
            Inr \<lparr>filteredMetrics = filtered, batchError = None,
             inputAfter = (if returnedInput l then filtered else inputThen l), processorAfter = p2\<rparr>) = (Inr r :: batch_result go)"
      unfolding processMetrics_def Let_def rc by (auto simp: andThen_Inr_iff)
    from r md True show thesis
      by (intro processed [OF md True u l])
        (auto simp: performPostProcessingTasks_def rc Let_def split: prod.splits)
  next
    case False
    with assms md cancelled show thesis by (simp add: processMetrics_def del: not_None_eq)
  qed
qed

text \<open>What the update, every evaluation and the clean-up preserve, the batch preserves.\<close>

lemma processMetrics_inv:
  assumes "processMetrics L B md p = Inr r" "Q p"
    and "\<And>p1. Q p \<Longrightarrow> updateDynamicThresholdsIfNeeded L B md p = Inr p1 \<Longrightarrow> Q p1"
    and "\<And>E rm p ok a p'. Q p \<Longrightarrow> shouldIncludeResource L E rm p = Inr (ok, a, p') \<Longrightarrow> Q p'"
    and "\<And>p t. Q p \<Longrightarrow> Q (cleanupExpiredEntities t p)"
  shows "Q (processorAfter r)"
  using assms(1)
proof (cases rule: processMetrics_cases)
  case (processed p1 l)
  from assms(3) [OF assms(2) processed(3)] have "Q p1" .
  with processed(4) have "Q (procAfter l)"
    unfolding processAllResources_def by (rule processLoop_inv [OF _ _ assms(4)])
  then show ?thesis using processed(5) assms(5) by simp
qed (use assms(2) in \<open>simp_all add: handleContextCancellation_def\<close>)

text \<open>The output of a batch that was not cancelled.\<close>

definition uncancelled :: "batch \<Rightarrow> metrics \<Rightarrow> bool" where
  "uncancelled B md = (ctx_err B 0 = None \<and> (\<forall>i < length md. \<not> stopped B i))"

lemma short_uncancelled: "length md \<le> 25 \<Longrightarrow> ctx_err B 0 = None \<Longrightarrow> uncancelled B md"
  using mod_less [of _ 25] by (fastforce simp: uncancelled_def stopped_def)

lemma processMetrics_output:
  assumes "processMetrics L B md p = Inr r" "dynamicCustomThresholds p \<noteq> None" "uncancelled B md"
  shows "batchError r = None"
    "subseq (map ScopeMetrics (filteredMetrics r)) (map ScopeMetrics md)"
    "map ScopeMetrics (inputAfter r) = map ScopeMetrics md"
    "debug_off p \<Longrightarrow> list_all unmarked (filteredMetrics r)"
proof -
  have "batchError r = None \<and> subseq (map ScopeMetrics (filteredMetrics r)) (map ScopeMetrics md) \<and>
    map ScopeMetrics (inputAfter r) = map ScopeMetrics md \<and>
    (debug_off p \<longrightarrow> list_all unmarked (filteredMetrics r))"
    using assms(1)
  proof (cases rule: processMetrics_cases)
    case (processed p1 l)
    obtain u d' where "p1 = p\<lparr>lastThresholdUpdate := u, dynamicCustomThresholds := Some d'\<rparr>"
      using updateIfNeeded_shape [OF assms(2), of L B md] processed(3) by auto
    then have d: "debug_off p1 = debug_off p" by (simp add: debug_off_def)
    have "\<not> returnedInput l"
      using processed(4) assms(3) unfolding processAllResources_def uncancelled_def
      by (intro processLoop_uncancelled) auto
    with processLoop_ok [OF processed(4) [unfolded processAllResources_def]] processed d show ?thesis
      by (auto simp: loop_ok_def generateSummary_frame)
  qed (use assms(3) in \<open>auto simp: uncancelled_def handleContextCancellation_def\<close>)
  then show "batchError r = None"
    "subseq (map ScopeMetrics (filteredMetrics r)) (map ScopeMetrics md)"
    "map ScopeMetrics (inputAfter r) = map ScopeMetrics md"
    "debug_off p \<Longrightarrow> list_all unmarked (filteredMetrics r)" by blast+
qed

lemma processMetrics_returns:
  assumes "trackedEntities p \<noteq> None" "dynamicCustomThresholds p \<noteq> None"
    and "\<forall>rm\<in>set md. list_check_safe L p (Resource rm)"
  shows "\<exists>r. processMetrics L B md p = Inr r"
proof -
  obtain u d' where u: "updateDynamicThresholdsIfNeeded L B md p =
      Inr (p\<lparr>lastThresholdUpdate := u, dynamicCustomThresholds := Some d'\<rparr>)" (is "_ = Inr ?p")
    using updateIfNeeded_shape [OF assms(2)] by blast
  have "\<forall>rm\<in>set md. list_check_safe L ?p (Resource rm)" "trackedEntities ?p \<noteq> None"
    using assms by (simp_all add: list_check_safe_def)
  then obtain l where l: "processAllResources L B [] md ?p = Inr l"
    unfolding processAllResources_def using processLoop_returns by blast
  have rc: "stageHits (initializeProcessingContext md) = []"
    by (simp add: initializeProcessingContext_def split: prod.split)
  show ?thesis
    unfolding processMetrics_def Let_def u andThen_simps rc l by (simp split: prod.split)
qed

section \<open>What the settings alone decide\<close>

text \<open>
  A resource that must be forwarded whatever is tracked about it: it is not targeted, is a zombie
  process, exceeds a threshold in effect, or has a composite score at the limit.
\<close>

definition must_keep :: "lib \<Rightarrow> processorImp \<Rightarrow> resource_metrics \<Rightarrow> bool" where
  "must_keep L p rm =
     (let vs = extractMetricValues L p rm
      in \<not> targeted p vs \<or> isZombieProcess (Resource rm) \<or> exceeds p vs \<or> scores p vs)"

lemma must_keep_kept: "must_keep L p rm \<Longrightarrow> kept L E rm p"
  by (auto simp: must_keep_def kept_def Let_def)

lemma must_keep_settings:
  assumes "same_settings p q"
  shows "must_keep L q rm = must_keep L p rm"
proof -
  have 1: "dynamic_of q = dynamic_of p" "threshold_of q = threshold_of p" "weight_of q = weight_of p"
    using assms by (auto simp: same_settings_def dynamic_of_def threshold_of_def weight_of_def)
  have 2: "config q = config p" "dynamicThresholdsEnabled q = dynamicThresholdsEnabled p"
    "multiMetricEnabled q = multiMetricEnabled p"
    using assms by (simp_all add: same_settings_def)
  have 3: "compositeThresholdOf q = compositeThresholdOf p"
    by (intro ext) (simp only: compositeThresholdOf_def 1 2)
  have "compositeLoop q = compositeLoop p"
    using compositeLoop_cong [OF fun_cong [OF 3] 1(3) refl] by (intro ext) blast
  then have 4: "compositeScore q vs = compositeScore p vs" for vs
    by (simp only: compositeScore_def calculateCompositeGeneric_def 2)
  have "shouldProcessMetric q = shouldProcessMetric p"
    by (intro ext) (simp only: shouldProcessMetric_def 1 2)
  then have 5: "extractMetricValues L q rm = extractMetricValues L p rm"
    by (simp only: extractMetricValues_def extractStep_def [abs_def])
  have 6: "exceedsDynamic q = exceedsDynamic p" "exceedsStatic q = exceedsStatic p"
    by (intro ext; simp only: exceedsDynamic_def exceedsStatic_def 1)+
  show ?thesis
    by (simp only: must_keep_def Let_def targeted_def exceeds_def scores_def compositeLimit_def 1 2 4 5 6)
qed

lemma processLoop_must_keep:
  assumes "processLoop L B i seen rest filtered hits n p = Inr r" "2 \<le> minDataPoints p"
    and "rm \<in> set rest" "must_keep L p rm"
  shows "ScopeMetrics rm \<in> ScopeMetrics ` set (outputSoFar r)"
  using assms
proof (induction rest arbitrary: i seen filtered hits n p)
  case (Cons x rest)
  show ?case
  proof (cases "stopped B i")
    case True
    then have "outputSoFar r = map markTimeout (seen @ x # rest)" using Cons.prems(1) by (auto simp: processLoop_stop)
    then have "markTimeout rm \<in> set (outputSoFar r)" using Cons.prems(3) by auto
    from imageI [OF this, of ScopeMetrics] show ?thesis by simp
  next
    case False
    with Cons.prems(1) obtain ok rm1 f1 h1 p1 where
      s: "processingSingleResource L (per_resource B i) x filtered hits p = Inr (ok, rm1, f1, h1, p1)"
      and l: "processLoop L B (Suc i) (seen @ [rm1]) rest f1 h1 (if ok then Suc n else n) p1 = Inr r"
      by (auto simp: processLoop_go)
    from s obtain a where a: "shouldIncludeResource L (per_resource B i) x p = Inr (ok, a, p1)"
      "rm1 = x\<lparr>Resource := a\<rparr>"
      "f1 = (if ok then handleIncludedResource p1 rm1 (includeReasonOf L a) filtered else filtered)"
      by (auto simp: processingSingleResource_Inr)
    note set = shouldIncludeResource_settings [OF a(1)]
    have m: "2 \<le> minDataPoints p1" using set Cons.prems(2) by (simp only: same_settings_def minDataPoints_def)
    show ?thesis
    proof (cases "x = rm")
      case True
      then have ok using shouldIncludeResource_verdict [OF Cons.prems(2) a(1)] must_keep_kept Cons.prems(4) by blast
      then have f: "f1 \<noteq> [] \<and> ScopeMetrics (last f1) = ScopeMetrics rm"
        using a(2,3) True by (simp add: handleIncludedResource_def)
      from processLoop_ok [OF l] have "last f1 \<in> set (outputSoFar r) \<or>
          returnedInput r \<and> outputSoFar r = inputThen r \<and>
            map ScopeMetrics (inputThen r) = map ScopeMetrics ((seen @ [rm1]) @ rest)"
        using f unfolding loop_ok_def by (cases "returnedInput r") auto
      then show ?thesis
      proof
        assume "returnedInput r \<and> outputSoFar r = inputThen r \<and>
            map ScopeMetrics (inputThen r) = map ScopeMetrics ((seen @ [rm1]) @ rest)"
        then have "ScopeMetrics ` set (outputSoFar r) = ScopeMetrics ` set ((seen @ [rm1]) @ rest)"
          by (metis set_map)
        then show ?thesis using a(2) True by simp
      next
        assume "last f1 \<in> set (outputSoFar r)"
        from imageI [OF this, of ScopeMetrics] show ?thesis using f by simp
      qed
    next
      case False
      then show ?thesis
        using Cons.IH [OF l m] Cons.prems(3,4) must_keep_settings [OF set] by simp
    qed
  qed
qed simp

lemma processLoop_stopped:
  assumes "processLoop L B i seen rest filtered hits n p = Inr r"
    and "i \<le> j" "j < i + length rest" "stopped B j"
  shows "returnedInput r"
  using assms
proof (induction rest arbitrary: i seen filtered hits n p)
  case (Cons rm rest)
  show ?case
  proof (cases "stopped B i")
    case True
    with Cons.prems(1) show ?thesis by (auto simp: processLoop_stop)
  next
    case False
    with Cons.prems(1) obtain ok rm1 f1 h1 p1 where
      l: "processLoop L B (Suc i) (seen @ [rm1]) rest f1 h1 (if ok then Suc n else n) p1 = Inr r"
      by (auto simp: processLoop_go)
    have "i \<noteq> j" using False Cons.prems(4) by blast
    then show ?thesis using Cons.IH [OF l] Cons.prems(2-4) by simp
  qed
qed simp

lemma processMetrics_must_keep:
  assumes "processMetrics L B md p = Inr r" "updateDynamicThresholdsIfNeeded L B md p = Inr p1"
    and "2 \<le> minDataPoints p1" "rm \<in> set md" "must_keep L p1 rm"
  shows "ScopeMetrics rm \<in> ScopeMetrics ` set (filteredMetrics r)"
  using assms(1)
proof (cases rule: processMetrics_cases)
  case (processed p2 l)
  have "p2 = p1" using processed(3) assms(2) by simp
  then have "ScopeMetrics rm \<in> ScopeMetrics ` set (outputSoFar l)"
    using processLoop_must_keep [OF _ assms(3-5)] processed(4) unfolding processAllResources_def by blast
  moreover have "map ScopeMetrics (filteredMetrics r) = map ScopeMetrics (outputSoFar l)"
    unfolding processed(6) by (rule generateSummary_frame)
  ultimately show ?thesis by (metis set_map)
qed (use assms(4) in \<open>auto simp: handleContextCancellation_def\<close>)

section \<open>Claims\<close>

text \<open>The dynamic thresholds are recomputed by a batch exactly when they are enabled and a minute
  has passed since the last time, to the nanosecond; the recomputation then always runs (its own
  check, of half the interval, never stops it), gives the thresholds of the specification and
  records its time; otherwise the processor is left as it is.\<close>

theorem dynamic_schedule:
  assumes "dynamicCustomThresholds p = Some d" "sinceNow B \<le> checkNow B"
  shows "if dynamicThresholdsEnabled p \<and> 60 * second \<le> sinceNow B - lastThresholdUpdate p
     then \<exists>d'. updateDynamicThresholdsIfNeeded L B md p =
         Inr (p\<lparr>lastThresholdUpdate := updatedNow B, dynamicCustomThresholds := Some d'\<rparr>) \<and>
       map_of d' = updated_dynamic L md p
     else updateDynamicThresholdsIfNeeded L B md p = Inr p"
  using updateIfNeeded_run [OF _ _ assms(2,1), of L md] updateIfNeeded_skip [of p B L md]
  by (auto simp: not_le)

definition sample_batch :: "time \<Rightarrow> batch" where
  "sample_batch t = \<lparr>ctx_err = (\<lambda>_. None), sinceNow = t, checkNow = t, startNow = t, updatedNow = t,
     keyOrder = [], per_resource = (\<lambda>_. sample_env t), random = Fin (1 / 2), cleanupNow = t,
     summaryNow = t, summary_env = (\<lambda>_. sample_env t)\<rparr>"

theorem dynamic_schedule_witness:
  "updateDynamicThresholdsIfNeeded plain_lib (sample_batch (60 * second - 1)) []
     (sample_processor (sample_config\<lparr>EnableDynamicThresholds := True\<rparr>)) =
     Inr (sample_processor (sample_config\<lparr>EnableDynamicThresholds := True\<rparr>))"
proof -
  let ?p = "sample_processor (sample_config\<lparr>EnableDynamicThresholds := True\<rparr>)"
    and ?B = "sample_batch (60 * second - 1)"
  have "dynamicCustomThresholds ?p = Some []" "sinceNow ?B \<le> checkNow ?B"
    "\<not> 60 * second \<le> sinceNow ?B - lastThresholdUpdate ?p"
    by (simp_all add: sample_processor_def sample_batch_def)
  with dynamic_schedule [OF this(1,2)] show ?thesis by simp
qed


text \<open>No resource that must be forwarded is dropped by a batch, cancelled or not: if under the
  thresholds in effect after the update it is not targeted, is a zombie, exceeds a threshold or
  has a high composite score, its metrics are in the output.\<close>

theorem batch_keeps:
  assumes "processMetrics L B md p = Inr r" "updateDynamicThresholdsIfNeeded L B md p = Inr p1"
    and "2 \<le> minDataPoints p1" "rm \<in> set md" "must_keep L p1 rm"
  shows "ScopeMetrics rm \<in> ScopeMetrics ` set (filteredMetrics r)"
  using assms by (rule processMetrics_must_keep)

lemma sample_batch_facts:
  "updateDynamicThresholdsIfNeeded plain_lib (sample_batch 7) md (sample_processor sample_config) =
     Inr (sample_processor sample_config)"
  "must_keep plain_lib (sample_processor sample_config) (sample_resource (Fin 6))"
  "isl (processMetrics plain_lib (sample_batch 7) [sample_resource (Fin 6)] (sample_processor sample_config)) = False"
proof -
  show "updateDynamicThresholdsIfNeeded plain_lib (sample_batch 7) md (sample_processor sample_config) =
     Inr (sample_processor sample_config)"
    by (simp add: updateDynamicThresholdsIfNeeded_def sample_processor_def sample_config_def)
  show "must_keep plain_lib (sample_processor sample_config) (sample_resource (Fin 6))" by code_simp
  have "\<exists>r. processMetrics plain_lib (sample_batch 7) [sample_resource (Fin 6)] (sample_processor sample_config) = Inr r"
    by (rule processMetrics_returns) (simp_all add: sample_processor_def list_check_safe_def sample_config_def)
  then show "isl (processMetrics plain_lib (sample_batch 7) [sample_resource (Fin 6)] (sample_processor sample_config)) = False"
    by auto
qed


theorem batch_keeps_witness:
  "\<exists>r. processMetrics plain_lib (sample_batch 7) [sample_resource (Fin 6)] (sample_processor sample_config) = Inr r \<and>
     filteredMetrics r \<noteq> []"
proof -
  obtain r where r: "processMetrics plain_lib (sample_batch 7) [sample_resource (Fin 6)]
      (sample_processor sample_config) = Inr r"
    using sample_batch_facts(3) by (cases "processMetrics plain_lib (sample_batch 7) [sample_resource (Fin 6)]
      (sample_processor sample_config)") auto
  from batch_keeps [OF r sample_batch_facts(1) sample_decisions(1) _ sample_batch_facts(2)] r show ?thesis by auto
qed

text \<open>C8: a batch whose context is cancelled between two groups of 25 resources loses nothing: the
  output has the metrics of every resource of the input, in order, and each resource carries the
  name of a filter stage.\<close>

theorem cancelled_batch_keeps_all:
  assumes "processMetrics L B md p = Inr r" "ctx_err B 0 = None" "j < length md" "stopped B j"
  shows "map ScopeMetrics (filteredMetrics r) = map ScopeMetrics md \<and>
     (\<forall>rm\<in>set (filteredMetrics r). \<not> unmarked rm)"
  using assms(1)
proof (cases rule: processMetrics_cases)
  case (processed p1 l)
  have l: "processLoop L B 0 [] md [] [] 0 p1 = Inr l" using processed(4) by (simp add: processAllResources_def)
  have ret: "returnedInput l" using processLoop_stopped [OF l _ _ assms(4)] assms(3) by simp
  with processLoop_ok [OF l] have o: "map ScopeMetrics (outputSoFar l) = map ScopeMetrics md"
    "\<forall>rm\<in>set (outputSoFar l). \<not> unmarked rm"
    by (simp_all add: loop_ok_def)
  have m: "\<forall>rm\<in>set (map (addSummary L B q d) (enumerate k f)). \<not> unmarked rm"
    if "\<forall>rm\<in>set f. \<not> unmarked rm" for q d k f
    using that by (induction f arbitrary: k) auto
  have "\<forall>rm\<in>set (filteredMetrics r). \<not> unmarked rm"
    unfolding processed(6) generateFilteringSummaryMetrics_def using o(2) m by simp
  then show ?thesis using o(1) generateSummary_frame(1) unfolding processed(6) by metis
qed (use assms(2,3) in auto)

theorem cancelled_batch_keeps_all_witness:
  "\<exists>r. processMetrics plain_lib ((sample_batch 7)\<lparr>ctx_err := (\<lambda>i. if i = 25 then Some ''deadline'' else None)\<rparr>)
       (replicate 40 (sample_resource NaN)) (sample_processor sample_config) = Inr r \<and>
     length (filteredMetrics r) = 40"
proof -
  let ?B = "(sample_batch 7)\<lparr>ctx_err := (\<lambda>i. if i = 25 then Some ''deadline'' else None)\<rparr>"
    and ?md = "replicate 40 (sample_resource NaN)"
  have "\<exists>r. processMetrics plain_lib ?B ?md (sample_processor sample_config) = Inr r"
    by (rule processMetrics_returns) (simp_all add: sample_processor_def list_check_safe_def sample_config_def)
  then obtain r where r: "processMetrics plain_lib ?B ?md (sample_processor sample_config) = Inr r" by blast
  have "map ScopeMetrics (filteredMetrics r) = map ScopeMetrics ?md"
    using cancelled_batch_keeps_all [OF r, of 25] by (simp add: stopped_def)
  then have "length (filteredMetrics r) = 40" by (metis length_map length_replicate)
  with r show ?thesis by blast
qed

text \<open>A batch returns, without a panic, when the two maps of the processor exist and, if an
  include list is configured, lower-casing does not lengthen a command line.\<close>

theorem batch_returns:
  assumes "trackedEntities p \<noteq> None" "dynamicCustomThresholds p \<noteq> None"
    and "\<forall>rm\<in>set md. list_check_safe L p (Resource rm)"
  shows "\<exists>r. processMetrics L B md p = Inr r"
  using assms by (rule processMetrics_returns)

theorem batch_returns_witness:
  "\<exists>r. processMetrics plain_lib (sample_batch 7) (replicate 40 (sample_resource NaN)) (sample_processor sample_config) = Inr r"
  by (rule batch_returns) (simp_all add: sample_processor_def list_check_safe_def sample_config_def)

text \<open>The counts of a finished loop add up: the number of included resources, the sum of the hits
  of all filter stages and the length of the output agree.\<close>

theorem stage_hits_account:
  assumes "processAllResources L B [] md p = Inr r" "\<forall>i<length md. \<not> stopped B i"
  shows "includedCount r = length (outputSoFar r) \<and> total_hits (hitsAfter r) = length (outputSoFar r) \<and>
     gomap_ok (hitsAfter r) \<and> length (outputSoFar r) \<le> length md"
proof -
  have l: "processLoop L B 0 [] md [] [] 0 p = Inr r" using assms(1) by (simp add: processAllResources_def)
  have "\<not> returnedInput r" using processLoop_uncancelled [OF l] assms(2) by simp
  with processLoop_ok [OF l] obtain out where o: "outputSoFar r = out"
    "subseq (map ScopeMetrics out) (map ScopeMetrics md)" "includedCount r = length out"
    "gomap_ok (hitsAfter r)" "total_hits (hitsAfter r) = length out"
    by (auto simp: loop_ok_def total_hits_def)
  with list_emb_length [OF o(2)] show ?thesis by simp
qed

theorem stage_hits_account_witness:
  "\<exists>r. processAllResources plain_lib (sample_batch 7) [] [sample_resource (Fin 6)] (sample_processor sample_config) = Inr r \<and>
     total_hits (hitsAfter r) \<le> 1"
proof -
  obtain r where r: "processAllResources plain_lib (sample_batch 7) [] [sample_resource (Fin 6)]
      (sample_processor sample_config) = Inr r"
    using processLoop_returns [of "sample_processor sample_config" "[sample_resource (Fin 6)]" plain_lib
      "sample_batch 7" 0 "[]" "[]" "[]" 0]
    by (auto simp: processAllResources_def sample_processor_def list_check_safe_def sample_config_def)
  have "\<forall>i<length [sample_resource (Fin 6)]. \<not> stopped (sample_batch 7) i" by (simp add: stopped_def)
  from stage_hits_account [OF r this] r show ?thesis by auto
qed

text \<open>The efficiency ratio that a summary reports is a number between 0 and 1, never an infinity
  or not-a-number, for all counts that a float represents exactly.\<close>

theorem efficiency_ratio:
  assumes "m \<le> n" "0 < n" "n \<le> 2 ^ 53"
  shows "fle (Fin 0) (efficiencyRatio n m) \<and> fle (efficiencyRatio n m) (Fin 1)"
  using efficiencyRatio_bounds [OF assms] by blast

theorem efficiency_ratio_witness:
  "fle (efficiencyRatio 3 1) (Fin 1)"
  using efficiency_ratio [of 1 3] by simp

text \<open>Counting is exact: the metrics of a batch are counted once each, in total and for the
  summary of the input.\<close>

theorem counts_exact:
  "countOutputMetrics md = length (metrics_of md) \<and> fst (countMetricsByType md types) = length (metrics_of md)"
  using countOutputMetrics_eq countMetricsByType_total by blast

end
