(* ===== verification/Atp_Consume.thy ===== *)
theory Atp_Consume
  imports Atp_Process
begin

text \<open>
  The entry of the pipeline (consume_metrics.go): statistics, the batch, the fall-backs to the
  original metrics, the periodic persistence, and the calls of the next consumer. The next
  consumer is a parameter: its \<open>n\<close>-th call with a batch returns an error or not. The function
  returns with the list of the batches it has sent.
\<close>

section \<open>Statistics\<close>

record inputStats =
  ResourceCount :: nat
  ScopeCount :: nat
  MetricCount :: nat

definition calculateInputStats :: "metrics \<Rightarrow> inputStats" where
  "calculateInputStats md =
     foldl (\<lambda>st rm. foldl (\<lambda>st sm. st\<lparr>MetricCount := MetricCount st + length (Metrics sm)\<rparr>)
              (st\<lparr>ScopeCount := ScopeCount st + length (ScopeMetrics rm)\<rparr>) (ScopeMetrics rm))
       \<lparr>ResourceCount = length md, ScopeCount = 0, MetricCount = 0\<rparr> md"

record outputStats =
  TotalMetricCount :: nat
  MetricTypeCount :: counts
  OutResourceCount :: nat

definition countMetricByType :: "metric \<Rightarrow> counts \<Rightarrow> counts" where
  "countMetricByType m typeCount = bump (metricTypeName (Data m)) typeCount"

definition calculateOutputStats :: "metrics \<Rightarrow> outputStats" where
  "calculateOutputStats md =
     foldl (\<lambda>st rm. foldl (\<lambda>st sm.
              foldl (\<lambda>st m. st\<lparr>MetricTypeCount := countMetricByType m (MetricTypeCount st)\<rparr>)
                (st\<lparr>TotalMetricCount := TotalMetricCount st + length (Metrics sm)\<rparr>) (Metrics sm))
              st (ScopeMetrics rm))
       \<lparr>TotalMetricCount = 0, MetricTypeCount = [], OutResourceCount = length md\<rparr> md"

section \<open>The next consumer\<close>

type_synonym consumer = "nat \<Rightarrow> metrics \<Rightarrow> string option"

text \<open>A call appends to what has been sent and returns the consumer's error.\<close>

definition callNext :: "consumer \<Rightarrow> metrics \<Rightarrow> metrics list \<Rightarrow> string option \<times> metrics list" where
  "callNext C md sent = (C (length sent) md, sent @ [md])"

definition handleProcessingError ::
  "consumer \<Rightarrow> metrics \<Rightarrow> metrics list \<Rightarrow> string option \<times> metrics list" where
  "handleProcessingError C md sent = callNext C md sent"

definition validateProcessingResults ::
  "consumer \<Rightarrow> metrics \<Rightarrow> metrics \<Rightarrow> metrics list \<Rightarrow> string option \<times> metrics list" where
  "validateProcessingResults C md filtered sent =
     (if filtered = [] \<and> md \<noteq> [] then callNext C md sent else (None, sent))"

definition forwardMetricsToNextConsumer ::
  "consumer \<Rightarrow> metrics \<Rightarrow> metrics list \<Rightarrow> string option \<times> metrics list" where
  "forwardMetricsToNextConsumer C filtered sent = callNext C filtered sent"

section \<open>Maintenance\<close>

text \<open>The error of \<open>persistTrackedEntities\<close> is only logged.\<close>

definition performMaintenanceTasks ::
  "'s os \<Rightarrow> entity_codec \<Rightarrow> time \<Rightarrow> time \<Rightarrow> processorImp \<Rightarrow> 's \<Rightarrow> processorImp \<times> 's" where
  "performMaintenanceTasks S J tcheck tdone p s =
     (if persistenceEnabled p \<and> minute < time_sub tcheck (lastPersistenceOp p)
      then (p\<lparr>lastPersistenceOp := tdone\<rparr>, snd (persistTrackedEntities S J p s))
      else (p, s))"

section \<open>ConsumeMetrics\<close>

record 's consumed =
  consumeError :: "string option"
  sentBatches :: "metrics list"
  processorThen :: processorImp
  systemThen :: 's

definition ConsumeMetrics ::
  "'s os \<Rightarrow> entity_codec \<Rightarrow> lib \<Rightarrow> consumer \<Rightarrow> batch \<Rightarrow> time \<Rightarrow> time \<Rightarrow> metrics \<Rightarrow> processorImp \<Rightarrow> 's
     \<Rightarrow> 's consumed go" where
  "ConsumeMetrics S J L C B tcheck tdone md p s =
     andThen (processMetrics L B md p) (\<lambda>r.
       case batchError r of
         Some e \<Rightarrow>
           (case handleProcessingError C (inputAfter r) [] of
              (err, sent) \<Rightarrow> Inr \<lparr>consumeError = err, sentBatches = sent,
                 processorThen = processorAfter r, systemThen = s\<rparr>)
       | None \<Rightarrow>
           (case validateProcessingResults C (inputAfter r) (filteredMetrics r) [] of
              (Some err, sent) \<Rightarrow> Inr \<lparr>consumeError = Some err, sentBatches = sent,
                 processorThen = processorAfter r, systemThen = s\<rparr>
            | (None, sent) \<Rightarrow>
                (case performMaintenanceTasks S J tcheck tdone (processorAfter r) s of
                   (p1, s1) \<Rightarrow>
                     (case forwardMetricsToNextConsumer C (filteredMetrics r) sent of
                        (err, sent1) \<Rightarrow> Inr \<lparr>consumeError = err, sentBatches = sent1,
                           processorThen = p1, systemThen = s1\<rparr>))))"

section \<open>What is sent\<close>

lemma countMetrics_stats:
  "MetricCount (calculateInputStats md) = length (metrics_of md)"
  "ResourceCount (calculateInputStats md) = length md"
  "ScopeCount (calculateInputStats md) = sum_list (map (length \<circ> ScopeMetrics) md)"
proof -
  have 1: "foldl (\<lambda>st sm. st\<lparr>MetricCount := MetricCount st + length (Metrics sm)\<rparr>) st sms =
      st\<lparr>MetricCount := MetricCount st + length (concat (map Metrics sms))\<rparr>" for st sms
    by (induction sms arbitrary: st) auto
  have 2: "foldl (\<lambda>st rm. foldl (\<lambda>st sm. st\<lparr>MetricCount := MetricCount st + length (Metrics sm)\<rparr>)
              (st\<lparr>ScopeCount := ScopeCount st + length (ScopeMetrics rm)\<rparr>) (ScopeMetrics rm)) st md =
      st\<lparr>ScopeCount := ScopeCount st + sum_list (map (length \<circ> ScopeMetrics) md),
         MetricCount := MetricCount st + length (metrics_of md)\<rparr>" for st
    by (induction md arbitrary: st) (simp_all add: 1 metrics_of_resource_def add.assoc)
  show "MetricCount (calculateInputStats md) = length (metrics_of md)"
    "ResourceCount (calculateInputStats md) = length md"
    "ScopeCount (calculateInputStats md) = sum_list (map (length \<circ> ScopeMetrics) md)"
    unfolding calculateInputStats_def 2 by simp_all
qed

lemma ConsumeMetrics_cases:
  assumes "ConsumeMetrics S J L C B t u md p s = Inr c"
  obtains r where "processMetrics L B md p = Inr r"
    "sentBatches c =
       (if batchError r \<noteq> None then [inputAfter r]
        else if filteredMetrics r = [] \<and> inputAfter r \<noteq> [] then
          (if C 0 (inputAfter r) \<noteq> None then [inputAfter r] else [inputAfter r, []])
        else [filteredMetrics r])"
    "consumeError c = C (length (sentBatches c) - 1) (last (sentBatches c))"
    "processorThen c = processorAfter r \<and> systemThen c = s \<or>
     (processorThen c, systemThen c) = performMaintenanceTasks S J t u (processorAfter r) s"
proof -
  from assms obtain r where r: "processMetrics L B md p = Inr r"
    by (auto simp: ConsumeMetrics_def andThen_Inr_iff)
  show thesis
  proof (cases "batchError r")
    case (Some e)
    with assms r show thesis
      by (intro that [OF r]) (auto simp: ConsumeMetrics_def handleProcessingError_def callNext_def)
  next
    case None
    show thesis
    proof (cases "filteredMetrics r = [] \<and> inputAfter r \<noteq> [] \<and> C 0 (inputAfter r) \<noteq> None")
      case True
      with assms r None show thesis
        by (intro that [OF r]) (auto simp: ConsumeMetrics_def validateProcessingResults_def callNext_def)
    next
      case False
      obtain p1 s1 where m: "performMaintenanceTasks S J t u (processorAfter r) s = (p1, s1)"
        by (cases "performMaintenanceTasks S J t u (processorAfter r) s")
      with False assms r None show thesis
        by (intro that [OF r]) (auto simp: ConsumeMetrics_def validateProcessingResults_def callNext_def
          forwardMetricsToNextConsumer_def split: if_splits)
    qed
  qed
qed

text \<open>Every batch leads to at least one call of the next consumer, and its last error is returned.\<close>

lemma sent_nonempty: "ConsumeMetrics S J L C B t u md p s = Inr c \<Longrightarrow> sentBatches c \<noteq> []"
  by (erule ConsumeMetrics_cases) (auto split: if_splits)

section \<open>Maintenance\<close>

lemma performMaintenanceTasks_settings:
  "fst (performMaintenanceTasks S J t u p s) = p \<or>
   fst (performMaintenanceTasks S J t u p s) = p\<lparr>lastPersistenceOp := u\<rparr>"
  by (simp add: performMaintenanceTasks_def)

lemma ConsumeMetrics_inv:
  assumes "ConsumeMetrics S J L C B t u md p s = Inr c" "Q p"
    and "\<And>p1. Q p \<Longrightarrow> updateDynamicThresholdsIfNeeded L B md p = Inr p1 \<Longrightarrow> Q p1"
    and "\<And>E rm p ok a p'. Q p \<Longrightarrow> shouldIncludeResource L E rm p = Inr (ok, a, p') \<Longrightarrow> Q p'"
    and "\<And>p t. Q p \<Longrightarrow> Q (cleanupExpiredEntities t p)"
    and "\<And>p t. Q p \<Longrightarrow> Q (p\<lparr>lastPersistenceOp := t\<rparr>)"
  shows "Q (processorThen c)"
  using assms(1)
proof (cases rule: ConsumeMetrics_cases)
  case (1 r)
  have "Q (processorAfter r)" using processMetrics_inv [OF 1(1) assms(2-5)] .
  with 1(4) performMaintenanceTasks_settings [of S J t u "processorAfter r" s] assms(6) show ?thesis
    by (metis fst_conv)
qed

lemma ConsumeMetrics_returns:
  assumes "trackedEntities p \<noteq> None" "dynamicCustomThresholds p \<noteq> None"
    and "\<forall>rm\<in>set md. list_check_safe L p (Resource rm)"
  shows "\<exists>c. ConsumeMetrics S J L C B t u md p s = Inr c"
proof -
  obtain r where "processMetrics L B md p = Inr r" using processMetrics_returns [OF assms] by blast
  then show ?thesis
    by (auto simp: ConsumeMetrics_def handleProcessingError_def callNext_def split: option.split prod.split)
qed

end
