(* ===== verification/Atp_System.thy ===== *)
theory Atp_System
  imports Atp_Consume
begin

text \<open>
  The processor over its life: a transition system whose states are the processor and the file
  system, whose steps are the calls the collector makes. A state is reachable when the calls of
  any consumers, clocks, contexts and batches lead to it from a newly constructed processor.
\<close>

section \<open>Steps\<close>

inductive step :: "'s os \<Rightarrow> entity_codec \<Rightarrow> lib \<Rightarrow> processorImp \<times> 's \<Rightarrow> processorImp \<times> 's \<Rightarrow> bool"
  for S :: "'s os" and J :: entity_codec and L :: lib where
  consume: "ConsumeMetrics S J L C B t u md p s = Inr c \<Longrightarrow>
     step S J L (p, s) (processorThen c, systemThen c)"
| shutdown: "Shutdown S J p s = (e, s') \<Longrightarrow> step S J L (p, s) (p, s')"
| other: "step S J L (p, s) (p, s')"

inductive_cases stepE: "step S J L (p, s) x"

inductive reachable :: "'s os \<Rightarrow> entity_codec \<Rightarrow> lib \<Rightarrow> processorImp \<times> 's \<Rightarrow> processorImp \<times> 's \<Rightarrow> bool"
  for S :: "'s os" and J :: entity_codec and L :: lib and x where
  start: "reachable S J L x x"
| further: "reachable S J L x y \<Longrightarrow> step S J L y z \<Longrightarrow> reachable S J L x z"

text \<open>Whatever the parts of a batch preserve holds in every reachable state.\<close>

lemma reachable_inv:
  assumes "reachable S J L x y" "Q (fst x)"
    and "\<And>B md p p1. Q p \<Longrightarrow> updateDynamicThresholdsIfNeeded L B md p = Inr p1 \<Longrightarrow> Q p1"
    and "\<And>E rm p ok a p'. Q p \<Longrightarrow> shouldIncludeResource L E rm p = Inr (ok, a, p') \<Longrightarrow> Q p'"
    and "\<And>p t. Q p \<Longrightarrow> Q (cleanupExpiredEntities t p)"
    and "\<And>p t. Q p \<Longrightarrow> Q (p\<lparr>lastPersistenceOp := t\<rparr>)"
  shows "Q (fst y)"
  using assms(1)
proof (induction rule: reachable.induct)
  case (further y z)
  from further(2) further.IH show ?case
  proof (cases rule: step.cases)
    case (consume C B t u md p s c)
    then have "Q p" using further.IH by simp
    from ConsumeMetrics_inv [OF consume(3) this assms(3) assms(4-6)] consume(2) show ?thesis by simp
  qed simp_all
qed (use assms(2) in simp)

section \<open>The invariant\<close>

text \<open>
  The settings are those of the configuration, the maps exist, the table is well formed and the
  histories are bounded.
\<close>

definition proc_inv :: "Config \<Rightarrow> processorImp \<Rightarrow> bool" where
  "proc_inv cfg p \<longleftrightarrow> config p = cfg \<and> dynamicThresholdsEnabled p = EnableDynamicThresholds cfg \<and>
     multiMetricEnabled p = EnableMultiMetric cfg \<and> dynamicCustomThresholds p \<noteq> None \<and> table_inv p"

lemma proc_inv_update:
  assumes "proc_inv cfg p" "updateDynamicThresholdsIfNeeded L B md p = Inr p1"
  shows "proc_inv cfg p1 \<and> trackedEntities p1 = trackedEntities p \<and> values_store p1 = values_store p"
proof -
  have "dynamicCustomThresholds p \<noteq> None" using assms(1) by (simp add: proc_inv_def)
  from updateIfNeeded_shape [OF this, of L B md] assms(2) obtain u d' where
    "p1 = p\<lparr>lastThresholdUpdate := u, dynamicCustomThresholds := Some d'\<rparr>" by auto
  then show ?thesis using assms(1) by (simp add: proc_inv_def table_inv_def entity_addrs_def)
qed

lemma all_entities_cong:
  "trackedEntities p = trackedEntities q \<Longrightarrow> all_entities P p = all_entities P q"
  by (simp add: all_entities_def)

lemma shouldIncludeResource_tracks:
  assumes "shouldIncludeResource L E rm p = Inr (ok, a, p')" "trackedEntities p \<noteq> None"
  shows "trackedEntities p' \<noteq> None"
  using shouldIncludeResource_entity [OF assms(1)] assms(2)
  by (cases rule: entity_after_cases) auto

lemma proc_inv_evaluate:
  assumes "proc_inv cfg p" "shouldIncludeResource L E rm p = Inr (ok, a, p')"
  shows "proc_inv cfg p'"
proof -
  have "footprint (id_of L rm) p p'"
    using shouldIncludeResource_entity [OF assms(2)] by (rule entity_after_footprint)
  moreover have "trackedEntities p' \<noteq> None"
    using shouldIncludeResource_tracks [OF assms(2)] assms(1) by (simp add: proc_inv_def table_inv_def)
  ultimately have "table_inv p'" using footprint_table_inv assms(1) unfolding proc_inv_def by blast
  then show ?thesis
    using assms(1) shouldIncludeResource_settings [OF assms(2)] by (simp add: proc_inv_def same_settings_def)
qed

lemma proc_inv_cleanup: "proc_inv cfg p \<Longrightarrow> proc_inv cfg (cleanupExpiredEntities t p)"
  using cleanup_table_inv cleanupExpiredEntities_settings [of p t]
  by (simp add: proc_inv_def same_settings_def)

lemma proc_inv_time: "proc_inv cfg p \<Longrightarrow> proc_inv cfg (p\<lparr>lastPersistenceOp := t\<rparr>)"
  by (simp add: proc_inv_def table_inv_def entity_addrs_def)

lemma reachable_proc_inv:
  "reachable S J L x y \<Longrightarrow> proc_inv cfg (fst x) \<Longrightarrow> proc_inv cfg (fst y)"
  by (rule reachable_inv [where Q = "proc_inv cfg"])
    (assumption | erule (1) proc_inv_update [THEN conjunct1] proc_inv_evaluate |
      erule proc_inv_cleanup proc_inv_time)+

text \<open>A property of all entities that evaluations keep holds in every reachable state.\<close>

lemma reachable_entities:
  assumes "reachable S J L x y" "proc_inv cfg (fst x)" "all_entities P (fst x)"
    and "\<And>E vs p i p'. config p = cfg \<Longrightarrow> entity_after E vs p i p' \<Longrightarrow> all_entities P p \<Longrightarrow> all_entities P p'"
  shows "all_entities P (fst y)"
proof -
  let ?Q = "\<lambda>p. proc_inv cfg p \<and> all_entities P p"
  have "?Q (fst y)"
  proof (rule reachable_inv [where Q = ?Q, OF assms(1)])
    show "?Q (fst x)" using assms by blast
  next
    fix B md p p1 assume "?Q p" "updateDynamicThresholdsIfNeeded L B md p = Inr p1"
    then show "?Q p1" using proc_inv_update [of cfg p L B md p1] all_entities_cong [of p1 p P] by blast
  next
    fix E rm p ok a p' assume q: "?Q p" and s: "shouldIncludeResource L E rm p = Inr (ok, a, p')"
    have "config p = cfg" using q unfolding proc_inv_def by blast
    from assms(4) [OF this shouldIncludeResource_entity [OF s]] proc_inv_evaluate [OF _ s] q
    show "?Q p'" by blast
  next
    fix p t assume "?Q p"
    then show "?Q (cleanupExpiredEntities t p)"
      using proc_inv_cleanup [of cfg p t] cleanup_all [of p P t] by (simp add: proc_inv_def table_inv_def)
  next
    fix p t assume "?Q p"
    then show "?Q (p\<lparr>lastPersistenceOp := t\<rparr>)"
      using proc_inv_time all_entities_cong [of "p\<lparr>lastPersistenceOp := t\<rparr>" p] by simp
  qed
  then show ?thesis by blast
qed

section \<open>The start\<close>

lemma table_inv_cong:
  "trackedEntities q = trackedEntities p \<Longrightarrow> values_store q = values_store p \<Longrightarrow> table_inv q = table_inv p"
  by (simp add: table_inv_def entity_addrs_def)

lemma setupStorage_inv:
  assumes "setupStorage S J path p s = Inr (p', s')" "proc_inv cfg p"
    and "\<And>st s1 es. Load S J st s1 = Inr es \<Longrightarrow> \<exists>m. es = Some m \<and> gomap_ok m"
  shows "proc_inv cfg p'"
proof -
  have "proc_inv cfg q" if "loadTrackedEntities S J s2 (p\<lparr>storage := Some st\<rparr>) = Inr (e, q)" "persistenceEnabled p" for s2 st e q
  proof -
    have set: "same_settings (p\<lparr>storage := Some st\<rparr>) q" using that(1) by (rule loadTrackedEntities_settings)
    have "table_inv q"
    proof (cases "Load S J st s2")
      case (Inl e)
      then have "q = p\<lparr>storage := Some st\<rparr>" using that by (simp add: loadTrackedEntities_def)
      then show ?thesis using assms(2) table_inv_cong [of q p] by (simp add: proc_inv_def)
    next
      case (Inr es)
      then obtain m where "Load S J st s2 = Inr (Some m)" "gomap_ok m" using assms(3) by blast
      then show ?thesis using loadTrackedEntities_inv(1) [of "p\<lparr>storage := Some st\<rparr>" st S J s2 m e q] that by simp
    qed
    then show ?thesis using set assms(2) by (simp add: proc_inv_def same_settings_def)
  qed
  moreover have "proc_inv cfg (p\<lparr>persistenceEnabled := b\<rparr>)" for b
    using assms(2) by (simp add: proc_inv_def table_inv_def entity_addrs_def)
  ultimately show ?thesis
    using assms(1,2) by (auto simp: setupStorage_def andThen_Inr_iff split: prod.splits option.splits if_splits)
qed

lemma newProcessor_inv:
  assumes "newProcessor S J C cfg s = Inr (Inr (p, s'))"
    and "\<And>st s1 es. Load S J st s1 = Inr es \<Longrightarrow> \<exists>m. es = Some m \<and> gomap_ok m"
  shows "proc_inv (Normalize cfg) p \<and> config_normal (config p)"
proof -
  let ?f = "\<lambda>b. freshProcessor (Normalize cfg) b (initNow C) (seedOrder C)"
  have f: "proc_inv (Normalize cfg) (?f b)" for b
    using freshProcessor_table_inv by (simp add: proc_inv_def freshProcessor_def)
  obtain b path s1 where "setupStorage S J path (?f b) s1 = Inr (p, s')"
    using assms(1) by (auto simp: newProcessor_def andThen_Inr_iff Let_def split: option.splits prod.splits)
  then have "proc_inv (Normalize cfg) p" using f by (rule setupStorage_inv) (rule assms(2))
  then show ?thesis using config_normal_Normalize by (simp add: proc_inv_def)
qed

section \<open>Claims\<close>

text \<open>C1: the promise of the processor at its boundary: whatever happens to the batch (nothing, a
  cancelled context before or in the middle of the loop, an error of the next consumer), each
  resource that must be forwarded under the thresholds in effect has its metrics in a batch
  that is handed to the next consumer.\<close>

theorem exceeding_always_delivered:
  assumes "ConsumeMetrics S J L C B t u md p s = Inr c" "updateDynamicThresholdsIfNeeded L B md p = Inr p1"
    and "2 \<le> minDataPoints p1" "rm \<in> set md" "must_keep L p1 rm"
  shows "\<exists>b\<in>set (sentBatches c). ScopeMetrics rm \<in> ScopeMetrics ` set b"
  using assms(1)
proof (cases rule: ConsumeMetrics_cases)
  case (1 r)
  have f: "ScopeMetrics rm \<in> ScopeMetrics ` set (filteredMetrics r)"
    using 1(1) assms(2-5) by (rule processMetrics_must_keep)
  show ?thesis
  proof (cases "batchError r")
    case None
    then show ?thesis using 1(2) f by (auto split: if_splits)
  next
    case (Some e)
    from 1(1) have "inputAfter r = md"
    proof (cases rule: processMetrics_cases)
      case processed
      then show ?thesis using Some by simp
    qed (use Some in \<open>simp_all add: handleContextCancellation_def\<close>)
    then show ?thesis using 1(2) Some assms(4) by simp
  qed
qed

definition accepting :: consumer where
  "accepting = (\<lambda>n md. None)"

theorem exceeding_always_delivered_witness:
  "\<exists>c. ConsumeMetrics sample_os sample_codec plain_lib accepting
         ((sample_batch 7)\<lparr>ctx_err := (\<lambda>_. Some ''canceled'')\<rparr>) 7 7 [sample_resource (Fin 6)]
         (sample_processor sample_config) [] = Inr c \<and>
     (\<exists>b\<in>set (sentBatches c). ScopeMetrics (sample_resource (Fin 6)) \<in> ScopeMetrics ` set b)"
proof -
  let ?B = "(sample_batch 7)\<lparr>ctx_err := (\<lambda>_. Some ''canceled'')\<rparr>" and ?p = "sample_processor sample_config"
  have "\<exists>c. ConsumeMetrics sample_os sample_codec plain_lib accepting ?B 7 7 [sample_resource (Fin 6)] ?p [] = Inr c"
    by (rule ConsumeMetrics_returns) (simp_all add: sample_processor_def list_check_safe_def sample_config_def)
  then obtain c where c: "ConsumeMetrics sample_os sample_codec plain_lib accepting ?B 7 7 [sample_resource (Fin 6)] ?p [] = Inr c"
    by blast
  have u: "updateDynamicThresholdsIfNeeded plain_lib ?B [sample_resource (Fin 6)] ?p = Inr ?p"
    by (simp add: updateDynamicThresholdsIfNeeded_def sample_processor_def sample_config_def)
  from exceeding_always_delivered [OF c u sample_decisions(1) _ sample_batch_facts(2)] c show ?thesis by auto
qed

text \<open>C19: each call of the next consumer is accounted for: there is at least one, the result is that of
  the last, an error of the batch passes the input on, and a batch that filters everything out
  hands over the whole input first.\<close>

theorem consume_delivers:
  assumes "ConsumeMetrics S J L C B t u md p s = Inr c"
  shows "sentBatches c \<noteq> [] \<and> consumeError c = C (length (sentBatches c) - 1) (last (sentBatches c)) \<and>
     (\<exists>r. processMetrics L B md p = Inr r \<and>
        hd (sentBatches c) = (if batchError r = None \<and> (filteredMetrics r \<noteq> [] \<or> inputAfter r = [])
          then filteredMetrics r else inputAfter r))"
  using assms by (cases rule: ConsumeMetrics_cases) (auto split: if_splits)

theorem consume_delivers_witness:
  "\<exists>c. ConsumeMetrics sample_os sample_codec plain_lib accepting (sample_batch 7) 7 7 []
         (sample_processor sample_config) [] = Inr c \<and> consumeError c = None"
proof -
  have "\<exists>c. ConsumeMetrics sample_os sample_codec plain_lib accepting (sample_batch 7) 7 7 []
         (sample_processor sample_config) [] = Inr c"
    by (rule ConsumeMetrics_returns) (simp_all add: sample_processor_def)
  then show ?thesis using consume_delivers by (fastforce simp: accepting_def)
qed

text \<open>
  When everything is filtered out the fall-back has already handed over the input, and the batch
  goes on to hand over the empty output: the next consumer is called twice.
\<close>

lemma filtered_out_sent_twice:
  assumes "ConsumeMetrics S J L C B t u md p s = Inr c" "processMetrics L B md p = Inr r"
    and "batchError r = None" "filteredMetrics r = []" "inputAfter r \<noteq> []" "C 0 (inputAfter r) = None"
  shows "sentBatches c = [inputAfter r, []]"
  using assms(1) by (cases rule: ConsumeMetrics_cases) (use assms(2-6) in simp)

text \<open>The statistics of the input are exact: resources, scopes and metrics are each counted once.\<close>

theorem input_stats_exact:
  "calculateInputStats md = \<lparr>ResourceCount = length md, ScopeCount = sum_list (map (length \<circ> ScopeMetrics) md),
     MetricCount = length (metrics_of md)\<rparr>"
  by (rule inputStats.equality) (simp_all add: countMetrics_stats)

section \<open>Claims about the life of a processor\<close>

text \<open>Every table that can be loaded is a map, not \<open>null\<close>.\<close>

definition loads_maps :: "'s os \<Rightarrow> entity_codec \<Rightarrow> bool" where
  "loads_maps S J \<longleftrightarrow> (\<forall>st s es. Load S J st s = Inr es \<longrightarrow> (\<exists>m. es = Some m \<and> gomap_ok m))"

lemma constructed_inv:
  assumes "newProcessor S J C cfg s = Inr (Inr (p, s'))" "loads_maps S J"
  shows "proc_inv (Normalize cfg) p"
  by (rule newProcessor_inv [OF assms(1), THEN conjunct1]) (use assms(2) in \<open>simp add: loads_maps_def\<close>)


lemma failing_codec_loads: "loads_maps sample_os failing_codec"
  by (auto simp: loads_maps_def Load_def failing_codec_def split: if_splits sum.splits)

lemma sample_run:
  obtains p s q z te where
    "newProcessor sample_os failing_codec sample_choices sample_config [] = Inr (Inr (p, s))"
    "trackedEntities p = Some []" "reachable sample_os failing_codec plain_lib (p, s) (q, z)"
    "lookup (trackedEntities q) ''process.4'' = Some te"
proof -
  let ?n = "newProcessor sample_os failing_codec sample_choices sample_config []"
  let ?c = "\<lambda>p s. ConsumeMetrics sample_os failing_codec plain_lib accepting (sample_batch 7) 7 7
      [sample_resource (Fin 6)] p s"
  have *: "(case ?n of Inr (Inr (p, s)) \<Rightarrow> trackedEntities p = Some [] \<and>
      (case ?c p s of Inr c \<Rightarrow> lookup (trackedEntities (processorThen c)) ''process.4'' \<noteq> None | _ \<Rightarrow> False) | _ \<Rightarrow> False)"
    by code_simp
  then obtain p s where n: "?n = Inr (Inr (p, s))" by (auto split: sum.splits prod.splits)
  with * have t: "trackedEntities p = Some []" by simp
  from * n obtain c where c: "?c p s = Inr c" by (cases "?c p s") auto
  with * n obtain te where "lookup (trackedEntities (processorThen c)) ''process.4'' = Some te" by auto
  with that [OF n t reachable.further [OF reachable.start step.consume [OF c]]] show thesis by blast
qed




text \<open>C12: a processor that starts without stored entities keeps all its histories within the
  configured size for ever.\<close>

theorem reachable_bounded:
  assumes "proc_inv cfg p" "trackedEntities p = Some []" "reachable S J L (p, s) (q, z)"
    and "lookup (trackedEntities q) i = Some te"
  shows "int (length (history_of te m)) \<le> fst (getAnomalyConfig q)"
proof -
  have gc: "fst (getAnomalyConfig q') = fst (getAnomalyConfig p)" if "config q' = cfg" for q'
    using that assms(1) by (simp only: proc_inv_def getAnomalyConfig_def)
  let ?P = "histories_bounded (fst (getAnomalyConfig p))"
  have "all_entities ?P (fst (q, z))"
  proof (rule reachable_entities [OF assms(3), of cfg])
    show "proc_inv cfg (fst (p, s))" "all_entities ?P (fst (p, s))"
      using assms(1,2) by (simp_all add: all_entities_def)
    show "all_entities ?P p'" if "config p0 = cfg" "entity_after E vs p0 j p'" "all_entities ?P p0" for E vs p0 j p'
      using entity_after_bounded [OF that(2)] that(3) gc [OF that(1)] by simp
  qed
  moreover have "config q = cfg" using reachable_proc_inv [OF assms(3), of cfg] assms(1) by (simp add: proc_inv_def)
  ultimately show ?thesis using assms(4) gc by (simp add: all_entities_def histories_bounded_def)
qed

theorem reachable_bounded_witness:
  "\<exists>p s q z te. newProcessor sample_os failing_codec sample_choices sample_config [] = Inr (Inr (p, s)) \<and>
     reachable sample_os failing_codec plain_lib (p, s) (q, z) \<and>
     lookup (trackedEntities q) ''process.4'' = Some te \<and>
     int (length (history_of te ''m'')) \<le> fst (getAnomalyConfig q)"
proof -
  obtain p s q z te where n: "newProcessor sample_os failing_codec sample_choices sample_config [] = Inr (Inr (p, s))"
    and t: "trackedEntities p = Some []" and r: "reachable sample_os failing_codec plain_lib (p, s) (q, z)"
    and te: "lookup (trackedEntities q) ''process.4'' = Some te"
    by (rule sample_run)
  have inv: "proc_inv (Normalize sample_config) p" using constructed_inv [OF n failing_codec_loads] .
  from reachable_bounded [OF inv t r te, of "''m''"] n r te show ?thesis by blast
qed

text \<open>C13: as long as a processor has only entities it created itself, both value maps of an entity are
  one map: its maxima always equal its latest values. Only entities read from the file keep them apart.\<close>

theorem maxima_alias_latest:
  assumes "proc_inv cfg p" "trackedEntities p = Some []" "reachable S J L (p, s) (q, z)"
    and "lookup (trackedEntities q) i = Some te"
  shows "MaxValues te = CurrentValues te \<and>
     value_of (values_store q) (MaxValues te) n = value_of (values_store q) (CurrentValues te) n"
proof -
  have "all_entities aliased (fst (q, z))"
    by (rule reachable_entities [OF assms(3), of cfg])
      (use assms(1,2) entity_after_aliased in \<open>auto simp: all_entities_def\<close>)
  then show ?thesis using assms(4) by (simp add: all_entities_def aliased_def)
qed

theorem maxima_alias_latest_witness:
  "\<exists>p s q z te. newProcessor sample_os failing_codec sample_choices sample_config [] = Inr (Inr (p, s)) \<and>
     reachable sample_os failing_codec plain_lib (p, s) (q, z) \<and>
     lookup (trackedEntities q) ''process.4'' = Some te \<and> MaxValues te = CurrentValues te"
proof -
  obtain p s q z te where n: "newProcessor sample_os failing_codec sample_choices sample_config [] = Inr (Inr (p, s))"
    and t: "trackedEntities p = Some []" and r: "reachable sample_os failing_codec plain_lib (p, s) (q, z)"
    and te: "lookup (trackedEntities q) ''process.4'' = Some te"
    by (rule sample_run)
  have inv: "proc_inv (Normalize sample_config) p" using constructed_inv [OF n failing_codec_loads] .
  from maxima_alias_latest [OF inv t r te] n r te show ?thesis by blast
qed

end
