(* ===== verification/Attr_Proc.thy ===== *)
theory Attr_Proc
  imports Pdata Go_Encoding
begin

text \<open>
  The attribute processor (internal/coreinternal/attraction: attraction.go, type_converter.go,
  hasher.go, and the client address of internal/coreinternal/clientutil): validating the configured
  actions, and applying them in order to an attribute map. Regular expressions, the conversion of
  configuration values, SHA-256, the parsing of floating-point numbers and of IP addresses belong
  to libraries and are fields of \<open>attr_lib\<close>.
\<close>

section \<open>The libraries\<close>

text \<open>
  \<^item> \<open>from_raw\<close>: \<open>Value.FromRaw\<close>, an error for a value of an unsupported type;
  \<^item> \<open>regex_compile\<close>, \<open>subexp_names\<close>, \<open>regex_match\<close>, \<open>find_submatch\<close>: package \<open>regexp\<close>;
  \<^item> \<open>parse_float\<close>: \<open>strconv.ParseFloat(s, 64)\<close>, \<open>None\<close> for an error;
  \<^item> \<open>int_of_float\<close>: \<open>int64(v)\<close> of a number that does not fit, which Go leaves to the implementation;
  \<^item> \<open>float_bits\<close>: \<open>math.Float64bits\<close> (NaN has many encodings);
  \<^item> \<open>sha256\<close>: the digest of a byte string;
  \<^item> \<open>parse_ip\<close>: the text of \<open>net.ParseIP(s)\<close>, \<open>None\<close> for nil.
\<close>

record ('raw, 're) attr_lib =
  values_lib :: lib
  from_raw :: "'raw \<Rightarrow> string + val"
  regex_compile :: "string \<Rightarrow> 're option"
  subexp_names :: "'re \<Rightarrow> string list"
  regex_match :: "'re \<Rightarrow> string \<Rightarrow> bool"
  find_submatch :: "'re \<Rightarrow> string \<Rightarrow> string list option"
  parse_float :: "string \<Rightarrow> f64 option"
  int_of_float :: "f64 \<Rightarrow> int"
  float_bits :: "f64 \<Rightarrow> nat"
  sha256 :: "string \<Rightarrow> string"
  parse_ip :: "string \<Rightarrow> string option"

section \<open>Configuration\<close>

record 'raw ActionKeyValue =
  a_Key :: string
  a_Value :: "'raw option"
  a_RegexPattern :: string
  a_FromAttribute :: string
  a_FromContext :: string
  a_ConvertedType :: string
  a_Action :: string

definition valueSourceCount :: "'raw ActionKeyValue \<Rightarrow> nat" where
  "valueSourceCount a = (if a_Value a \<noteq> None then 1 else 0) + (if a_FromAttribute a \<noteq> [] then 1 else 0) +
     (if a_FromContext a \<noteq> [] then 1 else 0)"

definition INSERT :: string where "INSERT = ''insert''"
definition UPDATE :: string where "UPDATE = ''update''"
definition UPSERT :: string where "UPSERT = ''upsert''"
definition DELETE :: string where "DELETE = ''delete''"
definition HASH :: string where "HASH = ''hash''"
definition EXTRACT :: string where "EXTRACT = ''extract''"
definition CONVERT :: string where "CONVERT = ''convert''"

lemmas action_names = INSERT_def UPDATE_def UPSERT_def DELETE_def HASH_def EXTRACT_def CONVERT_def

definition stringConversionTarget :: string where "stringConversionTarget = ''string''"
definition intConversionTarget :: string where "intConversionTarget = ''int''"
definition doubleConversionTarget :: string where "doubleConversionTarget = ''double''"

lemmas target_names = stringConversionTarget_def intConversionTarget_def doubleConversionTarget_def

text \<open>A validated action.\<close>

record 're attributeAction =
  Key :: string
  FromAttribute :: string
  FromContext :: string
  ConvertedType :: string
  Regex :: "'re option"
  AttrNames :: "string list"
  Action :: string
  AttributeValue :: "val option"

text \<open>The reasons for which a configuration is refused; the code adds key, index and action name.\<close>

datatype attr_error =
    MissingKeyAndPattern | MissingKey | NoValueSource | MultipleValueSources | PatternNotUsed
  | ConvertedTypeNotUsed | BadRawValue string | ValueNotUsed | InvalidPattern | SourcesNotUsed
  | MissingPattern | NoNamedGroups | UnnamedGroup | SourcesOrPatternNotUsed | MissingConvertedType
  | InvalidConvertedType | UnsupportedAction

text \<open>The bare action of the loop, and the branches of the second switch.\<close>

definition bare_action :: "string \<Rightarrow> string \<Rightarrow> 're attributeAction" where
  "bare_action key act = \<lparr>Key = key, FromAttribute = [], FromContext = [], ConvertedType = [], Regex = None,
     AttrNames = [], Action = act, AttributeValue = None\<rparr>"

definition validate_source ::
  "('raw, 're) attr_lib \<Rightarrow> 'raw ActionKeyValue \<Rightarrow> 're attributeAction \<Rightarrow> attr_error + 're attributeAction" where
  "validate_source L a action =
     (if valueSourceCount a = 0 then Inl NoValueSource
      else if 1 < valueSourceCount a then Inl MultipleValueSources
      else if a_RegexPattern a \<noteq> [] then Inl PatternNotUsed
      else if a_ConvertedType a \<noteq> [] then Inl ConvertedTypeNotUsed
      else case a_Value a of
        Some v \<Rightarrow> (case from_raw L v of Inl e \<Rightarrow> Inl (BadRawValue e)
                    | Inr x \<Rightarrow> Inr (action\<lparr>AttributeValue := Some x\<rparr>))
      | None \<Rightarrow> Inr (action\<lparr>FromAttribute := a_FromAttribute a, FromContext := a_FromContext a\<rparr>))"

definition validate_pattern ::
  "('raw, 're) attr_lib \<Rightarrow> 'raw ActionKeyValue \<Rightarrow> 're attributeAction \<Rightarrow> attr_error + 're attributeAction" where
  "validate_pattern L a action =
     (if a_Value a \<noteq> None \<or> a_FromAttribute a \<noteq> [] then Inl ValueNotUsed
      else if a_RegexPattern a \<noteq> [] then
        (case regex_compile L (a_RegexPattern a) of
           None \<Rightarrow> Inl InvalidPattern
         | Some re \<Rightarrow> if a_ConvertedType a \<noteq> [] then Inl ConvertedTypeNotUsed else Inr (action\<lparr>Regex := Some re\<rparr>))
      else if a_ConvertedType a \<noteq> [] then Inl ConvertedTypeNotUsed
      else Inr action)"

definition validate_extract ::
  "('raw, 're) attr_lib \<Rightarrow> 'raw ActionKeyValue \<Rightarrow> 're attributeAction \<Rightarrow> attr_error + 're attributeAction" where
  "validate_extract L a action =
     (if 0 < valueSourceCount a then Inl SourcesNotUsed
      else if a_RegexPattern a = [] then Inl MissingPattern
      else if a_ConvertedType a \<noteq> [] then Inl ConvertedTypeNotUsed
      else case regex_compile L (a_RegexPattern a) of
        None \<Rightarrow> Inl InvalidPattern
      | Some re \<Rightarrow>
        (let attrNames = subexp_names L re
         in if length attrNames \<le> 1 then Inl NoNamedGroups
            else if list_ex (\<lambda>n. n = []) (tl attrNames) then Inl UnnamedGroup
            else Inr (action\<lparr>Regex := Some re, AttrNames := attrNames\<rparr>)))"

definition validate_convert ::
  "'raw ActionKeyValue \<Rightarrow> 're attributeAction \<Rightarrow> attr_error + 're attributeAction" where
  "validate_convert a action =
     (if 0 < valueSourceCount a \<or> a_RegexPattern a \<noteq> [] then Inl SourcesOrPatternNotUsed
      else if a_ConvertedType a \<in> set [stringConversionTarget, intConversionTarget, doubleConversionTarget]
      then Inr (action\<lparr>ConvertedType := a_ConvertedType a\<rparr>)
      else if a_ConvertedType a = [] then Inl MissingConvertedType
      else Inl InvalidConvertedType)"

definition validateAction ::
  "('raw, 're) attr_lib \<Rightarrow> 'raw ActionKeyValue \<Rightarrow> attr_error + 're attributeAction" where
  "validateAction L a0 =
     (let a = a0\<lparr>a_Action := to_lower (values_lib L) (a_Action a0)\<rparr>; act = a_Action a
      in if (act = DELETE \<or> act = HASH) \<and> a_Key a = [] \<and> a_RegexPattern a = [] then Inl MissingKeyAndPattern
         else if act \<noteq> DELETE \<and> act \<noteq> HASH \<and> a_Key a = [] then Inl MissingKey
         else
           (let action = bare_action (a_Key a) act
            in if act = INSERT \<or> act = UPDATE \<or> act = UPSERT then validate_source L a action
               else if act = HASH \<or> act = DELETE then validate_pattern L a action
               else if act = EXTRACT then validate_extract L a action
               else if act = CONVERT then validate_convert a action
               else Inl UnsupportedAction))"

text \<open>The loop stops at the first action with an error, which it reports with its index.\<close>

fun validateActions ::
  "('raw, 're) attr_lib \<Rightarrow> nat \<Rightarrow> 'raw ActionKeyValue list \<Rightarrow> (nat \<times> attr_error) + 're attributeAction list" where
  "validateActions L i [] = Inr []"
| "validateActions L i (a # rest) =
     (case validateAction L a of
        Inl e \<Rightarrow> Inl (i, e)
      | Inr x \<Rightarrow> (case validateActions L (Suc i) rest of Inl e \<Rightarrow> Inl e | Inr xs \<Rightarrow> Inr (x # xs)))"

definition NewAttrProc ::
  "('raw, 're) attr_lib \<Rightarrow> 'raw ActionKeyValue list \<Rightarrow> (nat \<times> attr_error) + 're attributeAction list" where
  "NewAttrProc L settings = validateActions L 0 settings"

section \<open>The client of a request\<close>

text \<open>The address is a typed one with the text of its IP, or another one with its text.\<close>

datatype net_addr = UDPAddr string | TCPAddr string | IPAddr string | OtherAddr string

datatype auth_attr = AuthStr string | AuthStrs "string list" | AuthOther

record client_info =
  Addr :: "net_addr option"
  Metadata :: "string \<Rightarrow> string list"
  Auth :: "(string \<Rightarrow> auth_attr) option"

definition Address :: "('raw, 're) attr_lib \<Rightarrow> client_info \<Rightarrow> string" where
  "Address L ci =
     (case Addr ci of
        None \<Rightarrow> []
      | Some (UDPAddr ip) \<Rightarrow> ip
      | Some (TCPAddr ip) \<Rightarrow> ip
      | Some (IPAddr ip) \<Rightarrow> ip
      | Some (OtherAddr text) \<Rightarrow>
          (case last_index_any text '':'' of
             None \<Rightarrow> text
           | Some i \<Rightarrow> (case parse_ip L (take i text) of None \<Rightarrow> text | Some ip \<Rightarrow> ip)))"

definition getAttributeValueFromContext ::
  "('raw, 're) attr_lib \<Rightarrow> client_info \<Rightarrow> string \<Rightarrow> val option" where
  "getAttributeValueFromContext L ci key =
     (let joined = (\<lambda>vals. if vals = [] then None else Some (VStr (join '';'' vals)))
      in if key = ''client.address'' then joined [Address L ci]
         else if has_prefix key ''metadata.'' then joined (Metadata ci (trim_prefix key ''metadata.''))
         else if has_prefix key ''auth.'' then
           (case Auth ci of
              None \<Rightarrow> None
            | Some get \<Rightarrow>
              (case get (trim_prefix key ''auth.'') of
                 AuthStr a \<Rightarrow> Some (VStr a)
               | AuthStrs vals \<Rightarrow> joined vals
               | AuthOther \<Rightarrow> None))
         else joined (Metadata ci key))"

definition getSourceAttributeValue ::
  "('raw, 're) attr_lib \<Rightarrow> client_info \<Rightarrow> 're attributeAction \<Rightarrow> attrs \<Rightarrow> val option" where
  "getSourceAttributeValue L ci action attrs =
     (case AttributeValue action of
        Some v \<Rightarrow> Some v
      | None \<Rightarrow> (if FromContext action \<noteq> [] then getAttributeValueFromContext L ci (FromContext action)
                 else attr_get attrs (FromAttribute action)))"

section \<open>Conversion\<close>

text \<open>\<open>strconv.ParseInt(s, 10, 64)\<close>: a sign, then digits only, in the range of \<open>int64\<close>.\<close>

definition parse_int :: "string \<Rightarrow> int option" where
  "parse_int s =
     (let (neg, ds) = (case s of c # cs \<Rightarrow> if c = CHR ''-'' then (True, cs) else if c = CHR ''+'' then (False, cs) else (False, s)
                       | [] \<Rightarrow> (False, []));
          n = (if neg then - int (str_nat ds) else int (str_nat ds))
      in if ds = [] \<or> \<not> list_all is_digit ds \<or> \<not> is_int64 n then None else Some n)"

definition to_int64 :: "('raw, 're) attr_lib \<Rightarrow> f64 \<Rightarrow> int" where
  "to_int64 L v = (if is_fin v \<and> is_int64 (trunc_rat (fval v)) then trunc_rat (fval v) else int_of_float L v)"

definition convertToInt :: "('raw, 're) attr_lib \<Rightarrow> val \<Rightarrow> val" where
  "convertToInt L v =
     (case v of
        VInt i \<Rightarrow> v
      | VDouble d \<Rightarrow> VInt (to_int64 L d)
      | VBool b \<Rightarrow> VInt (if b then 1 else 0)
      | VStr s \<Rightarrow> (case parse_int s of Some n \<Rightarrow> VInt n | None \<Rightarrow> v)
      | _ \<Rightarrow> v)"

definition convertToDouble :: "('raw, 're) attr_lib \<Rightarrow> val \<Rightarrow> val" where
  "convertToDouble L v =
     (case v of
        VInt i \<Rightarrow> VDouble (f64_of_int i)
      | VDouble d \<Rightarrow> v
      | VBool b \<Rightarrow> VDouble (if b then Fin 1 else Fin 0)
      | VStr s \<Rightarrow> (case parse_float L s of Some d \<Rightarrow> VDouble d | None \<Rightarrow> v)
      | _ \<Rightarrow> v)"

definition convertValue :: "('raw, 're) attr_lib \<Rightarrow> string \<Rightarrow> val \<Rightarrow> val" where
  "convertValue L to v =
     (if to = stringConversionTarget then (if is_str v then v else VStr (as_string (values_lib L) v))
      else if to = intConversionTarget then convertToInt L v
      else if to = doubleConversionTarget then convertToDouble L v
      else v)"

section \<open>Hashing\<close>

text \<open>The bytes that are hashed: none for an empty value, bytes, a slice or a map.\<close>

fun hashedBytes :: "('raw, 're) attr_lib \<Rightarrow> val \<Rightarrow> string" where
  "hashedBytes L (VStr s) = s"
| "hashedBytes L (VBool b) = [if b then char_of (1::nat) else char_of (0::nat)]"
| "hashedBytes L (VInt i) = le_bytes 8 (nat (i mod 2 ^ 64))"
| "hashedBytes L (VDouble d) = le_bytes 8 (float_bits L d)"
| "hashedBytes L _ = []"

definition sha2Hasher :: "('raw, 're) attr_lib \<Rightarrow> val \<Rightarrow> val" where
  "sha2Hasher L v =
     (let bs = hashedBytes L v in VStr (if bs = [] then [] else hex_encode (sha256 L bs)))"

section \<open>Applying the actions\<close>

text \<open>\<open>CopyTo\<close> and \<open>SetStr\<close> overwrite a value in place.\<close>

definition attr_modify :: "string \<Rightarrow> (val \<Rightarrow> val) \<Rightarrow> attrs \<Rightarrow> attrs" where
  "attr_modify k f attrs = (case attr_get attrs k of None \<Rightarrow> attrs | Some v \<Rightarrow> attr_put k (f v) attrs)"

definition convertAttribute :: "('raw, 're) attr_lib \<Rightarrow> 're attributeAction \<Rightarrow> attrs \<Rightarrow> attrs" where
  "convertAttribute L action attrs = attr_modify (Key action) (convertValue L (ConvertedType action)) attrs"

text \<open>Reading a name beyond the list of names panics, hence the result is a \<open>go\<close> value.\<close>

fun putMatches :: "string list \<Rightarrow> string list \<Rightarrow> attrs \<Rightarrow> attrs go" where
  "putMatches ns [] attrs = Inr attrs"
| "putMatches [] (m # ms) attrs = Inl ''index out of range''"
| "putMatches (n # ns) (m # ms) attrs = putMatches ns ms (attr_put n (VStr m) attrs)"

definition extractAttributes :: "('raw, 're) attr_lib \<Rightarrow> 're attributeAction \<Rightarrow> attrs \<Rightarrow> attrs go" where
  "extractAttributes L action attrs =
     (case attr_get attrs (Key action) of
        Some (VStr s) \<Rightarrow>
          (case Regex action of
             None \<Rightarrow> Inl ''invalid memory address or nil pointer dereference''
           | Some re \<Rightarrow>
             (case find_submatch L re s of
                None \<Rightarrow> Inr attrs
              | Some matches \<Rightarrow> putMatches (drop 1 (AttrNames action)) (drop 1 matches) attrs))
      | _ \<Rightarrow> Inr attrs)"

definition hashAttributes :: "('raw, 're) attr_lib \<Rightarrow> 're attributeAction \<Rightarrow> attrs \<Rightarrow> attrs" where
  "hashAttributes L action attrs =
     (let attrs1 = attr_modify (Key action) (sha2Hasher L) attrs
      in case Regex action of
           None \<Rightarrow> attrs1
         | Some re \<Rightarrow> map (\<lambda>(k, v). (k, if regex_match L re k then sha2Hasher L v else v)) attrs1)"

definition deleteAttributes :: "('raw, 're) attr_lib \<Rightarrow> 're attributeAction \<Rightarrow> attrs \<Rightarrow> attrs" where
  "deleteAttributes L action attrs =
     (let attrs1 = attr_remove (Key action) attrs
      in case Regex action of None \<Rightarrow> attrs1 | Some re \<Rightarrow> filter (\<lambda>(k, v). \<not> regex_match L re k) attrs1)"

definition processAction ::
  "('raw, 're) attr_lib \<Rightarrow> client_info \<Rightarrow> 're attributeAction \<Rightarrow> attrs \<Rightarrow> attrs go" where
  "processAction L ci action attrs =
     (let act = Action action; k = Key action; av = getSourceAttributeValue L ci action attrs
      in if act = DELETE then Inr (deleteAttributes L action attrs)
         else if act = INSERT then
           (case av of None \<Rightarrow> Inr attrs
            | Some v \<Rightarrow> if attr_get attrs k \<noteq> None then Inr attrs else Inr (attr_put k v attrs))
         else if act = UPDATE then
           (case av of None \<Rightarrow> Inr attrs
            | Some v \<Rightarrow> if attr_get attrs k = None then Inr attrs else Inr (attr_put k v attrs))
         else if act = UPSERT then
           (case av of None \<Rightarrow> Inr attrs | Some v \<Rightarrow> Inr (attr_put k v attrs))
         else if act = HASH then Inr (hashAttributes L action attrs)
         else if act = EXTRACT then extractAttributes L action attrs
         else if act = CONVERT then Inr (convertAttribute L action attrs)
         else Inr attrs)"

fun Process ::
  "('raw, 're) attr_lib \<Rightarrow> client_info \<Rightarrow> 're attributeAction list \<Rightarrow> attrs \<Rightarrow> attrs go" where
  "Process L ci [] attrs = Inr attrs"
| "Process L ci (action # rest) attrs = andThen (processAction L ci action attrs) (Process L ci rest)"

section \<open>Validated actions\<close>

definition action_ok :: "('raw, 're) attr_lib \<Rightarrow> 're attributeAction \<Rightarrow> bool" where
  "action_ok L x \<longleftrightarrow>
     Action x \<in> set [INSERT, UPDATE, UPSERT, DELETE, HASH, EXTRACT, CONVERT] \<and>
     (if Action x = DELETE \<or> Action x = HASH then Key x \<noteq> [] \<or> Regex x \<noteq> None else Key x \<noteq> []) \<and>
     (Action x \<in> set [INSERT, UPDATE, UPSERT] \<longrightarrow>
        (case AttributeValue x of Some v \<Rightarrow> FromAttribute x = [] \<and> FromContext x = []
         | None \<Rightarrow> (FromAttribute x = []) \<noteq> (FromContext x = []))) \<and>
     (Action x = EXTRACT \<longrightarrow> (case Regex x of None \<Rightarrow> False
        | Some re \<Rightarrow> AttrNames x = subexp_names L re \<and> 1 < length (AttrNames x) \<and> [] \<notin> set (tl (AttrNames x)))) \<and>
     (Action x = CONVERT \<longrightarrow> ConvertedType x \<in> set [stringConversionTarget, intConversionTarget, doubleConversionTarget])"

lemma validate_source_ok:
  assumes "validate_source L a (bare_action k act) = Inr x" "act \<in> set [INSERT, UPDATE, UPSERT]" "k \<noteq> []"
  shows "action_ok L x"
proof -
  have act: "act \<in> set [INSERT, UPDATE, UPSERT, DELETE, HASH, EXTRACT, CONVERT]" "act \<noteq> DELETE" "act \<noteq> HASH"
    "act \<noteq> EXTRACT" "act \<noteq> CONVERT"
    using assms(2) by (auto simp: action_names)
  have c: "valueSourceCount a = 1"
    using assms(1) by (simp add: validate_source_def split: if_splits)
  show ?thesis
  proof (cases "a_Value a")
    case (Some raw)
    with assms(1) obtain v where "x = (bare_action k act)\<lparr>AttributeValue := Some v\<rparr>"
      by (auto simp: validate_source_def split: if_splits sum.splits)
    with act assms(3) show ?thesis by (simp add: action_ok_def bare_action_def)
  next
    case None
    with assms(1) have x: "x = (bare_action k act)\<lparr>FromAttribute := a_FromAttribute a, FromContext := a_FromContext a\<rparr>"
      by (simp add: validate_source_def split: if_splits)
    from c None have "(a_FromAttribute a = []) \<noteq> (a_FromContext a = [])"
      by (simp add: valueSourceCount_def split: if_splits)
    with act assms(3) x show ?thesis by (simp add: action_ok_def bare_action_def)
  qed
qed

lemma validate_pattern_ok:
  assumes "validate_pattern L a (bare_action k act) = Inr x" "act = HASH \<or> act = DELETE"
    and "k \<noteq> [] \<or> a_RegexPattern a \<noteq> []"
  shows "action_ok L x"
  using assms
  by (auto simp: validate_pattern_def bare_action_def action_ok_def action_names split: if_splits option.splits)

lemma validate_extract_ok:
  assumes "validate_extract L a (bare_action k EXTRACT) = Inr x" "k \<noteq> []"
  shows "action_ok L x"
  using assms
  by (auto simp: validate_extract_def bare_action_def action_ok_def action_names Let_def list_ex_iff
    split: if_splits option.splits)

lemma validate_convert_ok:
  assumes "validate_convert a (bare_action k CONVERT) = Inr x" "k \<noteq> []"
  shows "action_ok L x"
  using assms
  by (auto simp: validate_convert_def bare_action_def action_ok_def action_names split: if_splits)

lemma validateAction_ok:
  assumes "validateAction L a = Inr x"
  shows "action_ok L x"
proof -
  let ?act = "to_lower (values_lib L) (a_Action a)"
  let ?a = "a\<lparr>a_Action := ?act\<rparr>" and ?x = "bare_action (a_Key a) ?act"
  have guard: "if ?act = DELETE \<or> ?act = HASH then a_Key a \<noteq> [] \<or> a_RegexPattern ?a \<noteq> [] else a_Key a \<noteq> []"
    using assms by (auto simp: validateAction_def Let_def split: if_splits)
  consider "?act \<in> set [INSERT, UPDATE, UPSERT]" "validate_source L ?a ?x = Inr x"
    | "?act = HASH \<or> ?act = DELETE" "validate_pattern L ?a ?x = Inr x"
    | "?act = EXTRACT" "validate_extract L ?a ?x = Inr x"
    | "?act = CONVERT" "validate_convert ?a ?x = Inr x"
    using assms by (auto simp: validateAction_def Let_def split: if_splits)
  then show ?thesis
  proof cases
    case 1
    with guard show ?thesis by (intro validate_source_ok [OF 1(2)]) (auto simp: action_names)
  next
    case 2
    with guard show ?thesis by (intro validate_pattern_ok [OF 2(2)]) auto
  next
    case 3
    with guard show ?thesis by (intro validate_extract_ok [OF 3(2) [unfolded 3(1)]]) (auto simp: action_names)
  next
    case 4
    with guard show ?thesis by (intro validate_convert_ok [OF 4(2) [unfolded 4(1)]]) (auto simp: action_names)
  qed
qed

lemma validateActions_ok:
  "validateActions L i as = Inr xs \<Longrightarrow> length xs = length as \<and> list_all (action_ok L) xs"
  by (induction as arbitrary: i xs) (auto split: sum.splits dest: validateAction_ok)

lemma validateActions_each:
  "validateActions L i as = Inr xs \<Longrightarrow> n < length as \<Longrightarrow> validateAction L (as ! n) = Inr (xs ! n)"
  by (induction as arbitrary: i xs n) (auto simp: nth_Cons split: sum.splits nat.splits)

lemma validateActions_error:
  "validateActions L i as = Inl (j, e) \<Longrightarrow>
     i \<le> j \<and> j < i + length as \<and> validateAction L (as ! (j - i)) = Inl e \<and>
     (\<forall>n<j - i. \<exists>x. validateAction L (as ! n) = Inr x)"
proof (induction as arbitrary: i)
  case (Cons a as)
  show ?case
  proof (cases "validateAction L a")
    case (Inl e')
    then show ?thesis using Cons.prems by auto
  next
    case (Inr x)
    then have "validateActions L (Suc i) as = Inl (j, e)" using Cons.prems by (auto split: sum.splits)
    note IH = Cons.IH [OF this]
    then obtain d where d: "j - i = Suc d" "j - Suc i = d" by (metis Suc_diff_Suc Suc_le_lessD diff_Suc_1 diff_diff_left diff_commute plus_1_eq_Suc)
    then show ?thesis using IH Inr by (auto simp: nth_Cons split: nat.splits)
  qed
qed simp

section \<open>The meaning of an action\<close>

text \<open>The specification works on lookup functions.\<close>

type_synonym attr_fun = "string \<Rightarrow> val option"

definition source_of :: "('raw, 're) attr_lib \<Rightarrow> client_info \<Rightarrow> 're attributeAction \<Rightarrow> attr_fun \<Rightarrow> val option" where
  "source_of L ci x m =
     (case AttributeValue x of
        Some v \<Rightarrow> Some v
      | None \<Rightarrow> (if FromContext x \<noteq> [] then getAttributeValueFromContext L ci (FromContext x) else m (FromAttribute x)))"

definition matched :: "('raw, 're) attr_lib \<Rightarrow> 're attributeAction \<Rightarrow> string \<Rightarrow> bool" where
  "matched L x k = (case Regex x of None \<Rightarrow> False | Some re \<Rightarrow> regex_match L re k)"

definition extracted :: "('raw, 're) attr_lib \<Rightarrow> 're attributeAction \<Rightarrow> attr_fun \<Rightarrow> (string \<times> string) list" where
  "extracted L x m =
     (case (m (Key x), Regex x) of
        (Some (VStr s), Some re) \<Rightarrow>
          (case find_submatch L re s of None \<Rightarrow> [] | Some ms \<Rightarrow> zip (drop 1 (AttrNames x)) (drop 1 ms))
      | _ \<Rightarrow> [])"

definition meaning ::
  "('raw, 're) attr_lib \<Rightarrow> client_info \<Rightarrow> 're attributeAction \<Rightarrow> attr_fun \<Rightarrow> attr_fun" where
  "meaning L ci x m k =
     (if Action x = DELETE then if k = Key x \<or> matched L x k then None else m k
      else if Action x = INSERT then if k = Key x \<and> m k = None then source_of L ci x m else m k
      else if Action x = UPDATE then
        if k = Key x \<and> m k \<noteq> None \<and> source_of L ci x m \<noteq> None then source_of L ci x m else m k
      else if Action x = UPSERT then if k = Key x \<and> source_of L ci x m \<noteq> None then source_of L ci x m else m k
      else if Action x = HASH then
        map_option ((if matched L x k then sha2Hasher L else id) \<circ> (if k = Key x then sha2Hasher L else id)) (m k)
      else if Action x = EXTRACT then (m ++ map_of (rev (map (\<lambda>(n, s). (n, VStr s)) (extracted L x m)))) k
      else if Action x = CONVERT \<and> k = Key x then map_option (convertValue L (ConvertedType x)) (m k)
      else m k)"

lemma source_of_get: "getSourceAttributeValue L ci x attrs = source_of L ci x (attr_get attrs)"
  by (simp only: getSourceAttributeValue_def source_of_def)

lemma attr_modify_get: "attr_get (attr_modify k f a) j = (if j = k then map_option f (attr_get a k) else attr_get a j)"
  by (auto simp: attr_modify_def split: option.split)

lemma gomap_ok_modify [simp]: "gomap_ok a \<Longrightarrow> gomap_ok (attr_modify k f a)"
  by (auto simp: attr_modify_def attr_put_def split: option.split)

lemma attr_get_map: "attr_get (map (\<lambda>(k, v). (k, f k v)) a) k = map_option (f k) (attr_get a k)"
  by (induction a) (auto simp: attr_get_def)

lemma attr_get_filter: "attr_get (filter (\<lambda>(k, v). P k) a) k = (if P k then attr_get a k else None)"
  by (simp add: attr_get_def map_of_filter_fst)

lemma hash_meaning:
  "attr_get (hashAttributes L x a) k =
     map_option ((if matched L x k then sha2Hasher L else id) \<circ> (if k = Key x then sha2Hasher L else id)) (attr_get a k)"
proof (cases "Regex x")
  case None
  then show ?thesis
    by (auto simp: hashAttributes_def matched_def attr_modify_get option.map_id Let_def)
next
  case (Some re)
  let ?f = "\<lambda>k v. if regex_match L re k then sha2Hasher L v else v"
  have "attr_get (hashAttributes L x a) k = map_option (?f k) (attr_get (attr_modify (Key x) (sha2Hasher L) a) k)"
    unfolding hashAttributes_def Some Let_def option.case by (rule attr_get_map)
  then show ?thesis using Some
    by (cases "attr_get a k") (auto simp: matched_def attr_modify_get)
qed

lemma delete_meaning:
  "attr_get (deleteAttributes L x a) k = (if k = Key x \<or> matched L x k then None else attr_get a k)"
  by (auto simp: deleteAttributes_def matched_def attr_get_filter Let_def split: option.split)

lemma putMatches_zip:
  "putMatches ns ms a = Inr r \<Longrightarrow>
     attr_get r = attr_get a ++ map_of (rev (map (\<lambda>(n, s). (n, VStr s)) (zip ns ms))) \<and> (gomap_ok a \<longrightarrow> gomap_ok r)"
proof (induction ns ms a rule: putMatches.induct)
  case (3 n ns m ms a)
  then have "attr_get r = attr_get (attr_put n (VStr m) a) ++ map_of (rev (map (\<lambda>(n, s). (n, VStr s)) (zip ns ms)))"
    "gomap_ok a \<longrightarrow> gomap_ok r"
    by (auto simp: attr_put_def)
  moreover have "attr_get (attr_put n (VStr m) a) = (attr_get a)(n \<mapsto> VStr m)" by auto
  ultimately show ?case by (simp add: map_add_upd_left map_add_def fun_eq_iff split: option.splits)
qed simp_all

lemma putMatches_returns: "length ms \<le> length ns \<Longrightarrow> \<exists>r. putMatches ns ms a = Inr r"
  by (induction ns ms a rule: putMatches.induct) auto

lemma extract_meaning:
  assumes "extractAttributes L x a = Inr r"
  shows "attr_get r = attr_get a ++ map_of (rev (map (\<lambda>(n, s). (n, VStr s)) (extracted L x (attr_get a)))) \<and>
    (gomap_ok a \<longrightarrow> gomap_ok r)"
proof (cases "\<exists>s re ms. attr_get a (Key x) = Some (VStr s) \<and> Regex x = Some re \<and> find_submatch L re s = Some ms")
  case True
  then obtain s re ms where "attr_get a (Key x) = Some (VStr s)" "Regex x = Some re" "find_submatch L re s = Some ms"
    by blast
  with assms show ?thesis
    using putMatches_zip [of "drop 1 (AttrNames x)" "drop 1 ms" a r]
    by (simp add: extractAttributes_def extracted_def)
next
  case False
  then have "r = a \<and> extracted L x (attr_get a) = []"
    using assms by (auto simp: extractAttributes_def extracted_def split: option.splits val.splits)
  then show ?thesis by simp
qed


lemma convert_meaning:
  "attr_get (convertAttribute L x a) k =
     (if k = Key x then map_option (convertValue L (ConvertedType x)) (attr_get a k) else attr_get a k)"
  by (simp add: convertAttribute_def attr_modify_get)

lemma gomap_ok_hash [simp]: "gomap_ok a \<Longrightarrow> gomap_ok (hashAttributes L x a)"
proof -
  assume "gomap_ok a"
  then have "gomap_ok (attr_modify (Key x) (sha2Hasher L) a)" by simp
  then show ?thesis
    by (auto simp: hashAttributes_def Let_def gomap_ok_def comp_def case_prod_unfold split: option.split)
qed

lemma gomap_ok_delete_attributes [simp]: "gomap_ok a \<Longrightarrow> gomap_ok (deleteAttributes L x a)"
  by (auto simp: deleteAttributes_def attr_remove_def Let_def split: option.split)

lemmas action_meanings = delete_meaning hash_meaning convert_meaning

lemma put_source_meaning:
  assumes "(case av of None \<Rightarrow> Inr a | Some v \<Rightarrow> if P then Inr a else Inr (attr_put k v a)) = (Inr r :: attrs go)"
  shows "attr_get r = (\<lambda>j. if j = k \<and> \<not> P \<and> av \<noteq> None then av else attr_get a j)"
  using assms by (cases av) (auto split: if_splits)

lemma simple_meaning:
  assumes "processAction L ci x a = Inr r" "Action x \<noteq> EXTRACT"
  shows "attr_get r = meaning L ci x (attr_get a)"
proof -
  consider (del) "Action x = DELETE" | (ins) "Action x = INSERT" | (upd) "Action x = UPDATE"
    | (ups) "Action x = UPSERT" | (hash) "Action x = HASH" | (conv) "Action x = CONVERT"
    | (other) "Action x \<notin> set [INSERT, UPDATE, UPSERT, DELETE, HASH, EXTRACT, CONVERT]"
    using assms(2) by auto
  then show ?thesis
  proof cases
    case del
    then show ?thesis using assms(1) by (auto simp: processAction_def meaning_def action_meanings fun_eq_iff)
  next
    case ins
    then have "(case source_of L ci x (attr_get a) of None \<Rightarrow> Inr a
        | Some v \<Rightarrow> if attr_get a (Key x) \<noteq> None then Inr a else Inr (attr_put (Key x) v a)) = (Inr r :: attrs go)"
      using assms(1) by (simp add: processAction_def action_names source_of_get Let_def del: not_None_eq)
    from put_source_meaning [OF this] show ?thesis
      using ins by (auto simp: meaning_def action_names fun_eq_iff)
  next
    case upd
    then have "(case source_of L ci x (attr_get a) of None \<Rightarrow> Inr a
        | Some v \<Rightarrow> if attr_get a (Key x) = None then Inr a else Inr (attr_put (Key x) v a)) = (Inr r :: attrs go)"
      using assms(1) by (simp add: processAction_def action_names source_of_get Let_def)
    from put_source_meaning [OF this] show ?thesis
      using upd by (auto simp: meaning_def action_names fun_eq_iff)
  next
    case ups
    then have "(case source_of L ci x (attr_get a) of None \<Rightarrow> Inr a | Some v \<Rightarrow> Inr (attr_put (Key x) v a)) = (Inr r :: attrs go)"
      using assms(1) by (simp add: processAction_def action_names source_of_get Let_def)
    then show ?thesis
      using ups by (cases "source_of L ci x (attr_get a)") (auto simp: meaning_def action_names fun_eq_iff)
  next
    case hash
    then have "r = hashAttributes L x a" using assms(1) by (simp add: processAction_def action_names)
    then show ?thesis using hash by (simp add: meaning_def action_names fun_eq_iff hash_meaning)
  next
    case conv
    then have "r = convertAttribute L x a" using assms(1) by (simp add: processAction_def action_names)
    then show ?thesis using conv by (simp add: meaning_def action_names fun_eq_iff convert_meaning)
  next
    case other
    then have "r = a" using assms(1) by (simp add: processAction_def Let_def)
    then show ?thesis using other by (simp add: meaning_def fun_eq_iff)
  qed
qed

lemma processAction_meaning:
  assumes "processAction L ci x a = Inr r"
  shows "attr_get r = meaning L ci x (attr_get a) \<and> (gomap_ok a \<longrightarrow> gomap_ok r)"
proof -
  consider "Action x = EXTRACT" "extractAttributes L x a = Inr r"
    | "Action x \<noteq> EXTRACT"
    using assms by (cases "Action x = EXTRACT") (auto simp: processAction_def action_names Let_def)
  then show ?thesis
  proof cases
    case 1
    then show ?thesis
      using extract_meaning [OF 1(2)] by (auto simp: meaning_def action_names fun_eq_iff)
  next
    case 2
    have "attr_get r = meaning L ci x (attr_get a)" by (rule simple_meaning [OF assms 2])
    moreover have "gomap_ok a \<Longrightarrow> gomap_ok r"
      using assms 2 unfolding processAction_def Let_def
      by (auto simp: attr_put_def convertAttribute_def split: if_splits option.splits)
    ultimately show ?thesis by blast
  qed
qed

lemma Process_meaning:
  "Process L ci xs a = Inr r \<Longrightarrow>
     attr_get r = foldl (\<lambda>m x. meaning L ci x m) (attr_get a) xs \<and> (gomap_ok a \<longrightarrow> gomap_ok r)"
proof (induction xs arbitrary: a)
  case (Cons x xs)
  then obtain b where b: "processAction L ci x a = Inr b" "Process L ci xs b = Inr r"
    by (auto simp: andThen_Inr_iff)
  from Cons.IH [OF b(2)] processAction_meaning [OF b(1)] show ?case by simp
qed simp

text \<open>What package \<open>regexp\<close> documents: one match per name.\<close>

definition regexp_ok :: "('raw, 're) attr_lib \<Rightarrow> bool" where
  "regexp_ok L \<longleftrightarrow> (\<forall>re s ms. find_submatch L re s = Some ms \<longrightarrow> length ms = length (subexp_names L re))"

lemma processAction_returns:
  assumes "action_ok L x" "regexp_ok L"
  shows "\<exists>r. processAction L ci x a = Inr r"
proof (cases "Action x = EXTRACT")
  case True
  then obtain re where re: "Regex x = Some re" "AttrNames x = subexp_names L re"
    using assms(1) by (auto simp: action_ok_def split: option.splits)
  have "\<exists>r. extractAttributes L x a = Inr r"
  proof (cases "\<exists>s ms. attr_get a (Key x) = Some (VStr s) \<and> find_submatch L re s = Some ms")
    case True
    then obtain s ms where s: "attr_get a (Key x) = Some (VStr s)" "find_submatch L re s = Some ms" by blast
    then have "length ms = length (AttrNames x)" using assms(2) re(2) by (simp add: regexp_ok_def)
    then show ?thesis
      using putMatches_returns [of "drop 1 ms" "drop 1 (AttrNames x)" a] s re by (simp add: extractAttributes_def)
  next
    case False
    then show ?thesis using re by (auto simp: extractAttributes_def split: option.splits val.splits)
  qed
  then show ?thesis using True by (simp add: processAction_def action_names)
qed (auto simp: processAction_def Let_def split: option.split)

lemma Process_returns:
  "list_all (action_ok L) xs \<Longrightarrow> regexp_ok L \<Longrightarrow> \<exists>r. Process L ci xs a = Inr r"
proof (induction xs arbitrary: a)
  case (Cons x xs)
  then obtain b where "processAction L ci x a = Inr b" using processAction_returns by (metis list.pred_inject(2))
  with Cons show ?case by simp
qed simp

section \<open>Conversions\<close>

lemma is_digit_not_sign: "is_digit c \<Longrightarrow> c \<noteq> CHR ''-'' \<and> c \<noteq> CHR ''+''"
  by (auto simp: is_digit_def)

lemma parse_int_nat_str: "is_int64 (int n) \<Longrightarrow> parse_int (nat_str n) = Some (int n)"
proof -
  assume n: "is_int64 (int n)"
  obtain c cs where c: "nat_str n = c # cs" by (cases "nat_str n") (use nat_str_ne in auto)
  have "is_digit c" "list_all is_digit (nat_str n)" using nat_str_digits [of n] c by auto
  then show ?thesis
    using n c is_digit_not_sign str_nat_nat_str [of n] by (auto simp: parse_int_def)
qed

lemma parse_int_int_str:
  assumes "is_int64 i"
  shows "parse_int (int_str i) = Some i"
proof (cases "i < 0")
  case True
  have "list_all is_digit (nat_str (nat (- i)))" by (rule nat_str_digits)
  then show ?thesis using True assms by (simp add: parse_int_def int_str_def)
next
  case False
  then show ?thesis using parse_int_nat_str [of "nat i"] assms by (simp add: int_str_def)
qed

lemma convertToInt_twice: "convertToInt L (convertToInt L v) = convertToInt L v"
  by (cases v) (auto simp: convertToInt_def split: option.split)

lemma convertToDouble_twice: "convertToDouble L (convertToDouble L v) = convertToDouble L v"
  by (cases v) (auto simp: convertToDouble_def split: option.split)

lemma convertValue_twice: "convertValue L t (convertValue L t v) = convertValue L t v"
  by (simp add: convertValue_def convertToInt_twice convertToDouble_twice)

section \<open>Properties of the attribute processor\<close>

text \<open>A library without regular expressions, for evaluating the definitions on examples.\<close>

definition plain_attr_lib :: "(val, string) attr_lib" where
  "plain_attr_lib = \<lparr>values_lib = plain_lib, from_raw = Inr, regex_compile = Some,
     subexp_names = (\<lambda>re. [[], re]), regex_match = (\<lambda>re s. re = s), find_submatch = (\<lambda>re s. Some [s, s]),
     parse_float = (\<lambda>_. None), int_of_float = (\<lambda>_. 0), float_bits = (\<lambda>_. 0), sha256 = (\<lambda>s. s),
     parse_ip = (\<lambda>_. None)\<rparr>"

definition no_client :: client_info where
  "no_client = \<lparr>Addr = None, Metadata = (\<lambda>_. []), Auth = None\<rparr>"

definition extract_x :: "val ActionKeyValue" where
  "extract_x = \<lparr>a_Key = ''k'', a_Value = None, a_RegexPattern = ''x'', a_FromAttribute = [], a_FromContext = [],
     a_ConvertedType = [], a_Action = ''EXTRACT''\<rparr>"

definition bad_convert :: "val ActionKeyValue" where
  "bad_convert = extract_x\<lparr>a_RegexPattern := [], a_ConvertedType := ''boolean'', a_Action := ''convert''\<rparr>"

lemmas example_defs = plain_attr_lib_def plain_lib_def no_client_def extract_x_def bad_convert_def

lemma extract_x_accepted:
  "NewAttrProc plain_attr_lib [extract_x] =
     Inr [\<lparr>Key = ''k'', FromAttribute = [], FromContext = [], ConvertedType = [], Regex = Some ''x'',
       AttrNames = [[], ''x''], Action = EXTRACT, AttributeValue = None\<rparr>]"
  by code_simp

lemma regexp_ok_plain: "regexp_ok plain_attr_lib"
  by (simp add: regexp_ok_def plain_attr_lib_def)

text \<open>C22: A configuration that \<open>NewAttrProc\<close> accepts yields one validated action for each configured one; applying
  them to any attribute map with any client returns, without an index out of range or a nil dereference, and keeps
  the keys distinct.\<close>

theorem attr_process_total:
  assumes "NewAttrProc L settings = Inr xs" "regexp_ok L" "gomap_ok attrs"
  shows "length xs = length settings \<and> list_all (action_ok L) xs \<and>
    (\<exists>r. Process L ci xs attrs = Inr r \<and> gomap_ok r)"
proof -
  have xs: "length xs = length settings" "list_all (action_ok L) xs"
    using assms(1) validateActions_ok unfolding NewAttrProc_def by blast+
  then obtain r where "Process L ci xs attrs = Inr r" using Process_returns assms(2) by blast
  with xs assms(3) Process_meaning show ?thesis by blast
qed

theorem attr_process_total_witness:
  "\<exists>r. Process plain_attr_lib no_client
      [\<lparr>Key = ''k'', FromAttribute = [], FromContext = [], ConvertedType = [], Regex = Some ''x'',
        AttrNames = [[], ''x''], Action = EXTRACT, AttributeValue = None\<rparr>] [(''k'', VStr ''v'')] = Inr r \<and> gomap_ok r"
  using attr_process_total [OF extract_x_accepted regexp_ok_plain, of "[(''k'', VStr ''v'')]" no_client]
  by (simp add: gomap_ok_def)

text \<open>\<open>NewAttrProc\<close> refuses a configuration exactly when one of its actions is invalid, and reports the index of the
  first such action and its error.\<close>

theorem attr_config_error:
  "NewAttrProc L settings = Inl (j, e) \<longleftrightarrow>
     j < length settings \<and> validateAction L (settings ! j) = Inl e \<and> (\<forall>n<j. \<exists>x. validateAction L (settings ! n) = Inr x)"
proof
  assume "NewAttrProc L settings = Inl (j, e)"
  then show "j < length settings \<and> validateAction L (settings ! j) = Inl e \<and> (\<forall>n<j. \<exists>x. validateAction L (settings ! n) = Inr x)"
    using validateActions_error [of L 0 settings j e] by (simp add: NewAttrProc_def)
next
  assume j: "j < length settings \<and> validateAction L (settings ! j) = Inl e \<and> (\<forall>n<j. \<exists>x. validateAction L (settings ! n) = Inr x)"
  show "NewAttrProc L settings = Inl (j, e)"
  proof (cases "NewAttrProc L settings")
    case (Inl r)
    obtain i e' where r: "r = (i, e')" by (cases r)
    from validateActions_error [of L 0 settings i e'] Inl r
    have i: "validateAction L (settings ! i) = Inl e'" "\<forall>n<i. \<exists>x. validateAction L (settings ! n) = Inr x"
      by (simp_all add: NewAttrProc_def)
    have "\<not> i < j" "\<not> j < i" using i j by force+
    then show ?thesis using i j Inl r by auto
  next
    case (Inr xs)
    with validateActions_each [of L 0 settings xs] j show ?thesis by (auto simp: NewAttrProc_def)
  qed
qed

theorem attr_config_error_witness:
  "NewAttrProc plain_attr_lib [extract_x, bad_convert] = Inl (1, InvalidConvertedType)"
proof -
  have "validateAction plain_attr_lib bad_convert = Inl InvalidConvertedType" by code_simp
  moreover have "\<exists>x. validateAction plain_attr_lib extract_x = Inr x"
    using extract_x_accepted by (auto simp: NewAttrProc_def split: sum.splits)
  ultimately show ?thesis
    using attr_config_error [of plain_attr_lib "[extract_x, bad_convert]" 1 InvalidConvertedType] by simp
qed

text \<open>C21: Applying a list of actions has the effect of their meanings, one after the other, on the map from keys to
  values: deletion removes the key and the keys that match, insertion, update and upsert set the key exactly when it is
  absent, present, or always, provided the source has a value, hashing and conversion change only the value of the
  addressed keys, extraction sets the named groups, and no other key changes.\<close>

theorem attr_process_refines:
  assumes "Process L ci xs attrs = Inr r"
  shows "attr_get r = foldl (\<lambda>m x. meaning L ci x m) (attr_get attrs) xs"
  using Process_meaning [OF assms] by blast

theorem attr_process_refines_witness:
  "attr_get [(''a'', VInt 1)] = foldl (\<lambda>m x. meaning plain_attr_lib no_client x m) (attr_get [(''a'', VStr ''1'')])
     [(bare_action ''a'' CONVERT)\<lparr>ConvertedType := intConversionTarget\<rparr>]"
proof -
  have "Process plain_attr_lib no_client [(bare_action ''a'' CONVERT)\<lparr>ConvertedType := intConversionTarget\<rparr>]
      [(''a'', VStr ''1'')] = Inr [(''a'', VInt 1)]"
    by code_simp
  from attr_process_refines [OF this] show ?thesis .
qed

text \<open>Converting a value twice is converting it once; an \<open>int64\<close> survives the way to a string and back, and a
  boolean the way to an integer.\<close>

theorem convert_roundtrip:
  "convertValue L t (convertValue L t v) = convertValue L t v \<and>
   (is_int64 i \<longrightarrow> convertValue L intConversionTarget (convertValue L stringConversionTarget (VInt i)) = VInt i)"
  using parse_int_int_str [of i]
  by (auto simp: convertValue_twice) (simp add: convertValue_def target_names convertToInt_def)

theorem convert_roundtrip_witness:
  "convertValue plain_attr_lib intConversionTarget
     (convertValue plain_attr_lib stringConversionTarget (VInt (- 42))) = VInt (- 42)"
  using convert_roundtrip [of plain_attr_lib "''int''" VEmpty "- 42"] by (simp add: is_int64_def)

lemma hashed_int_inj:
  assumes "is_int64 i" "is_int64 j" "hashedBytes L (VInt i) = hashedBytes L (VInt j)"
  shows "i = j"
proof -
  have read: "int (from_le (hashedBytes L (VInt k))) = k mod 2 ^ 64" for k
    using from_le_bytes [of "nat (k mod 2 ^ 64)" 8] by (simp add: nat_less_iff)
  have "i mod 2 ^ 64 = j mod 2 ^ 64" using read [of i] read [of j] assms(3) by metis
  then have "2 ^ 64 dvd i - j" by (simp add: mod_eq_dvd_iff)
  moreover have "\<bar>i - j\<bar> < 2 ^ 64" using assms(1,2) by (auto simp: is_int64_def)
  ultimately have "i - j = 0" using dvd_imp_le_int [of "i - j" "2 ^ 64"] by force
  then show ?thesis by simp
qed

text \<open>Hashing replaces every value by a string: empty for an empty value, bytes, a slice, a map or the empty string,
  and otherwise the lower-case hexadecimal digits, two for each byte, of the SHA-256 digest of an encoding that
  distinguishes all integers.\<close>

theorem hash_format:
  "(\<exists>h. sha2Hasher L v = VStr h \<and> set h \<subseteq> set ''0123456789abcdef'' \<and>
      length h = (if hashedBytes L v = [] then 0 else 2 * length (sha256 L (hashedBytes L v)))) \<and>
   (is_int64 i \<longrightarrow> is_int64 j \<longrightarrow> i \<noteq> j \<longrightarrow> hashedBytes L (VInt i) \<noteq> hashedBytes L (VInt j))"
  using hex_encode_chars [of "sha256 L (hashedBytes L v)"] hashed_int_inj [of i j L]
  by (auto simp: sha2Hasher_def Let_def)

theorem hash_format_witness:
  "hashedBytes plain_attr_lib (VInt (- 1)) \<noteq> hashedBytes plain_attr_lib (VInt 255) \<and>
   (\<exists>h. sha2Hasher plain_attr_lib (VBool True) = VStr h \<and> length h = 2)"
proof
  show "hashedBytes plain_attr_lib (VInt (- 1)) \<noteq> hashedBytes plain_attr_lib (VInt 255)"
    using hash_format [of plain_attr_lib VEmpty "- 1" 255] by (simp add: is_int64_def del: hashedBytes.simps)
  have "hashedBytes plain_attr_lib (VBool True) = [char_of (1::nat)]" by simp
  then show "\<exists>h. sha2Hasher plain_attr_lib (VBool True) = VStr h \<and> length h = 2"
    using hash_format [of plain_attr_lib "VBool True" 0 0] by (auto simp: plain_attr_lib_def)
qed

end
