(* ===== verification/Aggregate.thy ===== *)
theory Aggregate
  imports Attr_Proc "HOL-Library.Word"
begin

text \<open>
  Aggregation of data points (internal/coreinternal/aggregateutil: aggregate.go, type.go): copying
  the description of a metric, filtering attributes, grouping points by attributes and time, and
  merging each group into one point. Counts and bucket counts are \<open>uint64\<close> and offsets \<open>int32\<close>, as
  words. The groups are consumed by merging; what is left in them is not part of the model.
\<close>

section \<open>Metrics with their points\<close>

datatype number = DoubleNum f64 | IntNum int | NoNum

record number_point =
  np_attrs :: attrs
  np_start :: nat
  np_time :: nat
  np_value :: number
  np_rest :: payload

record hist_point =
  hp_attrs :: attrs
  hp_start :: nat
  hp_time :: nat
  hp_count :: "64 word"
  hp_sum :: "f64 option"
  hp_min :: "f64 option"
  hp_max :: "f64 option"
  hp_bounds :: "f64 list"
  hp_counts :: "64 word list"
  hp_flags :: nat
  hp_exemplars :: "payload list"

record buckets =
  offset :: "32 word"
  bucket_counts :: "64 word list"

record exp_point =
  ep_attrs :: attrs
  ep_start :: nat
  ep_time :: nat
  ep_count :: "64 word"
  ep_sum :: "f64 option"
  ep_min :: "f64 option"
  ep_max :: "f64 option"
  ep_scale :: int
  ep_zero_count :: "64 word"
  ep_positive :: buckets
  ep_negative :: buckets
  ep_flags :: nat
  ep_exemplars :: "payload list"
  ep_rest :: payload

record summary_point =
  sp_attrs :: attrs
  sp_rest :: payload

datatype temporality = Unspecified | Delta | Cumulative

datatype agg_data = GaugeOf "number_point list" | SumOf temporality bool "number_point list"
  | HistogramOf temporality "hist_point list" | ExpHistogramOf temporality "exp_point list"
  | SummaryOf "summary_point list" | EmptyData

record agg_metric =
  am_name :: string
  am_unit :: string
  am_description :: string
  am_data :: agg_data

text \<open>What \<open>MoveTo\<close> leaves behind.\<close>

definition no_number :: number_point where
  "no_number = \<lparr>np_attrs = [], np_start = 0, np_time = 0, np_value = NoNum, np_rest = 0\<rparr>"

definition no_hist :: hist_point where
  "no_hist = \<lparr>hp_attrs = [], hp_start = 0, hp_time = 0, hp_count = 0, hp_sum = None, hp_min = None,
     hp_max = None, hp_bounds = [], hp_counts = [], hp_flags = 0, hp_exemplars = []\<rparr>"

definition no_buckets :: buckets where
  "no_buckets = \<lparr>offset = 0, bucket_counts = []\<rparr>"

definition no_exp :: exp_point where
  "no_exp = \<lparr>ep_attrs = [], ep_start = 0, ep_time = 0, ep_count = 0, ep_sum = None, ep_min = None,
     ep_max = None, ep_scale = 0, ep_zero_count = 0, ep_positive = no_buckets, ep_negative = no_buckets,
     ep_flags = 0, ep_exemplars = [], ep_rest = 0\<rparr>"

section \<open>Aggregation types\<close>

text \<open>A Go string type; a text that is none of the six constants is kept.\<close>

datatype AggregationType = AggSum | AggMean | AggMin | AggMax | AggMedian | AggCount | AggOther string

fun agg_text :: "AggregationType \<Rightarrow> string" where
  "agg_text AggSum = ''sum''"
| "agg_text AggMean = ''mean''"
| "agg_text AggMin = ''min''"
| "agg_text AggMax = ''max''"
| "agg_text AggMedian = ''median''"
| "agg_text AggCount = ''count''"
| "agg_text (AggOther s) = s"

definition AggregationTypes :: "AggregationType list" where
  "AggregationTypes = [AggSum, AggMean, AggMin, AggMax, AggMedian, AggCount]"

definition IsValid :: "AggregationType \<Rightarrow> bool" where
  "IsValid a = (agg_text a \<in> set (map agg_text AggregationTypes))"

definition GetSupportedAggregationFunctionsList :: string where
  "GetSupportedAggregationFunctionsList = join '', '' (map agg_text AggregationTypes)"

text \<open>The conversion of a string to the type, and the check of the result.\<close>

definition agg_of_text :: "string \<Rightarrow> AggregationType" where
  "agg_of_text s = (case List.find (\<lambda>a. agg_text a = s) AggregationTypes of Some a \<Rightarrow> a | None \<Rightarrow> AggOther s)"

definition ConvertToAggregationFunction :: "string \<Rightarrow> AggregationType \<times> string option" where
  "ConvertToAggregationFunction s =
     (let a = agg_of_text s
      in (a, if IsValid a then None else Some (''unsupported function: '' @ [CHR 0x27] @ s @ [CHR 0x27])))"

section \<open>Copying and filtering\<close>

definition CopyMetricDetails :: "agg_metric \<Rightarrow> agg_metric \<Rightarrow> agg_metric" where
  "CopyMetricDetails from to =
     \<lparr>am_name = am_name from, am_unit = am_unit from, am_description = am_description from,
      am_data = (case am_data from of
          GaugeOf _ \<Rightarrow> GaugeOf []
        | SumOf t inc _ \<Rightarrow> SumOf t inc []
        | HistogramOf t _ \<Rightarrow> HistogramOf t []
        | ExpHistogramOf t _ \<Rightarrow> ExpHistogramOf t []
        | SummaryOf _ \<Rightarrow> SummaryOf []
        | EmptyData \<Rightarrow> am_data to)\<rparr>"

text \<open>The callback rewrites a map and says whether to go on.\<close>

fun rangePoints :: "('p \<Rightarrow> attrs) \<Rightarrow> (attrs \<Rightarrow> 'p \<Rightarrow> 'p) \<Rightarrow> (attrs \<Rightarrow> attrs \<times> bool) \<Rightarrow> 'p list \<Rightarrow> 'p list" where
  "rangePoints get put f [] = []"
| "rangePoints get put f (p # ps) =
     (let (a, more) = f (get p) in put a p # (if more then rangePoints get put f ps else ps))"

definition RangeDataPointAttributes :: "(attrs \<Rightarrow> attrs \<times> bool) \<Rightarrow> agg_metric \<Rightarrow> agg_metric" where
  "RangeDataPointAttributes f m =
     m\<lparr>am_data := (case am_data m of
         GaugeOf ps \<Rightarrow> GaugeOf (rangePoints np_attrs (\<lambda>a. np_attrs_update (\<lambda>_. a)) f ps)
       | SumOf t inc ps \<Rightarrow> SumOf t inc (rangePoints np_attrs (\<lambda>a. np_attrs_update (\<lambda>_. a)) f ps)
       | HistogramOf t ps \<Rightarrow> HistogramOf t (rangePoints hp_attrs (\<lambda>a. hp_attrs_update (\<lambda>_. a)) f ps)
       | ExpHistogramOf t ps \<Rightarrow> ExpHistogramOf t (rangePoints ep_attrs (\<lambda>a. ep_attrs_update (\<lambda>_. a)) f ps)
       | SummaryOf ps \<Rightarrow> SummaryOf (rangePoints sp_attrs (\<lambda>a. sp_attrs_update (\<lambda>_. a)) f ps)
       | EmptyData \<Rightarrow> EmptyData)\<rparr>"

text \<open>A nil list of keys skips the filter; an empty one clears every map.\<close>

definition FilterAttrs :: "agg_metric \<Rightarrow> string list option \<Rightarrow> agg_metric" where
  "FilterAttrs m filterAttrKeys =
     (case filterAttrKeys of
        None \<Rightarrow> m
      | Some ks \<Rightarrow>
        (let m1 = (if ks = [] then RangeDataPointAttributes (\<lambda>a. ([], True)) m else m)
         in RangeDataPointAttributes (\<lambda>a. (filter (\<lambda>(k, _). k \<in> set ks) a, True)) m1))"

section \<open>Grouping\<close>

text \<open>
  \<^item> \<open>attrs_json\<close>: the document of \<open>Map.AsRaw()\<close>, whatever the order of the attributes;
  \<^item> \<open>ts_text\<close>: \<open>Timestamp.String()\<close>;
  \<^item> \<open>marshal_parts\<close>: \<open>json.Marshal\<close> of a slice, \<open>None\<close> for an error (a NaN or an infinity);
  \<^item> \<open>any_int\<close>: \<open>int64(v)\<close> of a number that does not fit.
\<close>

record agg_lib =
  attrs_json :: "attrs \<Rightarrow> json"
  ts_text :: "nat \<Rightarrow> string"
  marshal_parts :: "json list \<Rightarrow> string option"
  any_int :: "f64 \<Rightarrow> int"

text \<open>An error of \<open>json.Marshal\<close> is ignored and leaves the empty string.\<close>

definition dataPointHashKey :: "agg_lib \<Rightarrow> attrs \<Rightarrow> nat \<Rightarrow> json list \<Rightarrow> string" where
  "dataPointHashKey L atts ts other =
     (case marshal_parts L ([attrs_json L atts, JStr (ts_text L ts)] @ other) of None \<Rightarrow> [] | Some s \<Rightarrow> s)"

definition numberKeyParts :: "agg_lib \<Rightarrow> bool \<Rightarrow> number_point \<Rightarrow> json list" where
  "numberKeyParts L useStartTime p = (if useStartTime then [JStr (ts_text L (np_start p))] else [])"

definition histKeyParts :: "agg_lib \<Rightarrow> bool \<Rightarrow> hist_point \<Rightarrow> json list" where
  "histKeyParts L useStartTime p =
     map JNum (hp_bounds p) @ (if useStartTime then [JStr (ts_text L (hp_start p))] else []) @
     [JBool (hp_min p \<noteq> None), JBool (hp_max p \<noteq> None), JInt (int (hp_flags p))]"

definition expKeyParts :: "agg_lib \<Rightarrow> bool \<Rightarrow> exp_point \<Rightarrow> json list" where
  "expKeyParts L useStartTime p =
     [JInt (ep_scale p), JBool (ep_min p \<noteq> None), JBool (ep_max p \<noteq> None), JInt (int (ep_flags p))] @
     (if useStartTime then [JStr (ts_text L (ep_start p))] else [])"

text \<open>The loop of the three grouping functions: append the point to the group of its key.\<close>

definition group_of :: "(string, 'p list) gomap \<Rightarrow> string \<Rightarrow> 'p list" where
  "group_of m k = (case map_of m k of None \<Rightarrow> [] | Some g \<Rightarrow> g)"

fun groupPoints :: "('p \<Rightarrow> string) \<Rightarrow> 'p list \<Rightarrow> (string, 'p list) gomap \<Rightarrow> (string, 'p list) gomap" where
  "groupPoints key [] m = m"
| "groupPoints key (p # ps) m = groupPoints key ps (AList.update (key p) (group_of m (key p) @ [p]) m)"

definition groupNumberDataPoints ::
  "agg_lib \<Rightarrow> number_point list \<Rightarrow> bool \<Rightarrow> (string, number_point list) gomap \<Rightarrow> (string, number_point list) gomap" where
  "groupNumberDataPoints L dps useStartTime =
     groupPoints (\<lambda>p. dataPointHashKey L (np_attrs p) (np_time p) (numberKeyParts L useStartTime p)) dps"

definition groupHistogramDataPoints ::
  "agg_lib \<Rightarrow> hist_point list \<Rightarrow> bool \<Rightarrow> (string, hist_point list) gomap \<Rightarrow> (string, hist_point list) gomap" where
  "groupHistogramDataPoints L dps useStartTime =
     groupPoints (\<lambda>p. dataPointHashKey L (hp_attrs p) (hp_time p) (histKeyParts L useStartTime p)) dps"

definition groupExponentialHistogramDataPoints ::
  "agg_lib \<Rightarrow> exp_point list \<Rightarrow> bool \<Rightarrow> (string, exp_point list) gomap \<Rightarrow> (string, exp_point list) gomap" where
  "groupExponentialHistogramDataPoints L dps useStartTime =
     groupPoints (\<lambda>p. dataPointHashKey L (ep_attrs p) (ep_time p) (expKeyParts L useStartTime p)) dps"

record AggGroups =
  ag_gauge :: "(string, number_point list) gomap option"
  ag_sum :: "(string, number_point list) gomap option"
  ag_histogram :: "(string, hist_point list) gomap option"
  ag_expHistogram :: "(string, exp_point list) gomap option"

definition groups :: "(string, 'p list) gomap option \<Rightarrow> (string, 'p list) gomap" where
  "groups m = (case m of None \<Rightarrow> [] | Some g \<Rightarrow> g)"

text \<open>The groups and the metric whose points were moved out.\<close>

definition GroupDataPoints :: "agg_lib \<Rightarrow> agg_metric \<Rightarrow> AggGroups \<Rightarrow> AggGroups \<times> agg_metric" where
  "GroupDataPoints L m ag =
     (case am_data m of
        GaugeOf ps \<Rightarrow>
          (ag\<lparr>ag_gauge := Some (groupNumberDataPoints L ps False (groups (ag_gauge ag)))\<rparr>,
           m\<lparr>am_data := GaugeOf (map (\<lambda>_. no_number) ps)\<rparr>)
      | SumOf t inc ps \<Rightarrow>
          (ag\<lparr>ag_sum := Some (groupNumberDataPoints L ps (t = Delta) (groups (ag_sum ag)))\<rparr>,
           m\<lparr>am_data := SumOf t inc (map (\<lambda>_. no_number) ps)\<rparr>)
      | HistogramOf t ps \<Rightarrow>
          (ag\<lparr>ag_histogram := Some (groupHistogramDataPoints L ps (t = Delta) (groups (ag_histogram ag)))\<rparr>,
           m\<lparr>am_data := HistogramOf t (map (\<lambda>_. no_hist) ps)\<rparr>)
      | ExpHistogramOf t ps \<Rightarrow>
          (ag\<lparr>ag_expHistogram := Some (groupExponentialHistogramDataPoints L ps (t = Delta) (groups (ag_expHistogram ag)))\<rparr>,
           m\<lparr>am_data := ExpHistogramOf t (map (\<lambda>_. no_exp) ps)\<rparr>)
      | SummaryOf _ \<Rightarrow> (ag, m)
      | EmptyData \<Rightarrow> (ag, m))"

section \<open>Merging number points\<close>

definition doubleVal :: "number_point \<Rightarrow> f64" where
  "doubleVal p = (case np_value p of DoubleNum d \<Rightarrow> d | IntNum i \<Rightarrow> f64_of_int i | NoNum \<Rightarrow> Fin 0)"

definition intVal :: "agg_lib \<Rightarrow> number_point \<Rightarrow> int" where
  "intVal L p =
     (case np_value p of
        DoubleNum d \<Rightarrow> (if is_fin d \<and> is_int64 (trunc_rat (fval d)) then trunc_rat (fval d) else any_int L d)
      | IntNum i \<Rightarrow> i
      | NoNum \<Rightarrow> 0)"

text \<open>\<open>IntValue()\<close> is the protobuf getter: zero on a point that holds no integer.\<close>

definition IntValue :: "number_point \<Rightarrow> int" where
  "IntValue p = (case np_value p of IntNum i \<Rightarrow> i | _ \<Rightarrow> 0)"

text \<open>\<open>math.Max\<close> and \<open>math.Min\<close>.\<close>

definition fmax :: "f64 \<Rightarrow> f64 \<Rightarrow> f64" where
  "fmax x y =
     (if x = PInf \<or> y = PInf then PInf
      else if is_nan x \<or> is_nan y then NaN
      else if is_zero x \<and> is_zero y then if sign_bit x then y else x
      else if flt y x then x else y)"

definition fmin :: "f64 \<Rightarrow> f64 \<Rightarrow> f64" where
  "fmin x y =
     (if x = NInf \<or> y = NInf then NInf
      else if is_nan x \<or> is_nan y then NaN
      else if is_zero x \<and> is_zero y then if sign_bit x then x else y
      else if flt x y then x else y)"

text \<open>
  \<open>sort.Float64s\<close> puts NaN first and compares the zeros as equal; it is not stable, so ties are
  broken by a choice sequence.
\<close>

datatype f64_rank = RankNaN | RankNInf | RankFin rat | RankPInf

instantiation f64_rank :: linorder
begin

fun less_eq_f64_rank :: "f64_rank \<Rightarrow> f64_rank \<Rightarrow> bool" where
  "RankNaN \<le> r = True"
| "RankNInf \<le> r = (r \<noteq> RankNaN)"
| "RankFin p \<le> r = (case r of RankFin q \<Rightarrow> p \<le> q | RankPInf \<Rightarrow> True | _ \<Rightarrow> False)"
| "RankPInf \<le> r = (r = RankPInf)"

definition less_f64_rank :: "f64_rank \<Rightarrow> f64_rank \<Rightarrow> bool" where
  "r < s \<longleftrightarrow> r \<le> s \<and> \<not> s \<le> (r :: f64_rank)"

instance
proof
  fix x y z :: f64_rank
  show "x < y \<longleftrightarrow> x \<le> y \<and> \<not> y \<le> x" by (rule less_f64_rank_def)
  show "x \<le> x" by (cases x) auto
  show "x \<le> z" if "x \<le> y" "y \<le> z" using that by (cases x; cases y; cases z) auto
  show "x = y" if "x \<le> y" "y \<le> x" using that by (cases x; cases y) auto
  show "x \<le> y \<or> y \<le> x" by (cases x; cases y) auto
qed

end

fun rank :: "f64 \<Rightarrow> f64_rank" where
  "rank NaN = RankNaN"
| "rank NInf = RankNInf"
| "rank NegZero = RankFin 0"
| "rank (Fin q) = RankFin q"
| "rank PInf = RankPInf"

definition sort_Float64s :: "nat list \<Rightarrow> f64 list \<Rightarrow> f64 list" where
  "sort_Float64s ties xs = sort_key rank (shuffle ties xs)"

text \<open>One round of the loop over the other points: the value and the numbers collected for the median.\<close>

definition doubleStep :: "AggregationType \<Rightarrow> nat \<Rightarrow> number_point \<Rightarrow> f64 \<times> f64 list \<Rightarrow> f64 \<times> f64 list" where
  "doubleStep a n p acc =
     (let (v, medianNumbers) = acc; d = doubleVal p
      in (case a of
            AggSum \<Rightarrow> fadd v d
          | AggMean \<Rightarrow> fadd v d
          | AggMax \<Rightarrow> fmax v d
          | AggMin \<Rightarrow> fmin v d
          | AggCount \<Rightarrow> f64_of_int (int n)
          | _ \<Rightarrow> v,
          if a = AggMedian then medianNumbers @ [d] else medianNumbers))"

definition doubleMedian :: "nat list \<Rightarrow> f64 list \<Rightarrow> f64" where
  "doubleMedian ties ns =
     (if length ns = 1 then ns ! 0
      else
        (let sorted = sort_Float64s ties ns; mNumber = length ns div 2
         in if odd (length ns) then sorted ! mNumber
            else fdiv (fadd (sorted ! (mNumber - 1)) (sorted ! mNumber)) (Fin 2)))"

definition mergeDouble :: "nat list \<Rightarrow> AggregationType \<Rightarrow> f64 \<Rightarrow> number_point list \<Rightarrow> f64" where
  "mergeDouble ties a v ps =
     (let n = Suc (length ps); (r, medianNumbers) = fold (doubleStep a n) ps (v, [v])
      in if a = AggMean then fdiv r (f64_of_int (int n))
         else if a = AggMedian then doubleMedian ties medianNumbers
         else r)"

definition intStep :: "agg_lib \<Rightarrow> AggregationType \<Rightarrow> nat \<Rightarrow> number_point \<Rightarrow> int \<times> int list \<Rightarrow> int \<times> int list" where
  "intStep L a n p acc =
     (let (v, medianNumbers) = acc
      in (case a of
            AggSum \<Rightarrow> wrap64 (v + IntValue p)
          | AggMean \<Rightarrow> wrap64 (v + IntValue p)
          | AggMax \<Rightarrow> if v < intVal L p then intVal L p else v
          | AggMin \<Rightarrow> if intVal L p < v then intVal L p else v
          | AggCount \<Rightarrow> int n
          | _ \<Rightarrow> v,
          if a = AggMedian then medianNumbers @ [intVal L p] else medianNumbers))"

definition intMedian :: "int list \<Rightarrow> int" where
  "intMedian ns =
     (if length ns = 1 then ns ! 0
      else
        (let sorted = sort ns; mNumber = length ns div 2
         in if odd (length ns) then sorted ! mNumber
            else quot (wrap64 (sorted ! (mNumber - 1) + sorted ! mNumber)) 2))"

definition mergeInt :: "agg_lib \<Rightarrow> AggregationType \<Rightarrow> int \<Rightarrow> number_point list \<Rightarrow> int" where
  "mergeInt L a v ps =
     (let n = Suc (length ps); (r, medianNumbers) = fold (intStep L a n) ps (v, [v])
      in if a = AggMedian then intMedian medianNumbers
         else if a = AggMean then quot r (int n)
         else r)"

definition earlier :: "nat \<Rightarrow> nat \<Rightarrow> nat" where
  "earlier t s = (if t < s then t else s)"

definition mergeNumbers :: "agg_lib \<Rightarrow> nat list \<Rightarrow> AggregationType \<Rightarrow> number_point list \<Rightarrow> number_point go" where
  "mergeNumbers L ties a dps =
     (case dps of
        [] \<Rightarrow> panic ''index out of range''
      | p # ps \<Rightarrow>
        (let start = fold (\<lambda>q. earlier (np_start q)) ps (np_start p)
         in case np_value p of
              DoubleNum v \<Rightarrow> ret (p\<lparr>np_start := start, np_value := DoubleNum (mergeDouble ties a v ps)\<rparr>)
            | IntNum v \<Rightarrow> ret (p\<lparr>np_start := start, np_value := IntNum (mergeInt L a v ps)\<rparr>)
            | NoNum \<Rightarrow> ret p))"

text \<open>The loop over the groups, in the order of the map iteration; each group yields one point.\<close>

fun mergeGroups :: "(string \<Rightarrow> 'p list \<Rightarrow> 'p go) \<Rightarrow> (string \<times> 'p list) list \<Rightarrow> 'p list \<Rightarrow> 'p list go" where
  "mergeGroups f [] to = ret to"
| "mergeGroups f ((k, dps) # rest) to = andThen (f k dps) (\<lambda>dp. mergeGroups f rest (to @ [dp]))"

definition mergeNumberDataPoints ::
  "agg_lib \<Rightarrow> (string \<Rightarrow> nat list) \<Rightarrow> nat list \<Rightarrow> (string, number_point list) gomap \<Rightarrow> AggregationType \<Rightarrow>
   number_point list \<Rightarrow> number_point list go" where
  "mergeNumberDataPoints L ties order dpsMap agg to =
     mergeGroups (\<lambda>k. mergeNumbers L (ties k) agg) (shuffle order dpsMap) to"

section \<open>Merging histograms\<close>

text \<open>The getter of an optional number.\<close>

definition or_zero :: "f64 option \<Rightarrow> f64" where
  "or_zero x = (case x of None \<Rightarrow> Fin 0 | Some v \<Rightarrow> v)"

definition lowerMin :: "f64 option \<Rightarrow> f64 option \<Rightarrow> f64 option" where
  "lowerMin m n = (case m of None \<Rightarrow> None | Some v \<Rightarrow> if flt (or_zero n) v then Some (or_zero n) else m)"

definition raiseMax :: "f64 option \<Rightarrow> f64 option \<Rightarrow> f64 option" where
  "raiseMax m n = (case m of None \<Rightarrow> None | Some v \<Rightarrow> if flt v (or_zero n) then Some (or_zero n) else m)"

text \<open>\<open>SetAt\<close> and \<open>At\<close> panic beyond the end of the counts.\<close>

fun addCounts :: "64 word list \<Rightarrow> 64 word list \<Rightarrow> 64 word list go" where
  "addCounts ts [] = ret ts"
| "addCounts [] (c # cs) = panic ''index out of range''"
| "addCounts (t # ts) (c # cs) = andThen (addCounts ts cs) (\<lambda>r. ret ((t + c) # r))"

definition histStep :: "hist_point \<Rightarrow> hist_point \<Rightarrow> hist_point go" where
  "histStep dp q =
     (if hp_count q = 0 then ret dp
      else
        andThen (addCounts (hp_counts dp) (hp_counts q)) (\<lambda>counts.
        ret (dp\<lparr>hp_count := hp_count dp + hp_count q,
                hp_sum := Some (fadd (or_zero (hp_sum dp)) (or_zero (hp_sum q))),
                hp_min := lowerMin (hp_min dp) (hp_min q),
                hp_max := raiseMax (hp_max dp) (hp_max q),
                hp_counts := counts,
                hp_exemplars := hp_exemplars dp @ hp_exemplars q,
                hp_start := earlier (hp_start q) (hp_start dp)\<rparr>)))"

fun histLoop :: "hist_point \<Rightarrow> hist_point list \<Rightarrow> hist_point go" where
  "histLoop dp [] = ret dp"
| "histLoop dp (q # qs) = andThen (histStep dp q) (\<lambda>dp'. histLoop dp' qs)"

definition mergeHistograms :: "hist_point list \<Rightarrow> hist_point go" where
  "mergeHistograms dps = (case dps of [] \<Rightarrow> panic ''index out of range'' | p # ps \<Rightarrow> histLoop p ps)"

definition mergeHistogramDataPoints ::
  "nat list \<Rightarrow> (string, hist_point list) gomap \<Rightarrow> hist_point list \<Rightarrow> hist_point list go" where
  "mergeHistogramDataPoints order dpsMap to = mergeGroups (\<lambda>_. mergeHistograms) (shuffle order dpsMap) to"

section \<open>Merging exponential histograms\<close>

text \<open>Element-wise addition that extends the target.\<close>

fun addExtend :: "64 word list \<Rightarrow> 64 word list \<Rightarrow> 64 word list" where
  "addExtend ts [] = ts"
| "addExtend [] cs = cs"
| "addExtend (t # ts) (c # cs) = (t + c) # addExtend ts cs"

text \<open>A count at an index, after padding with zeros.\<close>

definition addAt :: "nat \<Rightarrow> 64 word \<Rightarrow> 64 word list \<Rightarrow> 64 word list" where
  "addAt i cnt tgt =
     (let t = tgt @ replicate (Suc i - length tgt) 0 in t[i := t ! i + cnt])"

fun higherLoop :: "int \<Rightarrow> nat \<Rightarrow> 64 word list \<Rightarrow> 64 word list \<Rightarrow> 64 word list" where
  "higherLoop d b [] tgt = tgt"
| "higherLoop d b (cnt # src) tgt =
     higherLoop d (Suc b) src
       (if cnt = 0 then tgt else let idx = int b + d in if 0 \<le> idx then addAt (nat idx) cnt tgt else tgt)"

text \<open>The difference of the offsets is an \<open>int32\<close>, with wrap-around.\<close>

definition mergeExponentialHistogramBuckets ::
  "64 word list \<Rightarrow> 64 word list \<Rightarrow> 32 word \<Rightarrow> 32 word \<Rightarrow> 64 word list" where
  "mergeExponentialHistogramBuckets tgt src tgtOff srcOff =
     (if tgtOff = srcOff then addExtend tgt src
      else if sint srcOff < sint tgtOff then
        foldr (\<lambda>cnt t. if 0 < cnt then cnt # t else t) src tgt
      else higherLoop (sint (srcOff - tgtOff)) 0 src tgt)"

definition trimBuckets :: "64 word list \<Rightarrow> 64 word list" where
  "trimBuckets bs = drop (length (takeWhile (\<lambda>c. c = 0) bs)) bs"

text \<open>The merge of one side, and the adjustment of its offset.\<close>

definition mergeSide :: "buckets \<Rightarrow> buckets \<Rightarrow> buckets" where
  "mergeSide t q =
     (let merged = mergeExponentialHistogramBuckets (bucket_counts t) (bucket_counts q) (offset t) (offset q)
      in if offset t \<noteq> offset q \<and> bucket_counts q \<noteq> []
         then \<lparr>offset = (if sint (offset q) < sint (offset t) then offset q else offset t), bucket_counts = trimBuckets merged\<rparr>
         else t\<lparr>bucket_counts := merged\<rparr>)"

definition expStep :: "exp_point \<Rightarrow> exp_point \<Rightarrow> exp_point" where
  "expStep dp q =
     (if ep_count q = 0 then dp
      else dp\<lparr>ep_count := ep_count dp + ep_count q,
              ep_sum := Some (fadd (or_zero (ep_sum dp)) (or_zero (ep_sum q))),
              ep_zero_count := ep_zero_count dp + ep_zero_count q,
              ep_min := lowerMin (ep_min dp) (ep_min q),
              ep_max := raiseMax (ep_max dp) (ep_max q),
              ep_negative := mergeSide (ep_negative dp) (ep_negative q),
              ep_positive := mergeSide (ep_positive dp) (ep_positive q),
              ep_exemplars := ep_exemplars dp @ ep_exemplars q,
              ep_start := earlier (ep_start q) (ep_start dp)\<rparr>)"

definition mergeExponentials :: "exp_point list \<Rightarrow> exp_point go" where
  "mergeExponentials dps = (case dps of [] \<Rightarrow> panic ''index out of range'' | p # ps \<Rightarrow> ret (foldl expStep p ps))"

definition mergeExponentialHistogramDataPoints ::
  "nat list \<Rightarrow> (string, exp_point list) gomap \<Rightarrow> exp_point list \<Rightarrow> exp_point list go" where
  "mergeExponentialHistogramDataPoints order dpsMap to =
     mergeGroups (\<lambda>_. mergeExponentials) (shuffle order dpsMap) to"

definition MergeDataPoints ::
  "agg_lib \<Rightarrow> (string \<Rightarrow> nat list) \<Rightarrow> nat list \<Rightarrow> agg_metric \<Rightarrow> AggregationType \<Rightarrow> AggGroups \<Rightarrow> agg_metric go" where
  "MergeDataPoints L ties order to aggType ag =
     (case am_data to of
        GaugeOf ps \<Rightarrow>
          andThen (mergeNumberDataPoints L ties order (groups (ag_gauge ag)) aggType ps)
            (\<lambda>r. ret (to\<lparr>am_data := GaugeOf r\<rparr>))
      | SumOf t inc ps \<Rightarrow>
          andThen (mergeNumberDataPoints L ties order (groups (ag_sum ag)) aggType ps)
            (\<lambda>r. ret (to\<lparr>am_data := SumOf t inc r\<rparr>))
      | HistogramOf t ps \<Rightarrow>
          andThen (mergeHistogramDataPoints order (groups (ag_histogram ag)) ps)
            (\<lambda>r. ret (to\<lparr>am_data := HistogramOf t r\<rparr>))
      | ExpHistogramOf t ps \<Rightarrow>
          andThen (mergeExponentialHistogramDataPoints order (groups (ag_expHistogram ag)) ps)
            (\<lambda>r. ret (to\<lparr>am_data := ExpHistogramOf t r\<rparr>))
      | SummaryOf _ \<Rightarrow> ret to
      | EmptyData \<Rightarrow> ret to)"

section \<open>Groups\<close>

definition groups_ok :: "(string, 'p list) gomap \<Rightarrow> bool" where
  "groups_ok m \<longleftrightarrow> gomap_ok m \<and> (\<forall>g\<in>set (map snd m). g \<noteq> [])"

lemma group_of_update [simp]: "group_of (AList.update k g m) j = (if j = k then g else group_of m j)"
  by (simp add: group_of_def)

lemma group_of_groupPoints: "group_of (groupPoints key ps m) k = group_of m k @ filter (\<lambda>p. key p = k) ps"
  by (induction ps arbitrary: m) auto

lemma keys_groupPoints: "set (keys (groupPoints key ps m)) = set (keys m) \<union> key ` set ps"
  by (induction ps arbitrary: m) (auto simp: dom_update)

lemma set_snd_update: "set (map snd (AList.update k g m)) \<subseteq> insert g (set (map snd m))"
  by (induction m) auto

lemma groups_ok_groupPoints: "groups_ok m \<Longrightarrow> groups_ok (groupPoints key ps m)"
proof (induction ps arbitrary: m)
  case (Cons p ps)
  have "groups_ok (AList.update (key p) (group_of m (key p) @ [p]) m)"
    using Cons.prems set_snd_update [of "key p" "group_of m (key p) @ [p]" m] unfolding groups_ok_def by fastforce
  then show ?case by (simp add: Cons.IH)
qed simp

lemma mset_update_group:
  "gomap_ok m \<Longrightarrow>
     mset (concat (map snd (AList.update k (group_of m k @ [p]) m))) = add_mset p (mset (concat (map snd m)))"
  by (induction m) (auto simp: group_of_def gomap_ok_def map_of_eq_None_iff)

lemma mset_groupPoints:
  "gomap_ok m \<Longrightarrow> mset (concat (map snd (groupPoints key ps m))) = mset ps + mset (concat (map snd m))"
  by (induction ps arbitrary: m) (simp_all add: mset_update_group)

lemma group_entry: "gomap_ok m \<Longrightarrow> (k, g) \<in> set m \<Longrightarrow> group_of m k = g"
  by (simp add: group_of_def gomap_ok_map_of [symmetric])

lemma mergeGroups_returns:
  assumes "\<And>k g. (k, g) \<in> set m \<Longrightarrow> \<exists>r. f k g = Inr r"
  shows "\<exists>rs. mergeGroups f m to = Inr (to @ rs) \<and> list_all2 (\<lambda>(k, g) r. f k g = Inr r) m rs"
  using assms
proof (induction m arbitrary: to)
  case (Cons e m)
  obtain k g where e: "e = (k, g)" by (cases e)
  with Cons.prems obtain r where r: "f k g = Inr r" by auto
  obtain rs where "mergeGroups f m (to @ [r]) = Inr (to @ [r] @ rs)" "list_all2 (\<lambda>(k, g) r. f k g = Inr r) m rs"
    using Cons.IH [of "to @ [r]"] Cons.prems by auto
  then show ?case using r e by (intro exI [of _ "r # rs"]) simp
qed simp

text \<open>Grouping into fresh groups and merging: one merged point for each key, of the points with that key.\<close>

lemma merge_of_groups:
  assumes "\<And>k g. g \<noteq> [] \<Longrightarrow> \<exists>r. f k g = Inr r"
  shows "\<exists>ks rs. distinct ks \<and> set ks = key ` set ps \<and>
    mergeGroups f (shuffle order (groupPoints key ps [])) to = Inr (to @ rs) \<and>
    list_all2 (\<lambda>k r. f k (filter (\<lambda>p. key p = k) ps) = Inr r) ks rs"
proof -
  let ?m = "shuffle order (groupPoints key ps [])"
  have ok: "groups_ok (groupPoints key ps [])" by (rule groups_ok_groupPoints) (simp add: groups_ok_def)
  then have m: "gomap_ok ?m" "\<And>k g. (k, g) \<in> set ?m \<Longrightarrow> g \<noteq> []"
    by (auto simp: groups_ok_def)
  have g: "g = filter (\<lambda>p. key p = k) ps" if "(k, g) \<in> set (groupPoints key ps [])" for k g
    using group_entry [of "groupPoints key ps []" k g] that ok group_of_groupPoints [of key ps "[]" k]
    by (simp add: groups_ok_def group_of_def [of "[]"])
  obtain rs where rs: "mergeGroups f ?m to = Inr (to @ rs)" "list_all2 (\<lambda>(k, g) r. f k g = Inr r) ?m rs"
    using mergeGroups_returns [of ?m f to] assms m(2) by blast
  have "list_all2 (\<lambda>e r. f (fst e) (filter (\<lambda>p. key p = fst e) ps) = Inr r) ?m rs"
    using rs(2) by (rule list.rel_mono_strong) (auto dest: g)
  then have "list_all2 (\<lambda>k r. f k (filter (\<lambda>p. key p = k) ps) = Inr r) (keys ?m) rs"
    by (simp add: list.rel_map)
  moreover have "set (keys ?m) = key ` set ps" using keys_groupPoints [of key ps "[]"] by simp
  ultimately show ?thesis using rs(1) m(1) unfolding gomap_ok_def by blast
qed

section \<open>Number points\<close>

lemma mergeNumbers_returns: "g \<noteq> [] \<Longrightarrow> \<exists>r. mergeNumbers L ties a g = Inr r"
  by (cases g) (auto simp: mergeNumbers_def Let_def split: number.split)

lemma fold_earlier: "fold (\<lambda>q. earlier (np_start q)) ps s = Min (insert s (np_start ` set ps))"
proof (induction ps arbitrary: s)
  case (Cons p ps)
  have "Min (insert (earlier (np_start p) s) (np_start ` set ps)) = Min (insert s (np_start ` set (p # ps)))"
    by (cases "ps = []") (auto simp: earlier_def min.assoc [symmetric] min.commute min_def [of "np_start p" s])
  then show ?case using Cons by simp
qed simp

definition ints_of :: "number_point list \<Rightarrow> int list \<Rightarrow> bool" where
  "ints_of ps vs \<longleftrightarrow> map np_value ps = map IntNum vs \<and> list_all is_int64 vs"

lemma ints_of_simps [simp]:
  "ints_of [] vs \<longleftrightarrow> vs = []"
  "ints_of (p # ps) (v # vs) \<longleftrightarrow> np_value p = IntNum v \<and> is_int64 v \<and> ints_of ps vs"
  by (auto simp: ints_of_def)

lemma ints_of_Cons: "ints_of (p # ps) vs \<longleftrightarrow> (\<exists>v ws. vs = v # ws \<and> np_value p = IntNum v \<and> is_int64 v \<and> ints_of ps ws)"
  by (auto simp: ints_of_def map_eq_Cons_conv)

lemma wrap64_add_left: "wrap64 (wrap64 a + b) = wrap64 (a + b)"
proof -
  have "((a + 2 ^ 63) mod 2 ^ 64 - 2 ^ 63 + b + 2 ^ 63) mod 2 ^ 64 = ((a + 2 ^ 63) mod 2 ^ 64 + b) mod (2 ^ 64 :: int)"
    by (simp add: algebra_simps)
  also have "\<dots> = (a + 2 ^ 63 + b) mod 2 ^ 64" by (rule mod_add_left_eq)
  also have "\<dots> = (a + b + 2 ^ 63) mod 2 ^ 64" by (simp only: ac_simps)
  finally show ?thesis by (simp only: wrap64_def)
qed

lemma fold_int_sum:
  "ints_of ps vs \<Longrightarrow> a = AggSum \<or> a = AggMean \<Longrightarrow>
     fold (intStep L a n) ps (v, ns) = (if ps = [] then v else wrap64 (v + sum_list vs), ns)"
proof (induction ps arbitrary: v vs)
  case (Cons p ps)
  then obtain w ws where w: "vs = w # ws" "np_value p = IntNum w" "ints_of ps ws" by (auto simp: ints_of_Cons)
  have "intStep L a n p (v, ns) = (wrap64 (v + w), ns)"
    using Cons.prems(2) w(2) by (auto simp: intStep_def IntValue_def)
  then show ?case
    using Cons.IH [OF w(3), of "wrap64 (v + w)"] Cons.prems(2) w
    by (cases "ps = []") (auto simp: wrap64_add_left add.assoc)
qed simp

lemma fold_int_max:
  "ints_of ps vs \<Longrightarrow> fold (intStep L AggMax n) ps (v, ns) = (Max (insert v (set vs)), ns)"
proof (induction ps arbitrary: v vs)
  case (Cons p ps)
  then obtain w ws where w: "vs = w # ws" "np_value p = IntNum w" "ints_of ps ws" by (auto simp: ints_of_Cons)
  have "intStep L AggMax n p (v, ns) = (max v w, ns)"
    using w(2) by (auto simp: intStep_def intVal_def max_def)
  moreover have "Max (insert (max v w) (set ws)) = Max (insert v (insert w (set ws)))"
    by (cases "ws = []") (simp_all add: max.assoc)
  ultimately show ?case using Cons.IH [OF w(3)] w(1) by simp
qed simp

lemma fold_int_min:
  "ints_of ps vs \<Longrightarrow> fold (intStep L AggMin n) ps (v, ns) = (Min (insert v (set vs)), ns)"
proof (induction ps arbitrary: v vs)
  case (Cons p ps)
  then obtain w ws where w: "vs = w # ws" "np_value p = IntNum w" "ints_of ps ws" by (auto simp: ints_of_Cons)
  have "intStep L AggMin n p (v, ns) = (min v w, ns)"
    using w(2) by (auto simp: intStep_def intVal_def min_def)
  moreover have "Min (insert (min v w) (set ws)) = Min (insert v (insert w (set ws)))"
    by (cases "ws = []") (simp_all add: min.assoc)
  ultimately show ?case using Cons.IH [OF w(3)] w(1) by simp
qed simp

lemma fold_int_median:
  "ints_of ps vs \<Longrightarrow> fold (intStep L AggMedian n) ps (v, ns) = (v, ns @ vs)"
  by (induction ps arbitrary: vs ns) (auto simp: ints_of_Cons intStep_def intVal_def)

lemma fold_int_count: "fold (intStep L AggCount n) ps (v, ns) = (if ps = [] then v else int n, ns)"
  by (induction ps arbitrary: v) (auto simp: intStep_def)

text \<open>The specification of the merged value.\<close>

definition int_aggregate :: "AggregationType \<Rightarrow> int list \<Rightarrow> int" where
  "int_aggregate a vs =
     (case a of
        AggSum \<Rightarrow> wrap64 (sum_list vs)
      | AggMean \<Rightarrow> quot (wrap64 (sum_list vs)) (int (length vs))
      | AggMin \<Rightarrow> Min (set vs)
      | AggMax \<Rightarrow> Max (set vs)
      | AggMedian \<Rightarrow> intMedian vs
      | AggCount \<Rightarrow> if length vs = 1 then hd vs else int (length vs)
      | AggOther s \<Rightarrow> hd vs)"

lemma fold_int_other: "fold (intStep L (AggOther s) n) ps (v, ns) = (v, ns)"
  by (induction ps) (auto simp: intStep_def)

lemma length_ints_of: "ints_of ps vs \<Longrightarrow> length vs = length ps"
  by (metis ints_of_def length_map)

lemma mergeInt_spec:
  assumes "ints_of ps vs" "is_int64 v"
  shows "mergeInt L a v ps = int_aggregate a (v # vs)"
  using assms length_ints_of [OF assms(1)]
  by (cases a; cases "ps = []")
     (auto simp: mergeInt_def int_aggregate_def fold_int_sum fold_int_max fold_int_min fold_int_median
        fold_int_count fold_int_other Let_def)

lemma intMedian_perm: "mset vs = mset ws \<Longrightarrow> intMedian vs = intMedian ws"
proof -
  assume p: "mset vs = mset ws"
  then have "sort vs = sort ws" "length vs = length ws"
    by (metis properties_for_sort mset_sort sorted_sort, metis size_mset)
  moreover have "length vs = 1 \<Longrightarrow> vs = ws"
    using p \<open>length vs = length ws\<close> by (cases vs; cases ws) auto
  ultimately show ?thesis by (auto simp: intMedian_def)
qed

section \<open>Merging by addition\<close>

text \<open>
  The contract of a merge that adds a weight: of two sides of a histogram the total of the buckets,
  of two points the number of observations.
\<close>

locale additive_merge =
  fixes merge :: "'a \<Rightarrow> 'a \<Rightarrow> 'a" and weight :: "'a \<Rightarrow> 64 word" and ok :: "'a \<Rightarrow> bool"
  assumes merge_ok: "ok a \<Longrightarrow> ok b \<Longrightarrow> ok (merge a b)"
    and weight_merge: "ok a \<Longrightarrow> ok b \<Longrightarrow> weight (merge a b) = weight a + weight b"
begin

lemma merge_all:
  "ok a \<Longrightarrow> list_all ok bs \<Longrightarrow> ok (foldl merge a bs) \<and> weight (foldl merge a bs) = weight a + sum_list (map weight bs)"
  by (induction bs arbitrary: a) (auto simp: merge_ok weight_merge add.assoc)

end

section \<open>Buckets\<close>

definition nth0 :: "64 word list \<Rightarrow> nat \<Rightarrow> 64 word" where
  "nth0 cs n = (if n < length cs then cs ! n else 0)"

text \<open>The count at an absolute bucket index.\<close>

definition bucket_at :: "buckets \<Rightarrow> int \<Rightarrow> 64 word" where
  "bucket_at b i = (if i < sint (offset b) then 0 else nth0 (bucket_counts b) (nat (i - sint (offset b))))"

lemma nth0_simps [simp]: "nth0 [] n = 0" "nth0 (c # cs) 0 = c" "nth0 (c # cs) (Suc n) = nth0 cs n"
  by (simp_all add: nth0_def)

lemma nth0_append: "nth0 (as @ bs) n = (if n < length as then nth0 as n else nth0 bs (n - length as))"
  by (auto simp: nth0_def nth_append)

lemma nth0_addExtend: "nth0 (addExtend ts cs) n = nth0 ts n + nth0 cs n"
proof (induction ts cs arbitrary: n rule: addExtend.induct)
  case (3 t ts c cs)
  then show ?case by (cases n) auto
qed auto

lemma nth0_addAt: "nth0 (addAt i c t) n = nth0 t n + (if n = i then c else 0)"
  by (auto simp: addAt_def nth0_def nth_append nth_list_update Let_def)

lemma nth0_higherLoop:
  "nth0 (higherLoop (int d) b src tgt) n = nth0 tgt n + (if n < b + d then 0 else nth0 src (n - b - d))"
proof (induction src arbitrary: b tgt)
  case (Cons c src)
  define tgt' where "tgt' = (if c = 0 then tgt else let idx = int b + int d in if 0 \<le> idx then addAt (nat idx) c tgt else tgt)"
  have "nat (int b + int d) = b + d" by simp
  then have c: "nth0 tgt' n = nth0 tgt n + (if n = b + d then c else 0)"
    unfolding tgt'_def by (simp add: nth0_addAt del: nat_add_distrib)
  have "nth0 (higherLoop (int d) b (c # src) tgt) n = nth0 tgt' n + (if n < Suc b + d then 0 else nth0 src (n - Suc b - d))"
    by (simp only: higherLoop.simps tgt'_def [symmetric] Cons.IH)
  moreover have "n - b - d = Suc (n - Suc b - d)" if "b + d < n" using that by simp
  ultimately show ?case unfolding c by (cases n "b + d" rule: linorder_cases) auto
qed simp

lemma trim_eq: "trimBuckets bs = dropWhile (\<lambda>c. c = 0) bs"
  by (simp add: trimBuckets_def dropWhile_eq_drop)

lemma trim_id: "bs = [] \<or> hd bs \<noteq> 0 \<Longrightarrow> trimBuckets bs = bs"
  by (cases bs) (auto simp: trim_eq)

lemma lower_filter: "foldr (\<lambda>c t. if 0 < c then c # t else t) src tgt = filter (\<lambda>c. c \<noteq> 0) src @ (tgt :: 64 word list)"
  by (induction src) (auto simp: word_gt_0)

lemma sint_diff:
  fixes a b :: "32 word"
  assumes "- (2 ^ 31) \<le> sint a - sint b" "sint a - sint b < 2 ^ 31"
  shows "sint (a - b) = sint a - sint b"
  using assms by (simp add: sint_word_ariths signed_take_bit_int_eq_self)

text \<open>Where the merge adds the counts of equal buckets.\<close>

definition mergeable :: "buckets \<Rightarrow> buckets \<Rightarrow> bool" where
  "mergeable t q \<longleftrightarrow>
     offset t = offset q \<or>
     sint (offset t) < sint (offset q) \<and> sint (offset q) - sint (offset t) < 2 ^ 31 \<and>
       bucket_counts t \<noteq> [] \<and> hd (bucket_counts t) \<noteq> 0 \<or>
     sint (offset q) < sint (offset t) \<and> int (length (bucket_counts q)) = sint (offset t) - sint (offset q) \<and>
       0 \<notin> set (bucket_counts q)"

lemma mergeSide_exact:
  assumes "mergeable t q"
  shows "bucket_at (mergeSide t q) i = bucket_at t i + bucket_at q i"
proof -
  consider (same) "offset t = offset q"
    | (higher) "sint (offset t) < sint (offset q)" "sint (offset q) - sint (offset t) < 2 ^ 31"
        "bucket_counts t \<noteq> []" "hd (bucket_counts t) \<noteq> 0"
    | (lower) "sint (offset q) < sint (offset t)" "int (length (bucket_counts q)) = sint (offset t) - sint (offset q)"
        "0 \<notin> set (bucket_counts q)"
    using assms unfolding mergeable_def by blast
  then show ?thesis
  proof cases
    case same
    then show ?thesis
      by (simp add: mergeSide_def mergeExponentialHistogramBuckets_def bucket_at_def nth0_addExtend)
  next
    case higher
    define d where "d = nat (sint (offset q) - sint (offset t))"
    let ?m = "higherLoop (int d) 0 (bucket_counts q) (bucket_counts t)"
    have d: "sint (offset q - offset t) = int d" "0 < d" "sint (offset q) = sint (offset t) + int d"
      using higher by (simp_all add: d_def sint_diff)
    have "nth0 ?m 0 = nth0 (bucket_counts t) 0" using d(2) by (simp add: nth0_higherLoop)
    also have "\<dots> \<noteq> 0" using higher(3,4) by (cases "bucket_counts t") auto
    finally have "trimBuckets ?m = ?m" by (intro trim_id) (cases ?m, simp_all)
    then have m: "offset (mergeSide t q) = offset t" "bucket_counts (mergeSide t q) = ?m"
      using higher(1) d by (auto simp: mergeSide_def mergeExponentialHistogramBuckets_def Let_def)
    have "nat x - d = nat (x - int d)" for x by arith
    from this [of "i - sint (offset t)"] show ?thesis
      using d(3) by (auto simp: bucket_at_def m nth0_higherLoop nat_less_iff diff_diff_eq)
  next
    case lower
    let ?m = "bucket_counts q @ bucket_counts t"
    have f: "filter (\<lambda>c. c \<noteq> 0) (bucket_counts q) = bucket_counts q" using lower(3) by (auto simp: filter_id_conv)
    have q: "bucket_counts q \<noteq> []" using lower(1,2) by auto
    then have "trimBuckets ?m = ?m" using lower(3) by (intro trim_id) (cases "bucket_counts q", auto)
    then have m: "offset (mergeSide t q) = offset q" "bucket_counts (mergeSide t q) = ?m"
      using lower(1) q f by (auto simp: mergeSide_def mergeExponentialHistogramBuckets_def lower_filter Let_def)
    let ?n = "nat (i - sint (offset q))"
    consider "i < sint (offset q)" | "sint (offset q) \<le> i" "i < sint (offset t)" | "sint (offset t) \<le> i"
      by linarith
    then show ?thesis
    proof cases
      case 2
      then have "?n < length (bucket_counts q)" using lower(2) by linarith
      with 2 show ?thesis by (simp add: bucket_at_def m nth0_append)
    next
      case 3
      then have "\<not> ?n < length (bucket_counts q)" "?n - length (bucket_counts q) = nat (i - sint (offset t))"
        using lower(1,2) by linarith+
      then have "nth0 ?m ?n = nth0 (bucket_counts t) (nat (i - sint (offset t)))" "nth0 (bucket_counts q) ?n = 0"
        by (simp_all add: nth0_append, simp add: nth0_def)
      with 3 show ?thesis using lower(1) by (simp add: bucket_at_def m)
    qed (use lower(1) in \<open>simp add: bucket_at_def m\<close>)
  qed
qed

text \<open>Outside those cases observations move to other buckets: an overlap is not added up, and leading zeros are dropped
  without moving the offset.\<close>

lemma overlap_not_added:
  "let t = \<lparr>offset = 1, bucket_counts = [1, 1]\<rparr>; q = \<lparr>offset = 0, bucket_counts = [1, 1, 1]\<rparr>
   in mergeSide t q = \<lparr>offset = 0, bucket_counts = [1, 1, 1, 1, 1]\<rparr> \<and> bucket_at (mergeSide t q) 4 \<noteq> bucket_at t 4 + bucket_at q 4"
  by (simp add: mergeSide_def mergeExponentialHistogramBuckets_def trimBuckets_def bucket_at_def nth0_def)

lemma leading_zeros_shift:
  "let t = no_buckets; q = \<lparr>offset = 3, bucket_counts = [1]\<rparr>
   in mergeSide t q = \<lparr>offset = 0, bucket_counts = [1]\<rparr> \<and> bucket_at (mergeSide t q) 3 \<noteq> bucket_at t 3 + bucket_at q 3"
  by code_simp

section \<open>Totals\<close>

definition side_total :: "buckets \<Rightarrow> 64 word" where
  "side_total b = sum_list (bucket_counts b)"

definition small_offset :: "buckets \<Rightarrow> bool" where
  "small_offset b \<longleftrightarrow> - (2 ^ 30) \<le> sint (offset b) \<and> sint (offset b) < 2 ^ 30"

lemma sum_addExtend: "sum_list (addExtend ts cs) = sum_list ts + sum_list cs"
  by (induction ts cs rule: addExtend.induct) (auto simp: algebra_simps)

lemma sum_list_add_nth: "i < length xs \<Longrightarrow> sum_list (xs[i := xs ! i + c]) = sum_list xs + (c :: 64 word)"
  by (induction xs arbitrary: i) (auto simp: algebra_simps split: nat.split)

lemma sint_eq_iff: "sint (a :: 32 word) = sint b \<longleftrightarrow> a = b"
  by transfer (simp add: signed_take_bit_eq_iff_take_bit_eq)

lemma sum_addAt: "sum_list (addAt i c t) = sum_list t + c"
  by (simp add: addAt_def Let_def sum_list_replicate sum_list_add_nth [of i "t @ replicate (Suc i - length t) 0"])

lemma sum_higherLoop: "sum_list (higherLoop (int d) b src tgt) = sum_list tgt + sum_list src"
  by (induction src arbitrary: b tgt) (auto simp: sum_addAt Let_def add.assoc)

lemma sum_filter: "sum_list (filter (\<lambda>c. c \<noteq> 0) cs) = sum_list (cs :: 64 word list)"
  by (induction cs) auto

lemma sum_trim: "sum_list (trimBuckets cs) = sum_list cs"
  unfolding trim_eq by (induction cs) auto

lemma mergeSide_total:
  assumes "small_offset t" "small_offset q"
  shows "side_total (mergeSide t q) = side_total t + side_total q"
proof -
  have "sum_list (mergeExponentialHistogramBuckets (bucket_counts t) (bucket_counts q) (offset t) (offset q)) =
      sum_list (bucket_counts t) + sum_list (bucket_counts q)"
  proof (cases "sint (offset t) < sint (offset q)")
    case True
    then have "sint (offset q - offset t) = int (nat (sint (offset q) - sint (offset t)))"
      using assms by (subst sint_diff) (auto simp: small_offset_def)
    then obtain d where "sint (offset q - offset t) = int d" by blast
    then show ?thesis using True
      by (auto simp: mergeExponentialHistogramBuckets_def sum_higherLoop sum_addExtend)
  next
    case False
    then show ?thesis
      by (auto simp: mergeExponentialHistogramBuckets_def lower_filter sum_filter sum_addExtend add.commute
        sint_eq_iff [symmetric])
  qed
  then show ?thesis by (simp add: mergeSide_def side_total_def sum_trim Let_def)
qed

lemma small_mergeSide: "small_offset t \<Longrightarrow> small_offset q \<Longrightarrow> small_offset (mergeSide t q)"
  by (simp add: mergeSide_def small_offset_def Let_def)

interpretation side: additive_merge mergeSide side_total small_offset
  by unfold_locales (rule small_mergeSide mergeSide_total; assumption)+

text \<open>A point whose buckets hold all its observations.\<close>

definition exp_consistent :: "exp_point \<Rightarrow> bool" where
  "exp_consistent p \<longleftrightarrow> small_offset (ep_positive p) \<and> small_offset (ep_negative p) \<and>
     ep_count p = ep_zero_count p + side_total (ep_positive p) + side_total (ep_negative p)"

lemma expStep_consistent: "exp_consistent p \<Longrightarrow> exp_consistent q \<Longrightarrow> exp_consistent (expStep p q)"
  by (auto simp: expStep_def exp_consistent_def side.merge_ok side.weight_merge)

interpretation points: additive_merge expStep ep_count exp_consistent
  by unfold_locales (auto simp: expStep_consistent, simp add: expStep_def)

definition hist_consistent :: "nat \<Rightarrow> hist_point \<Rightarrow> bool" where
  "hist_consistent n p \<longleftrightarrow> length (hp_counts p) = n \<and> hp_count p = sum_list (hp_counts p)"

lemma addCounts_returns:
  "length cs \<le> length ts \<Longrightarrow> \<exists>r. addCounts ts cs = Inr r \<and> length r = length ts \<and> sum_list r = sum_list ts + sum_list cs"
  by (induction ts cs rule: addCounts.induct) (fastforce simp: algebra_simps)+

lemma histStep_consistent:
  assumes "hist_consistent n p" "hist_consistent n q"
  shows "\<exists>r. histStep p q = Inr r \<and> hist_consistent n r \<and> hp_count r = hp_count p + hp_count q"
  using assms addCounts_returns [of "hp_counts q" "hp_counts p"] by (auto simp: histStep_def hist_consistent_def)

lemma histLoop_consistent:
  "hist_consistent n p \<Longrightarrow> list_all (hist_consistent n) qs \<Longrightarrow>
     \<exists>r. histLoop p qs = Inr r \<and> hist_consistent n r \<and> hp_count r = hp_count p + sum_list (map hp_count qs)"
proof (induction qs arbitrary: p)
  case (Cons q qs)
  then have "hist_consistent n q" by simp
  from histStep_consistent [OF Cons.prems(1) this]
  obtain r where r: "histStep p q = Inr r" "hist_consistent n r" "hp_count r = hp_count p + hp_count q" by blast
  with Cons.prems show ?case using Cons.IH [OF r(2)] by (auto simp: add.assoc)
qed simp

section \<open>Properties of aggregation\<close>

definition no_groups :: AggGroups where
  "no_groups = \<lparr>ag_gauge = None, ag_sum = None, ag_histogram = None, ag_expHistogram = None\<rparr>"



definition sample_number :: "nat \<Rightarrow> int \<Rightarrow> number_point" where
  "sample_number s v = \<lparr>np_attrs = [], np_start = s, np_time = 5, np_value = IntNum v, np_rest = 0\<rparr>"


text \<open>Merging a side of an exponential histogram adds the counts of equal absolute bucket indices when the offsets are
  equal, when the other side starts later and the first bucket of this one is not zero, and when the other side ends
  exactly where this one starts and has no zero bucket.\<close>

theorem exp_buckets_added:
  assumes "mergeable t q"
  shows "bucket_at (mergeSide t q) i = bucket_at t i + bucket_at q i"
  using assms by (rule mergeSide_exact)

theorem exp_buckets_added_witness:
  "bucket_at (mergeSide \<lparr>offset = 1, bucket_counts = [1, 2]\<rparr> \<lparr>offset = 2, bucket_counts = [5, 7]\<rparr>) 2 = 7"
  using exp_buckets_added [of "\<lparr>offset = 1, bucket_counts = [1, 2]\<rparr>" "\<lparr>offset = 2, bucket_counts = [5, 7]\<rparr>" 2]
  by (simp add: mergeable_def bucket_at_def nth0_def)

text \<open>C25: Merging histograms keeps every observation: when all points have equally many buckets, or offsets that fit in 31
  bits, and the buckets of each point add up to its count, then merging returns, the buckets of the result add up to its
  count, and the count is the sum of all counts.\<close>

theorem histogram_totals:
  "(ps \<noteq> [] \<longrightarrow> list_all (hist_consistent n) ps \<longrightarrow>
     (\<exists>r. mergeHistograms ps = Inr r \<and> hist_consistent n r \<and> hp_count r = sum_list (map hp_count ps))) \<and>
   (qs \<noteq> [] \<longrightarrow> list_all exp_consistent qs \<longrightarrow>
     (\<exists>r. mergeExponentials qs = Inr r \<and> exp_consistent r \<and> ep_count r = sum_list (map ep_count qs)))"
proof (intro conjI impI)
  assume "ps \<noteq> []" "list_all (hist_consistent n) ps"
  then show "\<exists>r. mergeHistograms ps = Inr r \<and> hist_consistent n r \<and> hp_count r = sum_list (map hp_count ps)"
    using histLoop_consistent by (cases ps) (auto simp: mergeHistograms_def)
next
  assume "qs \<noteq> []" "list_all exp_consistent qs"
  then show "\<exists>r. mergeExponentials qs = Inr r \<and> exp_consistent r \<and> ep_count r = sum_list (map ep_count qs)"
    using points.merge_all by (cases qs) (auto simp: mergeExponentials_def)
qed

definition sample_exp :: "32 word \<Rightarrow> 64 word list \<Rightarrow> exp_point" where
  "sample_exp s cs = no_exp\<lparr>ep_count := sum_list cs, ep_positive := \<lparr>offset = s, bucket_counts = cs\<rparr>\<rparr>"

theorem histogram_totals_witness:
  "\<exists>r. mergeExponentials [sample_exp 0 [1, 2], sample_exp (- 1) [3, 4]] = Inr r \<and> ep_count r = 10 \<and>
     side_total (ep_positive r) = 10"
proof -
  have ok: "exp_consistent (sample_exp 0 [1, 2])" "exp_consistent (sample_exp (- 1) [3, 4])"
    by (simp_all add: exp_consistent_def sample_exp_def no_exp_def no_buckets_def small_offset_def side_total_def)
  then obtain r where r: "mergeExponentials [sample_exp 0 [1, 2], sample_exp (- 1) [3, 4]] = Inr r"
    "exp_consistent r" "ep_count r = 10"
    using histogram_totals [of "[]" 0 "[sample_exp 0 [1, 2], sample_exp (- 1) [3, 4]]"]
    by (auto simp: sample_exp_def)
  moreover have "side_total (ep_positive r) = 10"
    using r(1) by (auto simp: mergeExponentials_def expStep_def sample_exp_def no_exp_def mergeSide_def side_total_def
      mergeExponentialHistogramBuckets_def sum_trim lower_filter no_buckets_def)
  ultimately show ?thesis by blast
qed

text \<open>Counting a group of one point leaves the value of the point.\<close>

lemma count_of_one_point:
  "mergeNumbers L ties AggCount [sample_number 0 17] = Inr (sample_number 0 17)"
  by (simp add: mergeNumbers_def sample_number_def mergeInt_def Let_def)

definition sample_agg_lib :: agg_lib where
  "sample_agg_lib = \<lparr>attrs_json = (\<lambda>_. JNull), ts_text = nat_str,
     marshal_parts = (\<lambda>ps. if ps = [JNull, JStr ''5''] then Some ''k'' else None), any_int = (\<lambda>_. 0)\<rparr>"

definition gauge_of :: "number_point list \<Rightarrow> agg_metric" where
  "gauge_of ps = \<lparr>am_name = ''m'', am_unit = [], am_description = [], am_data = GaugeOf ps\<rparr>"

lemma distinct_single: "distinct xs \<Longrightarrow> set xs = {x} \<Longrightarrow> xs = [x]"
  by (metis card_1_singletonE distinct_card is_singletonI is_singleton_altdef length_0_conv length_Suc_conv list.set(1,2)
    One_nat_def empty_set singleton_iff list.set_intros(1))


text \<open>What \<open>encoding/json\<close> and \<open>Timestamp.String\<close> promise: different documents have different, non-empty texts, and
  different times different texts.\<close>

definition text_ok :: "agg_lib \<Rightarrow> bool" where
  "text_ok L \<longleftrightarrow> (\<forall>x y s. marshal_parts L x = Some s \<longrightarrow> marshal_parts L y = Some s \<longrightarrow> x = y) \<and>
     (\<forall>x. marshal_parts L x \<noteq> Some []) \<and> inj (ts_text L)"

definition hist_key :: "agg_lib \<Rightarrow> bool \<Rightarrow> hist_point \<Rightarrow> string" where
  "hist_key L d p = dataPointHashKey L (hp_attrs p) (hp_time p) (histKeyParts L d p)"

definition unmarshallable :: "agg_lib \<Rightarrow> bool \<Rightarrow> hist_point \<Rightarrow> bool" where
  "unmarshallable L d p =
     (marshal_parts L ([attrs_json L (hp_attrs p), JStr (ts_text L (hp_time p))] @ histKeyParts L d p) = None)"

lemma key_parts_eq:
  assumes "inj (ts_text L)"
  shows "histKeyParts L d p = histKeyParts L d q \<longleftrightarrow>
    hp_bounds p = hp_bounds q \<and> (d \<longrightarrow> hp_start p = hp_start q) \<and> (hp_min p = None) = (hp_min q = None) \<and>
    (hp_max p = None) = (hp_max q = None) \<and> hp_flags p = hp_flags q"
proof -
  have "map JNum (hp_bounds p) = map JNum (hp_bounds q) \<longleftrightarrow> hp_bounds p = hp_bounds q"
    by (rule inj_map_eq_map) (simp add: inj_def)
  then show ?thesis using assms by (auto simp: histKeyParts_def inj_eq)
qed

text \<open>Two histogram points fall into the same group exactly when they agree in the document of their attributes, time,
  bounds, presence of minimum and maximum, flags and, for delta temporality, start, or when the key of neither can be
  marshalled: all points with a NaN or an infinity among attributes or bounds share one group.\<close>

theorem hist_group_key:
  assumes "text_ok L"
  shows "hist_key L d p = hist_key L d q \<longleftrightarrow>
    unmarshallable L d p \<and> unmarshallable L d q \<or>
    \<not> unmarshallable L d p \<and> attrs_json L (hp_attrs p) = attrs_json L (hp_attrs q) \<and> hp_time p = hp_time q \<and>
      hp_bounds p = hp_bounds q \<and> (d \<longrightarrow> hp_start p = hp_start q) \<and> (hp_min p = None) = (hp_min q = None) \<and>
      (hp_max p = None) = (hp_max q = None) \<and> hp_flags p = hp_flags q"
proof -
  have inj: "inj (ts_text L)" using assms by (simp add: text_ok_def)
  let ?parts = "\<lambda>p. [attrs_json L (hp_attrs p), JStr (ts_text L (hp_time p))] @ histKeyParts L d p"
  have parts: "?parts p = ?parts q \<longleftrightarrow> attrs_json L (hp_attrs p) = attrs_json L (hp_attrs q) \<and> hp_time p = hp_time q \<and>
      histKeyParts L d p = histKeyParts L d q"
    using inj by (auto simp: inj_eq)
  have key: "hist_key L d p = (case marshal_parts L (?parts p) of None \<Rightarrow> [] | Some s \<Rightarrow> s)" for p
    by (simp add: hist_key_def dataPointHashKey_def)
  have "hist_key L d p = hist_key L d q \<longleftrightarrow>
      unmarshallable L d p \<and> unmarshallable L d q \<or> \<not> unmarshallable L d p \<and> ?parts p = ?parts q"
    using assms unfolding key unmarshallable_def text_ok_def by (auto split: option.split)
  then show ?thesis unfolding parts key_parts_eq [OF inj] .
qed

lemma nat_str_inj: "inj nat_str"
  by (rule injI) (metis str_nat_nat_str)

theorem hist_group_key_witness:
  "hist_key sample_agg_lib True (no_hist\<lparr>hp_bounds := [NaN]\<rparr>) = hist_key sample_agg_lib True (no_hist\<lparr>hp_time := 9\<rparr>)"
proof -
  have "text_ok sample_agg_lib" using nat_str_inj by (auto simp: text_ok_def sample_agg_lib_def split: if_splits)
  from hist_group_key [OF this, of True "no_hist\<lparr>hp_bounds := [NaN]\<rparr>" "no_hist\<lparr>hp_time := 9\<rparr>"]
  show ?thesis by (simp add: unmarshallable_def sample_agg_lib_def histKeyParts_def no_hist_def)
qed

end
