(* ===== verification/Ttl_Map.thy ===== *)
theory Ttl_Map
  imports Go_Time
begin

text \<open>
  The expiring map (internal/common/ttlmap/ttl_map.go): a map with the time of each insertion, from
  which background workers remove what is older than the maximal age. The calls of clients and the
  steps of the workers, each atomic under the mutex, are the events of a transition system. Times
  are Unix seconds.
\<close>

section \<open>The map and its operations\<close>

record 'v entry =
  entry_v :: 'v
  createTime :: int

record 'v ttlMapData =
  ttl_m :: "(string, 'v entry) gomap"
  maxAge :: int

definition newTTLMapData :: "int \<Rightarrow> 'v ttlMapData" where
  "newTTLMapData maxAgeSeconds = \<lparr>ttl_m = [], maxAge = maxAgeSeconds\<rparr>"

definition put :: "string \<Rightarrow> 'v \<Rightarrow> int \<Rightarrow> 'v ttlMapData \<Rightarrow> 'v ttlMapData" where
  "put k x currTime d = d\<lparr>ttl_m := AList.update k \<lparr>entry_v = x, createTime = currTime\<rparr> (ttl_m d)\<rparr>"

definition get :: "string \<Rightarrow> 'v ttlMapData \<Rightarrow> 'v option" where
  "get k d = (case map_of (ttl_m d) k of None \<Rightarrow> None | Some e \<Rightarrow> Some (entry_v e))"

text \<open>The loop deletes from the map it ranges over, in an unspecified order; the difference is an \<open>int64\<close>.\<close>

definition sweep :: "nat list \<Rightarrow> int \<Rightarrow> 'v ttlMapData \<Rightarrow> 'v ttlMapData" where
  "sweep order currTime d =
     d\<lparr>ttl_m := foldl (\<lambda>mm (k, e). if maxAge d < wrap64 (currTime - createTime e) then AList.delete k mm else mm)
            (ttl_m d) (shuffle order (ttl_m d))\<rparr>"

section \<open>The map with its workers\<close>

text \<open>The channel \<open>done\<close> may be nil; \<open>workers\<close> counts the goroutines that \<open>Start\<close> has left running.\<close>

datatype chan = NilChan | OpenChan | ClosedChan

record 'v TTLMap =
  md :: "'v ttlMapData"
  done_chan :: chan
  sweepInterval :: int
  workers :: nat

definition New :: "int \<Rightarrow> int \<Rightarrow> chan \<Rightarrow> 'v TTLMap" where
  "New sweepIntervalSeconds maxAgeSeconds ch =
     \<lparr>md = newTTLMapData maxAgeSeconds, done_chan = ch, sweepInterval = sweepIntervalSeconds, workers = 0\<rparr>"

text \<open>\<open>time.NewTicker\<close> panics in the new goroutine when the interval, with its wrap-around, is not positive.\<close>

definition Start_ttl :: "'v TTLMap \<Rightarrow> 'v TTLMap go" where
  "Start_ttl s = (if wrap64 (sweepInterval s * second) \<le> 0 then panic ''non-positive interval for NewTicker''
     else ret (s\<lparr>workers := Suc (workers s)\<rparr>))"

definition Shutdown_ttl :: "'v TTLMap \<Rightarrow> 'v TTLMap go" where
  "Shutdown_ttl s =
     (case done_chan s of
        NilChan \<Rightarrow> ret s
      | OpenChan \<Rightarrow> ret (s\<lparr>done_chan := ClosedChan\<rparr>)
      | ClosedChan \<Rightarrow> panic ''close of closed channel'')"

text \<open>A worker with both a tick and a closed channel may take either.\<close>

datatype 'v event = PutEvent string 'v int | GetEvent string "'v option" | StartEvent | ShutdownEvent
  | TickEvent int "nat list" | ExitEvent

inductive ttl_step :: "'v TTLMap \<Rightarrow> 'v event \<Rightarrow> 'v TTLMap \<Rightarrow> bool" where
  Put: "ttl_step s (PutEvent k x t) (s\<lparr>md := put k x t (md s)\<rparr>)"
| Get: "ttl_step s (GetEvent k (get k (md s))) s"
| Start: "Start_ttl s = ret s' \<Longrightarrow> ttl_step s StartEvent s'"
| Shutdown: "Shutdown_ttl s = ret s' \<Longrightarrow> ttl_step s ShutdownEvent s'"
| Tick: "0 < workers s \<Longrightarrow> ttl_step s (TickEvent t order) (s\<lparr>md := sweep order t (md s)\<rparr>)"
| Exit: "0 < workers s \<Longrightarrow> done_chan s = ClosedChan \<Longrightarrow> ttl_step s ExitEvent (s\<lparr>workers := workers s - 1\<rparr>)"

inductive_cases PutE: "ttl_step s (PutEvent k x t) s'"
inductive_cases GetE: "ttl_step s (GetEvent k r) s'"
inductive_cases StartE: "ttl_step s StartEvent s'"
inductive_cases ShutdownE: "ttl_step s ShutdownEvent s'"
inductive_cases TickE: "ttl_step s (TickEvent t order) s'"
inductive_cases ExitE: "ttl_step s ExitEvent s'"

inductive ttl_run :: "'v TTLMap \<Rightarrow> 'v event list \<Rightarrow> 'v TTLMap \<Rightarrow> bool" where
  Done: "ttl_run s [] s"
| Step: "ttl_run s es s1 \<Longrightarrow> ttl_step s1 e s2 \<Longrightarrow> ttl_run s (es @ [e]) s2"

inductive_simps ttl_run_Nil: "ttl_run s [] s'"

section \<open>Sweeping\<close>

lemma fold_delete:
  "map_of (foldl (\<lambda>mm (k, e). if P e then AList.delete k mm else mm) a es) j =
     (if \<exists>e. (j, e) \<in> set es \<and> P e then None else map_of a j)"
  by (induction es arbitrary: a) auto

lemma gomap_ok_fold_delete:
  "gomap_ok a \<Longrightarrow> gomap_ok (foldl (\<lambda>mm (k, e). if P e then AList.delete k mm else mm) a es)"
  by (induction es arbitrary: a) auto

lemma sweep_lookup:
  assumes "gomap_ok (ttl_m d)"
  shows "map_of (ttl_m (sweep order t d)) k =
    (case map_of (ttl_m d) k of None \<Rightarrow> None
     | Some e \<Rightarrow> if maxAge d < wrap64 (t - createTime e) then None else Some e)"
proof (cases "map_of (ttl_m d) k")
  case None
  then have "\<nexists>e. (k, e) \<in> set (ttl_m d)" using gomap_ok_map_of [OF assms, of k] by simp
  then show ?thesis using None by (simp add: sweep_def fold_delete)
next
  case (Some e)
  then have "(k, e') \<in> set (ttl_m d) \<longleftrightarrow> e' = e" for e' using gomap_ok_map_of [OF assms, of k e'] by auto
  then show ?thesis using Some by (simp add: sweep_def fold_delete)
qed

lemma maxAge_simps [simp]: "maxAge (put k x t d) = maxAge d" "maxAge (sweep order t d) = maxAge d"
  by (simp_all add: put_def sweep_def)

lemma gomap_ok_ops [simp]:
  "gomap_ok (ttl_m d) \<Longrightarrow> gomap_ok (ttl_m (put k x t d))"
  "gomap_ok (ttl_m d) \<Longrightarrow> gomap_ok (ttl_m (sweep order t d))"
  by (simp_all add: put_def sweep_def gomap_ok_fold_delete)

lemma put_lookup: "map_of (ttl_m (put k x t d)) j = (if j = k then Some \<lparr>entry_v = x, createTime = t\<rparr> else map_of (ttl_m d) j)"
  by (simp add: put_def)

section \<open>What a lookup finds\<close>

text \<open>The last insertion of a key in a history, unless a later sweep was more than \<open>a\<close> seconds after it.\<close>

definition alive :: "int \<Rightarrow> 'v event list \<Rightarrow> string \<Rightarrow> 'v \<Rightarrow> int \<Rightarrow> bool" where
  "alive a es k x t \<longleftrightarrow>
     (\<exists>before after. es = before @ PutEvent k x t # after \<and> (\<forall>y s. PutEvent k y s \<notin> set after) \<and>
        (\<forall>now order. TickEvent now order \<in> set after \<longrightarrow> now - t \<le> a))"

text \<open>All times in the history lie between the epoch and the year 146 billion, so that no difference wraps around.\<close>

fun event_time :: "'v event \<Rightarrow> int option" where
  "event_time (PutEvent k x t) = Some t"
| "event_time (TickEvent t order) = Some t"
| "event_time _ = None"

definition sane_times :: "'v event list \<Rightarrow> bool" where
  "sane_times es \<longleftrightarrow> (\<forall>e\<in>set es. case event_time e of None \<Rightarrow> True | Some t \<Rightarrow> 0 \<le> t \<and> t < 2 ^ 62)"

lemma alive_Nil [simp]: "\<not> alive a [] k x t"
  by (simp add: alive_def)

lemma alive_snoc:
  "alive a (es @ [e]) k x t \<longleftrightarrow>
     e = PutEvent k x t \<or>
     alive a es k x t \<and> (\<forall>y s. e \<noteq> PutEvent k y s) \<and> (\<forall>now order. e = TickEvent now order \<longrightarrow> now - t \<le> a)"
  (is "?l \<longleftrightarrow> ?r")
proof
  assume ?l
  then obtain before after where *: "es @ [e] = before @ PutEvent k x t # after" "\<forall>y s. PutEvent k y s \<notin> set after"
    "\<forall>now order. TickEvent now order \<in> set after \<longrightarrow> now - t \<le> a"
    by (auto simp: alive_def)
  show ?r
  proof (cases after rule: rev_cases)
    case Nil
    then show ?thesis using * by simp
  next
    case (snoc after' e')
    then have "e' = e" "es = before @ PutEvent k x t # after'" using *(1) by auto
    moreover from this have "alive a es k x t" using *(2,3) snoc unfolding alive_def
      by (intro exI [of _ before] exI [of _ after']) simp
    ultimately show ?thesis using *(2,3) snoc by auto
  qed
next
  assume ?r
  then show ?l
  proof
    assume "e = PutEvent k x t"
    then show ?l unfolding alive_def by (intro exI [of _ es] exI [of _ "[]"]) simp
  next
    assume r: "alive a es k x t \<and> (\<forall>y s. e \<noteq> PutEvent k y s) \<and> (\<forall>now order. e = TickEvent now order \<longrightarrow> now - t \<le> a)"
    then obtain before after where "es = before @ PutEvent k x t # after" "\<forall>y s. PutEvent k y s \<notin> set after"
      "\<forall>now order. TickEvent now order \<in> set after \<longrightarrow> now - t \<le> a"
      by (auto simp: alive_def)
    then show ?l using r unfolding alive_def by (intro exI [of _ before] exI [of _ "after @ [e]"]) auto
  qed
qed

lemma alive_time: "alive a es k x t \<Longrightarrow> sane_times es \<Longrightarrow> 0 \<le> t \<and> t < 2 ^ 62"
  by (auto simp: alive_def sane_times_def)

definition holds_history :: "int \<Rightarrow> 'v event list \<Rightarrow> 'v TTLMap \<Rightarrow> bool" where
  "holds_history a es s \<longleftrightarrow> gomap_ok (ttl_m (md s)) \<and> maxAge (md s) = a \<and>
     (\<forall>k x t. map_of (ttl_m (md s)) k = Some \<lparr>entry_v = x, createTime = t\<rparr> \<longleftrightarrow> alive a es k x t)"

lemma wrap64_diff: "0 \<le> t \<Longrightarrow> t < 2 ^ 62 \<Longrightarrow> 0 \<le> now \<Longrightarrow> now < 2 ^ 62 \<Longrightarrow> wrap64 (now - t) = now - t"
  by (rule wrap64_id) (simp add: is_int64_def)

lemma step_history:
  assumes "holds_history a es s" "ttl_step s e s'" "sane_times (es @ [e])"
  shows "holds_history a (es @ [e]) s'"
proof (cases e)
  case (TickEvent now order)
  have s': "md s' = sweep order now (md s)" using assms(2) TickEvent by (auto elim: TickE)
  have ok: "gomap_ok (ttl_m (md s))" "maxAge (md s) = a" using assms(1) by (simp_all add: holds_history_def)
  have now: "0 \<le> now" "now < 2 ^ 62" and sane: "sane_times es"
    using assms(3) TickEvent by (auto simp: sane_times_def)
  have "map_of (ttl_m (md s')) k = Some \<lparr>entry_v = x, createTime = t\<rparr> \<longleftrightarrow>
      alive a es k x t \<and> now - t \<le> a" for k x t
  proof -
    have "map_of (ttl_m (md s')) k = Some \<lparr>entry_v = x, createTime = t\<rparr> \<longleftrightarrow>
        map_of (ttl_m (md s)) k = Some \<lparr>entry_v = x, createTime = t\<rparr> \<and> \<not> a < wrap64 (now - t)"
      unfolding s' sweep_lookup [OF ok(1)] ok(2) by (auto split: option.split)
    also have "\<dots> \<longleftrightarrow> alive a es k x t \<and> now - t \<le> a"
      using assms(1) alive_time [of a es k x t] sane now wrap64_diff [of t now] by (auto simp: holds_history_def)
    finally show ?thesis .
  qed
  then show ?thesis using assms(1) s' TickEvent by (auto simp: holds_history_def alive_snoc)
qed (use assms in \<open>auto simp: holds_history_def alive_snoc put_lookup Start_ttl_def Shutdown_ttl_def
    elim!: PutE GetE StartE ShutdownE ExitE split: if_splits chan.splits\<close>)

lemma run_history: "ttl_run s es s' \<Longrightarrow> holds_history a [] s \<Longrightarrow> sane_times es \<Longrightarrow> holds_history a es s'"
  by (induction rule: ttl_run.induct) (auto simp: step_history sane_times_def)

section \<open>Properties of the expiring map\<close>

text \<open>C26: After any history of insertions, lookups, sweeps, starts and shutdowns of a new map, a lookup finds a value
  exactly when it is the one inserted last under the key and no sweep came more than the maximal age after that
  insertion, in any order of the iteration.\<close>

theorem ttl_lookup:
  assumes "ttl_run (New i a ch) es s" "sane_times es"
  shows "get k (md s) = Some x \<longleftrightarrow> (\<exists>t. alive a es k x t)"
proof -
  have "holds_history a [] (New i a ch)" by (simp add: holds_history_def New_def newTTLMapData_def)
  then have h: "holds_history a es s" using run_history assms by blast
  have "get k (md s) = Some x \<longleftrightarrow> (\<exists>t. map_of (ttl_m (md s)) k = Some \<lparr>entry_v = x, createTime = t\<rparr>)"
    by (auto simp: get_def split: option.split) (metis entry.surjective old.unit.exhaust)
  then show ?thesis using h by (simp add: holds_history_def)
qed

theorem ttl_lookup_witness:
  "\<exists>s. ttl_run (New 1 10 NilChan) [StartEvent, PutEvent ''k'' (7::nat) 100, TickEvent 105 []] s \<and> get ''k'' (md s) = Some 7"
proof -
  let ?s0 = "New 1 10 NilChan :: nat TTLMap"
  let ?s1 = "?s0\<lparr>workers := 1\<rparr>"
  let ?s2 = "?s1\<lparr>md := put ''k'' 7 100 (md ?s1)\<rparr>"
  let ?s3 = "?s2\<lparr>md := sweep [] 105 (md ?s2)\<rparr>"
  let ?es = "[StartEvent, PutEvent ''k'' (7::nat) 100, TickEvent 105 []]"
  have "Start_ttl ?s0 = ret ?s1" by (simp add: Start_ttl_def New_def second_def wrap64_def)
  then have "ttl_run ?s0 ([] @ [StartEvent]) ?s1" by (intro ttl_run.Step [OF ttl_run.Done] ttl_step.Start)
  then have "ttl_run ?s0 (([] @ [StartEvent]) @ [PutEvent ''k'' 7 100]) ?s2" by (rule ttl_run.Step) (rule ttl_step.Put)
  then have "ttl_run ?s0 ((([] @ [StartEvent]) @ [PutEvent ''k'' 7 100]) @ [TickEvent 105 []]) ?s3"
    by (rule ttl_run.Step) (rule ttl_step.Tick, simp)
  then have run: "ttl_run ?s0 ?es ?s3" by simp
  have "alive 10 ?es ''k'' 7 100" unfolding alive_def
    by (intro exI [of _ "[StartEvent]"] exI [of _ "[TickEvent 105 []]"]) simp
  moreover have "sane_times ?es" by (simp add: sane_times_def)
  ultimately have "get ''k'' (md ?s3) = Some 7" using ttl_lookup [OF run, of "''k''" 7] by blast
  then show ?thesis using run by blast
qed

text \<open>A second shutdown closes a closed channel.\<close>

lemma second_shutdown_panics: "Shutdown_ttl s = ret s' \<Longrightarrow> done_chan s \<noteq> NilChan \<Longrightarrow> Shutdown_ttl s' = panic ''close of closed channel''"
  by (auto simp: Shutdown_ttl_def split: chan.splits)

text \<open>Without a channel no worker ever stops.\<close>

lemma no_channel_no_exit: "ttl_run s es s' \<Longrightarrow> done_chan s = NilChan \<Longrightarrow> done_chan s' = NilChan \<and> workers s \<le> workers s'"
proof (induction rule: ttl_run.induct)
  case (Step s es s1 e s2)
  then show ?case
    by (cases e) (auto elim!: PutE GetE StartE ShutdownE TickE ExitE simp: Start_ttl_def Shutdown_ttl_def split: if_splits)
qed simp

end
