(* ===== verification/Priority_Queue.thy ===== *)
theory Priority_Queue
  imports Go_Prelude
begin

text \<open>
  The priority queue (internal/common/priorityqueue/queue.go): the five methods that package
  \<open>container/heap\<close> asks for, and the functions of that package that use them. The locale
  \<open>heap_interface\<close> is the contract of \<open>heap.Interface\<close>; the package's functions are proved correct
  from it and the queue is its interpretation. Priorities are of a linear order (a NaN priority,
  which compares with nothing, is excluded).
\<close>

section \<open>The queue\<close>

text \<open>A slice of pointers to items, each item owned by its queue; an item off the queue has index -1.\<close>

record ('v, 'p) QueueItem =
  Value :: 'v
  Priority :: 'p
  Index :: int

type_synonym ('v, 'p) PriorityQueue = "('v, 'p) QueueItem list"

definition Len :: "('v, 'p) PriorityQueue \<Rightarrow> nat" where
  "Len pq = length pq"

definition Less :: "('v, 'p :: linorder) PriorityQueue \<Rightarrow> nat \<Rightarrow> nat \<Rightarrow> bool go" where
  "Less pq i j =
     (if i < length pq \<and> j < length pq then ret (Priority (pq ! j) < Priority (pq ! i))
      else panic ''index out of range'')"

definition Swap :: "('v, 'p) PriorityQueue \<Rightarrow> nat \<Rightarrow> nat \<Rightarrow> ('v, 'p) PriorityQueue go" where
  "Swap pq i j =
     (if i < length pq \<and> j < length pq then
        (let pq1 = pq[i := pq ! j, j := pq ! i];
             pq2 = pq1[i := (pq1 ! i)\<lparr>Index := int i\<rparr>]
         in ret (pq2[j := (pq2 ! j)\<lparr>Index := int j\<rparr>]))
      else panic ''index out of range'')"

definition Push :: "('v, 'p) QueueItem \<Rightarrow> ('v, 'p) PriorityQueue \<Rightarrow> ('v, 'p) PriorityQueue" where
  "Push item pq = pq @ [item\<lparr>Index := int (length pq)\<rparr>]"

definition Pop :: "('v, 'p) PriorityQueue \<Rightarrow> (('v, 'p) QueueItem \<times> ('v, 'p) PriorityQueue) go" where
  "Pop pq =
     (if pq = [] then panic ''index out of range''
      else ret ((last pq)\<lparr>Index := - 1\<rparr>, butlast pq))"

section \<open>Package container/heap\<close>

text \<open>The functions are given the methods they call; an index is a position below the length.\<close>

function heap_up ::
  "('q \<Rightarrow> nat \<Rightarrow> nat \<Rightarrow> bool go) \<Rightarrow> ('q \<Rightarrow> nat \<Rightarrow> nat \<Rightarrow> 'q go) \<Rightarrow> 'q \<Rightarrow> nat \<Rightarrow> 'q go" where
  "heap_up lt swap q j =
     (let i = (j - 1) div 2
      in if i = j then ret q
         else andThen (lt q j i) (\<lambda>b.
           if \<not> b then ret q else andThen (swap q i j) (\<lambda>q'. heap_up lt swap q' i)))"
  by pat_completeness auto

termination by (relation "measure (\<lambda>(_, _, _, j). j)") auto

declare heap_up.simps [simp del]

definition larger_child :: "('q \<Rightarrow> nat \<Rightarrow> nat \<Rightarrow> bool go) \<Rightarrow> nat \<Rightarrow> 'q \<Rightarrow> nat \<Rightarrow> nat go" where
  "larger_child lt n q j1 =
     (if j1 + 1 < n then andThen (lt q (j1 + 1) j1) (\<lambda>b. ret (if b then j1 + 1 else j1)) else ret j1)"

lemma larger_child_cases: "larger_child lt n q j1 = Inr j \<Longrightarrow> j = j1 \<or> j = j1 + 1 \<and> j < n"
  by (auto simp: larger_child_def andThen_Inr_iff split: if_splits)

text \<open>The result says where the element came to rest.\<close>

function heap_down ::
  "('q \<Rightarrow> nat \<Rightarrow> nat \<Rightarrow> bool go) \<Rightarrow> ('q \<Rightarrow> nat \<Rightarrow> nat \<Rightarrow> 'q go) \<Rightarrow> nat \<Rightarrow> 'q \<Rightarrow> nat \<Rightarrow> ('q \<times> nat) go" where
  "heap_down lt swap n q i =
     (if n \<le> 2 * i + 1 then ret (q, i)
      else andThen (larger_child lt n q (2 * i + 1)) (\<lambda>j.
        andThen (lt q j i) (\<lambda>b.
          if \<not> b then ret (q, i) else andThen (swap q i j) (\<lambda>q'. heap_down lt swap n q' j))))"
  by pat_completeness auto

termination
  by (relation "measure (\<lambda>(_, _, n, _, i). n - i)") (auto dest!: larger_child_cases)

declare heap_down.simps [simp del]

definition heap_Push :: "('v, 'p :: linorder) QueueItem \<Rightarrow> ('v, 'p) PriorityQueue \<Rightarrow> ('v, 'p) PriorityQueue go" where
  "heap_Push x pq = (let pq1 = Push x pq in heap_up Less Swap pq1 (Len pq1 - 1))"

definition heap_Pop ::
  "('v, 'p :: linorder) PriorityQueue \<Rightarrow> (('v, 'p) QueueItem \<times> ('v, 'p) PriorityQueue) go" where
  "heap_Pop pq =
     (let n = Len pq - 1
      in andThen (Swap pq 0 n) (\<lambda>pq1. andThen (heap_down Less Swap n pq1 0) (\<lambda>(pq2, _). Pop pq2)))"

section \<open>The contract of heap.Interface\<close>

definition parent :: "nat \<Rightarrow> nat" where
  "parent c = (c - 1) div 2"

lemma parent_less: "0 < c \<Longrightarrow> parent c < c"
  by (auto simp: parent_def)

lemma parent_child: "parent (2 * i + 1) = i" "parent (2 * i + 2) = i"
  by (simp_all add: parent_def)

lemma child_cases: "0 < c \<Longrightarrow> parent c = i \<Longrightarrow> c = 2 * i + 1 \<or> c = 2 * i + 2"
  by (auto simp: parent_def)

locale heap_interface =
  fixes size_of :: "'q \<Rightarrow> nat"
    and lt :: "'q \<Rightarrow> nat \<Rightarrow> nat \<Rightarrow> bool go"
    and swap :: "'q \<Rightarrow> nat \<Rightarrow> nat \<Rightarrow> 'q go"
    and key :: "'q \<Rightarrow> nat \<Rightarrow> 'k :: linorder"
    and same :: "'q \<Rightarrow> 'q \<Rightarrow> bool"
  assumes lt_key: "i < size_of q \<Longrightarrow> j < size_of q \<Longrightarrow> lt q i j = Inr (key q j < key q i)"
    and swap_keys: "i < size_of q \<Longrightarrow> j < size_of q \<Longrightarrow>
      \<exists>q'. swap q i j = Inr q' \<and> size_of q' = size_of q \<and> same q q' \<and> key q' i = key q j \<and> key q' j = key q i \<and>
        (\<forall>c. c \<noteq> i \<longrightarrow> c \<noteq> j \<longrightarrow> key q' c = key q c)"
    and same_refl: "same q q"
    and same_trans: "same q r \<Longrightarrow> same r s \<Longrightarrow> same q s"
begin

definition ordered :: "nat \<Rightarrow> 'q \<Rightarrow> bool" where
  "ordered n q \<longleftrightarrow> (\<forall>c. 0 < c \<longrightarrow> c < n \<longrightarrow> key q c \<le> key q (parent c))"

definition too_small :: "nat \<Rightarrow> nat \<Rightarrow> 'q \<Rightarrow> bool" where
  "too_small n i q \<longleftrightarrow>
     (\<forall>c. 0 < c \<longrightarrow> c < n \<longrightarrow> parent c \<noteq> i \<longrightarrow> key q c \<le> key q (parent c)) \<and>
     (0 < i \<longrightarrow> (\<forall>c. 0 < c \<longrightarrow> c < n \<longrightarrow> parent c = i \<longrightarrow> key q c \<le> key q (parent i)))"

definition too_large :: "nat \<Rightarrow> nat \<Rightarrow> 'q \<Rightarrow> bool" where
  "too_large n j q \<longleftrightarrow>
     (\<forall>c. 0 < c \<longrightarrow> c < n \<longrightarrow> c \<noteq> j \<longrightarrow> key q c \<le> key q (parent c)) \<and>
     (0 < j \<longrightarrow> (\<forall>c. 0 < c \<longrightarrow> c < n \<longrightarrow> parent c = j \<longrightarrow> key q c \<le> key q (parent j)))"

end

lemma heap_up_parent:
  "heap_up lt swap q j =
     (if parent j = j then ret q
      else andThen (lt q j (parent j)) (\<lambda>b.
        if \<not> b then ret q else andThen (swap q (parent j) j) (\<lambda>q'. heap_up lt swap q' (parent j))))"
  by (subst heap_up.simps) (simp only: parent_def Let_def)

context heap_interface begin

lemma too_small_ordered:
  "too_small n i q \<Longrightarrow> (\<And>c. 0 < c \<Longrightarrow> c < n \<Longrightarrow> parent c = i \<Longrightarrow> key q c \<le> key q i) \<Longrightarrow> ordered n q"
  unfolding too_small_def ordered_def by metis

lemma ordered_root: "ordered n q \<Longrightarrow> c < n \<Longrightarrow> key q c \<le> key q 0"
proof (induction c rule: less_induct)
  case (less c)
  show ?case
  proof (cases "c = 0")
    case False
    then have "parent c < c" by (simp add: parent_less)
    then have "key q (parent c) \<le> key q 0" using less by simp
    moreover have "key q c \<le> key q (parent c)" using less.prems False by (simp add: ordered_def)
    ultimately show ?thesis by (rule order_trans [rotated])
  qed simp
qed

lemma ordered_weaken: "ordered n q \<Longrightarrow> m \<le> n \<Longrightarrow> ordered m q"
  by (auto simp: ordered_def)

lemma swap_small:
  assumes small: "too_small n i q" and j: "parent j = i" "0 < j" "j < n" "key q i < key q j"
    and largest: "\<And>c. 0 < c \<Longrightarrow> c < n \<Longrightarrow> parent c = i \<Longrightarrow> key q c \<le> key q j"
    and q': "key q' i = key q j" "key q' j = key q i" "\<And>c. c \<noteq> i \<Longrightarrow> c \<noteq> j \<Longrightarrow> key q' c = key q c"
  shows "too_small n j q'"
proof -
  have ij: "i < j" using j parent_less by blast
  have "key q' c \<le> key q' (parent c)" if c: "0 < c" "c < n" "parent c \<noteq> j" for c
  proof -
    consider "c = i" | "c = j" | "c \<noteq> i" "c \<noteq> j" "parent c = i" | "c \<noteq> i" "c \<noteq> j" "parent c \<noteq> i" by blast
    then show ?thesis
    proof cases
      case 1
      then have "parent i \<noteq> i" "parent i \<noteq> j" using c(1) ij parent_less [of i] by auto
      moreover have "key q j \<le> key q (parent i)" using small j c(1) 1 by (auto simp: too_small_def)
      ultimately show ?thesis using 1 q' by simp
    next
      case 2
      then show ?thesis using j q' by simp
    next
      case 3
      then show ?thesis using largest [OF c(1,2)] q' by simp
    next
      case 4
      then have "key q c \<le> key q (parent c)" using small c by (simp add: too_small_def)
      then show ?thesis using 4 c(3) q' by simp
    qed
  qed
  moreover have "key q' c \<le> key q' (parent j)" if c: "0 < c" "c < n" "parent c = j" for c
  proof -
    have "c \<noteq> j" "c \<noteq> i" using parent_less [OF c(1)] c(3) ij by auto
    moreover have "key q c \<le> key q j" using small c ij by (auto simp: too_small_def)
    ultimately show ?thesis using q' j by simp
  qed
  ultimately show ?thesis by (simp add: too_small_def)
qed

lemma swap_large:
  assumes large: "too_large n j q" and j: "0 < j" "j < n" "parent j = i" "key q i < key q j"
    and q': "key q' i = key q j" "key q' j = key q i" "\<And>c. c \<noteq> i \<Longrightarrow> c \<noteq> j \<Longrightarrow> key q' c = key q c"
  shows "too_large n i q'"
proof -
  have ij: "i < j" using j parent_less by blast
  have up: "key q c \<le> key q (parent c)" if "0 < c" "c < n" "c \<noteq> j" for c
    using large that by (simp add: too_large_def)
  have below: "key q c \<le> key q i" if "0 < c" "c < n" "parent c = j" for c
    using large that j by (auto simp: too_large_def)
  have "key q' c \<le> key q' (parent c)" if c: "0 < c" "c < n" "c \<noteq> i" for c
  proof -
    consider "c = j" | "c \<noteq> j" "parent c = j" | "c \<noteq> j" "parent c = i" | "c \<noteq> j" "parent c \<noteq> i" "parent c \<noteq> j" by blast
    then show ?thesis
    proof cases
      case 1
      then show ?thesis using j q' by simp
    next
      case 2
      then show ?thesis using below c q' by simp
    next
      case 3
      then show ?thesis using up [OF c(1,2)] j q' c(3) by (simp add: order_less_imp_le [OF le_less_trans])
    next
      case 4
      then show ?thesis using up [OF c(1,2)] q' c(3) by simp
    qed
  qed
  moreover have "key q' c \<le> key q' (parent i)" if c: "0 < i" "0 < c" "c < n" "parent c = i" for c
  proof -
    have p: "parent i \<noteq> i" "parent i \<noteq> j" using parent_less [OF c(1)] ij by auto
    have i: "key q i \<le> key q (parent i)" using up c(1) ij j(2) by simp
    show ?thesis
    proof (cases "c = j")
      case True
      then show ?thesis using i p q' by simp
    next
      case False
      then have "key q c \<le> key q i" using up [OF c(2,3)] c(4) by simp
      moreover have "c \<noteq> i" using parent_less [OF c(2)] c(4) by simp
      ultimately show ?thesis using i p q' False by simp
    qed
  qed
  ultimately show ?thesis by (simp add: too_large_def)
qed

lemma up_ordered:
  "too_large n j q \<Longrightarrow> j < n \<Longrightarrow> n \<le> size_of q \<Longrightarrow>
     \<exists>r. heap_up lt swap q j = Inr r \<and> ordered n r \<and> same q r \<and> size_of r = size_of q"
proof (induction j arbitrary: q rule: less_induct)
  case (less j)
  show ?case
  proof (cases "j = 0 \<or> key q j \<le> key q (parent j)")
    case True
    then have "ordered n q"
      using less.prems(1) by (auto simp: too_large_def ordered_def)
    moreover have "heap_up lt swap q j = Inr q"
    proof (cases "j = 0")
      case False
      then have "parent j < j" "key q j \<le> key q (parent j)" using True parent_less by auto
      then show ?thesis
        using less.prems lt_key [of j q "parent j"] by (simp add: heap_up_parent [of lt swap q j] leD)
    qed (simp add: heap_up_parent [of lt swap q 0] parent_def)
    ultimately show ?thesis using same_refl by blast
  next
    case False
    then have j: "0 < j" "parent j < j" "key q (parent j) < key q j" using parent_less by auto
    then have range: "parent j < size_of q" "j < size_of q" using less.prems by auto
    obtain q' where q': "swap q (parent j) j = Inr q'" "size_of q' = size_of q" "same q q'"
      "key q' (parent j) = key q j" "key q' j = key q (parent j)"
      "\<And>c. c \<noteq> parent j \<Longrightarrow> c \<noteq> j \<Longrightarrow> key q' c = key q c"
      using swap_keys [OF range] by blast
    have "too_large n (parent j) q'"
      by (rule swap_large [OF less.prems(1) j(1) less.prems(2) refl j(3) q'(4-6)])
    then obtain r where r: "heap_up lt swap q' (parent j) = Inr r" "ordered n r" "same q' r" "size_of r = size_of q'"
      using less.IH [OF j(2), of q'] less.prems q'(2) j(2) by auto
    have "heap_up lt swap q j = Inr r"
      using j q'(1) r(1) lt_key [OF range(2,1)]
      by (simp add: heap_up_parent [of lt swap q j])
    then show ?thesis using r q' same_trans by auto
  qed
qed

lemma larger_child_largest:
  assumes "2 * i + 1 < n" "n \<le> size_of q"
  shows "\<exists>j. larger_child lt n q (2 * i + 1) = Inr j \<and> 0 < j \<and> j < n \<and> parent j = i \<and>
    (\<forall>c. 0 < c \<longrightarrow> c < n \<longrightarrow> parent c = i \<longrightarrow> key q c \<le> key q j)"
proof -
  define j where "j = (if 2 * i + 2 < n \<and> key q (2 * i + 1) < key q (2 * i + 2) then 2 * i + 2 else 2 * i + 1)"
  have "larger_child lt n q (2 * i + 1) = Inr j"
    using assms lt_key [of "2 * i + 2" q "2 * i + 1"] by (auto simp: larger_child_def j_def)
  moreover have "0 < j" "j < n" "parent j = i" using assms parent_child by (auto simp: j_def)
  moreover have "key q c \<le> key q j" if "0 < c" "c < n" "parent c = i" for c
    using child_cases [OF that(1,3)] that(2) by (auto simp: j_def)
  ultimately show ?thesis by blast
qed

lemma down_ordered:
  "too_small n i q \<Longrightarrow> n \<le> size_of q \<Longrightarrow> i < n \<or> n = 0 \<Longrightarrow>
     \<exists>r k. heap_down lt swap n q i = Inr (r, k) \<and> ordered n r \<and> same q r \<and> size_of r = size_of q \<and>
       (\<forall>c\<ge>n. key r c = key q c)"
proof (induction "n - i" arbitrary: q i rule: less_induct)
  case less
  show ?case
  proof (cases "n \<le> 2 * i + 1")
    case True
    then have "\<not> (0 < c \<and> c < n \<and> parent c = i)" for c using child_cases [of c i] by auto
    then have "ordered n q" using too_small_ordered [OF less.prems(1)] by blast
    then show ?thesis using True same_refl by (auto simp: heap_down.simps [of lt swap n q i])
  next
    case False
    then obtain j where j: "larger_child lt n q (2 * i + 1) = Inr j" "0 < j" "j < n" "parent j = i"
      "\<And>c. 0 < c \<Longrightarrow> c < n \<Longrightarrow> parent c = i \<Longrightarrow> key q c \<le> key q j"
      using larger_child_largest [of i n q] less.prems(2) by auto
    then have ij: "i < j" using parent_less by blast
    then have range: "i < size_of q" "j < size_of q" using j less.prems by auto
    show ?thesis
    proof (cases "key q i < key q j")
      case True
      obtain q' where q': "swap q i j = Inr q'" "size_of q' = size_of q" "same q q'"
        "key q' i = key q j" "key q' j = key q i" "\<And>c. c \<noteq> i \<Longrightarrow> c \<noteq> j \<Longrightarrow> key q' c = key q c"
        using swap_keys [OF range] by blast
      have "too_small n j q'"
        by (rule swap_small [OF less.prems(1) j(4,2,3) True j(5) q'(4-6)])
      moreover have "n - j < n - i" using ij j by simp
      ultimately obtain r k where r: "heap_down lt swap n q' j = Inr (r, k)" "ordered n r" "same q' r"
        "size_of r = size_of q'" "\<forall>c\<ge>n. key r c = key q' c"
        using less.hyps [of j q'] less.prems(2) q'(2) j(3) by auto
      have "heap_down lt swap n q i = Inr (r, k)"
        using False j(1) q'(1) r(1) True lt_key [OF range(2,1)] by (simp add: heap_down.simps [of lt swap n q i])
      moreover have "\<forall>c\<ge>n. key r c = key q c" using r(5) q'(6) ij j(3) by auto
      ultimately show ?thesis using r q' same_trans by auto
    next
      case not: False
      have "key q c \<le> key q i" if "0 < c" "c < n" "parent c = i" for c
        using j(5) [OF that] not by simp
      then have "ordered n q" using too_small_ordered [OF less.prems(1)] by blast
      moreover have "heap_down lt swap n q i = Inr (q, i)"
        using False j(1) not lt_key [OF range(2,1)] by (simp add: heap_down.simps [of lt swap n q i])
      ultimately show ?thesis using same_refl by blast
    qed
  qed
qed

end

section \<open>The queue implements the contract\<close>

definition item_of :: "('v, 'p) QueueItem \<Rightarrow> 'v \<times> 'p" where
  "item_of x = (Value x, Priority x)"

definition contents :: "('v, 'p) PriorityQueue \<Rightarrow> ('v \<times> 'p) multiset" where
  "contents pq = mset (map item_of pq)"

definition index_ok :: "('v, 'p) PriorityQueue \<Rightarrow> bool" where
  "index_ok pq \<longleftrightarrow> (\<forall>i<length pq. Index (pq ! i) = int i)"

definition is_heap :: "('v, 'p :: linorder) PriorityQueue \<Rightarrow> bool" where
  "is_heap pq \<longleftrightarrow> (\<forall>c. 0 < c \<longrightarrow> c < length pq \<longrightarrow> Priority (pq ! c) \<le> Priority (pq ! parent c))"

definition priority_at :: "('v, 'p) PriorityQueue \<Rightarrow> nat \<Rightarrow> 'p" where
  "priority_at pq i = Priority (pq ! i)"

definition same_items :: "('v, 'p) PriorityQueue \<Rightarrow> ('v, 'p) PriorityQueue \<Rightarrow> bool" where
  "same_items q r \<longleftrightarrow> contents r = contents q \<and> (index_ok q \<longrightarrow> index_ok r)"

lemma item_of_index [simp]: "item_of (x\<lparr>Index := i\<rparr>) = item_of x"
  by (simp add: item_of_def)

lemma Swap_spec:
  assumes "i < length q" "j < length q"
  shows "\<exists>q'. Swap q i j = Inr q' \<and> length q' = length q \<and> same_items q q' \<and>
    priority_at q' i = priority_at q j \<and> priority_at q' j = priority_at q i \<and>
    (\<forall>c. c \<noteq> i \<longrightarrow> c \<noteq> j \<longrightarrow> priority_at q' c = priority_at q c)"
proof -
  let ?q1 = "q[i := q ! j, j := q ! i]"
  let ?q2 = "?q1[i := (?q1 ! i)\<lparr>Index := int i\<rparr>]"
  let ?q' = "?q2[j := (?q2 ! j)\<lparr>Index := int j\<rparr>]"
  have "map item_of ?q' = (map item_of q)[i := map item_of q ! j, j := map item_of q ! i]"
    using assms by (intro nth_equalityI) (auto simp: nth_list_update)
  then have "contents ?q' = contents q"
    using assms mset_swap [of j "map item_of q" i] by (simp add: contents_def list_update_swap)
  moreover have "index_ok ?q'" if "index_ok q"
    using that assms by (auto simp: index_ok_def nth_list_update)
  moreover have "Swap q i j = Inr ?q'" using assms by (simp add: Swap_def Let_def)
  ultimately show ?thesis
    using assms by (intro exI [of _ ?q']) (auto simp: same_items_def priority_at_def nth_list_update)
qed

interpretation pq: heap_interface Len Less Swap priority_at same_items
  by unfold_locales (use Swap_spec in \<open>auto simp: Len_def Less_def priority_at_def same_items_def\<close>)

lemma ordered_heap: "pq.ordered (length q) q \<longleftrightarrow> is_heap q"
  by (simp add: pq.ordered_def is_heap_def priority_at_def)

section \<open>Properties of the queue\<close>

text \<open>C27: On a heap whose items know their positions, popping returns an item of the highest priority, marks it as taken,
  and leaves a heap of the other items that know their positions.\<close>

theorem queue_pop:
  assumes "is_heap q" "index_ok q" "q \<noteq> []"
  shows "\<exists>x q'. heap_Pop q = Inr (x, q') \<and> is_heap q' \<and> index_ok q' \<and> Index x = - 1 \<and>
    contents q = add_mset (item_of x) (contents q') \<and> (\<forall>y\<in>set q. Priority y \<le> Priority x)"
proof -
  define n where "n = length q - 1"
  have n: "length q = Suc n" using assms(3) by (simp add: n_def)
  obtain q1 where q1: "Swap q 0 n = Inr q1" "length q1 = Suc n" "same_items q q1" "priority_at q1 n = priority_at q 0"
    "\<And>c. c \<noteq> 0 \<Longrightarrow> c \<noteq> n \<Longrightarrow> priority_at q1 c = priority_at q c"
    using Swap_spec [of 0 q n] n by auto
  have "priority_at q1 c \<le> priority_at q1 (parent c)" if "0 < c" "c < n" "parent c \<noteq> 0" for c
    using assms(1) that q1(5) [of c] q1(5) [of "parent c"] parent_less [of c] n
    by (simp add: is_heap_def priority_at_def)
  then have "pq.too_small n 0 q1" by (simp add: pq.too_small_def)
  then obtain q2 k where q2: "heap_down Less Swap n q1 0 = Inr (q2, k)" "pq.ordered n q2" "same_items q1 q2"
    "length q2 = Suc n" "priority_at q2 n = priority_at q1 n"
    using pq.down_ordered [of n 0 q1] q1(2) by (auto simp: Len_def)
  have ne: "q2 \<noteq> []" using q2(4) by auto
  have last: "last q2 = q2 ! n" using q2(4) ne by (simp add: last_conv_nth)
  have pop: "heap_Pop q = Inr ((last q2)\<lparr>Index := - 1\<rparr>, butlast q2)"
    using q1(1) q2(1) n ne by (simp add: heap_Pop_def Len_def Pop_def Let_def)
  have same: "same_items q q2" using q1(3) q2(3) pq.same_trans by blast
  have "is_heap (butlast q2)"
    unfolding is_heap_def
  proof (intro allI impI)
    fix c
    assume c: "0 < c" "c < length (butlast q2)"
    then have "priority_at q2 c \<le> priority_at q2 (parent c)" using q2(2,4) by (simp add: pq.ordered_def)
    then show "Priority (butlast q2 ! c) \<le> Priority (butlast q2 ! parent c)"
      using c parent_less [of c] by (simp add: priority_at_def nth_butlast)
  qed
  moreover have "index_ok (butlast q2)"
    using same assms(2) by (auto simp: same_items_def index_ok_def nth_butlast)
  moreover have "contents q = add_mset (item_of (last q2)) (contents (butlast q2))"
  proof -
    have "contents q = contents (butlast q2 @ [last q2])" using same ne by (simp add: same_items_def)
    then show ?thesis by (simp add: contents_def del: append_butlast_last_id)
  qed
  moreover have "Priority y \<le> Priority (last q2)" if y: "y \<in> set q" for y
  proof -
    obtain c where c: "c < Suc n" "y = q ! c" using y n by (metis in_set_conv_nth)
    then have "priority_at q c \<le> priority_at q 0"
      using pq.ordered_root [of "Suc n" q c] assms(1) ordered_heap [of q] n by simp
    then show ?thesis using c q1(4) q2(5) last by (simp add: priority_at_def)
  qed
  ultimately show ?thesis using pop by auto
qed

text \<open>Pushing an item on a heap whose items know their positions gives such a heap with the item added.\<close>

theorem queue_push:
  assumes "is_heap q" "index_ok q"
  shows "\<exists>q'. heap_Push x q = Inr q' \<and> is_heap q' \<and> index_ok q' \<and> contents q' = add_mset (item_of x) (contents q)"
proof -
  let ?q = "Push x q" and ?n = "length q"
  have keys: "c < ?n \<Longrightarrow> priority_at ?q c = priority_at q c" for c
    by (simp add: priority_at_def Push_def nth_append)
  have "priority_at ?q c \<le> priority_at ?q (parent c)" if "0 < c" "c < ?n" for c
    using assms(1) that keys [of c] keys [of "parent c"] parent_less [of c] by (simp add: is_heap_def priority_at_def)
  moreover have "parent c \<noteq> ?n" if "0 < c" "c < Suc ?n" for c using parent_less [of c] that by auto
  ultimately have "pq.too_large (Suc ?n) ?n ?q" unfolding pq.too_large_def by (metis less_SucE)
  moreover have len: "length ?q = Suc ?n" by (simp add: Push_def)
  ultimately obtain q' where q': "heap_up Less Swap ?q ?n = Inr q'" "pq.ordered (Suc ?n) q'" "same_items ?q q'"
    "length q' = Suc ?n"
    using pq.up_ordered [of "Suc ?n" ?n ?q] by (auto simp: Len_def)
  have "index_ok ?q" using assms(2) by (auto simp: index_ok_def Push_def nth_append less_Suc_eq)
  moreover have "contents ?q = add_mset (item_of x) (contents q)" by (simp add: contents_def Push_def)
  ultimately show ?thesis
    using q' len ordered_heap [of q'] by (auto simp: heap_Push_def Len_def same_items_def Let_def)
qed

definition sample_item :: "nat \<Rightarrow> int \<Rightarrow> nat \<Rightarrow> (nat, int) QueueItem" where
  "sample_item v p i = \<lparr>Value = v, Priority = p, Index = int i\<rparr>"

lemma sample_heap: "is_heap [sample_item 1 9 0, sample_item 2 4 1] \<and> index_ok [sample_item 1 9 0, sample_item 2 4 1]"
  by (auto simp: is_heap_def index_ok_def sample_item_def parent_def less_Suc_eq nth_Cons split: nat.split)

theorem queue_pop_witness:
  "\<exists>x q'. heap_Pop [sample_item 1 9 0, sample_item 2 4 1] = Inr (x, q') \<and> Index x = - 1 \<and> 9 \<le> Priority x"
proof -
  have "is_heap [sample_item 1 9 0, sample_item 2 4 1]" "index_ok [sample_item 1 9 0, sample_item 2 4 1]"
    using sample_heap by auto
  from queue_pop [OF this] show ?thesis by (auto simp: sample_item_def)
qed

theorem queue_push_witness:
  "\<exists>q'. heap_Push (sample_item 3 7 0) [sample_item 1 9 0, sample_item 2 4 1] = Inr q' \<and> is_heap q' \<and>
     contents q' = {#(3, 7), (1, 9), (2, 4)#}"
proof -
  have "is_heap [sample_item 1 9 0, sample_item 2 4 1]" "index_ok [sample_item 1 9 0, sample_item 2 4 1]"
    using sample_heap by auto
  from queue_push [OF this, of "sample_item 3 7 0"] show ?thesis by (auto simp: contents_def item_of_def sample_item_def)
qed

end
