(* ===== verification/Consumer_Retry.thy ===== *)
theory Consumer_Retry
  imports Go_Time
begin

text \<open>
  The retrying consumer (internal/coreinternal/consumerretry: config.go, logs.go): logs are sent to
  the next consumer until it accepts them, refuses them for good, the back-off gives up, or the
  context ends during a wait. The loop may run for ever, so it is a partial function. The next
  consumer, the exponential back-off (package \<open>backoff\<close>) and the outcome of each \<open>select\<close> are parameters;
  logging and tracing are not modelled. The consumers of the tests (testutil.go) are two instances.
\<close>

section \<open>Configuration\<close>

record RetryConfig =
  Enabled :: bool
  InitialInterval :: duration
  MaxInterval :: duration
  MaxElapsedTime :: duration

definition NewDefaultConfig :: RetryConfig where
  "NewDefaultConfig = \<lparr>Enabled = False, InitialInterval = 1 * second, MaxInterval = 30 * second,
     MaxElapsedTime = 5 * minute\<rparr>"

section \<open>Sending with retries\<close>

text \<open>The answer of the next consumer; a retryable error may carry the logs that remain to be sent.\<close>

datatype 'd answer = Accepted | Permanent string | Retryable string "'d option"

text \<open>
  \<^item> \<open>consume n d\<close>: the answer to the \<open>n\<close>-th attempt;
  \<^item> \<open>next_back_off cfg n\<close>: \<open>NextBackOff\<close> after the \<open>n\<close>-th failure, \<open>None\<close> for \<open>backoff.Stop\<close>;
  \<^item> \<open>cancelled n\<close>: the \<open>select\<close> of the \<open>n\<close>-th wait takes \<open>ctx.Done()\<close>.
\<close>

record 'd retry_env =
  consume :: "nat \<Rightarrow> 'd \<Rightarrow> 'd answer"
  next_back_off :: "RetryConfig \<Rightarrow> nat \<Rightarrow> duration option"
  cancelled :: "nat \<Rightarrow> bool"

definition cancel_error :: "string \<Rightarrow> string" where
  "cancel_error e = ''context is cancelled or timed out '' @ e"

text \<open>The result is the returned error and everything that was sent, in order.\<close>

partial_function (option) retryLoop ::
  "'d retry_env \<Rightarrow> RetryConfig \<Rightarrow> nat \<Rightarrow> 'd \<Rightarrow> 'd list \<Rightarrow> (string option \<times> 'd list) option" where
  "retryLoop E cfg n logs sent =
     (case consume E n logs of
        Accepted \<Rightarrow> Some (None, sent @ [logs])
      | Permanent e \<Rightarrow> Some (Some e, sent @ [logs])
      | Retryable e rest \<Rightarrow>
          (let logs' = (case rest of None \<Rightarrow> logs | Some d \<Rightarrow> d)
           in case next_back_off E cfg n of
                None \<Rightarrow> Some (Some e, sent @ [logs])
              | Some delay \<Rightarrow>
                  (if cancelled E n then Some (Some (cancel_error e), sent @ [logs])
                   else retryLoop E cfg (Suc n) logs' (sent @ [logs]))))"

definition ConsumeLogs ::
  "'d retry_env \<Rightarrow> RetryConfig \<Rightarrow> 'd \<Rightarrow> (string option \<times> 'd list) option" where
  "ConsumeLogs E cfg logs =
     (if \<not> Enabled cfg then
        Some (case consume E 0 logs of Accepted \<Rightarrow> None | Permanent e \<Rightarrow> Some e | Retryable e _ \<Rightarrow> Some e, [logs])
      else retryLoop E cfg 0 logs [])"

section \<open>The attempts\<close>

text \<open>The data of the \<open>n\<close>-th attempt, if there is one: what the attempt before it left over.\<close>

fun attempt :: "'d retry_env \<Rightarrow> 'd \<Rightarrow> nat \<Rightarrow> 'd" where
  "attempt E logs 0 = logs"
| "attempt E logs (Suc n) =
     (case consume E n (attempt E logs n) of Retryable e (Some d) \<Rightarrow> d | _ \<Rightarrow> attempt E logs n)"

text \<open>Why the \<open>n\<close>-th attempt is the last one: \<open>Some\<close> of the returned error.\<close>

definition verdict :: "'d retry_env \<Rightarrow> RetryConfig \<Rightarrow> 'd \<Rightarrow> nat \<Rightarrow> string option option" where
  "verdict E cfg logs n =
     (case consume E n (attempt E logs n) of
        Accepted \<Rightarrow> Some None
      | Permanent e \<Rightarrow> Some (Some e)
      | Retryable e _ \<Rightarrow>
          (if next_back_off E cfg n = None then Some (Some e)
           else if cancelled E n then Some (Some (cancel_error e))
           else None))"

definition sent_until :: "'d retry_env \<Rightarrow> 'd \<Rightarrow> nat \<Rightarrow> 'd list" where
  "sent_until E logs n = map (attempt E logs) [0..<n]"

lemma sent_until_Suc: "sent_until E logs (Suc n) = sent_until E logs n @ [attempt E logs n]"
  by (simp add: sent_until_def)

lemma loop_stops:
  "verdict E cfg logs n = Some r \<Longrightarrow>
     retryLoop E cfg n (attempt E logs n) sent = Some (r, sent @ [attempt E logs n])"
  by (subst retryLoop.simps) (auto simp: verdict_def split: answer.splits if_splits option.splits)

lemma loop_continues:
  "verdict E cfg logs n = None \<Longrightarrow>
     retryLoop E cfg n (attempt E logs n) sent = retryLoop E cfg (Suc n) (attempt E logs (Suc n)) (sent @ [attempt E logs n])"
  by (subst retryLoop.simps) (auto simp: verdict_def Let_def split: answer.splits if_splits option.splits)

lemma loop_reaches:
  "(\<And>i. i < n \<Longrightarrow> verdict E cfg logs i = None) \<Longrightarrow>
     retryLoop E cfg 0 logs [] = retryLoop E cfg n (attempt E logs n) (sent_until E logs n)"
proof (induction n)
  case (Suc n)
  then show ?case using loop_continues [of E cfg logs n "sent_until E logs n"] by (simp add: sent_until_Suc)
qed (simp add: sent_until_def)

lemma loop_result:
  assumes "retryLoop E cfg n d sent = Some y"
  shows "\<forall>logs. d = attempt E logs n \<longrightarrow> (\<exists>k\<ge>n. verdict E cfg logs k = Some (fst y))"
proof (rule retryLoop.raw_induct [where P = "\<lambda>E cfg n d sent y.
    \<forall>logs. d = attempt E logs n \<longrightarrow> (\<exists>k\<ge>n. verdict E cfg logs k = Some (fst y))", OF _ assms], intro allI impI)
  fix loop :: "'a retry_env \<Rightarrow> RetryConfig \<Rightarrow> nat \<Rightarrow> 'a \<Rightarrow> 'a list \<Rightarrow> (string option \<times> 'a list) option"
  fix E :: "'a retry_env" and cfg n d sent y logs
  assume IH: "\<And>E cfg n d sent y. loop E cfg n d sent = Some y \<Longrightarrow>
      \<forall>logs. d = attempt E logs n \<longrightarrow> (\<exists>k\<ge>n. verdict E cfg logs k = Some (fst y))"
    and body: "(case consume E n d of
        Accepted \<Rightarrow> Some (None, sent @ [d])
      | Permanent e \<Rightarrow> Some (Some e, sent @ [d])
      | Retryable e rest \<Rightarrow>
          (let logs' = (case rest of None \<Rightarrow> d | Some x \<Rightarrow> x)
           in case next_back_off E cfg n of
                None \<Rightarrow> Some (Some e, sent @ [d])
              | Some delay \<Rightarrow>
                  (if cancelled E n then Some (Some (cancel_error e), sent @ [d])
                   else loop E cfg (Suc n) logs' (sent @ [d])))) = Some y"
    and d: "d = attempt E logs n"
  show "\<exists>k\<ge>n. verdict E cfg logs k = Some (fst y)"
  proof (cases "verdict E cfg logs n")
    case (Some r)
    then have "r = fst y" using body d by (auto simp: verdict_def split: answer.splits if_splits option.splits)
    then show ?thesis using Some by blast
  next
    case None
    then have "loop E cfg (Suc n) (attempt E logs (Suc n)) (sent @ [d]) = Some y"
      using body d by (auto simp: verdict_def Let_def split: answer.splits if_splits option.splits)
    from IH [OF this] obtain k where "k \<ge> Suc n" "verdict E cfg logs k = Some (fst y)" by blast
    then show ?thesis by (intro exI [of _ k]) simp
  qed
qed

section \<open>Properties of the retrying consumer\<close>

lemma retry_iff:
  assumes "Enabled cfg"
  shows "ConsumeLogs E cfg logs = Some (r, sent) \<longleftrightarrow>
    (\<exists>n. verdict E cfg logs n = Some r \<and> (\<forall>i<n. verdict E cfg logs i = None) \<and> sent = sent_until E logs (Suc n))"
proof -
  have first: "retryLoop E cfg 0 logs [] = Some (r', sent_until E logs (Suc n))"
    if "verdict E cfg logs n = Some r'" "\<forall>i<n. verdict E cfg logs i = None" for n r'
    using loop_reaches [of n E cfg logs] loop_stops [OF that(1), of "sent_until E logs n"] that(2)
    by (simp add: sent_until_Suc)
  have "\<exists>n. verdict E cfg logs n = Some r \<and> (\<forall>i<n. verdict E cfg logs i = None) \<and> sent = sent_until E logs (Suc n)"
    if *: "retryLoop E cfg 0 logs [] = Some (r, sent)"
  proof -
    obtain k where "verdict E cfg logs k \<noteq> None" using loop_result [OF *] by force
    then obtain n where n: "verdict E cfg logs n \<noteq> None" "\<forall>i<n. verdict E cfg logs i = None"
      using exists_least_iff [of "\<lambda>n. verdict E cfg logs n \<noteq> None"] by auto
    then obtain r' where r': "verdict E cfg logs n = Some r'" by blast
    from first [OF r' n(2)] * r' n(2) show ?thesis by auto
  qed
  then show ?thesis using first assms by (auto simp: ConsumeLogs_def)
qed

text \<open>C28: With retries enabled, \<open>ConsumeLogs\<close> returns exactly when some attempt is accepted, refused for good, given up by
  the back-off or followed by a cancellation; it then returns the error of the first such attempt, \<open>None\<close> only for an
  accepted one, and has sent one batch per attempt up to it, each the remainder that the attempt before asked for.\<close>

theorem retry_spec:
  assumes "Enabled cfg"
  shows "ConsumeLogs E cfg logs = Some (r, sent) \<longleftrightarrow>
    (\<exists>n. verdict E cfg logs n = Some r \<and> (\<forall>i<n. verdict E cfg logs i = None) \<and> sent = sent_until E logs (Suc n))"
  using assms by (rule retry_iff)

definition sample_retry :: "nat retry_env" where
  "sample_retry = \<lparr>consume = (\<lambda>n d. if n = 0 then Retryable ''busy'' (Some 3) else Accepted),
     next_back_off = (\<lambda>_ _. Some second), cancelled = (\<lambda>_. False)\<rparr>"

theorem retry_spec_witness:
  "ConsumeLogs sample_retry (NewDefaultConfig\<lparr>Enabled := True\<rparr>) 5 = Some (None, [5, 3])"
proof -
  have "verdict sample_retry (NewDefaultConfig\<lparr>Enabled := True\<rparr>) 5 0 = None"
    "verdict sample_retry (NewDefaultConfig\<lparr>Enabled := True\<rparr>) 5 1 = Some None"
    "[5, 3] = sent_until sample_retry 5 (Suc 1)"
    by (simp_all add: verdict_def sample_retry_def sent_until_def)
  then show ?thesis
    using retry_spec [of "NewDefaultConfig\<lparr>Enabled := True\<rparr>" sample_retry 5 None "[5, 3]"]
    by (auto simp: less_Suc_eq)
qed

text \<open>A back-off that gives up at some point, which is what a positive maximal elapsed time asks for, makes the call return.\<close>

lemma retry_returns:
  assumes "next_back_off E cfg n = None"
  shows "\<exists>r. ConsumeLogs E cfg logs = Some r"
proof (cases "Enabled cfg")
  case True
  have "verdict E cfg logs n \<noteq> None" using assms by (auto simp: verdict_def split: answer.split)
  then obtain k where "verdict E cfg logs k \<noteq> None" "\<forall>i<k. verdict E cfg logs i = None"
    using exists_least_iff [of "\<lambda>n. verdict E cfg logs n \<noteq> None"] by auto
  then show ?thesis using retry_iff [OF True] by (metis not_None_eq)
qed (simp add: ConsumeLogs_def)

text \<open>A consumer that always asks for more keeps the loop running for ever without a limit of the elapsed time.\<close>

lemma retry_for_ever:
  "Enabled cfg \<Longrightarrow> (\<And>n. verdict E cfg logs n = None) \<Longrightarrow> ConsumeLogs E cfg logs = None"
  by (metis not_None_eq old.prod.exhaust option.distinct(1) retry_iff)

section \<open>Two consumers of the tests\<close>

text \<open>
  The mocks of testutil.go: one rejects a number of attempts and then accepts, the other accepts the first
  resource of a batch and returns the rest. The data is the list of resources; \<open>delivered\<close> is what an attempt
  puts into the sink.
\<close>

definition mock_logs_rejecter :: "int \<Rightarrow> nat \<Rightarrow> 'r list \<Rightarrow> 'r list answer" where
  "mock_logs_rejecter acceptAfter n logs =
     (if acceptAfter < 0 then Permanent ''permanent error''
      else if int n < acceptAfter then Retryable ''retry later'' None
      else Accepted)"

definition partial_rejecter :: "nat \<Rightarrow> 'r list \<Rightarrow> 'r list answer" where
  "partial_rejecter n logs =
     (if length logs \<le> 1 then Accepted else Retryable ''partial error'' (Some (drop 1 logs)))"

definition partial_delivered :: "'r list \<Rightarrow> 'r list" where
  "partial_delivered logs = (if length logs \<le> 1 then logs else take 1 logs)"

definition granted :: "'r retry_env \<Rightarrow> RetryConfig \<Rightarrow> nat \<Rightarrow> bool" where
  "granted E cfg i \<longleftrightarrow> next_back_off E cfg i \<noteq> None \<and> \<not> cancelled E i"

lemma granted_continues:
  "consume E i (attempt E logs i) = Retryable e d \<Longrightarrow> granted E cfg i \<Longrightarrow> verdict E cfg logs i = None"
  by (simp add: granted_def verdict_def)

text \<open>As long as the waits are granted, the mock that rejects is sent the same logs until it accepts them.\<close>

lemma rejected_until_accepted:
  assumes "Enabled cfg" "consume E = mock_logs_rejecter a" "0 \<le> a"
    "\<And>i. i < nat a \<Longrightarrow> granted E cfg i"
  shows "ConsumeLogs E cfg logs = Some (None, replicate (Suc (nat a)) logs)"
proof -
  have same: "attempt E logs n = logs" for n
    by (induction n) (auto simp: assms(2) mock_logs_rejecter_def)
  have "verdict E cfg logs (nat a) = Some None"
    using assms(3) by (simp add: verdict_def same assms(2) mock_logs_rejecter_def)
  moreover have "\<forall>i<nat a. verdict E cfg logs i = None"
    using assms(3,4) by (auto intro!: granted_continues simp: same assms(2) mock_logs_rejecter_def)
  moreover have "sent_until E logs (Suc (nat a)) = replicate (Suc (nat a)) logs"
  proof -
    have "attempt E logs = (\<lambda>_. logs)" by (rule ext) (rule same)
    then show ?thesis by (simp add: sent_until_def map_replicate_const del: upt_Suc replicate_Suc)
  qed
  ultimately show ?thesis using retry_iff [OF assms(1), of E logs None] by metis
qed

lemma refused_for_good:
  "Enabled cfg \<Longrightarrow> consume E = mock_logs_rejecter a \<Longrightarrow> a < 0 \<Longrightarrow>
     ConsumeLogs E cfg logs = Some (Some ''permanent error'', [logs])"
  by (subst ConsumeLogs_def, subst retryLoop.simps) (simp add: mock_logs_rejecter_def)

text \<open>
  A batch that is accepted piece by piece is delivered whole: the call succeeds, and what the sink received,
  attempt by attempt, is the batch, every resource once and in order.
\<close>

lemma partial_attempt: "consume E = partial_rejecter \<Longrightarrow> k < length logs \<Longrightarrow> attempt E logs k = drop k logs"
proof (induction k)
  case (Suc k)
  then have "attempt E logs k = drop k logs" "\<not> length (drop k logs) \<le> 1" by simp_all
  with Suc.prems(1) show ?case by (simp add: partial_rejecter_def)
qed simp

lemma delivered_pieces:
  "k < length logs \<Longrightarrow> concat (map (\<lambda>i. partial_delivered (drop i logs)) [0..<k]) = take k logs"
proof (induction k)
  case (Suc k)
  then have "partial_delivered (drop k logs) = [logs ! k]"
    by (simp add: partial_delivered_def take_Suc hd_drop_conv_nth Cons_nth_drop_Suc [symmetric])
  with Suc show ?case by (simp add: take_Suc_conv_app_nth)
qed simp

lemma partial_batches_delivered:
  assumes "Enabled cfg" "consume E = partial_rejecter"
    "\<And>i. Suc i < length logs \<Longrightarrow> granted E cfg i"
  shows "\<exists>sent. ConsumeLogs E cfg logs = Some (None, sent) \<and> concat (map partial_delivered sent) = logs"
proof (cases "logs = []")
  case True
  have "ConsumeLogs E cfg logs = Some (None, [logs])"
    using assms(1,2) True by (subst ConsumeLogs_def, subst retryLoop.simps) (simp add: partial_rejecter_def)
  with True show ?thesis by (simp add: partial_delivered_def)
next
  case False
  define n where "n = length logs - 1"
  have n: "length logs = Suc n" using False by (simp add: n_def)
  have last: "attempt E logs n = drop n logs" "length (drop n logs) = 1"
    using partial_attempt [OF assms(2), of n logs] n by simp_all
  then have "verdict E cfg logs n = Some None" by (simp add: verdict_def assms(2) partial_rejecter_def)
  moreover have "\<forall>i<n. verdict E cfg logs i = None"
    using assms(3) n by (auto intro!: granted_continues simp: partial_attempt [OF assms(2)] assms(2) partial_rejecter_def)
  ultimately have "ConsumeLogs E cfg logs = Some (None, sent_until E logs (Suc n))"
    using retry_iff [OF assms(1), of E logs None] by metis
  moreover have "concat (map partial_delivered (sent_until E logs (Suc n))) = logs"
  proof -
    have "map partial_delivered (sent_until E logs n) = map (\<lambda>i. partial_delivered (drop i logs)) [0..<n]"
      using n by (simp add: sent_until_def partial_attempt [OF assms(2)])
    then have "concat (map partial_delivered (sent_until E logs n)) = take n logs"
      using delivered_pieces [of n logs] n by simp
    moreover have "partial_delivered (attempt E logs n) = drop n logs" using last by (simp add: partial_delivered_def)
    ultimately show ?thesis by (simp add: sent_until_Suc)
  qed
  ultimately show ?thesis by blast
qed

end
