(* ===== verification/Parse_Utils.thy ===== *)
theory Parse_Utils
  imports Go_Strings
begin

text \<open>
  Small string libraries: splitting that respects quotes and parsing of key-value pairs
  (internal/coreinternal/parseutils/parser.go), merging of maps (internal/common/maps/maps.go), and
  the removal of line breaks from texts that are logged (internal/common/sanitize/url.go).
\<close>

section \<open>SplitString\<close>

text \<open>\<open>string(b)\<close> of a byte is the UTF-8 encoding of the code point with that number.\<close>

definition string_of_byte :: "char \<Rightarrow> string" where
  "string_of_byte c =
     (let n = of_char c :: nat
      in if n < 128 then [c] else [char_of (192 + n div 64), char_of (128 + n mod 64)])"

text \<open>The rest of the input, the pieces so far, the current piece, the open quote and whether the last
  character was a backslash. An empty delimiter is found without progress, for ever.\<close>

partial_function (option) splitLoop ::
  "string \<Rightarrow> string \<Rightarrow> string list \<Rightarrow> string \<Rightarrow> char option \<Rightarrow> bool \<Rightarrow> (string + string list) option" where
  "splitLoop delimiter input result current quoteChar escaped =
     (case input of
        [] \<Rightarrow>
          Some (if quoteChar \<noteq> None then Inl ''never reached the end of a quoted value''
                else if current \<noteq> [] then Inr (result @ [current])
                else Inr result)
      | c # cs \<Rightarrow>
          (if quoteChar = None \<and> has_prefix input delimiter then
             (if current = [] then splitLoop delimiter (drop (length delimiter) input) result current quoteChar escaped
              else splitLoop delimiter (drop (length delimiter) input) (result @ [current]) [] quoteChar escaped)
           else if \<not> escaped \<and> quoteChar = None \<and> (c = CHR 0x22 \<or> c = CHR 0x27) then
             splitLoop delimiter cs result current (Some c) escaped
           else if \<not> escaped \<and> quoteChar = Some c then
             splitLoop delimiter cs result current None escaped
           else
             splitLoop delimiter cs result (current @ string_of_byte c) quoteChar
               (\<not> escaped \<and> c = CHR 0x5C)))"

definition SplitString :: "string \<Rightarrow> string \<Rightarrow> (string + string list) option" where
  "SplitString input delimiter = splitLoop delimiter input [] [] None False"

section \<open>ParseKeyValuePairs\<close>

text \<open>\<open>strings.SplitN(s, sep, 2)\<close>.\<close>

definition split2 :: "string \<Rightarrow> string \<Rightarrow> string list" where
  "split2 s sep =
     (if sep = [] then
        (if s = [] then [] else if length s \<le> rune_width s then [s] else [take (rune_width s) s, drop (rune_width s) s])
      else case str_index sep s of
        None \<Rightarrow> [s]
      | Some i \<Rightarrow> [take i s, drop (i + length sep) s])"

text \<open>The map and, for each string that has no two parts, the string and the number of its parts.\<close>

fun parsePairs :: "string \<Rightarrow> string list \<Rightarrow> (string, string) gomap \<Rightarrow> (string \<times> nat) list
    \<Rightarrow> (string, string) gomap \<times> (string \<times> nat) list" where
  "parsePairs delimiter [] parsed err = (parsed, err)"
| "parsePairs delimiter (p # ps) parsed err =
     (let pair = split2 p delimiter
      in if length pair \<noteq> 2 then parsePairs delimiter ps parsed (err @ [(p, length pair)])
         else parsePairs delimiter ps (AList.update (trim_space (pair ! 0)) (trim_space (pair ! 1)) parsed) err)"

definition ParseKeyValuePairs :: "string list \<Rightarrow> string \<Rightarrow> (string, string) gomap \<times> (string \<times> nat) list" where
  "ParseKeyValuePairs pairs delimiter = parsePairs delimiter pairs [] []"

section \<open>Maps and sanitizing\<close>

text \<open>\<open>maps.Copy\<close> ranges over the source in an unspecified order.\<close>

definition copy_into :: "nat list \<Rightarrow> ('k, 'v) gomap \<Rightarrow> ('k, 'v) gomap \<Rightarrow> ('k, 'v) gomap" where
  "copy_into order src dst = foldl (\<lambda>d (k, x). AList.update k x d) dst (shuffle order src)"

definition MergeRawMaps :: "(nat list \<times> ('k, 'v) gomap) list \<Rightarrow> ('k, 'v) gomap" where
  "MergeRawMaps maps = foldl (\<lambda>ret (order, mm). copy_into order mm ret) [] maps"

definition MergeStringMaps :: "(nat list \<times> (string, string) gomap) list \<Rightarrow> (string, string) gomap" where
  "MergeStringMaps maps = foldl (\<lambda>ret (order, mm). copy_into order mm ret) [] maps"

definition CloneStringMap :: "nat list \<Rightarrow> (string, string) gomap \<Rightarrow> (string, string) gomap" where
  "CloneStringMap order mm = copy_into order mm []"

text \<open>\<open>strings.ReplaceAll(s, c, "")\<close> for a single byte.\<close>

definition remove_byte :: "char \<Rightarrow> string \<Rightarrow> string" where
  "remove_byte c s = filter (\<lambda>b. b \<noteq> c) s"

definition String :: "string \<Rightarrow> string" where
  "String unsanitized = remove_byte (CHR 0x0D) (remove_byte (CHR 0x0A) unsanitized)"

text \<open>The same for an address, given the text of \<open>net/url\<close>.\<close>

definition URL :: "('u \<Rightarrow> string) \<Rightarrow> 'u \<Rightarrow> string" where
  "URL text unsanitized = remove_byte (CHR 0x0D) (remove_byte (CHR 0x0A) (text unsanitized))"

section \<open>Splitting\<close>

definition plain :: "string \<Rightarrow> string \<Rightarrow> bool" where
  "plain d p \<longleftrightarrow> list_all (\<lambda>c. of_char c < (128 :: nat) \<and> c \<noteq> CHR 0x22 \<and> c \<noteq> CHR 0x27 \<and> c \<noteq> CHR 0x5C \<and> c \<noteq> hd d) p"

lemma not_prefix: "d \<noteq> [] \<Longrightarrow> c \<noteq> hd d \<Longrightarrow> \<not> has_prefix (c # cs) d"
  by (cases d) (auto simp: has_prefix_def)

lemma split_plain:
  "d \<noteq> [] \<Longrightarrow> plain d p \<Longrightarrow> splitLoop d (p @ rest) res cur None False = splitLoop d rest res (cur @ p) None False"
proof (induction p arbitrary: cur)
  case (Cons c p)
  then have "splitLoop d ((c # p) @ rest) res cur None False = splitLoop d (p @ rest) res (cur @ [c]) None False"
    by (subst splitLoop.simps) (auto simp: not_prefix plain_def string_of_byte_def)
  then show ?case using Cons by (simp add: plain_def)
qed simp

lemma split_delimiter:
  "d \<noteq> [] \<Longrightarrow> cur \<noteq> [] \<Longrightarrow> splitLoop d (d @ rest) res cur None False = splitLoop d rest (res @ [cur]) [] None False"
proof -
  assume "d \<noteq> []" "cur \<noteq> []"
  moreover obtain c cs where "d = c # cs" using \<open>d \<noteq> []\<close> by (cases d) auto
  moreover have "has_prefix (c # cs @ rest) (c # cs)" using has_prefix_append [of "c # cs" rest] by simp
  ultimately show ?thesis by (subst splitLoop.simps) simp
qed

lemma split_end: "splitLoop d [] res cur None False = Some (Inr (if cur = [] then res else res @ [cur]))"
  by (subst splitLoop.simps) simp

lemma split_join:
  assumes "d \<noteq> []" "list_all (\<lambda>p. plain d p \<and> p \<noteq> []) ps"
  shows "splitLoop d (join d ps) res [] None False = Some (Inr (res @ ps))"
  using assms(2)
proof (induction ps arbitrary: res rule: induct_list012)
  case 1
  then show ?case by (simp add: split_end)
next
  case (2 p)
  then show ?case using split_plain [of d p "[]"] assms(1) by (simp add: split_end)
next
  case (3 p q ps)
  have "splitLoop d (p @ d @ join d (q # ps)) res [] None False = splitLoop d (join d (q # ps)) (res @ [p]) [] None False"
    using split_plain [of d p "d @ join d (q # ps)"] split_delimiter [of d p] assms(1) 3(3) by simp
  then show ?case using 3 by simp
qed

lemma split_returns: "d \<noteq> [] \<Longrightarrow> \<exists>r. splitLoop d input res cur q esc = Some r"
proof (induction "length input" arbitrary: input res cur q esc rule: less_induct)
  case less
  show ?case
  proof (cases input)
    case Nil
    then show ?thesis by (subst splitLoop.simps) simp
  next
    case (Cons c cs)
    have shorter: "length (drop (length d) input) < length input" "length cs < length input"
      using Cons less.prems by simp_all
    show ?thesis
      using less.hyps [OF shorter(1) less.prems] less.hyps [OF shorter(2) less.prems] Cons
      by (subst splitLoop.simps) simp
  qed
qed

text \<open>The documented condition on the delimiter is needed: an empty one is never left behind.\<close>

lemma empty_delimiter_diverges:
  assumes "input \<noteq> []"
  shows "SplitString input [] = None"
proof -
  have "\<not> (d = [] \<and> s \<noteq> [] \<and> cur = [] \<and> q = None)" if "splitLoop d s res cur q esc = Some y" for d s res cur q esc y
    by (rule splitLoop.raw_induct [where P = "\<lambda>d s res cur q esc y. \<not> (d = [] \<and> s \<noteq> [] \<and> cur = [] \<and> q = None)", OF _ that])
       (auto simp: has_prefix_def split: list.splits if_splits, blast)
  then show ?thesis using assms unfolding SplitString_def by (cases "splitLoop [] input [] [] None False") blast+
qed

text \<open>A byte outside ASCII is copied as the code point with its number: the two bytes of an accented letter become four.\<close>

lemma split_garbles_utf8:
  "SplitString [CHR 0xC3, CHR 0xA9] '','' = Some (Inr [[CHR 0xC3, CHR 0x83, CHR 0xC2, CHR 0xA9]])"
proof -
  have bytes: "string_of_byte (CHR 0xC3) = [CHR 0xC3, CHR 0x83]" "string_of_byte (CHR 0xA9) = [CHR 0xC2, CHR 0xA9]"
    by code_simp+
  have "SplitString [CHR 0xC3, CHR 0xA9] '','' = splitLoop '','' [CHR 0xA9] [] [CHR 0xC3, CHR 0x83] None False"
    unfolding SplitString_def by (subst splitLoop.simps) (simp add: has_prefix_def bytes)
  also have "\<dots> = splitLoop '','' [] [] [CHR 0xC3, CHR 0x83, CHR 0xC2, CHR 0xA9] None False"
    by (subst splitLoop.simps) (simp add: has_prefix_def bytes)
  finally show ?thesis by (simp add: split_end)
qed

section \<open>Pairs\<close>

lemma str_index_hd:
  "sep \<noteq> [] \<Longrightarrow> hd sep \<notin> set k \<Longrightarrow> str_index sep (k @ sep @ x) = Some (length k)"
proof (induction k)
  case Nil
  then show ?case by (cases sep) (simp_all add: has_prefix_append [of "_ # _", simplified])
next
  case (Cons c k)
  then show ?case using not_prefix [of sep c] by auto
qed

lemma split2_pair: "sep \<noteq> [] \<Longrightarrow> hd sep \<notin> set k \<Longrightarrow> split2 (k @ sep @ x) sep = [k, x]"
  using str_index_hd [of sep k x] by (simp add: split2_def)

definition pair_text :: "string \<Rightarrow> string \<times> string \<Rightarrow> string" where
  "pair_text sep = (\<lambda>(k, x). k @ sep @ x)"

definition pair_ok :: "string \<Rightarrow> string \<times> string \<Rightarrow> bool" where
  "pair_ok sep = (\<lambda>(k, x). hd sep \<notin> set k \<and> trim_space k = k \<and> trim_space x = x)"

lemma parsePairs_map:
  assumes "sep \<noteq> []" "list_all (pair_ok sep) kvs"
  shows "parsePairs sep (map (pair_text sep) kvs) parsed err = (foldl (\<lambda>d (k, x). AList.update k x d) parsed kvs, err)"
  using assms(2) by (induction kvs arbitrary: parsed) (auto simp: pair_text_def pair_ok_def split2_pair [OF assms(1)])

lemma map_of_fold_update: "map_of (foldl (\<lambda>d (k, x). AList.update k x d) a kvs) = map_of a ++ map_of (rev kvs)"
  by (induction kvs arbitrary: a) (auto simp: map_add_def fun_eq_iff split: option.split)



text \<open>Merging overrides from left to right, in any order of the iterations, and sanitized texts have no line breaks.\<close>

lemma copy_into_map_of: "gomap_ok src \<Longrightarrow> map_of (copy_into order src dst) = map_of dst ++ map_of src"
proof -
  assume ok: "gomap_ok src"
  have rev: "map_of (rev kvs) = map_of kvs" if "gomap_ok kvs" for kvs :: "('a, 'b) gomap"
    using that by (subst map_of_inject_set) (simp_all add: gomap_ok_def rev_map [symmetric])
  show ?thesis using ok by (simp add: copy_into_def map_of_fold_update rev)
qed

lemma merge_maps:
  "list_all (\<lambda>(_, mm). gomap_ok mm) maps \<Longrightarrow>
     map_of (MergeRawMaps maps) = foldl (++) Map.empty (map (\<lambda>(_, mm). map_of mm) maps)"
proof -
  assume ok: "list_all (\<lambda>(_, mm). gomap_ok mm) maps"
  have "map_of (foldl (\<lambda>ret (order, mm). copy_into order mm ret) a maps) =
      foldl (++) (map_of a) (map (\<lambda>(_, mm). map_of mm) maps)" for a
    using ok by (induction maps arbitrary: a) (auto simp: copy_into_map_of)
  from this [of "[]"] show ?thesis by (simp add: MergeRawMaps_def)
qed

lemma sanitized: "set (String s) = set s - {CHR 0x0A, CHR 0x0D}" "String (String s) = String s"
  by (auto simp: String_def remove_byte_def intro!: filter_cong)

end
