(* ===== verification/Go_Lines.thy ===== *)
theory Go_Lines
  imports Go_Path
begin

text \<open>
  Lines of texts: the scanner of package \<open>bufio\<close> that reads them, and lemmas on trimming, searching
  and on lines that are written and read back.
\<close>

abbreviation newline :: char where
  "newline \<equiv> CHR 0x0A"

section \<open>Lines\<close>

text \<open>
  \<open>bufio.Scanner\<close> with \<open>ScanLines\<close>: the lines without their terminator, up to the first one that
  does not fit into the scanner's buffer; the flag says whether there was such a line.
\<close>

definition maxToken :: nat where
  "maxToken = 65536"

definition raw_lines :: "string \<Rightarrow> string list" where
  "raw_lines s = (let ls = split_on newline s in if last ls = [] then butlast ls else ls)"

definition drop_cr :: "string \<Rightarrow> string" where
  "drop_cr l = trim_suffix l [CHR 0x0D]"

fun scan :: "string list \<Rightarrow> string list \<times> bool" where
  "scan [] = ([], False)"
| "scan (l # ls) =
     (if maxToken \<le> length l then ([], True)
      else case scan ls of (ts, long) \<Rightarrow> (drop_cr l # ts, long))"

definition scan_lines :: "string \<Rightarrow> string list \<times> bool" where
  "scan_lines s = scan (raw_lines s)"

section \<open>Trimming and searching\<close>

lemma graphic_left: "s \<noteq> [] \<Longrightarrow> graphic (hd s) \<Longrightarrow> strip_all n space_runes s = s"
  using graphic_prefix [of s] space_runes_ends by (intro strip_all_id) blast

lemma strip_one_Some: "strip_one rs s = Some t \<Longrightarrow> \<exists>r\<in>set rs. has_prefix s r \<and> t = drop (length r) s"
  by (auto simp: strip_one_def find_Some_iff split: option.splits)

lemma strip_keeps:
  assumes "u \<noteq> []" "graphic (hd u)" "\<And>r. r \<in> set rs \<Longrightarrow> r \<noteq> [] \<and> (\<forall>c\<in>set r. \<not> graphic c)"
  shows "\<exists>t. strip_all n rs (t0 @ u) = t @ u"
proof (induction n arbitrary: t0)
  case (Suc n)
  have "\<exists>t. drop (length r) (t0 @ u) = t @ u" if "r \<in> set rs" "has_prefix (t0 @ u) r" for r
  proof -
    from that obtain v where v: "t0 @ u = r @ v" by (auto simp: has_prefix_iff)
    have "length r \<le> length t0"
    proof (rule ccontr)
      assume long: "\<not> length r \<le> length t0"
      have "r ! length t0 = (t0 @ u) ! length t0" using v long by (simp add: nth_append)
      also have "\<dots> = hd u" using assms(1) by (simp add: nth_append hd_conv_nth)
      finally have "hd u \<in> set r" using long by (metis not_le nth_mem)
      with assms(2) assms(3) [OF that(1)] show False by blast
    qed
    then show ?thesis by simp
  qed
  note drop_ex = this
  show ?case
  proof (cases "strip_one rs (t0 @ u)")
    case (Some t1)
    with drop_ex strip_one_Some [OF Some] obtain t where "t1 = t @ u" by blast
    with Some Suc show ?thesis by simp
  qed auto
qed auto

lemma space_runes_blank: "r \<in> set space_runes \<Longrightarrow> r \<noteq> [] \<and> (\<forall>c\<in>set r. \<not> graphic c)"
  by (auto simp: space_runes_def graphic_def)

text \<open>Trimming keeps a part that starts and ends with graphic characters.\<close>

lemma trim_keeps:
  assumes "u \<noteq> []" "graphic (hd u)" "graphic (last u)"
  shows "\<exists>t. trim_space (u @ v) = u @ t"
proof -
  have "\<exists>t. strip_all (length (u @ v)) (map rev space_runes) (rev v @ rev u) = t @ rev u"
    using assms space_runes_blank by (intro strip_keeps) (auto simp: hd_rev)
  then show ?thesis
    using assms graphic_left [of "u @ v" "length (u @ v)"] by (auto simp: trim_space_def Let_def)
qed

lemma trim_prefix_keeps: "u \<noteq> [] \<Longrightarrow> graphic (hd u) \<Longrightarrow> graphic (last u) \<Longrightarrow> has_prefix (trim_space (u @ v)) u"
  using trim_keeps [of u v] by (auto simp: has_prefix_iff)


lemma space_runes_ascii:
  "r \<in> set space_runes \<Longrightarrow> of_char (hd r) < (128 :: nat) \<or> of_char (last r) < (128 :: nat) \<Longrightarrow> r = [hd r]"
  by (auto simp: space_runes_def)

lemma space_runes_blanks: "[CHR '' ''] \<in> set space_runes" "[CHR 0x0A] \<in> set space_runes"
proof -
  have "char_of (32 :: nat) = CHR '' ''" "char_of (10 :: nat) = CHR 0x0A" by code_simp+
  then show "[CHR '' ''] \<in> set space_runes" "[CHR 0x0A] \<in> set space_runes"
    unfolding space_runes_def by simp_all
qed

lemma strip_one_head:
  assumes "[c] \<in> set rs" "\<And>r. r \<in> set rs \<Longrightarrow> r \<noteq> [] \<and> (hd r = c \<longrightarrow> r = [c])"
  shows "strip_one rs (c # s) = Some s"
proof (cases "strip_one rs (c # s)")
  case None
  then have "\<not> has_prefix (c # s) [c]"
    using assms(1) by (auto simp: strip_one_def find_None_iff split: option.splits)
  then show ?thesis by (simp add: has_prefix_def)
next
  case (Some t)
  from strip_one_Some [OF this] obtain r where r: "r \<in> set rs" "has_prefix (c # s) r" "t = drop (length r) (c # s)"
    by blast
  with assms(2) [of r] have "r = [c]" by (cases r) (auto simp: has_prefix_iff)
  with r Some show ?thesis by simp
qed

lemma strip_one_space: "c \<in> {CHR '' '', CHR 0x0A} \<Longrightarrow> strip_one space_runes (c # s) = Some s"
proof (rule strip_one_head)
  assume c: "c \<in> {CHR '' '', CHR 0x0A}"
  then show "[c] \<in> set space_runes" using space_runes_blanks by auto
  fix r assume r: "r \<in> set space_runes"
  then have "r = [c]" if "hd r = c" using space_runes_ascii [OF r] c that by auto
  with space_runes_ends [OF r] show "r \<noteq> [] \<and> (hd r = c \<longrightarrow> r = [c])" by blast
qed

lemma strip_one_space_rev: "c \<in> {CHR '' '', CHR 0x0A} \<Longrightarrow> strip_one (map rev space_runes) (c # s) = Some s"
proof (rule strip_one_head)
  assume c: "c \<in> {CHR '' '', CHR 0x0A}"
  have "rev [c] \<in> set (map rev space_runes)" using c space_runes_blanks by auto
  then show "[c] \<in> set (map rev space_runes)" by simp
  fix r assume "r \<in> set (map rev space_runes)"
  then obtain q where q: "q \<in> set space_runes" "r = rev q" by auto
  with space_runes_ends [of q] have "q \<noteq> []" by blast
  moreover have "q = [c]" if "last q = c"
  proof -
    have "q = [hd q]" using space_runes_ascii [OF q(1)] c that by auto
    with that show ?thesis by (metis last_ConsL)
  qed
  ultimately show "r \<noteq> [] \<and> (hd r = c \<longrightarrow> r = [c])"
    unfolding q(2) by (metis hd_rev rev_is_Nil_conv rev_singleton_conv)
qed

lemma trim_space_front: "graphic (hd s) \<Longrightarrow> graphic (last s) \<Longrightarrow> s \<noteq> [] \<Longrightarrow> trim_space (CHR '' '' # s) = s"
  using trim_graphic [of s] graphic_left [of s "length s"]
  by (simp add: trim_space_def Let_def strip_one_space)

lemma trim_space_back:
  assumes "graphic (hd s)" "graphic (last s)" "s \<noteq> []" "c \<in> {CHR '' '', CHR 0x0A}"
  shows "trim_space (s @ [c]) = s"
proof -
  have "strip_all (length s) (map rev space_runes) (rev s) = rev s"
    using assms(1-3) graphic_prefix [of "rev s"] space_runes_ends
    by (intro strip_all_id) (fastforce simp: hd_rev)
  then show ?thesis
    using assms graphic_left [of "s @ [c]" "length (s @ [c])"]
    by (simp add: trim_space_def Let_def strip_one_space_rev [OF assms(4)])
qed

lemma contains_iff: "contains s sub \<longleftrightarrow> (\<exists>u v. s = u @ sub @ v)"
proof
  assume "contains s sub"
  then show "\<exists>u v. s = u @ sub @ v" using str_index_Some by (fastforce simp: contains_def)
next
  have "str_index sub (u @ sub @ v) \<noteq> None" for u v
    by (induction u) (cases sub; cases v; auto simp: has_prefix_def)+
  then show "\<exists>u v. s = u @ sub @ v \<Longrightarrow> contains s sub" by (auto simp: contains_def)
qed

lemma contains_skip:
  "sub \<noteq> [] \<Longrightarrow> hd sub \<notin> set u \<Longrightarrow> contains (u @ s) sub = contains s sub"
proof (induction u)
  case (Cons c u)
  then have "\<not> has_prefix (c # u @ s) sub" by (cases sub) (auto simp: has_prefix_iff)
  with Cons show ?case by (simp add: contains_def)
qed simp

section \<open>Lines written and read\<close>

definition unlines :: "string list \<Rightarrow> string" where
  "unlines ls = concat (map (\<lambda>l. l @ [newline]) ls)"

definition is_line :: "string \<Rightarrow> bool" where
  "is_line l \<longleftrightarrow> newline \<notin> set l"

lemma unlines_simps [simp]: "unlines [] = []" "unlines (l # ls) = l @ newline # unlines ls"
  "unlines (ls @ ls') = unlines ls @ unlines ls'"
  by (simp_all add: unlines_def)

lemma split_unlines: "list_all is_line ls \<Longrightarrow> split_on newline (unlines ls @ s) = ls @ split_on newline s"
  by (induction ls) (auto simp: is_line_def split_on_append_sep)

lemma raw_unlines: "list_all is_line ls \<Longrightarrow> raw_lines (unlines ls @ s) = ls @ raw_lines s"
  by (simp add: raw_lines_def Let_def split_unlines butlast_append)

lemma raw_unlines_only: "list_all is_line ls \<Longrightarrow> raw_lines (unlines ls) = ls"
  using raw_unlines [of ls "[]"] by (simp add: raw_lines_def)

lemma raw_is_line: "list_all is_line (raw_lines s)"
  using split_on_no_sep [of _ newline s]
  by (auto simp: list_all_iff is_line_def raw_lines_def Let_def dest: in_set_butlastD)

lemma scan_short: "list_all (\<lambda>l. length l < maxToken) ls \<Longrightarrow> scan ls = (map drop_cr ls, False)"
  by (induction ls) auto

lemma scan_short_iff: "snd (scan ls) = False \<longleftrightarrow> list_all (\<lambda>l. length l < maxToken) ls"
  by (induction ls) (auto split: prod.splits)

lemma drop_cr_id: "last l \<noteq> CHR 0x0D \<Longrightarrow> drop_cr l = l"
  by (auto simp: drop_cr_def trim_suffix_def has_suffix_iff)

lemma drop_cr_le: "length (drop_cr l) \<le> length l"
  by (simp add: drop_cr_def trim_suffix_def)

lemma drop_cr_is_line: "is_line l \<Longrightarrow> is_line (drop_cr l)"
  by (auto simp: drop_cr_def trim_suffix_def is_line_def dest: in_set_takeD)

lemma scan_fst: "set (fst (scan ls)) \<subseteq> drop_cr ` {l \<in> set ls. length l < maxToken}"
  by (induction ls) (auto split: prod.splits)

end
