(* ===== verification/Nr_Header.thy ===== *)
theory Nr_Header
  imports Go_Lines
begin

text \<open>
  The license headers of the checker command (cmd/nrlicense/header.go): what a header is, how it is
  found in a file, generated, applied and checked. A file's content is a byte string. The file
  system is the record \<open>files\<close> of the operating system's calls, and \<open>L\<close> stands for \<open>strings.ToLower\<close> and
  \<open>bytes.ToLower\<close>, which need the Unicode tables: they map rune by rune, so that an ASCII part of a string
  becomes its \<open>ascii_lower\<close> whatever stands around it (\<open>lower_laws\<close>).
\<close>

datatype license_error =
    OsError string
  | TooLong
  | UnknownStatus
  | OutsideRepo string
  | GitError string
  | In string license_error

record 's files =
  stat_file :: "'s \<Rightarrow> string \<Rightarrow> string option"
  read_bytes :: "'s \<Rightarrow> string \<Rightarrow> string + string"
  write_bytes :: "string \<Rightarrow> string \<Rightarrow> 's \<Rightarrow> string option \<times> 's"

definition lower_laws :: "(string \<Rightarrow> string) \<Rightarrow> bool" where
  "lower_laws L \<longleftrightarrow> L [] = [] \<and>
     (\<forall>u a v. is_ascii a \<and> a \<noteq> [] \<longrightarrow> L (u @ a @ v) = L u @ ascii_lower a @ L v)"

section \<open>Comments\<close>

text \<open>The first component is the opening delimiter, the last the closing one; both are always empty.\<close>

definition getCommentPrefix :: "string \<Rightarrow> string \<times> string \<times> string" where
  "getCommentPrefix filename =
     (let ext = unix_ext filename
      in if ext \<in> {''.go'', ''.proto''} then ([], ''// '', [])
         else if ext \<in> {''.sh'', ''.bash'', ''.zsh'', ''.yaml'', ''.yml''} then ([], ''# '', [])
         else ([], ''// '', []))"

definition getCommentStyle :: "string \<Rightarrow> string" where
  "getCommentStyle ext =
     (case getCommentPrefix (''file'' @ ext) of (_, mid, _) \<Rightarrow> if mid = [] then ''//'' else trim_space mid)"

definition isCommentLine :: "string \<Rightarrow> string \<Rightarrow> bool" where
  "isCommentLine line ext =
     (let trimmed = trim_space line
      in if ext \<in> {''.go'', ''.proto''} then
           has_prefix trimmed ''//'' \<or> has_prefix trimmed ''/*'' \<or> has_prefix trimmed ''*''
         else if ext \<in> {''.sh'', ''.yaml'', ''.yml''} then has_prefix trimmed ''#''
         else has_prefix trimmed ''//'' \<or> has_prefix trimmed ''#'')"

definition isEmptyOrEmptyComment :: "string \<Rightarrow> string \<Rightarrow> bool" where
  "isEmptyOrEmptyComment line ext =
     (case getCommentPrefix ext of (_, pre, _) \<Rightarrow> trim_prefix (trim_space line) (trim_space pre) = [])"

definition containsCopyright :: "(string \<Rightarrow> string) \<Rightarrow> string \<Rightarrow> bool" where
  "containsCopyright L line = contains (L line) ''copyright''"

definition containsLicenseIdentifier :: "string \<Rightarrow> bool" where
  "containsLicenseIdentifier line = contains line ''SPDX-License-Identifier''"

definition removeCommentMarkers :: "string \<Rightarrow> string" where
  "removeCommentMarkers line =
     (let line = trim_space line; line = trim_prefix line ''//''; line = trim_prefix line ''/*'';
          line = trim_prefix line ''*''; line = trim_prefix line ''#''
      in trim_space line)"

text \<open>The offset found in the lowered line is used on the line itself, whose length may differ.\<close>

definition extractCopyright :: "(string \<Rightarrow> string) \<Rightarrow> string \<Rightarrow> string go" where
  "extractCopyright L line =
     (let line = removeCommentMarkers line
      in case str_index ''copyright'' (L line) of
           Some idx \<Rightarrow>
             (if idx + 9 \<le> length line then ret (trim_space (drop (idx + 9) line))
              else panic ''slice bounds out of range'')
         | None \<Rightarrow> ret line)"

definition extractSPDXIdentifier :: "string \<Rightarrow> string" where
  "extractSPDXIdentifier line = trim_space (trim_prefix (removeCommentMarkers line) ''SPDX-License-Identifier:'')"

section \<open>Generated files, license marks, shebang\<close>

text \<open>
  The expression \<open>(?m)^.{1,3} Code generated .* DO NOT EDIT\.$\<close>, matched on the lines of the content;
  a dot is a rune, and an invalid byte counts as one.
\<close>

fun drop_runes :: "nat \<Rightarrow> string \<Rightarrow> string option" where
  "drop_runes 0 s = Some s"
| "drop_runes (Suc n) s = (if s = [] then None else drop_runes n (drop (rune_width s) s))"

definition goGenerated :: "string \<Rightarrow> bool" where
  "goGenerated line = list_ex (\<lambda>n. case drop_runes n line of None \<Rightarrow> False
     | Some rest \<Rightarrow> has_prefix rest '' Code generated '' \<and>
         has_suffix (trim_prefix rest '' Code generated '') '' DO NOT EDIT.'') [1, 2, 3]"

definition isGeneratedFile :: "string \<Rightarrow> bool" where
  "isGeneratedFile content = list_ex goGenerated (split_on newline content)"

definition hasLicenseHeader :: "(string \<Rightarrow> string) \<Rightarrow> string \<Rightarrow> bool" where
  "hasLicenseHeader L content =
     (let n = (if length content < 1000 then length content else 1000); header = L (take n content)
      in contains header ''copyright'' \<or> contains header ''mozilla public'' \<or>
         contains header ''spdx-license-identifier'')"

definition fileHeaderPrefixes :: "string list" where
  "fileHeaderPrefixes = [''#!'']"

text \<open>The first line with its terminator.\<close>

fun first_line :: "string \<Rightarrow> string" where
  "first_line [] = []"
| "first_line (c # cs) = c # (if c = newline then [] else first_line cs)"

definition hashBang :: "(string \<Rightarrow> string) \<Rightarrow> string \<Rightarrow> string" where
  "hashBang L content =
     (let line = first_line content
      in if list_ex (has_prefix (L line)) fileHeaderPrefixes then line else [])"

section \<open>Parsing a header\<close>

record HeaderInfo =
  HasHeader :: bool
  IsGenerated :: bool
  ExistingCopyright :: string
  ExistingLicenseIdentifier :: string
  HeaderLines :: "string list"
  ContentStartLine :: nat

definition noHeader :: HeaderInfo where
  "noHeader = \<lparr>HasHeader = False, IsGenerated = False, ExistingCopyright = [],
     ExistingLicenseIdentifier = [], HeaderLines = [], ContentStartLine = 0\<rparr>"

text \<open>
  The loop of \<open>ParseFileHeader\<close>, with the number of lines read so far. It leaves with a break, or at the
  end of the lines, where the scanner's error counts.
\<close>

fun parseLines :: "(string \<Rightarrow> string) \<Rightarrow> string \<Rightarrow> bool \<Rightarrow> string list \<Rightarrow> nat \<Rightarrow> bool \<Rightarrow> HeaderInfo
    \<Rightarrow> (license_error + HeaderInfo) go" where
  "parseLines L ext long [] lineNum inHeader info =
     ret (if long then Inl TooLong
          else if inHeader \<and> ContentStartLine info = 0 then Inr (info\<lparr>ContentStartLine := lineNum + 1\<rparr>)
          else Inr info)"
| "parseLines L ext long (line # lines) lineNum inHeader info =
     (let lineNum = lineNum + 1
      in if \<not> inHeader \<and> isCommentLine line ext \<and> (containsCopyright L line \<or> containsLicenseIdentifier line) then
           andThen (if containsCopyright L line then extractCopyright L line else ret (ExistingCopyright info))
             (\<lambda>c. parseLines L ext long lines lineNum True
                (info\<lparr>HasHeader := True, HeaderLines := HeaderLines info @ [line], ExistingCopyright := c\<rparr>))
         else if inHeader then
           (if isCommentLine line ext \<or> trim_space line = [] then
              (if ExistingLicenseIdentifier info \<noteq> [] \<and> \<not> isEmptyOrEmptyComment line ext then
                 ret (Inr (info\<lparr>ContentStartLine := lineNum\<rparr>))
               else
                 andThen (if containsCopyright L line \<and> ExistingCopyright info = []
                     then extractCopyright L line else ret (ExistingCopyright info))
                   (\<lambda>c. parseLines L ext long lines lineNum True
                      (info\<lparr>HeaderLines := HeaderLines info @ [line], ExistingCopyright := c,
                         ExistingLicenseIdentifier :=
                           (if containsLicenseIdentifier line \<and> ExistingLicenseIdentifier info = []
                            then extractSPDXIdentifier line else ExistingLicenseIdentifier info)\<rparr>)))
            else ret (Inr (info\<lparr>ContentStartLine := lineNum\<rparr>)))
         else if trim_space line \<noteq> [] \<and> \<not> isCommentLine line ext then
           ret (Inr (info\<lparr>ContentStartLine := lineNum\<rparr>))
         else parseLines L ext long lines lineNum inHeader info)"

definition parseContent :: "(string \<Rightarrow> string) \<Rightarrow> string \<Rightarrow> string \<Rightarrow> (license_error + HeaderInfo) go" where
  "parseContent L filePath content =
     (if isGeneratedFile content then ret (Inr (noHeader\<lparr>IsGenerated := True\<rparr>))
      else case scan_lines content of (lines, long) \<Rightarrow>
        parseLines L (unix_ext filePath) long lines 0 False noHeader)"

definition ParseFileHeader :: "(string \<Rightarrow> string) \<Rightarrow> 's files \<Rightarrow> string \<Rightarrow> 's \<Rightarrow> (license_error + HeaderInfo) go" where
  "ParseFileHeader L F filePath s =
     (case read_bytes F s filePath of
        Inl e \<Rightarrow> ret (Inl (OsError e))
      | Inr content \<Rightarrow> parseContent L filePath content)"

section \<open>Generating a header\<close>

datatype FileStatus = StatusUnmodified | StatusModified | StatusNew | StatusUnknown

text \<open>The embedded files of cmd/nrlicense/templates.\<close>

definition newrelicApacheHeaderTemplate :: string where
  "newrelicApacheHeaderTemplate = concat (map (\<lambda>l. l @ [newline])
     [''Copyright New Relic, Inc. All rights reserved.'', ''SPDX-License-Identifier: Apache-2.0''])"

definition modifiedHeaderTemplate :: string where
  "modifiedHeaderTemplate = concat (map (\<lambda>l. l @ [newline])
     [''Copyright The OpenTelemetry Authors'', ''Modifications copyright New Relic, Inc.'', [],
      ''Modifications can be found at the following URL:'', ''{{DESCRIPTION}}'', [],
      ''SPDX-License-Identifier: Apache-2.0''])"

definition commented :: "string \<Rightarrow> string \<Rightarrow> string" where
  "commented comment template =
     concat (map (\<lambda>line. if line = [] then comment @ [newline] else comment @ '' '' @ line @ [newline])
       (split_on newline (trim_space template)))"

definition generateModifiedHeader :: "string \<Rightarrow> string \<Rightarrow> string" where
  "generateModifiedHeader modDescription ext =
     (let comment = getCommentStyle ext;
          template =
            (if modDescription \<noteq> [] \<and> modDescription \<noteq> ''Modified for New Relic distribution''
             then replace1 modifiedHeaderTemplate ''{{DESCRIPTION}}'' modDescription
             else replace1 modifiedHeaderTemplate (''{{DESCRIPTION}}'' @ [newline]) [])
      in commented comment template)"

definition generateNewApacheHeader :: "string \<Rightarrow> string" where
  "generateNewApacheHeader ext = commented (getCommentStyle ext) newrelicApacheHeaderTemplate"

definition GenerateHeader :: "FileStatus \<Rightarrow> string \<Rightarrow> string \<Rightarrow> license_error + string" where
  "GenerateHeader status modDescription filePath =
     (let ext = unix_ext filePath
      in case status of
           StatusUnmodified \<Rightarrow> Inr []
         | StatusModified \<Rightarrow> Inr (generateModifiedHeader modDescription ext)
         | StatusNew \<Rightarrow> Inr (generateNewApacheHeader ext)
         | StatusUnknown \<Rightarrow> Inl UnknownStatus)"

section \<open>Applying, reading and checking\<close>

definition blank_after :: "string \<Rightarrow> string" where
  "blank_after newHeader = (if has_suffix newHeader [newline, newline] then [] else [newline])"

text \<open>What is written for a file without any mark of a license.\<close>

definition insertHeader :: "(string \<Rightarrow> string) \<Rightarrow> string \<Rightarrow> string \<Rightarrow> string" where
  "insertHeader L newHeader content =
     (let shebang = hashBang L content;
          content = drop (length shebang) content
      in shebang @ (if shebang \<noteq> [] \<and> last shebang \<noteq> newline then [newline] else []) @
         newHeader @ blank_after newHeader @ content)"

text \<open>What is written for a file with one: the lines before the content, and the shebang, are skipped.\<close>

fun keep_lines :: "bool \<Rightarrow> nat \<Rightarrow> nat \<Rightarrow> string list \<Rightarrow> string" where
  "keep_lines hasShebang start lineNum [] = []"
| "keep_lines hasShebang start lineNum (line # lines) =
     (let lineNum = lineNum + 1
      in (if lineNum = 1 \<and> hasShebang then []
          else if lineNum < start then []
          else line @ [newline]) @ keep_lines hasShebang start lineNum lines)"

definition replaceHeader :: "(string \<Rightarrow> string) \<Rightarrow> string \<Rightarrow> HeaderInfo \<Rightarrow> string \<Rightarrow> string" where
  "replaceHeader L newHeader headerInfo content =
     (let shebang = hashBang L content
      in shebang @ newHeader @ blank_after newHeader @
         keep_lines (shebang \<noteq> []) (ContentStartLine headerInfo) 0 (fst (scan_lines content)))"

definition write_result :: "string option \<times> 's \<Rightarrow> license_error option \<times> 's" where
  "write_result r = (case r of (e, s) \<Rightarrow> (map_option OsError e, s))"

definition ApplyHeader :: "(string \<Rightarrow> string) \<Rightarrow> 's files \<Rightarrow> string \<Rightarrow> string \<Rightarrow> 's \<Rightarrow> (license_error option \<times> 's) go" where
  "ApplyHeader L F filePath newHeader s =
     (case stat_file F s filePath of
        Some e \<Rightarrow> ret (Some (OsError e), s)
      | None \<Rightarrow>
        (case read_bytes F s filePath of
           Inl e \<Rightarrow> ret (Some (OsError e), s)
         | Inr content \<Rightarrow>
             if isGeneratedFile content then ret (None, s)
             else if \<not> hasLicenseHeader L content then
               ret (write_result (write_bytes F filePath (insertHeader L newHeader content) s))
             else andThen (ParseFileHeader L F filePath s) (\<lambda>r. case r of
                 Inl e \<Rightarrow> ret (Some e, s)
               | Inr headerInfo \<Rightarrow>
                   ret (write_result (write_bytes F filePath (replaceHeader L newHeader headerInfo content) s)))))"

text \<open>The content is returned together with the scanner's error.\<close>

definition ReadFileContent :: "(string \<Rightarrow> string) \<Rightarrow> 's files \<Rightarrow> string \<Rightarrow> 's
    \<Rightarrow> (license_error + string \<times> license_error option) go" where
  "ReadFileContent L F filePath s =
     (case read_bytes F s filePath of
        Inl e \<Rightarrow> ret (Inl (OsError e))
      | Inr content \<Rightarrow>
          andThen (ParseFileHeader L F filePath s) (\<lambda>r. ret (case r of
              Inl e \<Rightarrow> Inl e
            | Inr headerInfo \<Rightarrow>
                (case scan_lines content of (lines, long) \<Rightarrow>
                   Inr (keep_lines False (ContentStartLine headerInfo) 0 lines,
                        if long then Some TooLong else None)))))"

definition header_correct :: "FileStatus \<Rightarrow> HeaderInfo \<Rightarrow> bool" where
  "header_correct status headerInfo =
     (case status of
        StatusUnmodified \<Rightarrow> HasHeader headerInfo \<and> \<not> contains (ExistingCopyright headerInfo) ''New Relic''
      | StatusModified \<Rightarrow>
          (let hasOriginal = HasHeader headerInfo \<and> ExistingCopyright headerInfo \<noteq> [];
               hasNewRelic = list_ex (\<lambda>line. contains line ''New Relic'') (HeaderLines headerInfo);
               hasApacheLicense = contains (ExistingLicenseIdentifier headerInfo) ''Apache-2.0''
           in hasOriginal \<and> hasNewRelic \<and> hasApacheLicense)
      | StatusNew \<Rightarrow>
          (let correctCopyright = contains (ExistingCopyright headerInfo) ''New Relic'';
               correctSPDXIdentifier = contains (ExistingLicenseIdentifier headerInfo) ''Apache-2.0''
           in HasHeader headerInfo \<and> correctCopyright \<and> correctSPDXIdentifier)
      | StatusUnknown \<Rightarrow> False)"

definition CheckHeader :: "(string \<Rightarrow> string) \<Rightarrow> 's files \<Rightarrow> string \<Rightarrow> FileStatus \<Rightarrow> 's \<Rightarrow> (license_error + bool) go" where
  "CheckHeader L F filePath status s =
     andThen (ParseFileHeader L F filePath s) (\<lambda>r. ret (case r of
         Inl e \<Rightarrow> Inl e
       | Inr headerInfo \<Rightarrow>
           if IsGenerated headerInfo then Inr True else Inr (header_correct status headerInfo)))"

section \<open>Comment styles\<close>

lemma unix_ext_form: "unix_ext p = [] \<or> (\<exists>e. unix_ext p = CHR ''.'' # e \<and> CHR ''.'' \<notin> set e \<and> CHR ''/'' \<notin> set e)"
proof -
  let ?t = "takeWhile (\<lambda>c. c \<noteq> CHR ''.'' \<and> c \<noteq> CHR ''/'') (rev p)"
  have "CHR ''.'' \<notin> set ?t" "CHR ''/'' \<notin> set ?t" by (auto dest: set_takeWhileD)
  then show ?thesis by (auto simp: unix_ext_def Let_def split: list.split)
qed

lemma unix_ext_none: "unix_ext ''file'' = []" "unix_ext [] = []"
  by code_simp+

lemma unix_ext_file: "unix_ext (''file'' @ unix_ext p) = unix_ext p"
  using unix_ext_form [of p]
proof (elim disjE exE conjE)
  fix e assume "unix_ext p = CHR ''.'' # e" "CHR ''.'' \<notin> set e" "CHR ''/'' \<notin> set e"
  then show ?thesis using unix_ext_append [of e "''file''"] by (simp only: simp_thms)
qed (simp add: unix_ext_none)

lemma unix_ext_idem: "unix_ext (unix_ext p) = unix_ext p"
  using unix_ext_form [of p]
proof (elim disjE exE conjE)
  fix e assume "unix_ext p = CHR ''.'' # e" "CHR ''.'' \<notin> set e" "CHR ''/'' \<notin> set e"
  then show ?thesis using unix_ext_append [of e "[]"] by (simp only: append_Nil simp_thms)
qed (simp add: unix_ext_none)

definition style :: "string \<Rightarrow> string" where
  "style ext = (if ext \<in> {''.sh'', ''.bash'', ''.zsh'', ''.yaml'', ''.yml''} then ''#'' else ''//'')"

lemma style_graphic: "style ext \<noteq> []" "graphic (hd (style ext))" "graphic (last (style ext))"
  by (auto simp: style_def graphic_def)

lemma trim_styles: "trim_space ''// '' = ''//''" "trim_space ''# '' = ''#''"
  using trim_space_back [of "''//''" "CHR '' ''"] trim_space_back [of "''#''" "CHR '' ''"]
  by (simp_all add: graphic_def)

lemma trim_prefix_of: "trim_space (fst (snd (getCommentPrefix q))) = style (unix_ext q)"
  by (simp add: getCommentPrefix_def style_def Let_def trim_styles)

lemma getCommentStyle_style: "getCommentStyle (unix_ext p) = style (unix_ext p)"
proof -
  obtain a m b where m: "getCommentPrefix (''file'' @ unix_ext p) = (a, m, b)" by (metis prod_cases3)
  have "m \<noteq> []" using m by (auto simp: getCommentPrefix_def Let_def split: if_splits)
  with m trim_prefix_of [of "''file'' @ unix_ext p"] show ?thesis
    by (simp only: getCommentStyle_def unix_ext_file) simp
qed

lemma empty_comment_iff:
  "isEmptyOrEmptyComment line (unix_ext p) \<longleftrightarrow> trim_space line = [] \<or> trim_space line = style (unix_ext p)"
proof -
  obtain a m b where m: "getCommentPrefix (unix_ext p) = (a, m, b)" by (metis prod_cases3)
  with trim_prefix_of [of "unix_ext p"] have "trim_space m = style (unix_ext p)" by (simp add: unix_ext_idem)
  with m show ?thesis
    using style_graphic(1) [of "unix_ext p"]
    by (auto simp: isEmptyOrEmptyComment_def trim_prefix_def has_prefix_iff)
qed

lemma style_is_comment: "isCommentLine (style ext @ x) ext"
  using trim_prefix_keeps [of "style ext" x] style_graphic [of ext]
  by (auto simp: isCommentLine_def style_def Let_def split: if_splits)

lemma style_only_comment: "trim_space line = style ext \<Longrightarrow> isCommentLine line ext"
  by (auto simp: isCommentLine_def style_def has_prefix_def Let_def)

text \<open>A line at which the content starts never looks empty.\<close>

lemma content_line_not_empty:
  "trim_space line \<noteq> [] \<Longrightarrow> \<not> isCommentLine line (unix_ext p) \<Longrightarrow> \<not> isEmptyOrEmptyComment line (unix_ext p)"
  using style_only_comment by (auto simp: empty_comment_iff)

section \<open>The generated headers\<close>

definition comment_of :: "string \<Rightarrow> string \<Rightarrow> string" where
  "comment_of c l = (if l = [] then c else c @ '' '' @ l)"

lemma commented_unlines:
  assumes "list_all is_line ls" "ls \<noteq> []" "hd ls \<noteq> []" "graphic (hd (hd ls))"
    "last ls \<noteq> []" "graphic (last (last ls))"
  shows "commented c (unlines ls) = unlines (map (comment_of c) ls)"
proof -
  define b where "b = unlines (butlast ls) @ last ls"
  have ls: "ls = butlast ls @ [last ls]" using assms(2) by simp
  have u: "unlines ls = b @ [newline]" by (subst ls) (simp add: b_def)
  have "hd b = hd (hd ls)"
    using assms(2,3) by (cases ls; cases "butlast ls") (auto simp: b_def)
  then have "trim_space (unlines ls) = b"
    using assms(4-6) unfolding u by (intro trim_space_back) (auto simp: b_def)
  moreover have "list_all is_line (butlast ls)" "is_line (last ls)"
    using assms(1,2) by (auto simp: list_all_iff dest: in_set_butlastD)
  then have "split_on newline b = ls"
    using assms(2) by (simp add: b_def split_unlines split_on_id is_line_def)
  ultimately show ?thesis
    by (auto simp: commented_def unlines_def comment_of_def intro!: arg_cong [where f = concat])
qed

definition standard_desc :: string where
  "standard_desc = ''Modified for New Relic distribution''"

definition header_texts :: "FileStatus \<Rightarrow> string \<Rightarrow> string list" where
  "header_texts status desc =
     (if status = StatusNew then
        [''Copyright New Relic, Inc. All rights reserved.'', ''SPDX-License-Identifier: Apache-2.0'']
      else
        [''Copyright The OpenTelemetry Authors'', ''Modifications copyright New Relic, Inc.'', [],
         ''Modifications can be found at the following URL:''] @
        (if desc = [] \<or> desc = standard_desc then [] else [desc]) @
        [[], ''SPDX-License-Identifier: Apache-2.0''])"

lemma replace1_at: "str_index a s = Some i \<Longrightarrow> replace1 s a b = take i s @ b @ drop (i + length a) s"
  by (simp add: replace1_def)

lemma str_index_description: "str_index ''{{DESCRIPTION}}'' modifiedHeaderTemplate = Some 126"
  "str_index (''{{DESCRIPTION}}'' @ [newline]) modifiedHeaderTemplate = Some 126"
  by code_simp+

lemma modified_text:
  "desc \<noteq> [] \<Longrightarrow> desc \<noteq> standard_desc \<Longrightarrow>
     replace1 modifiedHeaderTemplate ''{{DESCRIPTION}}'' desc = unlines (header_texts StatusModified desc)"
  "replace1 modifiedHeaderTemplate (''{{DESCRIPTION}}'' @ [newline]) [] = unlines (header_texts StatusModified [])"
  using replace1_at [OF str_index_description(1), of desc] replace1_at [OF str_index_description(2), of "[]"]
  by (simp_all add: header_texts_def modifiedHeaderTemplate_def unlines_def)


lemma header_texts_form:
  assumes "status \<in> {StatusModified, StatusNew}" "is_line desc"
  shows "list_all is_line (header_texts status desc)" "header_texts status desc \<noteq> []"
    "hd (header_texts status desc) \<noteq> []" "graphic (hd (hd (header_texts status desc)))"
    "last (header_texts status desc) \<noteq> []" "graphic (last (last (header_texts status desc)))"
  using assms by (auto simp: header_texts_def is_line_def graphic_def)

text \<open>The header as the code generates it, line by line.\<close>

lemma generate_unlines:
  assumes "status \<in> {StatusModified, StatusNew}" "is_line desc"
  shows "GenerateHeader status desc path =
    Inr (unlines (map (comment_of (style (unix_ext path))) (header_texts status desc)))"
proof -
  note form = commented_unlines [OF header_texts_form [OF assms(1)]]
  have "newrelicApacheHeaderTemplate = unlines (header_texts StatusNew desc)"
    by (simp add: newrelicApacheHeaderTemplate_def header_texts_def unlines_def)
  moreover have "header_texts StatusModified desc = header_texts StatusModified []"
    if "desc = [] \<or> desc = standard_desc" using that by (auto simp: header_texts_def)
  ultimately show ?thesis
    using assms form [OF assms(2)] form [of "[]"]
    by (auto simp: GenerateHeader_def generateModifiedHeader_def generateNewApacheHeader_def
        getCommentStyle_style modified_text [unfolded standard_desc_def append_Cons append_Nil] standard_desc_def is_line_def Let_def)
qed

section \<open>Parsing a generated header\<close>

lemma parse_keeps:
  assumes "HasHeader info" "ExistingCopyright info \<noteq> []" "ExistingLicenseIdentifier info \<noteq> []"
  shows "\<exists>info'. parseLines L ext False ls n True info = ret (Inr info') \<and> HasHeader info' \<and>
    ExistingCopyright info' = ExistingCopyright info \<and>
    ExistingLicenseIdentifier info' = ExistingLicenseIdentifier info \<and>
    set (HeaderLines info) \<subseteq> set (HeaderLines info')"
  using assms
proof (induction ls arbitrary: n info)
  case (Cons l ls)
  let ?info = "info\<lparr>HeaderLines := HeaderLines info @ [l]\<rparr>"
  from Cons.IH [of ?info "Suc n"] Cons.prems obtain info' where
    "parseLines L ext False ls (Suc n) True ?info = ret (Inr info')" "HasHeader info'"
    "ExistingCopyright info' = ExistingCopyright info"
    "ExistingLicenseIdentifier info' = ExistingLicenseIdentifier info"
    "set (HeaderLines info) \<subseteq> set (HeaderLines info')" by auto
  with Cons.prems show ?case by (auto simp: Let_def)
qed auto

text \<open>A further line of the header, once its copyright is known.\<close>

lemma parse_header_line:
  assumes "isCommentLine l ext" "ExistingCopyright info \<noteq> []" "ExistingLicenseIdentifier info = []"
  shows "parseLines L ext long (l # ls) n True info = parseLines L ext long ls (Suc n) True
    (info\<lparr>HeaderLines := HeaderLines info @ [l],
       ExistingLicenseIdentifier := (if containsLicenseIdentifier l then extractSPDXIdentifier l else [])\<rparr>)"
  using assms by (simp add: Let_def)

lemma ascii_lower_append: "ascii_lower (s @ t) = ascii_lower s @ ascii_lower t"
  by (simp add: ascii_lower_def)

lemma ascii_lower_copyright: "ascii_lower ''Copyright '' = ''copyright ''"
  by code_simp

lemma lower_mid: "lower_laws L \<Longrightarrow> is_ascii a \<Longrightarrow> a \<noteq> [] \<Longrightarrow> L (u @ a @ v) = L u @ ascii_lower a @ L v"
  by (simp only: lower_laws_def simp_thms)

lemma lower_ascii: "lower_laws L \<Longrightarrow> is_ascii s \<Longrightarrow> L s = ascii_lower s"
proof -
  assume a: "lower_laws L" "is_ascii s"
  then have "s \<noteq> [] \<Longrightarrow> L ([] @ s @ []) = L [] @ ascii_lower s @ L []" "L [] = []"
    unfolding lower_laws_def by blast+
  then show "L s = ascii_lower s" by (cases "s = []") (simp_all add: ascii_lower_def)
qed

lemma copyright_line:
  assumes "lower_laws L" "s \<noteq> []" "graphic (hd s)" "graphic (last s)" "is_ascii s"
    "style ext = ''#'' \<or> style ext = ''//''"
  shows "extractCopyright L (style ext @ '' Copyright '' @ s) = ret s"
    "containsCopyright L (style ext @ '' Copyright '' @ s)"
proof -
  let ?t = "''Copyright '' @ s"
  have g: "graphic (CHR ''C'')" "graphic (CHR ''/'')" "graphic (CHR ''#'')" by (simp_all add: graphic_def)
  have "trim_space (style ext @ '' '' @ ?t) = style ext @ '' '' @ ?t"
    using assms(2,4) by (intro trim_graphic) (simp_all add: style_graphic hd_append)
  moreover have "trim_space (CHR '' '' # ?t) = ?t" "trim_space ?t = ?t"
    using assms(2,4) g(1) trim_space_front [of ?t] trim_graphic [of ?t] by simp_all
  ultimately have rm: "removeCommentMarkers (style ext @ '' '' @ ?t) = ?t"
    using assms(6) by (elim disjE) (simp_all add: removeCommentMarkers_def trim_prefix_def has_prefix_def)
  have "is_ascii ?t" using assms(5) by (simp add: is_ascii_def)
  then have "L ?t = ascii_lower ?t" by (rule lower_ascii [OF assms(1)])
  then have low: "L ?t = ''copyright '' @ ascii_lower s"
    by (simp only: ascii_lower_append ascii_lower_copyright)
  then have "str_index ''copyright'' (L ?t) = Some 0" by (simp add: has_prefix_def)
  then show "extractCopyright L (style ext @ '' Copyright '' @ s) = ret s"
    using rm assms(2-4) by (simp add: extractCopyright_def trim_space_front)
  have "is_ascii (style ext @ '' '' @ ?t)"
    using assms(5,6) by (auto simp: is_ascii_def)
  then have "L (style ext @ '' '' @ ?t) = ascii_lower (style ext @ '' '') @ ''copyright '' @ ascii_lower s"
    by (simp only: lower_ascii [OF assms(1)] ascii_lower_append ascii_lower_copyright append_assoc)
  then show "containsCopyright L (style ext @ '' Copyright '' @ s)"
    unfolding containsCopyright_def contains_iff
    by (intro exI [of _ "ascii_lower (style ext @ '' '')"] exI [of _ "CHR '' '' # ascii_lower s"]) simp
qed


lemma style_cases: "style ext = ''#'' \<or> style ext = ''//''"
  by (simp add: style_def)

lemma spdx_line:
  "extractSPDXIdentifier (style ext @ '' SPDX-License-Identifier: Apache-2.0'') = ''Apache-2.0''"
  "containsLicenseIdentifier (style ext @ '' SPDX-License-Identifier: Apache-2.0'')"
proof -
  let ?t = "''SPDX-License-Identifier: Apache-2.0''"
  have "trim_space (style ext @ '' '' @ ?t) = style ext @ '' '' @ ?t"
    using style_graphic [of ext] by (intro trim_graphic) (simp_all add: graphic_def)
  moreover have "trim_space (CHR '' '' # ?t) = ?t" "trim_space ?t = ?t"
    using trim_space_front [of ?t] trim_graphic [of ?t] by (simp_all add: graphic_def)
  ultimately have rm: "removeCommentMarkers (style ext @ '' '' @ ?t) = ?t"
    using style_cases [of ext]
    by (elim disjE) (simp_all add: removeCommentMarkers_def trim_prefix_def has_prefix_def)
  have "trim_space '' Apache-2.0'' = ''Apache-2.0''"
    using trim_space_front [of "''Apache-2.0''"] by (simp add: graphic_def)
  with rm show "extractSPDXIdentifier (style ext @ '' SPDX-License-Identifier: Apache-2.0'') = ''Apache-2.0''"
    by (simp add: extractSPDXIdentifier_def trim_prefix_def has_prefix_def)
  show "containsLicenseIdentifier (style ext @ '' SPDX-License-Identifier: Apache-2.0'')"
    unfolding containsLicenseIdentifier_def contains_iff
    by (intro exI [of _ "style ext @ '' ''"] exI [of _ "'': Apache-2.0''"]) simp
qed

lemma no_spdx:
  "CHR ''S'' \<notin> set u \<Longrightarrow> containsLicenseIdentifier (u @ t) = containsLicenseIdentifier t"
  by (simp add: containsLicenseIdentifier_def contains_skip)

lemma no_spdx_lines:
  "\<not> containsLicenseIdentifier (style ext)"
  "\<not> containsLicenseIdentifier (style ext @ '' Modifications copyright New Relic, Inc.'')"
  "\<not> containsLicenseIdentifier (style ext @ '' Modifications can be found at the following URL:'')"
  "containsLicenseIdentifier (style ext @ CHR '' '' # desc) = containsLicenseIdentifier desc"
proof -
  have none: "\<not> containsLicenseIdentifier (style ext @ t)" if "CHR ''S'' \<notin> set t" for t
    using no_spdx [of "style ext @ t" "[]"] that style_cases [of ext]
    by (auto simp: containsLicenseIdentifier_def contains_def)
  show "\<not> containsLicenseIdentifier (style ext)"
    "\<not> containsLicenseIdentifier (style ext @ '' Modifications copyright New Relic, Inc.'')"
    "\<not> containsLicenseIdentifier (style ext @ '' Modifications can be found at the following URL:'')"
    using none [of "[]"] by (simp_all add: none)
  show "containsLicenseIdentifier (style ext @ CHR '' '' # desc) = containsLicenseIdentifier desc"
    using no_spdx [of "style ext @ '' ''" desc] style_cases [of ext] by auto
qed

definition header_lines :: "FileStatus \<Rightarrow> string \<Rightarrow> string \<Rightarrow> string list" where
  "header_lines status desc ext = map (comment_of (style ext)) (header_texts status desc)"

definition desc_ok :: "string \<Rightarrow> bool" where
  "desc_ok desc \<longleftrightarrow> is_line desc \<and> \<not> containsLicenseIdentifier desc \<and> length desc + 3 < maxToken \<and>
     (desc = [] \<or> last desc \<noteq> CHR 0x0D)"

definition header_info :: "FileStatus \<Rightarrow> string \<Rightarrow> string \<Rightarrow> HeaderInfo" where
  "header_info status desc ext = \<lparr>HasHeader = True, IsGenerated = False,
     ExistingCopyright = (if status = StatusNew then ''New Relic, Inc. All rights reserved.''
        else ''The OpenTelemetry Authors''),
     ExistingLicenseIdentifier = ''Apache-2.0'', HeaderLines = header_lines status desc ext,
     ContentStartLine = 0\<rparr>"

lemma parse_first_line:
  assumes "isCommentLine l ext" "containsCopyright L l" "extractCopyright L l = ret c"
  shows "parseLines L ext long (l # ls) n False noHeader =
    parseLines L ext long ls (Suc n) True (noHeader\<lparr>HasHeader := True, ExistingCopyright := c, HeaderLines := [l]\<rparr>)"
  using assms by (simp add: noHeader_def Let_def)

lemma is_ascii_texts:
  "is_ascii ''New Relic, Inc. All rights reserved.''" "is_ascii ''The OpenTelemetry Authors''"
  by code_simp+

lemma parse_header:
  assumes "lower_laws L" "status \<in> {StatusModified, StatusNew}" "desc_ok desc"
  shows "parseLines L ext long (header_lines status desc ext @ ls) n False noHeader =
    parseLines L ext long ls (n + length (header_lines status desc ext)) True (header_info status desc ext)"
proof -
  note c = copyright_line [OF assms(1) _ _ _ _ style_cases]
  note first = parse_first_line [OF style_is_comment c(2) c(1)]
  note nr = first [of "''New Relic, Inc. All rights reserved.''"]
  note ot = first [of "''The OpenTelemetry Authors''"]
  note further = parse_header_line [OF style_is_comment [of ext "[]", unfolded append_Nil2]]
    parse_header_line [OF style_is_comment]
  show ?thesis
  proof (cases "status = StatusNew")
    case True
    then show ?thesis
      using nr by (simp add: header_lines_def header_texts_def comment_of_def header_info_def
        further spdx_line is_ascii_texts graphic_def noHeader_def del: parseLines.simps)
  next
    case False
    with assms(2) have "status = StatusModified" by simp
    moreover have "\<not> containsLicenseIdentifier (style ext @ CHR '' '' # desc)"
      using assms(3) by (simp add: desc_ok_def no_spdx_lines(4))
    ultimately show ?thesis
      using ot by (simp add: header_lines_def header_texts_def comment_of_def header_info_def
        further spdx_line no_spdx_lines(1-3) is_ascii_texts graphic_def noHeader_def del: parseLines.simps)
  qed
qed


section \<open>What is written is accepted\<close>

definition fits :: "string \<Rightarrow> bool" where
  "fits content = list_all (\<lambda>l. length l < maxToken) (raw_lines content)"

definition shebang_ok :: "(string \<Rightarrow> string) \<Rightarrow> string \<Rightarrow> string \<Rightarrow> bool" where
  "shebang_ok L ext sb \<longleftrightarrow> sb = [] \<or>
     last sb = newline \<and> is_line (butlast sb) \<and> length sb < maxToken \<and>
     (let t = drop_cr (butlast sb)
      in isCommentLine t ext \<and> \<not> containsCopyright L t \<and> \<not> containsLicenseIdentifier t)"

lemma header_lines_form:
  assumes "status \<in> {StatusModified, StatusNew}" "desc_ok desc"
  shows "list_all is_line (header_lines status desc ext)" "map drop_cr (header_lines status desc ext) = header_lines status desc ext"
    "list_all (\<lambda>l. length l < maxToken) (header_lines status desc ext)"
  using assms style_cases [of ext]
  by (auto simp: header_lines_def header_texts_def comment_of_def desc_ok_def is_line_def maxToken_def standard_desc_def
      intro!: drop_cr_id)

lemma scan_written:
  assumes "status \<in> {StatusModified, StatusNew}" "desc_ok desc" "fits rest"
  shows "scan_lines (unlines (header_lines status desc ext) @ newline # rest) =
    (header_lines status desc ext @ [] # map drop_cr (raw_lines rest), False)"
proof -
  let ?h = "header_lines status desc ext"
  have "unlines ?h @ newline # rest = unlines (?h @ [[]]) @ rest" by simp
  moreover have "list_all is_line (?h @ [[]])" using header_lines_form(1) [OF assms(1,2)] by (simp add: is_line_def)
  ultimately have "raw_lines (unlines ?h @ newline # rest) = ?h @ [] # raw_lines rest"
    using raw_unlines [of "?h @ [[]]" rest] by simp
  moreover have "list_all (\<lambda>l. length l < maxToken) (?h @ [] # raw_lines rest)"
    using header_lines_form(3) [OF assms(1,2)] assms(3) by (simp add: fits_def maxToken_def)
  ultimately show ?thesis
    using header_lines_form(2) [OF assms(1,2)] by (simp add: scan_lines_def scan_short drop_cr_id drop_cr_def trim_suffix_def has_suffix_def has_prefix_def)
qed

lemma scan_shebang:
  assumes "last sb = newline" "is_line (butlast sb)" "length sb < maxToken" "sb \<noteq> []"
  shows "scan_lines (sb @ rest) = (drop_cr (butlast sb) # fst (scan_lines rest), snd (scan_lines rest))"
proof -
  have "sb = unlines [butlast sb]" using assms(1,4) append_butlast_last_id [of sb] by simp
  then have "raw_lines (sb @ rest) = butlast sb # raw_lines rest"
    using assms(2) raw_unlines [of "[butlast sb]" rest] by simp
  then show ?thesis using assms(3) by (simp add: scan_lines_def split: prod.splits)
qed

text \<open>The parse of a file that starts with a generated header, after an optional shebang.\<close>

lemma parse_written:
  assumes "lower_laws L" "status \<in> {StatusModified, StatusNew}" "desc_ok desc" "fits rest"
    "ext = unix_ext path" "shebang_ok L ext sb"
    "new = sb @ unlines (header_lines status desc ext) @ newline # rest" "\<not> isGeneratedFile new"
  shows "parseContent L path new = parseLines L ext False ([] # map drop_cr (raw_lines rest))
    ((if sb = [] then 0 else 1) + length (header_lines status desc ext)) True (header_info status desc ext)"
proof -
  let ?tail = "unlines (header_lines status desc ext) @ newline # rest"
  note tail = scan_written [OF assms(2-4)]
  note step = parse_header [OF assms(1-3)]
  show ?thesis
  proof (cases "sb = []")
    case True
    with assms(5,7,8) show ?thesis by (auto simp: parseContent_def tail step simp del: parseLines.simps)
  next
    case False
    let ?t = "drop_cr (butlast sb)"
    from False assms(6) have t: "isCommentLine ?t ext" "\<not> containsCopyright L ?t" "\<not> containsLicenseIdentifier ?t"
      and sb: "last sb = newline" "is_line (butlast sb)" "length sb < maxToken"
      by (auto simp: shebang_ok_def Let_def)
    have "parseLines L ext False (?t # ls) 0 False noHeader = parseLines L ext False ls (Suc 0) False noHeader" for ls
      using t by (simp add: Let_def)
    with assms(5,7,8) scan_shebang [OF sb False, of ?tail] show ?thesis
      by (auto simp: parseContent_def tail step simp del: parseLines.simps)
  qed
qed

lemma written_correct:
  assumes "lower_laws L" "status \<in> {StatusModified, StatusNew}" "desc_ok desc" "fits rest"
    "ext = unix_ext path" "shebang_ok L ext sb"
    "new = sb @ unlines (header_lines status desc ext) @ newline # rest" "\<not> isGeneratedFile new"
  shows "\<exists>info. parseContent L path new = ret (Inr info) \<and> header_correct status info"
proof -
  let ?n = "(if sb = [] then 0 else 1) + length (header_lines status desc ext)"
  note n = parse_written [OF assms]
  have "HasHeader (header_info status desc ext)" "ExistingCopyright (header_info status desc ext) \<noteq> []"
    "ExistingLicenseIdentifier (header_info status desc ext) \<noteq> []" by (simp_all add: header_info_def)
  from parse_keeps [OF this, of L ext "[] # map drop_cr (raw_lines rest)" ?n] n obtain info where
    info: "parseContent L path new = ret (Inr info)" "HasHeader info"
      "ExistingCopyright info = ExistingCopyright (header_info status desc ext)"
      "ExistingLicenseIdentifier info = ''Apache-2.0''"
      "set (header_lines status desc ext) \<subseteq> set (HeaderLines info)"
    by (auto simp: header_info_def)
  have mid: "contains (u @ t @ v) t" for t u v by (auto simp: contains_iff)
  note refl = mid [of "[]" _ "[]", simplified]
  show ?thesis
  proof (cases "status = StatusNew")
    case True
    with info refl mid [of "[]" "''New Relic''" "'', Inc. All rights reserved.''"] show ?thesis
      by (auto simp: header_correct_def header_info_def)
  next
    case False
    with assms(2) have m: "status = StatusModified" by simp
    let ?l = "style ext @ '' Modifications copyright New Relic, Inc.''"
    have "contains ?l ''New Relic''"
      using mid [of "style ext @ '' Modifications copyright ''" "''New Relic''" "'', Inc.''"] by simp
    moreover have "?l \<in> set (header_lines status desc ext)"
      using m by (simp add: header_lines_def header_texts_def comment_of_def)
    ultimately have "list_ex (\<lambda>line. contains line ''New Relic'') (HeaderLines info)"
      using info(5) by (auto simp: list_ex_iff)
    with m info refl show ?thesis by (auto simp: header_correct_def header_info_def)
  qed
qed

section \<open>Applying a generated header\<close>

definition kept_writes :: "'s files \<Rightarrow> string \<Rightarrow> bool" where
  "kept_writes F path \<longleftrightarrow> (\<forall>d s s'. write_bytes F path d s = (None, s') \<longrightarrow> read_bytes F s' path = Inr d)"

lemma keep_unlines: "\<exists>ks. keep_lines hs st n ls = unlines ks \<and> set ks \<subseteq> set ls"
proof (induction ls arbitrary: n)
  case (Cons l ls)
  from Cons.IH [of "Suc n"] obtain ks where ks: "keep_lines hs st (Suc n) ls = unlines ks" "set ks \<subseteq> set ls"
    by blast
  show ?case
  proof (cases "n = 0 \<and> hs \<or> Suc n < st")
    case True
    with ks show ?thesis by (intro exI [of _ ks]) auto
  next
    case False
    with ks show ?thesis by (intro exI [of _ "l # ks"]) auto
  qed
qed (auto intro: exI [of _ "[]"])

lemma fits_unlines: "list_all is_line ks \<Longrightarrow> list_all (\<lambda>l. length l < maxToken) ks \<Longrightarrow> fits (unlines ks)"
  by (simp add: fits_def raw_unlines_only)

lemma fits_kept: "fits (keep_lines hs st n (fst (scan_lines content)))"
proof -
  obtain ks where ks: "keep_lines hs st n (fst (scan_lines content)) = unlines ks"
    "set ks \<subseteq> set (fst (scan_lines content))" using keep_unlines by blast
  have "is_line l \<and> length l < maxToken" if l: "l \<in> set ks" for l
  proof -
    from l ks(2) scan_fst [of "raw_lines content"] obtain r where
      "r \<in> set (raw_lines content)" "length r < maxToken" "l = drop_cr r"
      by (auto simp: scan_lines_def)
    with raw_is_line [of content] drop_cr_le [of r] show ?thesis
      by (auto simp: list_all_iff intro: drop_cr_is_line)
  qed
  with ks(1) show ?thesis by (simp add: fits_unlines list_all_iff)
qed

lemma set_unlines: "set (unlines ls) \<subseteq> insert newline (\<Union>l\<in>set ls. set l)"
  by (auto simp: unlines_def)

lemma raw_lines_set: "l \<in> set (raw_lines s) \<Longrightarrow> set l \<subseteq> set s"
proof -
  have "set l \<subseteq> set s" if "l \<in> set (split_on newline s)" for l
    using that
  proof (induction s arbitrary: l)
    case (Cons x s)
    obtain p ps where eq: "split_on newline s = p # ps" by (cases "split_on newline s") auto
    then have "q \<in> set (p # ps) \<Longrightarrow> set q \<subseteq> set s" for q using Cons.IH by simp
    then have sub: "set p \<subseteq> set s" "\<And>q. q \<in> set ps \<Longrightarrow> set q \<subseteq> set s" by simp_all
    from Cons.prems eq have "l = [] \<or> l = x # p \<or> l = p \<or> l \<in> set ps" by (auto split: if_splits)
    with sub show ?case by auto
  qed simp
  then show "l \<in> set (raw_lines s) \<Longrightarrow> set l \<subseteq> set s"
    by (auto simp: raw_lines_def Let_def split: if_splits dest: in_set_butlastD)
qed

lemma drop_cr_set: "set (drop_cr l) \<subseteq> set l"
  by (auto simp: drop_cr_def trim_suffix_def dest: in_set_takeD)

lemma keep_set: "set (keep_lines hs st n (fst (scan_lines content))) \<subseteq> insert newline (set content)"
proof -
  obtain ks where ks: "keep_lines hs st n (fst (scan_lines content)) = unlines ks"
    "set ks \<subseteq> set (fst (scan_lines content))" using keep_unlines by blast
  moreover have "set l \<subseteq> set content" if "l \<in> set ks" for l
  proof -
    from that ks(2) scan_fst [of "raw_lines content"] obtain r where "r \<in> set (raw_lines content)" "l = drop_cr r"
      by (auto simp: scan_lines_def)
    with raw_lines_set [of r content] drop_cr_set [of r] show ?thesis by auto
  qed
  ultimately show ?thesis using set_unlines [of ks] by (metis UN_least insert_mono order_trans)
qed

lemma first_line_split: "\<exists>t. content = first_line content @ t"
  by (induction content) auto

lemma hashBang_split: "\<exists>t. content = hashBang L content @ t"
  using first_line_split [of content] by (auto simp: hashBang_def Let_def)

lemma fits_rest: "fits content \<Longrightarrow> shebang_ok L ext (hashBang L content) \<Longrightarrow> fits (drop (length (hashBang L content)) content)"
proof -
  let ?sb = "hashBang L content"
  assume f: "fits content" and ok: "shebang_ok L ext ?sb"
  obtain t where t: "content = ?sb @ t" using hashBang_split by blast
  show "fits (drop (length ?sb) content)"
  proof (cases "?sb = []")
    case False
    with ok have "?sb = unlines [butlast ?sb]" "is_line (butlast ?sb)"
      using append_butlast_last_id [OF False] by (simp_all add: shebang_ok_def)
    then have "raw_lines content = butlast ?sb # raw_lines t"
      using raw_unlines [of "[butlast ?sb]" t] t by simp
    with f have "fits t" by (simp add: fits_def)
    moreover have "drop (length ?sb) content = t" by (metis t append_eq_conv_conj)
    ultimately show ?thesis by simp
  qed (use f in simp)
qed

lemma blank_after_header:
  assumes "status \<in> {StatusModified, StatusNew}"
  shows "blank_after (unlines (header_lines status desc ext)) = [newline]"
proof -
  have "\<exists>u. header_lines status desc ext = u @ [style ext @ '' SPDX-License-Identifier: Apache-2.0'']"
    using assms by (auto simp: header_lines_def header_texts_def comment_of_def)
  then show ?thesis by (auto simp: blank_after_def has_suffix_def has_prefix_def)
qed

lemma written_read:
  "kept_writes F path \<Longrightarrow> write_result (write_bytes F path d s) = (None, s') \<Longrightarrow> read_bytes F s' path = Inr d"
  by (cases "write_bytes F path d s") (auto simp: write_result_def kept_writes_def)

lemma apply_replaced:
  assumes "read_bytes F s path = Inr content" "\<not> isGeneratedFile content" "hasLicenseHeader L content"
    "kept_writes F path" "ApplyHeader L F path hdr s = ret (None, s')"
  shows "\<exists>info. parseContent L path content = ret (Inr info) \<and>
    read_bytes F s' path = Inr (replaceHeader L hdr info content)"
proof -
  from assms obtain r where r: "parseContent L path content = ret r"
    and s': "(case r of Inl e \<Rightarrow> ret (Some e, s)
        | Inr info \<Rightarrow> ret (write_result (write_bytes F path (replaceHeader L hdr info content) s))) =
      (ret (None, s') :: (license_error option \<times> 'a) go)"
    by (auto simp: ApplyHeader_def andThen_Inr_iff ParseFileHeader_def split: option.splits)
  then show ?thesis using written_read [OF assms(4)] by (cases r) auto
qed

text \<open>Every successful application leaves a file that is generated, or starts with the header after its shebang.\<close>

lemma apply_written:
  assumes "status \<in> {StatusModified, StatusNew}" "hdr = unlines (header_lines status desc ext)"
    "read_bytes F s path = Inr content" "fits content" "shebang_ok L ext (hashBang L content)"
    "kept_writes F path" "ApplyHeader L F path hdr s = ret (None, s')"
  shows "isGeneratedFile content \<and> s' = s \<or>
    (\<exists>rest. read_bytes F s' path = Inr (hashBang L content @ hdr @ newline # rest) \<and> fits rest \<and>
       set rest \<subseteq> insert newline (set content))"
proof -
  let ?sb = "hashBang L content"
  have blank: "blank_after hdr = [newline]" using blank_after_header [OF assms(1)] assms(2) by simp
  show ?thesis
  proof (cases "isGeneratedFile content")
    case True
    with assms(3,7) show ?thesis by (auto simp: ApplyHeader_def split: option.splits)
  next
    case gen: False
    show ?thesis
    proof (cases "hasLicenseHeader L content")
      case False
      with gen assms(3,7) have "read_bytes F s' path = Inr (insertHeader L hdr content)"
        by (intro written_read [OF assms(6)]) (auto simp: ApplyHeader_def split: option.splits)
      with assms(5) blank fits_rest [OF assms(4,5)] show ?thesis
        by (auto simp: insertHeader_def Let_def shebang_ok_def dest: in_set_dropD)
    next
      case True
      with apply_replaced [OF assms(3) gen _ assms(6,7)] obtain info where
        "read_bytes F s' path = Inr (replaceHeader L hdr info content)" by blast
      with blank fits_kept [of _ _ _ content] keep_set [of _ _ _ content] show ?thesis
        by (auto simp: replaceHeader_def Let_def)
    qed
  qed
qed


text \<open>A file that fix mode gave a header passes the check: after a successful \<open>ApplyHeader\<close> with the header that
  \<open>GenerateHeader\<close> makes for a modified or new file, \<open>CheckHeader\<close> with the same status reports a correct header,
  provided that no line is longer than the scanner's buffer, a shebang line is a comment without a license mark and
  the description is one line without a license identifier.\<close>

lemma fix_then_check:
  assumes "lower_laws L" "kept_writes F path" "status \<in> {StatusModified, StatusNew}" "desc_ok desc"
    "GenerateHeader status desc path = Inr hdr"
    "read_bytes F s path = Inr content" "fits content" "shebang_ok L (unix_ext path) (hashBang L content)"
    "ApplyHeader L F path hdr s = ret (None, s')"
  shows "CheckHeader L F path status s' = ret (Inr True)"
proof -
  have hdr: "hdr = unlines (header_lines status desc (unix_ext path))"
    using assms(3,4,5) by (simp add: generate_unlines desc_ok_def header_lines_def)
  have checked: "CheckHeader L F path status s' = ret (Inr True)"
    if "read_bytes F s' path = Inr d" "isGeneratedFile d \<or> (\<exists>info. parseContent L path d = ret (Inr info) \<and> header_correct status info)"
    for d using that
    by (auto simp: CheckHeader_def ParseFileHeader_def parseContent_def split: prod.splits if_splits)
  from apply_written [OF assms(3) hdr assms(6,7,8,2,9)] show ?thesis
  proof (elim disjE exE conjE)
    fix rest
    assume new: "read_bytes F s' path = Inr (hashBang L content @ hdr @ newline # rest)" "fits rest"
    show ?thesis
      using checked [OF new(1)] written_correct [OF assms(1,3,4) new(2) refl assms(8), OF refl] hdr by blast
  qed (use checked assms(6) in blast)
qed

text \<open>A file system of one file, for concrete runs.\<close>

definition one_file :: "string files" where
  "one_file = \<lparr>stat_file = (\<lambda>s p. None), read_bytes = (\<lambda>s p. Inr s), write_bytes = (\<lambda>p d s. (None, d))\<rparr>"

lemma one_file_simps [simp]:
  "stat_file one_file s p = None" "read_bytes one_file s p = Inr s" "write_bytes one_file p d s = (None, d)"
  by (simp_all add: one_file_def)

lemma kept_writes_one_file [simp]: "kept_writes one_file p"
  by (simp add: kept_writes_def)

lemma lower_laws_ascii [simp]: "lower_laws ascii_lower"
  by (simp add: lower_laws_def ascii_lower_def)

section \<open>Fix mode settles\<close>

lemma contains_mid: "contains (u @ t @ v) t"
  by (auto simp: contains_iff)

definition skipped :: "string \<Rightarrow> string list \<Rightarrow> string list" where
  "skipped ext ls = dropWhile (\<lambda>l. isEmptyOrEmptyComment l ext) ls"

lemma parse_end:
  assumes "ExistingCopyright info \<noteq> []" "ExistingLicenseIdentifier info \<noteq> []" "ContentStartLine info = 0"
    "ext = unix_ext path"
  shows "\<exists>info'. parseLines L ext False ls n True info = ret (Inr info') \<and>
    ContentStartLine info' = n + length (takeWhile (\<lambda>l. isEmptyOrEmptyComment l ext) ls) + 1"
  using assms(1-3)
proof (induction ls arbitrary: n info)
  case (Cons l ls)
  let ?info = "info\<lparr>HeaderLines := HeaderLines info @ [l]\<rparr>"
  from Cons.IH [of ?info "Suc n"] Cons.prems have IH: "\<exists>info'. parseLines L ext False ls (Suc n) True ?info = ret (Inr info') \<and>
    ContentStartLine info' = Suc n + length (takeWhile (\<lambda>l. isEmptyOrEmptyComment l ext) ls) + 1" by simp
  show ?case
  proof (cases "isEmptyOrEmptyComment l ext")
    case True
    then have "isCommentLine l ext \<or> trim_space l = []"
      using content_line_not_empty [of l path] assms(4) by blast
    with True IH Cons.prems show ?thesis by (auto simp: Let_def)
  qed (use Cons.prems in \<open>auto simp: Let_def\<close>)
qed auto

lemma keep_drop: "(hs \<Longrightarrow> 2 \<le> st \<or> 0 < n) \<Longrightarrow> keep_lines hs st n ls = unlines (drop (st - 1 - n) ls)"
proof (induction ls arbitrary: n)
  case (Cons l ls)
  show ?case
  proof (cases "Suc n < st")
    case True
    then have "st - 1 - n = Suc (st - 1 - Suc n)" by simp
    with True Cons.IH [of "Suc n"] show ?thesis by simp
  next
    case False
    with Cons.prems have "\<not> (n = 0 \<and> hs)" by auto
    moreover from False have "st - 1 - n = 0" "st - 1 - Suc n = 0" by auto
    ultimately show ?thesis using False Cons.IH [of "Suc n"] by simp
  qed
qed simp

lemma drop_take_while: "drop (length (takeWhile P xs)) xs = dropWhile P xs"
  by (metis dropWhile_eq_drop)

lemma empty_line_skipped: "isEmptyOrEmptyComment [] (unix_ext p)"
proof -
  have "trim_space [] = []" by code_simp
  then show ?thesis by (simp add: empty_comment_iff)
qed


lemma first_line_append: "is_line t \<Longrightarrow> first_line (t @ newline # y) = t @ [newline]"
  by (induction t) (auto simp: is_line_def)

lemma header_start:
  assumes "status \<in> {StatusModified, StatusNew}"
  shows "\<exists>t u. is_ascii t \<and> is_line t \<and> unlines (header_lines status desc ext) = style ext @ '' Copyright'' @ t @ newline # u"
proof -
  have a: "is_ascii '' New Relic, Inc. All rights reserved.''" "is_ascii '' The OpenTelemetry Authors''" by code_simp+
  have l: "is_line '' New Relic, Inc. All rights reserved.''" "is_line '' The OpenTelemetry Authors''"
    by (simp_all add: is_line_def)
  from assms consider "status = StatusModified" | "status = StatusNew" by blast
  then show ?thesis
  proof cases
    case 1
    then have "\<exists>u. unlines (header_lines status desc ext) = style ext @ '' Copyright'' @ '' The OpenTelemetry Authors'' @ newline # u"
      by (simp add: header_lines_def header_texts_def comment_of_def)
    with a l show ?thesis by blast
  next
    case 2
    then have "\<exists>u. unlines (header_lines status desc ext) =
        style ext @ '' Copyright'' @ '' New Relic, Inc. All rights reserved.'' @ newline # u"
      by (simp add: header_lines_def header_texts_def comment_of_def)
    with a l show ?thesis by blast
  qed
qed

lemma shebang_kept:
  assumes "lower_laws L" "status \<in> {StatusModified, StatusNew}" "sb = hashBang L content" "shebang_ok L ext sb"
  shows "hashBang L (sb @ unlines (header_lines status desc ext) @ r) = sb"
proof (cases "sb = []")
  case True
  obtain t u where t: "is_ascii t" "is_line t"
    "unlines (header_lines status desc ext) = style ext @ '' Copyright'' @ t @ newline # u"
    using header_start [OF assms(2)] by blast
  let ?l = "style ext @ '' Copyright'' @ t"
  have "is_line ?l" "is_ascii (?l @ [newline])"
    using t(1,2) style_cases [of ext] by (auto simp: is_line_def is_ascii_def)
  then have "first_line (unlines (header_lines status desc ext) @ r) = ?l @ [newline]"
    "L (?l @ [newline]) = ascii_lower (?l @ [newline])"
    using first_line_append [of ?l "u @ r"] t(3) lower_ascii [OF assms(1)] by simp_all
  moreover have "\<not> has_prefix (ascii_lower (?l @ [newline])) ''#!''"
    using style_cases [of ext] by (elim disjE) (simp_all add: ascii_lower_def has_prefix_def lower_byte_def)
  ultimately show ?thesis using True by (simp add: hashBang_def fileHeaderPrefixes_def Let_def)
next
  case False
  with assms(3) have f: "first_line content = sb" "list_ex (has_prefix (L sb)) fileHeaderPrefixes"
    by (auto simp: hashBang_def Let_def split: if_splits)
  from False assms(4) have "is_line (butlast sb)" "sb = butlast sb @ [newline]"
    using append_butlast_last_id [OF False] by (auto simp: shebang_ok_def)
  then have "first_line (sb @ y) = sb" for y using first_line_append [of "butlast sb" y] by (metis append.assoc append_Cons append_Nil)
  with f show ?thesis by (simp add: hashBang_def Let_def)
qed

lemma license_found:
  assumes "lower_laws L" "status \<in> {StatusModified, StatusNew}" "length sb \<le> 900"
  shows "hasLicenseHeader L (sb @ unlines (header_lines status desc ext) @ r)"
proof -
  obtain t0 u0 where "unlines (header_lines status desc ext) = style ext @ '' Copyright'' @ t0 @ newline # u0"
    using header_start [OF assms(2)] by blast
  then obtain t where t: "unlines (header_lines status desc ext) @ r = style ext @ '' Copyright'' @ t" by simp
  let ?u = "sb @ style ext @ '' ''"
  have len: "length (?u @ ''Copyright'') \<le> 1000" using assms(3) style_cases [of ext] by auto
  have "sb @ unlines (header_lines status desc ext) @ r = (?u @ ''Copyright'') @ t" using t by simp
  then have v: "take 1000 (sb @ unlines (header_lines status desc ext) @ r) =
      ?u @ ''Copyright'' @ take (1000 - length (?u @ ''Copyright'')) t" (is "_ = _ @ _ @ ?v")
    using len by (simp only: take_append take_all) simp
  have "ascii_lower ''Copyright'' = ''copyright''" "is_ascii ''Copyright''" by code_simp+
  then have "L (take 1000 (sb @ unlines (header_lines status desc ext) @ r)) = L ?u @ ''copyright'' @ L ?v"
    unfolding v using lower_mid [OF assms(1), of "''Copyright''" ?u ?v] by simp
  then show ?thesis
    using contains_mid [of "L ?u" "''copyright''" "L ?v"] v by (auto simp: hasLicenseHeader_def Let_def)
qed


lemma replace_again:
  assumes "lower_laws L" "status \<in> {StatusModified, StatusNew}" "desc_ok desc" "fits rest" "ext = unix_ext path"
    "sb = hashBang L content" "shebang_ok L ext sb" "hdr = unlines (header_lines status desc ext)"
    "\<not> isGeneratedFile (sb @ hdr @ newline # rest)"
    "parseContent L path (sb @ hdr @ newline # rest) = ret (Inr info)"
  shows "replaceHeader L hdr info (sb @ hdr @ newline # rest) =
    sb @ hdr @ newline # unlines (skipped ext (map drop_cr (raw_lines rest)))"
proof -
  let ?hl = "header_lines status desc ext" let ?ts = "map drop_cr (raw_lines rest)"
  let ?k = "if sb = [] then 0 else (1 :: nat)"
  define pl where "pl = (if sb = [] then [] else [drop_cr (butlast sb)])"
  have pl: "length pl = ?k" by (simp add: pl_def)
  have toks: "fst (scan_lines (sb @ hdr @ newline # rest)) = pl @ ?hl @ [] # ?ts"
    using assms(7,8) scan_written [OF assms(2-4)] scan_shebang [of sb] by (auto simp: pl_def shebang_ok_def)
  note parse = parse_written [OF assms(1-5,7) refl, folded assms(8), OF assms(9)]
  have "ExistingCopyright (header_info status desc ext) \<noteq> []" "ExistingLicenseIdentifier (header_info status desc ext) \<noteq> []"
    "ContentStartLine (header_info status desc ext) = 0" by (simp_all add: header_info_def)
  from parse_end [OF this assms(5), of L "[] # ?ts" "?k + length ?hl"]
  obtain info' where "parseLines L ext False ([] # ?ts) (?k + length ?hl) True (header_info status desc ext) = ret (Inr info')"
    "ContentStartLine info' = ?k + length ?hl + length (takeWhile (\<lambda>l. isEmptyOrEmptyComment l ext) ([] # ?ts)) + 1"
    by blast
  with parse assms(10) have start: "ContentStartLine info =
      ?k + length ?hl + length (takeWhile (\<lambda>l. isEmptyOrEmptyComment l ext) ?ts) + 2"
    using empty_line_skipped [of path] assms(5) by (simp del: parseLines.simps)
  have hb: "hashBang L (sb @ hdr @ newline # rest) = sb"
    using shebang_kept [OF assms(1,2,6,7)] assms(8) by simp
  have "keep_lines (sb \<noteq> []) (ContentStartLine info) 0 (pl @ ?hl @ [] # ?ts) =
      unlines (drop (ContentStartLine info - 1 - 0) (pl @ ?hl @ [] # ?ts))"
    by (rule keep_drop) (simp add: start)
  also have "drop (ContentStartLine info - 1 - 0) (pl @ ?hl @ [] # ?ts) = skipped ext ?ts"
    by (simp add: start pl skipped_def drop_take_while)
  finally show ?thesis
    using hb toks blank_after_header [OF assms(2)] assms(8) by (simp add: replaceHeader_def Let_def)
qed

lemma apply_again:
  assumes "lower_laws L" "kept_writes F path" "status \<in> {StatusModified, StatusNew}" "desc_ok desc" "fits rest"
    "ext = unix_ext path" "sb = hashBang L content" "shebang_ok L ext sb" "length sb \<le> 900"
    "hdr = unlines (header_lines status desc ext)"
    "read_bytes F s path = Inr (sb @ hdr @ newline # rest)"
    "ApplyHeader L F path hdr s = ret (None, s')"
  shows "isGeneratedFile (sb @ hdr @ newline # rest) \<and> s' = s \<or>
    read_bytes F s' path = Inr (sb @ hdr @ newline # unlines (skipped ext (map drop_cr (raw_lines rest))))"
proof (cases "isGeneratedFile (sb @ hdr @ newline # rest)")
  case True
  with assms(11,12) show ?thesis by (auto simp: ApplyHeader_def split: option.splits)
next
  case False
  have "hasLicenseHeader L (sb @ hdr @ newline # rest)"
    using license_found [OF assms(1,3,9)] assms(10) by simp
  from apply_replaced [OF assms(11) False this assms(2,12)] obtain info where
    "parseContent L path (sb @ hdr @ newline # rest) = ret (Inr info)"
    "read_bytes F s' path = Inr (replaceHeader L hdr info (sb @ hdr @ newline # rest))" by blast
  with replace_again [OF assms(1,3-8,10) False] show ?thesis by simp
qed

lemma skipped_settles:
  assumes "CHR 0x0D \<notin> set rest" "rest' = unlines (skipped ext (map drop_cr (raw_lines rest)))"
  shows "unlines (skipped ext (map drop_cr (raw_lines rest'))) = rest'" "fits rest \<Longrightarrow> fits rest'"
proof -
  have cr: "drop_cr l = l" if "l \<in> set (raw_lines rest)" for l
    using that raw_lines_set [OF that] assms(1) by (auto simp: drop_cr_def trim_suffix_def has_suffix_iff)
  then have "map drop_cr (raw_lines rest) = raw_lines rest" by (simp add: map_idI)
  with assms(2) have r: "rest' = unlines (skipped ext (raw_lines rest))" by simp
  have sub: "set (skipped ext (raw_lines rest)) \<subseteq> set (raw_lines rest)"
    by (auto simp: skipped_def dest: set_dropWhileD)
  then have lines: "list_all is_line (skipped ext (raw_lines rest))"
    using raw_is_line [of rest] by (auto simp: list_all_iff)
  have "map drop_cr (skipped ext (raw_lines rest)) = skipped ext (raw_lines rest)"
    using cr sub by (auto intro: map_idI)
  then show "unlines (skipped ext (map drop_cr (raw_lines rest'))) = rest'"
    using lines r by (simp add: raw_unlines_only skipped_def dropWhile_idem)
  show "fits rest \<Longrightarrow> fits rest'"
    unfolding r using lines sub by (intro fits_unlines) (auto simp: fits_def list_all_iff)
qed

text \<open>C31: Fix mode settles: when three applications of the same generated header succeed, the third leaves the file as
  it is, for a file without carriage returns and over-long lines whose shebang line, if any, is a comment without a
  license mark of at most 900 bytes.\<close>

theorem fix_settles:
  assumes "lower_laws L" "kept_writes F path" "status \<in> {StatusModified, StatusNew}" "desc_ok desc"
    "GenerateHeader status desc path = Inr hdr"
    "read_bytes F s path = Inr content" "fits content" "CHR 0x0D \<notin> set content"
    "shebang_ok L (unix_ext path) (hashBang L content)" "length (hashBang L content) \<le> 900"
    "ApplyHeader L F path hdr s = ret (None, s1)" "ApplyHeader L F path hdr s1 = ret (None, s2)"
    "ApplyHeader L F path hdr s2 = ret (None, s3)"
  shows "read_bytes F s3 path = read_bytes F s2 path"
proof -
  let ?sb = "hashBang L content" let ?ext = "unix_ext path"
  have hdr: "hdr = unlines (header_lines status desc ?ext)"
    using assms(3,4,5) by (simp add: generate_unlines desc_ok_def header_lines_def)
  have gen: "t' = t" if "read_bytes F t path = Inr c" "isGeneratedFile c" "ApplyHeader L F path hdr t = ret (None, t')" for t t' c
    using that by (auto simp: ApplyHeader_def split: option.splits)
  note again = apply_again [OF assms(1-4) _ refl refl assms(9,10) hdr]
  from apply_written [OF assms(3) hdr assms(6,7,9,2,11)] show ?thesis
  proof (elim disjE exE conjE)
    assume "isGeneratedFile content" "s1 = s"
    with gen assms(6,12,13) show ?thesis by metis
  next
    fix rest
    assume c1: "read_bytes F s1 path = Inr (?sb @ hdr @ newline # rest)" and f: "fits rest"
      and cr: "set rest \<subseteq> insert newline (set content)"
    let ?rest' = "unlines (skipped ?ext (map drop_cr (raw_lines rest)))"
    have "CHR 0x0D \<notin> set rest" using cr assms(8) by auto
    note settle = skipped_settles [OF this refl, of ?ext]
    from again [OF f c1 assms(12)] show ?thesis
    proof (elim disjE conjE)
      assume "isGeneratedFile (?sb @ hdr @ newline # rest)" "s2 = s1"
      with gen c1 assms(13) show ?thesis by metis
    next
      assume c2: "read_bytes F s2 path = Inr (?sb @ hdr @ newline # ?rest')"
      from again [OF settle(2) [OF f] c2 assms(13)] settle(1) c2 show ?thesis by auto
    qed
  qed
qed

lemma one_file_again:
  assumes "lower_laws L" "status \<in> {StatusModified, StatusNew}" "desc_ok desc" "fits rest"
    "hdr = unlines (header_lines status desc (unix_ext path))"
  shows "\<exists>s'. ApplyHeader L one_file path hdr (hdr @ newline # rest) = ret (None, s')"
proof -
  have "\<exists>info. parseContent L path (hdr @ newline # rest) = ret (Inr info)" if "\<not> isGeneratedFile (hdr @ newline # rest)"
    using written_correct [OF assms(1-4) refl _ refl, where sb = "[]" and path = path] that assms(5)
    by (auto simp: shebang_ok_def)
  moreover have "hasLicenseHeader L (hdr @ newline # rest)"
    using license_found [OF assms(1,2), of "[]"] assms(5) by simp
  ultimately show ?thesis by (auto simp: ApplyHeader_def ParseFileHeader_def write_result_def)
qed

theorem fix_settles_witness:
  "\<exists>hdr s1 s2 s3. ApplyHeader ascii_lower one_file ''a.go'' hdr ''package p'' = ret (None, s1) \<and>
     ApplyHeader ascii_lower one_file ''a.go'' hdr s1 = ret (None, s2) \<and>
     ApplyHeader ascii_lower one_file ''a.go'' hdr s2 = ret (None, s3) \<and> s3 = s2"
proof -
  let ?c = "''package p''" let ?A = "ApplyHeader ascii_lower one_file ''a.go''"
  have g: "\<not> isGeneratedFile ?c" "\<not> hasLicenseHeader ascii_lower ?c" "hashBang ascii_lower ?c = []"
    "raw_lines ?c = [?c]" "\<not> containsLicenseIdentifier []" by code_simp+
  have d: "desc_ok []" "fits ?c" "shebang_ok ascii_lower (unix_ext ''a.go'') (hashBang ascii_lower ?c)"
    using g(3-5) by (simp_all add: desc_ok_def fits_def is_line_def maxToken_def shebang_ok_def)
  define hdr where "hdr = unlines (header_lines StatusNew [] (unix_ext ''a.go''))"
  have h: "GenerateHeader StatusNew [] ''a.go'' = Inr hdr"
    using generate_unlines [of StatusNew "[]" "''a.go''"] by (simp add: is_line_def hdr_def header_lines_def)
  have a1: "?A hdr ?c = ret (None, hdr @ newline # ?c)"
    using g(1-3) blank_after_header [of StatusNew "[]" "unix_ext ''a.go''"]
    by (simp add: ApplyHeader_def write_result_def insertHeader_def hdr_def)
  note again = one_file_again [OF lower_laws_ascii _ d(1) _ hdr_def]
  obtain s2 where a2: "?A hdr (hdr @ newline # ?c) = ret (None, s2)" using again d(2) by blast
  have rb: "read_bytes one_file (hdr @ newline # ?c) ''a.go'' = Inr ([] @ hdr @ newline # ?c)" by simp
  have "\<exists>s3. ?A hdr s2 = ret (None, s3)"
    using apply_again [OF lower_laws_ascii kept_writes_one_file _ d(1,2) refl g(3) [symmetric] _ _ hdr_def rb a2]
      again a2 skipped_settles(2) [OF _ refl d(2)] by (auto simp: shebang_ok_def)
  then obtain s3 where a3: "?A hdr s2 = ret (None, s3)" by blast
  have "read_bytes one_file s3 ''a.go'' = read_bytes one_file s2 ''a.go''"
    using fix_settles [OF lower_laws_ascii kept_writes_one_file _ d(1) h _ d(2) _ d(3) _ a1 a2 a3] g(3) by simp
  with a1 a2 a3 show ?thesis by auto
qed

section \<open>Files with a license mark but no header\<close>

definition plain_comment :: "(string \<Rightarrow> string) \<Rightarrow> string \<Rightarrow> string \<Rightarrow> bool" where
  "plain_comment L ext l \<longleftrightarrow> (isCommentLine l ext \<or> trim_space l = []) \<and>
     \<not> containsCopyright L l \<and> \<not> containsLicenseIdentifier l"

lemma parse_no_header:
  assumes "list_all (plain_comment L ext) pre" "trim_space l \<noteq> []" "\<not> isCommentLine l ext"
  shows "parseLines L ext long (pre @ l # post) n False info =
    ret (Inr (info\<lparr>ContentStartLine := n + length pre + 1\<rparr>))"
  using assms(1) by (induction pre arbitrary: n) (use assms(2,3) in \<open>auto simp: plain_comment_def Let_def\<close>)

text \<open>When one of the first 1000 bytes of a file belongs to a mention of a copyright or license but no comment before the
  code carries such a mark, fix mode replaces everything before the first line of code, all comments there
  included, by the new header, and drops whatever follows a line that exceeds the scanner's buffer.\<close>

theorem comments_dropped:
  assumes "kept_writes F path" "read_bytes F s path = Inr content" "\<not> isGeneratedFile content"
    "hasLicenseHeader L content" "hashBang L content = []" "scan_lines content = (pre @ l # post, long)"
    "list_all (plain_comment L (unix_ext path)) pre" "trim_space l \<noteq> []" "\<not> isCommentLine l (unix_ext path)"
    "ApplyHeader L F path hdr s = ret (None, s')"
  shows "read_bytes F s' path = Inr (hdr @ blank_after hdr @ unlines (l # post))"
proof -
  obtain info where info: "parseContent L path content = ret (Inr info)"
    "read_bytes F s' path = Inr (replaceHeader L hdr info content)"
    using apply_replaced [OF assms(2-4,1,10)] by blast
  have "ContentStartLine info = length pre + 1"
    using info(1) assms(3,6) parse_no_header [OF assms(7-9)] by (auto simp: parseContent_def)
  with info(2) assms(5,6) show ?thesis by (simp add: replaceHeader_def keep_drop)
qed

theorem comments_dropped_witness:
  "ApplyHeader ascii_lower one_file ''a.go'' [] (unlines [''// Package p does x.'', ''package p'', ''// copyright check'']) =
     ret (None, newline # unlines [''package p'', ''// copyright check''])"
proof -
  let ?ls = "[''// Package p does x.'', ''package p'', ''// copyright check'']" let ?c = "unlines ?ls"
  have g: "\<not> isGeneratedFile ?c" "hasLicenseHeader ascii_lower ?c" "hashBang ascii_lower ?c = []"
    "unix_ext ''a.go'' = ''.go''" "blank_after [] = [newline]"
    "\<not> contains (ascii_lower ''// Package p does x.'') ''copyright''"
    "\<not> contains ''// Package p does x.'' ''SPDX-License-Identifier''"
    by code_simp+
  have sc: "scan_lines ?c = (?ls, False)"
  proof -
    have "list_all is_line ?ls" by (simp add: is_line_def)
    from raw_unlines_only [OF this] have "scan_lines ?c = scan ?ls" by (simp only: scan_lines_def)
    then show ?thesis by (simp add: maxToken_def drop_cr_id del: unlines_simps)
  qed
  have t: "trim_space ''// Package p does x.'' = ''// Package p does x.''" "trim_space ''package p'' = ''package p''"
    by (auto intro!: trim_graphic simp: graphic_def)
  have p: "list_all (plain_comment ascii_lower (unix_ext ''a.go'')) [''// Package p does x.'']"
    "trim_space ''package p'' \<noteq> []" "\<not> isCommentLine ''package p'' (unix_ext ''a.go'')"
    using g(6,7) t by (simp_all add: plain_comment_def isCommentLine_def has_prefix_def containsCopyright_def
        containsLicenseIdentifier_def g(4))
  have "parseContent ascii_lower ''a.go'' ?c = ret (Inr (noHeader\<lparr>ContentStartLine := 2\<rparr>))"
    using parse_no_header [OF p, of False "[''// copyright check'']" 0 noHeader] g(1) sc
    by (simp add: parseContent_def del: parseLines.simps)
  then have a: "ApplyHeader ascii_lower one_file ''a.go'' [] ?c = ret (None, replaceHeader ascii_lower [] (noHeader\<lparr>ContentStartLine := 2\<rparr>) ?c)"
    using g(1,2) by (simp add: ApplyHeader_def ParseFileHeader_def write_result_def)
  have "scan_lines ?c = ([''// Package p does x.''] @ ''package p'' # [''// copyright check''], False)" using sc by simp
  from comments_dropped [OF kept_writes_one_file _ g(1-3) this p a] g(5) a show ?thesis by simp
qed

text \<open>What follows a line that exceeds the buffer is lost when a header is replaced.\<close>

lemma scan_long:
  "list_all (\<lambda>l. length l < maxToken) us \<Longrightarrow> maxToken \<le> length v \<Longrightarrow> scan (us @ v # ws) = (map drop_cr us, True)"
  by (induction us) auto

lemma long_line_truncates:
  assumes "list_all is_line us" "list_all (\<lambda>l. length l < maxToken) us" "is_line v" "maxToken \<le> length v" "us \<noteq> []"
  shows "replaceHeader L hdr info (unlines (us @ [v]) @ w) = replaceHeader L hdr info (unlines us)"
proof -
  have "first_line (unlines us @ y) = first_line (unlines us)" for y
    using assms(1,5) by (cases us) (auto simp: first_line_append)
  from this [of "v @ newline # w"] this [of "[]"]
  have "hashBang L (unlines (us @ [v]) @ w) = hashBang L (unlines us)" by (simp add: hashBang_def)
  moreover have "raw_lines (unlines (us @ [v]) @ w) = us @ v # raw_lines w"
    using raw_unlines [of "us @ [v]" w] assms(1,3) by simp
  then have "fst (scan_lines (unlines (us @ [v]) @ w)) = map drop_cr us"
    using scan_long [OF assms(2,4)] by (simp add: scan_lines_def)
  moreover have "fst (scan_lines (unlines us)) = map drop_cr us"
    using assms(1,2) by (simp add: scan_lines_def raw_unlines_only scan_short)
  ultimately show ?thesis by (simp add: replaceHeader_def Let_def)
qed

text \<open>An SPDX identifier on the first line of the header is not recorded.\<close>

lemma parse_no_license:
  assumes "\<not> list_ex containsLicenseIdentifier ls" "parseLines L ext long ls n h info = ret (Inr info')"
  shows "ExistingLicenseIdentifier info' = ExistingLicenseIdentifier info"
  using assms
proof (induction L ext long ls n h info rule: parseLines.induct)
  case (2 L ext long line lines lineNum inHeader info)
  from 2(4) have no: "\<not> containsLicenseIdentifier line" "\<not> list_ex containsLicenseIdentifier lines" by auto
  show ?case
    using 2(5) no 2(1) [OF refl _ _ no(2)] 2(2) [OF refl _ _ _ _ _ no(2)] 2(3) [OF refl _ _ _ no(2)]
    by (auto simp: Let_def andThen_Inr_iff split: if_splits)
qed (auto split: if_splits)

lemma spdx_first_ignored:
  assumes "isCommentLine l ext" "containsLicenseIdentifier l" "\<not> list_ex containsLicenseIdentifier ls"
    "parseLines L ext long (l # ls) 0 False noHeader = ret (Inr info)" "status \<in> {StatusModified, StatusNew}"
  shows "\<not> header_correct status info"
proof -
  obtain c where "parseLines L ext long ls 1 True
      (noHeader\<lparr>HasHeader := True, HeaderLines := [l], ExistingCopyright := c\<rparr>) = ret (Inr info)"
    using assms(1,2,4) by (auto simp: andThen_Inr_iff noHeader_def Let_def split: if_splits)
  from parse_no_license [OF assms(3) this] have "ExistingLicenseIdentifier info = []" by (simp add: noHeader_def)
  moreover have "\<not> contains [] ''Apache-2.0''" by code_simp
  ultimately show ?thesis using assms(5) by (auto simp: header_correct_def)
qed

end
