(* ===== verification/Nr_License.thy ===== *)
theory Nr_License
  imports Nr_Header
begin

text \<open>
  The license checker command (cmd/nrlicense: detector.go, processor.go, main.go): the status of a file
  relative to the fork commit, the processing of one file and of all files, the choice of files and the
  command line. Git, the working directory and the directory walk are parameters (\<open>world\<close>); what is
  printed is not modelled.
\<close>

section \<open>The outside world\<close>

text \<open>
  The outcome of \<open>cmd.Run\<close>, \<open>cmd.Output\<close> and \<open>cmd.CombinedOutput\<close>: the output, a non-zero exit code
  (\<open>exec.ExitError\<close>) or any other failure. \<open>git s args\<close> is the run of git in state \<open>s\<close>.
  \<open>visits\<close> is what \<open>filepath.Walk\<close> passes to its callback, in order: a path with an error, or with
  whether it is a directory.
\<close>

datatype outcome = Done string | Exited int string | Failed string

record 's world = "'s files" +
  git :: "'s \<Rightarrow> string list \<Rightarrow> outcome"
  getwd :: "'s \<Rightarrow> string + string"
  is_dir :: "'s \<Rightarrow> string \<Rightarrow> bool option"
  visits :: "'s \<Rightarrow> string \<Rightarrow> (string \<times> (string + bool)) list"
  glob :: "'s \<Rightarrow> string \<Rightarrow> string + string list"

definition output_of :: "outcome \<Rightarrow> string + string" where
  "output_of r = (case r of Done out \<Rightarrow> Inr out | Exited c e \<Rightarrow> Inl e | Failed e \<Rightarrow> Inl e)"

section \<open>The detector\<close>

record GitDetector =
  forkCommit :: string
  forkDate :: string
  repoRoot :: string

text \<open>\<open>filepath.Abs\<close> on Unix.\<close>

definition absPath :: "('s, 'z) world_scheme \<Rightarrow> 's \<Rightarrow> string \<Rightarrow> string + string" where
  "absPath W s path =
     (if unix_is_abs path then Inr (unix_clean path)
      else case getwd W s of Inl e \<Rightarrow> Inl e | Inr wd \<Rightarrow> Inr (unix_join [wd, path]))"

definition validatePath :: "('s, 'z) world_scheme \<Rightarrow> GitDetector \<Rightarrow> 's \<Rightarrow> string \<Rightarrow> license_error option" where
  "validatePath W d s filePath =
     (case absPath W s filePath of
        Inl e \<Rightarrow> Some (In ''resolving absolute path'' (OsError e))
      | Inr absP \<Rightarrow>
          if \<not> has_prefix (unix_clean absP) (unix_clean (repoRoot d)) then Some (OutsideRepo absP) else None)"

definition getDateAfterForkCommit :: "('s, 'z) world_scheme \<Rightarrow> 's \<Rightarrow> string \<Rightarrow> license_error + string" where
  "getDateAfterForkCommit W s commit =
     (let commitRange = commit @ ''..''
      in case output_of (git W s [''log'', ''--reverse'', commitRange, ''--format=%cs'']) of
           Inl e \<Rightarrow> Inl (In ''getting next commit date'' (GitError e))
         | Inr out \<Rightarrow>
             (let date = trim_space (hd (split_on newline out))
              in if date = [] then Inl (GitError (''no commits found after fork point '' @ commit)) else Inr date))"

definition NewGitDetector :: "('s, 'z) world_scheme \<Rightarrow> 's \<Rightarrow> string \<Rightarrow> license_error + GitDetector" where
  "NewGitDetector W s commit =
     (case output_of (git W s [''rev-parse'', ''--show-toplevel'']) of
        Inl e \<Rightarrow> Inl (In ''not in a git repository'' (GitError e))
      | Inr out \<Rightarrow>
        (let root = unix_clean (trim_space out)
         in case output_of (git W s [''rev-parse'', ''--verify'', commit]) of
              Inl e \<Rightarrow> Inl (In (''fork commit '' @ commit @ '' not found'') (GitError e))
            | Inr _ \<Rightarrow>
              (case output_of (git W s [''rev-parse'', ''--is-shallow-repository'']) of
                 Inl e \<Rightarrow> Inl (In ''checking if shallow repository'' (GitError e))
               | Inr out2 \<Rightarrow>
                   if trim_space out2 = ''true'' \<and>
                      (case output_of (git W s [''cat-file'', ''-e'', commit]) of Inl _ \<Rightarrow> True | Inr _ \<Rightarrow> False)
                   then Inl (GitError (''fork commit '' @ commit @ '' is not reachable in shallow repository''))
                   else (case getDateAfterForkCommit W s commit of
                           Inl e \<Rightarrow> Inl e
                         | Inr date \<Rightarrow> Inr \<lparr>forkCommit = commit, forkDate = date, repoRoot = root\<rparr>))))"

definition fileExistsAtCommit :: "('s, 'z) world_scheme \<Rightarrow> 's \<Rightarrow> string \<Rightarrow> string \<Rightarrow> license_error + bool" where
  "fileExistsAtCommit W s filePath commit =
     (case git W s [''cat-file'', ''-e'', commit @ '':'' @ filePath] of
        Done _ \<Rightarrow> Inr True
      | Exited c e \<Rightarrow> if c = 128 then Inr False else Inl (GitError e)
      | Failed e \<Rightarrow> Inl (GitError e))"

definition fileDiffSince :: "('s, 'z) world_scheme \<Rightarrow> 's \<Rightarrow> string \<Rightarrow> string \<Rightarrow> license_error + bool" where
  "fileDiffSince W s filePath commit =
     (case output_of (git W s [''diff'', commit, ''--'', filePath]) of
        Inl e \<Rightarrow> Inl (In ''getting file diff since'' (GitError e))
      | Inr out \<Rightarrow> Inr (0 < length out))"

definition GetFileStatus :: "('s, 'z) world_scheme \<Rightarrow> GitDetector \<Rightarrow> 's \<Rightarrow> string \<Rightarrow> license_error + FileStatus" where
  "GetFileStatus W d s filePath =
     (case validatePath W d s filePath of
        Some e \<Rightarrow> Inl e
      | None \<Rightarrow>
        (case fileExistsAtCommit W s filePath (forkCommit d) of
           Inl e \<Rightarrow> Inl (In ''checking if file exists at fork'' e)
         | Inr existsAtFork \<Rightarrow>
             if \<not> existsAtFork then Inr StatusNew
             else (case fileDiffSince W s filePath (forkCommit d) of
                     Inl e \<Rightarrow> Inl (In ''checking if file modified'' e)
                   | Inr modified \<Rightarrow> Inr (if modified then StatusModified else StatusUnmodified))))"

definition GetFileContentAtFork :: "('s, 'z) world_scheme \<Rightarrow> GitDetector \<Rightarrow> 's \<Rightarrow> string \<Rightarrow> license_error + string" where
  "GetFileContentAtFork W d s filePath =
     (case output_of (git W s [''show'', forkCommit d @ '':'' @ filePath]) of
        Inl e \<Rightarrow> Inl (In ''getting file content at fork'' (GitError e))
      | Inr out \<Rightarrow> Inr out)"

definition GetModificationDescription :: "GitDetector \<Rightarrow> string \<Rightarrow> string" where
  "GetModificationDescription d filePath =
     ''https://github.com/newrelic/nrdot-collector-components/commits/main/'' @ unix_clean filePath @
     ''?since='' @ forkDate d"

section \<open>The processor\<close>

record Processor =
  detector :: GitDetector
  dryRun :: bool
  checkMode :: bool
  processed :: nat
  modified :: nat
  failed :: nat
  needsUpdate :: nat

text \<open>
  The field \<open>verbose\<close> only adds messages and is left out. One file: the result is the error, if any, and the new state of the processor and of the files. The
  counters are \<open>int32\<close>, which the number of files of a run does not exceed.
\<close>

definition checkFile :: "(string \<Rightarrow> string) \<Rightarrow> ('s, 'z) world_scheme \<Rightarrow> string \<Rightarrow> FileStatus \<Rightarrow> Processor \<Rightarrow> 's
    \<Rightarrow> (license_error option \<times> Processor \<times> 's) go" where
  "checkFile L W filePath status p s =
     andThen (CheckHeader L (files.truncate W) filePath status s) (\<lambda>r. ret (case r of
         Inl e \<Rightarrow> (Some (In ''checking header'' e), p, s)
       | Inr correct \<Rightarrow>
           (None, if correct then p else p\<lparr>needsUpdate := needsUpdate p + 1\<rparr>, s)))"

definition processFile :: "(string \<Rightarrow> string) \<Rightarrow> ('s, 'z) world_scheme \<Rightarrow> string \<Rightarrow> Processor \<Rightarrow> 's
    \<Rightarrow> (license_error option \<times> Processor \<times> 's) go" where
  "processFile L W filePath p0 s =
     (let p = p0\<lparr>processed := processed p0 + 1\<rparr>
      in andThen (ParseFileHeader L (files.truncate W) filePath s) (\<lambda>h. case h of
           Inl e \<Rightarrow> ret (Some (In ''parsing header'' e), p, s)
         | Inr headerInfo \<Rightarrow>
             if IsGenerated headerInfo then ret (None, p, s)
             else case GetFileStatus W (detector p) s filePath of
               Inl e \<Rightarrow> ret (Some (In ''detecting status'' e), p, s)
             | Inr status \<Rightarrow>
                 if status = StatusUnmodified then
                   (if checkMode p then checkFile L W filePath status p s else ret (None, p, s))
                 else
                   (let modDescription = (if status = StatusModified
                          then GetModificationDescription (detector p) filePath else [])
                    in case GenerateHeader status modDescription filePath of
                         Inl e \<Rightarrow> ret (Some (In ''generating header'' e), p, s)
                       | Inr newHeader \<Rightarrow>
                           if newHeader = [] then ret (None, p, s)
                           else if checkMode p then checkFile L W filePath status p s
                           else if dryRun p then ret (None, p\<lparr>modified := modified p + 1\<rparr>, s)
                           else andThen (ApplyHeader L (files.truncate W) filePath newHeader s) (\<lambda>(err, s').
                             ret (case err of
                                 Some e \<Rightarrow> (Some (In ''applying header'' e), p, s')
                               | None \<Rightarrow> (None, p\<lparr>modified := modified p + 1\<rparr>, s'))))))"

text \<open>
  \<open>ProcessFiles\<close> starts one goroutine per file, ten of which work at a time. Each works on its own
  file, so their effects are those of some order of the files; an error is counted, a panic ends the
  program.
\<close>

fun processAll :: "(string \<Rightarrow> string) \<Rightarrow> ('s, 'z) world_scheme \<Rightarrow> string list \<Rightarrow> Processor \<Rightarrow> 's \<Rightarrow> (Processor \<times> 's) go" where
  "processAll L W [] p s = ret (p, s)"
| "processAll L W (f # fs) p s =
     andThen (processFile L W f p s) (\<lambda>(err, p1, s1).
       processAll L W fs (if err = None then p1 else p1\<lparr>failed := failed p1 + 1\<rparr>) s1)"

definition exit_code :: "Processor \<Rightarrow> nat" where
  "exit_code p = (if 0 < failed p then 1 else if checkMode p \<and> 0 < needsUpdate p then 1 else 0)"

definition ProcessFiles :: "(string \<Rightarrow> string) \<Rightarrow> ('s, 'z) world_scheme \<Rightarrow> nat list \<Rightarrow> string list \<Rightarrow> Processor \<Rightarrow> 's
    \<Rightarrow> (nat \<times> Processor \<times> 's) go" where
  "ProcessFiles L W order files p s =
     andThen (processAll L W (shuffle order files) p s) (\<lambda>(p', s'). ret (exit_code p', p', s'))"

section \<open>The files and the command line\<close>

definition shouldProcessFile :: "string \<Rightarrow> bool" where
  "shouldProcessFile path =
     (if contains path ''/vendor/'' \<or> contains path ''/node_modules/'' \<or> contains path ''/.git/'' \<or>
         contains path ''/third_party/'' then False
      else unix_ext path \<in> {''.go'', ''.sh'', ''.py'', ''.java'', ''.js'', ''.ts'', ''.proto''})"

text \<open>The callback: an error ends a walk; the map \<open>seen\<close> and the list \<open>files\<close> hold the same paths.\<close>

definition collectFile :: "string \<times> (string + bool) \<Rightarrow> string list \<Rightarrow> string + string list" where
  "collectFile = (\<lambda>(path, info) files.
     case info of
       Inl e \<Rightarrow> Inl e
     | Inr isDir \<Rightarrow>
         Inr (if \<not> isDir \<and> path \<notin> set files \<and> shouldProcessFile path then files @ [path] else files))"

fun walkFiles :: "(string \<times> (string + bool)) list \<Rightarrow> string list \<Rightarrow> string + string list" where
  "walkFiles [] files = Inr files"
| "walkFiles (v # vs) files = (case collectFile v files of Inl e \<Rightarrow> Inl e | Inr files' \<Rightarrow> walkFiles vs files')"

definition statInfo :: "('s, 'z) world_scheme \<Rightarrow> 's \<Rightarrow> string \<Rightarrow> string + bool" where
  "statInfo W s path = (case is_dir W s path of None \<Rightarrow> Inl ''no such file or directory'' | Some b \<Rightarrow> Inr b)"

fun globFiles :: "('s, 'z) world_scheme \<Rightarrow> 's \<Rightarrow> string list \<Rightarrow> string list \<Rightarrow> string list" where
  "globFiles W s [] files = files"
| "globFiles W s (mt # ms) files =
     (case collectFile (mt, statInfo W s mt) files of
        Inl _ \<Rightarrow> globFiles W s ms files
      | Inr files' \<Rightarrow> globFiles W s ms files')"

fun collectFrom :: "('s, 'z) world_scheme \<Rightarrow> 's \<Rightarrow> string list \<Rightarrow> string list \<Rightarrow> license_error + string list" where
  "collectFrom W s [] files = Inr files"
| "collectFrom W s (pattern # ps) files =
     (case is_dir W s pattern of
        Some isDir \<Rightarrow>
          (if isDir then
             (case walkFiles (visits W s pattern) files of
                Inl e \<Rightarrow> Inl (In (''walking directory '' @ pattern) (OsError e))
              | Inr files' \<Rightarrow> collectFrom W s ps files')
           else
             (case collectFile (pattern, Inr isDir) files of
                Inl e \<Rightarrow> Inl (In (''collecting file '' @ pattern) (OsError e))
              | Inr files' \<Rightarrow> collectFrom W s ps files'))
      | None \<Rightarrow>
          (case glob W s pattern of
             Inl e \<Rightarrow> Inl (In (''expanding pattern '' @ pattern) (OsError e))
           | Inr matches \<Rightarrow> collectFrom W s ps (globFiles W s matches files)))"

definition collectFiles :: "('s, 'z) world_scheme \<Rightarrow> 's \<Rightarrow> string list \<Rightarrow> license_error + string list" where
  "collectFiles W s patterns = collectFrom W s patterns []"

record Flags =
  f_check :: bool
  f_fix :: bool
  f_forkCommit :: string
  f_dryRun :: bool

text \<open>The exit code of the program and the state of the files.\<close>

definition main :: "(string \<Rightarrow> string) \<Rightarrow> ('s, 'z) world_scheme \<Rightarrow> nat list \<Rightarrow> Flags \<Rightarrow> string list \<Rightarrow> 's \<Rightarrow> (nat \<times> 's) go" where
  "main L W order fl args s =
     (let modesSet = (if f_check fl then 1 else 0) + (if f_fix fl then 1 else 0) + (if f_dryRun fl then 1 else (0 :: nat))
      in if modesSet = 0 then ret (1, s)
         else if 1 < modesSet then ret (1, s)
         else if args = [] then ret (1, s)
         else case NewGitDetector W s (f_forkCommit fl) of
           Inl e \<Rightarrow> ret (1, s)
         | Inr d \<Rightarrow>
           (case collectFiles W s args of
              Inl e \<Rightarrow> ret (1, s)
            | Inr files \<Rightarrow>
                if files = [] then ret (0, s)
                else andThen (ProcessFiles L W order files
                    \<lparr>detector = d, dryRun = f_dryRun fl, checkMode = f_check fl, processed = 0, modified = 0,
                       failed = 0, needsUpdate = 0\<rparr> s) (\<lambda>(code, _, s'). ret (code, s'))))"

section \<open>Results that may be errors\<close>

lemma ret_case_sum: "ret (case_sum f g r) = case_sum (\<lambda>e. ret (f e)) (\<lambda>a. ret (g a)) r"
  by (simp split: sum.split)

lemma andThen_sum_iff: "andThen x (case_sum f g) = Inr b \<longleftrightarrow>
    (\<exists>e. x = Inr (Inl e) \<and> f e = Inr b) \<or> (\<exists>a. x = Inr (Inr a) \<and> g a = Inr b)"
proof (cases x)
  case (Inr y)
  then show ?thesis by (cases y) auto
qed auto

lemma returns_andThen_sum: "returns (andThen x (case_sum f g)) \<longleftrightarrow> returns x \<and>
    (\<forall>e. x = Inr (Inl e) \<longrightarrow> returns (f e)) \<and> (\<forall>a. x = Inr (Inr a) \<longrightarrow> returns (g a))"
proof (cases x)
  case (Inr y)
  then show ?thesis by (cases y) auto
qed auto

lemma returns_andThen_all: "returns (andThen x f) \<longleftrightarrow> returns x \<and> (\<forall>a. x = Inr a \<longrightarrow> returns (f a))"
  by (cases x) auto

lemmas sum_results = ret_case_sum andThen_sum_iff returns_andThen_sum

section \<open>No panic\<close>

text \<open>The only panic is the slice of a line whose lowered form is longer.\<close>

definition never_longer :: "(string \<Rightarrow> string) \<Rightarrow> bool" where
  "never_longer L \<longleftrightarrow> (\<forall>s. length (L s) \<le> length s)"

lemma extract_returns: "never_longer L \<Longrightarrow> returns (extractCopyright L line)"
proof -
  assume n: "never_longer L"
  let ?l = "removeCommentMarkers line"
  have "i + 9 \<le> length ?l" if "str_index ''copyright'' (L ?l) = Some i" for i
  proof -
    have "i + 9 \<le> length (L ?l)" using str_index_bound [OF that] by simp
    also have "\<dots> \<le> length ?l" using n by (simp add: never_longer_def)
    finally show ?thesis .
  qed
  then show ?thesis by (simp add: extractCopyright_def Let_def split: option.split)
qed

lemma parse_returns: "never_longer L \<Longrightarrow> returns (parseLines L ext long ls n h info)"
proof (induction ls arbitrary: n h info)
  case (Cons line lines)
  have e: "returns (if b then extractCopyright L line else ret c)" for b c
    using extract_returns [OF Cons.prems] by simp
  have "returns (andThen (if b then extractCopyright L line else ret c) (\<lambda>c. parseLines L ext long lines m True (g c)))"
    for b c m g using e Cons by (simp add: returns_andThen_all)
  with Cons show ?case unfolding parseLines.simps Let_def by (simp only: returns_simps if_split simp_thms)
qed simp

lemma ParseFileHeader_returns: "never_longer L \<Longrightarrow> returns (ParseFileHeader L F path s)"
  using parse_returns by (simp add: ParseFileHeader_def parseContent_def split: sum.split prod.split)

lemma CheckHeader_returns: "never_longer L \<Longrightarrow> returns (CheckHeader L F path status s)"
  by (simp add: CheckHeader_def sum_results ParseFileHeader_returns)

lemma ApplyHeader_returns: "never_longer L \<Longrightarrow> returns (ApplyHeader L F path hdr s)"
  by (simp add: ApplyHeader_def sum_results ParseFileHeader_returns split: option.split sum.split)

lemma checkFile_returns: "never_longer L \<Longrightarrow> returns (checkFile L W f status p s)"
  by (simp add: checkFile_def sum_results CheckHeader_returns)

lemma processFile_returns: "never_longer L \<Longrightarrow> returns (processFile L W f p s)"
  by (simp add: processFile_def Let_def sum_results ParseFileHeader_returns checkFile_returns ApplyHeader_returns
      returns_andThen_all split: sum.split prod.split)

lemma processAll_returns: "never_longer L \<Longrightarrow> returns (processAll L W fs p s)"
proof (induction fs arbitrary: p s)
  case (Cons f fs)
  then show ?case by (simp add: returns_andThen_all processFile_returns split: prod.split)
qed simp

lemma main_returns: "never_longer L \<Longrightarrow> returns (main L W order fl args s)"
  by (simp add: main_def ProcessFiles_def returns_andThen_all processAll_returns Let_def split: sum.split prod.split)

section \<open>Check mode and dry runs write nothing\<close>

lemma checkFile_state: "checkFile L W f status p s = ret (err, p', s') \<Longrightarrow>
    s' = s \<and> detector p' = detector p \<and> checkMode p' = checkMode p \<and> dryRun p' = dryRun p \<and> failed p' = failed p"
  by (auto simp: checkFile_def sum_results split: if_splits)

lemma status_known: "GetFileStatus W d s f = Inr status \<Longrightarrow> status \<noteq> StatusUnknown"
  by (auto simp: GetFileStatus_def split: option.splits sum.splits if_splits)

lemma header_not_empty:
  "status \<in> {StatusModified, StatusNew} \<Longrightarrow> GenerateHeader status desc f = Inr hdr \<Longrightarrow> hdr \<noteq> []"
proof -
  have "commented c t \<noteq> []" for c t by (cases "split_on newline (trim_space t)") (auto simp: commented_def)
  then show "status \<in> {StatusModified, StatusNew} \<Longrightarrow> GenerateHeader status desc f = Inr hdr \<Longrightarrow> hdr \<noteq> []"
    by (auto simp: GenerateHeader_def generateModifiedHeader_def generateNewApacheHeader_def Let_def)
qed

text \<open>The header for a file of a given status.\<close>

definition header_for :: "GitDetector \<Rightarrow> string \<Rightarrow> FileStatus \<Rightarrow> license_error + string" where
  "header_for d f status =
     GenerateHeader status (if status = StatusModified then GetModificationDescription d f else []) f"

definition applied :: "Processor \<Rightarrow> (license_error option \<times> 's) go \<Rightarrow> (license_error option \<times> Processor \<times> 's) go" where
  "applied q r = andThen r (\<lambda>(err, s'). ret (case err of
       Some e \<Rightarrow> (Some (In ''applying header'' e), q, s')
     | None \<Rightarrow> (None, q\<lparr>modified := modified q + 1\<rparr>, s')))"

lemma processFile_header:
  assumes "ParseFileHeader L (files.truncate W) f s = ret (Inr info)" "\<not> IsGenerated info"
    "GetFileStatus W (detector p) s f = Inr st" "st \<in> {StatusModified, StatusNew}"
    "header_for (detector p) f st = Inr hdr" "q = p\<lparr>processed := processed p + 1\<rparr>"
  shows "processFile L W f p s =
    (if checkMode q then checkFile L W f st q s
     else if dryRun q then ret (None, q\<lparr>modified := modified q + 1\<rparr>, s)
     else applied q (ApplyHeader L (files.truncate W) f hdr s))"
proof -
  have "hdr \<noteq> []" using header_not_empty [OF assms(4)] assms(5) by (simp add: header_for_def)
  moreover have "detector q = detector p" using assms(6) by simp
  ultimately show ?thesis
    using assms(1-5) unfolding processFile_def assms(6) [symmetric] Let_def
    by (auto simp: header_for_def applied_def)
qed

lemma processFile_cases:
  assumes "processFile L W f p s = ret (err, p', s')"
  obtains (header) e where "ParseFileHeader L (files.truncate W) f s = ret (Inl e)" "err \<noteq> None"
      "p' = p\<lparr>processed := processed p + 1\<rparr>" "s' = s"
  | (generated) info where "ParseFileHeader L (files.truncate W) f s = ret (Inr info)" "IsGenerated info" "err = None"
      "p' = p\<lparr>processed := processed p + 1\<rparr>" "s' = s"
  | (status) info e where "ParseFileHeader L (files.truncate W) f s = ret (Inr info)" "\<not> IsGenerated info"
      "GetFileStatus W (detector p) s f = Inl e" "err \<noteq> None" "p' = p\<lparr>processed := processed p + 1\<rparr>" "s' = s"
  | (check) info status where "ParseFileHeader L (files.truncate W) f s = ret (Inr info)" "\<not> IsGenerated info"
      "GetFileStatus W (detector p) s f = Inr status" "checkMode p"
      "checkFile L W f status (p\<lparr>processed := processed p + 1\<rparr>) s = ret (err, p', s')"
  | (unmodified) info where "ParseFileHeader L (files.truncate W) f s = ret (Inr info)" "\<not> IsGenerated info"
      "GetFileStatus W (detector p) s f = Inr StatusUnmodified" "\<not> checkMode p" "err = None"
      "p' = p\<lparr>processed := processed p + 1\<rparr>" "s' = s"
  | (dry) info status where "ParseFileHeader L (files.truncate W) f s = ret (Inr info)" "\<not> IsGenerated info"
      "GetFileStatus W (detector p) s f = Inr status" "status \<in> {StatusModified, StatusNew}"
      "\<not> checkMode p" "dryRun p" "err = None"
      "p' = p\<lparr>processed := processed p + 1, modified := modified p + 1\<rparr>" "s' = s"
  | (fix_file) info status hdr err0 where "ParseFileHeader L (files.truncate W) f s = ret (Inr info)" "\<not> IsGenerated info"
      "GetFileStatus W (detector p) s f = Inr status" "status \<in> {StatusModified, StatusNew}"
      "\<not> checkMode p" "\<not> dryRun p" "header_for (detector p) f status = Inr hdr"
      "ApplyHeader L (files.truncate W) f hdr s = ret (err0, s')" "err = map_option (In ''applying header'') err0"
      "p' = (if err0 = None then p\<lparr>processed := processed p + 1, modified := modified p + 1\<rparr>
        else p\<lparr>processed := processed p + 1\<rparr>)"
proof -
  let ?p = "p\<lparr>processed := processed p + 1\<rparr>"
  from assms obtain r where r: "ParseFileHeader L (files.truncate W) f s = ret r"
    by (auto simp: processFile_def andThen_Inr_iff Let_def)
  show ?thesis
  proof (cases r)
    case (Inl e)
    with assms r show ?thesis by (intro header) (auto simp: processFile_def Let_def)
  next
    case info: (Inr info)
    show ?thesis
    proof (cases "IsGenerated info")
      case True
      with assms r info show ?thesis by (intro generated) (auto simp: processFile_def Let_def)
    next
      case gen: False
      show ?thesis
      proof (cases "GetFileStatus W (detector p) s f")
        case (Inl e)
        with assms r info gen show ?thesis by (intro status) (auto simp: processFile_def Let_def)
      next
        case st: (Inr st)
        consider (unm) "st = StatusUnmodified" | (mn) "st \<in> {StatusModified, StatusNew}"
          using status_known [OF st] by (cases st) auto
        then show ?thesis
        proof cases
          case unm
          with assms r info gen st show ?thesis
            by (cases "checkMode p") (auto simp: processFile_def Let_def intro: check unmodified)
        next
          case mn
          then obtain hdr where hdr: "header_for (detector p) f st = Inr hdr"
            by (auto simp: header_for_def GenerateHeader_def)
          define q where "q = ?p"
          from assms processFile_header [OF r [unfolded info] gen st mn hdr q_def]
          have eq: "(if checkMode q then checkFile L W f st q s
              else if dryRun q then ret (None, q\<lparr>modified := modified q + 1\<rparr>, s)
              else applied q (ApplyHeader L (files.truncate W) f hdr s)) = ret (err, p', s')" by simp
          have q: "checkMode q = checkMode p" "dryRun q = dryRun p" "modified q = modified p" by (simp_all add: q_def)
          show ?thesis
          proof (cases "checkMode p \<or> dryRun p")
            case True
            with eq q r info gen st mn show ?thesis unfolding q_def
              by (cases "checkMode p") (auto intro: check dry)
          next
            case False
            with eq q obtain err0 s0 where "ApplyHeader L (files.truncate W) f hdr s = ret (err0, s0)"
              "(err, p', s') = (case err0 of Some e \<Rightarrow> (Some (In ''applying header'' e), q, s0)
                  | None \<Rightarrow> (None, q\<lparr>modified := modified q + 1\<rparr>, s0))"
              by (auto simp: andThen_Inr_iff applied_def)
            with q_def False r info gen st mn hdr show ?thesis
              by (intro fix_file [of info st hdr err0]) (auto split: option.splits)
          qed
        qed
      qed
    qed
  qed
qed

lemma processFile_modes:
  assumes "processFile L W f p s = ret (err, p', s')"
  shows "detector p' = detector p \<and> checkMode p' = checkMode p \<and> dryRun p' = dryRun p \<and> failed p' = failed p \<and>
    (checkMode p \<or> dryRun p \<longrightarrow> s' = s)"
  using assms by (cases rule: processFile_cases) (auto dest!: checkFile_state)

lemma processAll_modes:
  "processAll L W fs p s = ret (p', s') \<Longrightarrow>
     detector p' = detector p \<and> checkMode p' = checkMode p \<and> dryRun p' = dryRun p \<and> (checkMode p \<or> dryRun p \<longrightarrow> s' = s)"
proof (induction fs arbitrary: p s)
  case (Cons f fs)
  then obtain err p1 s1 where 1: "processFile L W f p s = ret (err, p1, s1)"
    "processAll L W fs (if err = None then p1 else p1\<lparr>failed := failed p1 + 1\<rparr>) s1 = ret (p', s')"
    by (auto simp: andThen_Inr_iff)
  from Cons.IH [OF 1(2)] processFile_modes [OF 1(1)] show ?case by (auto split: if_splits)
qed simp

text \<open>Without \<open>--fix\<close> the command changes no file: whatever the other flags, the arguments and the order of the
  goroutines, the files are afterwards as they were before.\<close>

theorem only_fix_writes:
  assumes "main L W order fl args s = ret (code, s')" "\<not> f_fix fl"
  shows "s' = s"
proof -
  consider (none) "\<not> f_check fl \<and> \<not> f_dryRun fl" | (some) "f_check fl \<or> f_dryRun fl" by blast
  then show ?thesis
  proof cases
    case some
    with assms show ?thesis
      by (auto simp: main_def ProcessFiles_def andThen_Inr_iff Let_def split: sum.splits if_splits prod.splits
          dest!: processAll_modes)
  qed (use assms in \<open>simp add: main_def\<close>)
qed


section \<open>The exit code of a check\<close>

definition file_passes :: "(string \<Rightarrow> string) \<Rightarrow> ('s, 'z) world_scheme \<Rightarrow> GitDetector \<Rightarrow> 's \<Rightarrow> string \<Rightarrow> bool" where
  "file_passes L W d s f \<longleftrightarrow> (\<exists>info. ParseFileHeader L (files.truncate W) f s = ret (Inr info) \<and>
     (IsGenerated info \<or>
      (\<exists>status. GetFileStatus W d s f = Inr status \<and> CheckHeader L (files.truncate W) f status s = ret (Inr True))))"

definition trouble :: "Processor \<Rightarrow> nat" where
  "trouble p = failed p + needsUpdate p"

lemma check_one:
  assumes "processFile L W f p s = ret (err, p', s')" "checkMode p"
  shows "(trouble (if err = None then p' else p'\<lparr>failed := failed p' + 1\<rparr>) = trouble p) = file_passes L W (detector p) s f"
    "trouble p \<le> trouble (if err = None then p' else p'\<lparr>failed := failed p' + 1\<rparr>)"
proof -
  show "(trouble (if err = None then p' else p'\<lparr>failed := failed p' + 1\<rparr>) = trouble p) = file_passes L W (detector p) s f"
    using assms(1)
  proof (cases rule: processFile_cases)
    case (check info status)
    then show ?thesis by (auto simp: file_passes_def trouble_def checkFile_def sum_results split: if_splits)
  qed (use assms(2) in \<open>auto simp: file_passes_def trouble_def\<close>)
  show "trouble p \<le> trouble (if err = None then p' else p'\<lparr>failed := failed p' + 1\<rparr>)"
    using assms(1)
  proof (cases rule: processFile_cases)
    case (check info status)
    then show ?thesis by (auto simp: trouble_def checkFile_def sum_results split: if_splits)
  qed (use assms(2) in \<open>auto simp: trouble_def\<close>)
qed

lemma check_all:
  "processAll L W fs p s = ret (p', s') \<Longrightarrow> checkMode p \<Longrightarrow>
     (trouble p' = trouble p) = (\<forall>f\<in>set fs. file_passes L W (detector p) s f) \<and> trouble p \<le> trouble p'"
proof (induction fs arbitrary: p s)
  case (Cons f fs)
  then obtain err p1 s1 where 1: "processFile L W f p s = ret (err, p1, s1)"
    "processAll L W fs (if err = None then p1 else p1\<lparr>failed := failed p1 + 1\<rparr>) s1 = ret (p', s')"
    by (auto simp: andThen_Inr_iff)
  let ?p1 = "if err = None then p1 else p1\<lparr>failed := failed p1 + 1\<rparr>"
  from processFile_modes [OF 1(1)] Cons.prems(2) have m: "checkMode ?p1" "detector ?p1 = detector p" "s1 = s" by auto
  from Cons.IH [OF 1(2) m(1)] check_one [OF 1(1) Cons.prems(2)] m(2,3) show ?case by auto
qed simp

lemma check_exit:
  assumes "ProcessFiles L W order fs p s = ret (code, p', s')" "checkMode p" "failed p = 0" "needsUpdate p = 0"
  shows "code = 0 \<longleftrightarrow> (\<forall>f\<in>set fs. file_passes L W (detector p) s f)"
proof -
  from assms(1) have run: "processAll L W (shuffle order fs) p s = ret (p', s')" and code: "code = exit_code p'"
    by (auto simp: ProcessFiles_def andThen_Inr_iff)
  have "code = 0 \<longleftrightarrow> trouble p' = 0"
    using code processAll_modes [OF run] assms(2) by (auto simp: exit_code_def trouble_def)
  with check_all [OF run assms(2)] assms(3,4) show ?thesis by (simp add: trouble_def)
qed

text \<open>C32: \<open>nrlicense --check\<close> exits with 0 exactly when it is given arguments, git is usable, the files can be collected and
  every file passes: its header can be parsed, and it is generated or git tells its status and the header is correct
  for that status. The order of the goroutines does not matter.\<close>

theorem check_exit_code:
  assumes "main L W order fl args s = ret (code, s')" "f_check fl" "\<not> f_fix fl" "\<not> f_dryRun fl"
  shows "code = 0 \<longleftrightarrow> args \<noteq> [] \<and> (\<exists>d fs. NewGitDetector W s (f_forkCommit fl) = Inr d \<and>
    collectFiles W s args = Inr fs \<and> list_all (file_passes L W d s) fs)"
proof (cases "NewGitDetector W s (f_forkCommit fl)")
  case (Inl e)
  with assms show ?thesis by (auto simp: main_def split: if_splits)
next
  case d: (Inr d)
  show ?thesis
  proof (cases "collectFiles W s args")
    case (Inl e)
    with assms d show ?thesis by (auto simp: main_def split: if_splits)
  next
    case fs: (Inr fs)
    let ?p = "\<lparr>detector = d, dryRun = False, checkMode = True, processed = 0, modified = 0, failed = 0, needsUpdate = 0\<rparr>"
    show ?thesis
    proof (cases "args = [] \<or> fs = []")
      case True
      with assms d fs show ?thesis by (auto simp: main_def split: if_splits)
    next
      case False
      with assms d fs obtain p' where "ProcessFiles L W order fs ?p s = ret (code, p', s')"
        by (auto simp: main_def andThen_Inr_iff)
      from check_exit [OF this] False d fs show ?thesis by (simp add: list_all_iff)
    qed
  qed
qed

section \<open>A fix followed by a check\<close>

text \<open>
  What the run relies on: a successful write is what is read afterwards, it does not change the other
  files, and git sees the files as new, modified or unmodified as before.
\<close>

definition steady_writes :: "('s, 'z) world_scheme \<Rightarrow> GitDetector \<Rightarrow> string list \<Rightarrow> bool" where
  "steady_writes W d fs \<longleftrightarrow> (\<forall>p\<in>set fs. \<forall>data s s'. write_bytes W p data s = (None, s') \<longrightarrow>
     read_bytes W s' p = Inr data \<and>
     (\<forall>q\<in>set fs. (q \<noteq> p \<longrightarrow> read_bytes W s' q = read_bytes W s q) \<and>
        GetFileStatus W d s' q = GetFileStatus W d s q))"

definition fixable :: "(string \<Rightarrow> string) \<Rightarrow> ('s, 'z) world_scheme \<Rightarrow> GitDetector \<Rightarrow> 's \<Rightarrow> string \<Rightarrow> bool" where
  "fixable L W d s f \<longleftrightarrow> (case read_bytes W s f of
       Inl _ \<Rightarrow> True
     | Inr content \<Rightarrow> fits content \<and> shebang_ok L (unix_ext f) (hashBang L content)) \<and>
     desc_ok (GetModificationDescription d f) \<and> GetFileStatus W d s f \<noteq> Inr StatusUnmodified"

definition same_file :: "('s, 'z) world_scheme \<Rightarrow> GitDetector \<Rightarrow> 's \<Rightarrow> 's \<Rightarrow> string \<Rightarrow> bool" where
  "same_file W d s s' q \<longleftrightarrow> read_bytes W s' q = read_bytes W s q \<and> GetFileStatus W d s' q = GetFileStatus W d s q"

lemma truncate_simps [simp]:
  "read_bytes (files.truncate W) = read_bytes W" "write_bytes (files.truncate W) = write_bytes W"
  "stat_file (files.truncate W) = stat_file W"
  by (simp_all add: files.truncate_def)

lemma passes_cong: "same_file W d s s' q \<Longrightarrow> file_passes L W d s' q = file_passes L W d s q"
  by (simp add: same_file_def file_passes_def CheckHeader_def ParseFileHeader_def)

lemma fixable_cong: "same_file W d s s' q \<Longrightarrow> fixable L W d s' q = fixable L W d s q"
  by (simp add: same_file_def fixable_def)

lemma write_result_None: "write_result r = (None, s') \<longleftrightarrow> r = (None, s')"
  by (cases r) (auto simp: write_result_def)

lemma apply_writes:
  "ApplyHeader L F f hdr s = ret (None, s') \<Longrightarrow> s' = s \<or> (\<exists>data. write_bytes F f data s = (None, s'))"
  by (auto simp: ApplyHeader_def write_result_None sum_results split: option.splits sum.splits if_splits)

lemma desc_ok_empty: "desc_ok []"
proof -
  have "\<not> containsLicenseIdentifier []" by code_simp
  then show ?thesis by (simp add: desc_ok_def is_line_def maxToken_def)
qed

lemma fix_one:
  assumes "processFile L W f p s = ret (None, p', s')" "\<not> checkMode p" "\<not> dryRun p" "lower_laws L"
    "steady_writes W (detector p) fs" "f \<in> set fs" "fixable L W (detector p) s f"
  shows "file_passes L W (detector p) s' f" "\<forall>q\<in>set fs. q \<noteq> f \<longrightarrow> same_file W (detector p) s s' q"
proof -
  have "file_passes L W (detector p) s' f \<and> (\<forall>q\<in>set fs. q \<noteq> f \<longrightarrow> same_file W (detector p) s s' q)"
    using assms(1)
  proof (cases rule: processFile_cases)
    case (fix_file info status hdr err0)
    let ?F = "files.truncate W"
    let ?desc = "if status = StatusModified then GetModificationDescription (detector p) f else []"
    from fix_file have app: "ApplyHeader L ?F f hdr s = ret (None, s')"
      and gen: "GenerateHeader status ?desc f = Inr hdr" by (auto simp: header_for_def)
    obtain content where c: "read_bytes W s f = Inr content"
      using fix_file(1) by (cases "read_bytes W s f") (auto simp: ParseFileHeader_def)
    have kept: "kept_writes ?F f" using assms(5,6) by (auto simp: kept_writes_def steady_writes_def)
    have same: "\<forall>q\<in>set fs. (q \<noteq> f \<longrightarrow> same_file W (detector p) s s' q) \<and>
        GetFileStatus W (detector p) s' q = GetFileStatus W (detector p) s q"
      using apply_writes [OF app] assms(5,6) by (auto simp: steady_writes_def same_file_def)
    have desc: "desc_ok ?desc" using assms(7) desc_ok_empty by (simp add: fixable_def)
    have check: "CheckHeader L ?F f status s' = ret (Inr True)"
      using fix_then_check [OF assms(4) kept fix_file(4) desc gen _ _ _ app] c assms(7) by (simp add: fixable_def)
    then obtain i where i: "ParseFileHeader L ?F f s' = ret (Inr i)"
      by (auto simp: CheckHeader_def sum_results)
    have "GetFileStatus W (detector p) s' f = Inr status" using same assms(6) fix_file(3) by simp
    with same check i show ?thesis by (auto simp: file_passes_def)
  qed (use assms(2,3,7) in \<open>auto simp: file_passes_def fixable_def same_file_def\<close>)
  then show "file_passes L W (detector p) s' f" "\<forall>q\<in>set fs. q \<noteq> f \<longrightarrow> same_file W (detector p) s s' q" by blast+
qed

lemma failed_mono: "processAll L W fs p s = ret (p', s') \<Longrightarrow> failed p \<le> failed p'"
proof (induction fs arbitrary: p s)
  case (Cons f fs)
  then obtain err p1 s1 where 1: "processFile L W f p s = ret (err, p1, s1)"
    "processAll L W fs (if err = None then p1 else p1\<lparr>failed := failed p1 + 1\<rparr>) s1 = ret (p', s')"
    by (auto simp: andThen_Inr_iff)
  from Cons.IH [OF 1(2)] processFile_modes [OF 1(1)] show ?case by (auto split: if_splits)
qed simp

lemma fix_all:
  assumes "processAll L W fs p s = ret (p', s')" "failed p' = failed p" "distinct fs" "set fs \<subseteq> set all"
    "\<not> checkMode p" "\<not> dryRun p" "lower_laws L" "steady_writes W (detector p) all"
    "\<forall>f\<in>set fs. fixable L W (detector p) s f"
  shows "(\<forall>f\<in>set fs. file_passes L W (detector p) s' f) \<and>
    (\<forall>q\<in>set all - set fs. same_file W (detector p) s s' q)"
  using assms
proof (induction fs arbitrary: p s)
  case (Cons f fs)
  then obtain err p1 s1 where 1: "processFile L W f p s = ret (err, p1, s1)"
    "processAll L W fs (if err = None then p1 else p1\<lparr>failed := failed p1 + 1\<rparr>) s1 = ret (p', s')"
    by (auto simp: andThen_Inr_iff)
  note modes = processFile_modes [OF 1(1)]
  have err: "err = None" using failed_mono [OF 1(2)] Cons.prems(2) modes by (auto split: if_splits)
  note one = fix_one [OF 1(1) [unfolded err] Cons.prems(5,6,7,8)]
  have f: "f \<in> set all" "fixable L W (detector p) s f" using Cons.prems(4,9) by auto
  have fs: "\<forall>q\<in>set fs. fixable L W (detector p) s1 q"
  proof
    fix q assume "q \<in> set fs"
    with Cons.prems(3,4,9) have "q \<noteq> f" "q \<in> set all" "fixable L W (detector p) s q" by auto
    moreover from this have "same_file W (detector p) s s1 q" using one(2) [OF f] by simp
    ultimately show "fixable L W (detector p) s1 q" using fixable_cong [of W "detector p" s s1 q L] by simp
  qed
  have rest: "(\<forall>g\<in>set fs. file_passes L W (detector p) s' g) \<and> (\<forall>q\<in>set all - set fs. same_file W (detector p) s1 s' q)"
    using Cons.IH [of p1 s1] 1(2) err Cons.prems(2-8) modes fs by simp
  then have "same_file W (detector p) s1 s' f" using f(1) Cons.prems(3) by simp
  with passes_cong [of W "detector p" s1 s' f L] one(1) [OF f] have "file_passes L W (detector p) s' f" by simp
  moreover have "same_file W (detector p) s s' q" if "q \<in> set all - set (f # fs)" for q
    using that rest one(2) [OF f] by (auto simp: same_file_def)
  ultimately show ?case using rest by auto
qed (simp add: same_file_def)


text \<open>A world with one file, which git does not know at the fork.\<close>

definition sample_world :: "string world" where
  "sample_world = files.extend one_file \<lparr>git = (\<lambda>s args. if hd args = ''cat-file'' then Exited 128 [] else Done ''/r''), getwd = (\<lambda>s. Inr ''/r''),
     is_dir = (\<lambda>s p. Some False), visits = (\<lambda>s p. []), glob = (\<lambda>s p. Inr [])\<rparr>"

definition sample_processor :: "bool \<Rightarrow> Processor" where
  "sample_processor c = \<lparr>detector = \<lparr>forkCommit = ''c'', forkDate = ''2025-01-01'', repoRoot = ''/r''\<rparr>,
     dryRun = False, checkMode = c, processed = 0, modified = 0, failed = 0, needsUpdate = 0\<rparr>"

lemma sample_world_simps [simp]:
  "read_bytes sample_world = read_bytes one_file" "write_bytes sample_world = write_bytes one_file"
  "stat_file sample_world = stat_file one_file" "git sample_world s (c # args) = (if c = ''cat-file'' then Exited 128 [] else Done ''/r'')"
  by (simp_all add: sample_world_def files.extend_def one_file_def)

lemma sample_truncate: "files.truncate sample_world = one_file"
  by (simp add: sample_world_def files.extend_def files.truncate_def one_file_def)

lemma sample_status: "GetFileStatus sample_world (detector (sample_processor c)) s ''/r/a.go'' = Inr StatusNew"
proof -
  have "unix_is_abs ''/r/a.go''" "has_prefix (unix_clean (unix_clean ''/r/a.go'')) (unix_clean ''/r'')" by code_simp+
  then show ?thesis
    by (simp add: GetFileStatus_def validatePath_def absPath_def fileExistsAtCommit_def sample_processor_def)
qed

lemma never_longer_ascii [simp]: "never_longer ascii_lower"
  by (simp add: never_longer_def)

lemma ProcessFiles_returns: "never_longer L \<Longrightarrow> returns (ProcessFiles L W order fs p s)"
  by (simp add: ProcessFiles_def returns_andThen_all processAll_returns split: prod.split)

lemma ProcessFiles_result: "\<exists>code p' s'. ProcessFiles ascii_lower W order fs p s = ret (code, p', s')"
  using ProcessFiles_returns [OF never_longer_ascii, of W order fs p s] by (auto simp: returns_iff)

lemma sample_fix_run:
  "\<exists>p1 s1. ProcessFiles ascii_lower sample_world [] [''/r/a.go''] (sample_processor False) ''package p'' = ret (0, p1, s1)"
proof -
  let ?c = "''package p''" let ?f = "''/r/a.go''"
  have g: "\<not> isGeneratedFile ?c" "\<not> hasLicenseHeader ascii_lower ?c" by code_simp+
  have t: "trim_space ?c = ?c" by (intro trim_graphic) (simp_all add: graphic_def)
  have e: "unix_ext ?f = ''.go''" "raw_lines ?c = [?c]" by code_simp+
  have "parseContent ascii_lower ?f ?c = ret (Inr (noHeader\<lparr>ContentStartLine := 1\<rparr>))"
    using g(1) t e by (simp add: parseContent_def scan_lines_def maxToken_def drop_cr_id isCommentLine_def has_prefix_def)
  then have p: "ParseFileHeader ascii_lower (files.truncate sample_world) ?f ?c = ret (Inr (noHeader\<lparr>ContentStartLine := 1\<rparr>))"
    by (simp add: ParseFileHeader_def)
  obtain hdr where h: "header_for (detector (sample_processor False)) ?f StatusNew = Inr hdr"
    by (auto simp: header_for_def GenerateHeader_def)
  have a: "ApplyHeader ascii_lower one_file ?f hdr ?c = ret (None, insertHeader ascii_lower hdr ?c)"
    using g by (simp add: ApplyHeader_def write_result_def)
  have "processFile ascii_lower sample_world ?f (sample_processor False) ?c =
      ret (None, sample_processor False\<lparr>processed := 1, modified := 1\<rparr>, insertHeader ascii_lower hdr ?c)"
    using processFile_header [OF p _ sample_status _ h refl] a
    by (simp add: noHeader_def applied_def sample_truncate sample_processor_def)
  then show ?thesis by (simp add: ProcessFiles_def exit_code_def sample_processor_def)
qed


abbreviation sample_flags :: Flags where
  "sample_flags \<equiv> \<lparr>f_check = True, f_fix = False, f_forkCommit = ''c'', f_dryRun = False\<rparr>"

lemma sample_main: "\<exists>code s'. main ascii_lower sample_world [] sample_flags [''/r/a.go''] ''package p'' = ret (code, s')"
  using main_returns [OF never_longer_ascii, of sample_world "[]" sample_flags "[''/r/a.go'']" "''package p''"]
  by (auto simp: returns_iff)

theorem check_exit_code_witness:
  "\<exists>code s'. main ascii_lower sample_world [] sample_flags [''/r/a.go''] ''package p'' = ret (code, s') \<and>
     (code = 0) = (\<exists>d fs. NewGitDetector sample_world ''package p'' ''c'' = Inr d \<and>
       collectFiles sample_world ''package p'' [''/r/a.go''] = Inr fs \<and>
       list_all (file_passes ascii_lower sample_world d ''package p'') fs)"
proof -
  obtain code s' where 1: "main ascii_lower sample_world [] sample_flags [''/r/a.go''] ''package p'' = ret (code, s')"
    using sample_main by blast
  with check_exit_code [OF this] show ?thesis by auto
qed

theorem only_fix_writes_witness:
  "\<exists>code. main ascii_lower sample_world [] sample_flags [''/r/a.go''] ''package p'' = ret (code, ''package p'')"
proof -
  obtain code s' where 1: "main ascii_lower sample_world [] sample_flags [''/r/a.go''] ''package p'' = ret (code, s')"
    using sample_main by blast
  with only_fix_writes [OF this] show ?thesis by auto
qed

section \<open>Which files\<close>

lemma collectFile_keeps:
  "collectFile v files = Inr files' \<Longrightarrow> distinct files \<and> list_all shouldProcessFile files \<Longrightarrow>
     distinct files' \<and> list_all shouldProcessFile files'"
  by (cases v) (auto simp: collectFile_def split: sum.splits if_splits)

lemma walkFiles_keeps:
  "walkFiles vs files = Inr files' \<Longrightarrow> distinct files \<and> list_all shouldProcessFile files \<Longrightarrow>
     distinct files' \<and> list_all shouldProcessFile files'"
proof (induction vs arbitrary: files)
  case (Cons v vs)
  then show ?case using collectFile_keeps [of v files] by (auto split: sum.splits)
qed simp

lemma globFiles_keeps:
  "distinct files \<and> list_all shouldProcessFile files \<Longrightarrow>
     distinct (globFiles W s ms files) \<and> list_all shouldProcessFile (globFiles W s ms files)"
proof (induction ms arbitrary: files)
  case (Cons m ms)
  then show ?case using collectFile_keeps [of "(m, statInfo W s m)" files] by (auto split: sum.splits)
qed simp

lemma collectFrom_keeps:
  "collectFrom W s ps files = Inr fs \<Longrightarrow> distinct files \<and> list_all shouldProcessFile files \<Longrightarrow>
     distinct fs \<and> list_all shouldProcessFile fs"
proof (induction ps arbitrary: files)
  case (Cons p ps)
  then show ?case
    using walkFiles_keeps [of "visits W s p" files] collectFile_keeps [of "(p, Inr False)" files] globFiles_keeps [of files W s]
    by (auto split: option.splits sum.splits if_splits)
qed simp

lemma collectFiles_sound: "collectFiles W s ps = Inr fs \<Longrightarrow> distinct fs \<and> list_all shouldProcessFile fs"
  using collectFrom_keeps [of W s ps "[]" fs] by (simp add: collectFiles_def)

text \<open>A vendor directory at the start of a relative path is not skipped, and a sibling of the repository is accepted.\<close>

lemma vendored_processed: "shouldProcessFile ''vendor/a.go''" "\<not> shouldProcessFile ''./vendor/a.go''"
  by code_simp+

lemma sibling_accepted:
  "validatePath W \<lparr>forkCommit = c, forkDate = d, repoRoot = ''/repo''\<rparr> s ''/repo-other/a.go'' = None"
proof -
  have "unix_is_abs ''/repo-other/a.go''" "has_prefix (unix_clean (unix_clean ''/repo-other/a.go'')) (unix_clean ''/repo'')"
    by code_simp+
  then show ?thesis by (simp add: validatePath_def absPath_def)
qed

end
