(* ===== verification/Deep_Equal.thy ===== *)
theory Deep_Equal
  imports Pdata
begin

text \<open>
  \<open>reflect.DeepEqual\<close> on attribute values after \<open>AsRaw\<close>, which the comparisons of test data share.
\<close>

lemma zip_size [termination_simp]: "(x, y) \<in> set (zip xs ys) \<Longrightarrow> size x < Suc (size_list size xs)"
  by (auto dest!: set_zip_leftD intro: size_list_estimation' le_imp_less_Suc)

text \<open>
  The comparison of two attribute values after \<open>AsRaw\<close>: slices by position, maps by key. The keys of a
  \<open>pcommon.Map\<close> are distinct.
\<close>

fun deep_val :: "val \<Rightarrow> val \<Rightarrow> bool" where
  "deep_val (VDouble x) (VDouble y) = feq x y"
| "deep_val (VSlice xs) (VSlice ys) = (length xs = length ys \<and> list_all (\<lambda>(x, y). deep_val x y) (zip xs ys))"
| "deep_val (VMap xs) (VMap ys) = (length xs = length ys \<and>
     list_all (\<lambda>(k, x). case map_of ys k of None \<Rightarrow> False | Some y \<Rightarrow> deep_val x y) xs)"
| "deep_val x y = (x = y)"

definition deep_attrs :: "attrs \<Rightarrow> attrs \<Rightarrow> bool" where
  "deep_attrs xs ys = deep_val (VMap xs) (VMap ys)"

end
