(* ===== verification/Metric_Diff.thy ===== *)
theory Metric_Diff
  imports Deep_Equal "HOL-Library.Word"
begin

text \<open>
  The comparison of metrics in tests (coreinternal/metricstestutil/metric_diff.go): two values of
  \<open>pmetric.Metrics\<close> are compared part by part and the differences are collected. The data model has the
  parts that are compared, and a payload for the others.
\<close>

section \<open>Metrics\<close>

datatype num_value = IntVal int | DoubleVal f64 | NoVal

record exemplar =
  ex_value :: num_value
  ex_rest :: payload

record num_pt =
  n_attrs :: attrs
  n_value :: num_value
  n_exemplars :: "exemplar list"
  n_rest :: payload

record hist_pt =
  h_attrs :: attrs
  h_count :: "64 word"
  h_sum :: "f64 option"
  h_counts :: "64 word list"
  h_bounds :: "f64 list"
  h_exemplars :: "exemplar list"
  h_rest :: payload

record exp_buckets =
  b_offset :: "32 word"
  b_counts :: "64 word list"

record exp_pt =
  e_attrs :: attrs
  e_count :: "64 word"
  e_sum :: "f64 option"
  e_min :: "f64 option"
  e_max :: "f64 option"
  e_zero :: "64 word"
  e_scale :: "32 word"
  e_positive :: exp_buckets
  e_negative :: exp_buckets
  e_exemplars :: "exemplar list"
  e_rest :: payload

datatype m_data = MGauge "num_pt list" | MSum bool nat "num_pt list" | MHistogram nat "hist_pt list"
  | MExponential nat "exp_pt list" | MSummary payload | MEmpty

record t_metric =
  m_name :: string
  m_description :: string
  m_unit :: string
  m_data :: m_data

record t_scope =
  s_metrics :: "t_metric list"
  s_rest :: payload

record t_resource =
  r_attrs :: attrs
  r_scopes :: "t_scope list"
  r_rest :: payload

section \<open>Values and \<open>reflect.DeepEqual\<close>\<close>

datatype go_any = GoInt int | GoInt32 "32 word" | GoUint64 "64 word" | GoFloat64 f64 | GoBool bool
  | GoString string | GoEnum nat | GoNil

text \<open>Floating-point numbers are compared with \<open>==\<close>, under which NaN differs from itself.\<close>

fun deep_equal :: "go_any \<Rightarrow> go_any \<Rightarrow> bool" where
  "deep_equal (GoFloat64 x) (GoFloat64 y) = feq x y"
| "deep_equal x y = (x = y)"

section \<open>Differences\<close>

record MetricDiff =
  ExpectedValue :: go_any
  ActualValue :: go_any
  Msg :: string

definition diffValues :: "MetricDiff list \<Rightarrow> go_any \<Rightarrow> go_any \<Rightarrow> string \<Rightarrow> MetricDiff list \<times> bool" where
  "diffValues ds expected actual msg =
     (if \<not> deep_equal expected actual
      then (ds @ [\<lparr>ExpectedValue = expected, ActualValue = actual, Msg = msg\<rparr>], True)
      else (ds, False))"

definition diff :: "MetricDiff list \<Rightarrow> go_any \<Rightarrow> go_any \<Rightarrow> string \<Rightarrow> MetricDiff list" where
  "diff ds expected actual msg = fst (diffValues ds expected actual msg)"

definition diffLen :: "MetricDiff list \<Rightarrow> nat \<Rightarrow> nat \<Rightarrow> string \<Rightarrow> MetricDiff list \<times> bool" where
  "diffLen ds expected actual msg = diffValues ds (GoInt (int expected)) (GoInt (int actual)) msg"

definition attrMapToString :: "lib \<Rightarrow> attrs \<Rightarrow> string" where
  "attrMapToString L m = concat (map (\<lambda>(k, v). ''['' @ k @ ''='' @ as_string L v @ '']'') m)"

definition attrs_diff :: "lib \<Rightarrow> MetricDiff list \<Rightarrow> attrs \<Rightarrow> attrs \<Rightarrow> string \<Rightarrow> MetricDiff list" where
  "attrs_diff L ds expected actual msg =
     (if \<not> deep_attrs expected actual
      then ds @ [\<lparr>ExpectedValue = GoString (attrMapToString L expected),
             ActualValue = GoString (attrMapToString L actual), Msg = msg\<rparr>]
      else ds)"

definition diffResourceAttrs :: "lib \<Rightarrow> MetricDiff list \<Rightarrow> attrs \<Rightarrow> attrs \<Rightarrow> MetricDiff list" where
  "diffResourceAttrs L ds expected actual = attrs_diff L ds expected actual ''Resource attributes''"

definition diffMetricAttrs :: "lib \<Rightarrow> MetricDiff list \<Rightarrow> attrs \<Rightarrow> attrs \<Rightarrow> MetricDiff list" where
  "diffMetricAttrs L ds expected actual = attrs_diff L ds expected actual ''Metric attributes''"

definition diffResource :: "lib \<Rightarrow> MetricDiff list \<Rightarrow> t_resource \<Rightarrow> t_resource \<Rightarrow> MetricDiff list" where
  "diffResource L ds expected actual = diffResourceAttrs L ds (r_attrs expected) (r_attrs actual)"

section \<open>Exemplars\<close>

text \<open>The getters return the zero value when the value has another type.\<close>

definition value_type :: "num_value \<Rightarrow> nat" where
  "value_type v = (case v of NoVal \<Rightarrow> 0 | IntVal _ \<Rightarrow> 1 | DoubleVal _ \<Rightarrow> 2)"

definition int_value :: "num_value \<Rightarrow> int" where
  "int_value v = (case v of IntVal i \<Rightarrow> i | _ \<Rightarrow> 0)"

definition dbl_value :: "num_value \<Rightarrow> f64" where
  "dbl_value v = (case v of DoubleVal x \<Rightarrow> x | _ \<Rightarrow> Fin 0)"

definition diffValue :: "MetricDiff list \<Rightarrow> num_value \<Rightarrow> num_value \<Rightarrow> string \<Rightarrow> MetricDiff list" where
  "diffValue ds expected actual msg =
     (case expected of
        IntVal i \<Rightarrow> diff ds (GoInt i) (GoInt (int_value actual)) msg
      | DoubleVal x \<Rightarrow> diff ds (GoFloat64 x) (GoFloat64 (dbl_value actual)) msg
      | NoVal \<Rightarrow> ds)"

definition diffExemplar :: "MetricDiff list \<Rightarrow> exemplar \<Rightarrow> exemplar \<Rightarrow> MetricDiff list" where
  "diffExemplar ds expected actual =
     (let ds = diff ds (GoEnum (value_type (ex_value expected))) (GoEnum (value_type (ex_value actual)))
                    ''Exemplar Value Type''
      in diffValue ds (ex_value expected) (ex_value actual) ''Exemplar Value'')"

definition diffExemplars :: "MetricDiff list \<Rightarrow> exemplar list \<Rightarrow> exemplar list \<Rightarrow> MetricDiff list" where
  "diffExemplars ds expected actual =
     (case diffLen ds (length expected) (length actual) ''ExemplarSlice len'' of
        (ds, mismatch) \<Rightarrow>
          if mismatch then ds
          else foldl (\<lambda>ds (e, a). diffExemplar ds e a) ds (zip expected actual))"

section \<open>Points\<close>

text \<open>The loop returns at the first point with another type of value; the differences of exemplars are dropped.\<close>

fun numberPts :: "lib \<Rightarrow> MetricDiff list \<Rightarrow> (num_pt \<times> num_pt) list \<Rightarrow> MetricDiff list" where
  "numberPts L ds [] = ds"
| "numberPts L ds ((exPt, acPt) # pts) =
     (let ds = diffMetricAttrs L ds (n_attrs exPt) (n_attrs acPt)
      in case diffValues ds (GoEnum (value_type (n_value exPt))) (GoEnum (value_type (n_value acPt)))
             ''NumberDataPoint Value Type'' of
           (ds, mismatch) \<Rightarrow>
             if mismatch then ds
             else (let ds = diffValue ds (n_value exPt) (n_value acPt) ''NumberDataPoint Value'';
                       _ = diffExemplars ds (n_exemplars exPt) (n_exemplars acPt)
                   in numberPts L ds pts))"

definition diffNumberPts :: "lib \<Rightarrow> MetricDiff list \<Rightarrow> num_pt list \<Rightarrow> num_pt list \<Rightarrow> MetricDiff list" where
  "diffNumberPts L ds expected actual =
     (case diffLen ds (length expected) (length actual) ''NumberDataPointSlice len'' of
        (ds, mismatch) \<Rightarrow> if mismatch then ds else numberPts L ds (zip expected actual))"

definition zero_or :: "f64 option \<Rightarrow> f64" where
  "zero_or v = (case v of None \<Rightarrow> Fin 0 | Some x \<Rightarrow> x)"

definition diffHistogramPt :: "lib \<Rightarrow> MetricDiff list \<Rightarrow> hist_pt \<Rightarrow> hist_pt \<Rightarrow> MetricDiff list" where
  "diffHistogramPt L ds expected actual =
     (let ds = diffMetricAttrs L ds (h_attrs expected) (h_attrs actual);
          ds = diff ds (GoUint64 (h_count expected)) (GoUint64 (h_count actual)) ''HistogramDataPoint Count'';
          ds = diff ds (GoFloat64 (zero_or (h_sum expected))) (GoFloat64 (zero_or (h_sum actual)))
                    ''HistogramDataPoint Sum''
      in case diffLen ds (length (h_counts expected)) (length (h_counts actual)) ''HistogramDataPoint BucketCounts len'' of
           (ds, mismatch) \<Rightarrow>
             if mismatch then ds
             else (let ds = foldl (\<lambda>ds (e, a). diff ds (GoUint64 e) (GoUint64 a) ''HistogramDataPoint BucketCounts'') ds
                                 (zip (h_counts expected) (h_counts actual))
                   in case diffLen ds (length (h_bounds expected)) (length (h_bounds actual))
                             ''HistogramDataPoint ExplicitBounds len'' of
                        (ds, mismatch) \<Rightarrow>
                          if mismatch then ds
                          else (let ds = foldl (\<lambda>ds (e, a). diff ds (GoFloat64 e) (GoFloat64 a)
                                                ''HistogramDataPoint ExplicitBounds'') ds
                                              (zip (h_bounds expected) (h_bounds actual))
                                in diffExemplars ds (h_exemplars expected) (h_exemplars actual))))"

definition diffHistogramPts :: "lib \<Rightarrow> MetricDiff list \<Rightarrow> hist_pt list \<Rightarrow> hist_pt list \<Rightarrow> MetricDiff list" where
  "diffHistogramPts L ds expected actual =
     (case diffLen ds (length expected) (length actual) ''HistogramDataPointSlice len'' of
        (ds, mismatch) \<Rightarrow>
          if mismatch then ds
          else foldl (\<lambda>ds (e, a). diffHistogramPt L ds e a) ds (zip expected actual))"

text \<open>The message names the index of the bucket.\<close>

definition diffExponentialHistogramPtBuckets :: "MetricDiff list \<Rightarrow> exp_buckets \<Rightarrow> exp_buckets \<Rightarrow> MetricDiff list" where
  "diffExponentialHistogramPtBuckets ds expected actual =
     (let ds = diff ds (GoInt32 (b_offset expected)) (GoInt32 (b_offset actual))
                    ''ExponentialHistogramDataPoint Buckets Offset'';
          exC = b_counts expected; acC = b_counts actual
      in case diffLen ds (length exC) (length acC) ''ExponentialHistogramDataPoint Buckets Len'' of
           (ds, md) \<Rightarrow>
             if md then ds
             else foldl (\<lambda>ds i. diff ds (GoUint64 (exC ! i)) (GoUint64 (acC ! i))
                      (''ExponentialHistogramDataPoint Buckets Count['' @ nat_str i @ '']'')) ds [0..<length exC])"

definition diffExponentialHistogramPt :: "lib \<Rightarrow> MetricDiff list \<Rightarrow> exp_pt \<Rightarrow> exp_pt \<Rightarrow> MetricDiff list" where
  "diffExponentialHistogramPt L ds expected actual =
     (let p = ''ExponentialHistogramDataPoint '';
          ds = diffMetricAttrs L ds (e_attrs expected) (e_attrs actual);
          ds = diff ds (GoUint64 (e_count expected)) (GoUint64 (e_count actual)) (p @ ''Count'');
          ds = diff ds (GoBool (e_sum expected \<noteq> None)) (GoBool (e_sum actual \<noteq> None)) (p @ ''HasSum'');
          ds = diff ds (GoBool (e_min expected \<noteq> None)) (GoBool (e_min actual \<noteq> None)) (p @ ''HasMin'');
          ds = diff ds (GoBool (e_max expected \<noteq> None)) (GoBool (e_max actual \<noteq> None)) (p @ ''HasMax'');
          ds = diff ds (GoFloat64 (zero_or (e_sum expected))) (GoFloat64 (zero_or (e_sum actual))) (p @ ''Sum'');
          ds = diff ds (GoFloat64 (zero_or (e_min expected))) (GoFloat64 (zero_or (e_min actual))) (p @ ''Min'');
          ds = diff ds (GoFloat64 (zero_or (e_max expected))) (GoFloat64 (zero_or (e_max actual))) (p @ ''Max'');
          ds = diff ds (GoUint64 (e_zero expected)) (GoUint64 (e_zero actual)) (p @ ''ZeroCount'');
          ds = diff ds (GoInt32 (e_scale expected)) (GoInt32 (e_scale actual)) (p @ ''Scale'');
          ds = diffExponentialHistogramPtBuckets ds (e_positive expected) (e_positive actual);
          ds = diffExponentialHistogramPtBuckets ds (e_negative expected) (e_negative actual)
      in diffExemplars ds (e_exemplars expected) (e_exemplars actual))"

definition diffExponentialHistogramPts :: "lib \<Rightarrow> MetricDiff list \<Rightarrow> exp_pt list \<Rightarrow> exp_pt list \<Rightarrow> MetricDiff list" where
  "diffExponentialHistogramPts L ds expected actual =
     (case diffLen ds (length expected) (length actual) ''ExponentialHistogramDataPointSlice len'' of
        (ds, mismatch) \<Rightarrow>
          if mismatch then ds
          else foldl (\<lambda>ds (e, a). diffExponentialHistogramPt L ds e a) ds (zip expected actual))"

section \<open>Metrics, scopes, resources\<close>

definition m_type :: "m_data \<Rightarrow> nat" where
  "m_type d = (case d of MEmpty \<Rightarrow> 0 | MGauge _ \<Rightarrow> 1 | MSum _ _ _ \<Rightarrow> 2 | MHistogram _ _ \<Rightarrow> 3
     | MExponential _ _ \<Rightarrow> 4 | MSummary _ \<Rightarrow> 5)"

definition diffMetricDescriptor :: "MetricDiff list \<Rightarrow> t_metric \<Rightarrow> t_metric \<Rightarrow> MetricDiff list \<times> bool" where
  "diffMetricDescriptor ds expected actual =
     (let ds = diff ds (GoString (m_name expected)) (GoString (m_name actual)) ''Metric Name'';
          ds = diff ds (GoString (m_description expected)) (GoString (m_description actual)) ''Metric Description'';
          ds = diff ds (GoString (m_unit expected)) (GoString (m_unit actual)) ''Metric Unit''
      in diffValues ds (GoEnum (m_type (m_data expected))) (GoEnum (m_type (m_data actual))) ''Metric Type'')"

text \<open>The switch is reached with equal types only.\<close>

definition diffData :: "lib \<Rightarrow> MetricDiff list \<Rightarrow> m_data \<Rightarrow> m_data \<Rightarrow> MetricDiff list go" where
  "diffData L ds expected actual =
     (case (expected, actual) of
        (MGauge es, MGauge bs) \<Rightarrow> ret (diffNumberPts L ds es bs)
      | (MSum em et es, MSum bm bt bs) \<Rightarrow>
          ret (let ds = diff ds (GoBool em) (GoBool bm) ''Sum IsMonotonic'';
                   ds = diff ds (GoEnum et) (GoEnum bt) ''Sum AggregationTemporality''
               in diffNumberPts L ds es bs)
      | (MHistogram et es, MHistogram bt bs) \<Rightarrow>
          ret (let ds = diff ds (GoEnum et) (GoEnum bt) ''Histogram AggregationTemporality''
               in diffHistogramPts L ds es bs)
      | (MExponential et es, MExponential bt bs) \<Rightarrow>
          ret (let ds = diff ds (GoEnum et) (GoEnum bt) ''ExponentialHistogram AggregationTemporality''
               in diffExponentialHistogramPts L ds es bs)
      | (_, MSummary _) \<Rightarrow> panic ''unsupported test case for summary data''
      | _ \<Rightarrow> panic ''unsupported test case'')"

definition DiffMetric :: "lib \<Rightarrow> MetricDiff list \<Rightarrow> t_metric \<Rightarrow> t_metric \<Rightarrow> MetricDiff list go" where
  "DiffMetric L ds expected actual =
     (case diffMetricDescriptor ds expected actual of
        (ds, mismatch) \<Rightarrow>
          if mismatch then ret ds else diffData L ds (m_data expected) (m_data actual))"

fun diff_each :: "(MetricDiff list \<Rightarrow> 'a \<Rightarrow> 'a \<Rightarrow> MetricDiff list go) \<Rightarrow> MetricDiff list \<Rightarrow> ('a \<times> 'a) list
    \<Rightarrow> MetricDiff list go" where
  "diff_each f ds [] = ret ds"
| "diff_each f ds ((e, a) # ps) = andThen (f ds e a) (\<lambda>ds. diff_each f ds ps)"

text \<open>The two length comparisons below pass the actual length as the expected one.\<close>

definition diffMetrics :: "lib \<Rightarrow> MetricDiff list \<Rightarrow> t_metric list \<Rightarrow> t_metric list \<Rightarrow> MetricDiff list go" where
  "diffMetrics L ds expected actual =
     (case diffLen ds (length actual) (length expected) ''MetricSlice len'' of
        (ds, mismatch) \<Rightarrow>
          if mismatch then ret ds else diff_each (DiffMetric L) ds (zip expected actual))"

definition diffILM :: "lib \<Rightarrow> MetricDiff list \<Rightarrow> t_scope \<Rightarrow> t_scope \<Rightarrow> MetricDiff list go" where
  "diffILM L ds expected actual = diffMetrics L ds (s_metrics expected) (s_metrics actual)"

definition diffILMSlice :: "lib \<Rightarrow> MetricDiff list \<Rightarrow> t_scope list \<Rightarrow> t_scope list \<Rightarrow> MetricDiff list go" where
  "diffILMSlice L ds expected actual =
     (case diffLen ds (length actual) (length expected) ''ScopeMetricsSlice len'' of
        (ds, mismatch) \<Rightarrow>
          if mismatch then ret ds else diff_each (diffILM L) ds (zip expected actual))"

definition diffRMs :: "lib \<Rightarrow> MetricDiff list \<Rightarrow> t_resource \<Rightarrow> t_resource \<Rightarrow> MetricDiff list go" where
  "diffRMs L ds expected actual =
     (let ds = diffResource L ds expected actual
      in diffILMSlice L ds (r_scopes expected) (r_scopes actual))"

definition diffRMSlices :: "lib \<Rightarrow> t_resource list \<Rightarrow> t_resource list \<Rightarrow> MetricDiff list go" where
  "diffRMSlices L sent recd =
     (if length sent \<noteq> length recd then
        ret [\<lparr>ExpectedValue = GoInt (int (length sent)), ActualValue = GoInt (int (length recd)),
              Msg = ''Sent vs received ResourceMetrics not equal length''\<rparr>]
      else diff_each (diffRMs L) [] (zip sent recd))"

definition diffMetricData :: "lib \<Rightarrow> t_resource list \<Rightarrow> t_resource list \<Rightarrow> MetricDiff list go" where
  "diffMetricData L expected actual = diffRMSlices L expected actual"

definition DiffMetrics :: "lib \<Rightarrow> MetricDiff list \<Rightarrow> t_resource list \<Rightarrow> t_resource list \<Rightarrow> MetricDiff list go" where
  "DiffMetrics L ds expected actual = andThen (diffMetricData L expected actual) (\<lambda>new. ret (ds @ new))"

section \<open>What it means to agree\<close>

fun num_agree :: "num_value \<Rightarrow> num_value \<Rightarrow> bool" where
  "num_agree NoVal NoVal = True"
| "num_agree (IntVal i) (IntVal j) = (i = j)"
| "num_agree (DoubleVal x) (DoubleVal y) = feq x y"
| "num_agree _ _ = False"

definition exemplar_agree :: "exemplar \<Rightarrow> exemplar \<Rightarrow> bool" where
  "exemplar_agree e a = num_agree (ex_value e) (ex_value a)"

definition num_pt_agree :: "num_pt \<Rightarrow> num_pt \<Rightarrow> bool" where
  "num_pt_agree e a = (deep_attrs (n_attrs e) (n_attrs a) \<and> num_agree (n_value e) (n_value a))"

definition hist_pt_agree :: "hist_pt \<Rightarrow> hist_pt \<Rightarrow> bool" where
  "hist_pt_agree e a = (deep_attrs (h_attrs e) (h_attrs a) \<and> h_count e = h_count a \<and>
     feq (zero_or (h_sum e)) (zero_or (h_sum a)) \<and> h_counts e = h_counts a \<and>
     list_all2 feq (h_bounds e) (h_bounds a) \<and> list_all2 exemplar_agree (h_exemplars e) (h_exemplars a))"

definition optional_agree :: "f64 option \<Rightarrow> f64 option \<Rightarrow> bool" where
  "optional_agree e a = ((e = None) = (a = None) \<and> feq (zero_or e) (zero_or a))"

definition exp_pt_agree :: "exp_pt \<Rightarrow> exp_pt \<Rightarrow> bool" where
  "exp_pt_agree e a = (deep_attrs (e_attrs e) (e_attrs a) \<and> e_count e = e_count a \<and>
     optional_agree (e_sum e) (e_sum a) \<and> optional_agree (e_min e) (e_min a) \<and> optional_agree (e_max e) (e_max a) \<and>
     e_zero e = e_zero a \<and> e_scale e = e_scale a \<and> e_positive e = e_positive a \<and> e_negative e = e_negative a \<and>
     list_all2 exemplar_agree (e_exemplars e) (e_exemplars a))"

fun data_agree :: "m_data \<Rightarrow> m_data \<Rightarrow> bool" where
  "data_agree (MGauge es) (MGauge bs) = list_all2 num_pt_agree es bs"
| "data_agree (MSum em et es) (MSum bm bt bs) = (em = bm \<and> et = bt \<and> list_all2 num_pt_agree es bs)"
| "data_agree (MHistogram et es) (MHistogram bt bs) = (et = bt \<and> list_all2 hist_pt_agree es bs)"
| "data_agree (MExponential et es) (MExponential bt bs) = (et = bt \<and> list_all2 exp_pt_agree es bs)"
| "data_agree _ _ = False"

definition metric_agree :: "t_metric \<Rightarrow> t_metric \<Rightarrow> bool" where
  "metric_agree e a = (m_name e = m_name a \<and> m_description e = m_description a \<and> m_unit e = m_unit a \<and>
     data_agree (m_data e) (m_data a))"

definition scope_agree :: "t_scope \<Rightarrow> t_scope \<Rightarrow> bool" where
  "scope_agree e a = list_all2 metric_agree (s_metrics e) (s_metrics a)"

definition resource_agree :: "t_resource \<Rightarrow> t_resource \<Rightarrow> bool" where
  "resource_agree e a = (deep_attrs (r_attrs e) (r_attrs a) \<and> list_all2 scope_agree (r_scopes e) (r_scopes a))"

section \<open>Every comparison appends, and appends nothing exactly when its parts agree\<close>

named_theorems ext_intros

definition extends :: "MetricDiff list \<Rightarrow> MetricDiff list \<Rightarrow> bool \<Rightarrow> bool" where
  "extends ds out ok \<longleftrightarrow> (\<exists>new. out = ds @ new \<and> (new = []) = ok)"

definition goext :: "MetricDiff list \<Rightarrow> MetricDiff list go \<Rightarrow> bool \<Rightarrow> bool" where
  "goext ds r ok = (case r of Inl _ \<Rightarrow> \<not> ok | Inr out \<Rightarrow> extends ds out ok)"

lemma ext_refl: "extends ds ds True"
  by (simp add: extends_def)

lemma ext_iff: "extends ds out P \<Longrightarrow> P = Q \<Longrightarrow> extends ds out Q"
  by simp

lemma ext_diff: "extends ds d P \<Longrightarrow> extends ds (diff d e a m) (P \<and> deep_equal e a)"
  by (auto simp: extends_def diff_def diffValues_def)

lemma ext_attrs: "extends ds d P \<Longrightarrow> extends ds (diffMetricAttrs L d e a) (P \<and> deep_attrs e a)"
  by (auto simp: extends_def diffMetricAttrs_def attrs_diff_def)

lemma ext_values:
  assumes "extends ds d P" "deep_equal e a \<Longrightarrow> extends ds (k d) (P \<and> Q)"
  shows "extends ds (case diffValues d e a m of (d', mm) \<Rightarrow> if mm then d' else k d') (P \<and> deep_equal e a \<and> Q)"
  using assms by (auto simp: extends_def diffValues_def)

lemma ext_len:
  assumes "extends ds d P" "x = y \<Longrightarrow> extends ds (k d) (P \<and> Q)"
  shows "extends ds (case diffLen d x y m of (d', mm) \<Rightarrow> if mm then d' else k d') (P \<and> x = y \<and> Q)"
  using ext_values [of ds d P "GoInt (int x)" "GoInt (int y)" k Q m] assms by (simp add: diffLen_def)

lemma ext_fold:
  assumes "\<And>d x P. extends ds d P \<Longrightarrow> extends ds (f d x) (P \<and> R x)" "extends ds d P"
  shows "extends ds (foldl f d xs) (P \<and> list_all R xs)"
  using assms(2)
proof (induction xs arbitrary: d P)
  case (Cons x xs)
  from Cons.IH [OF assms(1) [OF Cons.prems, of x]] show ?case by (simp add: conj_assoc)
qed simp

lemma ext_foldl:
  assumes "\<And>d e a P. extends ds d P \<Longrightarrow> extends ds (f d e a) (P \<and> R e a)" "extends ds d P"
  shows "extends ds (foldl (\<lambda>ds (e, a). f ds e a) d ps) (P \<and> list_all (\<lambda>(e, a). R e a) ps)"
  using assms(2)
proof (induction ps arbitrary: d P)
  case (Cons p ps)
  obtain e a where p: "p = (e, a)" by (cases p)
  from Cons.IH [OF assms(1) [OF Cons.prems, of e a]] show ?case by (simp add: p conj_assoc)
qed simp

lemma ext_list:
  assumes "\<And>d e a P. extends ds d P \<Longrightarrow> extends ds (f d e a) (P \<and> R e a)" "extends ds d P"
  shows "extends ds (case diffLen d (length es) (length bs) m of (d', mm) \<Rightarrow>
      if mm then d' else foldl (\<lambda>ds (e, a). f ds e a) d' (zip es bs)) (P \<and> list_all2 R es bs)"
proof (rule ext_iff)
  show "extends ds (case diffLen d (length es) (length bs) m of (d', mm) \<Rightarrow>
      if mm then d' else foldl (\<lambda>ds (e, a). f ds e a) d' (zip es bs))
      (P \<and> length es = length bs \<and> list_all (\<lambda>(e, a). R e a) (zip es bs))"
    using ext_foldl [of ds f R, OF assms] by (intro ext_len [OF assms(2), where k = "\<lambda>d. foldl (\<lambda>ds (e, a). f ds e a) d (zip es bs)"])
qed (simp add: list_all2_iff list_all_iff)

lemma value_agree:
  "extends ds d P \<Longrightarrow> value_type e = value_type a \<Longrightarrow> extends ds (diffValue d e a m) (P \<and> num_agree e a)"
  by (cases e; cases a) (auto simp: diffValue_def value_type_def int_value_def dbl_value_def extends_def diff_def diffValues_def)

lemma ext_value: "extends ds d P \<Longrightarrow> \<exists>Q. extends ds (diffValue d e a m) (P \<and> Q)"
  using ext_diff [of ds d P] by (cases e) (auto simp: diffValue_def intro: exI [of _ True])

lemma ext_exemplar: "extends ds d P \<Longrightarrow> extends ds (diffExemplar d e a) (P \<and> exemplar_agree e a)"
proof -
  let ?te = "value_type (ex_value e)" let ?ta = "value_type (ex_value a)"
  assume ds: "extends ds d P"
  note 1 = ext_diff [OF ds, of "GoEnum ?te" "GoEnum ?ta" "''Exemplar Value Type''"]
  show ?thesis
  proof (cases "?te = ?ta")
    case True
    from value_agree [OF 1 True] show ?thesis
      using True by (auto simp: diffExemplar_def Let_def exemplar_agree_def elim!: ext_iff)
  next
    case False
    then have "\<not> num_agree (ex_value e) (ex_value a)"
      by (cases "ex_value e"; cases "ex_value a") (auto simp: value_type_def)
    moreover have "extends ds (diffExemplar d e a) False"
      using ext_value [OF 1, of "ex_value e" "ex_value a" "''Exemplar Value''"] False
      by (auto simp: diffExemplar_def Let_def)
    ultimately show ?thesis by (simp add: exemplar_agree_def)
  qed
qed

lemma ext_exemplars: "extends ds d P \<Longrightarrow> extends ds (diffExemplars d e a) (P \<and> list_all2 exemplar_agree e a)"
  unfolding diffExemplars_def by (rule ext_list [OF ext_exemplar])

lemma type_agree: "num_agree e a \<Longrightarrow> value_type e = value_type a"
  by (cases e; cases a) (auto simp: value_type_def)

lemma ext_numberPts:
  "extends ds d P \<Longrightarrow> extends ds (numberPts L d ps) (P \<and> list_all (\<lambda>(e, a). num_pt_agree e a) ps)"
proof (induction ps arbitrary: d P)
  case (Cons p ps)
  obtain e a where p: "p = (e, a)" by (cases p)
  let ?e = "n_value e" let ?a = "n_value a" let ?A = "deep_attrs (n_attrs e) (n_attrs a)"
  let ?R = "list_all (\<lambda>(e, a). num_pt_agree e a) ps"
  let ?d = "diffMetricAttrs L d (n_attrs e) (n_attrs a)"
  have 1: "extends ds ?d (P \<and> ?A)" by (rule ext_attrs [OF Cons.prems])
  have "extends ds (numberPts L (diffValue ?d ?e ?a ''NumberDataPoint Value'') ps)
      ((P \<and> ?A) \<and> (num_agree ?e ?a \<and> ?R))" if "value_type ?e = value_type ?a"
    using Cons.IH [OF value_agree [OF 1 that]] by (simp only: conj_assoc)
  then have "extends ds (case diffValues ?d (GoEnum (value_type ?e)) (GoEnum (value_type ?a)) ''NumberDataPoint Value Type'' of
       (d', mm) \<Rightarrow> if mm then d' else numberPts L (diffValue d' ?e ?a ''NumberDataPoint Value'') ps)
     ((P \<and> ?A) \<and> deep_equal (GoEnum (value_type ?e)) (GoEnum (value_type ?a)) \<and> (num_agree ?e ?a \<and> ?R))"
    by (intro ext_values [OF 1, where k = "\<lambda>d. numberPts L (diffValue d ?e ?a ''NumberDataPoint Value'') ps"]) simp
  then have "extends ds (numberPts L d (p # ps))
     ((P \<and> ?A) \<and> deep_equal (GoEnum (value_type ?e)) (GoEnum (value_type ?a)) \<and> (num_agree ?e ?a \<and> ?R))"
    by (simp only: p numberPts.simps Let_def)
  then show ?case by (rule ext_iff) (auto simp: p num_pt_agree_def dest: type_agree)
qed simp

lemma ext_diffNumberPts: "extends ds d P \<Longrightarrow> extends ds (diffNumberPts L d e a) (P \<and> list_all2 num_pt_agree e a)"
proof -
  assume ds: "extends ds d P"
  have "extends ds (diffNumberPts L d e a) (P \<and> length e = length a \<and> list_all (\<lambda>(e, a). num_pt_agree e a) (zip e a))"
    unfolding diffNumberPts_def
    by (rule ext_len [OF ds, where k = "\<lambda>d. numberPts L d (zip e a)"]) (rule ext_numberPts [OF ds])
  then show ?thesis by (rule ext_iff) (simp add: list_all2_iff list_all_iff)
qed

lemma list_all2_eq_iff: "list_all2 (=) xs ys = (xs = ys)"
  by (simp add: list.rel_eq)

lemma ext_hist_pt: "extends ds d P \<Longrightarrow> extends ds (diffHistogramPt L d e a) (P \<and> hist_pt_agree e a)"
proof -
  assume ds: "extends ds d P"
  define d1 where "d1 = diff (diff (diffMetricAttrs L d (h_attrs e) (h_attrs a)) (GoUint64 (h_count e)) (GoUint64 (h_count a))
    ''HistogramDataPoint Count'') (GoFloat64 (zero_or (h_sum e))) (GoFloat64 (zero_or (h_sum a))) ''HistogramDataPoint Sum''"
  let ?P1 = "P \<and> deep_attrs (h_attrs e) (h_attrs a) \<and> h_count e = h_count a \<and> feq (zero_or (h_sum e)) (zero_or (h_sum a))"
  have 1: "extends ds d1 ?P1"
    unfolding d1_def using ext_diff [OF ext_diff [OF ext_attrs [OF ds]]] by (rule ext_iff) auto
  define counts where "counts = (\<lambda>d. foldl (\<lambda>ds (e, a). diff ds (GoUint64 e) (GoUint64 a) ''HistogramDataPoint BucketCounts'') d
    (zip (h_counts e) (h_counts a)))"
  define bounds where "bounds = (\<lambda>d. foldl (\<lambda>ds (e, a). diff ds (GoFloat64 e) (GoFloat64 a) ''HistogramDataPoint ExplicitBounds'') d
    (zip (h_bounds e) (h_bounds a)))"
  define rest where "rest = (\<lambda>d. case diffLen d (length (h_bounds e)) (length (h_bounds a)) ''HistogramDataPoint ExplicitBounds len'' of
    (d', mm) \<Rightarrow> if mm then d' else diffExemplars (bounds d') (h_exemplars e) (h_exemplars a))"
  let ?c = "list_all (\<lambda>(x, y). x = y) (zip (h_counts e) (h_counts a))"
  let ?b = "list_all (\<lambda>(x, y). feq x y) (zip (h_bounds e) (h_bounds a))"
  have c: "extends ds (counts d1) (?P1 \<and> ?c)"
    unfolding counts_def by (rule ext_foldl [OF _ 1]) (drule ext_diff, erule ext_iff, simp)
  have b: "extends ds (bounds (counts d1)) ((?P1 \<and> ?c) \<and> ?b)"
    unfolding bounds_def by (rule ext_foldl [OF _ c]) (drule ext_diff, erule ext_iff, simp)
  have r: "extends ds (rest (counts d1)) ((?P1 \<and> ?c) \<and> length (h_bounds e) = length (h_bounds a) \<and>
      (?b \<and> list_all2 exemplar_agree (h_exemplars e) (h_exemplars a)))"
    unfolding rest_def
    by (rule ext_len [OF c, where k = "\<lambda>d. diffExemplars (bounds d) (h_exemplars e) (h_exemplars a)"])
      (use ext_exemplars [OF b] in \<open>simp only: conj_assoc\<close>)
  have eq: "diffHistogramPt L d e a = (case diffLen d1 (length (h_counts e)) (length (h_counts a))
      ''HistogramDataPoint BucketCounts len'' of (d', mm) \<Rightarrow> if mm then d' else rest (counts d'))"
    by (simp only: diffHistogramPt_def Let_def d1_def counts_def bounds_def rest_def)
  have "extends ds (diffHistogramPt L d e a) (?P1 \<and> length (h_counts e) = length (h_counts a) \<and>
      (?c \<and> length (h_bounds e) = length (h_bounds a) \<and> ?b \<and> list_all2 exemplar_agree (h_exemplars e) (h_exemplars a)))"
    unfolding eq by (rule ext_len [OF 1, where k = "\<lambda>d. rest (counts d)"]) (use r in \<open>simp only: conj_assoc\<close>)
  then show ?thesis
    by (rule ext_iff) (auto simp: hist_pt_agree_def list_all2_iff list_all_iff list_all2_eq_iff [symmetric])
qed

lemma ext_buckets: "extends ds d P \<Longrightarrow> extends ds (diffExponentialHistogramPtBuckets d e a) (P \<and> e = a)"
proof -
  assume ds: "extends ds d P"
  let ?m = "\<lambda>i. ''ExponentialHistogramDataPoint Buckets Count['' @ nat_str i @ '']''"
  let ?n = "length (b_counts e)"
  let ?d = "diff d (GoInt32 (b_offset e)) (GoInt32 (b_offset a)) ''ExponentialHistogramDataPoint Buckets Offset''"
  let ?k = "\<lambda>d. foldl (\<lambda>ds i. diff ds (GoUint64 (b_counts e ! i)) (GoUint64 (b_counts a ! i)) (?m i)) d [0..<?n]"
  let ?Q = "list_all (\<lambda>i. b_counts e ! i = b_counts a ! i) [0..<?n]"
  have 1: "extends ds ?d (P \<and> b_offset e = b_offset a)" using ext_diff [OF ds] by (rule ext_iff) simp
  have 2: "extends ds (?k ?d) ((P \<and> b_offset e = b_offset a) \<and> ?Q)"
    by (rule ext_fold [OF _ 1]) (drule ext_diff, erule ext_iff, simp)
  have 3: "extends ds (diffExponentialHistogramPtBuckets d e a)
      ((P \<and> b_offset e = b_offset a) \<and> ?n = length (b_counts a) \<and> ?Q)"
    unfolding diffExponentialHistogramPtBuckets_def Let_def by (rule ext_len [OF 1, where k = ?k]) (rule 2)
  have "(?n = length (b_counts a) \<and> ?Q) = (b_counts e = b_counts a)"
    unfolding list_eq_iff_nth_eq [of "b_counts e"] list_all_iff set_upt by auto
  moreover have "(e = a) = (b_offset e = b_offset a \<and> b_counts e = b_counts a)"
    by (cases e; cases a) simp
  ultimately show ?thesis using 3 by (simp only: conj_assoc)
qed

lemma ext_exp_pt: "extends ds d P \<Longrightarrow> extends ds (diffExponentialHistogramPt L d e a) (P \<and> exp_pt_agree e a)"
proof -
  assume ds: "extends ds d P"
  note sums = ext_diff [OF ext_diff [OF ext_diff [OF ext_diff [OF ext_attrs [OF ds]]]]]
  note scale = ext_diff [OF ext_diff [OF ext_diff [OF ext_diff [OF ext_diff [OF sums]]]]]
  show ?thesis
    unfolding diffExponentialHistogramPt_def Let_def
    by (rule ext_iff [OF ext_exemplars [OF ext_buckets [OF ext_buckets [OF scale]]]])
      (auto simp: exp_pt_agree_def optional_agree_def)
qed

lemma goext_ret: "extends ds d P \<Longrightarrow> goext ds (ret d) P"
  by (simp add: goext_def)

lemma goext_iff: "goext ds r P \<Longrightarrow> P = Q \<Longrightarrow> goext ds r Q"
  by simp

lemma goext_data:
  assumes "extends ds d P" "m_type e = m_type a"
  shows "goext ds (diffData L d e a) (P \<and> data_agree e a)"
proof -
  note df = ext_diff [OF assms(1)]
  have num: "extends ds d' Q \<Longrightarrow> goext ds (ret (diffNumberPts L d' es bs)) (Q \<and> list_all2 num_pt_agree es bs)" for d' Q es bs
    by (intro goext_ret ext_diffNumberPts)
  have hist: "extends ds d' Q \<Longrightarrow> goext ds (ret (diffHistogramPts L d' es bs)) (Q \<and> list_all2 hist_pt_agree es bs)" for d' Q es bs
    unfolding diffHistogramPts_def by (intro goext_ret ext_list ext_hist_pt)
  have exp: "extends ds d' Q \<Longrightarrow> goext ds (ret (diffExponentialHistogramPts L d' es bs)) (Q \<and> list_all2 exp_pt_agree es bs)" for d' Q es bs
    unfolding diffExponentialHistogramPts_def by (intro goext_ret ext_list ext_exp_pt)
  show ?thesis
  proof (cases e)
    case (MGauge es)
    with assms(2) obtain bs where "a = MGauge bs" by (cases a) (auto simp: m_type_def)
    with MGauge num [OF assms(1)] show ?thesis by (simp add: diffData_def)
  next
    case (MSum em et es)
    with assms(2) obtain bm bt bs where a: "a = MSum bm bt bs" by (cases a) (auto simp: m_type_def)
    show ?thesis
      by (simp add: MSum a diffData_def Let_def) (rule goext_iff [OF num [OF ext_diff [OF df]]], auto)
  next
    case (MHistogram et es)
    with assms(2) obtain bt bs where a: "a = MHistogram bt bs" by (cases a) (auto simp: m_type_def)
    show ?thesis by (simp add: MHistogram a diffData_def Let_def) (rule goext_iff [OF hist [OF df]], auto)
  next
    case (MExponential et es)
    with assms(2) obtain bt bs where a: "a = MExponential bt bs" by (cases a) (auto simp: m_type_def)
    show ?thesis by (simp add: MExponential a diffData_def Let_def) (rule goext_iff [OF exp [OF df]], auto)
  qed (use assms(2) in \<open>cases a; auto simp: m_type_def diffData_def goext_def\<close>)+
qed

lemma data_type: "data_agree e a \<Longrightarrow> m_type e = m_type a"
  by (cases e; cases a) (auto simp: m_type_def)

lemma goext_metric: "extends ds d P \<Longrightarrow> goext ds (DiffMetric L d e a) (P \<and> metric_agree e a)"
proof -
  assume ds: "extends ds d P"
  define d1 where "d1 = diff (diff (diff d (GoString (m_name e)) (GoString (m_name a)) ''Metric Name'')
    (GoString (m_description e)) (GoString (m_description a)) ''Metric Description'') (GoString (m_unit e)) (GoString (m_unit a)) ''Metric Unit''"
  let ?D = "m_name e = m_name a \<and> m_description e = m_description a \<and> m_unit e = m_unit a"
  have 1: "extends ds d1 (P \<and> ?D)" unfolding d1_def using ext_diff [OF ext_diff [OF ext_diff [OF ds]]] by (rule ext_iff) auto
  have eq: "DiffMetric L d e a = (case diffValues d1 (GoEnum (m_type (m_data e))) (GoEnum (m_type (m_data a))) ''Metric Type'' of
      (ds, mismatch) \<Rightarrow> if mismatch then ret ds else diffData L ds (m_data e) (m_data a))"
    by (simp only: DiffMetric_def diffMetricDescriptor_def Let_def d1_def)
  show ?thesis
  proof (cases "m_type (m_data e) = m_type (m_data a)")
    case True
    with goext_data [OF 1 True] show ?thesis
      by (simp add: eq diffValues_def metric_agree_def conj_assoc)
  next
    case False
    then have "\<not> data_agree (m_data e) (m_data a)" using data_type by blast
    with False 1 show ?thesis by (auto simp: eq diffValues_def metric_agree_def goext_def extends_def)
  qed
qed

lemma goext_each:
  assumes "\<And>d e a P. extends ds d P \<Longrightarrow> goext ds (f d e a) (P \<and> R e a)" "extends ds d P"
  shows "goext ds (diff_each f d ps) (P \<and> list_all (\<lambda>(e, a). R e a) ps)"
  using assms(2)
proof (induction ps arbitrary: d P)
  case (Cons p ps)
  obtain e a where p: "p = (e, a)" by (cases p)
  from assms(1) [OF Cons.prems, of e a] show ?case
  proof (cases "f d e a")
    case (Inr d')
    with assms(1) [OF Cons.prems, of e a] have "extends ds d' (P \<and> R e a)" by (simp add: goext_def)
    from Cons.IH [OF this] Inr show ?thesis by (simp add: p conj_assoc)
  qed (auto simp: p goext_def)
qed (simp add: goext_ret)

lemma goext_list:
  assumes "\<And>d e a P. extends ds d P \<Longrightarrow> goext ds (f d e a) (P \<and> R e a)" "extends ds d P"
  shows "goext ds (case diffLen d (length bs) (length es) m of (d', mm) \<Rightarrow>
      if mm then ret d' else diff_each f d' (zip es bs)) (P \<and> list_all2 R es bs)"
proof (cases "length es = length bs")
  case True
  with goext_each [of ds f R, OF assms] show ?thesis
    by (simp add: diffLen_def diffValues_def list_all2_iff list_all_iff)
next
  case False
  then have "\<not> list_all2 R es bs" by (auto dest: list_all2_lengthD)
  with False assms(2) show ?thesis by (auto simp: diffLen_def diffValues_def goext_def extends_def)
qed

lemma goext_metrics: "extends ds d P \<Longrightarrow> goext ds (diffMetrics L d e a) (P \<and> list_all2 metric_agree e a)"
  unfolding diffMetrics_def by (rule goext_list [OF goext_metric])

lemma goext_scope: "extends ds d P \<Longrightarrow> goext ds (diffILM L d e a) (P \<and> scope_agree e a)"
  unfolding diffILM_def scope_agree_def by (rule goext_metrics)

lemma goext_resource: "extends ds d P \<Longrightarrow> goext ds (diffRMs L d e a) (P \<and> resource_agree e a)"
proof -
  assume ds: "extends ds d P"
  have 1: "extends ds (diffResource L d e a) (P \<and> deep_attrs (r_attrs e) (r_attrs a))"
    using ds by (auto simp: diffResource_def diffResourceAttrs_def attrs_diff_def extends_def)
  have "goext ds (diffILMSlice L (diffResource L d e a) (r_scopes e) (r_scopes a))
      ((P \<and> deep_attrs (r_attrs e) (r_attrs a)) \<and> list_all2 scope_agree (r_scopes e) (r_scopes a))"
    unfolding diffILMSlice_def by (rule goext_list [OF goext_scope 1])
  then show ?thesis by (simp add: diffRMs_def Let_def resource_agree_def conj_assoc)
qed

text \<open>C33: \<open>DiffMetrics\<close> adds no difference exactly when the metrics agree: they have the same resources, scopes and metrics
  position by position, with equal attributes (maps by key, floating-point numbers by \<open>==\<close>), descriptors and points,
  except that exemplars of number points and the parts it does not read may differ, and that a metric that is a
  summary or empty never agrees.\<close>

theorem diff_exact: "DiffMetrics L ds e a = ret ds \<longleftrightarrow> list_all2 resource_agree e a"
proof (cases "length e = length a")
  case True
  have "goext [] (diff_each (diffRMs L) [] (zip e a)) (True \<and> list_all (\<lambda>(e, a). resource_agree e a) (zip e a))"
    by (rule goext_each [OF goext_resource ext_refl])
  with True show ?thesis
    by (cases "diff_each (diffRMs L) [] (zip e a)")
      (auto simp: DiffMetrics_def diffMetricData_def diffRMSlices_def goext_def extends_def list_all2_iff list_all_iff)
next
  case False
  then show ?thesis by (auto simp: DiffMetrics_def diffMetricData_def diffRMSlices_def dest: list_all2_lengthD)
qed

text \<open>Metrics that differ in the exemplars of a number point only agree, and a NaN does not agree with itself.\<close>

lemma exemplars_ignored:
  "n_attrs e = [] \<Longrightarrow> n_value e = NoVal \<Longrightarrow>
     diffNumberPts L [] [e] [e\<lparr>n_exemplars := xs\<rparr>] = []"
  by (simp add: diffNumberPts_def diffLen_def diffValues_def diffMetricAttrs_def attrs_diff_def deep_attrs_def
      value_type_def diffValue_def Let_def)

lemma nan_differs: "\<not> num_pt_agree \<lparr>n_attrs = [], n_value = DoubleVal NaN, n_exemplars = [], n_rest = r\<rparr>
    \<lparr>n_attrs = [], n_value = DoubleVal NaN, n_exemplars = [], n_rest = r\<rparr>"
  by (simp add: num_pt_agree_def feq_def fle_def)

lemma scope_lengths_swapped:
  "length e \<noteq> length a \<Longrightarrow> diffILMSlice L [] e a =
     ret [\<lparr>ExpectedValue = GoInt (int (length a)), ActualValue = GoInt (int (length e)), Msg = ''ScopeMetricsSlice len''\<rparr>]"
  by (simp add: diffILMSlice_def diffLen_def diffValues_def)

end
