(* ===== verification/Test_Data.thy ===== *)
theory Test_Data
  imports Pdata "HOL-Library.Word"
begin

text \<open>
  The data that test beds send (testbed/testbed/data_providers.go): traces, metrics and logs as far as they
  are generated or compared, and the data providers. A provider increments the counter it was given a
  pointer to, which is the counter \<open>dataItemsSent\<close> of the load generator; the counter is passed
  explicitly, and so are the readings of the clock. One call of a provider is one step.
\<close>

section \<open>Traces, metrics, logs\<close>

record t_event =
  ev_name :: string
  ev_time :: "64 word"
  ev_attrs :: attrs
  ev_rest :: payload

record t_link =
  ln_trace :: string
  ln_span :: string
  ln_state :: string
  ln_attrs :: attrs
  ln_rest :: payload

record t_span =
  sp_trace :: string
  sp_id :: string
  sp_state :: string
  sp_parent :: string
  sp_name :: string
  sp_kind :: nat
  sp_start :: "64 word"
  sp_end :: "64 word"
  sp_attrs :: attrs
  sp_dropped_attrs :: "32 word"
  sp_events :: "t_event list"
  sp_dropped_events :: "32 word"
  sp_links :: "t_link list"
  sp_dropped_links :: "32 word"
  sp_code :: nat
  sp_rest :: payload

record g_point =
  gp_start :: "64 word"
  gp_value :: int
  gp_attrs :: attrs

record t_gauge =
  g_name :: string
  g_description :: string
  g_unit :: string
  g_points :: "g_point list"

record t_log =
  lg_severity :: nat
  lg_text :: string
  lg_body :: val
  lg_sampled :: bool
  lg_time :: "64 word"
  lg_attrs :: attrs

text \<open>Resources with their attributes, in them scopes, in them the items.\<close>

type_synonym 'a nested = "(attrs \<times> 'a list list) list"

definition items :: "'a nested \<Rightarrow> 'a list" where
  "items td = concat (map (\<lambda>(_, scopes). concat scopes) td)"

definition point_count :: "t_gauge nested \<Rightarrow> nat" where
  "point_count md = sum_list (map (\<lambda>g. length (g_points g)) (items md))"

lemma items_simps [simp]:
  "items [] = []" "items ((a, scopes) # td) = concat scopes @ items td"
  by (simp_all add: items_def)

lemma items_append [simp]: "items (xs @ ys) = items xs @ items ys"
  by (simp add: items_def)

section \<open>Options\<close>

record LoadOptions =
  DataItemsPerSecond :: int
  ItemsPerBatch :: int
  Attributes :: "(string, string) gomap"
  Parallel :: int
  MaxDelay :: int

text \<open>The identifiers of traces and spans are made by a package outside the repository.\<close>

record id_lib =
  trace_id_of :: "64 word \<Rightarrow> string"
  span_id_of :: "64 word \<Rightarrow> string"

section \<open>The provider for performance tests\<close>

record perfTestDataProvider =
  options :: LoadOptions
  traceIDSequence :: "64 word"

definition NewPerfTestDataProvider :: "LoadOptions \<Rightarrow> perfTestDataProvider" where
  "NewPerfTestDataProvider opts = \<lparr>options = opts, traceIDSequence = 0\<rparr>"

text \<open>The loop over a map of strings visits it in an unspecified order.\<close>

definition putAll :: "nat list \<Rightarrow> (string, string) gomap \<Rightarrow> attrs \<Rightarrow> attrs" where
  "putAll ns m attrs = foldl (\<lambda>attrs (k, v). attr_put k (VStr v) attrs) attrs (shuffle ns m)"

definition perfSpan :: "id_lib \<Rightarrow> nat list \<Rightarrow> int \<Rightarrow> LoadOptions \<Rightarrow> 64 word \<Rightarrow> nat \<Rightarrow> 64 word \<Rightarrow> t_span" where
  "perfSpan I ns now opts traceID i spanID =
     (let startTime = now + wrap64 ((int i + sint traceID * 1000) * 1000000000);
          endTime = startTime + 1000000
      in \<lparr>sp_trace = trace_id_of I traceID, sp_id = span_id_of I spanID, sp_state = [], sp_parent = [],
          sp_name = ''load-generator-span'' @ nat_str (unat (spanID + traceID * 1000)), sp_kind = 3,
          sp_start = word_of_int startTime, sp_end = word_of_int endTime,
          sp_attrs = putAll ns (Attributes opts)
            (attr_put ''load_generator.trace_seq_num'' (VInt (sint traceID))
              (attr_put ''load_generator.span_seq_num'' (VInt (sint spanID)) [])),
          sp_dropped_attrs = 0, sp_events = [], sp_dropped_events = 0, sp_links = [], sp_dropped_links = 0,
          sp_code = 0, sp_rest = 0\<rparr>)"

text \<open>A loop of \<open>n\<close> rounds from index \<open>i\<close>; each round increments the shared counter once.\<close>

fun counted :: "(nat \<Rightarrow> 64 word \<Rightarrow> 'a) \<Rightarrow> nat \<Rightarrow> nat \<Rightarrow> 64 word \<Rightarrow> 'a list \<times> 64 word" where
  "counted item i 0 sent = ([], sent)"
| "counted item i (Suc n) sent =
     (let sent = sent + 1; (xs, sent') = counted item (Suc i) n sent in (item i sent # xs, sent'))"

definition perfTraces ::
  "id_lib \<Rightarrow> (nat \<Rightarrow> nat list) \<Rightarrow> (nat \<Rightarrow> int) \<Rightarrow> perfTestDataProvider \<Rightarrow> 64 word \<Rightarrow>
     perfTestDataProvider \<times> 64 word \<times> t_span nested \<times> bool" where
  "perfTraces I c now dp sent =
     (let traceID = traceIDSequence dp + 1;
          dp = dp\<lparr>traceIDSequence := traceID\<rparr>;
          (spans, sent) = counted (\<lambda>i. perfSpan I (c i) (now i) (options dp) traceID i) 0
                            (nat (ItemsPerBatch (options dp))) sent
      in (dp, sent, [([], [spans])], False))"

definition dataPointsPerMetric :: nat where
  "dataPointsPerMetric = 7"

definition perfPoint :: "int \<Rightarrow> 64 word \<Rightarrow> nat \<Rightarrow> 64 word \<Rightarrow> g_point" where
  "perfPoint now batchIndex j v =
     \<lparr>gp_start = word_of_int now, gp_value = sint v,
      gp_attrs = attr_put ''batch_index'' (VStr (''batch_'' @ int_str (sint batchIndex)))
        (attr_put ''item_index'' (VStr (''item_'' @ nat_str j)) [])\<rparr>"

fun perfGauges :: "(nat \<Rightarrow> nat \<Rightarrow> int) \<Rightarrow> nat \<Rightarrow> nat \<Rightarrow> 64 word \<Rightarrow> 64 word \<Rightarrow> t_gauge list \<times> 64 word \<times> 64 word" where
  "perfGauges now i 0 seq sent = ([], seq, sent)"
| "perfGauges now i (Suc n) seq sent =
     (let batchIndex = seq + 1;
          (points, sent) = counted (\<lambda>j. perfPoint (now i j) batchIndex j) 0 dataPointsPerMetric sent;
          (gauges, seq, sent) = perfGauges now (Suc i) n batchIndex sent
      in (\<lparr>g_name = ''load_generator_'' @ nat_str i, g_description = ''Load Generator Counter #'' @ nat_str i,
           g_unit = ''1'', g_points = points\<rparr> # gauges, seq, sent))"

definition perfMetrics ::
  "nat list \<Rightarrow> (nat \<Rightarrow> nat \<Rightarrow> int) \<Rightarrow> perfTestDataProvider \<Rightarrow> 64 word \<Rightarrow>
     perfTestDataProvider \<times> 64 word \<times> t_gauge nested \<times> bool" where
  "perfMetrics ns now dp sent =
     (let (gauges, seq, sent) = perfGauges now 0 (nat (ItemsPerBatch (options dp))) (traceIDSequence dp) sent
      in (dp\<lparr>traceIDSequence := seq\<rparr>, sent, [(putAll ns (Attributes (options dp)) [], [gauges])], False))"

definition perfLog :: "int \<Rightarrow> 64 word \<Rightarrow> nat \<Rightarrow> 64 word \<Rightarrow> t_log" where
  "perfLog now batchIndex i itemIndex =
     \<lparr>lg_severity = 11, lg_text = ''INFO3'', lg_body = VStr (''Load Generator Counter #'' @ nat_str i),
      lg_sampled = True, lg_time = word_of_int now,
      lg_attrs = attr_put ''d'' (VBool True) (attr_put ''c'' (VInt 3) (attr_put ''b'' (VDouble (Fin 5))
        (attr_put ''a'' (VStr ''test'')
          (attr_put ''item_index'' (VStr (''item_'' @ int_str (sint itemIndex)))
            (attr_put ''batch_index'' (VStr (''batch_'' @ int_str (sint batchIndex))) [])))))\<rparr>"

definition perfLogs ::
  "nat list \<Rightarrow> int \<Rightarrow> perfTestDataProvider \<Rightarrow> 64 word \<Rightarrow> perfTestDataProvider \<times> 64 word \<times> t_log nested \<times> bool" where
  "perfLogs ns now dp sent =
     (let batchIndex = traceIDSequence dp + 1;
          (records, sent) = counted (perfLog now batchIndex) 0 (nat (ItemsPerBatch (options dp))) sent
      in (dp\<lparr>traceIDSequence := batchIndex\<rparr>, sent, [(putAll ns (Attributes (options dp)) [], [records])], False))"

section \<open>The provider of recorded data\<close>

text \<open>
  One of the three messages is read from a file when the provider is made, the others stay zero; the reading
  functions of the package golden are parameters, \<open>Inl\<close> for an error.
\<close>

datatype signal = SignalTraces | SignalMetrics | SignalLogs | SignalOther

record 'm FileDataProvider =
  fd_logs :: "t_log nested"
  fd_metrics :: 'm
  fd_traces :: "t_span nested"
  fd_items :: nat

record 'm golden_lib =
  ReadTraces :: "string \<Rightarrow> string + t_span nested"
  ReadMetrics :: "string \<Rightarrow> string + 'm"
  ReadLogs :: "string \<Rightarrow> string + t_log nested"
  DataPointCount :: "'m \<Rightarrow> nat"
  ZeroMetrics :: 'm

definition NewFileDataProvider :: "'m golden_lib \<Rightarrow> string \<Rightarrow> signal \<Rightarrow> string + 'm FileDataProvider" where
  "NewFileDataProvider G filePath dataType =
     (let dp = \<lparr>fd_logs = [], fd_metrics = ZeroMetrics G, fd_traces = [], fd_items = 0\<rparr>
      in case dataType of
           SignalTraces \<Rightarrow> (case ReadTraces G filePath of Inl err \<Rightarrow> Inl err
             | Inr td \<Rightarrow> Inr (dp\<lparr>fd_traces := td, fd_items := length (items td)\<rparr>))
         | SignalMetrics \<Rightarrow> (case ReadMetrics G filePath of Inl err \<Rightarrow> Inl err
             | Inr md \<Rightarrow> Inr (dp\<lparr>fd_metrics := md, fd_items := DataPointCount G md\<rparr>))
         | SignalLogs \<Rightarrow> (case ReadLogs G filePath of Inl err \<Rightarrow> Inl err
             | Inr ld \<Rightarrow> Inr (dp\<lparr>fd_logs := ld, fd_items := length (items ld)\<rparr>))
         | SignalOther \<Rightarrow> Inr dp)"

definition fileTraces :: "'m FileDataProvider \<Rightarrow> 64 word \<Rightarrow> 'm FileDataProvider \<times> 64 word \<times> t_span nested \<times> bool" where
  "fileTraces dp sent = (dp, sent + of_nat (fd_items dp), fd_traces dp, False)"

definition fileMetrics :: "'m FileDataProvider \<Rightarrow> 64 word \<Rightarrow> 'm FileDataProvider \<times> 64 word \<times> 'm \<times> bool" where
  "fileMetrics dp sent = (dp, sent + of_nat (fd_items dp), fd_metrics dp, False)"

definition fileLogs :: "'m FileDataProvider \<Rightarrow> 64 word \<Rightarrow> 'm FileDataProvider \<times> 64 word \<times> t_log nested \<times> bool" where
  "fileLogs dp sent = (dp, sent + of_nat (fd_items dp), fd_logs dp, False)"

section \<open>The provider of golden data\<close>

text \<open>
  \<open>gen\<close> is what the generators of golden data return (theories \<open>Golden_Traces\<close> and \<open>Golden_Metrics\<close>),
  \<open>None\<close> for an error. A nil slice is \<open>None\<close>, and a slice that was never filled behaves like an empty one.
\<close>

record 'm goldenDataProvider =
  tracesGenerated :: "t_span nested list option"
  tracesIndex :: nat
  metricsGenerated :: "'m list option"
  metricsIndex :: nat

definition NewGoldenDataProvider :: "'m goldenDataProvider" where
  "NewGoldenDataProvider = \<lparr>tracesGenerated = None, tracesIndex = 0, metricsGenerated = None, metricsIndex = 0\<rparr>"

definition sliced :: "'a list option \<Rightarrow> 'a list" where
  "sliced s = (case s of None \<Rightarrow> [] | Some xs \<Rightarrow> xs)"

definition goldenTraces ::
  "t_span nested list option \<Rightarrow> 'm goldenDataProvider \<Rightarrow> 64 word \<Rightarrow> 'm goldenDataProvider \<times> 64 word \<times> t_span nested \<times> bool" where
  "goldenTraces gen dp sent =
     (let dp = (if tracesGenerated dp = None then dp\<lparr>tracesGenerated := gen\<rparr> else dp);
          tds = sliced (tracesGenerated dp)
      in if length tds \<le> tracesIndex dp then (dp, sent, [], True)
         else (let td = tds ! tracesIndex dp
               in (dp\<lparr>tracesIndex := tracesIndex dp + 1\<rparr>, sent + of_nat (length (items td)), td, False)))"

text \<open>The index is compared by equality and indexes past the end panic.\<close>

definition goldenMetrics ::
  "'m golden_lib \<Rightarrow> 'm list option \<Rightarrow> 'm goldenDataProvider \<Rightarrow> 64 word \<Rightarrow> ('m goldenDataProvider \<times> 64 word \<times> 'm \<times> bool) go" where
  "goldenMetrics G gen dp sent =
     (let dp = (if metricsGenerated dp = None then dp\<lparr>metricsGenerated := gen\<rparr> else dp);
          mds = sliced (metricsGenerated dp)
      in if metricsIndex dp = length mds then ret (dp, sent, ZeroMetrics G, True)
         else if length mds < metricsIndex dp then panic ''index out of range''
         else (let md = mds ! metricsIndex dp
               in ret (dp\<lparr>metricsIndex := metricsIndex dp + 1\<rparr>, sent + of_nat (DataPointCount G md), md, False)))"

end
