(* ===== verification/Test_Load.thy ===== *)
theory Test_Load
  imports Test_Data
begin

text \<open>
  The load generator (testbed/testbed/load_generator.go) and the backend that stands in for the receiving end
  (testbed/testbed/mock_backend.go), wired to each other. A worker of the generator takes a batch from the
  provider and offers it until it is accepted, refused for good, or the time for retries is over; the workers
  interleave freely. The library proves the accounting of items once for every provider and consumer that
  keep their contracts, and interprets it for the providers and consumers of the code.
\<close>

section \<open>Errors of a consumer\<close>

datatype consume_error = Permanent string | Transient string

section \<open>The backend\<close>

record 'm MockBackend =
  isStarted :: bool
  isStopped :: bool
  isRecording :: bool
  ReceivedTraces :: "t_span nested list"
  ReceivedMetrics :: "'m list"
  ReceivedLogs :: "t_log nested list"
  DroppedTraces :: "t_span nested list"
  DroppedMetrics :: "'m list"
  DroppedLogs :: "t_log nested list"
  LogsToRetry :: "t_log nested list"
  numSpansReceived :: "64 word"
  numMetricsReceived :: "64 word"
  numLogRecordsReceived :: "64 word"

definition NewMockBackend :: "'m MockBackend" where
  "NewMockBackend = \<lparr>isStarted = False, isStopped = False, isRecording = False, ReceivedTraces = [],
     ReceivedMetrics = [], ReceivedLogs = [], DroppedTraces = [], DroppedMetrics = [], DroppedLogs = [],
     LogsToRetry = [], numSpansReceived = 0, numMetricsReceived = 0, numLogRecordsReceived = 0\<rparr>"

text \<open>
  \<open>created\<close> and \<open>started\<close> are the errors of creating the log file and of starting the receiver. \<open>Stop\<close> acts
  once; the second component says whether the receiver is stopped by this call.
\<close>

definition startBackend :: "string option \<Rightarrow> string option \<Rightarrow> 'm MockBackend \<Rightarrow> 'm MockBackend \<times> string option" where
  "startBackend created started mb =
     (case created of Some err \<Rightarrow> (mb, Some err)
      | None \<Rightarrow> (case started of Some err \<Rightarrow> (mb, Some err)
               | None \<Rightarrow> (mb\<lparr>isStarted := True\<rparr>, None)))"

definition stopBackend :: "'m MockBackend \<Rightarrow> 'm MockBackend \<times> bool" where
  "stopBackend mb =
     (if isStopped mb then (mb, False)
      else if \<not> isStarted mb then (mb\<lparr>isStopped := True\<rparr>, False)
      else (mb\<lparr>isStopped := True\<rparr>, True))"

definition EnableRecording :: "'m MockBackend \<Rightarrow> 'm MockBackend" where
  "EnableRecording mb = mb\<lparr>isRecording := True\<rparr>"

definition DataItemsReceived :: "'m MockBackend \<Rightarrow> 64 word" where
  "DataItemsReceived mb = numSpansReceived mb + numMetricsReceived mb + numLogRecordsReceived mb"

definition ClearReceivedItems :: "'m MockBackend \<Rightarrow> 'm MockBackend" where
  "ClearReceivedItems mb = mb\<lparr>ReceivedTraces := [], ReceivedMetrics := [], ReceivedLogs := []\<rparr>"

definition ConsumeTrace :: "t_span nested \<Rightarrow> 'm MockBackend \<Rightarrow> 'm MockBackend" where
  "ConsumeTrace td mb = (if isRecording mb then mb\<lparr>ReceivedTraces := ReceivedTraces mb @ [td]\<rparr> else mb)"

definition ConsumeMetric :: "'m \<Rightarrow> 'm MockBackend \<Rightarrow> 'm MockBackend" where
  "ConsumeMetric md mb = (if isRecording mb then mb\<lparr>ReceivedMetrics := ReceivedMetrics mb @ [md]\<rparr> else mb)"

definition ConsumeLog :: "t_log nested \<Rightarrow> 'm MockBackend \<Rightarrow> 'm MockBackend" where
  "ConsumeLog ld mb = (if isRecording mb then mb\<lparr>ReceivedLogs := ReceivedLogs mb @ [ld]\<rparr> else mb)"

definition is_permanent :: "consume_error \<Rightarrow> bool" where
  "is_permanent err = (case err of Permanent _ \<Rightarrow> True | Transient _ \<Rightarrow> False)"

text \<open>
  The consumers. \<open>decision\<close> is the answer of the decision function to this call. The loop of the trace consumer
  over the spans reads two attributes and drops them.
\<close>

definition traceConsumer :: "consume_error option \<Rightarrow> t_span nested \<Rightarrow> 'm MockBackend \<Rightarrow> 'm MockBackend \<times> consume_error option" where
  "traceConsumer decision td mb =
     (case decision of
        Some err \<Rightarrow> (if is_permanent err \<and> isRecording mb then mb\<lparr>DroppedTraces := DroppedTraces mb @ [td]\<rparr> else mb, Some err)
      | None \<Rightarrow> (let mb = ConsumeTrace td mb
                in (mb\<lparr>numSpansReceived := numSpansReceived mb + of_nat (length (items td))\<rparr>, None)))"

definition metricConsumer ::
  "('m \<Rightarrow> nat) \<Rightarrow> consume_error option \<Rightarrow> 'm \<Rightarrow> 'm MockBackend \<Rightarrow> 'm MockBackend \<times> consume_error option" where
  "metricConsumer points decision md mb =
     (case decision of
        Some err \<Rightarrow> (if is_permanent err \<and> isRecording mb then mb\<lparr>DroppedMetrics := DroppedMetrics mb @ [md]\<rparr> else mb, Some err)
      | None \<Rightarrow> (let mb = mb\<lparr>numMetricsReceived := numMetricsReceived mb + of_nat (points md)\<rparr>
                in (ConsumeMetric md mb, None)))"

definition logConsumer :: "consume_error option \<Rightarrow> t_log nested \<Rightarrow> 'm MockBackend \<Rightarrow> 'm MockBackend \<times> consume_error option" where
  "logConsumer decision ld mb =
     (case decision of
        Some err \<Rightarrow>
          (if isRecording mb
           then (if is_permanent err then mb\<lparr>DroppedLogs := DroppedLogs mb @ [ld]\<rparr>
                 else mb\<lparr>LogsToRetry := LogsToRetry mb @ [ld]\<rparr>)
           else mb, Some err)
      | None \<Rightarrow> (let mb = mb\<lparr>numLogRecordsReceived := numLogRecordsReceived mb + of_nat (length (items ld))\<rparr>
                in (ConsumeLog ld mb, None)))"

text \<open>Decision functions over a random number, and over the next value of a channel.\<close>

definition RandomNonPermanentError :: "rat \<Rightarrow> consume_error option" where
  "RandomNonPermanentError r = (if r < 1 / 2 then Some (Transient ''non permanent error'') else None)"

definition GenerateNonPernamentErrorUntil :: "bool \<Rightarrow> consume_error option" where
  "GenerateNonPernamentErrorUntil received = (if received then Some (Transient ''non permanent error'') else None)"

definition RandomPermanentError :: "rat \<Rightarrow> consume_error option" where
  "RandomPermanentError r = (if r < 1 / 2 then Some (Permanent ''permanent error'') else None)"

section \<open>The load generator\<close>

datatype sender_kind = TraceDataSender | MetricDataSender | LogDataSender | OtherSender string

record 'p ProviderSender =
  Provider :: 'p
  dataItemsSent :: "64 word"
  permanentErrors :: "64 word"
  nonPermanentErrors :: "64 word"
  ps_options :: LoadOptions
  sendType :: string

definition NewLoadGenerator :: "'p \<Rightarrow> sender_kind option \<Rightarrow> string + 'p ProviderSender" where
  "NewLoadGenerator dataProvider sender =
     (let ps = (\<lambda>t. Inr \<lparr>Provider = dataProvider, dataItemsSent = 0, permanentErrors = 0, nonPermanentErrors = 0,
          ps_options = \<lparr>DataItemsPerSecond = 0, ItemsPerBatch = 0, Attributes = [], Parallel = 0, MaxDelay = 0\<rparr>,
          sendType = t\<rparr>)
      in case sender of
           None \<Rightarrow> Inl ''cannot create load generator without DataSender''
         | Some TraceDataSender \<Rightarrow> ps ''traces''
         | Some MetricDataSender \<Rightarrow> ps ''metrics''
         | Some LogDataSender \<Rightarrow> ps ''logs''
         | Some (OtherSender t) \<Rightarrow> Inl (''failed creating load generator, unhandled data type '' @ t))"

definition startOptions :: "LoadOptions \<Rightarrow> LoadOptions" where
  "startOptions opts =
     (let opts = (if ItemsPerBatch opts = 0 then opts\<lparr>ItemsPerBatch := 10\<rparr> else opts)
      in if MaxDelay opts = 0 then opts\<lparr>MaxDelay := second * 10\<rparr> else opts)"

definition startLoad :: "LoadOptions \<Rightarrow> 'p ProviderSender \<Rightarrow> 'p ProviderSender" where
  "startLoad opts ps = ps\<lparr>ps_options := startOptions opts\<rparr>"

definition IncDataItemsSent :: "'p ProviderSender \<Rightarrow> 'p ProviderSender" where
  "IncDataItemsSent ps = ps\<lparr>dataItemsSent := dataItemsSent ps + 1\<rparr>"

text \<open>\<open>other_int\<close>: the conversion to \<open>int64\<close> of a number that does not fit, which Go leaves to the implementation.\<close>

definition perWorkerTickDuration :: "(f64 \<Rightarrow> int) \<Rightarrow> LoadOptions \<Rightarrow> int \<Rightarrow> duration" where
  "perWorkerTickDuration other_int opts numWorkers =
     (let batchesPerSecond = fdiv (f64_of_int (DataItemsPerSecond opts)) (f64_of_int (ItemsPerBatch opts));
          batchesPerSecondPerWorker = fdiv batchesPerSecond (f64_of_int numWorkers);
          d = fdiv (f64_of_int second) batchesPerSecondPerWorker
      in if is_fin d \<and> is_int64 (trunc_rat (fval d)) then trunc_rat (fval d) else other_int d)"

text \<open>What \<open>generate\<close> starts: nothing, or workers with a ticker each, which panics for an interval that is not positive.\<close>

definition generateWorkers :: "(f64 \<Rightarrow> int) \<Rightarrow> string option \<Rightarrow> LoadOptions \<Rightarrow> (int \<times> duration) option go" where
  "generateWorkers other_int senderStart opts =
     (if DataItemsPerSecond opts = 0 then ret None
      else case senderStart of
             Some err \<Rightarrow> ret None
           | None \<Rightarrow> (let numWorkers = (if 0 < Parallel opts then Parallel opts else 1);
                          tickDuration = perWorkerTickDuration other_int opts numWorkers
                      in if tickDuration \<le> 0 then panic ''non-positive interval for NewTicker''
                         else ret (Some (numWorkers, tickDuration))))"

text \<open>
  \<open>generateTrace\<close>, \<open>generateMetrics\<close> and \<open>generateLog\<close> are the same code for three kinds of data. First the
  provider makes a batch, with what the call reads from its environment \<open>e\<close>; then rounds follow, each with
  the answer of the consumer and the timer as it is found. A round returns (\<open>Some\<close>) or is followed by another.
\<close>

definition generateBatch ::
  "('e \<Rightarrow> 'p \<Rightarrow> 64 word \<Rightarrow> ('p \<times> 64 word \<times> 'd \<times> bool) go) \<Rightarrow> 'e \<Rightarrow> 'p ProviderSender \<Rightarrow> ('p ProviderSender \<times> 'd option) go" where
  "generateBatch gen e ps =
     andThen (gen e (Provider ps) (dataItemsSent ps))
       (\<lambda>(p, sent, d, done). ret (ps\<lparr>Provider := p, dataItemsSent := sent\<rparr>, if done then None else Some d))"

definition sendRound ::
  "('d \<Rightarrow> nat) \<Rightarrow> consume_error option \<Rightarrow> bool \<Rightarrow> 'd \<Rightarrow> 'p ProviderSender \<Rightarrow> 'p ProviderSender \<times> string option option" where
  "sendRound size_of err expired d ps =
     (case err of
        None \<Rightarrow> (ps, Some None)
      | Some (Permanent msg) \<Rightarrow>
          (ps\<lparr>permanentErrors := permanentErrors ps + of_nat (size_of d)\<rparr>,
           Some (Some (''cannot send '' @ sendType ps @ '': '' @ msg)))
      | Some (Transient msg) \<Rightarrow>
          (ps\<lparr>nonPermanentErrors := nonPermanentErrors ps + of_nat (size_of d)\<rparr>,
           if expired then Some None else None))"

partial_function (option) sendLoop ::
  "('d \<Rightarrow> nat) \<Rightarrow> (nat \<Rightarrow> 'd \<Rightarrow> 'b \<Rightarrow> 'b \<times> consume_error option) \<Rightarrow> (nat \<Rightarrow> bool) \<Rightarrow> 'd \<Rightarrow> nat \<Rightarrow> 'p ProviderSender \<Rightarrow> 'b \<Rightarrow>
     ('p ProviderSender \<times> 'b \<times> string option) option" where
  "sendLoop size_of consume expired d k ps b =
     (let r = consume k d b; s = sendRound size_of (snd r) (expired k) d ps
      in case snd s of
           Some res \<Rightarrow> Some (fst s, fst r, res)
         | None \<Rightarrow> sendLoop size_of consume expired d (Suc k) (fst s) (fst r))"

text \<open>
  One call of the three functions, which differ in how items are counted: the result is \<open>None\<close> if the call does not
  return, and otherwise a panic of the provider or the new states and the returned error.
\<close>

definition generateData ::
  "('d \<Rightarrow> nat) \<Rightarrow> ('e \<Rightarrow> 'p \<Rightarrow> 64 word \<Rightarrow> ('p \<times> 64 word \<times> 'd \<times> bool) go) \<Rightarrow> (nat \<Rightarrow> 'd \<Rightarrow> 'b \<Rightarrow> 'b \<times> consume_error option) \<Rightarrow>
     (nat \<Rightarrow> bool) \<Rightarrow> 'e \<Rightarrow> 'p ProviderSender \<Rightarrow> 'b \<Rightarrow> ('p ProviderSender \<times> 'b \<times> string option) go option" where
  "generateData size_of gen consume expired e ps b =
     (case generateBatch gen e ps of
        Inl err \<Rightarrow> Some (panic err)
      | Inr (ps, None) \<Rightarrow> Some (ret (ps, b, None))
      | Inr (ps, Some d) \<Rightarrow> map_option Inr (sendLoop size_of consume expired d 0 ps b))"

definition generateTrace ::
  "('e \<Rightarrow> 'p \<Rightarrow> 64 word \<Rightarrow> ('p \<times> 64 word \<times> t_span nested \<times> bool) go) \<Rightarrow> (nat \<Rightarrow> t_span nested \<Rightarrow> 'b \<Rightarrow> 'b \<times> consume_error option) \<Rightarrow>
     (nat \<Rightarrow> bool) \<Rightarrow> 'e \<Rightarrow> 'p ProviderSender \<Rightarrow> 'b \<Rightarrow> ('p ProviderSender \<times> 'b \<times> string option) go option" where
  "generateTrace = generateData (\<lambda>td. length (items td))"

definition generateMetrics ::
  "('e \<Rightarrow> 'p \<Rightarrow> 64 word \<Rightarrow> ('p \<times> 64 word \<times> t_gauge nested \<times> bool) go) \<Rightarrow> (nat \<Rightarrow> t_gauge nested \<Rightarrow> 'b \<Rightarrow> 'b \<times> consume_error option) \<Rightarrow>
     (nat \<Rightarrow> bool) \<Rightarrow> 'e \<Rightarrow> 'p ProviderSender \<Rightarrow> 'b \<Rightarrow> ('p ProviderSender \<times> 'b \<times> string option) go option" where
  "generateMetrics = generateData point_count"

definition generateLog ::
  "('e \<Rightarrow> 'p \<Rightarrow> 64 word \<Rightarrow> ('p \<times> 64 word \<times> t_log nested \<times> bool) go) \<Rightarrow> (nat \<Rightarrow> t_log nested \<Rightarrow> 'b \<Rightarrow> 'b \<times> consume_error option) \<Rightarrow>
     (nat \<Rightarrow> bool) \<Rightarrow> 'e \<Rightarrow> 'p ProviderSender \<Rightarrow> 'b \<Rightarrow> ('p ProviderSender \<times> 'b \<times> string option) go option" where
  "generateLog = generateData (\<lambda>ld. length (items ld))"

section \<open>Workers\<close>

text \<open>
  The state of a load test: the generator, the backend, the batch each busy worker is sending, and the batches
  given up when the time for retries was over, which the code does not count.
\<close>

record ('p, 'b, 'd) load_state =
  generator :: "'p ProviderSender"
  backend :: 'b
  flight :: "(nat \<times> 'd) list"
  given_up :: "'d list"

definition load_start :: "'p ProviderSender \<Rightarrow> 'b \<Rightarrow> ('p, 'b, 'd) load_state" where
  "load_start ps b = \<lparr>generator = ps, backend = b, flight = [], given_up = []\<rparr>"

text \<open>
  A worker that is free takes a batch or finds that there are no more; a worker with a batch plays one round. The
  provider and the consumer keep their counters atomically, so that these are the steps of the interleaving.
\<close>

inductive load_step ::
  "('e \<Rightarrow> 'p \<Rightarrow> 64 word \<Rightarrow> ('p \<times> 64 word \<times> 'd \<times> bool) go) \<Rightarrow> ('d \<Rightarrow> nat) \<Rightarrow>
     (consume_error option \<Rightarrow> 'd \<Rightarrow> 'b \<Rightarrow> 'b \<times> consume_error option) \<Rightarrow>
     ('p, 'b, 'd) load_state \<Rightarrow> ('p, 'b, 'd) load_state \<Rightarrow> bool"
  for gen size_of consume where
  takes: "w \<notin> fst ` set (flight s) \<Longrightarrow> generateBatch gen e (generator s) = ret (ps, Some d) \<Longrightarrow>
     load_step gen size_of consume s (s\<lparr>generator := ps, flight := (w, d) # flight s\<rparr>)"
| exhausted: "w \<notin> fst ` set (flight s) \<Longrightarrow> generateBatch gen e (generator s) = ret (ps, None) \<Longrightarrow>
     load_step gen size_of consume s (s\<lparr>generator := ps\<rparr>)"
| round: "(w, d) \<in> set (flight s) \<Longrightarrow> consume decision d (backend s) = (b, err) \<Longrightarrow>
     sendRound size_of err expired d (generator s) = (ps, res) \<Longrightarrow>
     load_step gen size_of consume s
       (s\<lparr>generator := ps, backend := b,
          flight := (if res = None then flight s else remove1 (w, d) (flight s)),
          given_up := (if res = Some None \<and> err \<noteq> None then d # given_up s else given_up s)\<rparr>)"

inductive load_run ::
  "('e \<Rightarrow> 'p \<Rightarrow> 64 word \<Rightarrow> ('p \<times> 64 word \<times> 'd \<times> bool) go) \<Rightarrow> ('d \<Rightarrow> nat) \<Rightarrow>
     (consume_error option \<Rightarrow> 'd \<Rightarrow> 'b \<Rightarrow> 'b \<times> consume_error option) \<Rightarrow>
     ('p, 'b, 'd) load_state \<Rightarrow> ('p, 'b, 'd) load_state \<Rightarrow> bool"
  for gen size_of consume where
  run_start: "load_run gen size_of consume s s"
| run_step: "load_run gen size_of consume s t \<Longrightarrow> load_step gen size_of consume t u \<Longrightarrow> load_run gen size_of consume s u"

definition total :: "('d \<Rightarrow> nat) \<Rightarrow> 'd list \<Rightarrow> 64 word" where
  "total size_of ds = sum_list (map (\<lambda>d. of_nat (size_of d)) ds)"

text \<open>Every item that was generated was received, refused for good, is being sent, or was given up.\<close>

definition accounted :: "('d \<Rightarrow> nat) \<Rightarrow> ('b \<Rightarrow> 64 word) \<Rightarrow> ('p, 'b, 'd) load_state \<Rightarrow> bool" where
  "accounted size_of received s =
     (dataItemsSent (generator s) = received (backend s) + permanentErrors (generator s)
        + total size_of (map snd (flight s)) + total size_of (given_up s))"

lemma total_simps [simp]:
  "total size_of [] = 0"
  "total size_of (d # ds) = of_nat (size_of d) + total size_of ds"
  by (simp_all add: total_def)

lemma total_remove1: "x \<in> set xs \<Longrightarrow>
    total size_of (map snd xs) = of_nat (size_of (snd x)) + total size_of (map snd (remove1 x xs))"
  by (induction xs) (auto simp: add_ac)

text \<open>Round \<open>k\<close> of sending a batch is the last one.\<close>

definition ends :: "(nat \<Rightarrow> consume_error option) \<Rightarrow> (nat \<Rightarrow> bool) \<Rightarrow> nat \<Rightarrow> bool" where
  "ends dec expired k = (case dec k of Some (Transient _) \<Rightarrow> expired k | _ \<Rightarrow> True)"

section \<open>The contracts\<close>

text \<open>
  A provider counts what it generates: it adds the size of the batch to the counter it is given, and nothing when
  it has no more data.
\<close>

locale data_provider =
  fixes gen :: "'e \<Rightarrow> 'p \<Rightarrow> 64 word \<Rightarrow> ('p \<times> 64 word \<times> 'd \<times> bool) go"
    and size_of :: "'d \<Rightarrow> nat"
    and valid :: "'p \<Rightarrow> bool"
  assumes gen_valid: "valid p \<Longrightarrow> gen e p n = Inr (p', n', d, done) \<Longrightarrow> valid p'"
    and gen_counts: "valid p \<Longrightarrow> gen e p n = Inr (p', n', d, done) \<Longrightarrow>
      n' = (if done then n else n + of_nat (size_of d))"
begin

lemma batch_some:
  assumes "valid (Provider ps)" "generateBatch gen e ps = Inr (ps', Some d)"
  shows "valid (Provider ps')" "dataItemsSent ps' = dataItemsSent ps + of_nat (size_of d)"
    "permanentErrors ps' = permanentErrors ps"
  using assms
  by (auto simp: generateBatch_def andThen_Inr_iff split: if_splits dest: gen_valid gen_counts)

lemma batch_none:
  assumes "valid (Provider ps)" "generateBatch gen e ps = Inr (ps', None)"
  shows "valid (Provider ps')" "dataItemsSent ps' = dataItemsSent ps" "permanentErrors ps' = permanentErrors ps"
  using assms
  by (auto simp: generateBatch_def andThen_Inr_iff split: if_splits dest: gen_valid gen_counts)

end

text \<open>A consumer follows the decision and counts what it accepts.\<close>

locale data_consumer =
  fixes consume :: "consume_error option \<Rightarrow> 'd \<Rightarrow> 'b \<Rightarrow> 'b \<times> consume_error option"
    and size_of :: "'d \<Rightarrow> nat"
    and received :: "'b \<Rightarrow> 64 word"
  assumes answers: "snd (consume decision d b) = decision"
    and counts: "received (fst (consume decision d b)) =
      received b + (if decision = None then of_nat (size_of d) else 0)"

begin

lemma round_result: "snd (sendRound size_of (snd (consume (dec k) d b)) (expired k) d ps) \<noteq> None \<longleftrightarrow> ends dec expired k"
  by (auto simp: sendRound_def ends_def answers split: option.splits consume_error.splits)

lemma loop_returns:
  fixes ps :: "'x ProviderSender"
  shows "ends dec expired (k + j) \<Longrightarrow> sendLoop size_of (\<lambda>k. consume (dec k)) expired d k ps b \<noteq> None"
proof (induction j arbitrary: k ps b)
  case 0
  then show ?case using round_result [of dec k d b expired ps]
    by (subst sendLoop.simps) (auto simp: Let_def)
next
  case (Suc j)
  have "sendLoop size_of (\<lambda>k. consume (dec k)) expired d (Suc k) ps' b' \<noteq> None" for ps' :: "'x ProviderSender" and b'
    using Suc.IH [of "Suc k" ps' b'] Suc.prems by simp
  then show ?case by (subst sendLoop.simps) (auto simp: Let_def split: option.splits)
qed

lemma loop_ends:
  assumes "sendLoop size_of (\<lambda>k. consume (dec k)) expired d k ps b = Some y"
  shows "\<exists>j\<ge>k. ends dec expired j"
proof -
  have "con = (\<lambda>k. consume (dec k)) \<longrightarrow> sz = size_of \<longrightarrow> (\<exists>j\<ge>k. ends dec ex j)"
    if "sendLoop sz con ex d k ps b = Some y" for sz con ex d k ps b y
  proof (rule sendLoop.raw_induct [where P = "\<lambda>sz con ex d k ps b y.
      con = (\<lambda>k. consume (dec k)) \<longrightarrow> sz = size_of \<longrightarrow> (\<exists>j\<ge>k. ends dec ex j)", OF _ that], intro impI)
    fix loop sz con ex d k ps b y
    assume IH: "\<And>sz con ex d k ps b y. loop sz con ex d k ps b = Some y \<Longrightarrow>
        con = (\<lambda>k. consume (dec k)) \<longrightarrow> sz = size_of \<longrightarrow> (\<exists>j\<ge>k. ends dec ex j)"
      and body: "(let r = con k d b; s = sendRound sz (snd r) (ex k) d ps
        in case snd s of Some res \<Rightarrow> Some (fst s, fst r, res) | None \<Rightarrow> loop sz con ex d (Suc k) (fst s) (fst r)) = Some y"
      and eq: "con = (\<lambda>k. consume (dec k))" "sz = size_of"
    show "\<exists>j\<ge>k. ends dec ex j"
    proof (cases "ends dec ex k")
      case False
      then have "snd (sendRound sz (snd (con k d b)) (ex k) d ps) = None"
        using round_result [of dec k d b ex ps] eq by simp
      then have "loop sz con ex d (Suc k) (fst (sendRound sz (snd (con k d b)) (ex k) d ps)) (fst (con k d b)) = Some y"
        using body by (simp add: Let_def)
      from IH [OF this] eq show ?thesis by (meson Suc_leD)
    qed blast
  qed
  with assms show ?thesis by blast
qed

lemma loop_returns_iff:
  "sendLoop size_of (\<lambda>k. consume (dec k)) expired d 0 ps b \<noteq> None \<longleftrightarrow> (\<exists>k. ends dec expired k)"
proof
  assume "sendLoop size_of (\<lambda>k. consume (dec k)) expired d 0 ps b \<noteq> None"
  then obtain y where "sendLoop size_of (\<lambda>k. consume (dec k)) expired d 0 ps b = Some y" by blast
  from loop_ends [OF this] show "\<exists>k. ends dec expired k" by blast
next
  assume "\<exists>k. ends dec expired k"
  then obtain k where "ends dec expired k" ..
  then show "sendLoop size_of (\<lambda>k. consume (dec k)) expired d 0 ps b \<noteq> None"
    using loop_returns [of dec expired 0 k d ps b] by simp
qed

end

locale load_test = data_provider gen size_of valid + data_consumer consume size_of received
  for gen :: "'e \<Rightarrow> 'p \<Rightarrow> 64 word \<Rightarrow> ('p \<times> 64 word \<times> 'd \<times> bool) go" and size_of valid
    and consume :: "consume_error option \<Rightarrow> 'd \<Rightarrow> 'b \<Rightarrow> 'b \<times> consume_error option" and received
begin

lemma step_accounted:
  assumes "load_step gen size_of consume s t" "valid (Provider (generator s))" "accounted size_of received s"
  shows "valid (Provider (generator t)) \<and> accounted size_of received t"
  using assms
proof cases
  case (takes w e ps d)
  with assms(2,3) batch_some [OF assms(2) takes(3)] show ?thesis by (simp add: accounted_def)
next
  case (exhausted w e ps)
  with assms(2,3) batch_none [OF assms(2) exhausted(3)] show ?thesis by (simp add: accounted_def)
next
  case (round w d decision b err expired ps res)
  have err: "err = decision" using answers [of decision d "backend s"] round(3) by simp
  have b: "received b = received (backend s) + (if err = None then of_nat (size_of d) else 0)"
    using counts [of decision d "backend s"] round(3) err by simp
  note fl = total_remove1 [OF round(2), of size_of, simplified]
  show ?thesis
    using assms(2,3) round(1,4) fl
    by (auto simp: accounted_def sendRound_def b split: option.splits consume_error.splits if_splits)
qed

lemma run_accounted:
  assumes "load_run gen size_of consume s t" "valid (Provider (generator s))" "accounted size_of received s"
  shows "valid (Provider (generator t)) \<and> accounted size_of received t"
  using assms by (induction rule: load_run.induct) (auto dest: step_accounted)

lemma start_accounted:
  "dataItemsSent ps = 0 \<Longrightarrow> permanentErrors ps = 0 \<Longrightarrow> received b = 0 \<Longrightarrow> accounted size_of received (load_start ps b)"
  by (simp add: accounted_def load_start_def)

lemma new_accounted:
  assumes "NewLoadGenerator p sender = Inr ps" "valid p" "received b = 0"
    "load_run gen size_of consume (load_start (startLoad opts ps) b) t"
  shows "accounted size_of received t"
proof -
  have "Provider ps = p" "dataItemsSent ps = 0" "permanentErrors ps = 0"
    using assms(1) by (auto simp: NewLoadGenerator_def Let_def split: option.splits sender_kind.splits)
  then show ?thesis
    using run_accounted [OF assms(4)] start_accounted [of "startLoad opts ps" b] assms(2,3)
    by (simp add: startLoad_def load_start_def)
qed

end

section \<open>The providers and consumers of the code\<close>

lemma counted_counts: "snd (counted item i n sent) = sent + of_nat n"
  by (induction item i n sent rule: counted.induct) (auto simp: Let_def split: prod.splits)

lemma counted_length [simp]: "length (fst (counted item i n sent)) = n"
  by (induction item i n sent rule: counted.induct) (auto simp: Let_def split: prod.splits)

lemma counted_eq: "counted item i n sent = (xs, sent') \<Longrightarrow> length xs = n \<and> sent' = sent + of_nat n"
  by (metis counted_counts counted_length fst_conv snd_conv)

lemma gauges_eq: "perfGauges now i n seq sent = (gs, seq', sent') \<Longrightarrow>
    length gs = n \<and> sent' = sent + of_nat (sum_list (map (\<lambda>g. length (g_points g)) gs))"
  by (induction now i n seq sent arbitrary: gs seq' sent' rule: perfGauges.induct)
    (auto simp: Let_def split: prod.splits dest!: counted_eq)

interpretation perf_traces: load_test
  "\<lambda>(I, c, now) p n. ret (perfTraces I c now p n)" "\<lambda>td. length (items td)" "\<lambda>_. True" traceConsumer DataItemsReceived
  by unfold_locales
    (auto simp: perfTraces_def traceConsumer_def ConsumeTrace_def DataItemsReceived_def Let_def
      split: prod.splits option.splits dest!: counted_eq)

interpretation perf_metrics: load_test
  "\<lambda>(ns, now) p n. ret (perfMetrics ns now p n)" point_count "\<lambda>_. True" "metricConsumer point_count" DataItemsReceived
  by unfold_locales
    (auto simp: perfMetrics_def metricConsumer_def ConsumeMetric_def DataItemsReceived_def point_count_def Let_def
      split: prod.splits option.splits dest!: gauges_eq)

interpretation perf_logs: load_test
  "\<lambda>(ns, now) p n. ret (perfLogs ns now p n)" "\<lambda>ld. length (items ld)" "\<lambda>_. True" logConsumer DataItemsReceived
  by unfold_locales
    (auto simp: perfLogs_def logConsumer_def ConsumeLog_def DataItemsReceived_def Let_def
      split: prod.splits option.splits dest!: counted_eq)

interpretation golden_traces: load_test
  "\<lambda>gs p n. ret (goldenTraces gs p n)" "\<lambda>td. length (items td)" "\<lambda>_. True" traceConsumer DataItemsReceived
  by unfold_locales (auto simp: goldenTraces_def Let_def split: if_splits)

interpretation golden_metrics: load_test
  "\<lambda>gs p n. goldenMetrics G gs p n" "DataPointCount G" "\<lambda>_. True" "metricConsumer (DataPointCount G)" DataItemsReceived
  for G :: "'m golden_lib"
  by unfold_locales
    (auto simp: goldenMetrics_def metricConsumer_def ConsumeMetric_def DataItemsReceived_def Let_def
      split: if_splits option.splits)

interpretation file_traces: load_test
  "\<lambda>_ p n. ret (fileTraces p n)" "\<lambda>td. length (items td)" "\<lambda>p. fd_items p = length (items (fd_traces p))"
  traceConsumer DataItemsReceived
  by unfold_locales (auto simp: fileTraces_def)

interpretation file_metrics: load_test
  "\<lambda>_ p n. ret (fileMetrics p n)" "DataPointCount G" "\<lambda>p. fd_items p = DataPointCount G (fd_metrics p)"
  "metricConsumer (DataPointCount G)" DataItemsReceived
  for G :: "'m golden_lib"
  by unfold_locales (auto simp: fileMetrics_def)

interpretation file_logs: load_test
  "\<lambda>_ p n. ret (fileLogs p n)" "\<lambda>ld. length (items ld)" "\<lambda>p. fd_items p = length (items (fd_logs p))"
  logConsumer DataItemsReceived
  by unfold_locales (auto simp: fileLogs_def)

section \<open>The accounting of a load test\<close>

text \<open>
  The states of a load test with a fresh generator over the given provider, made with \<open>options\<close> \<open>opts\<close> and
  started with \<open>opts'\<close>, and a fresh backend, wired to each other.
\<close>

definition trace_test ::
  "LoadOptions \<Rightarrow> LoadOptions \<Rightarrow> (perfTestDataProvider, t_gauge nested MockBackend, t_span nested) load_state \<Rightarrow> bool" where
  "trace_test opts opts' s \<longleftrightarrow> (\<exists>ps. NewLoadGenerator (NewPerfTestDataProvider opts) (Some TraceDataSender) = Inr ps \<and>
     load_run (\<lambda>(I, c, now) p n. ret (perfTraces I c now p n)) (\<lambda>td. length (items td)) traceConsumer
       (load_start (startLoad opts' ps) NewMockBackend) s)"

definition metric_test ::
  "LoadOptions \<Rightarrow> LoadOptions \<Rightarrow> (perfTestDataProvider, t_gauge nested MockBackend, t_gauge nested) load_state \<Rightarrow> bool" where
  "metric_test opts opts' s \<longleftrightarrow> (\<exists>ps. NewLoadGenerator (NewPerfTestDataProvider opts) (Some MetricDataSender) = Inr ps \<and>
     load_run (\<lambda>(ns, now) p n. ret (perfMetrics ns now p n)) point_count (metricConsumer point_count)
       (load_start (startLoad opts' ps) NewMockBackend) s)"

definition log_test ::
  "LoadOptions \<Rightarrow> LoadOptions \<Rightarrow> (perfTestDataProvider, t_gauge nested MockBackend, t_log nested) load_state \<Rightarrow> bool" where
  "log_test opts opts' s \<longleftrightarrow> (\<exists>ps. NewLoadGenerator (NewPerfTestDataProvider opts) (Some LogDataSender) = Inr ps \<and>
     load_run (\<lambda>(ns, now) p n. ret (perfLogs ns now p n)) (\<lambda>ld. length (items ld)) logConsumer
       (load_start (startLoad opts' ps) NewMockBackend) s)"

definition golden_test ::
  "LoadOptions \<Rightarrow> (t_gauge nested goldenDataProvider, t_gauge nested MockBackend, t_span nested) load_state \<Rightarrow> bool" where
  "golden_test opts' s \<longleftrightarrow> (\<exists>ps. NewLoadGenerator NewGoldenDataProvider (Some TraceDataSender) = Inr ps \<and>
     load_run (\<lambda>gs p n. ret (goldenTraces gs p n)) (\<lambda>td. length (items td)) traceConsumer
       (load_start (startLoad opts' ps) NewMockBackend) s)"

lemma new_backend_received [simp]: "DataItemsReceived NewMockBackend = 0"
  by (simp add: DataItemsReceived_def NewMockBackend_def)

lemma new_generator: "NewLoadGenerator p (Some TraceDataSender) = Inr ps \<Longrightarrow> Provider ps = p"
  by (auto simp: NewLoadGenerator_def Let_def)


text \<open>A batch that is taken and accepted at once.\<close>

lemma one_batch:
  assumes "generateBatch gen e ps = Inr (ps', Some d)" "consume None d b = (b', None)"
  shows "load_run gen size_of consume (load_start ps b) (load_start ps' b')"
proof -
  let ?s = "(load_start ps b)\<lparr>generator := ps', flight := (0, d) # flight (load_start ps b)\<rparr>"
  have 1: "load_step gen size_of consume (load_start ps b) ?s"
    using assms(1) by (intro takes) (auto simp: load_start_def)
  have "load_step gen size_of consume ?s
      (?s\<lparr>generator := ps', backend := b',
          flight := (if Some None = (None :: string option option) then flight ?s else remove1 (0, d) (flight ?s)),
          given_up := (if Some None = (Some None :: string option option) \<and> None \<noteq> (None :: consume_error option)
             then d # given_up ?s else given_up ?s)\<rparr>)"
    by (rule round [where decision = None and err = None and expired = False])
      (simp_all add: load_start_def assms(2) sendRound_def)
  then have 2: "load_step gen size_of consume ?s (load_start ps' b')" by (simp add: load_start_def)
  show ?thesis by (rule run_step [OF run_step [OF run_start 1] 2])
qed

definition sample_options :: LoadOptions where
  "sample_options = \<lparr>DataItemsPerSecond = 10, ItemsPerBatch = 1, Attributes = [], Parallel = 1, MaxDelay = 0\<rparr>"

definition sample_ids :: id_lib where
  "sample_ids = \<lparr>trace_id_of = (\<lambda>n. nat_str (unat n)), span_id_of = (\<lambda>n. nat_str (unat n))\<rparr>"


text \<open>A call of \<open>generateTrace\<close> with the traces provider and the backend returns exactly when some round is accepted, refused
  for good, or finds the timer expired.\<close>

lemma send_returns:
  "generateTrace (\<lambda>(I, c, now) p n. ret (perfTraces I c now p n)) (\<lambda>k. traceConsumer (dec k)) expired e ps mb \<noteq> None \<longleftrightarrow>
     (\<exists>k. ends dec expired k)"
proof -
  obtain I c now where e: "e = (I, c, now)" by (cases e)
  obtain ps' td where b: "generateBatch (\<lambda>(I, c, now) p n. ret (perfTraces I c now p n)) e ps = Inr (ps', Some td)"
    by (simp add: e generateBatch_def perfTraces_def Let_def case_prod_beta)
  show ?thesis
    using perf_traces.loop_returns_iff [of dec expired td ps' mb] by (simp add: generateTrace_def generateData_def b)
qed

text \<open>A backend that is stopped before it is started is never stopped afterwards, because \<open>Stop\<close> acts once.\<close>

lemma stopped_before_start:
  "snd (stopBackend (fst (startBackend None None (fst (stopBackend NewMockBackend))))) = False"
  by (simp add: stopBackend_def startBackend_def NewMockBackend_def)

text \<open>The default of ten items per batch reaches the generator's own options only: the provider makes empty batches.\<close>

lemma empty_batches:
  "ItemsPerBatch opts = 0 \<Longrightarrow> ItemsPerBatch (startOptions opts) = 10 \<and>
     perfTraces I c now (NewPerfTestDataProvider opts) sent =
       (\<lparr>options = opts, traceIDSequence = 1\<rparr>, sent, [([], [[]])], False)"
  by (simp add: startOptions_def perfTraces_def NewPerfTestDataProvider_def Let_def)

end
