(* ===== verification/Test_Results.thy ===== *)
theory Test_Results
  imports Test_Data
begin

text \<open>
  The results of tests and their summaries (testbed/testbed/results.go), without the texts written to the result
  files.
\<close>

section \<open>Failed comparisons of spans\<close>

text \<open>
  A value of type \<open>any\<close> in a failure: nil, a text, a number, or a Go object. \<open>AfMethod\<close> is a method that is
  stored without being called.
\<close>

datatype af_value = AfNil | AfText string | AfNat nat | AfTime "64 word" | AfCount "32 word" | AfVal val
  | AfLink t_link | AfMethod string

record TraceAssertionFailure =
  typeName :: string
  dataComboName :: string
  fieldPath :: string
  expectedValue :: af_value
  actualValue :: af_value
  sumCount :: nat

text \<open>The failures of one field are summed up in the first of them.\<close>

definition consolidateStep ::
  "(string, TraceAssertionFailure) gomap \<Rightarrow> TraceAssertionFailure \<Rightarrow> (string, TraceAssertionFailure) gomap" where
  "consolidateStep afMap f =
     (let summary = (case map_of afMap (fieldPath f) of
            Some s \<Rightarrow> s
          | None \<Rightarrow> \<lparr>typeName = typeName f, dataComboName = dataComboName f @ ''...'', fieldPath = fieldPath f,
              expectedValue = expectedValue f, actualValue = actualValue f, sumCount = 0\<rparr>)
      in AList.update (fieldPath f) (summary\<lparr>sumCount := sumCount summary + 1\<rparr>) afMap)"

definition consolidateAssertionFailures :: "TraceAssertionFailure list \<Rightarrow> (string, TraceAssertionFailure) gomap" where
  "consolidateAssertionFailures failures = foldl consolidateStep [] failures"

section \<open>Results of single tests\<close>

record ResourceConsumption =
  CPUPercentAvg :: f64
  CPUPercentMax :: f64
  CPUPercentLimit :: f64
  RAMMiBAvg :: "32 word"
  RAMMiBMax :: "32 word"
  RAMMiBLimit :: "32 word"

record PerformanceTestResult =
  p_testName :: string
  p_result :: string
  p_duration :: duration
  cpuPercentageAvg :: f64
  cpuPercentageMax :: f64
  cpuPercentageLimit :: f64
  ramMibAvg :: "32 word"
  ramMibMax :: "32 word"
  ramMibLimit :: "32 word"
  p_sentSpanCount :: "64 word"
  p_receivedSpanCount :: "64 word"
  p_errorCause :: string

record CorrectnessTestResult =
  c_testName :: string
  c_result :: string
  c_duration :: duration
  c_sentSpanCount :: "64 word"
  c_receivedSpanCount :: "64 word"
  traceAssertionFailureCount :: "64 word"
  traceAssertionFailures :: "TraceAssertionFailure list"

record LogPresentResults =
  l_testName :: string
  l_result :: string
  l_duration :: duration

datatype test_result = PerformanceResult PerformanceTestResult | CorrectnessResult CorrectnessTestResult
  | LogPresentResult LogPresentResults

section \<open>Summaries\<close>

record benchmarkResult =
  b_name :: string
  b_value :: f64
  b_unit :: string
  b_extra :: string

record PerformanceResults =
  benchmarkResults :: "benchmarkResult list"
  pr_totalDuration :: duration

record CorrectnessResults =
  perTestResults :: "CorrectnessTestResult list"
  totalAssertionFailures :: "64 word"
  cr_totalDuration :: duration

text \<open>The difference of the counters is taken in \<open>uint64\<close>.\<close>

definition addPerformance :: "test_result \<Rightarrow> PerformanceResults \<Rightarrow> PerformanceResults" where
  "addPerformance res r =
     (case res of
        PerformanceResult t \<Rightarrow>
          (let cpuChartName = p_testName t @ '' - Cpu Percentage'';
               memoryChartName = p_testName t @ '' - RAM (MiB)'';
               droppedSpansChartName = p_testName t @ '' - Dropped Span Count'';
               bench = (\<lambda>n v u e. \<lparr>b_name = n, b_value = v, b_unit = u, b_extra = e\<rparr>)
           in r\<lparr>pr_totalDuration := wrap64 (pr_totalDuration r + p_duration t),
                benchmarkResults := benchmarkResults r @
                  [bench ''cpu_percentage_avg'' (cpuPercentageAvg t) ''%'' cpuChartName,
                   bench ''cpu_percentage_max'' (cpuPercentageMax t) ''%'' cpuChartName] @
                  (if flt (Fin 0) (cpuPercentageLimit t)
                   then [bench ''cpu_percentage_limit'' (cpuPercentageLimit t) ''%'' cpuChartName] else []) @
                  [bench ''ram_mib_avg'' (f64_of_int (uint (ramMibAvg t))) ''MiB'' memoryChartName,
                   bench ''ram_mib_max'' (f64_of_int (uint (ramMibMax t))) ''MiB'' memoryChartName] @
                  (if 0 < ramMibLimit t
                   then [bench ''ram_mib_limit'' (f64_of_int (uint (ramMibLimit t))) ''MiB'' memoryChartName] else []) @
                  [bench ''dropped_span_count'' (f64_of_int (uint (p_sentSpanCount t - p_receivedSpanCount t)))
                     ''spans'' droppedSpansChartName]\<rparr>)
      | _ \<Rightarrow> r)"

definition addCorrectness :: "test_result \<Rightarrow> CorrectnessResults \<Rightarrow> CorrectnessResults" where
  "addCorrectness res r =
     (case res of
        CorrectnessResult t \<Rightarrow>
          r\<lparr>perTestResults := perTestResults r @ [t],
            totalAssertionFailures := totalAssertionFailures r + traceAssertionFailureCount t,
            cr_totalDuration := wrap64 (cr_totalDuration r + c_duration t)\<rparr>
      | _ \<Rightarrow> r)"

section \<open>Lemmas\<close>

text \<open>Consolidation has one entry per field, and its counts add up to the number of failures.\<close>

lemma step_ok: "gomap_ok m \<Longrightarrow> gomap_ok (consolidateStep m f)"
  by (simp add: consolidateStep_def Let_def)

lemma consolidate_ok: "gomap_ok (consolidateAssertionFailures fs)"
  unfolding consolidateAssertionFailures_def
  by (induction fs rule: rev_induct) (simp_all add: step_ok gomap_ok_def [of "[]"])

lemma sum_update:
  "gomap_ok m \<Longrightarrow> (\<Sum>e\<leftarrow>AList.update k v m. f (snd e)) + (case map_of m k of None \<Rightarrow> 0 | Some w \<Rightarrow> f w)
     = (\<Sum>e\<leftarrow>m. f (snd e)) + (f v :: nat)"
proof (induction m)
  case (Cons e m)
  then have "gomap_ok m" by (simp add: gomap_ok_def)
  with Cons.IH show ?case by (cases e) auto
qed simp

lemma consolidate_counts:
  "(\<Sum>e\<leftarrow>consolidateAssertionFailures fs. sumCount (snd e)) = length fs"
proof (induction fs rule: rev_induct)
  case (snoc f fs)
  define m where "m = consolidateAssertionFailures fs"
  have ok: "gomap_ok m" unfolding m_def by (rule consolidate_ok)
  have "(\<Sum>e\<leftarrow>consolidateStep m f. sumCount (snd e)) = Suc (\<Sum>e\<leftarrow>m. sumCount (snd e))"
  proof (cases "map_of m (fieldPath f)")
    case None
    then show ?thesis using sum_update [OF ok, where f = sumCount and k = "fieldPath f"]
      by (simp add: consolidateStep_def)
  next
    case (Some s)
    have "(\<Sum>e\<leftarrow>consolidateStep m f. sumCount (snd e)) + sumCount s = (\<Sum>e\<leftarrow>m. sumCount (snd e)) + (sumCount s + 1)"
      using sum_update [OF ok, where k = "fieldPath f" and v = "s\<lparr>sumCount := sumCount s + 1\<rparr>" and f = sumCount] Some
      by (simp add: consolidateStep_def)
    then show ?thesis by simp
  qed
  with snoc show ?case by (simp add: m_def consolidateAssertionFailures_def)
qed (simp add: consolidateAssertionFailures_def)

text \<open>One item received more than sent is reported as almost \<open>2 ^ 64\<close> dropped items.\<close>

lemma dropped_count_wraps:
  "b_value (last (benchmarkResults (addPerformance (PerformanceResult (t\<lparr>p_sentSpanCount := n, p_receivedSpanCount := n + 1\<rparr>)) r)))
     = f64_of_int (2 ^ 64 - 1)"
  by (simp add: addPerformance_def Let_def unsigned_minus_1_eq_mask mask_eq_exp_minus_1)

end
