(* ===== verification/Span_Validator.thy ===== *)
theory Span_Validator
  imports Test_Load Test_Results Deep_Equal
begin

text \<open>
  The validators of test cases (testbed/testbed/validator.go): the comparison of the counters, of received
  spans with the sent ones, and of log records by their identifiers, and the recording of results.
\<close>

section \<open>Texts\<close>

text \<open>
  Parameters: the texts of identifiers of traces and spans; the canonical form under Unicode case folding of a text
  with runes outside ASCII; the result of \<open>Sprintf\<close> for a format that is not a text with one \<open>%s\<close>.
\<close>

record text_lib =
  trace_text :: "string \<Rightarrow> string"
  span_text :: "string \<Rightarrow> string"
  fold_runes :: "string \<Rightarrow> string"
  other_format :: "string \<Rightarrow> string \<Rightarrow> string"
  value_texts :: lib

definition fold_text :: "text_lib \<Rightarrow> string \<Rightarrow> string" where
  "fold_text X s = (if is_ascii s then ascii_lower s else fold_runes X s)"

definition equal_fold :: "text_lib \<Rightarrow> string \<Rightarrow> string \<Rightarrow> bool" where
  "equal_fold X s t = (fold_text X s = fold_text X t)"

definition sprintf1 :: "text_lib \<Rightarrow> string \<Rightarrow> string \<Rightarrow> string" where
  "sprintf1 X fmtStr key =
     (if contains fmtStr ''%s'' \<and> length (filter (\<lambda>c. c = CHR ''%'') fmtStr) = 1
      then replace1 fmtStr ''%s'' key else other_format X fmtStr key)"

definition traceIDAndSpanIDToString :: "text_lib \<Rightarrow> string \<Rightarrow> string \<Rightarrow> string" where
  "traceIDAndSpanIDToString X traceID spanID = trace_text X traceID @ ''-'' @ span_text X spanID"

section \<open>The validator of spans\<close>

text \<open>What was sent is known only when the provider of the test data is the one for golden data.\<close>

datatype data_provider_kind = GoldenProvider "t_span nested list" | OtherProvider

record CorrectnessTestValidator =
  dataProvider :: data_provider_kind
  assertionFailures :: "TraceAssertionFailure list"
  ignoreSpanLinksAttrs :: bool

definition NewCorrectTestValidator :: "string \<Rightarrow> string \<Rightarrow> data_provider_kind \<Rightarrow> CorrectnessTestValidator" where
  "NewCorrectTestValidator senderName receiverName provider =
     \<lparr>dataProvider = provider, assertionFailures = [],
      ignoreSpanLinksAttrs = (senderName = ''jaeger'' \<or> receiverName = ''jaeger'')\<rparr>"

definition failed ::
  "CorrectnessTestValidator \<Rightarrow> string \<Rightarrow> string \<Rightarrow> string \<Rightarrow> af_value \<Rightarrow> af_value \<Rightarrow> CorrectnessTestValidator" where
  "failed v typ name path expected actual =
     v\<lparr>assertionFailures := assertionFailures v @
        [\<lparr>typeName = typ, dataComboName = name, fieldPath = path, expectedValue = expected,
          actualValue = actual, sumCount = 0\<rparr>]\<rparr>"

definition diffSpanTraceID :: "CorrectnessTestValidator \<Rightarrow> t_span \<Rightarrow> t_span \<Rightarrow> CorrectnessTestValidator" where
  "diffSpanTraceID v sentSpan recdSpan =
     (if sp_trace sentSpan \<noteq> sp_trace recdSpan
      then failed v ''Span'' (sp_name sentSpan) ''TraceId'' (AfText (sp_trace sentSpan)) (AfText (sp_trace recdSpan))
      else v)"

definition diffSpanSpanID :: "CorrectnessTestValidator \<Rightarrow> t_span \<Rightarrow> t_span \<Rightarrow> CorrectnessTestValidator" where
  "diffSpanSpanID v sentSpan recdSpan =
     (if sp_id sentSpan \<noteq> sp_id recdSpan
      then failed v ''Span'' (sp_name sentSpan) ''SpanId'' (AfText (sp_id sentSpan)) (AfText (sp_id recdSpan))
      else v)"

definition diffSpanTraceState :: "CorrectnessTestValidator \<Rightarrow> t_span \<Rightarrow> t_span \<Rightarrow> CorrectnessTestValidator" where
  "diffSpanTraceState v sentSpan recdSpan =
     (if sp_state sentSpan \<noteq> sp_state recdSpan
      then failed v ''Span'' (sp_name sentSpan) ''TraceState'' (AfText (sp_state sentSpan)) (AfText (sp_state recdSpan))
      else v)"

definition diffSpanParentSpanID :: "CorrectnessTestValidator \<Rightarrow> t_span \<Rightarrow> t_span \<Rightarrow> CorrectnessTestValidator" where
  "diffSpanParentSpanID v sentSpan recdSpan =
     (if sp_parent sentSpan \<noteq> sp_parent recdSpan
      then failed v ''Span'' (sp_name sentSpan) ''ParentSpanId'' (AfText (sp_parent sentSpan)) (AfText (sp_parent recdSpan))
      else v)"

text \<open>The failures of names and kinds store methods that are not called.\<close>

definition diffSpanName :: "text_lib \<Rightarrow> CorrectnessTestValidator \<Rightarrow> t_span \<Rightarrow> t_span \<Rightarrow> CorrectnessTestValidator" where
  "diffSpanName X v sentSpan recdSpan =
     (if \<not> equal_fold X (sp_name sentSpan) (sp_name recdSpan)
      then failed v ''Span'' (sp_name sentSpan) ''Name'' (AfText (sp_name sentSpan)) (AfMethod ''Name'')
      else v)"

definition diffSpanKind :: "CorrectnessTestValidator \<Rightarrow> t_span \<Rightarrow> t_span \<Rightarrow> CorrectnessTestValidator" where
  "diffSpanKind v sentSpan recdSpan =
     (if sp_kind sentSpan \<noteq> sp_kind recdSpan
      then failed v ''Span'' (sp_name sentSpan) ''Kind'' (AfMethod ''Kind'') (AfMethod ''Kind'')
      else v)"

definition notWithinOneMillisecond :: "64 word \<Rightarrow> 64 word \<Rightarrow> bool" where
  "notWithinOneMillisecond sentNs recdNs =
     (let d = (if recdNs < sentNs then sentNs - recdNs else recdNs - sentNs) in 1100000 < d)"

definition diffSpanTimestamps :: "CorrectnessTestValidator \<Rightarrow> t_span \<Rightarrow> t_span \<Rightarrow> CorrectnessTestValidator" where
  "diffSpanTimestamps v sentSpan recdSpan =
     (let v = (if notWithinOneMillisecond (sp_start sentSpan) (sp_start recdSpan)
               then failed v ''Span'' (sp_name sentSpan) ''StartTimestamp''
                      (AfTime (sp_start sentSpan)) (AfTime (sp_start recdSpan))
               else v)
      in if notWithinOneMillisecond (sp_end sentSpan) (sp_end recdSpan)
         then failed v ''Span'' (sp_name sentSpan) ''EndTimestamp''
                (AfTime (sp_end sentSpan)) (AfTime (sp_end recdSpan))
         else v)"

section \<open>Attributes\<close>

definition compareSimpleValues ::
  "text_lib \<Rightarrow> CorrectnessTestValidator \<Rightarrow> string \<Rightarrow> val \<Rightarrow> val \<Rightarrow> string \<Rightarrow> string \<Rightarrow> CorrectnessTestValidator" where
  "compareSimpleValues X v spanName sentVal recdVal fmtStr attrKey =
     (if deep_val sentVal recdVal
      then (let sentStr = as_string (value_texts X) sentVal; recdStr = as_string (value_texts X) recdVal
            in if \<not> equal_fold X sentStr recdStr
               then failed v ''Span'' spanName (sprintf1 X fmtStr attrKey) (AfText sentStr) (AfText recdStr)
               else v)
      else v)"

text \<open>\<open>Value.Map\<close> of a value that is not a map is an empty map.\<close>

definition map_value :: "val \<Rightarrow> attrs" where
  "map_value v = (case v of VMap m \<Rightarrow> m | _ \<Rightarrow> [])"

function diffAttributeMap ::
    "text_lib \<Rightarrow> CorrectnessTestValidator \<Rightarrow> string \<Rightarrow> attrs \<Rightarrow> attrs \<Rightarrow> string \<Rightarrow> CorrectnessTestValidator"
  and compareKeyValueList ::
    "text_lib \<Rightarrow> CorrectnessTestValidator \<Rightarrow> string \<Rightarrow> val \<Rightarrow> val \<Rightarrow> string \<Rightarrow> string \<Rightarrow> CorrectnessTestValidator" where
  "diffAttributeMap X v spanName [] recdAttrs fmtStr = v"
| "diffAttributeMap X v spanName ((sentKey, sentVal) # sentAttrs) recdAttrs fmtStr =
     diffAttributeMap X
       (case attr_get recdAttrs sentKey of
          None \<Rightarrow> failed v ''Span'' spanName (sprintf1 X fmtStr sentKey) (AfVal sentVal) AfNil
        | Some recdVal \<Rightarrow>
            (case sentVal of
               VMap _ \<Rightarrow> compareKeyValueList X v spanName sentVal recdVal fmtStr sentKey
             | _ \<Rightarrow> compareSimpleValues X v spanName sentVal recdVal fmtStr sentKey))
       spanName sentAttrs recdAttrs fmtStr"
| "compareKeyValueList X v spanName sentVal recdVal fmtStr attrKey =
     (case recdVal of
        VMap recdMap \<Rightarrow> diffAttributeMap X v spanName (map_value sentVal) recdMap fmtStr
      | VStr _ \<Rightarrow> compareSimpleValues X v spanName sentVal recdVal fmtStr attrKey
      | _ \<Rightarrow> failed v ''SimpleAttribute'' spanName (sprintf1 X fmtStr attrKey) (AfVal sentVal) (AfVal recdVal))"
  by pat_completeness auto

termination
  by (relation "measure (case_sum (\<lambda>(X, v, n, sent, recd, f). 2 * size_list (size_prod (\<lambda>_. 0) size) sent)
      (\<lambda>(X, v, n, sent, recd, f, k). 2 * size sent + 1))")
    (auto simp: map_value_def split: val.splits)

definition diffSpanAttributes :: "text_lib \<Rightarrow> CorrectnessTestValidator \<Rightarrow> t_span \<Rightarrow> t_span \<Rightarrow> CorrectnessTestValidator" where
  "diffSpanAttributes X v sentSpan recdSpan =
     (let v = (if length (sp_attrs sentSpan) \<noteq> length (sp_attrs recdSpan)
               then failed v ''Span'' (sp_name sentSpan) ''Attributes''
                      (AfNat (length (sp_attrs sentSpan))) (AfNat (length (sp_attrs recdSpan)))
               else diffAttributeMap X v (sp_name sentSpan) (sp_attrs sentSpan) (sp_attrs recdSpan) ''Attributes[%s]'')
      in if sp_dropped_attrs sentSpan \<noteq> sp_dropped_attrs recdSpan
         then failed v ''Span'' (sp_name sentSpan) ''DroppedAttributesCount''
                (AfCount (sp_dropped_attrs sentSpan)) (AfCount (sp_dropped_attrs recdSpan))
         else v)"

section \<open>Events\<close>

definition sortEventsByTimestamp :: "t_event list \<Rightarrow> t_event list" where
  "sortEventsByTimestamp eventList = sort_key ev_time eventList"

definition slice_at :: "(string, 'a list) gomap \<Rightarrow> string \<Rightarrow> 'a list" where
  "slice_at m k = (case map_of m k of None \<Rightarrow> [] | Some xs \<Rightarrow> xs)"

definition convertEventsSliceToMap :: "t_event list \<Rightarrow> (string, t_event list) gomap" where
  "convertEventsSliceToMap events =
     (let eventMap = foldl (\<lambda>m e. AList.update (ev_name e) (slice_at m (ev_name e) @ [e]) m) [] events
      in map (\<lambda>(name, eventList). (name, sortEventsByTimestamp eventList)) eventMap)"

fun diffEventList ::
  "text_lib \<Rightarrow> CorrectnessTestValidator \<Rightarrow> string \<Rightarrow> string \<Rightarrow> (t_event \<times> t_event) list \<Rightarrow> CorrectnessTestValidator" where
  "diffEventList X v spanName name [] = v"
| "diffEventList X v spanName name ((sentEvent, recdEvent) # evs) =
     (let v = (if notWithinOneMillisecond (ev_time sentEvent) (ev_time recdEvent)
               then failed v ''Span'' spanName (''Events['' @ name @ ''].TimeUnixNano'')
                      (AfTime (ev_time sentEvent)) (AfTime (ev_time recdEvent))
               else v);
          v = diffAttributeMap X v spanName (ev_attrs sentEvent) (ev_attrs recdEvent)
                (''Events['' @ name @ ''].Attributes[%s]'')
      in diffEventList X v spanName name evs)"

text \<open>The events sent under one name; the loop over the names visits them in any order.\<close>

definition diffEventsNamed ::
  "text_lib \<Rightarrow> string \<Rightarrow> (string, t_event list) gomap \<Rightarrow> CorrectnessTestValidator \<Rightarrow> string \<times> t_event list \<Rightarrow> CorrectnessTestValidator" where
  "diffEventsNamed X spanName recdEventMap v named =
     (case named of (name, sentEvents) \<Rightarrow>
        (if map_of recdEventMap name \<noteq> None \<and> length sentEvents = length (slice_at recdEventMap name)
         then diffEventList X v spanName name (zip sentEvents (slice_at recdEventMap name))
         else failed v ''Span'' spanName (''Events['' @ name @ '']'')
                (AfNat (length sentEvents)) (AfNat (length (slice_at recdEventMap name)))))"

definition diffSpanEvents ::
  "text_lib \<Rightarrow> nat list \<Rightarrow> CorrectnessTestValidator \<Rightarrow> t_span \<Rightarrow> t_span \<Rightarrow> CorrectnessTestValidator" where
  "diffSpanEvents X ns v sentSpan recdSpan =
     (let v = (if length (sp_events sentSpan) \<noteq> length (sp_events recdSpan)
               then failed v ''Span'' (sp_name sentSpan) ''Events''
                      (AfNat (length (sp_events sentSpan))) (AfNat (length (sp_events recdSpan)))
               else foldl (diffEventsNamed X (sp_name sentSpan) (convertEventsSliceToMap (sp_events recdSpan))) v
                      (shuffle ns (convertEventsSliceToMap (sp_events sentSpan))))
      in if sp_dropped_events sentSpan \<noteq> sp_dropped_events recdSpan
         then failed v ''Span'' (sp_name sentSpan) ''DroppedEventsCount''
                (AfCount (sp_dropped_events sentSpan)) (AfCount (sp_dropped_events recdSpan))
         else v)"

section \<open>Links\<close>

definition link_key :: "text_lib \<Rightarrow> t_link \<Rightarrow> string" where
  "link_key X l = traceIDAndSpanIDToString X (ln_trace l) (ln_span l)"

definition convertLinksSliceToMap :: "text_lib \<Rightarrow> t_link list \<Rightarrow> (string, t_link) gomap" where
  "convertLinksSliceToMap X links = foldl (\<lambda>m l. AList.update (link_key X l) l m) [] links"

text \<open>The second component says that the loop has returned from the function.\<close>

fun diffLinkList ::
  "text_lib \<Rightarrow> CorrectnessTestValidator \<Rightarrow> string \<Rightarrow> (string, t_link) gomap \<Rightarrow> nat \<Rightarrow> t_link list \<Rightarrow> CorrectnessTestValidator \<times> bool" where
  "diffLinkList X v spanName recdLinksMap i [] = (v, False)"
| "diffLinkList X v spanName recdLinksMap i (sentLink # links) =
     (case map_of recdLinksMap (link_key X sentLink) of
        Some recdLink \<Rightarrow>
          (if ignoreSpanLinksAttrs v then (v, True)
           else (let v = (if ln_state sentLink \<noteq> ln_state recdLink
                          then failed v ''Span'' spanName ''Link.TraceState'' (AfLink sentLink) (AfLink recdLink)
                          else v);
                     v = diffAttributeMap X v spanName (ln_attrs sentLink) (ln_attrs recdLink) ''Link.Attributes[%s]''
                 in diffLinkList X v spanName recdLinksMap (Suc i) links))
      | None \<Rightarrow>
          diffLinkList X (failed v ''Span'' spanName (''Links['' @ nat_str i @ '']'') (AfLink sentLink) AfNil)
            spanName recdLinksMap (Suc i) links)"

definition diffSpanLinks :: "text_lib \<Rightarrow> CorrectnessTestValidator \<Rightarrow> t_span \<Rightarrow> t_span \<Rightarrow> CorrectnessTestValidator" where
  "diffSpanLinks X v sentSpan recdSpan =
     (let (v, returned) =
            (if length (sp_links sentSpan) \<noteq> length (sp_links recdSpan)
             then (failed v ''Span'' (sp_name sentSpan) ''Links''
                     (AfNat (length (sp_links sentSpan))) (AfNat (length (sp_links recdSpan))), False)
             else diffLinkList X v (sp_name sentSpan) (convertLinksSliceToMap X (sp_links recdSpan)) 0 (sp_links sentSpan))
      in if returned then v
         else if sp_dropped_links sentSpan \<noteq> sp_dropped_links recdSpan
         then failed v ''Span'' (sp_name sentSpan) ''DroppedLinksCount''
                (AfCount (sp_dropped_links sentSpan)) (AfCount (sp_dropped_links recdSpan))
         else v)"

section \<open>Spans\<close>

definition diffSpanStatus :: "CorrectnessTestValidator \<Rightarrow> t_span \<Rightarrow> t_span \<Rightarrow> CorrectnessTestValidator" where
  "diffSpanStatus v sentSpan recdSpan =
     (if sp_code sentSpan \<noteq> sp_code recdSpan
      then failed v ''Span'' (sp_name sentSpan) ''Status.Code'' (AfNat (sp_code sentSpan)) (AfNat (sp_code recdSpan))
      else v)"

definition diffSpan ::
  "text_lib \<Rightarrow> nat list \<Rightarrow> CorrectnessTestValidator \<Rightarrow> t_span \<Rightarrow> t_span \<Rightarrow> CorrectnessTestValidator" where
  "diffSpan X ns v sentSpan recdSpan =
     (let v = diffSpanTraceID v sentSpan recdSpan;
          v = diffSpanSpanID v sentSpan recdSpan;
          v = diffSpanTraceState v sentSpan recdSpan;
          v = diffSpanParentSpanID v sentSpan recdSpan;
          v = diffSpanName X v sentSpan recdSpan;
          v = diffSpanKind v sentSpan recdSpan;
          v = diffSpanTimestamps v sentSpan recdSpan;
          v = diffSpanAttributes X v sentSpan recdSpan;
          v = diffSpanEvents X ns v sentSpan recdSpan;
          v = diffSpanLinks X v sentSpan recdSpan
      in diffSpanStatus v sentSpan recdSpan)"

definition span_key :: "text_lib \<Rightarrow> t_span \<Rightarrow> string" where
  "span_key X sp = traceIDAndSpanIDToString X (sp_trace sp) (sp_id sp)"

definition populateSpansMap :: "text_lib \<Rightarrow> (string, t_span) gomap \<Rightarrow> t_span nested list \<Rightarrow> (string, t_span) gomap" where
  "populateSpansMap X spansMap tds = foldl (\<lambda>m sp. AList.update (span_key X sp) sp m) spansMap (concat (map items tds))"

text \<open>
  A span that is not in the map is the zero span, whose getters dereference nil. \<open>ns i\<close> is the order in which the
  events of the \<open>i\<close>-th received span are visited.
\<close>

fun diffSpans ::
  "text_lib \<Rightarrow> (nat \<Rightarrow> nat list) \<Rightarrow> (string, t_span) gomap \<Rightarrow> nat \<Rightarrow> CorrectnessTestValidator \<Rightarrow> t_span list \<Rightarrow> CorrectnessTestValidator go" where
  "diffSpans X ns spansMap i v [] = ret v"
| "diffSpans X ns spansMap i v (recdSpan # spans) =
     (case map_of spansMap (span_key X recdSpan) of
        None \<Rightarrow> panic ''nil pointer dereference''
      | Some sentSpan \<Rightarrow> diffSpans X ns spansMap (Suc i) (diffSpan X (ns i) v sentSpan recdSpan) spans)"

definition assertSentRecdTracingDataEqual ::
  "text_lib \<Rightarrow> (nat \<Rightarrow> nat list) \<Rightarrow> CorrectnessTestValidator \<Rightarrow> t_span nested list \<Rightarrow> CorrectnessTestValidator go" where
  "assertSentRecdTracingDataEqual X ns v tracesList =
     (let spansMap = (case dataProvider v of GoldenProvider tds \<Rightarrow> populateSpansMap X [] tds | OtherProvider \<Rightarrow> [])
      in diffSpans X ns spansMap 0 v (concat (map items tracesList)))"

section \<open>Test cases\<close>

text \<open>
  What the validators read of a test case. A failed assertion marks the test as failed and the code goes on; the
  search of the agent's log by an external program is a parameter, and so is the consumption of the agent.
\<close>

record 'm TestCase =
  tc_name :: string
  tc_failed :: bool
  tc_itemsSent :: "64 word"
  tc_permanentErrors :: "64 word"
  tc_backend :: "'m MockBackend"
  tc_log_contains :: "string \<Rightarrow> bool"
  tc_consumption :: ResourceConsumption
  tc_elapsed :: duration
  tc_errorCause :: string
  tc_results :: "(string \<times> test_result) list"

definition assert_that :: "bool \<Rightarrow> 'm TestCase \<Rightarrow> 'm TestCase" where
  "assert_that ok tc = (if ok then tc else tc\<lparr>tc_failed := True\<rparr>)"

definition validateLogPresent :: "string \<Rightarrow> bool \<Rightarrow> 'm TestCase \<Rightarrow> 'm TestCase" where
  "validateLogPresent logBody present tc = assert_that (tc_log_contains tc logBody = present) tc"

definition validatePerf :: "'m TestCase \<Rightarrow> 'm TestCase" where
  "validatePerf tc = assert_that (sint (tc_itemsSent tc) = sint (DataItemsReceived (tc_backend tc))) tc"

definition validateCorrectness ::
  "text_lib \<Rightarrow> (nat \<Rightarrow> nat list) \<Rightarrow> CorrectnessTestValidator \<Rightarrow> 'm TestCase \<Rightarrow> (CorrectnessTestValidator \<times> 'm TestCase) go" where
  "validateCorrectness X ns v tc =
     (let mb = tc_backend tc;
          tc = assert_that (wrap64 (sint (tc_itemsSent tc) - sint (tc_permanentErrors tc)) = sint (DataItemsReceived mb)) tc
      in andThen (if ReceivedTraces mb \<noteq> []
                  then assertSentRecdTracingDataEqual X ns v (ReceivedTraces mb @ DroppedTraces mb) else ret v)
           (\<lambda>v. ret (v, assert_that (assertionFailures v = []) tc)))"

text \<open>The first four bytes of the name of the test are cut off; a shorter name is out of range.\<close>

definition result_text :: "'m TestCase \<Rightarrow> string" where
  "result_text tc = (if tc_failed tc then ''FAIL'' else ''PASS'')"

definition testName :: "'m TestCase \<Rightarrow> string go" where
  "testName tc = (if length (tc_name tc) < 4 then panic ''slice bounds out of range'' else ret (drop 4 (tc_name tc)))"

definition addResult :: "test_result \<Rightarrow> 'm TestCase \<Rightarrow> 'm TestCase" where
  "addResult res tc = tc\<lparr>tc_results := tc_results tc @ [(tc_name tc, res)]\<rparr>"

definition recordLogPresent :: "'m TestCase \<Rightarrow> 'm TestCase go" where
  "recordLogPresent tc = andThen (testName tc) (\<lambda>name. ret (addResult
     (LogPresentResult \<lparr>l_testName = name, l_result = result_text tc, l_duration = tc_elapsed tc\<rparr>) tc))"

definition performanceResult :: "bool \<Rightarrow> string \<Rightarrow> 'm TestCase \<Rightarrow> PerformanceTestResult" where
  "performanceResult limits name tc =
     (let rc = tc_consumption tc
      in \<lparr>p_testName = name, p_result = result_text tc, p_duration = tc_elapsed tc,
          cpuPercentageAvg = CPUPercentAvg rc, cpuPercentageMax = CPUPercentMax rc,
          cpuPercentageLimit = (if limits then CPUPercentLimit rc else Fin 0),
          ramMibAvg = RAMMiBAvg rc, ramMibMax = RAMMiBMax rc, ramMibLimit = (if limits then RAMMiBLimit rc else 0),
          p_sentSpanCount = tc_itemsSent tc, p_receivedSpanCount = DataItemsReceived (tc_backend tc),
          p_errorCause = tc_errorCause tc\<rparr>)"

definition recordPerf :: "bool \<Rightarrow> 'm TestCase \<Rightarrow> 'm TestCase go" where
  "recordPerf limits tc = andThen (testName tc) (\<lambda>name. ret (addResult (PerformanceResult (performanceResult limits name tc)) tc))"

definition recordCorrectness :: "CorrectnessTestValidator \<Rightarrow> 'm TestCase \<Rightarrow> 'm TestCase go" where
  "recordCorrectness v tc = andThen (testName tc) (\<lambda>name. ret (addResult (CorrectnessResult
     \<lparr>c_testName = name, c_result = result_text tc, c_duration = tc_elapsed tc, c_sentSpanCount = tc_itemsSent tc,
      c_receivedSpanCount = DataItemsReceived (tc_backend tc),
      traceAssertionFailureCount = of_nat (length (assertionFailures v)),
      traceAssertionFailures = assertionFailures v\<rparr>) tc))"

section \<open>The validator of logs\<close>

text \<open>\<open>require.True\<close> ends the test when an attribute is missing.\<close>

definition idsSent :: "perfTestDataProvider \<Rightarrow> (string \<times> string) list" where
  "idsSent dp = concat (map (\<lambda>batch. map (\<lambda>idx. (''batch_'' @ nat_str batch, ''item_'' @ nat_str idx))
     [0..<nat (ItemsPerBatch (options dp))]) [0..<nat (sint (traceIDSequence dp))])"

fun idsReceived :: "t_log list \<Rightarrow> (string \<times> string) list go" where
  "idsReceived [] = ret []"
| "idsReceived (logRecord # records) =
     (case (attr_get (lg_attrs logRecord) ''batch_index'', attr_get (lg_attrs logRecord) ''item_index'') of
        (None, _) \<Rightarrow> panic ''batch_index missing from attributes; use perfDataProvider''
      | (Some _, None) \<Rightarrow> panic ''item_index missing from attributes; use perfDataProvider''
      | (Some batchIndex, Some itemIndex) \<Rightarrow>
          andThen (idsReceived records) (\<lambda>ids. ret ((str_of batchIndex, str_of itemIndex) # ids)))"

definition validateLogs :: "perfTestDataProvider option \<Rightarrow> 'm TestCase \<Rightarrow> 'm TestCase" where
  "validateLogs provider tc =
     (case provider of
        None \<Rightarrow> tc
      | Some dp \<Rightarrow>
          (case idsReceived (concat (map items (ReceivedLogs (tc_backend tc)))) of
             Inl _ \<Rightarrow> tc\<lparr>tc_failed := True\<rparr>
           | Inr ids \<Rightarrow> assert_that (mset (idsSent dp) = mset ids) tc))"

definition recordLogs :: "'m TestCase \<Rightarrow> 'm TestCase go" where
  "recordLogs tc = recordPerf False tc"

section \<open>What the comparisons accept\<close>

definition near :: "64 word \<Rightarrow> 64 word \<Rightarrow> bool" where
  "near t u = (\<bar>uint t - uint u\<bar> \<le> 1100000)"

text \<open>
  Values other than maps pass unless they are equal and their texts differ: the comparison reports a difference of
  texts only between equal values.
\<close>

definition simple_ok :: "text_lib \<Rightarrow> val \<Rightarrow> val \<Rightarrow> bool" where
  "simple_ok X s r = (deep_val s r \<longrightarrow> equal_fold X (as_string (value_texts X) s) (as_string (value_texts X) r))"

fun value_ok :: "text_lib \<Rightarrow> val \<Rightarrow> val \<Rightarrow> bool" where
  "value_ok X (VMap ms) r =
     (case r of
        VMap mr \<Rightarrow> list_all (\<lambda>(k, v). case attr_get mr k of None \<Rightarrow> False | Some w \<Rightarrow> value_ok X v w) ms
      | VStr _ \<Rightarrow> True
      | _ \<Rightarrow> False)"
| "value_ok X s r = simple_ok X s r"

definition attrs_ok :: "text_lib \<Rightarrow> attrs \<Rightarrow> attrs \<Rightarrow> bool" where
  "attrs_ok X sent recd =
     list_all (\<lambda>(k, v). case attr_get recd k of None \<Rightarrow> False | Some w \<Rightarrow> value_ok X v w) sent"

definition event_ok :: "text_lib \<Rightarrow> t_event \<Rightarrow> t_event \<Rightarrow> bool" where
  "event_ok X s r = (near (ev_time s) (ev_time r) \<and> attrs_ok X (ev_attrs s) (ev_attrs r))"

text \<open>The events of one name, in the order of their times; events at the same time keep their order.\<close>

definition named_events :: "string \<Rightarrow> t_event list \<Rightarrow> t_event list" where
  "named_events name es = sort_key ev_time (filter (\<lambda>e. ev_name e = name) es)"

definition events_ok :: "text_lib \<Rightarrow> t_event list \<Rightarrow> t_event list \<Rightarrow> bool" where
  "events_ok X ss rs = (length ss = length rs \<and>
     (\<forall>name \<in> ev_name ` set ss. list_all2 (event_ok X) (named_events name ss) (named_events name rs)))"

definition last_link :: "text_lib \<Rightarrow> string \<Rightarrow> t_link list \<Rightarrow> t_link option" where
  "last_link X k ls = find (\<lambda>l. link_key X l = k) (rev ls)"

definition link_ok :: "text_lib \<Rightarrow> t_link list \<Rightarrow> t_link \<Rightarrow> bool" where
  "link_ok X rs s = (case last_link X (link_key X s) rs of
     None \<Rightarrow> False | Some r \<Rightarrow> ln_state s = ln_state r \<and> attrs_ok X (ln_attrs s) (ln_attrs r))"

text \<open>When the attributes of links are ignored, only the first link is looked up, and the counts of dropped links are not compared.\<close>

definition links_ok :: "text_lib \<Rightarrow> bool \<Rightarrow> t_span \<Rightarrow> t_span \<Rightarrow> bool" where
  "links_ok X ignore s r = (length (sp_links s) = length (sp_links r) \<and>
     (if ignore \<and> sp_links s \<noteq> [] then last_link X (link_key X (hd (sp_links s))) (sp_links r) \<noteq> None
      else list_all (link_ok X (sp_links r)) (sp_links s) \<and> sp_dropped_links s = sp_dropped_links r))"

definition span_agree :: "text_lib \<Rightarrow> bool \<Rightarrow> t_span \<Rightarrow> t_span \<Rightarrow> bool" where
  "span_agree X ignore s r \<longleftrightarrow>
     sp_trace s = sp_trace r \<and> sp_id s = sp_id r \<and> sp_state s = sp_state r \<and> sp_parent s = sp_parent r \<and>
     equal_fold X (sp_name s) (sp_name r) \<and> sp_kind s = sp_kind r \<and>
     near (sp_start s) (sp_start r) \<and> near (sp_end s) (sp_end r) \<and>
     length (sp_attrs s) = length (sp_attrs r) \<and> attrs_ok X (sp_attrs s) (sp_attrs r) \<and>
     sp_dropped_attrs s = sp_dropped_attrs r \<and>
     events_ok X (sp_events s) (sp_events r) \<and> sp_dropped_events s = sp_dropped_events r \<and>
     links_ok X ignore s r \<and> sp_code s = sp_code r"

section \<open>Every comparison appends failures, none when its parts agree\<close>

definition adds :: "CorrectnessTestValidator \<Rightarrow> CorrectnessTestValidator \<Rightarrow> bool \<Rightarrow> bool" where
  "adds v v' P = (\<exists>fs. v' = v\<lparr>assertionFailures := assertionFailures v @ fs\<rparr> \<and> (fs = [] \<longleftrightarrow> P))"

lemma adds_refl: "adds v v True"
  by (simp add: adds_def)

lemma adds_failed: "adds v w P \<Longrightarrow> adds v (failed w t n p e a) False"
  by (auto simp: adds_def failed_def)

lemma adds_iff: "adds v w P \<Longrightarrow> P = Q \<Longrightarrow> adds v w Q"
  by simp

lemma adds_trans: "adds v w P \<Longrightarrow> adds w u Q \<Longrightarrow> adds v u (P \<and> Q)"
  by (auto simp: adds_def)

lemma adds_if: "adds v w P \<Longrightarrow> adds v (if c then failed w t n p e a else w) (P \<and> \<not> c)"
  by (auto intro: adds_failed)

lemma adds_ifI: "adds u w P \<Longrightarrow> Q = (P \<and> \<not> c) \<Longrightarrow> adds u (if c then failed w t n p e a else w) Q"
  using adds_if by simp

lemma failed_same [simp]: "ignoreSpanLinksAttrs (failed v t n p e a) = ignoreSpanLinksAttrs v"
  "dataProvider (failed v t n p e a) = dataProvider v"
  by (simp_all add: failed_def)

lemma adds_same: "adds v w P \<Longrightarrow> ignoreSpanLinksAttrs w = ignoreSpanLinksAttrs v \<and> dataProvider w = dataProvider v"
  by (auto simp: adds_def)

lemma adds_eq: "adds v w P \<Longrightarrow> (w = v) = P"
  by (cases v) (auto simp: adds_def)

lemma not_within_iff: "notWithinOneMillisecond t u = (\<not> near t u)"
  by (auto simp: notWithinOneMillisecond_def near_def Let_def word_less_def uint_sub_if' split: if_splits)

lemma adds_simple: "adds v w P \<Longrightarrow> adds v (compareSimpleValues X w n s r f k) (P \<and> simple_ok X s r)"
  by (auto simp: compareSimpleValues_def simple_ok_def Let_def intro: adds_failed)

definition key_value_ok :: "text_lib \<Rightarrow> val \<Rightarrow> val \<Rightarrow> bool" where
  "key_value_ok X s r = (case r of VMap mr \<Rightarrow> attrs_ok X (map_value s) mr | VStr _ \<Rightarrow> simple_ok X s r | _ \<Rightarrow> False)"

lemma value_ok_map: "value_ok X (VMap ms) r = key_value_ok X (VMap ms) r"
  by (cases r) (simp_all add: key_value_ok_def attrs_ok_def map_value_def simple_ok_def)

lemma attrs_ok_Cons: "attrs_ok X ((k, s) # sent) recd \<longleftrightarrow>
    (case attr_get recd k of None \<Rightarrow> False | Some r \<Rightarrow> (case s of VMap _ \<Rightarrow> key_value_ok X s r | _ \<Rightarrow> simple_ok X s r)) \<and>
    attrs_ok X sent recd"
  by (cases s) (auto simp: attrs_ok_def value_ok_map simp del: value_ok.simps(1) split: option.splits)

lemma adds_attribute_map:
  "adds u v P \<Longrightarrow> adds u (diffAttributeMap X v n sent recd f) (P \<and> attrs_ok X sent recd)"
  "adds u v P \<Longrightarrow> adds u (compareKeyValueList X v n s r f k) (P \<and> key_value_ok X s r)"
proof (induction X v n sent recd f and X v n s r f k arbitrary: P and P rule: diffAttributeMap_compareKeyValueList.induct)
  case (1 X v n recd f)
  then show ?case by (simp add: attrs_ok_def)
next
  case (2 X v n k s sent recd f)
  let ?w = "case attr_get recd k of
      None \<Rightarrow> failed v ''Span'' n (sprintf1 X f k) (AfVal s) AfNil
    | Some r \<Rightarrow> (case s of VMap _ \<Rightarrow> compareKeyValueList X v n s r f k | _ \<Rightarrow> compareSimpleValues X v n s r f k)"
  let ?Q = "case attr_get recd k of None \<Rightarrow> False | Some r \<Rightarrow> (case s of VMap _ \<Rightarrow> key_value_ok X s r | _ \<Rightarrow> simple_ok X s r)"
  have "adds u ?w (P \<and> ?Q)"
  proof (cases "attr_get recd k")
    case None
    then show ?thesis using adds_failed [OF 2(3)] by simp
  next
    case (Some r)
    then show ?thesis
      using 2(1) [OF Some, of _ P] adds_simple [OF 2(3)] 2(3) by (cases s) simp_all
  qed
  from 2(2) [OF this] show ?case by (simp add: attrs_ok_Cons conj_assoc)
next
  case (3 X v n s r f k)
  then show ?case
    using adds_failed [OF 3(2)] adds_simple [OF 3(2)] by (cases r) (simp_all add: key_value_ok_def)
qed

lemmas adds_attrs = adds_attribute_map(1)

lemma adds_events:
  "adds u v P \<Longrightarrow> adds u (diffEventList X v n name evs) (P \<and> list_all (\<lambda>(s, r). event_ok X s r) evs)"
proof (induction X v n name evs arbitrary: P rule: diffEventList.induct)
  case (2 X v n name s r evs)
  show ?case
    unfolding diffEventList.simps Let_def
    by (rule adds_iff [OF 2(1) [OF refl refl adds_attrs [OF adds_if [OF 2(2)]]]]) (auto simp: event_ok_def not_within_iff)
qed simp

section \<open>Events by name, links by identifier\<close>

lemma slice_at_update: "slice_at (AList.update k v m) j = (if j = k then v else slice_at m j)"
  by (simp add: slice_at_def)

definition grouped :: "t_event list \<Rightarrow> (string, t_event list) gomap" where
  "grouped events = foldl (\<lambda>m e. AList.update (ev_name e) (slice_at m (ev_name e) @ [e]) m) [] events"

lemma grouped_props:
  "gomap_ok (grouped es) \<and> set (keys (grouped es)) = ev_name ` set es \<and>
     slice_at (grouped es) n = filter (\<lambda>e. ev_name e = n) es"
proof (induction es arbitrary: n rule: rev_induct)
  case Nil
  then show ?case by (simp add: grouped_def gomap_ok_def slice_at_def)
next
  case (snoc e es)
  have step: "grouped (es @ [e]) = AList.update (ev_name e) (slice_at (grouped es) (ev_name e) @ [e]) (grouped es)"
    by (simp add: grouped_def)
  show ?case unfolding step using snoc
    by (auto simp: slice_at_update dom_update)
qed

lemma convert_events_ok: "gomap_ok (convertEventsSliceToMap es)"
  using grouped_props [of es] by (simp add: convertEventsSliceToMap_def grouped_def [symmetric] gomap_ok_def case_prod_beta comp_def)

lemma convert_events_keys: "set (keys (convertEventsSliceToMap es)) = ev_name ` set es"
  using grouped_props [of es]
  by (simp add: convertEventsSliceToMap_def grouped_def [symmetric] case_prod_beta image_image)

lemma convert_events_slice: "slice_at (convertEventsSliceToMap es) n = named_events n es"
proof -
  have "map_of (convertEventsSliceToMap es) n = map_option sortEventsByTimestamp (map_of (grouped es) n)"
    by (simp add: convertEventsSliceToMap_def grouped_def [symmetric] map_of_map)
  then show ?thesis
    using grouped_props [of es n]
    by (auto simp: slice_at_def named_events_def sortEventsByTimestamp_def split: option.splits)
qed

lemma convert_events_get:
  "map_of (convertEventsSliceToMap es) n = (if n \<in> ev_name ` set es then Some (named_events n es) else None)"
proof (cases "map_of (convertEventsSliceToMap es) n")
  case None
  then show ?thesis using convert_events_keys [of es] by (auto simp: map_of_eq_None_iff)
next
  case (Some xs)
  then have "xs = named_events n es" using convert_events_slice [of es n] by (simp add: slice_at_def)
  moreover have "n \<in> set (keys (convertEventsSliceToMap es))" using Some by (metis domI dom_map_of_conv_image_fst set_map)
  ultimately show ?thesis using Some convert_events_keys [of es] by simp
qed

lemma adds_foldl:
  assumes "\<And>v P x. adds u v P \<Longrightarrow> adds u (f v x) (P \<and> Q x)" "adds u v P"
  shows "adds u (foldl f v xs) (P \<and> list_all Q xs)"
  using assms(2)
proof (induction xs arbitrary: v P)
  case (Cons x xs)
  from Cons.IH [OF assms(1) [OF Cons.prems]] show ?case by (simp add: conj_assoc)
qed simp

definition named_ok :: "text_lib \<Rightarrow> (string, t_event list) gomap \<Rightarrow> string \<times> t_event list \<Rightarrow> bool" where
  "named_ok X recd named = (case named of (n, ss) \<Rightarrow> map_of recd n \<noteq> None \<and> list_all2 (event_ok X) ss (slice_at recd n))"

lemma adds_named: "adds u v P \<Longrightarrow> adds u (diffEventsNamed X spn recd v named) (P \<and> named_ok X recd named)"
proof -
  assume v: "adds u v P"
  obtain n ss where n: "named = (n, ss)" by (cases named)
  show ?thesis
  proof (cases "map_of recd n \<noteq> None \<and> length ss = length (slice_at recd n)")
    case True
    then show ?thesis using adds_events [OF v, of X spn n "zip ss (slice_at recd n)"]
      by (auto simp: n diffEventsNamed_def named_ok_def list_all2_iff list_all_iff elim!: adds_iff)
  next
    case False
    then show ?thesis using adds_failed [OF v] by (auto simp: n diffEventsNamed_def named_ok_def list_all2_iff elim!: adds_iff)
  qed
qed

lemma named_events_Nil: "named_events n es = [] \<longleftrightarrow> n \<notin> ev_name ` set es"
proof -
  have "named_events n es = [] \<longleftrightarrow> filter (\<lambda>e. ev_name e = n) es = []"
    unfolding named_events_def by (metis set_empty set_sort)
  then show ?thesis by (auto simp: filter_empty_conv)
qed

lemma named_ok_all:
  "list_all (named_ok X (convertEventsSliceToMap rs)) (shuffle ns (convertEventsSliceToMap ss)) \<longleftrightarrow>
     (\<forall>name \<in> ev_name ` set ss. list_all2 (event_ok X) (named_events name ss) (named_events name rs))"
proof -
  have entries: "(n, es) \<in> set (convertEventsSliceToMap ss) \<longleftrightarrow> n \<in> ev_name ` set ss \<and> es = named_events n ss" for n es
    unfolding gomap_ok_map_of [OF convert_events_ok, symmetric] convert_events_get by auto
  have present: "n \<in> ev_name ` set rs"
    if "n \<in> ev_name ` set ss" "list_all2 (event_ok X) (named_events n ss) (named_events n rs)" for n
    using that named_events_Nil [of n ss] named_events_Nil [of n rs] by auto
  have "list_all (named_ok X (convertEventsSliceToMap rs)) (shuffle ns (convertEventsSliceToMap ss)) \<longleftrightarrow>
      (\<forall>n es. (n, es) \<in> set (convertEventsSliceToMap ss) \<longrightarrow> named_ok X (convertEventsSliceToMap rs) (n, es))"
    by (auto simp: list_all_iff)
  also have "\<dots> \<longleftrightarrow> (\<forall>n \<in> ev_name ` set ss. named_ok X (convertEventsSliceToMap rs) (n, named_events n ss))"
    unfolding entries by blast
  also have "\<dots> \<longleftrightarrow> (\<forall>n \<in> ev_name ` set ss. list_all2 (event_ok X) (named_events n ss) (named_events n rs))"
    using present by (intro ball_cong) (auto simp: named_ok_def convert_events_slice convert_events_get)
  finally show ?thesis .
qed

lemma adds_span_events:
  "adds u v P \<Longrightarrow> adds u (diffSpanEvents X ns v s r)
     (P \<and> events_ok X (sp_events s) (sp_events r) \<and> sp_dropped_events s = sp_dropped_events r)"
proof -
  assume v: "adds u v P"
  let ?C = "convertEventsSliceToMap (sp_events r)"
  let ?S = "shuffle ns (convertEventsSliceToMap (sp_events s))"
  have "adds u (foldl (diffEventsNamed X (sp_name s) ?C) v ?S) (P \<and> list_all (named_ok X ?C) ?S)"
    by (rule adds_foldl [OF adds_named v])
  then have "adds u (if length (sp_events s) \<noteq> length (sp_events r)
      then failed v ''Span'' (sp_name s) ''Events'' (AfNat (length (sp_events s))) (AfNat (length (sp_events r)))
      else foldl (diffEventsNamed X (sp_name s) ?C) v ?S) (P \<and> events_ok X (sp_events s) (sp_events r))"
    using adds_failed [OF v] by (simp add: named_ok_all events_ok_def)
  then show ?thesis unfolding diffSpanEvents_def Let_def by (rule adds_ifI) auto
qed

section \<open>Links\<close>

lemma convert_links: "map_of (convertLinksSliceToMap X ls) k = last_link X k ls"
  by (induction ls rule: rev_induct) (auto simp: convertLinksSliceToMap_def last_link_def)

lemma adds_links:
  assumes "adds u v P" "\<not> ignoreSpanLinksAttrs v"
  shows "snd (diffLinkList X v n (convertLinksSliceToMap X rs) i ls) = False \<and>
    adds u (fst (diffLinkList X v n (convertLinksSliceToMap X rs) i ls)) (P \<and> list_all (link_ok X rs) ls)"
  using assms
proof (induction ls arbitrary: v P i)
  case (Cons l ls)
  show ?case
  proof (cases "last_link X (link_key X l) rs")
    case None
    with Cons.IH [OF adds_failed [OF Cons.prems(1)]] Cons.prems(2) show ?thesis
      by (simp add: convert_links link_ok_def)
  next
    case (Some r)
    let ?w = "diffAttributeMap X (if ln_state l \<noteq> ln_state r then failed v ''Span'' n ''Link.TraceState'' (AfLink l) (AfLink r) else v)
        n (ln_attrs l) (ln_attrs r) ''Link.Attributes[%s]''"
    have w: "adds u ?w ((P \<and> \<not> ln_state l \<noteq> ln_state r) \<and> attrs_ok X (ln_attrs l) (ln_attrs r))"
      by (rule adds_attrs [OF adds_if [OF Cons.prems(1)]])
    have "\<not> ignoreSpanLinksAttrs ?w"
      using adds_same [OF w] adds_same [OF Cons.prems(1)] Cons.prems(2) by simp
    from Cons.IH [OF w this] Some Cons.prems(2) show ?thesis
      by (auto simp: convert_links link_ok_def Let_def elim!: adds_iff)
  qed
qed (auto elim!: adds_iff)

lemma adds_links_ignored:
  "adds u v False \<Longrightarrow> ignoreSpanLinksAttrs v \<Longrightarrow> adds u (fst (diffLinkList X v n m i ls)) False"
proof (induction ls arbitrary: v i)
  case (Cons l ls)
  show ?case
    using Cons.prems Cons.IH [OF adds_failed [OF Cons.prems(1)]] by (auto split: option.splits)
qed simp

lemma adds_span_links:
  assumes v: "adds u v P"
  shows "adds u (diffSpanLinks X v s r) (P \<and> links_ok X (ignoreSpanLinksAttrs v) s r)"
proof -
  let ?r = "diffLinkList X v (sp_name s) (convertLinksSliceToMap X (sp_links r)) 0 (sp_links s)"
  have dropped: "adds u (if sp_dropped_links s \<noteq> sp_dropped_links r
      then failed w ''Span'' (sp_name s) ''DroppedLinksCount'' (AfCount (sp_dropped_links s)) (AfCount (sp_dropped_links r))
      else w) (Q \<and> sp_dropped_links s = sp_dropped_links r)" if "adds u w Q" for w Q
    using that by (rule adds_ifI) simp
  let ?d = "if sp_dropped_links s \<noteq> sp_dropped_links r
      then failed (fst ?r) ''Span'' (sp_name s) ''DroppedLinksCount'' (AfCount (sp_dropped_links s)) (AfCount (sp_dropped_links r))
      else fst ?r"
  have eq: "diffSpanLinks X v s r = (if snd ?r then fst ?r else ?d)" if "length (sp_links s) = length (sp_links r)"
    using that by (simp add: diffSpanLinks_def case_prod_beta)
  consider (len) "length (sp_links s) \<noteq> length (sp_links r)"
    | (all) "length (sp_links s) = length (sp_links r)" "\<not> (ignoreSpanLinksAttrs v \<and> sp_links s \<noteq> [])"
    | (ignored) l ls where "length (sp_links s) = length (sp_links r)" "ignoreSpanLinksAttrs v" "sp_links s = l # ls"
    by (cases "sp_links s") blast+
  then show ?thesis
  proof cases
    case len
    then show ?thesis using dropped [OF adds_failed [OF v]]
      by (simp add: diffSpanLinks_def links_ok_def)
  next
    case all
    have r: "snd ?r = False \<and> adds u (fst ?r) (P \<and> list_all (link_ok X (sp_links r)) (sp_links s))"
      using all(2) adds_links [OF v] v by (cases "ignoreSpanLinksAttrs v") auto
    have "diffSpanLinks X v s r = ?d" using eq [OF all(1)] r by simp
    with dropped [OF conjunct2 [OF r]] all show ?thesis by (auto simp: links_ok_def conj_assoc)
  next
    case (ignored l ls)
    show ?thesis
    proof (cases "last_link X (link_key X l) (sp_links r)")
      case None
      have "adds u (fst ?r) False"
        using adds_links_ignored [OF adds_failed [OF v]] None ignored(2,3) by (simp add: convert_links)
      moreover from this have "adds u ?d False" using dropped [of "fst ?r" False] by simp
      ultimately have "adds u (diffSpanLinks X v s r) False" unfolding eq [OF ignored(1)] by simp
      then show ?thesis using ignored None by (simp add: links_ok_def)
    next
      case (Some r')
      then show ?thesis using ignored v by (simp add: diffSpanLinks_def links_ok_def convert_links)
    qed
  qed
qed

section \<open>Spans\<close>

lemma adds_span_attributes:
  "adds u v P \<Longrightarrow> adds u (diffSpanAttributes X v s r)
     (P \<and> length (sp_attrs s) = length (sp_attrs r) \<and> attrs_ok X (sp_attrs s) (sp_attrs r) \<and>
      sp_dropped_attrs s = sp_dropped_attrs r)"
proof -
  assume v: "adds u v P"
  have "adds u (if length (sp_attrs s) \<noteq> length (sp_attrs r)
      then failed v ''Span'' (sp_name s) ''Attributes'' (AfNat (length (sp_attrs s))) (AfNat (length (sp_attrs r)))
      else diffAttributeMap X v (sp_name s) (sp_attrs s) (sp_attrs r) ''Attributes[%s]'')
      (P \<and> length (sp_attrs s) = length (sp_attrs r) \<and> attrs_ok X (sp_attrs s) (sp_attrs r))"
    using adds_failed [OF v] adds_attrs [OF v] by simp
  then show ?thesis unfolding diffSpanAttributes_def Let_def by (rule adds_ifI) auto
qed

lemma adds_span:
  assumes v: "adds u v P"
  shows "adds u (diffSpan X ns v s r) (P \<and> span_agree X (ignoreSpanLinksAttrs v) s r)"
proof -
  define w where "w = diffSpanTimestamps (diffSpanKind (diffSpanName X (diffSpanParentSpanID (diffSpanTraceState
    (diffSpanSpanID (diffSpanTraceID v s r) s r) s r) s r) s r) s r) s r"
  have w: "adds u w (P \<and> sp_trace s = sp_trace r \<and> sp_id s = sp_id r \<and> sp_state s = sp_state r \<and> sp_parent s = sp_parent r \<and>
      equal_fold X (sp_name s) (sp_name r) \<and> sp_kind s = sp_kind r \<and>
      near (sp_start s) (sp_start r) \<and> near (sp_end s) (sp_end r))"
    unfolding w_def diffSpanTimestamps_def diffSpanKind_def diffSpanName_def diffSpanParentSpanID_def diffSpanTraceState_def
      diffSpanSpanID_def diffSpanTraceID_def Let_def
    by (rule adds_iff, (rule adds_if)+, rule v) (auto simp: not_within_iff)
  note all = adds_span_links [OF adds_span_events [OF adds_span_attributes [OF w]]]
  have same: "ignoreSpanLinksAttrs (diffSpanEvents X ns (diffSpanAttributes X w s r) s r) = ignoreSpanLinksAttrs v"
    using adds_same [OF v] adds_same [OF adds_span_events [OF adds_span_attributes [OF w]]] by simp
  show ?thesis
    unfolding diffSpan_def Let_def diffSpanStatus_def w_def [symmetric]
    by (rule adds_ifI [OF all]) (auto simp: span_agree_def same)
qed

text \<open>The last span sent with given identifiers.\<close>

definition last_span :: "text_lib \<Rightarrow> t_span list \<Rightarrow> string \<Rightarrow> t_span option" where
  "last_span X spans k = find (\<lambda>s. span_key X s = k) (rev spans)"

lemma populate_get: "map_of (populateSpansMap X [] tds) k = last_span X (concat (map items tds)) k"
proof -
  have "map_of (foldl (\<lambda>m sp. AList.update (span_key X sp) sp m) [] spans) k = last_span X spans k" for spans
    by (induction spans rule: rev_induct) (auto simp: last_span_def)
  then show ?thesis by (simp add: populateSpansMap_def)
qed

definition span_passes :: "text_lib \<Rightarrow> bool \<Rightarrow> (string, t_span) gomap \<Rightarrow> t_span \<Rightarrow> bool" where
  "span_passes X ignore m r = (case map_of m (span_key X r) of None \<Rightarrow> False | Some s \<Rightarrow> span_agree X ignore s r)"

lemma spans_exact:
  assumes "adds u v P"
  shows "(diffSpans X ns m i v rs = ret w \<longrightarrow> adds u w (P \<and> list_all (span_passes X (ignoreSpanLinksAttrs v) m) rs)) \<and>
    (returns (diffSpans X ns m i v rs) \<longleftrightarrow> list_all (\<lambda>r. map_of m (span_key X r) \<noteq> None) rs)"
  using assms
proof (induction rs arbitrary: i v P)
  case (Cons r rs)
  show ?case
  proof (cases "map_of m (span_key X r)")
    case (Some s)
    note sp = adds_span [OF Cons.prems, of X "ns i" s r]
    have "ignoreSpanLinksAttrs (diffSpan X (ns i) v s r) = ignoreSpanLinksAttrs v"
      using adds_same [OF sp] adds_same [OF Cons.prems] by simp
    with Cons.IH [OF sp, of "Suc i"] Some show ?thesis by (simp add: span_passes_def conj_assoc)
  qed simp
qed auto

text \<open>C35: With golden data the comparison of the received spans returns without a failure exactly when every received span agrees
  with the last sent span that has its identifiers: the same identifiers, state, kind, status code and counts, the same
  name up to case, times at most 1.1 ms apart, every sent attribute present, events that agree name by name in the
  order of time, and links that agree by identifier. It panics exactly when a span was not sent.\<close>

theorem validator_exact:
  assumes "dataProvider v = GoldenProvider tds"
  shows "(assertSentRecdTracingDataEqual X ns v recd = ret v \<longleftrightarrow>
      (\<forall>r \<in> set (concat (map items recd)). \<exists>s. last_span X (concat (map items tds)) (span_key X r) = Some s \<and>
         span_agree X (ignoreSpanLinksAttrs v) s r)) \<and>
    ((\<exists>msg. assertSentRecdTracingDataEqual X ns v recd = panic msg) \<longleftrightarrow>
      (\<exists>r \<in> set (concat (map items recd)). last_span X (concat (map items tds)) (span_key X r) = None))"
proof -
  let ?m = "populateSpansMap X [] tds"
  let ?rs = "concat (map items recd)"
  note ex = spans_exact [OF adds_refl [of v], of X ns ?m 0 ?rs]
  have eq: "assertSentRecdTracingDataEqual X ns v recd = diffSpans X ns ?m 0 v ?rs"
    by (simp add: assertSentRecdTracingDataEqual_def assms)
  have ok: "list_all (span_passes X (ignoreSpanLinksAttrs v) ?m) ?rs \<longleftrightarrow>
      (\<forall>r \<in> set ?rs. \<exists>s. last_span X (concat (map items tds)) (span_key X r) = Some s \<and> span_agree X (ignoreSpanLinksAttrs v) s r)"
    unfolding list_all_iff span_passes_def populate_get by (intro ball_cong) (auto split: option.splits)
  have found: "list_all (\<lambda>r. map_of ?m (span_key X r) \<noteq> None) ?rs" if "list_all (span_passes X (ignoreSpanLinksAttrs v) ?m) ?rs"
    using that by (auto simp: list_all_iff span_passes_def split: option.splits)
  have "assertSentRecdTracingDataEqual X ns v recd = ret v \<longleftrightarrow>
      (\<forall>r \<in> set ?rs. \<exists>s. last_span X (concat (map items tds)) (span_key X r) = Some s \<and> span_agree X (ignoreSpanLinksAttrs v) s r)"
    unfolding eq ok [symmetric]
  proof
    assume "diffSpans X ns ?m 0 v ?rs = ret v"
    then show "list_all (span_passes X (ignoreSpanLinksAttrs v) ?m) ?rs" using ex [of v] adds_eq [of v v] by blast
  next
    assume a: "list_all (span_passes X (ignoreSpanLinksAttrs v) ?m) ?rs"
    with found ex obtain w where w: "diffSpans X ns ?m 0 v ?rs = ret w" by (auto simp: returns_iff)
    with ex [of w] have "adds v w (True \<and> list_all (span_passes X (ignoreSpanLinksAttrs v) ?m) ?rs)" by blast
    from adds_eq [OF this] a w show "diffSpans X ns ?m 0 v ?rs = ret v" by simp
  qed
  moreover have "(\<exists>msg. diffSpans X ns ?m 0 v ?rs = panic msg) \<longleftrightarrow> \<not> returns (diffSpans X ns ?m 0 v ?rs)"
    by (cases "diffSpans X ns ?m 0 v ?rs") (simp_all add: returns_iff)
  then have "(\<exists>msg. assertSentRecdTracingDataEqual X ns v recd = panic msg) \<longleftrightarrow>
      (\<exists>r \<in> set ?rs. last_span X (concat (map items tds)) (span_key X r) = None)"
    unfolding eq using ex by (auto simp: list_all_iff populate_get)
  ultimately show ?thesis by blast
qed

text \<open>A concrete library: identifiers and folded runes are texts already.\<close>

definition plain_texts :: text_lib where
  "plain_texts = \<lparr>trace_text = (\<lambda>s. s), span_text = (\<lambda>s. s), fold_runes = (\<lambda>s. s), other_format = (\<lambda>f k. f @ k),
     value_texts = plain_lib\<rparr>"

definition sample_span :: t_span where
  "sample_span = \<lparr>sp_trace = ''01'', sp_id = ''02'', sp_state = [], sp_parent = [], sp_name = ''GET'', sp_kind = 3,
     sp_start = 5, sp_end = 9, sp_attrs = [(''url'', VStr ''a'')], sp_dropped_attrs = 0, sp_events = [],
     sp_dropped_events = 0, sp_links = [], sp_dropped_links = 0, sp_code = 1, sp_rest = 0\<rparr>"

definition sample_validator :: CorrectnessTestValidator where
  "sample_validator = NewCorrectTestValidator ''otlp'' ''otlp'' (GoldenProvider [[([], [[sample_span]])]])"

theorem validator_exact_witness:
  "assertSentRecdTracingDataEqual plain_texts (\<lambda>_. []) sample_validator [[([], [[sample_span\<lparr>sp_name := ''get''\<rparr>]])]] = ret sample_validator"
proof -
  have "fold_text plain_texts ''GET'' = fold_text plain_texts ''get''" by code_simp
  then have "span_agree plain_texts False sample_span (sample_span\<lparr>sp_name := ''get''\<rparr>)"
    by (simp add: span_agree_def sample_span_def near_def attrs_ok_def attr_get_def simple_ok_def equal_fold_def
        events_ok_def links_ok_def)
  moreover have "last_span plain_texts [sample_span] (span_key plain_texts (sample_span\<lparr>sp_name := ''get''\<rparr>)) = Some sample_span"
    by (simp add: last_span_def span_key_def)
  ultimately show ?thesis
    using validator_exact [of sample_validator "[[([], [[sample_span]])]]" plain_texts "\<lambda>_. []" "[[([], [[sample_span\<lparr>sp_name := ''get''\<rparr>]])]]"]
    by (simp add: sample_validator_def NewCorrectTestValidator_def)
qed

section \<open>What the validator does not see\<close>

text \<open>A span agrees with itself when its attributes have distinct keys and links with the same identifiers have one state and one set of attributes.\<close>

fun val_wf :: "val \<Rightarrow> bool" where
  "val_wf (VMap ms) = (gomap_ok ms \<and> list_all (\<lambda>(k, v). val_wf v) ms)"
| "val_wf _ = True"

definition attrs_wf :: "attrs \<Rightarrow> bool" where
  "attrs_wf m = (gomap_ok m \<and> list_all (\<lambda>(k, v). val_wf v) m)"

definition span_wf :: "text_lib \<Rightarrow> t_span \<Rightarrow> bool" where
  "span_wf X s \<longleftrightarrow> attrs_wf (sp_attrs s) \<and> (\<forall>e \<in> set (sp_events s). attrs_wf (ev_attrs e)) \<and>
     (\<forall>l \<in> set (sp_links s). attrs_wf (ln_attrs l)) \<and> distinct (map (link_key X) (sp_links s))"

lemma simple_ok_refl: "simple_ok X s s"
  by (simp add: simple_ok_def equal_fold_def)

lemma get_self: "gomap_ok m \<Longrightarrow> (k, v) \<in> set m \<Longrightarrow> attr_get m k = Some v"
  by (simp add: attr_get_def gomap_ok_map_of)

lemma value_ok_refl: "val_wf s \<Longrightarrow> value_ok X s s"
proof (induction s rule: val_wf.induct)
  case (1 ms)
  then have ok: "gomap_ok ms" and IH: "\<And>k v. (k, v) \<in> set ms \<Longrightarrow> value_ok X v v"
    by (auto simp: list_all_iff)
  show ?case by (auto simp: list_all_iff get_self [OF ok] dest: IH)
qed (simp_all add: simple_ok_refl)

lemma attrs_ok_refl: "attrs_wf m \<Longrightarrow> attrs_ok X m m"
  using value_ok_refl [of "VMap m" X] by (simp add: attrs_wf_def attrs_ok_def)

lemma near_refl [simp]: "near t t"
  by (simp add: near_def)

lemma events_ok_refl: "\<forall>e \<in> set es. attrs_wf (ev_attrs e) \<Longrightarrow> events_ok X es es"
  by (auto simp: events_ok_def event_ok_def named_events_def attrs_ok_refl intro!: list.rel_refl_strong)

lemma last_link_distinct:
  "distinct (map (link_key X) ls) \<Longrightarrow> l \<in> set ls \<Longrightarrow> last_link X (link_key X l) ls = Some l"
  by (induction ls rule: rev_induct) (auto simp: last_link_def image_iff)

lemma span_agree_refl: "span_wf X s \<Longrightarrow> span_agree X ignore s s"
  by (cases "sp_links s")
    (auto simp: span_agree_def span_wf_def attrs_ok_refl events_ok_refl links_ok_def link_ok_def list_all_iff equal_fold_def
      last_link_distinct split: option.splits)

lemma map_of_values: "map_of (map (\<lambda>(k, a). (k, g k a)) m) k = map_option (g k) (map_of m k)"
  by (induction m) auto

lemma sint_small: "n < 2 ^ 63 \<Longrightarrow> sint (of_nat n :: 64 word) = int n"
  by (simp add: signed_of_nat signed_take_bit_int_eq_self)

text \<open>Differences between attribute values are not seen: a received span passes whose attributes all hold other values than the
  sent ones, as long as the keys are the same and no sent value is a map.\<close>

lemma changed_values_pass:
  assumes "span_wf X s"
    and "\<forall>(k, a) \<in> set (sp_attrs s). (\<forall>ms. a \<noteq> VMap ms) \<and> \<not> deep_val a (g k a)"
  shows "diffSpan X ns v s (s\<lparr>sp_attrs := map (\<lambda>(k, a). (k, g k a)) (sp_attrs s)\<rparr>) = v"
proof -
  let ?r = "s\<lparr>sp_attrs := map (\<lambda>(k, a). (k, g k a)) (sp_attrs s)\<rparr>"
  have ok: "gomap_ok (sp_attrs s)" using assms(1) by (simp add: span_wf_def attrs_wf_def)
  have get: "attr_get (map (\<lambda>(k, a). (k, g k a)) (sp_attrs s)) k = map_option (g k) (attr_get (sp_attrs s) k)" for k
    by (simp add: attr_get_def map_of_values)
  have "attrs_ok X (sp_attrs s) (sp_attrs ?r)"
    unfolding attrs_ok_def list_all_iff
  proof clarify
    fix k a
    assume a: "(k, a) \<in> set (sp_attrs s)"
    with assms(2) have "simple_ok X a (g k a)" "\<forall>ms. a \<noteq> VMap ms" by (auto simp: simple_ok_def)
    then have "value_ok X a (g k a)" by (cases a) simp_all
    with a show "case attr_get (sp_attrs ?r) k of None \<Rightarrow> False | Some w \<Rightarrow> value_ok X a w"
      by (simp add: get get_self [OF ok])
  qed
  then have "span_agree X (ignoreSpanLinksAttrs v) s ?r"
    using span_agree_refl [OF assms(1), of "ignoreSpanLinksAttrs v"] by (simp add: span_agree_def links_ok_def)
  then show ?thesis using adds_eq [OF adds_span [OF adds_refl]] by simp
qed

lemma changed_values_example:
  "diffSpan plain_texts [] sample_validator sample_span (sample_span\<lparr>sp_attrs := [(''url'', VStr ''wrong'')]\<rparr>) = sample_validator"
  using changed_values_pass [of plain_texts sample_span "\<lambda>_ _. VStr ''wrong''" "[]" sample_validator]
  by (simp add: span_wf_def sample_span_def attrs_wf_def gomap_ok_def)

section \<open>The counters\<close>

lemma sint_diff_wrap: "wrap64 (sint a - sint b) = sint (a - b :: 64 word)"
  by (simp add: wrap64_def sint_word_ariths signed_take_bit_eq_take_bit_shift take_bit_eq_mod)

text \<open>When nothing is being sent and nothing was given up, the counters match.\<close>

lemma counters_match:
  assumes "accounted size_of DataItemsReceived s" "flight s = []" "given_up s = []"
  shows "wrap64 (sint (dataItemsSent (generator s)) - sint (permanentErrors (generator s))) = sint (DataItemsReceived (backend s))"
  using assms by (simp add: accounted_def sint_diff_wrap)

text \<open>The validator does not check that every span arrived: whatever spans of the sent ones were received, even one of them many
  times, the test passes when the counters match.\<close>

theorem lost_spans_pass:
  assumes "\<forall>s \<in> set (concat (map items tds)). span_wf X s"
    and "distinct (map (span_key X) (concat (map items tds)))"
    and "set (concat (map items (ReceivedTraces (tc_backend tc)))) \<subseteq> set (concat (map items tds))"
    and "DroppedTraces (tc_backend tc) = []"
    and "tc_itemsSent tc - tc_permanentErrors tc = DataItemsReceived (tc_backend tc)"
  shows "validateCorrectness X ns (NewCorrectTestValidator sender receiver (GoldenProvider tds)) tc =
    ret (NewCorrectTestValidator sender receiver (GoldenProvider tds), tc)"
proof -
  let ?v = "NewCorrectTestValidator sender receiver (GoldenProvider tds)"
  let ?S = "concat (map items tds)"
  have "last_span X S (span_key X r) = Some r" if "distinct (map (span_key X) S)" "r \<in> set S" for r S
    using that by (induction S rule: rev_induct) (auto simp: last_span_def image_iff)
  then have sp: "span_passes X (ignoreSpanLinksAttrs ?v) (populateSpansMap X [] tds) r" if "r \<in> set ?S" for r
    using that assms(1,2) span_agree_refl by (auto simp: span_passes_def populate_get)
  have all: "list_all (span_passes X (ignoreSpanLinksAttrs ?v) (populateSpansMap X [] tds))
      (concat (map items (ReceivedTraces (tc_backend tc))))"
    unfolding list_all_iff using sp assms(3) by blast
  let ?d = "diffSpans X ns (populateSpansMap X [] tds) 0 ?v (concat (map items (ReceivedTraces (tc_backend tc))))"
  note ex = spans_exact [OF adds_refl [of ?v], of X ns "populateSpansMap X [] tds" 0]
  have "returns ?d" using all conjunct2 [OF ex] by (auto simp: list_all_iff span_passes_def split: option.splits)
  then obtain w where w: "?d = ret w" by (auto simp: returns_iff)
  have "w = ?v" using adds_eq [OF mp [OF conjunct1 [OF ex] w]] all by simp
  with w have "?d = ret ?v" by simp
  moreover have "dataProvider ?v = GoldenProvider tds" "assertionFailures ?v = []" by (simp_all add: NewCorrectTestValidator_def)
  ultimately show ?thesis
    using assms(4,5)
    by (simp add: validateCorrectness_def assertSentRecdTracingDataEqual_def assert_that_def sint_diff_wrap Let_def)
qed

definition sample_case :: "t_gauge nested TestCase" where
  "sample_case = \<lparr>tc_name = ''TestTraces'', tc_failed = False, tc_itemsSent = 2, tc_permanentErrors = 0,
     tc_backend = NewMockBackend\<lparr>ReceivedTraces := [[([], [[sample_span, sample_span]])]], numSpansReceived := 2\<rparr>,
     tc_log_contains = (\<lambda>_. False), tc_consumption = \<lparr>CPUPercentAvg = Fin 0, CPUPercentMax = Fin 0, CPUPercentLimit = Fin 0,
       RAMMiBAvg = 0, RAMMiBMax = 0, RAMMiBLimit = 0\<rparr>, tc_elapsed = 0, tc_errorCause = [], tc_results = []\<rparr>"

theorem lost_spans_pass_witness:
  "\<exists>v. validateCorrectness plain_texts (\<lambda>_. [])
      (NewCorrectTestValidator ''otlp'' ''otlp'' (GoldenProvider [[([], [[sample_span, sample_span\<lparr>sp_id := ''03''\<rparr>]])]]))
      sample_case = ret (v, sample_case)"
  using lost_spans_pass [of "[[([], [[sample_span, sample_span\<lparr>sp_id := ''03''\<rparr>]])]]" plain_texts sample_case "\<lambda>_. []" "''otlp''" "''otlp''"]
  by (simp add: span_wf_def sample_span_def attrs_wf_def gomap_ok_def span_key_def traceIDAndSpanIDToString_def plain_texts_def
      sample_case_def NewMockBackend_def DataItemsReceived_def)

section \<open>The validator of logs and the provider of logs\<close>

text \<open>\<open>n\<close> batches of logs made one after the other.\<close>

fun logRuns ::
  "(nat \<Rightarrow> nat list) \<Rightarrow> (nat \<Rightarrow> int) \<Rightarrow> nat \<Rightarrow> perfTestDataProvider \<Rightarrow> 64 word \<Rightarrow> perfTestDataProvider \<times> 64 word \<times> t_log nested list" where
  "logRuns c now 0 dp sent = (dp, sent, [])"
| "logRuns c now (Suc n) dp sent =
     (let (dp, sent, lds) = logRuns c now n dp sent; (dp, sent, ld, done) = perfLogs (c n) (now n) dp sent
      in (dp, sent, lds @ [ld]))"

lemma counted_items: "x \<in> set (fst (counted item i n sent)) \<Longrightarrow> \<exists>j k. x = item j k"
  by (induction item i n sent rule: counted.induct) (auto simp: Let_def split: prod.splits)

definition from_batch :: "nat \<Rightarrow> t_log \<Rightarrow> bool" where
  "from_batch j r = (attr_get (lg_attrs r) ''batch_index'' = Some (VStr (''batch_'' @ int_str (sint (of_nat j :: 64 word)))) \<and>
     attr_get (lg_attrs r) ''item_index'' \<noteq> None)"

lemma log_runs:
  "logRuns c now n (NewPerfTestDataProvider opts) sent = (dp, sent', lds) \<Longrightarrow>
     options dp = opts \<and> traceIDSequence dp = of_nat n \<and>
     (\<forall>r \<in> set (concat (map items lds)). \<exists>j. 1 \<le> j \<and> j \<le> n \<and> from_batch j r)"
proof (induction n arbitrary: dp sent' lds)
  case 0
  then show ?case by (auto simp: NewPerfTestDataProvider_def)
next
  case (Suc n)
  obtain dp1 sent1 lds1 where 1: "logRuns c now n (NewPerfTestDataProvider opts) sent = (dp1, sent1, lds1)"
    by (metis prod_cases3)
  from Suc.IH [OF 1] have dp1: "options dp1 = opts" "traceIDSequence dp1 = of_nat n"
    and old: "\<forall>r \<in> set (concat (map items lds1)). \<exists>j. 1 \<le> j \<and> j \<le> n \<and> from_batch j r" by auto
  obtain rs sent2 where rs: "counted (perfLog (now n) (of_nat (Suc n))) 0 (nat (ItemsPerBatch opts)) sent1 = (rs, sent2)"
    by (metis surj_pair)
  have "from_batch (Suc n) r" if "r \<in> set rs" for r
  proof -
    have "r \<in> set (fst (counted (perfLog (now n) (of_nat (Suc n))) 0 (nat (ItemsPerBatch opts)) sent1))"
      using that rs by simp
    from counted_items [OF this] obtain j k where "r = perfLog (now n) (of_nat (Suc n)) j k" by blast
    then show ?thesis by (simp add: from_batch_def perfLog_def)
  qed
  moreover have "dp = dp1\<lparr>traceIDSequence := of_nat (Suc n)\<rparr>" "lds = lds1 @ [[(putAll (c n) (Attributes opts) [], [rs])]]"
    using Suc.prems rs by (auto simp: 1 perfLogs_def dp1 Let_def add.commute)
  ultimately show ?case using dp1 old by (fastforce intro: le_SucI)
qed

lemma received_ids:
  "\<forall>r \<in> set rs. \<exists>j. P j \<and> from_batch j r \<Longrightarrow>
     \<exists>ids. idsReceived rs = Inr ids \<and> (\<forall>i \<in> set ids. \<exists>j. P j \<and> fst i = ''batch_'' @ int_str (sint (of_nat j :: 64 word)))"
proof (induction rs)
  case (Cons r rs)
  then obtain ids j where "idsReceived rs = Inr ids"
    "\<forall>i \<in> set ids. \<exists>j. P j \<and> fst i = ''batch_'' @ int_str (sint (of_nat j :: 64 word))" "P j" "from_batch j r"
    by auto
  then show ?case by (auto simp: from_batch_def)
qed simp

text \<open>The validator of logs rejects what it was made for: when a provider for performance tests has generated at least one batch
  of logs, the validator marks every test as failed in which only records of that provider were received, delivered
  faithfully or not, because the provider numbers batches from 1 and the validator expects them from 0.\<close>

theorem log_validator_rejects:
  assumes "logRuns c now n (NewPerfTestDataProvider opts) sent = (dp, sent', lds)"
    and "0 < n" "n < 2 ^ 63" "0 < ItemsPerBatch opts"
    and "set (concat (map items (ReceivedLogs (tc_backend tc)))) \<subseteq> set (concat (map items lds))"
  shows "tc_failed (validateLogs (Some dp) tc)"
proof -
  note dp = log_runs [OF assms(1)]
  have seq: "sint (traceIDSequence dp) = int n" using dp assms(3) by (simp add: sint_small)
  obtain ids where ids: "idsReceived (concat (map items (ReceivedLogs (tc_backend tc)))) = Inr ids"
    "\<forall>i \<in> set ids. \<exists>j. (1 \<le> j \<and> j \<le> n) \<and> fst i = ''batch_'' @ int_str (sint (of_nat j :: 64 word))"
    using received_ids [of "concat (map items (ReceivedLogs (tc_backend tc)))" "\<lambda>j. 1 \<le> j \<and> j \<le> n"] dp assms(5) by blast
  have "(''batch_'' @ nat_str 0, ''item_'' @ nat_str 0) \<in> set (idsSent dp)"
    using dp assms(2-4) by (auto simp: idsSent_def seq image_iff sint_small)
  moreover have "(''batch_'' @ nat_str 0, ''item_'' @ nat_str 0) \<notin> set ids"
  proof
    assume "(''batch_'' @ nat_str 0, ''item_'' @ nat_str 0) \<in> set ids"
    with ids(2) obtain j where "1 \<le> j" "j \<le> n" "nat_str 0 = int_str (sint (of_nat j :: 64 word))" by fastforce
    moreover from this assms(3) have "sint (of_nat j :: 64 word) = int j" by (simp add: sint_small)
    ultimately show False by (simp add: int_str_def)
  qed
  ultimately have "mset (idsSent dp) \<noteq> mset ids" by (metis set_mset_mset)
  then show ?thesis by (simp add: validateLogs_def ids(1) assert_that_def)
qed

theorem log_validator_rejects_witness:
  "\<exists>dp sent ld. logRuns (\<lambda>_. []) (\<lambda>_. 0) 1 (NewPerfTestDataProvider sample_options) 0 = (dp, sent, [ld]) \<and>
     tc_failed (validateLogs (Some dp) (sample_case\<lparr>tc_backend := NewMockBackend\<lparr>ReceivedLogs := [ld]\<rparr>\<rparr>))"
proof -
  obtain dp sent ld where r: "logRuns (\<lambda>_. []) (\<lambda>_. 0) 1 (NewPerfTestDataProvider sample_options) 0 = (dp, sent, [ld])"
    by (simp add: perfLogs_def Let_def case_prod_beta)
  have "tc_failed (validateLogs (Some dp) (sample_case\<lparr>tc_backend := NewMockBackend\<lparr>ReceivedLogs := [ld]\<rparr>\<rparr>))"
    by (rule log_validator_rejects [OF r]) (simp_all add: sample_options_def)
  with r show ?thesis by blast
qed

end
