(* ===== verification/Test_Agent.thy ===== *)
theory Test_Agent
  imports Span_Validator
begin

text \<open>
  The agent under test as a child process whose consumption of resources is watched
  (testbed/testbed/child_process_collector.go, options.go), and the course of a test case
  (testbed/testbed/test_case.go). What the operating system reports about the process, and the clock, are
  arguments of the operations.
\<close>

section \<open>The limits\<close>

record ResourceSpec =
  ExpectedMaxCPU :: "32 word"
  ExpectedMaxRAM :: "32 word"
  ResourceCheckPeriod :: duration
  MaxConsecutiveFailures :: "32 word"

definition isSpecified :: "ResourceSpec option \<Rightarrow> bool" where
  "isSpecified rs = (case rs of None \<Rightarrow> False | Some rs \<Rightarrow> ExpectedMaxCPU rs \<noteq> 0 \<or> ExpectedMaxRAM rs \<noteq> 0)"

definition WithResourceLimits :: "ResourceSpec \<Rightarrow> ResourceSpec \<Rightarrow> ResourceSpec" where
  "WithResourceLimits resourceSpec spec =
     (let spec = (if 0 < ExpectedMaxCPU resourceSpec then spec\<lparr>ExpectedMaxCPU := ExpectedMaxCPU resourceSpec\<rparr> else spec);
          spec = (if 0 < ExpectedMaxRAM resourceSpec then spec\<lparr>ExpectedMaxRAM := ExpectedMaxRAM resourceSpec\<rparr> else spec)
      in if 0 < ResourceCheckPeriod resourceSpec
         then spec\<lparr>ResourceCheckPeriod := ResourceCheckPeriod resourceSpec\<rparr> else spec)"

text \<open>The limits of a new test case: the options in their order, then the default period.\<close>

definition newSpec :: "duration \<Rightarrow> ResourceSpec list \<Rightarrow> ResourceSpec" where
  "newSpec testDuration limits =
     (let spec = foldl (\<lambda>spec l. WithResourceLimits l spec)
            \<lparr>ExpectedMaxCPU = 0, ExpectedMaxRAM = 0, ResourceCheckPeriod = 0, MaxConsecutiveFailures = 0\<rparr> limits
      in spec\<lparr>ResourceCheckPeriod := min testDuration (3 * second)\<rparr>)"

section \<open>The process\<close>

record TimesStat =
  User :: f64
  System :: f64
  Idle :: f64
  Nice :: f64
  Iowait :: f64
  Irq :: f64
  Softirq :: f64
  Steal :: f64
  Guest :: f64
  GuestNice :: f64

definition totalCPU :: "TimesStat \<Rightarrow> f64" where
  "totalCPU c = fadd (fadd (fadd (fadd (fadd (fadd (fadd (fadd (fadd (User c) (System c)) (Idle c)) (Nice c)) (Iowait c))
     (Irq c)) (Softirq c)) (Steal c)) (Guest c)) (GuestNice c)"

record childProcessCollector =
  configFileName :: string
  additionalEnv :: "(string, string) gomap"
  cp_isStarted :: bool
  cp_isStopped :: bool
  resourceSpec :: ResourceSpec
  cp_monitored :: bool
  startTime :: time
  lastElapsedTime :: time
  lastProcessTimes :: TimesStat
  ramMiBCur :: "32 word"
  cpuPercentX1000Cur :: "32 word"
  cpuPercentMax :: f64
  memProbeCount :: int
  ramMiBTotal :: "64 word"
  ramMiBMax :: "32 word"

definition containsConfig :: "string list \<Rightarrow> bool" where
  "containsConfig s = (''--config'' \<in> set s)"

text \<open>The arguments and the environment of the process; \<open>defaultConfig\<close> is the absolute path of the default configuration.\<close>

definition startArgs :: "string \<Rightarrow> string list \<Rightarrow> childProcessCollector \<Rightarrow> childProcessCollector \<times> string list" where
  "startArgs defaultConfig args cp =
     (if containsConfig args then (cp, args)
      else (let cp = (if configFileName cp = [] then cp\<lparr>configFileName := defaultConfig\<rparr> else cp)
            in (cp, args @ [''--config'', configFileName cp])))"

definition startEnv :: "nat list \<Rightarrow> string list \<Rightarrow> childProcessCollector \<Rightarrow> string list" where
  "startEnv ns environ cp =
     (let additionalEnvVars = sort (keys (shuffle ns (additionalEnv cp)))
      in environ @ map (\<lambda>k. k @ ''='' @ (case map_of (additionalEnv cp) k of None \<Rightarrow> [] | Some v \<Rightarrow> v)) additionalEnvVars)"

text \<open>\<open>Stop\<close>: whether the process was stopped, and the error of waiting for it. A second call does nothing.\<close>

definition stopProcess :: "string option \<Rightarrow> childProcessCollector \<Rightarrow> childProcessCollector \<times> bool \<times> string option" where
  "stopProcess waitErr cp =
     (if \<not> cp_isStarted cp \<or> cp_isStopped cp then (cp, False, None)
      else (cp\<lparr>cp_isStopped := True, ramMiBCur := 0, cpuPercentX1000Cur := 0\<rparr>, True, waitErr))"

section \<open>Measuring\<close>

definition mibibyte :: "64 word" where
  "mibibyte = 1024 * 1024"

text \<open>\<open>mi\<close> is the resident size of the process in bytes, \<open>None\<close> for an error.\<close>

definition fetchRAMUsage :: "64 word option \<Rightarrow> childProcessCollector \<Rightarrow> childProcessCollector" where
  "fetchRAMUsage mi cp =
     (case mi of
        None \<Rightarrow> cp
      | Some rss \<Rightarrow>
          (let cur = ucast (rss div mibibyte);
               cp = cp\<lparr>memProbeCount := memProbeCount cp + 1, ramMiBTotal := ramMiBTotal cp + ucast cur\<rparr>;
               cp = (if ramMiBMax cp < cur then cp\<lparr>ramMiBMax := cur\<rparr> else cp)
           in cp\<lparr>ramMiBCur := cur\<rparr>))"

text \<open>\<open>other_u32\<close>: the conversion of a number that does not fit into \<open>uint32\<close>.\<close>

definition to_uint32 :: "(f64 \<Rightarrow> 32 word) \<Rightarrow> f64 \<Rightarrow> 32 word" where
  "to_uint32 other_u32 x =
     (if is_fin x \<and> 0 \<le> trunc_rat (fval x) \<and> trunc_rat (fval x) < 2 ^ 32 then word_of_int (trunc_rat (fval x)) else other_u32 x)"

definition fetchCPUUsage :: "(f64 \<Rightarrow> 32 word) \<Rightarrow> TimesStat option \<Rightarrow> time \<Rightarrow> childProcessCollector \<Rightarrow> childProcessCollector" where
  "fetchCPUUsage other_u32 stat now cp =
     (case stat of
        None \<Rightarrow> cp
      | Some stat \<Rightarrow>
          (let deltaElapsedTime = dur_seconds (time_sub now (lastElapsedTime cp));
               deltaCPUTime = fsub (totalCPU stat) (totalCPU (lastProcessTimes cp));
               deltaCPUTime = (if flt deltaCPUTime (Fin 0) then Fin 0 else deltaCPUTime);
               cp = cp\<lparr>lastProcessTimes := stat, lastElapsedTime := now\<rparr>;
               cpuPercent = fdiv (fmul deltaCPUTime (Fin 100)) deltaElapsedTime;
               cp = (if flt (cpuPercentMax cp) cpuPercent then cp\<lparr>cpuPercentMax := cpuPercent\<rparr> else cp)
           in cp\<lparr>cpuPercentX1000Cur := to_uint32 other_u32 (fmul cpuPercent (Fin 1000))\<rparr>))"

definition word_text :: "32 word \<Rightarrow> string" where
  "word_text w = nat_str (unat w)"

text \<open>The error message, empty for none: a message about memory replaces one about the processor.\<close>

definition usageError :: "childProcessCollector \<Rightarrow> string" where
  "usageError cp =
     (let spec = resourceSpec cp;
          errMsg = (if ExpectedMaxCPU spec \<noteq> 0 \<and> ExpectedMaxCPU spec < cpuPercentX1000Cur cp div 1000
            then ''CPU consumption is '' @ fmt_fixed 1 (fdiv (f64_of_int (uint (cpuPercentX1000Cur cp))) (Fin 1000)) @
                 ''%, max expected is '' @ word_text (ExpectedMaxCPU spec) @ ''%''
            else [])
      in if ExpectedMaxRAM spec \<noteq> 0 \<and> ExpectedMaxRAM spec < ramMiBCur cp
         then ''RAM consumption is '' @ word_text (ramMiBCur cp) @ '' MiB, max expected is '' @
              word_text (ExpectedMaxRAM spec) @ '' MiB''
         else errMsg)"

definition checkAllowedResourceUsage :: "childProcessCollector \<Rightarrow> string option" where
  "checkAllowedResourceUsage cp = (if usageError cp = [] then None else Some (usageError cp))"

section \<open>Watching\<close>

text \<open>A reading of the resident size, the times and the clock.\<close>

record reading =
  rd_rss :: "64 word option"
  rd_times :: "TimesStat option"
  rd_now :: time

definition measure_process :: "(f64 \<Rightarrow> 32 word) \<Rightarrow> reading \<Rightarrow> childProcessCollector \<Rightarrow> childProcessCollector" where
  "measure_process other_u32 r cp = fetchCPUUsage other_u32 (rd_times r) (rd_now r) (fetchRAMUsage (rd_rss r) cp)"

text \<open>
  For at most a minute the process may be above the limits before the watch begins; every reading of the list is
  one made within that minute.
\<close>

fun warmUp :: "(f64 \<Rightarrow> 32 word) \<Rightarrow> reading list \<Rightarrow> childProcessCollector \<Rightarrow> childProcessCollector" where
  "warmUp other_u32 [] cp = cp"
| "warmUp other_u32 (r # rs) cp =
     (let cp = measure_process other_u32 r cp
      in if checkAllowedResourceUsage cp = None then cp else warmUp other_u32 rs cp)"

text \<open>
  The loop of the watch, over the events it receives: a tick with a reading, or the signal that the process is
  stopped. The result is \<open>None\<close> while the watch goes on, and otherwise the error it returned.
\<close>

datatype watch_event = Tick reading | Stopped

fun watchLoop ::
  "(f64 \<Rightarrow> 32 word) \<Rightarrow> string option \<Rightarrow> nat \<Rightarrow> watch_event list \<Rightarrow> childProcessCollector \<Rightarrow> childProcessCollector \<times> string option option" where
  "watchLoop other_u32 waitErr remainingFailures [] cp = (cp, None)"
| "watchLoop other_u32 waitErr remainingFailures (Stopped # evs) cp = (cp, Some None)"
| "watchLoop other_u32 waitErr remainingFailures (Tick r # evs) cp =
     (let cp = measure_process other_u32 r cp
      in case checkAllowedResourceUsage cp of
           None \<Rightarrow> watchLoop other_u32 waitErr remainingFailures evs cp
         | Some err \<Rightarrow>
             (if 0 < remainingFailures then watchLoop other_u32 waitErr (remainingFailures - 1) evs cp
              else (fst (stopProcess waitErr cp), Some (Some err))))"

text \<open>
  \<open>monitor\<close> is the error of opening the monitor, \<open>first\<close> the resident size and the times read before the warm-up.
\<close>

definition WatchResourceConsumption ::
  "(f64 \<Rightarrow> 32 word) \<Rightarrow> string option \<Rightarrow> string option \<Rightarrow> reading \<Rightarrow> reading list \<Rightarrow> watch_event list \<Rightarrow>
     childProcessCollector \<Rightarrow> childProcessCollector \<times> string option option" where
  "WatchResourceConsumption other_u32 waitErr monitor first warm evs cp =
     (if \<not> isSpecified (Some (resourceSpec cp)) then (cp, Some None)
      else case monitor of
        Some err \<Rightarrow> (cp, Some (Some (''cannot monitor process: '' @ err)))
      | None \<Rightarrow>
          (let cp = fetchRAMUsage (rd_rss first) (cp\<lparr>cp_monitored := True\<rparr>);
               cp = cp\<lparr>lastElapsedTime := rd_now first\<rparr>
           in case rd_times first of
                None \<Rightarrow> (cp, Some (Some ''cannot get process times''))
              | Some stat \<Rightarrow>
                  watchLoop other_u32 waitErr (unat (MaxConsecutiveFailures (resourceSpec cp))) evs
                    (warmUp other_u32 warm (cp\<lparr>lastProcessTimes := stat\<rparr>))))"

definition GetTotalConsumption :: "childProcessCollector \<Rightarrow> ResourceConsumption" where
  "GetTotalConsumption cp =
     (let rc = \<lparr>CPUPercentAvg = Fin 0, CPUPercentMax = Fin 0,
            CPUPercentLimit = f64_of_int (uint (ExpectedMaxCPU (resourceSpec cp))),
            RAMMiBAvg = 0, RAMMiBMax = 0, RAMMiBLimit = ExpectedMaxRAM (resourceSpec cp)\<rparr>
      in if \<not> cp_monitored cp then rc
         else (let elapsedDuration = dur_seconds (time_sub (lastElapsedTime cp) (startTime cp));
                   rc = (if flt (Fin 0) elapsedDuration
                         then rc\<lparr>CPUPercentAvg := fmul (fdiv (totalCPU (lastProcessTimes cp)) elapsedDuration) (Fin 100)\<rparr>
                         else rc);
                   rc = rc\<lparr>CPUPercentMax := cpuPercentMax cp\<rparr>;
                   rc = (if 0 < memProbeCount cp
                         then rc\<lparr>RAMMiBAvg := ucast (ramMiBTotal cp div word_of_int (memProbeCount cp))\<rparr> else rc)
               in rc\<lparr>RAMMiBMax := ramMiBMax cp\<rparr>))"

section \<open>The course of a test case\<close>

text \<open>
  The parts of a running test case that its own operations use: whether an error was signalled, which happens
  once, and the components stopped so far, in order.
\<close>

datatype component = LoadGeneratorPart | AgentPart | BackendPart

record 'm running =
  case_of :: "'m TestCase"
  signalled :: bool
  skipResults :: bool
  stopped_parts :: "component list"

definition indicateError :: "string \<Rightarrow> 'm running \<Rightarrow> 'm running" where
  "indicateError err r =
     (if signalled r then r else r\<lparr>signalled := True, case_of := (case_of r)\<lparr>tc_errorCause := err\<rparr>\<rparr>)"

text \<open>Data is validated unless an error was signalled before.\<close>

definition ValidateData :: "('m TestCase \<Rightarrow> 'm TestCase go) \<Rightarrow> 'm running \<Rightarrow> 'm running go" where
  "ValidateData validate r =
     (if signalled r then ret r else andThen (validate (case_of r)) (\<lambda>tc. ret (r\<lparr>case_of := tc\<rparr>)))"

definition StopAgent :: "string option \<Rightarrow> 'm running \<Rightarrow> 'm running" where
  "StopAgent err r =
     (let r = r\<lparr>stopped_parts := stopped_parts r @ [AgentPart]\<rparr>
      in case err of None \<Rightarrow> r | Some e \<Rightarrow> indicateError e r)"

definition StopTest :: "string option \<Rightarrow> ('m TestCase \<Rightarrow> 'm TestCase go) \<Rightarrow> 'm running \<Rightarrow> 'm running go" where
  "StopTest agentErr recordResults r =
     (let r = r\<lparr>stopped_parts := stopped_parts r @ [LoadGeneratorPart]\<rparr>;
          r = StopAgent agentErr r;
          r = r\<lparr>stopped_parts := stopped_parts r @ [BackendPart]\<rparr>
      in if skipResults r then ret r
         else andThen (recordResults (case_of r)) (\<lambda>tc. ret (r\<lparr>case_of := tc\<rparr>)))"

definition AgentMemoryInfo :: "string + 64 word \<times> 64 word \<Rightarrow> string + 32 word \<times> 32 word" where
  "AgentMemoryInfo stat = (case stat of Inl err \<Rightarrow> Inl err
     | Inr (rss, vms) \<Rightarrow> Inr (ucast (rss div mibibyte), ucast (vms div mibibyte)))"

text \<open>
  The loop that waits for a condition: in round \<open>k\<close> the condition is \<open>cond k\<close>, \<open>signal k\<close> says that the error signal
  comes before the interval is over, and \<open>elapsed k\<close> is the time since the start when the round ends. The
  result is the answer, and whether the time is out.
\<close>

definition nextInterval :: "duration \<Rightarrow> duration" where
  "nextInterval w = (if w < 500000000 then w * 2 else w)"

partial_function (option) waitLoop ::
  "(nat \<Rightarrow> bool) \<Rightarrow> (nat \<Rightarrow> bool) \<Rightarrow> (nat \<Rightarrow> duration \<Rightarrow> duration) \<Rightarrow> duration \<Rightarrow> nat \<Rightarrow> duration \<Rightarrow> (bool \<times> bool) option" where
  "waitLoop cond signal elapsed limit k waitInterval =
     (if cond k then Some (True, False)
      else if signal k then Some (False, False)
      else if limit < elapsed k waitInterval then Some (False, True)
      else waitLoop cond signal elapsed limit (Suc k) (nextInterval waitInterval))"

definition WaitForN ::
  "(nat \<Rightarrow> bool) \<Rightarrow> (nat \<Rightarrow> bool) \<Rightarrow> (nat \<Rightarrow> duration \<Rightarrow> duration) \<Rightarrow> duration \<Rightarrow> string \<Rightarrow> 'm running \<Rightarrow> (bool \<times> 'm running) option" where
  "WaitForN cond signal elapsed limit errMsg r =
     (case waitLoop cond signal elapsed limit 0 5000000 of
        None \<Rightarrow> None
      | Some (answer, late) \<Rightarrow>
          Some (answer, if late then indicateError (''Time out waiting for '' @ errMsg) r else r))"

definition WaitFor ::
  "(nat \<Rightarrow> bool) \<Rightarrow> (nat \<Rightarrow> bool) \<Rightarrow> (nat \<Rightarrow> duration \<Rightarrow> duration) \<Rightarrow> string \<Rightarrow> 'm running \<Rightarrow> (bool \<times> 'm running) option" where
  "WaitFor cond signal elapsed errMsg r = WaitForN cond signal elapsed (second * 10) errMsg r"

section \<open>The limits of a test\<close>

text \<open>
  Of the limits a test gives, only those on the processor and on memory are kept: the period of the checks is
  overwritten by the default, and the number of tolerated failures is never copied and stays zero.
\<close>

lemma limits_tolerance: "MaxConsecutiveFailures (foldl (\<lambda>spec l. WithResourceLimits l spec) spec limits) = MaxConsecutiveFailures spec"
  by (induction limits arbitrary: spec) (simp_all add: WithResourceLimits_def Let_def)

lemma tolerance_ignored:
  "ResourceCheckPeriod (newSpec d limits) = min d (3 * second) \<and> MaxConsecutiveFailures (newSpec d limits) = 0"
  by (simp add: newSpec_def Let_def limits_tolerance)

section \<open>The watch\<close>

text \<open>The readings above a limit before the process is stopped.\<close>

fun violations :: "(f64 \<Rightarrow> 32 word) \<Rightarrow> watch_event list \<Rightarrow> childProcessCollector \<Rightarrow> nat" where
  "violations other_u32 [] cp = 0"
| "violations other_u32 (Stopped # evs) cp = 0"
| "violations other_u32 (Tick r # evs) cp =
     (let cp = measure_process other_u32 r cp
      in (if checkAllowedResourceUsage cp = None then 0 else 1) + violations other_u32 evs cp)"

text \<open>C36: The watch returns an error exactly when more readings are above a limit than \<open>MaxConsecutiveFailures\<close>, counted over the
  whole run: readings within the limits in between do not reset the count, although the option is documented as a
  number of consecutive violations.\<close>

theorem watch_counts_all:
  "(\<exists>err. snd (watchLoop oth w n evs cp) = Some (Some err)) \<longleftrightarrow> n < violations oth evs cp"
proof (induction oth w n evs cp rule: watchLoop.induct)
  case (3 oth w n r evs cp)
  let ?cp = "measure_process oth r cp"
  show ?case
  proof (cases "checkAllowedResourceUsage ?cp")
    case None
    with 3(1) [OF refl None] show ?thesis by (simp add: Let_def)
  next
    case (Some err)
    show ?thesis
    proof (cases "0 < n")
      case True
      with 3(2) [OF refl Some True] Some show ?thesis by (simp add: Let_def) arith
    qed (simp add: Some Let_def)
  qed
qed simp_all

lemma watch_ends: "snd (watchLoop oth w n evs cp) = Some None \<Longrightarrow> Stopped \<in> set evs"
  by (induction oth w n evs cp rule: watchLoop.induct) (auto simp: Let_def split: option.splits if_splits)

text \<open>The readings leave the limits as they are, and the percentage of the processor is compared without its fraction.\<close>

lemma measure_spec [simp]: "resourceSpec (measure_process oth r cp) = resourceSpec cp"
  by (simp add: measure_process_def fetchRAMUsage_def fetchCPUUsage_def Let_def split: option.splits)

lemma warm_up_spec [simp]: "resourceSpec (warmUp oth rs cp) = resourceSpec cp"
  by (induction rs arbitrary: cp) (simp_all add: Let_def)

lemma cpu_fraction_ignored:
  assumes "cpuPercentX1000Cur cp div 1000 = ExpectedMaxCPU (resourceSpec cp)" "ramMiBCur cp \<le> ExpectedMaxRAM (resourceSpec cp)"
  shows "checkAllowedResourceUsage cp = None"
  using assms by (simp add: checkAllowedResourceUsage_def usageError_def Let_def not_less)

section \<open>The average of memory\<close>

definition ram_ok :: "nat \<Rightarrow> childProcessCollector \<Rightarrow> bool" where
  "ram_ok n cp \<longleftrightarrow> memProbeCount cp \<ge> 0 \<and> memProbeCount cp \<le> int n \<and>
     unat (ramMiBTotal cp) \<le> nat (memProbeCount cp) * unat (ramMiBMax cp)"

lemma ram_step:
  assumes "ram_ok n cp" "Suc n < 2 ^ 32"
  shows "ram_ok (Suc n) (measure_process oth r cp)"
proof (cases "rd_rss r")
  case None
  then show ?thesis using assms
    by (simp add: ram_ok_def measure_process_def fetchRAMUsage_def fetchCPUUsage_def Let_def split: option.splits)
next
  case (Some rss)
  define cur where "cur = (ucast (rss div mibibyte) :: 32 word)"
  define mx where "mx = (if ramMiBMax cp < cur then cur else ramMiBMax cp)"
  let ?k = "nat (memProbeCount cp)"
  have cur: "unat cur \<le> unat mx" and old: "unat (ramMiBMax cp) \<le> unat mx"
    by (auto simp: mx_def word_less_nat_alt word_le_nat_alt not_less)
  have k: "Suc ?k < 2 ^ 32" using assms by (auto simp: ram_ok_def)
  have sum: "unat (ramMiBTotal cp) + unat cur \<le> Suc ?k * unat mx"
  proof -
    have "unat (ramMiBTotal cp) \<le> ?k * unat mx"
      using assms(1) old by (auto simp: ram_ok_def intro: order_trans mult_left_mono)
    with cur show ?thesis by simp
  qed
  have "unat (ramMiBTotal cp + ucast cur) \<le> unat (ramMiBTotal cp) + unat cur"
  proof -
    have "unat (ucast cur :: 64 word) \<le> unat cur" by (simp add: unsigned_ucast_eq)
    moreover have "unat (ramMiBTotal cp + ucast cur) \<le> unat (ramMiBTotal cp) + unat (ucast cur :: 64 word)"
      by (simp add: unat_word_ariths)
    ultimately show ?thesis by linarith
  qed
  with sum have "unat (ramMiBTotal cp + ucast cur) \<le> Suc ?k * unat mx" by linarith
  moreover have "nat (memProbeCount cp + 1) = Suc ?k" using assms(1) by (auto simp: ram_ok_def)
  ultimately show ?thesis using assms(1) Some
    by (simp add: ram_ok_def measure_process_def fetchRAMUsage_def fetchCPUUsage_def Let_def cur_def [symmetric] mx_def
        split: option.splits if_splits)
qed

lemma ram_fold: "ram_ok n cp \<Longrightarrow> n + length rs < 2 ^ 32 \<Longrightarrow> ram_ok (n + length rs) (fold (measure_process oth) rs cp)"
proof (induction rs arbitrary: n cp)
  case (Cons r rs)
  from Cons.IH [of "Suc n" "measure_process oth r cp"] ram_step [OF Cons.prems(1)] Cons.prems(2) show ?case by simp
qed simp

text \<open>The reported average of the memory never exceeds the reported maximum, for fewer than \<open>2 ^ 32\<close> readings: neither the sum nor
  the conversion of the quotient overflows.\<close>

theorem ram_average_bounded:
  assumes "memProbeCount cp = 0" "ramMiBTotal cp = 0" "length rs < 2 ^ 32"
  shows "RAMMiBAvg (GetTotalConsumption (fold (measure_process oth) rs cp))
    \<le> RAMMiBMax (GetTotalConsumption (fold (measure_process oth) rs cp))"
proof -
  define c where "c = fold (measure_process oth) rs cp"
  have "ram_ok 0 cp" using assms(1,2) by (simp add: ram_ok_def)
  from ram_fold [OF this, of rs oth] assms(3) have ok: "ram_ok (length rs) c" by (simp add: c_def)
  let ?k = "nat (memProbeCount c)"
  have "RAMMiBAvg (GetTotalConsumption c) \<le> RAMMiBMax (GetTotalConsumption c)"
  proof (cases "cp_monitored c \<and> 0 < memProbeCount c")
    case True
    have k: "0 < ?k" "?k < 2 ^ 32" using ok assms(3) True by (auto simp: ram_ok_def)
    have w: "unat (word_of_int (memProbeCount c) :: 64 word) = ?k"
      using k True by (simp add: unat_eq_nat_uint uint_word_of_int)
    have "unat (ramMiBTotal c div word_of_int (memProbeCount c)) = unat (ramMiBTotal c) div ?k"
      by (simp add: unat_div w)
    also have "\<dots> \<le> unat (ramMiBMax c)"
    proof -
      have "unat (ramMiBTotal c) div ?k \<le> (?k * unat (ramMiBMax c)) div ?k"
        using ok by (intro div_le_mono) (simp add: ram_ok_def)
      with k show ?thesis by simp
    qed
    finally have "unat (ramMiBTotal c div word_of_int (memProbeCount c)) \<le> unat (ramMiBMax c)" .
    then have "unat (ucast (ramMiBTotal c div word_of_int (memProbeCount c)) :: 32 word) \<le> unat (ramMiBMax c)"
      unfolding unsigned_ucast_eq by (rule order_trans [OF take_bit_nat_less_eq_self])
    then show ?thesis using True by (simp add: GetTotalConsumption_def Let_def word_le_nat_alt)
  qed (auto simp: GetTotalConsumption_def Let_def)
  then show ?thesis by (simp only: c_def)
qed

definition sample_process :: childProcessCollector where
  "sample_process = \<lparr>configFileName = [], additionalEnv = [], cp_isStarted = True, cp_isStopped = False,
     resourceSpec = newSpec second [], cp_monitored = True, startTime = 0, lastElapsedTime = 0,
     lastProcessTimes = \<lparr>User = Fin 0, System = Fin 0, Idle = Fin 0, Nice = Fin 0, Iowait = Fin 0, Irq = Fin 0,
       Softirq = Fin 0, Steal = Fin 0, Guest = Fin 0, GuestNice = Fin 0\<rparr>,
     ramMiBCur = 0, cpuPercentX1000Cur = 0, cpuPercentMax = Fin 0, memProbeCount = 0, ramMiBTotal = 0, ramMiBMax = 0\<rparr>"

definition sample_readings :: "reading list" where
  "sample_readings = [\<lparr>rd_rss = Some (3 * mibibyte), rd_times = None, rd_now = 1\<rparr>, \<lparr>rd_rss = Some mibibyte, rd_times = None, rd_now = 2\<rparr>]"

theorem ram_average_bounded_witness:
  "length sample_readings = 2 \<and> RAMMiBAvg (GetTotalConsumption (fold (measure_process (\<lambda>_. 0)) sample_readings sample_process))
    \<le> RAMMiBMax (GetTotalConsumption (fold (measure_process (\<lambda>_. 0)) sample_readings sample_process))"
  using ram_average_bounded [of sample_process sample_readings "\<lambda>_. 0"]
  by (simp add: sample_process_def sample_readings_def)

section \<open>Waiting\<close>

text \<open>The intervals double until they reach 640 ms, above the 500 ms of the comment.\<close>

lemma intervals: "map (\<lambda>k. (nextInterval ^^ k) 5000000) [0, 1, 6, 7, 8] = [5000000, 10000000, 320000000, 640000000, 640000000]"
  by (simp add: nextInterval_def eval_nat_numeral)

text \<open>The wait returns once the clock passes the limit.\<close>

lemma wait_returns:
  assumes "\<And>w. limit < elapsed (k + j) w"
  shows "waitLoop cond signal elapsed limit k w \<noteq> None"
  using assms
proof (induction j arbitrary: k w)
  case 0
  then show ?case by (subst waitLoop.simps) auto
next
  case (Suc j)
  have "waitLoop cond signal elapsed limit (Suc k) v \<noteq> None" for v
    using Suc.IH [of "Suc k" v] Suc.prems by simp
  then show ?case by (subst waitLoop.simps) auto
qed

text \<open>The first error is the one that is recorded.\<close>

lemma first_error: "indicateError e (indicateError d r) = indicateError d r"
  by (simp add: indicateError_def)

section \<open>The environment of the process\<close>

text \<open>The environment does not depend on the order in which the map of additional variables is visited.\<close>

lemma env_deterministic: "startEnv ns environ cp = startEnv ms environ cp"
proof -
  have "sort (keys (shuffle ns m)) = sort (keys (shuffle ms m))" for m :: "(string, string) gomap"
    by (rule properties_for_sort) (simp_all add: mset_map [symmetric] del: mset_map, simp add: mset_map)
  then show ?thesis by (simp add: startEnv_def)
qed

end
