(* ===== verification/Use_Case.thy ===== *)
theory Use_Case
  imports Go_Strings
begin

text \<open>
  The use-case extension (\<open>extension/usecaseextension\<close>): its configuration, the source of the
  identifier, and the round tripper that appends the identifier to the \<open>User-Agent\<close> header of a copy of
  the request. Header maps are shared objects, so they live in a memory that maps addresses to header maps
  and a request holds the address of its map.
\<close>

section \<open>Configuration\<close>

datatype use_case_error =
    MissingSource
  | EmptyUseCaseID
  | InvalidUseCaseIDChars string
  | ConfigNotProvided

record use_case_config =
  ucc_id :: "string option"

definition use_case_char :: "char \<Rightarrow> bool" where
  "use_case_char c \<longleftrightarrow>
     in_range (of_char CHR ''a'') (of_char CHR ''z'') c \<or> in_range (of_char CHR ''A'') (of_char CHR ''Z'') c \<or>
     is_digit c \<or> c \<in> set ''/_.-''"

text \<open>The pattern is anchored at both ends and \<open>$\<close> without the flag \<open>m\<close> is the end of the text.\<close>

definition use_case_pattern :: "string \<Rightarrow> bool" where
  "use_case_pattern s \<longleftrightarrow> s \<noteq> [] \<and> list_all use_case_char s"

definition validate_use_case :: "use_case_config \<Rightarrow> use_case_error option" where
  "validate_use_case cfg =
     (case ucc_id cfg of
        None \<Rightarrow> Some MissingSource
      | Some i \<Rightarrow>
          if i = [] then Some EmptyUseCaseID
          else if \<not> use_case_pattern i then Some (InvalidUseCaseIDChars i)
          else None)"

definition default_use_case :: use_case_config where
  "default_use_case = \<lparr>ucc_id = None\<rparr>"

section \<open>The source of the identifier and the extension\<close>

record static_source =
  ss_id :: string

text \<open>The context of the call is ignored; the left injection is an error of the source.\<close>

definition static_get :: "static_source \<Rightarrow> 'c \<Rightarrow> string + string" where
  "static_get ss c = Inr (ss_id ss)"

record use_case_setter =
  ucs_source :: static_source

text \<open>A nil configuration is \<open>None\<close>.\<close>

definition new_use_case_setter :: "use_case_config option \<Rightarrow> use_case_error + use_case_setter" where
  "new_use_case_setter cfg =
     (case cfg of
        None \<Rightarrow> Inl ConfigNotProvided
      | Some c \<Rightarrow>
          (case ucc_id c of
             None \<Rightarrow> Inl MissingSource
           | Some i \<Rightarrow> Inr \<lparr>ucs_source = \<lparr>ss_id = i\<rparr>\<rparr>))"

section \<open>Requests and header maps\<close>

type_synonym http_header = "(string, string list) gomap"

record 'c http_request =
  hr_context :: 'c
  hr_method :: string
  hr_url :: string
  hr_header :: "nat option"

record header_memory =
  hm_next :: nat
  hm_maps :: "nat \<Rightarrow> http_header option"

definition header_at :: "header_memory \<Rightarrow> nat \<Rightarrow> http_header" where
  "header_at m a = (case hm_maps m a of Some h \<Rightarrow> h | None \<Rightarrow> [])"

text \<open>\<open>Request.Clone\<close> copies the header map into a fresh one and keeps a nil map nil.\<close>

definition clone_request :: "'c \<Rightarrow> 'c http_request \<Rightarrow> header_memory \<Rightarrow> 'c http_request \<times> header_memory" where
  "clone_request c r m =
     (case hr_header r of
        None \<Rightarrow> (r\<lparr>hr_context := c\<rparr>, m)
      | Some a \<Rightarrow>
          (r\<lparr>hr_context := c, hr_header := Some (hm_next m)\<rparr>,
           \<lparr>hm_next = Suc (hm_next m), hm_maps = (hm_maps m)(hm_next m \<mapsto> header_at m a)\<rparr>))"

text \<open>\<open>Header.Get\<close> is the first value of a canonical key, empty when the key or the map is missing.\<close>

definition header_get :: "header_memory \<Rightarrow> nat option \<Rightarrow> string \<Rightarrow> string" where
  "header_get m h k =
     (case h of
        None \<Rightarrow> []
      | Some a \<Rightarrow> (case map_of (header_at m a) k of Some (v # _) \<Rightarrow> v | _ \<Rightarrow> []))"

text \<open>\<open>Header.Set\<close> replaces all the values of the key; assigning to a nil map panics.\<close>

definition header_set :: "header_memory \<Rightarrow> nat option \<Rightarrow> string \<Rightarrow> string \<Rightarrow> header_memory go" where
  "header_set m h k v =
     (case h of
        None \<Rightarrow> panic ''assignment to entry in nil map''
      | Some a \<Rightarrow> ret (m\<lparr>hm_maps := (hm_maps m)(a \<mapsto> AList.update k [v] (header_at m a))\<rparr>))"

section \<open>The round tripper\<close>

datatype 'r trip = SourceError string | Forwarded 'r

text \<open>
  The base round tripper is a parameter of the model: whatever it returns for the memory and the request it
  is given is returned.
\<close>

definition with_use_case :: "string \<Rightarrow> string \<Rightarrow> string" where
  "with_use_case ua use = (if ua \<noteq> [] then ua @ '' '' @ use else use)"

definition round_trip :: "(header_memory \<Rightarrow> 'c http_request \<Rightarrow> 'r) \<Rightarrow> ('c \<Rightarrow> string + string)
     \<Rightarrow> header_memory \<Rightarrow> 'c http_request \<Rightarrow> 'r trip go" where
  "round_trip base get m req =
     (let (req2, m2) = clone_request (hr_context req) req m
      in case get (hr_context req) of
           Inl e \<Rightarrow> ret (SourceError e)
         | Inr use \<Rightarrow>
             if use = [] then ret (Forwarded (base m2 req2))
             else andThen (header_set m2 (hr_header req2) ''User-Agent''
                            (with_use_case (header_get m2 (hr_header req2) ''User-Agent'') use))
                    (\<lambda>m3. ret (Forwarded (base m3 req2))))"

text \<open>\<open>RoundTripper\<close> of the extension: its error is always nil.\<close>

definition use_case_round_tripper :: "use_case_setter \<Rightarrow> (header_memory \<Rightarrow> 'c http_request \<Rightarrow> 'r)
     \<Rightarrow> header_memory \<Rightarrow> 'c http_request \<Rightarrow> 'r trip go" where
  "use_case_round_tripper e base = round_trip base (static_get (ucs_source e))"

section \<open>Identifiers and user agents\<close>

lemma validate_accepts:
  "validate_use_case cfg = None \<longleftrightarrow> (\<exists>i. ucc_id cfg = Some i \<and> i \<noteq> [] \<and> list_all use_case_char i)"
  by (auto simp: validate_use_case_def use_case_pattern_def split: option.splits)

lemma validate_errors:
  "validate_use_case default_use_case = Some MissingSource"
  "validate_use_case \<lparr>ucc_id = Some []\<rparr> = Some EmptyUseCaseID"
  "use_case_pattern i = False \<Longrightarrow> i \<noteq> [] \<Longrightarrow> validate_use_case \<lparr>ucc_id = Some i\<rparr> = Some (InvalidUseCaseIDChars i)"
  by (simp_all add: validate_use_case_def default_use_case_def)

lemma use_case_char_graphic: "use_case_char c \<Longrightarrow> graphic c"
  by (auto simp: use_case_char_def graphic_def in_range_def is_digit_def)

lemma not_graphic_space [simp]: "\<not> graphic (CHR '' '')"
  by (simp add: graphic_def)

lemma pattern_no_space: "use_case_pattern s \<Longrightarrow> CHR '' '' \<notin> set s"
  using use_case_char_graphic by (fastforce simp: use_case_pattern_def list_all_iff)

text \<open>The construction of the extension needs less than \<open>Validate\<close>: it accepts any identifier that is set.\<close>

lemma new_use_case_setter_iff:
  "new_use_case_setter cfg = Inr e \<longleftrightarrow> (\<exists>c i. cfg = Some c \<and> ucc_id c = Some i \<and> ss_id (ucs_source e) = i)"
  by (cases e) (auto simp: new_use_case_setter_def static_source.splits split: option.splits)

lemma split_on_append_mid: "split_on c (u @ c # v) = split_on c u @ split_on c v"
proof (induction u)
  case (Cons x u)
  then show ?case by (cases "split_on c u") (auto split: list.splits)
qed simp

lemma split_on_app_last: "c \<notin> set v \<Longrightarrow> last (split_on c (u @ c # v)) = v"
  by (simp add: split_on_append_mid split_on_id)

section \<open>What is forwarded\<close>

text \<open>A source that always knows the identifier; the static source is one.\<close>

locale use_case_source =
  fixes get :: "'c \<Rightarrow> string + string"
    and ident :: string
  assumes get_ident: "get c = Inr ident"
begin

lemma nil_header:
  "ident \<noteq> [] \<Longrightarrow> hr_header req = None \<Longrightarrow>
     round_trip base get m req = panic ''assignment to entry in nil map''"
  by (simp add: round_trip_def clone_request_def get_ident header_set_def)

lemma empty_ident:
  "ident = [] \<Longrightarrow> round_trip base get m req = 
     ret (Forwarded (case clone_request (hr_context req) req m of (req2, m2) \<Rightarrow> base m2 req2))"
  by (simp add: round_trip_def get_ident split: prod.splits)

lemma appended:
  assumes "ident \<noteq> []" "hr_header req = Some a" "hm_maps m a = Some h"
  defines "ua \<equiv> (case map_of h ''User-Agent'' of Some (v # _) \<Rightarrow> v | _ \<Rightarrow> [])"
  shows "round_trip base get m req = ret (Forwarded (base
     \<lparr>hm_next = Suc (hm_next m),
      hm_maps = (hm_maps m)(hm_next m \<mapsto> AList.update ''User-Agent'' [with_use_case ua ident] h)\<rparr>
     (req\<lparr>hr_header := Some (hm_next m)\<rparr>)))"
  using assms
  by (simp add: round_trip_def clone_request_def get_ident header_set_def header_get_def header_at_def)

lemma returns: "hr_header req \<noteq> None \<Longrightarrow> \<exists>r. round_trip base get m req = ret (Forwarded r)"
  by (auto simp: round_trip_def clone_request_def get_ident header_set_def Let_def)

end

interpretation static: use_case_source "static_get ss" "ss_id ss" for ss
  by unfold_locales (simp add: static_get_def)

lemma source_error:
  "get (hr_context req) = Inl e \<Longrightarrow> round_trip base get m req = ret (SourceError e)"
  by (simp add: round_trip_def split: prod.splits)

text \<open>
  Only the first value of the header survives: \<open>Get\<close> reads the first and \<open>Set\<close> replaces them all.
\<close>

lemma later_agents_lost:
  assumes "ss_id (ucs_source e) = i" "i \<noteq> []" "hr_header req = Some a" "hm_maps m a = Some h"
    "map_of h ''User-Agent'' = Some (v # vs)" "v \<noteq> []"
  shows "use_case_round_tripper e (\<lambda>m r. map_of (header_at m (the (hr_header r))) ''User-Agent'') m req =
     ret (Forwarded (Some [v @ '' '' @ i]))"
  using assms
  by (simp add: use_case_round_tripper_def static.appended header_at_def with_use_case_def)



end
