(* ===== verification/Codecov.thy ===== *)
theory Codecov
  imports Go_Path
begin

text \<open>
  The Codecov generator (\<open>cmd/codecovgen/main.go\<close>): the set of module patterns to skip, the identifier of a
  component, the walk over the modules, and the rewriting of the generated section of \<open>.codecov.yml\<close>.
  Parameters: the glob matcher, the parser of \<open>go.mod\<close>, the YAML encoder and the file system.
\<close>

section \<open>Searching and replacing\<close>

lemma has_prefix_app: "length p \<le> length x \<Longrightarrow> has_prefix (x @ v) p = has_prefix x p"
  by (simp add: has_prefix_def)

lemma str_index_least: "s = u @ sub @ v \<Longrightarrow> \<exists>i. i \<le> length u \<and> str_index sub s = Some i"
proof (induction u arbitrary: s)
  case Nil
  then have "has_prefix s sub" by simp
  then show ?case by (cases s) (auto simp: has_prefix_def)
next
  case (Cons c u)
  from Cons.IH [OF refl] obtain i where "i \<le> length u" "str_index sub (u @ sub @ v) = Some i" by blast
  then show ?case using Cons.prems by auto
qed

lemma str_index_local:
  "str_index sub (u @ sub @ v) = Some (length u) \<Longrightarrow> str_index sub (u @ sub @ v') = Some (length u)"
proof (induction u)
  case Nil
  then show ?case using str_index_least [of "sub @ v'" "[]" sub v'] by simp
next
  case (Cons c u)
  have "has_prefix ((c # u @ sub) @ v) sub = has_prefix ((c # u @ sub) @ v') sub"
    by (subst (1 2) has_prefix_app) simp_all
  with Cons show ?case by (auto split: if_splits)
qed

lemma str_index_None: "str_index sub s = None \<Longrightarrow> s \<noteq> u @ sub @ v"
  using str_index_least by fastforce

text \<open>
  \<open>bytes.ReplaceAll\<close>: all the occurrences that do not overlap, from the left. The pattern is not empty
  where the code calls it.
\<close>

function replace_all :: "string \<Rightarrow> string \<Rightarrow> string \<Rightarrow> string" where
  "replace_all old new s =
     (if old = [] then s
      else case str_index old s of
             None \<Rightarrow> s
           | Some i \<Rightarrow> take i s @ new @ replace_all old new (drop (i + length old) s))"
  by pat_completeness auto
termination
  by (relation "measure (\<lambda>(_, _, s). length s)") (auto dest!: str_index_bound intro: diff_less)

declare replace_all.simps [simp del]

section \<open>Sets in comma-separated form\<close>

text \<open>A set is a Go map to empty structs: the list of its distinct keys.\<close>

definition marshal_set :: "nat list \<Rightarrow> string list \<Rightarrow> string" where
  "marshal_set ns c = join '','' (shuffle ns c)"

text \<open>An empty key ends the loop; what was read before it stays in the receiver.\<close>

fun unmarshal_keys :: "string list \<Rightarrow> string list \<Rightarrow> string list \<times> string option" where
  "unmarshal_keys [] c = (c, None)"
| "unmarshal_keys (k # ks) c =
     (let k' = trim_space k
      in if k' = [] then (c, Some ''empty key in comma-separated list'')
         else unmarshal_keys ks (List.insert k' c))"

definition unmarshal_set :: "string \<Rightarrow> string list \<times> string option" where
  "unmarshal_set text = unmarshal_keys (split_on (CHR '','') text) []"

lemma unmarshal_keys_ok:
  "unmarshal_keys ks c = (c', None) \<Longrightarrow>
     set c' = set c \<union> trim_space ` set ks \<and> (\<forall>k\<in>set ks. trim_space k \<noteq> []) \<and> (distinct c \<longrightarrow> distinct c')"
  by (induction ks arbitrary: c) (auto simp: Let_def split: if_splits)

lemma unmarshal_keys_total:
  "(\<forall>k\<in>set ks. trim_space k \<noteq> []) \<Longrightarrow> \<exists>c'. unmarshal_keys ks c = (c', None)"
  by (induction ks arbitrary: c) (auto simp: Let_def)

text \<open>The text of the empty set is rejected.\<close>

lemma empty_set_rejected: "unmarshal_set (marshal_set ns []) = ([], Some ''empty key in comma-separated list'')"
  by (simp add: marshal_set_def unmarshal_set_def trim_space_def)

text \<open>White space is stripped once: stripping again changes nothing.\<close>

lemma strip_one_shorter:
  assumes "[] \<notin> set rs" "strip_one rs s = Some t"
  shows "length t < length s"
proof -
  from assms(2) obtain r where r: "List.find (has_prefix s) rs = Some r" "t = drop (length r) s"
    by (auto simp: strip_one_def split: option.splits)
  then have "has_prefix s r" "r \<in> set rs" by (auto simp: find_Some_iff)
  with assms(1) r(2) show ?thesis by (auto simp: has_prefix_iff)
qed

lemma strip_all_done:
  "[] \<notin> set rs \<Longrightarrow> length s \<le> n \<Longrightarrow> strip_one rs (strip_all n rs s) = None"
proof (induction n rs s rule: strip_all.induct)
  case (1 rs s)
  then show ?case by (cases "strip_one rs s") (auto dest: strip_one_shorter)
next
  case (2 n rs s)
  show ?case
  proof (cases "strip_one rs s")
    case (Some t)
    with strip_one_shorter [OF 2(2) Some] 2 show ?thesis by simp
  qed simp
qed

lemma strip_one_prefix_closed: "strip_one rs (s @ t) = None \<Longrightarrow> strip_one rs s = None"
  by (auto simp: strip_one_def find_None_iff has_prefix_iff split: option.splits)

lemma strip_all_stop: "strip_one rs s = None \<Longrightarrow> strip_all n rs s = s"
  by (cases n) auto

lemma trim_space_idem [simp]: "trim_space (trim_space s) = trim_space s"
proof -
  have ne: "[] \<notin> set space_runes" "[] \<notin> set (map rev space_runes)" by (auto dest: space_runes_ends)
  let ?l = "strip_all (length s) space_runes s"
  let ?r = "strip_all (length ?l) (map rev space_runes) (rev ?l)"
  have t: "trim_space s = rev ?r" by (simp add: trim_space_def Let_def)
  obtain v where "rev ?l = v @ ?r" using strip_all_suffix by blast
  then have "?l = rev ?r @ rev v" by (metis rev_append rev_rev_ident)
  moreover have "strip_one space_runes ?l = None" by (rule strip_all_done [OF ne(1)]) simp
  ultimately have l: "strip_one space_runes (rev ?r) = None" by (metis strip_one_prefix_closed)
  have r: "strip_one (map rev space_runes) ?r = None" by (rule strip_all_done [OF ne(2)]) simp
  show ?thesis unfolding t
    by (simp add: trim_space_def Let_def strip_all_stop [OF l] strip_all_stop [OF r])
qed

lemma trim_space_subset: "set (trim_space s) \<subseteq> set s"
  using trim_space_infix [of s] by (metis Un_iff set_append subsetI)

text \<open>A set of patterns that was read from a text is written as a text from which the same set is
  read, whatever order the map is ranged over in: the keys have no comma, no space around them
  and are not empty.\<close>

theorem comma_set_roundtrip:
  assumes "unmarshal_set text = (c, None)"
  shows "\<exists>c'. unmarshal_set (marshal_set ns c) = (c', None) \<and> set c' = set c \<and> distinct c'"
proof -
  from unmarshal_keys_ok [OF assms [unfolded unmarshal_set_def]]
  have c: "set c = trim_space ` set (split_on (CHR '','') text)"
    and ne: "\<forall>k\<in>set (split_on (CHR '','') text). trim_space k \<noteq> []" by simp_all
  have keys: "CHR '','' \<notin> set k \<and> trim_space k = k \<and> k \<noteq> []" if "k \<in> set c" for k
  proof -
    from that c obtain p where p: "p \<in> set (split_on (CHR '','') text)" "k = trim_space p" by auto
    with ne split_on_no_sep trim_space_subset show ?thesis by fastforce
  qed
  have "c \<noteq> []" using c by (metis image_is_empty set_empty split_on_ne)
  then have "shuffle ns c \<noteq> []" by (metis length_0_conv length_shuffle)
  then have split: "split_on (CHR '','') (marshal_set ns c) = shuffle ns c"
    unfolding marshal_set_def using keys by (intro split_on_join) auto
  obtain c' where c': "unmarshal_keys (shuffle ns c) [] = (c', None)"
    using unmarshal_keys_total [of "shuffle ns c"] keys by auto
  moreover from unmarshal_keys_ok [OF c'] have "set c' = set c" "distinct c'" using keys by force+
  ultimately show ?thesis by (simp add: unmarshal_set_def split)
qed

lemma comma_set_roundtrip_witness:
  "\<exists>c'. unmarshal_set (marshal_set [1] [''b'', ''a'']) = (c', None) \<and> set c' = set [''b'', ''a''] \<and> distinct c'"
proof (rule comma_set_roundtrip)
  have "trim_space ''a'' = ''a''" "trim_space ''b'' = ''b''" by (simp_all add: trim_graphic graphic_def)
  then show "unmarshal_set ''a,b'' = ([''b'', ''a''], None)" by (simp add: unmarshal_set_def)
qed

section \<open>The identifier of a component\<close>

datatype codecov_error =
    BasePrefixRequired
  | DirRequired
  | InvalidGlob string
  | InvalidComponentID string
  | WalkError string
  | ModUnreadable string string
  | ModUnparsable string string
  | NoModuleName string
  | NoRelativePath string string
  | MarshalFailed string
  | ConfigUnreadable string
  | NoMarkers
  | WriteFailed string

record cli_args =
  ca_base_prefix :: string
  ca_dir :: string
  ca_skipped_modules :: "string list"

text \<open>What follows the parsing of the command line, with the validity of glob patterns as a parameter.\<close>

definition setup_cli :: "(string \<Rightarrow> bool) \<Rightarrow> nat list \<Rightarrow> cli_args \<Rightarrow> cli_args \<times> codecov_error option" where
  "setup_cli valid_glob ns cli =
     (cli,
      if ca_base_prefix cli = [] then Some BasePrefixRequired
      else if ca_dir cli = [] then Some DirRequired
      else map_option InvalidGlob
             (List.find (\<lambda>p. \<not> valid_glob p) (shuffle ns (ca_skipped_modules cli))))"

definition word_char :: "char \<Rightarrow> bool" where
  "word_char c \<longleftrightarrow>
     is_digit c \<or> in_range (of_char CHR ''A'') (of_char CHR ''Z'') c \<or>
     in_range (of_char CHR ''a'') (of_char CHR ''z'') c \<or> c = CHR ''_''"

definition valid_flag :: "string \<Rightarrow> bool" where
  "valid_flag s \<longleftrightarrow>
     1 \<le> length s \<and> length s \<le> 45 \<and> list_all (\<lambda>c. word_char c \<or> c = CHR ''.'' \<or> c = CHR ''-'') s"

definition default_suffix_list :: "string list" where
  "default_suffix_list =
     [''receiver'', ''exporter'', ''extension'', ''processor'', ''connector'', ''scraper'']"

definition relative_module :: "cli_args \<Rightarrow> string \<Rightarrow> string" where
  "relative_module cli m = replace1 m (ca_base_prefix cli @ ''/'') []"

definition generate_component_id :: "string \<Rightarrow> cli_args \<Rightarrow> codecov_error + string" where
  "generate_component_id m cli =
     (let short = foldl trim_suffix (relative_module cli m) default_suffix_list;
          i = map (\<lambda>c. if c = CHR ''/'' then CHR ''_'' else c) short
      in if valid_flag i then Inr i else Inl (InvalidComponentID i))"

lemma component_id_chars:
  "generate_component_id m cli = Inr i \<Longrightarrow> valid_flag i \<and> CHR ''/'' \<notin> set i"
  by (auto simp: generate_component_id_def Let_def split: if_splits)

lemma word_char_simps [simp]: "word_char (CHR ''_'')"
  by (simp add: word_char_def)

lemma component_id_of:
  assumes "ca_base_prefix cli = b" "list_all (\<lambda>s. \<not> has_suffix r s) default_suffix_list" "valid_flag r"
  shows "generate_component_id (b @ CHR ''/'' # r) cli = Inr r"
proof -
  have none: "CHR ''/'' \<notin> set r"
    using assms(3) by (auto simp: valid_flag_def list_all_iff word_char_def is_digit_def in_range_def)
  have "str_index (b @ ''/'') (b @ CHR ''/'' # r) = Some 0"
    using str_index_least [of "b @ CHR ''/'' # r" "[]" "b @ ''/''" r] by simp
  then have "relative_module cli (b @ CHR ''/'' # r) = r"
    by (simp add: relative_module_def replace1_def assms(1))
  moreover have "foldl trim_suffix r ss = r" if "list_all (\<lambda>s. \<not> has_suffix r s) ss" for ss
    using that by (induction ss) (simp_all add: trim_suffix_def)
  moreover have "map (\<lambda>c. if c = CHR ''/'' then CHR ''_'' else c) r = r"
    using none by (auto intro!: map_idI)
  ultimately show ?thesis using assms by (simp add: generate_component_id_def)
qed

text \<open>Distinct modules may get one identifier: a slash and an underscore are not told apart.\<close>

lemma component_ids_collide:
  "generate_component_id ''g/a/b'' \<lparr>ca_base_prefix = ''g'', ca_dir = ''.'', ca_skipped_modules = []\<rparr> = Inr ''a_b''"
  "generate_component_id ''g/a_b'' \<lparr>ca_base_prefix = ''g'', ca_dir = ''.'', ca_skipped_modules = []\<rparr> = Inr ''a_b''"
  by code_simp+

text \<open>The base prefix is removed where it occurs first, which need not be the start of the path.\<close>

lemma prefix_removed_inside:
  "relative_module \<lparr>ca_base_prefix = ''org'', ca_dir = ''.'', ca_skipped_modules = []\<rparr> ''h/org/a'' = ''h/a''"
  by code_simp

section \<open>The walk over the modules\<close>

text \<open>
  \<open>filepath.Rel\<close> for Unix on cleaned paths: the common leading components are dropped, and the base's
  other ones become \<open>..\<close>.
\<close>

definition path_parts :: "string \<Rightarrow> string list" where
  "path_parts p = (if p = [] \<or> p = ''.'' then [] else if p = ''/'' then [[]] else split_on (CHR ''/'') p)"

fun rel_parts :: "string list \<Rightarrow> string list \<Rightarrow> string option" where
  "rel_parts (b # bs) (t # ts) =
     (if b = t then rel_parts bs ts
      else if b = ''..'' then None
      else Some (join ''/'' (replicate (Suc (length bs)) ''..'' @ t # ts)))"
| "rel_parts bs ts = Some (join ''/'' (replicate (length bs) ''..'' @ ts))"

lemma rel_parts_below [simp]: "rel_parts bs (bs @ ts) = Some (join ''/'' ts)"
  by (induction bs) (cases ts; simp)+

definition unix_rel :: "string \<Rightarrow> string \<Rightarrow> codecov_error + string" where
  "unix_rel base targ =
     (let b = unix_clean base; t = unix_clean targ
      in if t = b then Inr ''.''
         else if unix_is_abs b \<noteq> unix_is_abs t then Inl (NoRelativePath targ base)
         else case rel_parts (path_parts b) (path_parts t) of
                None \<Rightarrow> Inl (NoRelativePath targ base)
              | Some r \<Rightarrow> Inr r)"

record codecov_component =
  cc_component_id :: string
  cc_name :: string
  cc_paths :: "string list"

text \<open>
  What the walk sees of the world. \<open>cw_visits\<close> is what \<open>filepath.WalkDir\<close> passes to its callback, in
  order: a path with an error, or with whether it is a directory. \<open>cw_no_mod\<close> tells that \<open>os.Stat\<close> of a
  path fails with \<open>ErrNotExist\<close>; \<open>cw_parse_mod\<close> is the parser of \<open>go.mod\<close>, \<open>None\<close> for no module
  line; \<open>cw_match\<close> is \<open>doublestar.MatchUnvalidated\<close>.
\<close>

record codecov_world =
  cw_visits :: "(string \<times> (string + bool)) list"
  cw_no_mod :: "string \<Rightarrow> bool"
  cw_read :: "string \<Rightarrow> string + string"
  cw_parse_mod :: "string \<Rightarrow> string + string option"
  cw_match :: "string \<Rightarrow> string \<Rightarrow> bool"

definition read_module_name :: "codecov_world \<Rightarrow> string \<Rightarrow> codecov_error + string" where
  "read_module_name W p =
     (case cw_read W p of
        Inl e \<Rightarrow> Inl (ModUnreadable p e)
      | Inr d \<Rightarrow>
          (case cw_parse_mod W d of
             Inl e \<Rightarrow> Inl (ModUnparsable p e)
           | Inr None \<Rightarrow> Inl (NoModuleName p)
           | Inr (Some m) \<Rightarrow> if m = [] then Inl (NoModuleName p) else Inr m))"

text \<open>
  The callback appends to the components and to the printed names of skipped modules. The patterns are
  ranged over in any order until one matches.
\<close>

definition visit_module :: "codecov_world \<Rightarrow> cli_args \<Rightarrow> string \<times> (string + bool)
     \<Rightarrow> codecov_component list \<times> string list \<Rightarrow> codecov_error + codecov_component list \<times> string list" where
  "visit_module W cli v st =
     (case v of
        (p, Inl e) \<Rightarrow> Inl (WalkError e)
      | (p, Inr is_dir) \<Rightarrow>
          if \<not> is_dir \<or> p = ca_dir cli then Inr st
          else if cw_no_mod W (unix_join [p, ''go.mod'']) then Inr st
          else case read_module_name W (unix_join [p, ''go.mod'']) of
                 Inl e \<Rightarrow> Inl e
               | Inr m \<Rightarrow>
                   (let rel = relative_module cli m
                    in if list_ex (\<lambda>q. cw_match W q rel) (ca_skipped_modules cli)
                       then Inr (fst st, snd st @ [rel])
                       else case unix_rel (ca_dir cli) p of
                              Inl e \<Rightarrow> Inl e
                            | Inr r \<Rightarrow>
                                (case generate_component_id m cli of
                                   Inl e \<Rightarrow> Inl e
                                 | Inr i \<Rightarrow>
                                     Inr (fst st @ [\<lparr>cc_component_id = i, cc_name = i, cc_paths = [r @ ''/**'']\<rparr>],
                                          snd st))))"

fun walk_modules :: "codecov_world \<Rightarrow> cli_args \<Rightarrow> (string \<times> (string + bool)) list
     \<Rightarrow> codecov_component list \<times> string list \<Rightarrow> codecov_error + codecov_component list \<times> string list" where
  "walk_modules W cli [] st = Inr st"
| "walk_modules W cli (v # vs) st =
     (case visit_module W cli v st of Inl e \<Rightarrow> Inl e | Inr st' \<Rightarrow> walk_modules W cli vs st')"

definition walk_tree :: "codecov_world \<Rightarrow> cli_args \<Rightarrow> codecov_error + codecov_component list \<times> string list" where
  "walk_tree W cli = walk_modules W cli (cw_visits W) ([], [])"

text \<open>What a directory contributes when the walk succeeds.\<close>

definition listed_module :: "codecov_world \<Rightarrow> cli_args \<Rightarrow> string \<Rightarrow> string \<Rightarrow> bool" where
  "listed_module W cli p m \<longleftrightarrow>
     p \<noteq> ca_dir cli \<and> \<not> cw_no_mod W (unix_join [p, ''go.mod'']) \<and>
     read_module_name W (unix_join [p, ''go.mod'']) = Inr m \<and>
     \<not> list_ex (\<lambda>q. cw_match W q (relative_module cli m)) (ca_skipped_modules cli)"

lemma visit_listed:
  assumes "listed_module W cli p m" "visit_module W cli (p, Inr True) st = Inr st'"
  obtains r i where "unix_rel (ca_dir cli) p = Inr r" "generate_component_id m cli = Inr i"
    "st' = (fst st @ [\<lparr>cc_component_id = i, cc_name = i, cc_paths = [r @ ''/**'']\<rparr>], snd st)"
  using assms by (auto simp: visit_module_def listed_module_def Let_def split: sum.splits)

lemma visit_other:
  assumes "visit_module W cli v st = Inr st'" "\<And>p m. v = (p, Inr True) \<Longrightarrow> \<not> listed_module W cli p m"
  shows "fst st' = fst st"
  using assms
  by (fastforce simp: visit_module_def listed_module_def Let_def split: prod.splits sum.splits if_splits)

lemma walk_modules_spec:
  assumes "walk_modules W cli vs st = Inr st'"
  shows "\<exists>cs. fst st' = fst st @ cs \<and>
     (\<forall>c. c \<in> set cs \<longleftrightarrow> (\<exists>p m r i. (p, Inr True) \<in> set vs \<and> listed_module W cli p m \<and>
        unix_rel (ca_dir cli) p = Inr r \<and> generate_component_id m cli = Inr i \<and>
        c = \<lparr>cc_component_id = i, cc_name = i, cc_paths = [r @ ''/**'']\<rparr>))"
  using assms
proof (induction vs arbitrary: st)
  case (Cons v vs)
  then obtain st1 where v: "visit_module W cli v st = Inr st1" and "walk_modules W cli vs st1 = Inr st'"
    by (auto split: sum.splits)
  from Cons.IH [OF this(2)] obtain cs where cs: "fst st' = fst st1 @ cs" and
    mem: "\<And>c. c \<in> set cs \<longleftrightarrow> (\<exists>p m r i. (p, Inr True) \<in> set vs \<and> listed_module W cli p m \<and>
        unix_rel (ca_dir cli) p = Inr r \<and> generate_component_id m cli = Inr i \<and>
        c = \<lparr>cc_component_id = i, cc_name = i, cc_paths = [r @ ''/**'']\<rparr>)"
    by blast
  show ?case
  proof (cases "\<exists>p m. v = (p, Inr True) \<and> listed_module W cli p m")
    case True
    then obtain p m where pm: "v = (p, Inr True)" "listed_module W cli p m" by blast
    obtain r i where ri: "unix_rel (ca_dir cli) p = Inr r" "generate_component_id m cli = Inr i"
      "st1 = (fst st @ [\<lparr>cc_component_id = i, cc_name = i, cc_paths = [r @ ''/**'']\<rparr>], snd st)"
      using visit_listed [OF pm(2) v [unfolded pm(1)]] by blast
    have uniq: "m' = m" if "listed_module W cli p m'" for m'
      using that pm(2) by (simp add: listed_module_def)
    show ?thesis
      by (rule exI [of _ "\<lparr>cc_component_id = i, cc_name = i, cc_paths = [r @ ''/**'']\<rparr> # cs"])
        (use pm ri in \<open>auto simp: cs mem dest: uniq\<close>)
  next
    case False
    then have "fst st1 = fst st" by (intro visit_other [OF v]) blast
    with False show ?thesis by (intro exI [of _ cs]) (auto simp: cs mem)
  qed
qed (simp add: exI [of _ "[]"])

text \<open>
  The result lists exactly the directories with a \<open>go.mod\<close> that is not skipped, with identifiers that
  Codecov accepts.
\<close>

lemma walk_tree_components:
  assumes "walk_tree W cli = Inr (cs, printed)"
  shows "c \<in> set cs \<longleftrightarrow> (\<exists>p m r i. (p, Inr True) \<in> set (cw_visits W) \<and> listed_module W cli p m \<and>
        unix_rel (ca_dir cli) p = Inr r \<and> generate_component_id m cli = Inr i \<and>
        c = \<lparr>cc_component_id = i, cc_name = i, cc_paths = [r @ ''/**'']\<rparr>)"
  using walk_modules_spec [OF assms [unfolded walk_tree_def]] by auto

lemma walk_tree_valid:
  "walk_tree W cli = Inr (cs, printed) \<Longrightarrow> c \<in> set cs \<Longrightarrow>
     valid_flag (cc_component_id c) \<and> CHR ''/'' \<notin> set (cc_component_id c) \<and> cc_name c = cc_component_id c"
  using walk_tree_components [of W cli cs printed c] component_id_chars by force

section \<open>The generated section of the file\<close>

definition start_component_list :: string where
  "start_component_list = ''# Start autogenerated components list''"

definition end_component_list :: string where
  "end_component_list = ''# End autogenerated components list''"

lemma start_not_empty [simp]: "start_component_list \<noteq> []"
  by (simp add: start_component_list_def)

text \<open>
  \<open>matchComponentSection\<close>: the leftmost start marker, then greedily up to the last end marker after it,
  newlines included. The match is given by its offset and the text.
\<close>

definition match_component_section :: "string \<Rightarrow> string option" where
  "match_component_section s =
     (case str_index start_component_list s of
        None \<Rightarrow> None
      | Some i \<Rightarrow>
          (let rest = drop (i + length start_component_list) s
           in case str_index (rev end_component_list) (rev rest) of
                None \<Rightarrow> None
              | Some k \<Rightarrow> Some (start_component_list @ take (length rest - k) rest)))"

text \<open>
  The file is its contents or the error of reading it. \<open>write\<close> is \<open>os.WriteFile\<close>: the error, if any, and
  the contents it leaves.
\<close>

definition add_component_list :: "(codecov_component list \<Rightarrow> string + string) \<Rightarrow> (string \<Rightarrow> string option \<times> (string + string))
     \<Rightarrow> codecov_component list \<Rightarrow> string + string \<Rightarrow> codecov_error option \<times> (string + string)" where
  "add_component_list encode write config file =
     (case encode config of
        Inl e \<Rightarrow> (Some (MarshalFailed e), file)
      | Inr buf \<Rightarrow>
          (let replacement = start_component_list @ [CHR 0x0A] @ buf @ end_component_list
           in case file of
                Inl e \<Rightarrow> (Some (ConfigUnreadable e), file)
              | Inr cfg \<Rightarrow>
                  (case match_component_section cfg of
                     None \<Rightarrow> (Some NoMarkers, file)
                   | Some old \<Rightarrow>
                       (case write (replace_all old replacement cfg) of
                          (Some e, left) \<Rightarrow> (Some (WriteFailed e), left)
                        | (None, left) \<Rightarrow> (None, left)))))"

text \<open>The command: what it prints as its error, and the file. Its exit status is 0 in every case.\<close>

definition codecovgen :: "(string \<Rightarrow> bool) \<Rightarrow> nat list \<Rightarrow> codecov_world \<Rightarrow> (codecov_component list \<Rightarrow> string + string)
     \<Rightarrow> (string \<Rightarrow> string option \<times> (string + string)) \<Rightarrow> cli_args \<Rightarrow> string + string
     \<Rightarrow> codecov_error option \<times> (string + string)" where
  "codecovgen valid_glob ns W encode write cli file =
     (case setup_cli valid_glob ns cli of
        (args, Some e) \<Rightarrow> (Some e, file)
      | (args, None) \<Rightarrow>
          (case walk_tree W args of
             Inl e \<Rightarrow> (Some e, file)
           | Inr (config, _) \<Rightarrow> add_component_list encode write config file))"

text \<open>A text divided at its section: no start marker begins before it and no end marker ends after it.\<close>

definition sectioned :: "string \<Rightarrow> string \<Rightarrow> string \<Rightarrow> bool" where
  "sectioned p m q \<longleftrightarrow>
     str_index start_component_list (p @ start_component_list) = Some (length p) \<and>
     str_index (rev end_component_list) (rev q @ rev end_component_list) = Some (length q)"

abbreviation section_text :: "string \<Rightarrow> string" where
  "section_text m \<equiv> start_component_list @ m @ end_component_list"

lemma sectioned_any: "sectioned p m q \<Longrightarrow> sectioned p m' q"
  by (simp add: sectioned_def)

lemma match_sectioned:
  assumes "sectioned p m q"
  shows "match_component_section (p @ section_text m @ q) = Some (section_text m)"
proof -
  have "str_index start_component_list (p @ start_component_list @ m @ end_component_list @ q) = Some (length p)"
    using assms str_index_local [where v = "[]"] by (simp add: sectioned_def)
  moreover have "str_index (rev end_component_list) (rev q @ rev end_component_list @ rev m) = Some (length q)"
    using assms str_index_local [of "rev end_component_list" "rev q" "[]"] by (simp add: sectioned_def)
  ultimately show ?thesis by (simp add: match_component_section_def)
qed

lemma sectioned_match:
  assumes "match_component_section s = Some old"
  obtains p m q where "s = p @ section_text m @ q" "sectioned p m q" "old = section_text m"
proof -
  obtain i where i: "str_index start_component_list s = Some i"
    using assms by (auto simp: match_component_section_def split: option.splits)
  then obtain p v where s: "s = p @ start_component_list @ v" and p: "length p = i"
    using str_index_Some by blast
  obtain k where k: "str_index (rev end_component_list) (rev v) = Some k"
    and old: "old = start_component_list @ take (length v - k) v"
    using assms i s p by (auto simp: match_component_section_def Let_def split: option.splits)
  then obtain a b where ab: "rev v = a @ rev end_component_list @ b" "length a = k"
    using str_index_Some by blast
  then have "rev (rev v) = rev (a @ rev end_component_list @ b)" by simp
  then have v: "v = rev b @ end_component_list @ rev a" by simp
  have "str_index start_component_list (p @ start_component_list) = Some (length p)"
    using i s p str_index_local [of start_component_list p v "[]"] by simp
  moreover have "str_index (rev end_component_list) (a @ rev end_component_list) = Some (length a)"
    using k ab str_index_local [of "rev end_component_list" a b "[]"] by simp
  ultimately have "sectioned p (rev b) (rev a)" by (simp add: sectioned_def)
  moreover have "old = section_text (rev b)" using old v ab(2) by simp
  ultimately show thesis using that s v by simp
qed

text \<open>The section occurs once, so that replacing all its occurrences replaces that one.\<close>

lemma replace_sectioned:
  assumes "sectioned p m q"
  shows "replace_all (section_text m) new (p @ section_text m @ q) = p @ new @ q"
proof -
  let ?s = "p @ section_text m @ q"
  from str_index_least [of ?s p "section_text m" q]
  obtain i where i: "i \<le> length p" "str_index (section_text m) ?s = Some i" by auto
  from str_index_Some [OF i(2)] obtain u v where uv: "?s = u @ section_text m @ v" "length u = i" by blast
  have "str_index start_component_list ?s = Some (length p)"
    using assms str_index_local [where v = "[]"] by (simp add: sectioned_def)
  with str_index_least [of ?s u start_component_list "m @ end_component_list @ v"] uv have "length p \<le> i" by simp
  with i have first: "str_index (section_text m) ?s = Some (length p)" by simp
  have "str_index (section_text m) q = None"
  proof (rule ccontr)
    assume "str_index (section_text m) q \<noteq> None"
    then obtain a b where "q = a @ section_text m @ b" by (auto dest: str_index_Some)
    then have "\<exists>j. j \<le> length b \<and>
        str_index (rev end_component_list) (rev q @ rev end_component_list) = Some j" and "length b < length q"
      using str_index_least [of "rev q @ rev end_component_list" "rev b" "rev end_component_list"]
      by auto
    with assms show False by (auto simp: sectioned_def)
  qed
  then have "replace_all (section_text m) new q = q" by (simp add: replace_all.simps)
  then show ?thesis using first by (subst replace_all.simps) simp
qed

text \<open>What a rewrite leaves of a file that has its markers: everything outside them.\<close>

lemma add_component_list_keeps:
  assumes "sectioned p m q" "encode config = Inr buf"
  shows "add_component_list encode (\<lambda>s. (None, Inr s)) config (Inr (p @ section_text m @ q)) =
     (None, Inr (p @ section_text (CHR 0x0A # buf) @ q))"
  using assms match_sectioned [OF assms(1)] replace_sectioned [OF assms(1)]
  by (simp add: add_component_list_def)

lemma add_component_list_None:
  assumes "add_component_list encode write config (Inr cfg) = (None, file)"
  shows "\<exists>buf old. encode config = Inr buf \<and> match_component_section cfg = Some old"
proof (cases "encode config")
  case (Inr buf)
  with assms show ?thesis
    by (cases "match_component_section cfg") (simp_all add: add_component_list_def)
qed (use assms in \<open>simp add: add_component_list_def\<close>)

lemma codecovgen_None:
  assumes "codecovgen valid_glob ns W encode write cli file = (None, file')"
  shows "\<exists>config printed. setup_cli valid_glob ns cli = (cli, None) \<and> walk_tree W cli = Inr (config, printed) \<and>
     add_component_list encode write config file = (None, file')"
proof -
  obtain r where r: "setup_cli valid_glob ns cli = (cli, r)" by (simp add: setup_cli_def)
  with assms have "r = None" by (cases r) (simp_all add: codecovgen_def)
  with r assms show ?thesis
    by (cases "walk_tree W cli") (auto simp: codecovgen_def)
qed

text \<open>C38: A run of the generator that reports no error, on a file system whose writes succeed, leaves
  everything before and after the section and puts the encoded list between the markers; and
  a second run over the same modules leaves the file as it is, whatever the YAML encoder
  gives, even text that contains the markers.\<close>

theorem codecov_idempotent:
  assumes "codecovgen valid_glob ns W encode (\<lambda>s. (None, Inr s)) cli (Inr cfg) = (None, file)"
  shows "(\<exists>p m q config printed buf. cfg = p @ section_text m @ q \<and>
       walk_tree W cli = Inr (config, printed) \<and> encode config = Inr buf \<and>
       file = Inr (p @ section_text (CHR 0x0A # buf) @ q)) \<and>
     codecovgen valid_glob ns W encode (\<lambda>s. (None, Inr s)) cli file = (None, file)"
proof -
  let ?w = "\<lambda>s. (None, Inr s)"
  from assms obtain config printed where cli: "setup_cli valid_glob ns cli = (cli, None)"
    and walk: "walk_tree W cli = Inr (config, printed)"
    and add: "add_component_list encode ?w config (Inr cfg) = (None, file)"
    using codecovgen_None [OF assms] by blast
  from add obtain buf old where buf: "encode config = Inr buf" and old: "match_component_section cfg = Some old"
    using add_component_list_None by blast
  obtain p m q where s: "cfg = p @ section_text m @ q" "sectioned p m q" and "old = section_text m"
    by (rule sectioned_match [OF old])
  let ?m = "CHR 0x0A # buf"
  have left: "file = Inr (p @ section_text ?m @ q)"
    using add add_component_list_keeps [of p m q encode config buf, OF s(2) buf] s(1) by simp
  have "add_component_list encode ?w config file = (None, file)"
    using add_component_list_keeps [of p ?m q encode config buf, OF sectioned_any [OF s(2)] buf] left by simp
  then have "codecovgen valid_glob ns W encode ?w cli file = (None, file)"
    by (simp add: codecovgen_def cli walk)
  with s(1) walk buf left show ?thesis by blast
qed

definition example_codecov_world :: codecov_world where
  "example_codecov_world =
     \<lparr>cw_visits = [(''.'', Inr True), (''a'', Inr True)], cw_no_mod = (\<lambda>p. False), cw_read = Inr,
      cw_parse_mod = (\<lambda>d. Inr (Some ''g/areceiver'')), cw_match = (\<lambda>q m. q = m)\<rparr>"

lemma codecov_idempotent_witness:
  "(\<exists>p m q config printed buf. start_component_list @ end_component_list = p @ section_text m @ q \<and>
       walk_tree example_codecov_world \<lparr>ca_base_prefix = ''g'', ca_dir = ''.'', ca_skipped_modules = []\<rparr> = Inr (config, printed) \<and>
       (Inr (concat (map cc_component_id config)) :: string + string) = Inr buf \<and>
       (Inr (start_component_list @ CHR 0x0A # ''a'' @ end_component_list) :: string + string) = Inr (p @ section_text (CHR 0x0A # buf) @ q)) \<and>
     codecovgen (\<lambda>_. True) [] example_codecov_world (\<lambda>cs. Inr (concat (map cc_component_id cs))) (\<lambda>s. (None, Inr s))
       \<lparr>ca_base_prefix = ''g'', ca_dir = ''.'', ca_skipped_modules = []\<rparr>
       (Inr (start_component_list @ CHR 0x0A # ''a'' @ end_component_list)) =
     (None, Inr (start_component_list @ CHR 0x0A # ''a'' @ end_component_list))"
  by (rule codecov_idempotent) code_simp

end
