(* ===== verification/Time_Layout.thy ===== *)
theory Time_Layout
  imports Go_Strings
begin

text \<open>
  Time layouts (\<open>internal/coreinternal/timeutils\<close>): the strptime directives and their translation to Go's
  layouts (\<open>internal/ctimefmt\<close>), the parsing of timestamps, the year of a timestamp that has none, and the
  ticker. Parameters: the parser and the zone database of package \<open>time\<close>, and the translation of foreign
  month and day names (\<open>lunes\<close>).
\<close>

section \<open>Directives\<close>

definition ctime_substitutes :: "(string, string) gomap" where
  "ctime_substitutes =
     [(''%Y'', ''2006''), (''%y'', ''06''), (''%m'', ''01''), (''%o'', ''_1''),
      (''%q'', ''1''), (''%b'', ''Jan''), (''%h'', ''Jan''), (''%B'', ''January''),
      (''%d'', ''02''), (''%e'', ''_2''), (''%g'', ''2''), (''%a'', ''Mon''),
      (''%A'', ''Monday''), (''%H'', ''15''), (''%l'', ''3''), (''%I'', ''03''),
      (''%p'', ''PM''), (''%P'', ''pm''), (''%M'', ''04''), (''%S'', ''05''),
      (''%L'', ''999''), (''%f'', ''999999''), (''%s'', ''999999999''), (''%Z'', ''MST''),
      (''%z'', ''Z0700''), (''%w'', ''-070000''), (''%i'', ''-07''), (''%j'', ''-07:00''),
      (''%k'', ''-07:00:00''), (''%D'', ''01/02/2006''), (''%x'', ''01/02/2006''), (''%F'', ''2006-01-02''),
      (''%T'', ''15:04:05''), (''%X'', ''15:04:05''), (''%r'', ''03:04:05 pm''), (''%R'', ''15:04''),
      (''%n'', [CHR 0x0A]), (''%t'', [CHR 0x09]), (''%%'', ''%''), (''%c'', ''Mon Jan 02 15:04:05 2006'')]"

lemma ctime_substitutes_ok: "gomap_ok ctime_substitutes"
  by code_simp

lemma rune_width_pos [simp]: "0 < rune_width s"
  by (auto simp: rune_width_def Let_def split: list.splits)

text \<open>
  The matches of \<open>%.\<close>, which are a percent sign and one rune that is not a newline, on the right, and the
  bytes between them on the left.
\<close>

function scan_layout :: "string \<Rightarrow> (char + string) list" where
  "scan_layout [] = []"
| "scan_layout (c # s) =
     (if c = CHR ''%'' \<and> s \<noteq> [] \<and> hd s \<noteq> CHR 0x0A
      then Inr (c # take (rune_width s) s) # scan_layout (drop (rune_width s) s)
      else Inl c # scan_layout s)"
  by pat_completeness auto
termination
  by (relation "measure length") auto

fun directives_of :: "(char + string) list \<Rightarrow> string list" where
  "directives_of [] = []"
| "directives_of (Inl c # ts) = directives_of ts"
| "directives_of (Inr d # ts) = d # directives_of ts"

text \<open>\<open>ctimeRegexp.FindAllString\<close>.\<close>

definition layout_directives :: "string \<Rightarrow> string list" where
  "layout_directives f = directives_of (scan_layout f)"

fun layout_piece :: "char + string \<Rightarrow> string" where
  "layout_piece (Inl c) = [c]"
| "layout_piece (Inr d) = d"

lemma scan_layout_partition: "concat (map layout_piece (scan_layout f)) = f"
  by (induction f rule: scan_layout.induct) auto

lemma directives_of_set: "d \<in> set (directives_of ts) \<longleftrightarrow> Inr d \<in> set ts"
  by (induction ts rule: directives_of.induct) auto

lemma scan_layout_directive: "Inr d \<in> set (scan_layout f) \<Longrightarrow> \<exists>r. d = CHR ''%'' # r \<and> r \<noteq> []"
  by (induction f rule: scan_layout.induct) (auto split: if_splits)

section \<open>Translation and validation\<close>

datatype layout_error =
    UnsupportedDirectives "string list"
  | HasDecimals
  | FractionNotSeparated
  | NotATime string
  | NoLocation string
  | TimeError string
  | UnsupportedLocale string
  | InvalidLocale string

definition unsupported :: "string list \<Rightarrow> string list" where
  "unsupported ds = filter (\<lambda>d. map_of ctime_substitutes d = None) ds"

fun substitute :: "char + string \<Rightarrow> string" where
  "substitute (Inl c) = [c]"
| "substitute (Inr d) = (case map_of ctime_substitutes d of Some v \<Rightarrow> v | None \<Rightarrow> [])"

definition to_native :: "string \<Rightarrow> layout_error + string" where
  "to_native f =
     (let errs = unsupported (layout_directives f)
      in if errs \<noteq> [] then Inl (UnsupportedDirectives errs)
         else Inr (concat (map substitute (scan_layout f))))"

text \<open>A fractional directive after a rune other than a dot and a comma; one at the start has none before it.\<close>

fun bad_fraction :: "string \<Rightarrow> bool" where
  "bad_fraction (a # b # c # s) =
     (a \<notin> set ''.,'' \<and> b = CHR ''%'' \<and> c \<in> set ''Lfs'' \<or> bad_fraction (b # c # s))"
| "bad_fraction _ = False"

definition validate_strptime :: "string \<Rightarrow> layout_error option" where
  "validate_strptime f =
     (if list_ex is_digit f then Some HasDecimals
      else if bad_fraction f then Some FractionNotSeparated
      else let errs = unsupported (layout_directives f)
           in if errs \<noteq> [] then Some (UnsupportedDirectives errs) else None)"

text \<open>A run of nines after a rune other than a dot and a comma.\<close>

fun bad_nines :: "string \<Rightarrow> bool" where
  "bad_nines (a # b # s) = (a \<notin> set ''.,9'' \<and> b = CHR ''9'' \<or> bad_nines (b # s))"
| "bad_nines _ = False"

definition validate_gotime :: "string \<Rightarrow> layout_error option" where
  "validate_gotime l = (if bad_nines l then Some FractionNotSeparated else None)"

fun substitute_names :: "string list \<Rightarrow> (string, string) gomap \<Rightarrow> (string, string) gomap" where
  "substitute_names [] m = m"
| "substitute_names (d # ds) m =
     substitute_names ds
       (case map_of ctime_substitutes d of Some v \<Rightarrow> AList.update v d m | None \<Rightarrow> m)"

definition native_substitutes :: "string \<Rightarrow> (string, string) gomap" where
  "native_substitutes f = substitute_names (layout_directives f) []"

lemma substitute_names_Some:
  "map_of (substitute_names ds m) v = Some d \<Longrightarrow>
     d \<in> set ds \<and> map_of ctime_substitutes d = Some v \<or> map_of m v = Some d"
  by (induction ds m rule: substitute_names.induct) (auto split: option.splits if_splits)

lemma substitute_names_dom:
  "dom (map_of (substitute_names ds m)) = dom (map_of m) \<union> {v. \<exists>d\<in>set ds. map_of ctime_substitutes d = Some v}"
proof (induction ds m rule: substitute_names.induct)
  case (2 d ds m)
  then show ?case by (cases "map_of ctime_substitutes d") (auto split: if_splits)
qed simp

lemma native_substitutes_Some:
  "map_of (native_substitutes f) v = Some d \<Longrightarrow>
     Inr d \<in> set (scan_layout f) \<and> map_of ctime_substitutes d = Some v"
  using substitute_names_Some [of "layout_directives f" "[]"]
  by (fastforce simp: native_substitutes_def layout_directives_def directives_of_set)

lemma native_substitutes_traced:
  assumes "Inr d \<in> set (scan_layout f)" "map_of ctime_substitutes d = Some v"
  shows "\<exists>d'. map_of (native_substitutes f) v = Some d'"
proof -
  have "v \<in> dom (map_of (native_substitutes f))"
    using assms by (auto simp: native_substitutes_def substitute_names_dom layout_directives_def directives_of_set)
  then show ?thesis by (simp add: domIff)
qed



text \<open>
  A fractional directive at the start of a layout passes although nothing precedes it, and an escaped
  percent sign before the letter \<open>L\<close> is refused although it is no directive.
\<close>

lemma fraction_at_start: "validate_strptime ''%L'' = None"
  by code_simp

lemma escaped_percent_refused:
  "validate_strptime ''%%L'' = Some FractionNotSeparated" "to_native ''%%L'' = Inr ''%L''"
  by code_simp+

lemma to_native_error:
  "to_native f = Inl e \<longleftrightarrow> unsupported (layout_directives f) \<noteq> [] \<and> e = UnsupportedDirectives (unsupported (layout_directives f))"
  by (auto simp: to_native_def Let_def)

section \<open>Dates\<close>

text \<open>
  The civil fields of a \<open>time.Time\<close> in its location, which is a name and an offset in seconds: changes of
  the offset in the course of a year are not modelled. \<open>gt_nanos\<close> counts from midnight.
\<close>

record gotime =
  gt_year :: int
  gt_month :: nat
  gt_day :: int
  gt_nanos :: int
  gt_zone :: string
  gt_offset :: int

definition leap_year :: "int \<Rightarrow> bool" where
  "leap_year y \<longleftrightarrow> y mod 4 = 0 \<and> (y mod 100 \<noteq> 0 \<or> y mod 400 = 0)"

definition year_start :: "int \<Rightarrow> int" where
  "year_start y = 365 * (y - 1) + (y - 1) div 4 - (y - 1) div 100 + (y - 1) div 400"

definition days_before :: "int \<Rightarrow> nat \<Rightarrow> int" where
  "days_before y m =
     [0, 31, 59, 90, 120, 151, 181, 212, 243, 273, 304, 334] ! (m - 1) + (if leap_year y \<and> 2 < m then 1 else 0)"

definition civil_day :: "gotime \<Rightarrow> int" where
  "civil_day t = year_start (gt_year t) + days_before (gt_year t) (gt_month t) + gt_day t - 1"

definition day_nanos :: int where
  "day_nanos = 86400 * 10 ^ 9"

definition instant :: "gotime \<Rightarrow> int" where
  "instant t = civil_day t * day_nanos - gt_offset t * 10 ^ 9 + gt_nanos t"

text \<open>\<open>time.Date\<close> on a day that exists in some year: February 29 of a common year is March 1.\<close>

definition in_year :: "int \<Rightarrow> gotime \<Rightarrow> gotime" where
  "in_year y t =
     (if gt_month t = 2 \<and> gt_day t = 29 \<and> \<not> leap_year y
      then t\<lparr>gt_year := y, gt_month := 3, gt_day := 1\<rparr> else t\<lparr>gt_year := y\<rparr>)"

text \<open>\<open>AddDate(0, 0, 7)\<close> is seven days in a zone of one offset.\<close>

definition set_timestamp_year :: "gotime \<Rightarrow> gotime \<Rightarrow> gotime" where
  "set_timestamp_year n t =
     (if 0 < gt_year t then t
      else let d = in_year (gt_year n) t
           in if instant n + 7 * day_nanos < instant d then in_year (gt_year d - 1) d else d)"

definition gotime_ok :: "gotime \<Rightarrow> bool" where
  "gotime_ok t \<longleftrightarrow> 1 \<le> gt_month t \<and> gt_month t \<le> 12 \<and> 1 \<le> gt_day t \<and> gt_day t \<le> 31 \<and>
     0 \<le> gt_nanos t \<and> gt_nanos t < day_nanos \<and> \<bar>gt_offset t\<bar> \<le> 86400"

lemma div_step: "0 < n \<Longrightarrow> (k :: int) div n - (k - 1) div n = (if k mod n = 0 then 1 else 0)"
proof -
  assume n: "0 < n"
  have e: "k = n * (k div n) + k mod n" and b: "0 \<le> k mod n" "k mod n < n" using n by simp_all
  show ?thesis
  proof (cases "k mod n = 0")
    case True
    with e have "k - 1 = n * (k div n - 1) + (n - 1)" by (simp add: algebra_simps)
    then have "(k - 1) div n = k div n - 1" by (rule int_div_pos_eq) (use n in simp_all)
    with True show ?thesis by simp
  next
    case False
    from e have "k - 1 = n * (k div n) + (k mod n - 1)" by simp
    then have "(k - 1) div n = k div n" by (rule int_div_pos_eq) (use b False in linarith)+
    with False show ?thesis by simp
  qed
qed

lemma year_length: "year_start (y + 1) = year_start y + (if leap_year y then 366 else 365)"
proof -
  have "year_start (y + 1) - year_start y =
      365 + (y div 4 - (y - 1) div 4) - (y div 100 - (y - 1) div 100) + (y div 400 - (y - 1) div 400)"
    by (simp add: year_start_def)
  moreover have "y mod 100 = 0 \<Longrightarrow> y mod 4 = 0" "y mod 400 = 0 \<Longrightarrow> y mod 100 = 0" by presburger+
  ultimately show ?thesis by (auto simp: div_step leap_year_def split: if_splits)
qed

lemma month_cases:
  assumes "1 \<le> m" "m \<le> (12 :: nat)"
  shows "m = 1 \<or> m = 2 \<or> m = 3 \<or> m = 4 \<or> m = 5 \<or> m = 6 \<or> m = 7 \<or> m = 8 \<or> m = 9 \<or> m = 10 \<or> m = 11 \<or> m = 12"
proof -
  have "m \<in> set [1..<13]" using assms by simp
  then show ?thesis by (simp add: upt_rec) (elim disjE; simp)
qed

lemma days_before_bounds: "1 \<le> m \<Longrightarrow> m \<le> 12 \<Longrightarrow> 0 \<le> days_before y m \<and> days_before y m \<le> 335"
  using month_cases [of m] by (auto simp: days_before_def)

lemma civil_day_bounds:
  "gotime_ok t \<Longrightarrow> year_start (gt_year t) \<le> civil_day t \<and> civil_day t \<le> year_start (gt_year t) + 365"
  using days_before_bounds [of "gt_month t" "gt_year t"] by (simp add: gotime_ok_def civil_day_def)

lemma in_year_simps [simp]:
  "gt_year (in_year y t) = y" "gt_offset (in_year y t) = gt_offset t" "gt_nanos (in_year y t) = gt_nanos t"
  by (simp_all add: in_year_def)

lemma in_year_ok [simp]: "gotime_ok t \<Longrightarrow> gotime_ok (in_year y t)"
  by (simp add: in_year_def gotime_ok_def)

lemma year_back: "civil_day (in_year (gt_year d - 1) d) \<ge> civil_day d - 367"
  using year_length [of "gt_year d - 1"]
  by (auto simp: in_year_def civil_day_def days_before_def split: if_splits)

lemma instant_bounds:
  assumes "gotime_ok t"
  shows "(civil_day t - 1) * day_nanos \<le> instant t" "instant t \<le> (civil_day t + 2) * day_nanos"
proof -
  have "\<bar>gt_offset t * 10 ^ 9\<bar> \<le> day_nanos" using assms by (simp add: gotime_ok_def day_nanos_def abs_mult)
  then show "(civil_day t - 1) * day_nanos \<le> instant t" "instant t \<le> (civil_day t + 2) * day_nanos"
    using assms by (auto simp: instant_def gotime_ok_def algebra_simps)
qed

lemma timestamp_near:
  assumes "gotime_ok t" "gotime_ok n"
  shows "gt_year t \<le> 0 \<longrightarrow> gt_year (set_timestamp_year n t) \<in> {gt_year n - 1, gt_year n} \<and>
        instant n - 368 * day_nanos \<le> instant (set_timestamp_year n t) \<and>
        instant (set_timestamp_year n t) \<le> instant n + 7 * day_nanos"
proof -
  let ?d = "in_year (gt_year n) t"
  let ?r = "in_year (gt_year n - 1) ?d"
  have pos: "0 < day_nanos" by (simp add: day_nanos_def)
  have scale: "a \<le> b \<Longrightarrow> a * day_nanos \<le> b * day_nanos" for a b using pos by simp
  have ok: "gotime_ok ?d" "gotime_ok ?r" using assms by simp_all
  have ys: "year_start (gt_year n - 1) + 365 \<le> year_start (gt_year n)"
    using year_length [of "gt_year n - 1"] by (simp split: if_splits)
  have nb: "year_start (gt_year n) \<le> civil_day n" "civil_day n \<le> year_start (gt_year n) + 365"
    using civil_day_bounds [OF assms(2)] by simp_all
  have low: "instant n - 368 * day_nanos \<le> instant ?d"
  proof -
    have "civil_day n + 2 \<le> (civil_day ?d - 1) + 368" using nb civil_day_bounds [OF ok(1)] by simp
    from scale [OF this] instant_bounds [OF assms(2)] instant_bounds [OF ok(1)] show ?thesis
      by (simp add: algebra_simps)
  qed
  have high: "instant ?r \<le> instant n + 7 * day_nanos"
  proof -
    have "civil_day ?r + 2 \<le> (civil_day n - 1) + 7" using nb ys civil_day_bounds [OF ok(2)] by simp
    from scale [OF this] instant_bounds [OF assms(2)] instant_bounds [OF ok(2)] show ?thesis
      by (simp add: algebra_simps)
  qed
  have gap: "instant ?d - 367 * day_nanos \<le> instant ?r"
    using scale [OF year_back [of ?d]] by (simp add: instant_def algebra_simps)
  show ?thesis
    using low high gap pos by (auto simp: set_timestamp_year_def Let_def)
qed


definition example_leap_day :: gotime where
  "example_leap_day = \<lparr>gt_year = 0, gt_month = 2, gt_day = 29, gt_nanos = 0, gt_zone = ''UTC'', gt_offset = 0\<rparr>"

definition example_now :: gotime where
  "example_now = \<lparr>gt_year = 2026, gt_month = 1, gt_day = 1, gt_nanos = 5, gt_zone = ''X'', gt_offset = 3600\<rparr>"

lemma example_times_ok: "gotime_ok example_leap_day" "gotime_ok example_now"
  by (simp_all add: gotime_ok_def day_nanos_def example_leap_day_def example_now_def)


text \<open>February 29 of a year that is not given becomes March 1 when this year or the last is a common one.\<close>

lemma leap_day_moves:
  "set_timestamp_year
     \<lparr>gt_year = 2026, gt_month = 6, gt_day = 1, gt_nanos = 0, gt_zone = ''UTC'', gt_offset = 0\<rparr>
     \<lparr>gt_year = 0, gt_month = 2, gt_day = 29, gt_nanos = 0, gt_zone = ''UTC'', gt_offset = 0\<rparr> =
   \<lparr>gt_year = 2026, gt_month = 3, gt_day = 1, gt_nanos = 0, gt_zone = ''UTC'', gt_offset = 0\<rparr>"
  by code_simp

section \<open>Parsing timestamps\<close>

text \<open>
  The parser of package \<open>time\<close>, its zone database, its clock, and the translator of \<open>lunes\<close>. \<open>tl_parse\<close>
  is \<open>time.ParseInLocation\<close>, which returns a time beside its error; \<open>tl_locale\<close> is the error of
  \<open>NewDefaultLocale\<close> and whether it is \<open>ErrUnsupportedLocale\<close>.
\<close>

record 'l time_lib =
  tl_parse :: "string \<Rightarrow> string \<Rightarrow> 'l \<Rightarrow> gotime \<times> string option"
  tl_load :: "string \<Rightarrow> string + 'l"
  tl_utc :: 'l
  tl_local :: 'l
  tl_now :: gotime
  tl_translate :: "string \<Rightarrow> string \<Rightarrow> string \<Rightarrow> string + string"
  tl_locale :: "string \<Rightarrow> (bool \<times> string) option"

datatype parsing_value = PString string | PBytes string | POther string

definition zero_gotime :: gotime where
  "zero_gotime = \<lparr>gt_year = 1, gt_month = 1, gt_day = 1, gt_nanos = 0, gt_zone = ''UTC'', gt_offset = 0\<rparr>"

fun convert_parsing_value :: "parsing_value \<Rightarrow> layout_error + string" where
  "convert_parsing_value (PString s) = Inr s"
| "convert_parsing_value (PBytes s) = Inr s"
| "convert_parsing_value (POther ty) = Inl (NotATime ty)"

definition get_location :: "'l time_lib \<Rightarrow> string option \<Rightarrow> string option \<Rightarrow> layout_error + 'l" where
  "get_location L location layout =
     (case location of
        Some (c # cs) \<Rightarrow>
          (case tl_load L (c # cs) of Inl e \<Rightarrow> Inl (NoLocation (c # cs)) | Inr l \<Rightarrow> Inr l)
      | _ \<Rightarrow>
          (case layout of
             Some f \<Rightarrow> if has_suffix f ''Z'' then Inr (tl_utc L) else Inr (tl_local L)
           | None \<Rightarrow> Inr (tl_local L)))"

text \<open>
  The unexported function: a zone other than UTC whose offset is 0 is looked up by its name, and the value
  is parsed again there. A name that cannot be looked up is an error.
\<close>

definition parse_gotime_raw :: "'l time_lib \<Rightarrow> string \<Rightarrow> parsing_value \<Rightarrow> 'l \<Rightarrow> gotime \<times> layout_error option" where
  "parse_gotime_raw L layout v loc =
     (case convert_parsing_value v of
        Inl e \<Rightarrow> (zero_gotime, Some e)
      | Inr str \<Rightarrow>
          (let (result, err) = tl_parse L layout str loc
           in if gt_offset result \<noteq> 0 \<or> gt_zone result = ''UTC'' then (result, map_option TimeError err)
              else case tl_load L (gt_zone result) of
                     Inl e \<Rightarrow> (result, Some (NoLocation (gt_zone result)))
                   | Inr loc' \<Rightarrow>
                       (case tl_parse L layout str loc' of
                          (_, Some e) \<Rightarrow> (result, map_option TimeError err)
                        | (result', None) \<Rightarrow> (result', None))))"

definition parse_gotime :: "'l time_lib \<Rightarrow> string \<Rightarrow> parsing_value \<Rightarrow> 'l \<Rightarrow> layout_error + gotime" where
  "parse_gotime L layout v loc =
     (case parse_gotime_raw L layout v loc of
        (_, Some e) \<Rightarrow> Inl e
      | (t, None) \<Rightarrow> Inr (set_timestamp_year (tl_now L) t))"

definition parse_localized_gotime :: "'l time_lib \<Rightarrow> string \<Rightarrow> parsing_value \<Rightarrow> 'l \<Rightarrow> string \<Rightarrow> layout_error + gotime" where
  "parse_localized_gotime L layout v loc lang =
     (case convert_parsing_value v of
        Inl e \<Rightarrow> Inl e
      | Inr s \<Rightarrow>
          (case tl_translate L layout s lang of
             Inl e \<Rightarrow> Inl (TimeError e)
           | Inr s' \<Rightarrow> parse_gotime L layout (PString s') loc))"

definition parse_strptime :: "'l time_lib \<Rightarrow> string \<Rightarrow> parsing_value \<Rightarrow> 'l \<Rightarrow> layout_error + gotime" where
  "parse_strptime L layout v loc =
     (case to_native layout of Inl e \<Rightarrow> Inl e | Inr g \<Rightarrow> parse_gotime L g v loc)"

definition parse_localized_strptime :: "'l time_lib \<Rightarrow> string \<Rightarrow> parsing_value \<Rightarrow> 'l \<Rightarrow> string \<Rightarrow> layout_error + gotime" where
  "parse_localized_strptime L layout v loc lang =
     (case to_native layout of Inl e \<Rightarrow> Inl e | Inr g \<Rightarrow> parse_localized_gotime L g v loc lang)"

definition validate_locale :: "'l time_lib \<Rightarrow> string \<Rightarrow> layout_error option" where
  "validate_locale L locale =
     (case tl_locale L locale of
        None \<Rightarrow> None
      | Some (True, e) \<Rightarrow> Some (UnsupportedLocale locale)
      | Some (False, e) \<Rightarrow> Some (InvalidLocale locale))"

text \<open>The package-level \<open>Parse\<close> of \<open>ctimefmt\<close>: \<open>time.Parse\<close> is the parser in UTC.\<close>

definition ctime_parse :: "'l time_lib \<Rightarrow> string \<Rightarrow> string \<Rightarrow> gotime \<times> string option" where
  "ctime_parse L format v =
     (case to_native format of
        Inl e \<Rightarrow> (zero_gotime, None)
      | Inr g \<Rightarrow> tl_parse L g v (tl_utc L))"

lemma ctime_parse_swallows:
  "unsupported (layout_directives f) \<noteq> [] \<Longrightarrow> ctime_parse L f v = (zero_gotime, None)"
  by (simp add: ctime_parse_def to_native_def)

lemma parse_strptime_error:
  "unsupported (layout_directives f) \<noteq> [] \<Longrightarrow>
     parse_strptime L f v loc = Inl (UnsupportedDirectives (unsupported (layout_directives f)))"
  by (simp add: parse_strptime_def to_native_def)

lemma parse_gotime_not_a_time: "parse_gotime L layout (POther ty) loc = Inl (NotATime ty)"
  by (simp add: parse_gotime_def parse_gotime_raw_def)

lemma parse_gotime_raw_parsed:
  assumes "parse_gotime_raw L layout v loc = (r, None)"
  shows "\<exists>s l. r = fst (tl_parse L layout s l)"
proof (cases "convert_parsing_value v")
  case (Inr s)
  obtain t e where t: "tl_parse L layout s loc = (t, e)" by (cases "tl_parse L layout s loc")
  show ?thesis
  proof (cases "gt_offset t \<noteq> 0 \<or> gt_zone t = ''UTC''")
    case True
    with Inr t assms have "r = t" by (simp add: parse_gotime_raw_def)
    with t show ?thesis by (metis fst_conv)
  next
    case False
    with Inr t assms obtain l where l: "tl_load L (gt_zone t) = Inr l"
      by (cases "tl_load L (gt_zone t)") (simp_all add: parse_gotime_raw_def)
    obtain t' e' where t': "tl_parse L layout s l = (t', e')" by (cases "tl_parse L layout s l")
    from False Inr t l t' assms have "r = t \<or> r = t'" by (cases e') (simp_all add: parse_gotime_raw_def)
    with t t' show ?thesis by (metis fst_conv)
  qed
qed (use assms in \<open>simp add: parse_gotime_raw_def\<close>)

text \<open>What is parsed keeps the year it names, and otherwise lies near the present.\<close>

lemma parse_gotime_near:
  assumes "parse_gotime L layout v loc = Inr t" "\<And>s l. gotime_ok (fst (tl_parse L layout s l))"
    "gotime_ok (tl_now L)"
  shows "(\<exists>s l. t = fst (tl_parse L layout s l)) \<or>
     instant (tl_now L) - 368 * day_nanos \<le> instant t \<and> instant t \<le> instant (tl_now L) + 7 * day_nanos"
proof -
  obtain r where r: "parse_gotime_raw L layout v loc = (r, None)" "t = set_timestamp_year (tl_now L) r"
    using assms(1) by (auto simp: parse_gotime_def split: prod.splits option.splits)
  then obtain s l where sl: "r = fst (tl_parse L layout s l)" using parse_gotime_raw_parsed [OF r(1)] by blast
  then have ok: "gotime_ok r" using assms(2) by simp
  show ?thesis
  proof (cases "0 < gt_year r")
    case True
    then have "t = r" by (simp add: r set_timestamp_year_def)
    with sl show ?thesis by blast
  next
    case False
    then have "t = set_timestamp_year (tl_now L) r" "gt_year r \<le> 0" by (simp_all add: r)
    with timestamp_near [OF ok assms(3)] show ?thesis by simp
  qed
qed

section \<open>The ticker\<close>

text \<open>
  \<open>PolicyTicker\<close>: \<open>Start\<close> makes a ticker and a stop channel and starts a loop. A loop waits on the ticker
  and the channel that the fields held when it last evaluated them, so after a second \<open>Start\<close> it moves to
  the new ones with its next tick. A run of \<open>Start\<close> gives both the same number.
\<close>

record ticker_state =
  tk_current :: "nat option"
  tk_next :: nat
  tk_live :: "nat list"
  tk_closed :: "nat list"
  tk_loops :: "nat list"
  tk_ticks :: nat

definition new_ticker :: ticker_state where
  "new_ticker = \<lparr>tk_current = None, tk_next = 0, tk_live = [], tk_closed = [], tk_loops = [], tk_ticks = 0\<rparr>"

definition ticker_start :: "int \<Rightarrow> ticker_state \<Rightarrow> ticker_state go" where
  "ticker_start d st =
     (if d \<le> 0 then panic ''non-positive interval for NewTicker''
      else ret (st\<lparr>tk_current := Some (tk_next st), tk_next := Suc (tk_next st),
                   tk_live := tk_next st # tk_live st, tk_loops := tk_loops st @ [tk_next st]\<rparr>))"

definition ticker_stop :: "ticker_state \<Rightarrow> ticker_state go" where
  "ticker_stop st =
     (case tk_current st of
        None \<Rightarrow> ret st
      | Some i \<Rightarrow>
          if i \<in> set (tk_closed st) then panic ''close of closed channel''
          else ret (st\<lparr>tk_closed := i # tk_closed st, tk_live := removeAll i (tk_live st)\<rparr>))"

text \<open>The steps of a loop: a tick of a ticker that runs, and the end of a loop whose channel is closed.\<close>

inductive ticker_step :: "ticker_state \<Rightarrow> ticker_state \<Rightarrow> bool" where
  tick: "k < length (tk_loops st) \<Longrightarrow> tk_loops st ! k \<in> set (tk_live st) \<Longrightarrow> tk_current st = Some i \<Longrightarrow>
     ticker_step st (st\<lparr>tk_ticks := Suc (tk_ticks st), tk_loops := (tk_loops st)[k := i]\<rparr>)"
| quit: "k < length (tk_loops st) \<Longrightarrow> tk_loops st ! k \<in> set (tk_closed st) \<Longrightarrow>
     ticker_step st (st\<lparr>tk_loops := take k (tk_loops st) @ drop (Suc k) (tk_loops st)\<rparr>)"

inductive_cases ticker_stepE: "ticker_step st st'"

lemma stop_before_start: "ticker_stop new_ticker = ret new_ticker"
  by (simp add: ticker_stop_def new_ticker_def)

lemma stop_twice_panics:
  "ticker_stop st = ret st' \<Longrightarrow> tk_current st \<noteq> None \<Longrightarrow> ticker_stop st' = panic ''close of closed channel''"
  by (auto simp: ticker_stop_def split: if_splits)

text \<open>After one \<open>Start\<close> and a \<open>Stop\<close> the loop only ends: there is no tick any more.\<close>

definition ticker_stopped :: "nat \<Rightarrow> nat \<Rightarrow> ticker_state \<Rightarrow> bool" where
  "ticker_stopped i n st \<longleftrightarrow> tk_live st = [] \<and> set (tk_loops st) \<subseteq> {i} \<and> i \<in> set (tk_closed st) \<and> tk_ticks st = n"

lemma ticker_stopped_step:
  "ticker_stopped i n st \<Longrightarrow> ticker_step st st' \<Longrightarrow>
     ticker_stopped i n st' \<and> length (tk_loops st') < length (tk_loops st)"
  by (erule ticker_stepE) (auto simp: ticker_stopped_def dest: in_set_takeD in_set_dropD)

lemma no_tick_after_stop:
  assumes "ticker_stopped i n st" "ticker_step\<^sup>*\<^sup>* st st'"
  shows "tk_ticks st' = n"
proof -
  from assms(2,1) have "ticker_stopped i n st'"
    by (induction rule: rtranclp_induct) (auto dest: ticker_stopped_step)
  then show ?thesis by (simp add: ticker_stopped_def)
qed

lemma start_stop_stopped:
  assumes "ticker_start d new_ticker = ret st" "ticker_step\<^sup>*\<^sup>* st st1" "ticker_stop st1 = ret st2"
  shows "ticker_stopped 0 (tk_ticks st2) st2"
proof -
  have "tk_current st = Some 0 \<and> tk_live st = [0] \<and> set (tk_loops st) \<subseteq> {0} \<and> tk_closed st = []"
    using assms(1) by (auto simp: ticker_start_def new_ticker_def split: if_splits)
  with assms(2) have "tk_current st1 = Some 0 \<and> tk_live st1 = [0] \<and> set (tk_loops st1) \<subseteq> {0} \<and> tk_closed st1 = []"
  proof (induction rule: rtranclp_induct)
    case (step y z)
    then have y: "tk_current y = Some 0" "tk_live y = [0]" "set (tk_loops y) \<subseteq> {0}" "tk_closed y = []" by auto
    from step(2) show ?case
    proof (cases rule: ticker_step.cases)
      case (tick k i)
      then show ?thesis using y set_update_subset_insert [of "tk_loops y" k 0] by auto
    qed (use y in auto)
  qed
  with assms(3) show ?thesis by (auto simp: ticker_stop_def ticker_stopped_def)
qed

text \<open>After a second \<open>Start\<close> the first ticker keeps running, and it may tick after \<open>Stop\<close>.\<close>

lemma restarted_ticks_after_stop:
  "\<exists>st1 st2 st3 st4. ticker_start 1 new_ticker = ret st1 \<and> ticker_start 1 st1 = ret st2 \<and>
     ticker_stop st2 = ret st3 \<and> ticker_step st3 st4 \<and> tk_ticks st4 = 1 \<and> tk_live st4 = [0]"
proof -
  let ?st = "\<lparr>tk_current = Some 1, tk_next = 2, tk_live = [0], tk_closed = [1], tk_loops = [0, 1], tk_ticks = 0\<rparr>"
  have "ticker_step ?st (?st\<lparr>tk_ticks := 1, tk_loops := [1, 1]\<rparr>)"
    using ticker_step.tick [of 0 ?st 1] by simp
  moreover have "\<exists>st1 st2. ticker_start 1 new_ticker = ret st1 \<and> ticker_start 1 st1 = ret st2 \<and> ticker_stop st2 = ret ?st"
    by (simp add: ticker_start_def ticker_stop_def new_ticker_def)
  moreover have "tk_ticks (?st\<lparr>tk_ticks := 1, tk_loops := [1, 1]\<rparr>) = 1" "tk_live (?st\<lparr>tk_ticks := 1, tk_loops := [1, 1]\<rparr>) = [0]"
    by simp_all
  ultimately show ?thesis by blast
qed

end
