(* ===== verification/Core_Utils.thy ===== *)
theory Core_Utils
  imports Go_Encoding
begin

text \<open>
  The small helpers of \<open>internal/coreinternal\<close>: rows of CSV and parts of a URI as maps (\<open>parseutils\<close>), the
  status codes of errors (\<open>errorutil\<close>), names of trace values (\<open>traceutil\<close>, \<open>tracetranslator\<close>) and the
  lookup of text encodings (\<open>textutils\<close>). Parameters: the records that \<open>encoding/csv\<close> reads, the URL that
  \<open>net/url\<close> parses, the IANA index, and the classification of errors by the collector and by gRPC.
\<close>

section \<open>Rows of CSV\<close>

text \<open>
  What successive calls of \<open>Read\<close> return, up to the end of the input: a record and an error, if any.
\<close>

type_synonym csv_reads = "(string list \<times> string option) list"

datatype csv_error =
    CsvLine string
  | NoCsvLines
  | WrongFieldCount nat nat

fun read_lines :: "csv_reads \<Rightarrow> string list list \<Rightarrow> csv_error + string list list" where
  "read_lines [] ls = Inr ls"
| "read_lines ((line, err) # rs) ls =
     (case err of
        Some e \<Rightarrow> if line = [] then Inl (CsvLine e) else read_lines rs (ls @ [line])
      | None \<Rightarrow> read_lines rs (ls @ [line]))"

text \<open>
  The first field of a line continues the last field so far. Both are indexed, so an empty line panics.
\<close>

fun join_lines :: "string list \<Rightarrow> string list list \<Rightarrow> string list go" where
  "join_lines joined [] = ret joined"
| "join_lines joined (next # ls) =
     (if joined = [] \<or> next = [] then panic ''index out of range''
      else join_lines (butlast joined @ [last joined @ [CHR 0x0A] @ hd next] @ tl next) ls)"

definition read_csv_row :: "csv_reads \<Rightarrow> (csv_error + string list) go" where
  "read_csv_row rs =
     (case read_lines rs [] of
        Inl e \<Rightarrow> ret (Inl e)
      | Inr [] \<Rightarrow> ret (Inl NoCsvLines)
      | Inr (l # ls) \<Rightarrow> andThen (join_lines l ls) (\<lambda>joined. ret (Inr joined)))"

lemma read_lines_ok:
  "list_all (\<lambda>(l, e). e = None) rs \<Longrightarrow> read_lines rs ls = Inr (ls @ map fst rs)"
  by (induction rs ls rule: read_lines.induct) auto

lemma join_snoc_app:
  "join d (xs @ [a @ b] @ ys) = (if xs = [] then [] else join d xs @ d) @ a @ join d (b # ys)"
proof (induction xs)
  case Nil
  show ?case by (cases ys) simp_all
next
  case (Cons x xs)
  then show ?case by (cases xs) simp_all
qed

lemma join_snoc: "join d (xs @ [a]) = (if xs = [] then [] else join d xs @ d) @ a"
  using join_snoc_app [of d xs a "[]" "[]"] by simp

lemma join_continue:
  assumes "xs \<noteq> []" "ys \<noteq> []"
  shows "join d (butlast xs @ [last xs @ u @ hd ys] @ tl ys) = join d xs @ u @ join d ys"
  using join_snoc_app [of d "butlast xs" "last xs @ u" "hd ys" "tl ys"] join_snoc [of d "butlast xs" "last xs"] assms
  by simp

lemma join_lines_join:
  "joined \<noteq> [] \<Longrightarrow> [] \<notin> set ls \<Longrightarrow>
     \<exists>r. join_lines joined ls = ret r \<and> r \<noteq> [] \<and> join d r = join [CHR 0x0A] (join d joined # map (join d) ls) \<and>
       length r + length ls = length joined + sum_list (map length ls)"
proof (induction joined ls rule: join_lines.induct)
  case (2 joined l ls)
  let ?j = "butlast joined @ [last joined @ [CHR 0x0A] @ hd l] @ tl l"
  from 2 obtain r where r: "join_lines ?j ls = ret r" "r \<noteq> []"
      "join d r = join [CHR 0x0A] (join d ?j # map (join d) ls)"
      "length r + length ls = length ?j + sum_list (map length ls)"
    by auto
  have "join d ?j = join d joined @ [CHR 0x0A] @ join d l"
    using 2(2,3) by (intro join_continue) auto
  moreover have "join [CHR 0x0A] ((a @ [CHR 0x0A] @ b) # cs) = a @ [CHR 0x0A] @ join [CHR 0x0A] (b # cs)" for a b cs
    by (cases cs) simp_all
  moreover have "length ?j + 1 = length joined + length l" using 2(2,3) by (cases l) (auto simp: Suc_le_eq)
  ultimately show ?case using 2(2,3) r by auto
qed simp

text \<open>A row that is read without errors is one list of fields. Written with any
  separator between the fields it is what the lines are when written so, with newlines between
  them: a line break inside a row stays in the field it breaks. Without a line there is an error.\<close>

theorem csv_row_joined:
  assumes "list_all (\<lambda>(l, e). l \<noteq> [] \<and> e = None) rs"
  shows "if rs = [] then read_csv_row rs = ret (Inl NoCsvLines)
     else \<exists>r. read_csv_row rs = ret (Inr r) \<and>
       (\<forall>d. join d r = join [CHR 0x0A] (map (join d \<circ> fst) rs)) \<and>
       length r + length rs = Suc (sum_list (map (length \<circ> fst) rs))"
proof (cases rs)
  case (Cons p qs)
  have ls: "read_lines rs [] = Inr (map fst rs)"
    using assms by (subst read_lines_ok) (auto simp: list_all_iff)
  have ne: "fst p \<noteq> []" "[] \<notin> set (map fst qs)" using assms by (auto simp: Cons list_all_iff)
  have "\<exists>r. join_lines (fst p) (map fst qs) = ret r" using join_lines_join [OF ne] by blast
  then obtain r where r: "join_lines (fst p) (map fst qs) = ret r" by blast
  from join_lines_join [OF ne] r have "join d r = join [CHR 0x0A] (join d (fst p) # map (join d) (map fst qs)) \<and>
      length r + length (map fst qs) = length (fst p) + sum_list (map length (map fst qs))" for d
    by force
  then show ?thesis using Cons ls r by (simp add: read_csv_row_def)
qed (simp add: read_csv_row_def)

lemma csv_row_joined_witness:
  "\<exists>r. read_csv_row [([''aa'', ''b''], None), ([''b'', ''cc''], None)] = ret (Inr r) \<and>
       (\<forall>d. join d r = join [CHR 0x0A] (map (join d \<circ> fst) [([''aa'', ''b''], None :: string option), ([''b'', ''cc''], None)])) \<and>
       length r + 2 = Suc (sum_list (map (length \<circ> fst) [([''aa'', ''b''], None :: string option), ([''b'', ''cc''], None)]))"
  using csv_row_joined [of "[([''aa'', ''b''], None), ([''b'', ''cc''], None)]"] by simp

text \<open>The example in the comment of the code.\<close>

lemma csv_comment_example:
  "read_csv_row [([''aa'', ''b''], None), ([''b'', ''cc'', ''d''], None), ([''d'', ''ee''], None)] =
     ret (Inr [''aa'', ''b'' @ [CHR 0x0A] @ ''b'', ''cc'', ''d'' @ [CHR 0x0A] @ ''d'', ''ee''])"
  by (simp add: read_csv_row_def)

fun map_fields :: "string list \<Rightarrow> string list \<Rightarrow> (string, string) gomap \<Rightarrow> (string, string) gomap" where
  "map_fields (h # hs) (v # vs) m = map_fields hs vs (AList.update h v m)"
| "map_fields _ _ m = m"

definition map_csv_headers :: "string list \<Rightarrow> string list \<Rightarrow> csv_error + (string, string) gomap" where
  "map_csv_headers headers fields =
     (if length fields \<noteq> length headers then Inl (WrongFieldCount (length headers) (length fields))
      else Inr (map_fields headers fields []))"

lemma map_fields_lookup:
  "length hs = length vs \<Longrightarrow> map_of (map_fields hs vs m) = map_of m ++ map_of (rev (zip hs vs))"
  by (induction hs vs m rule: map_fields.induct) (auto simp: map_add_def fun_eq_iff split: option.splits)

text \<open>Of two columns with one header the later wins.\<close>

lemma map_csv_headers_lookup:
  "map_csv_headers hs vs = Inr m \<Longrightarrow> map_of m = map_of (rev (zip hs vs))"
  by (auto simp: map_csv_headers_def map_fields_lookup split: if_splits)

section \<open>Parts of a URI\<close>

text \<open>
  What \<open>net/url\<close> gives for a parsed URL: the results of its accessors. \<open>uv_user\<close> is nil or the text of the
  user part, the name, and the password if one is set; \<open>uv_query\<close> is the parsed query.
\<close>

record url_view =
  uv_string :: string
  uv_scheme :: string
  uv_hostname :: string
  uv_port :: string
  uv_path :: string
  uv_escaped_path :: string
  uv_fragment :: string
  uv_user :: "(string \<times> string \<times> string option) option"
  uv_raw_query :: string
  uv_query :: "(string, string list) gomap"

datatype uri_value =
    UriString string
  | UriInt int
  | UriQuery "(string, string list) gomap"

type_synonym uri_map = "(string, uri_value) gomap"

definition set_uri :: "bool \<Rightarrow> string \<Rightarrow> uri_value \<Rightarrow> uri_map \<Rightarrow> uri_map" where
  "set_uri c k v m = (if c then AList.update k v m else m)"

text \<open>The values of each parameter, copied one by one, in the order of the range over the query.\<close>

fun copy_query :: "(string, string list) gomap \<Rightarrow> (string, string list) gomap \<Rightarrow> (string, string list) gomap" where
  "copy_query [] m = m"
| "copy_query ((k, vs) # q) m = copy_query q (AList.update k (map (\<lambda>v. v) vs) m)"

definition query_to_map :: "nat list \<Rightarrow> (string, string list) gomap \<Rightarrow> uri_map \<Rightarrow> uri_map" where
  "query_to_map ns q m =
     (if q = [] then m else AList.update ''query'' (UriQuery (copy_query (shuffle ns q) [])) m)"

definition url_to_map :: "nat list \<Rightarrow> url_view \<Rightarrow> uri_map \<Rightarrow> uri_map" where
  "url_to_map ns p m =
     (let user = (case uv_user p of None \<Rightarrow> [] | Some (_, name, _) \<Rightarrow> name);
          m = set_uri (uv_scheme p \<noteq> []) ''scheme'' (UriString (uv_scheme p)) m;
          m = set_uri (user \<noteq> []) ''user'' (UriString user) m;
          m = set_uri (uv_hostname p \<noteq> []) ''host'' (UriString (uv_hostname p)) m;
          m = set_uri (uv_port p \<noteq> []) ''port'' (UriString (uv_port p)) m;
          m = set_uri (uv_escaped_path p \<noteq> []) ''path'' (UriString (uv_escaped_path p)) m
      in query_to_map ns (uv_query p) m)"

text \<open>What follows the last dot of the path, if anything does.\<close>

definition path_extension :: "string \<Rightarrow> string option" where
  "path_extension path =
     (case last_index_any path ''.'' of
        None \<Rightarrow> None
      | Some i \<Rightarrow> if i < length path - 1 then Some (drop (Suc i) path) else None)"

text \<open>\<open>strconv.Atoi\<close> of a port, which \<open>net/url\<close> has checked to be decimal digits: it may be too big.\<close>

definition port_atoi :: "string \<Rightarrow> string + int" where
  "port_atoi s = (if int (str_nat s) < 2 ^ 63 then Inr (int (str_nat s)) else Inl ''value out of range'')"

definition user_to_map :: "(string \<times> string \<times> string option) option \<Rightarrow> uri_map \<Rightarrow> uri_map" where
  "user_to_map user m =
     (case user of
        None \<Rightarrow> m
      | Some (info, name, pwd) \<Rightarrow>
          (let m = AList.update ''url.user_info'' (UriString info) m;
               m = set_uri (name \<noteq> []) ''url.username'' (UriString name) m
           in case pwd of None \<Rightarrow> m | Some p \<Rightarrow> AList.update ''url.password'' (UriString p) m))"

definition url_to_semconv_map :: "url_view \<Rightarrow> uri_map \<Rightarrow> string + uri_map" where
  "url_to_semconv_map p m =
     (let m = AList.update ''url.original'' (UriString (uv_string p)) m;
          m = AList.update ''url.domain'' (UriString (uv_hostname p)) m;
          m = AList.update ''url.scheme'' (UriString (uv_scheme p)) m;
          m = AList.update ''url.path'' (UriString (uv_path p)) m;
          finish = (\<lambda>m.
            let m = set_uri (uv_fragment p \<noteq> []) ''url.fragment'' (UriString (uv_fragment p)) m;
                m = user_to_map (uv_user p) m;
                m = set_uri (uv_raw_query p \<noteq> []) ''url.query'' (UriString (uv_raw_query p)) m
            in case path_extension (uv_path p) of
                 None \<Rightarrow> m
               | Some x \<Rightarrow> AList.update ''url.extension'' (UriString x) m)
      in if uv_port p = [] then Inr (finish m)
         else case port_atoi (uv_port p) of
                Inl e \<Rightarrow> Inl e
              | Inr n \<Rightarrow> Inr (finish (AList.update ''url.port'' (UriInt n) m)))"

text \<open>The three parsers of \<open>net/url\<close> that \<open>ParseURI\<close> chooses from.\<close>

record url_lib =
  ul_query :: "string \<Rightarrow> string + (string, string list) gomap"
  ul_parse :: "string \<Rightarrow> string + url_view"
  ul_request_uri :: "string \<Rightarrow> string + url_view"

definition parse_uri :: "url_lib \<Rightarrow> nat list \<Rightarrow> string \<Rightarrow> bool \<Rightarrow> string + uri_map" where
  "parse_uri U ns v semconv =
     (if has_prefix v ''?'' then
        (case ul_query U (drop 1 v) of Inl e \<Rightarrow> Inl e | Inr q \<Rightarrow> Inr (query_to_map ns q []))
      else if semconv then
        (case ul_parse U v of Inl e \<Rightarrow> Inl e | Inr x \<Rightarrow> url_to_semconv_map x [])
      else
        (case ul_request_uri U v of Inl e \<Rightarrow> Inl e | Inr x \<Rightarrow> Inr (url_to_map ns x [])))"

lemma map_of_set_uri [simp]: "map_of (set_uri c k v m) = (if c then (map_of m)(k \<mapsto> v) else map_of m)"
  by (simp add: set_uri_def)

lemma copy_query_lookup: "gomap_ok q \<Longrightarrow> map_of (copy_query q m) = map_of m ++ map_of q"
  by (induction q m rule: copy_query.induct) (auto simp: gomap_ok_def map_add_upd_left dom_map_of_conv_image_fst)

text \<open>The query is copied whole, in whatever order it is ranged over.\<close>

lemma query_to_map_lookup:
  assumes "gomap_ok q" "q \<noteq> []"
  shows "\<exists>q'. map_of (query_to_map ns q m) = (map_of m)(''query'' \<mapsto> UriQuery q') \<and> map_of q' = map_of q"
  using assms copy_query_lookup [of "shuffle ns q" "[]"]
  by (intro exI [of _ "copy_query (shuffle ns q) []"]) (simp add: query_to_map_def)

lemma path_extension_after_dot:
  assumes "path_extension path = Some x"
  shows "x \<noteq> [] \<and> CHR ''.'' \<notin> set x \<and> (\<exists>p. path = p @ CHR ''.'' # x)"
proof -
  from assms obtain i where i: "last_index_any path ''.'' = Some i" "i < length path - 1" "x = drop (Suc i) path"
    by (auto simp: path_extension_def split: option.splits if_splits)
  let ?t = "takeWhile (\<lambda>c. c \<noteq> CHR ''.'') (rev path)"
  have x: "x = rev ?t" using after_last_index_any [OF i(1)] i(3) by simp
  have "CHR ''.'' \<in> set path"
    using i(1) by (auto simp: last_index_any_def contains_any_def list_ex_iff split: if_splits)
  then obtain d where d: "dropWhile (\<lambda>c. c \<noteq> CHR ''.'') (rev path) = CHR ''.'' # d"
    using hd_dropWhile [of "\<lambda>c. c \<noteq> CHR ''.''" "rev path"]
    by (cases "dropWhile (\<lambda>c. c \<noteq> CHR ''.'') (rev path)") auto
  have "rev (rev path) = rev (?t @ CHR ''.'' # d)" using d by (metis takeWhile_dropWhile_id)
  then have "path = rev d @ CHR ''.'' # x" by (simp add: x)
  moreover have "x \<noteq> []" using i(2,3) by simp
  moreover have "CHR ''.'' \<notin> set x" unfolding x by (auto dest: set_takeWhileD)
  ultimately show ?thesis by blast
qed

text \<open>The extension is taken from the last dot of the whole path, so a dot in a directory counts.\<close>

lemma path_extension_of_directory: "path_extension ''/v1.2/users'' = Some ''2/users''"
  by code_simp

text \<open>What the semantic-convention form always has, and when it fails.\<close>

lemma url_to_semconv_map_error:
  "url_to_semconv_map p m = Inl e \<longleftrightarrow> uv_port p \<noteq> [] \<and> port_atoi (uv_port p) = Inl e"
  by (auto simp: url_to_semconv_map_def Let_def split: sum.splits if_splits)

lemma user_to_map_other: "k \<notin> {''url.user_info'', ''url.username'', ''url.password''} \<Longrightarrow>
    map_of (user_to_map u m) k = map_of m k"
  by (simp add: user_to_map_def Let_def split: option.splits prod.splits)

lemma url_to_semconv_map_keeps:
  assumes "url_to_semconv_map p m = Inr m'"
  shows "map_of m' ''url.original'' = Some (UriString (uv_string p))"
    "map_of m' ''url.path'' = Some (UriString (uv_path p))"
    "map_of m' ''url.domain'' = Some (UriString (uv_hostname p))"
    "map_of m' ''url.extension'' = (case path_extension (uv_path p) of None \<Rightarrow> map_of m ''url.extension'' | Some x \<Rightarrow> Some (UriString x))"
  using assms by (auto simp: url_to_semconv_map_def Let_def user_to_map_other split: sum.splits if_splits option.splits)

section \<open>Status codes of errors\<close>

text \<open>\<open>perm\<close> is \<open>consumererror.IsPermanent\<close>; an error that carries a gRPC status keeps it.\<close>

datatype grpc_status = GrpcStatus nat string

definition codes_unknown :: nat where
  "codes_unknown = 2"

definition codes_unavailable :: nat where
  "codes_unavailable = 14"

definition grpc_error :: "('e \<Rightarrow> grpc_status option) \<Rightarrow> ('e \<Rightarrow> bool) \<Rightarrow> ('e \<Rightarrow> string) \<Rightarrow> 'e \<Rightarrow> grpc_status" where
  "grpc_error from_error perm text err =
     (case from_error err of
        Some s \<Rightarrow> s
      | None \<Rightarrow> GrpcStatus (if perm err then codes_unknown else codes_unavailable) (text err))"

definition http_status_code :: "('e \<Rightarrow> bool) \<Rightarrow> 'e \<Rightarrow> nat" where
  "http_status_code perm err = (if \<not> perm err then 503 else 400)"

text \<open>The response, or none for a nil error.\<close>

definition http_error :: "('e \<Rightarrow> bool) \<Rightarrow> ('e \<Rightarrow> string) \<Rightarrow> 'e option \<Rightarrow> (string \<times> nat) option" where
  "http_error perm text err = map_option (\<lambda>e. (text e, http_status_code perm e)) err"

text \<open>Both protocols agree on what may be retried, for an error that has no status of its own.\<close>

lemma retryable_agree:
  "from_error err = None \<Longrightarrow>
     http_status_code perm err = 503 \<longleftrightarrow> grpc_error from_error perm text err = GrpcStatus codes_unavailable (text err)"
  by (simp add: http_status_code_def grpc_error_def codes_unknown_def codes_unavailable_def)

section \<open>Names of trace values\<close>

definition span_kind_str :: "int \<Rightarrow> string" where
  "span_kind_str k =
     (if k = 0 then ''SPAN_KIND_UNSPECIFIED'' else if k = 1 then ''SPAN_KIND_INTERNAL''
      else if k = 2 then ''SPAN_KIND_SERVER'' else if k = 3 then ''SPAN_KIND_CLIENT''
      else if k = 4 then ''SPAN_KIND_PRODUCER'' else if k = 5 then ''SPAN_KIND_CONSUMER'' else [])"

definition status_code_str :: "int \<Rightarrow> string" where
  "status_code_str c =
     (if c = 0 then ''STATUS_CODE_UNSET'' else if c = 1 then ''STATUS_CODE_OK''
      else if c = 2 then ''STATUS_CODE_ERROR'' else [])"

text \<open>The text of the bytes of an identifier; that of an identifier of zeros is empty.\<close>

definition hex_or_empty :: "string \<Rightarrow> string" where
  "hex_or_empty bs = (if list_all (\<lambda>b. b = CHR 0x00) bs then [] else hex_encode bs)"

definition status_code_from_http :: "int \<Rightarrow> int" where
  "status_code_from_http c = (if 100 \<le> c \<and> c < 399 then 0 else 2)"

definition span_kind_defined :: "int \<Rightarrow> bool" where
  "span_kind_defined k \<longleftrightarrow> 0 \<le> k \<and> k \<le> 5"

lemma span_kind_names_distinct:
  "span_kind_str j = span_kind_str k \<Longrightarrow> span_kind_defined j \<Longrightarrow> span_kind_defined k \<Longrightarrow> j = k"
  by (auto simp: span_kind_str_def span_kind_defined_def split: if_splits)

text \<open>Distinct identifiers have distinct texts, the empty one included.\<close>

lemma hex_or_empty_inject: "length xs = length ys \<Longrightarrow> hex_or_empty xs = hex_or_empty ys \<longleftrightarrow> xs = ys"
proof -
  assume len: "length xs = length ys"
  have zero: "list_all (\<lambda>b. b = CHR 0x00) zs \<Longrightarrow> zs = replicate (length zs) (CHR 0x00)" for zs
    by (induction zs) auto
  have ne: "\<not> list_all (\<lambda>b. b = CHR 0x00) zs \<Longrightarrow> hex_encode zs \<noteq> []" for zs
    by (cases zs) auto
  show ?thesis
    using len zero [of xs] zero [of ys] ne [of xs] ne [of ys]
    by (auto simp: hex_or_empty_def split: if_splits)
qed

text \<open>The last of the redirection codes, 399, is an error: the comparison excludes it.\<close>

lemma status_code_399: "status_code_from_http 398 = 0" "status_code_from_http 399 = 2"
  by (simp_all add: status_code_from_http_def)

section \<open>Text encodings\<close>

text \<open>Encodings of \<open>golang.org/x/text\<close>, the raw one of the repository, and those of the IANA index.\<close>

datatype 'e text_encoding = Utf16LE | Utf8 | Utf8Raw | NopEncoding | IanaEncoding 'e

datatype encoding_error = UnsupportedEncoding string | NoCharmap string

definition encoding_overrides :: "(string, 'e text_encoding) gomap" where
  "encoding_overrides =
     [(''utf-16'', Utf16LE), (''utf16'', Utf16LE), (''utf-8'', Utf8), (''utf8'', Utf8),
      (''utf-8-raw'', Utf8Raw), (''utf8-raw'', Utf8Raw), (''ascii'', Utf8), (''us-ascii'', Utf8),
      (''nop'', NopEncoding), ([], Utf8)]"

text \<open>\<open>L\<close> is \<open>strings.ToLower\<close>; the index gives an error, or nil for a name without a charmap.\<close>

definition lookup_encoding :: "(string \<Rightarrow> string) \<Rightarrow> (string \<Rightarrow> string + 'e text_encoding option) \<Rightarrow> string
     \<Rightarrow> encoding_error + 'e text_encoding" where
  "lookup_encoding L iana enc =
     (case map_of encoding_overrides (L enc) of
        Some e \<Rightarrow> Inr e
      | None \<Rightarrow>
          (case iana enc of
             Inl _ \<Rightarrow> Inl (UnsupportedEncoding enc)
           | Inr None \<Rightarrow> Inl (NoCharmap enc)
           | Inr (Some e) \<Rightarrow> Inr e))"

definition is_nop :: "(string \<Rightarrow> string) \<Rightarrow> (string \<Rightarrow> string + 'e text_encoding option) \<Rightarrow> string \<Rightarrow> bool" where
  "is_nop L iana enc =
     (case lookup_encoding L iana enc of Inl _ \<Rightarrow> False | Inr NopEncoding \<Rightarrow> True | Inr _ \<Rightarrow> False)"

definition decode_as_string :: "(string \<Rightarrow> string + string) \<Rightarrow> string \<Rightarrow> string + string" where
  "decode_as_string decoder buf = (case decoder buf of Inl e \<Rightarrow> Inl e | Inr dst \<Rightarrow> Inr dst)"

lemma is_nop_iff:
  assumes "\<And>n. iana n \<noteq> Inr (Some NopEncoding)"
  shows "is_nop L iana enc \<longleftrightarrow> L enc = ''nop''"
  using assms [of enc]
  by (auto simp: is_nop_def lookup_encoding_def encoding_overrides_def
      split: option.splits sum.splits text_encoding.splits if_splits)

end
