(* ===== verification/Golden_Metrics.thy ===== *)
theory Golden_Metrics
  imports Metric_Diff
begin

text \<open>
  The generators of golden metrics (\<open>internal/coreinternal/goldendataset\<close>: metrics_gen.go,
  pict_metrics_gen.go, pict_metrics_input_defs.go): metrics of a configured shape, and the shapes read from a
  table of pairs. Points are those of \<open>Metric_Diff\<close> with their times. The file with the table is a parameter.
\<close>

section \<open>Configuration and data\<close>

datatype metric_type = TypeEmpty | TypeGauge | TypeSum | TypeHistogram | TypeExponential | TypeSummary
datatype value_kind = ValueEmpty | ValueInt | ValueDouble

record MetricsCfg =
  MetricDescriptorType :: metric_type
  MetricValueType :: value_kind
  IsMonotonicSum :: bool
  MetricNamePrefix :: string
  NumILMPerResource :: int
  NumMetricsPerILM :: int
  NumPtLabels :: int
  NumPtsPerMetric :: int
  NumResourceAttrs :: int
  NumResourceMetrics :: int
  PtVal :: int
  StartTime :: "64 word"
  StepSize :: "64 word"

definition DefaultCfg :: MetricsCfg where
  "DefaultCfg =
     \<lparr>MetricDescriptorType = TypeGauge, MetricValueType = ValueInt, IsMonotonicSum = False, MetricNamePrefix = [],
      NumILMPerResource = 1, NumMetricsPerILM = 1, NumPtLabels = 1, NumPtsPerMetric = 1, NumResourceAttrs = 1,
      NumResourceMetrics = 1, PtVal = 1, StartTime = 940000000000000000, StepSize = 42\<rparr>"

text \<open>A point and the times that the comparison of metrics does not read.\<close>

type_synonym 'p timed = "64 word \<times> 64 word \<times> 'p"

datatype golden_data = GoldenNone | GoldenGauge "num_pt timed list" | GoldenSum bool nat "num_pt timed list"
  | GoldenHistogram nat "hist_pt timed list" | GoldenExponential nat "exp_pt timed list"

record golden_metric =
  gm_name :: string
  gm_description :: string
  gm_unit :: string
  gm_data :: golden_data

record golden_resource =
  gr_attrs :: attrs
  gr_scopes :: "golden_metric list list"

text \<open>\<open>AggregationTemporalityCumulative\<close> of the data model.\<close>

definition cumulative :: nat where
  "cumulative = 2"

section \<open>Points\<close>

text \<open>A loop that appends one element per index, any of which may panic.\<close>

fun each :: "('a \<Rightarrow> 'b go) \<Rightarrow> 'a list \<Rightarrow> 'b list go" where
  "each f [] = ret []"
| "each f (x # xs) = andThen (f x) (\<lambda>y. andThen (each f xs) (\<lambda>ys. ret (y # ys)))"

definition indices :: "int \<Rightarrow> nat list" where
  "indices n = [0..<nat n]"

definition getTimestamp :: "64 word \<Rightarrow> 64 word \<Rightarrow> nat \<Rightarrow> 64 word" where
  "getTimestamp startTime stepSize i = startTime + stepSize * of_nat (i + 1)"

definition populatePtAttributes :: "MetricsCfg \<Rightarrow> attrs \<Rightarrow> attrs" where
  "populatePtAttributes cfg lm =
     foldl (\<lambda>lm i. attr_put (''pt-label-key-'' @ nat_str i) (VStr (''pt-label-val-'' @ nat_str i)) lm)
       lm (indices (NumPtLabels cfg))"

definition at_time :: "MetricsCfg \<Rightarrow> nat \<Rightarrow> 'p \<Rightarrow> 'p timed" where
  "at_time cfg i p = (StartTime cfg, getTimestamp (StartTime cfg) (StepSize cfg) i, p)"

definition numberPoint :: "MetricsCfg \<Rightarrow> nat \<Rightarrow> num_pt timed go" where
  "numberPoint cfg i =
     (let v = wrap64 (PtVal cfg + int i);
          pt = (\<lambda>x. at_time cfg i \<lparr>n_attrs = populatePtAttributes cfg [], n_value = x, n_exemplars = [], n_rest = 0\<rparr>)
      in case MetricValueType cfg of
           ValueInt \<Rightarrow> ret (pt (IntVal v))
         | ValueDouble \<Rightarrow> ret (pt (DoubleVal (f64_of_int v)))
         | ValueEmpty \<Rightarrow> panic ''Should not happen'')"

definition populateNumberPoints :: "MetricsCfg \<Rightarrow> num_pt timed list go" where
  "populateNumberPoints cfg = each (numberPoint cfg) (indices (NumPtsPerMetric cfg))"

definition setDoubleHistogramBounds :: "f64 list \<Rightarrow> hist_pt \<Rightarrow> hist_pt" where
  "setDoubleHistogramBounds bounds hdp =
     hdp\<lparr>h_counts := replicate (length bounds + 1) 0, h_bounds := bounds\<rparr>"

text \<open>
  The count goes into the first bucket whose bound is not below the value; a value above the last bound goes
  into none.
\<close>

fun bucketLoop :: "f64 \<Rightarrow> nat \<Rightarrow> f64 list \<Rightarrow> 64 word list \<Rightarrow> 64 word list go" where
  "bucketLoop v i [] buckets = ret buckets"
| "bucketLoop v i (b # bounds) buckets =
     (if fle v b then
        (if i < length buckets then ret (buckets[i := buckets ! i + 1]) else panic ''index out of range'')
      else bucketLoop v (Suc i) bounds buckets)"

definition addDoubleHistogramVal :: "f64 \<Rightarrow> hist_pt \<Rightarrow> hist_pt go" where
  "addDoubleHistogramVal v hdp =
     andThen (bucketLoop v 0 (h_bounds hdp) (h_counts hdp))
       (\<lambda>counts. ret (hdp\<lparr>h_count := h_count hdp + 1,
          h_sum := Some (fadd (case h_sum hdp of None \<Rightarrow> Fin 0 | Some s \<Rightarrow> s) v), h_counts := counts\<rparr>))"

fun addVals :: "f64 list \<Rightarrow> hist_pt \<Rightarrow> hist_pt go" where
  "addVals [] hdp = ret hdp"
| "addVals (v # vs) hdp = andThen (addDoubleHistogramVal v hdp) (addVals vs)"

definition doublePoint :: "MetricsCfg \<Rightarrow> nat \<Rightarrow> hist_pt timed go" where
  "doublePoint cfg i =
     (let pt = \<lparr>h_attrs = populatePtAttributes cfg [], h_count = 0, h_sum = None, h_counts = [], h_bounds = [],
                h_exemplars = [], h_rest = 0\<rparr>;
          pt = setDoubleHistogramBounds [Fin 1, Fin 2, Fin 3, Fin 4, Fin 5] pt
      in andThen (addVals ([Fin 1] @ replicate (nat (PtVal cfg)) (Fin 3) @ [Fin 5]) pt)
           (\<lambda>pt. ret (at_time cfg i pt)))"

definition populateDoubleHistogram :: "MetricsCfg \<Rightarrow> hist_pt timed list go" where
  "populateDoubleHistogram cfg = each (doublePoint cfg) (indices (NumPtsPerMetric cfg))"

definition expoPoint :: "MetricsCfg \<Rightarrow> nat \<Rightarrow> exp_pt timed" where
  "expoPoint cfg i =
     (let v = PtVal cfg
      in at_time cfg i \<lparr>e_attrs = populatePtAttributes cfg [], e_count = of_int v,
           e_sum = Some (fmul (Fin 100) (f64_of_int v)), e_min = Some (f64_of_int v), e_max = Some (f64_of_int v),
           e_zero = of_int v, e_scale = of_int v, e_positive = \<lparr>b_offset = of_int v, b_counts = [of_int v]\<rparr>,
           e_negative = \<lparr>b_offset = 0, b_counts = []\<rparr>, e_exemplars = [], e_rest = 0\<rparr>)"

definition populateExpoHistogram :: "MetricsCfg \<Rightarrow> exp_pt timed list" where
  "populateExpoHistogram cfg = map (expoPoint cfg) (indices (NumPtsPerMetric cfg))"

section \<open>Metrics\<close>

definition populateData :: "MetricsCfg \<Rightarrow> golden_data go" where
  "populateData cfg =
     (case MetricDescriptorType cfg of
        TypeGauge \<Rightarrow> andThen (populateNumberPoints cfg) (\<lambda>ps. ret (GoldenGauge ps))
      | TypeSum \<Rightarrow> andThen (populateNumberPoints cfg) (\<lambda>ps. ret (GoldenSum (IsMonotonicSum cfg) cumulative ps))
      | TypeHistogram \<Rightarrow> andThen (populateDoubleHistogram cfg) (\<lambda>ps. ret (GoldenHistogram cumulative ps))
      | TypeExponential \<Rightarrow> ret (GoldenExponential cumulative (populateExpoHistogram cfg))
      | TypeSummary \<Rightarrow> panic ''unsupported type summary''
      | TypeEmpty \<Rightarrow> ret GoldenNone)"

text \<open>The generator's state is the number of the next metric.\<close>

definition populateMetricDesc :: "MetricsCfg \<Rightarrow> nat \<Rightarrow> golden_metric \<Rightarrow> nat \<times> golden_metric" where
  "populateMetricDesc cfg metricID m =
     (metricID + 1, m\<lparr>gm_name := MetricNamePrefix cfg @ ''metric_'' @ nat_str metricID,
        gm_description := ''my-md-description'', gm_unit := ''my-md-units''\<rparr>)"

text \<open>A loop that threads the generator's state and appends one element per round.\<close>

fun rounds :: "('s \<Rightarrow> ('s \<times> 'b) go) \<Rightarrow> nat \<Rightarrow> 's \<Rightarrow> ('s \<times> 'b list) go" where
  "rounds f 0 s = ret (s, [])"
| "rounds f (Suc n) s =
     andThen (f s) (\<lambda>(s, y). andThen (rounds f n s) (\<lambda>(s, ys). ret (s, y # ys)))"

definition populateMetric :: "MetricsCfg \<Rightarrow> nat \<Rightarrow> (nat \<times> golden_metric) go" where
  "populateMetric cfg metricID =
     (let (metricID, m) = populateMetricDesc cfg metricID \<lparr>gm_name = [], gm_description = [], gm_unit = [], gm_data = GoldenNone\<rparr>
      in andThen (populateData cfg) (\<lambda>d. ret (metricID, m\<lparr>gm_data := d\<rparr>)))"

definition populateMetrics :: "MetricsCfg \<Rightarrow> nat \<Rightarrow> (nat \<times> golden_metric list) go" where
  "populateMetrics cfg = rounds (populateMetric cfg) (nat (NumMetricsPerILM cfg))"

definition populateIlm :: "MetricsCfg \<Rightarrow> nat \<Rightarrow> (nat \<times> golden_metric list list) go" where
  "populateIlm cfg = rounds (populateMetrics cfg) (nat (NumILMPerResource cfg))"

definition resourceAttrs :: "MetricsCfg \<Rightarrow> attrs" where
  "resourceAttrs cfg =
     foldl (\<lambda>a j. attr_put (''resource-attr-name-'' @ nat_str j) (VStr (''resource-attr-val-'' @ nat_str j)) a)
       [] (indices (NumResourceAttrs cfg))"

definition genResource :: "MetricsCfg \<Rightarrow> nat \<Rightarrow> (nat \<times> golden_resource) go" where
  "genResource cfg metricID =
     andThen (populateIlm cfg metricID) (\<lambda>(metricID, scopes).
       ret (metricID, \<lparr>gr_attrs = resourceAttrs cfg, gr_scopes = scopes\<rparr>))"

definition genMetricFromCfg :: "MetricsCfg \<Rightarrow> nat \<Rightarrow> (nat \<times> golden_resource list) go" where
  "genMetricFromCfg cfg = rounds (genResource cfg) (nat (NumResourceMetrics cfg))"

definition MetricsFromCfg :: "MetricsCfg \<Rightarrow> golden_resource list go" where
  "MetricsFromCfg cfg = andThen (genMetricFromCfg cfg 0) (\<lambda>(_, md). ret md)"

section \<open>Shapes from a table\<close>

record PICTMetricInputs =
  pmi_points :: string
  pmi_type :: string
  pmi_labels :: string
  pmi_attrs :: string

definition pictType :: "string \<Rightarrow> MetricsCfg \<Rightarrow> MetricsCfg go" where
  "pictType t cfg =
     (let number = (\<lambda>d v. cfg\<lparr>MetricDescriptorType := d, MetricValueType := v\<rparr>);
          sum = (\<lambda>v mono. ret ((number TypeSum v)\<lparr>IsMonotonicSum := mono\<rparr>))
      in if t = ''IntGauge'' then ret (number TypeGauge ValueInt)
         else if t = ''MonotonicIntSum'' then sum ValueInt True
         else if t = ''NonMonotonicIntSum'' then sum ValueInt False
         else if t = ''DoubleGauge'' then ret (number TypeGauge ValueDouble)
         else if t = ''MonotonicDoubleSum'' then sum ValueDouble True
         else if t = ''NonMonotonicDoubleSum'' then sum ValueDouble False
         else if t = ''DoubleExemplarsHistogram'' \<or> t = ''IntExemplarsHistogram'' then ret (number TypeHistogram ValueEmpty)
         else panic (''Should not happen, unsupported type '' @ t))"

text \<open>A text that names none of the cases leaves the default.\<close>

definition pick :: "(string \<times> int) list \<Rightarrow> string \<Rightarrow> int \<Rightarrow> int" where
  "pick cs s d = (case map_of cs s of Some n \<Rightarrow> n | None \<Rightarrow> d)"

definition pictToCfg :: "PICTMetricInputs \<Rightarrow> MetricsCfg go" where
  "pictToCfg inputs =
     (let cfg = DefaultCfg;
          cfg = cfg\<lparr>NumResourceAttrs := pick [(''NoAttrs'', 0), (''OneAttr'', 1), (''TwoAttrs'', 2)] (pmi_attrs inputs) (NumResourceAttrs cfg)\<rparr>;
          cfg = cfg\<lparr>NumPtsPerMetric := pick [(''OnePt'', 1), (''ManyPts'', 16)] (pmi_points inputs) (NumPtsPerMetric cfg)\<rparr>
      in andThen (pictType (pmi_type inputs) cfg) (\<lambda>cfg.
           ret (cfg\<lparr>NumPtLabels := pick [(''NoLabels'', 0), (''OneLabel'', 1), (''ManyLabels'', 16)] (pmi_labels inputs) (NumPtLabels cfg)\<rparr>)))"

definition generateRow :: "nat \<times> string list \<Rightarrow> golden_resource list go" where
  "generateRow iv =
     (case iv of
        (i, a # b # c # _) \<Rightarrow>
          andThen (pictToCfg \<lparr>pmi_points = a, pmi_type = b, pmi_labels = c, pmi_attrs = []\<rparr>)
            (\<lambda>cfg. MetricsFromCfg (cfg\<lparr>MetricNamePrefix := ''pict_'' @ nat_str i @ ''_''\<rparr>))
      | _ \<Rightarrow> panic ''index out of range'')"

text \<open>\<open>load\<close> is \<open>loadPictOutputFile\<close>. The first row holds the headings.\<close>

definition GenerateMetrics :: "(string \<Rightarrow> string + string list list) \<Rightarrow> string \<Rightarrow> (string + golden_resource list list) go" where
  "GenerateMetrics load metricPairsFile =
     (case load metricPairsFile of
        Inl e \<Rightarrow> ret (Inl e)
      | Inr rows \<Rightarrow>
          andThen (each generateRow (drop 1 (zip [0..<length rows] rows))) (\<lambda>out. ret (Inr out)))"

section \<open>What is generated\<close>

lemma each_ret: "(\<And>x. x \<in> set xs \<Longrightarrow> f x = ret (g x)) \<Longrightarrow> each f xs = ret (map g xs)"
  by (induction xs) auto

lemma each_cong [fundef_cong]: "xs = ys \<Longrightarrow> (\<And>x. x \<in> set ys \<Longrightarrow> f x = g x) \<Longrightarrow> each f xs = each g ys"
  by (induction xs arbitrary: ys) auto

lemma each_returns: "returns (each f xs) \<longleftrightarrow> (\<forall>x\<in>set xs. returns (f x))"
proof (induction xs)
  case (Cons x xs)
  then show ?case by (cases "f x"; cases "each f xs") auto
qed simp

lemma rounds_ret:
  "(\<And>s. f s = ret (s + k, y s)) \<Longrightarrow> rounds f n s = ret (s + n * k, map (\<lambda>j. y (s + j * k)) [0..<n])"
proof (induction n arbitrary: s)
  case (Suc n)
  have "map (\<lambda>j. y (s + k + j * k)) [0..<n] = map (\<lambda>j. y (s + j * k)) (map Suc [0..<n])"
    by (simp add: add.assoc)
  also have "map Suc [0..<n] = [1..<Suc n]" by (simp add: map_Suc_upt)
  finally show ?case using Suc by (simp add: upt_conv_Cons add.assoc del: upt_Suc)
qed simp

text \<open>When the data can be generated at all, the shape of the result is that of the configuration.\<close>

definition metric_of :: "MetricsCfg \<Rightarrow> golden_data \<Rightarrow> nat \<Rightarrow> golden_metric" where
  "metric_of cfg d i = \<lparr>gm_name = MetricNamePrefix cfg @ ''metric_'' @ nat_str i,
     gm_description = ''my-md-description'', gm_unit = ''my-md-units'', gm_data = d\<rparr>"

definition metric_grid :: "MetricsCfg \<Rightarrow> golden_data \<Rightarrow> golden_resource list" where
  "metric_grid cfg d =
     (let M = nat (NumMetricsPerILM cfg); I = nat (NumILMPerResource cfg)
      in map (\<lambda>r. \<lparr>gr_attrs = resourceAttrs cfg,
           gr_scopes = map (\<lambda>i. map (\<lambda>j. metric_of cfg d (r * (I * M) + i * M + j)) [0..<M]) [0..<I]\<rparr>)
         [0..<nat (NumResourceMetrics cfg)])"

lemma MetricsFromCfg_grid:
  assumes "populateData cfg = ret d"
  shows "MetricsFromCfg cfg = ret (metric_grid cfg d)"
proof -
  let ?M = "nat (NumMetricsPerILM cfg)" and ?I = "nat (NumILMPerResource cfg)"
  have "populateMetric cfg s = ret (s + 1, metric_of cfg d s)" for s
    by (simp add: populateMetric_def populateMetricDesc_def metric_of_def assms)
  then have "populateMetrics cfg s = ret (s + ?M, map (\<lambda>j. metric_of cfg d (s + j)) [0..<?M])" for s
    using rounds_ret [of "populateMetric cfg" 1 "metric_of cfg d" ?M s] by (simp add: populateMetrics_def)
  then have "populateIlm cfg s = ret (s + ?I * ?M, map (\<lambda>i. map (\<lambda>j. metric_of cfg d (s + i * ?M + j)) [0..<?M]) [0..<?I])" for s
    unfolding populateIlm_def by (rule rounds_ret)
  then have "genResource cfg s = ret (s + ?I * ?M, \<lparr>gr_attrs = resourceAttrs cfg,
      gr_scopes = map (\<lambda>i. map (\<lambda>j. metric_of cfg d (s + i * ?M + j)) [0..<?M]) [0..<?I]\<rparr>)" for s
    by (simp add: genResource_def)
  from rounds_ret [of "genResource cfg", OF this, of "nat (NumResourceMetrics cfg)" 0] show ?thesis
    by (simp add: MetricsFromCfg_def genMetricFromCfg_def metric_grid_def Let_def)
qed

definition grid_metrics :: "golden_resource list \<Rightarrow> golden_metric list" where
  "grid_metrics rs = concat (map (\<lambda>r. concat (gr_scopes r)) rs)"

lemma concat_blocks: "concat (map (\<lambda>i. map (\<lambda>j. f (b + i * m + j)) [0..<m]) [0..<n]) = map (\<lambda>k. f (b + k)) [0..<n * m]"
proof (induction n)
  case (Suc n)
  have "[0..<Suc n * m] = [0..<n * m] @ [n * m..<n * m + m]"
    using upt_add_eq_append [of 0 "n * m" m] by (simp only: mult_Suc add.commute [of m] le0)
  moreover have "map (\<lambda>k. f (b + k)) [n * m..<n * m + m] = map (\<lambda>j. f (b + n * m + j)) [0..<m]"
    by (rule nth_equalityI) (simp_all add: add.assoc)
  ultimately show ?case using Suc by simp
qed simp

lemma grid_metrics_grid:
  "grid_metrics (metric_grid cfg d) = map (metric_of cfg d)
     [0..<nat (NumResourceMetrics cfg) * (nat (NumILMPerResource cfg) * nat (NumMetricsPerILM cfg))]"
proof -
  let ?M = "nat (NumMetricsPerILM cfg)" and ?I = "nat (NumILMPerResource cfg)"
  have "concat (map (\<lambda>i. map (\<lambda>j. metric_of cfg d (r * (?I * ?M) + i * ?M + j)) [0..<?M]) [0..<?I]) =
      map (\<lambda>k. metric_of cfg d (0 + r * (?I * ?M) + k)) [0..<?I * ?M]" for r
    by (simp add: concat_blocks)
  then show ?thesis
    using concat_blocks [of "metric_of cfg d" 0 "?I * ?M" "nat (NumResourceMetrics cfg)"]
    by (simp add: grid_metrics_def metric_grid_def Let_def comp_def)
qed

lemma grid_names_distinct: "distinct (map gm_name (grid_metrics (metric_grid cfg d)))"
  by (simp add: grid_metrics_grid metric_of_def comp_def distinct_map inj_on_def)

text \<open>Which configurations can be generated.\<close>

lemma numberPoint_returns: "returns (numberPoint cfg i) \<longleftrightarrow> MetricValueType cfg \<noteq> ValueEmpty"
  by (cases "MetricValueType cfg") (simp_all add: numberPoint_def Let_def)

lemma addVals_spec:
  assumes "h_bounds pt = [Fin 1, Fin 2, Fin 3, Fin 4, Fin 5]" "h_counts pt = [a, 0, b, 0, c, 0]"
  shows "addDoubleHistogramVal (Fin 1) pt = ret (pt\<lparr>h_count := h_count pt + 1,
      h_sum := Some (fadd (case h_sum pt of None \<Rightarrow> Fin 0 | Some s \<Rightarrow> s) (Fin 1)), h_counts := [a + 1, 0, b, 0, c, 0]\<rparr>)"
    "addDoubleHistogramVal (Fin 3) pt = ret (pt\<lparr>h_count := h_count pt + 1,
      h_sum := Some (fadd (case h_sum pt of None \<Rightarrow> Fin 0 | Some s \<Rightarrow> s) (Fin 3)), h_counts := [a, 0, b + 1, 0, c, 0]\<rparr>)"
    "addDoubleHistogramVal (Fin 5) pt = ret (pt\<lparr>h_count := h_count pt + 1,
      h_sum := Some (fadd (case h_sum pt of None \<Rightarrow> Fin 0 | Some s \<Rightarrow> s) (Fin 5)), h_counts := [a, 0, b, 0, c + 1, 0]\<rparr>)"
  using assms by (simp_all add: addDoubleHistogramVal_def fle_def numeral_3_eq_3 numeral_eq_Suc)

lemma addVals_append: "addVals (xs @ ys) pt = andThen (addVals xs pt) (addVals ys)"
  by (induction xs arbitrary: pt) (auto simp: andThen_def split: sum.splits)

lemma addVals_threes:
  "h_bounds pt = [Fin 1, Fin 2, Fin 3, Fin 4, Fin 5] \<Longrightarrow> h_counts pt = [a, 0, b, 0, c, 0] \<Longrightarrow>
     \<exists>s. addVals (replicate n (Fin 3)) pt =
       ret (pt\<lparr>h_count := h_count pt + of_nat n, h_sum := s, h_counts := [a, 0, b + of_nat n, 0, c, 0]\<rparr>)"
proof (induction n arbitrary: pt b)
  case 0
  have "pt\<lparr>h_count := h_count pt, h_sum := h_sum pt, h_counts := [a, 0, b, 0, c, 0]\<rparr> = pt"
    using 0 by simp
  then show ?case by (intro exI [of _ "h_sum pt"]) simp
next
  case (Suc n)
  let ?p = "pt\<lparr>h_count := h_count pt + 1, h_sum := Some (fadd (case h_sum pt of None \<Rightarrow> Fin 0 | Some s \<Rightarrow> s) (Fin 3)),
      h_counts := [a, 0, b + 1, 0, c, 0]\<rparr>"
  from Suc.IH [of ?p "b + 1"] Suc.prems obtain s where
    "addVals (replicate n (Fin 3)) ?p = ret (?p\<lparr>h_count := h_count ?p + of_nat n, h_sum := s,
       h_counts := [a, 0, b + 1 + of_nat n, 0, c, 0]\<rparr>)" by auto
  with addVals_spec(2) [OF Suc.prems] show ?case by (auto simp: algebra_simps)
qed

text \<open>Every observation of a generated histogram is in a bucket.\<close>

lemma doublePoint_counts:
  "\<exists>pt. doublePoint cfg i = ret (at_time cfg i pt) \<and> h_count pt = of_nat (nat (PtVal cfg)) + 2 \<and>
     h_counts pt = [1, 0, of_nat (nat (PtVal cfg)), 0, 1, 0] \<and> sum_list (h_counts pt) = h_count pt \<and>
     h_attrs pt = populatePtAttributes cfg []"
proof -
  let ?n = "nat (PtVal cfg)"
  let ?p = "setDoubleHistogramBounds [Fin 1, Fin 2, Fin 3, Fin 4, Fin 5]
    \<lparr>h_attrs = populatePtAttributes cfg [], h_count = 0, h_sum = None, h_counts = [], h_bounds = [], h_exemplars = [], h_rest = 0\<rparr>"
  have p: "h_bounds ?p = [Fin 1, Fin 2, Fin 3, Fin 4, Fin 5]" "h_counts ?p = [0, 0, 0, 0, 0, 0]" "h_count ?p = 0"
    "h_attrs ?p = populatePtAttributes cfg []"
    by (simp_all add: setDoubleHistogramBounds_def)
  obtain p1 where p1: "addDoubleHistogramVal (Fin 1) ?p = ret p1" "h_bounds p1 = [Fin 1, Fin 2, Fin 3, Fin 4, Fin 5]"
    "h_counts p1 = [1, 0, 0, 0, 0, 0]" "h_count p1 = 1" "h_attrs p1 = populatePtAttributes cfg []"
    using addVals_spec(1) [OF p(1,2)] p by simp
  obtain p2 where p2: "addVals (replicate ?n (Fin 3)) p1 = ret p2" "h_bounds p2 = [Fin 1, Fin 2, Fin 3, Fin 4, Fin 5]"
    "h_counts p2 = [1, 0, of_nat ?n, 0, 0, 0]" "h_count p2 = 1 + of_nat ?n" "h_attrs p2 = populatePtAttributes cfg []"
    using addVals_threes [OF p1(2,3), of ?n] p1 by auto
  obtain p3 where p3: "addDoubleHistogramVal (Fin 5) p2 = ret p3" "h_counts p3 = [1, 0, of_nat ?n, 0, 1, 0]"
    "h_count p3 = 2 + of_nat ?n" "h_attrs p3 = populatePtAttributes cfg []"
    using addVals_spec(3) [OF p2(2,3)] p2 by simp
  have "doublePoint cfg i = ret (at_time cfg i p3)"
    using p1(1) p2(1) p3(1) by (simp add: doublePoint_def Let_def addVals_append)
  with p3 show ?thesis by (auto simp: add.commute)
qed

lemma doublePoint_returns: "returns (doublePoint cfg i)"
  using doublePoint_counts [of cfg i] by (metis returns_simps(1))

lemma indices_empty: "(\<forall>i\<in>set (indices n). P) \<longleftrightarrow> P \<or> n \<le> 0"
  by (cases "n \<le> 0") (auto simp: indices_def intro: exI [of _ 0])

lemma populateData_returns:
  "returns (populateData cfg) \<longleftrightarrow> MetricDescriptorType cfg \<noteq> TypeSummary \<and>
     (MetricDescriptorType cfg \<in> {TypeGauge, TypeSum} \<longrightarrow> MetricValueType cfg = ValueEmpty \<longrightarrow> NumPtsPerMetric cfg \<le> 0)"
proof -
  have "returns (populateNumberPoints cfg) \<longleftrightarrow> MetricValueType cfg \<noteq> ValueEmpty \<or> NumPtsPerMetric cfg \<le> 0"
    unfolding populateNumberPoints_def each_returns numberPoint_returns by (rule indices_empty)
  moreover have "returns (populateDoubleHistogram cfg)"
    by (simp add: populateDoubleHistogram_def each_returns doublePoint_returns)
  ultimately show ?thesis
    by (cases "MetricDescriptorType cfg") (auto simp: populateData_def returns_iff andThen_Inr_iff)
qed

definition golden_types :: "string list" where
  "golden_types = [''IntGauge'', ''MonotonicIntSum'', ''NonMonotonicIntSum'', ''DoubleGauge'', ''MonotonicDoubleSum'',
     ''NonMonotonicDoubleSum'', ''DoubleExemplarsHistogram'', ''IntExemplarsHistogram'']"

lemma pictType_ok:
  assumes "t \<in> set golden_types"
  shows "\<exists>cfg'. pictType t cfg = ret cfg' \<and> NumResourceAttrs cfg' = NumResourceAttrs cfg \<and>
     NumResourceMetrics cfg' = NumResourceMetrics cfg \<and> NumILMPerResource cfg' = NumILMPerResource cfg \<and>
     NumMetricsPerILM cfg' = NumMetricsPerILM cfg \<and> (MetricDescriptorType cfg' = TypeHistogram \<or>
     MetricDescriptorType cfg' \<in> {TypeGauge, TypeSum} \<and> MetricValueType cfg' \<noteq> ValueEmpty)"
proof -
  have "t = ''IntGauge'' \<or> t = ''MonotonicIntSum'' \<or> t = ''NonMonotonicIntSum'' \<or> t = ''DoubleGauge'' \<or>
      t = ''MonotonicDoubleSum'' \<or> t = ''NonMonotonicDoubleSum'' \<or> t = ''DoubleExemplarsHistogram'' \<or>
      t = ''IntExemplarsHistogram''"
    using assms unfolding golden_types_def by (simp only: list.set insert_iff empty_iff simp_thms)
  then show ?thesis by (elim disjE) (simp_all add: pictType_def)
qed

lemma default_simps [simp]:
  "NumResourceAttrs DefaultCfg = 1" "NumPtsPerMetric DefaultCfg = 1" "NumPtLabels DefaultCfg = 1"
  "NumResourceMetrics DefaultCfg = 1" "NumILMPerResource DefaultCfg = 1" "NumMetricsPerILM DefaultCfg = 1"
  by (simp_all add: DefaultCfg_def)

lemma pick_other: "map_of cs s = None \<Longrightarrow> pick cs s d = d"
  by (simp add: pick_def)

lemma nat_str_digits_01: "nat_str 0 = ''0''" "nat_str (Suc 0) = ''1''"
  by code_simp+

text \<open>
  The fourth column of the table, the number of attributes of a resource, is not read: every resource has one.
\<close>

lemma generateRow_ok:
  assumes "t \<in> set golden_types"
  shows "\<exists>cfg d. generateRow (i, a # t # c # rest) = ret (metric_grid cfg d) \<and> NumResourceAttrs cfg = 1 \<and>
     NumResourceMetrics cfg = 1 \<and> NumILMPerResource cfg = 1 \<and> NumMetricsPerILM cfg = 1 \<and>
     MetricNamePrefix cfg = ''pict_'' @ nat_str i @ ''_''"
proof -
  let ?c = "DefaultCfg\<lparr>NumPtsPerMetric := pick [(''OnePt'', 1), (''ManyPts'', 16)] a 1\<rparr>"
  obtain c' where t: "pictType t ?c = ret c'" "NumResourceAttrs c' = 1" "NumResourceMetrics c' = 1"
    "NumILMPerResource c' = 1" "NumMetricsPerILM c' = 1"
    "MetricDescriptorType c' = TypeHistogram \<or> MetricDescriptorType c' \<in> {TypeGauge, TypeSum} \<and> MetricValueType c' \<noteq> ValueEmpty"
    using pictType_ok [OF assms, of ?c] by auto
  let ?cfg = "c'\<lparr>NumPtLabels := pick [(''NoLabels'', 0), (''OneLabel'', 1), (''ManyLabels'', 16)] c (NumPtLabels c'),
    MetricNamePrefix := ''pict_'' @ nat_str i @ ''_''\<rparr>"
  have "returns (populateData ?cfg)" using t(6) by (auto simp: populateData_returns)
  then obtain x where "populateData ?cfg = ret x" by (auto simp: returns_iff)
  then have "MetricsFromCfg ?cfg = ret (metric_grid ?cfg x)" by (rule MetricsFromCfg_grid)
  moreover have "generateRow (i, a # t # c # rest) = MetricsFromCfg ?cfg"
    using t(1) by (simp add: generateRow_def pictToCfg_def pick_other)
  ultimately show ?thesis using t by (intro exI [of _ ?cfg] exI [of _ x]) simp
qed

text \<open>A table whose rows name known types gives, for every row after the headings, one metric
  whose name holds the number of the row, so that no two metrics of the golden data share a name.\<close>

theorem golden_metrics_named:
  assumes "load f = Inr rows" "\<And>r. r \<in> set (drop 1 rows) \<Longrightarrow> 3 \<le> length r \<and> r ! 1 \<in> set golden_types"
  shows "\<exists>out. GenerateMetrics load f = ret (Inr out) \<and>
     map (map gm_name \<circ> grid_metrics) out = map (\<lambda>i. [''pict_'' @ nat_str i @ ''_metric_0'']) [1..<length rows] \<and>
     distinct (concat (map (map gm_name \<circ> grid_metrics) out))"
proof -
  let ?rs = "drop 1 (zip [0..<length rows] rows)"
  let ?P = "\<lambda>i md. map gm_name (grid_metrics md) = [''pict_'' @ nat_str i @ ''_metric_0'']"
  have "\<exists>md. generateRow (i, r) = ret md \<and> ?P i md" if "(i, r) \<in> set ?rs" for i r
  proof -
    have "r \<in> set (drop 1 rows)" using that by (auto simp: drop_zip dest: set_zip_rightD)
    with assms(2) have "3 \<le> length r" "r ! 1 \<in> set golden_types" by blast+
    then obtain a t c rest where r: "r = a # t # c # rest" "t \<in> set golden_types"
      by (cases r; cases "tl r"; cases "tl (tl r)") (auto simp: Suc_le_eq numeral_3_eq_3)
    obtain cfg d where "generateRow (i, r) = ret (metric_grid cfg d)" "NumResourceMetrics cfg = 1" "NumILMPerResource cfg = 1"
      "NumMetricsPerILM cfg = 1" "MetricNamePrefix cfg = ''pict_'' @ nat_str i @ ''_''"
      using generateRow_ok [OF r(2), of i a c rest] r(1) by blast
    then show ?thesis by (simp add: grid_metrics_grid metric_of_def nat_str_digits_01)
  qed
  then have "\<forall>x\<in>set ?rs. \<exists>md. generateRow x = ret md \<and> ?P (fst x) md" by force
  from bchoice [OF this] obtain g where g: "\<And>x. x \<in> set ?rs \<Longrightarrow> generateRow x = ret (g x) \<and> ?P (fst x) (g x)"
    by blast
  have "GenerateMetrics load f = ret (Inr (map g ?rs))"
    using assms(1) g each_ret [of ?rs generateRow g] by (simp add: GenerateMetrics_def)
  moreover have "map (map gm_name \<circ> grid_metrics) (map g ?rs) = map (\<lambda>i. [''pict_'' @ nat_str i @ ''_metric_0'']) [1..<length rows]"
  proof -
    have "map (map gm_name \<circ> grid_metrics) (map g ?rs) = map (\<lambda>x. [''pict_'' @ nat_str (fst x) @ ''_metric_0'']) ?rs"
      using g by simp
    also have "\<dots> = map (\<lambda>i. [''pict_'' @ nat_str i @ ''_metric_0'']) (map fst ?rs)" by simp
    also have "map fst ?rs = [1..<length rows]" by (simp add: drop_map [symmetric] drop_upt)
    finally show ?thesis .
  qed
  moreover have "distinct (concat (map (\<lambda>i. [''pict_'' @ nat_str i @ ''_metric_0'']) [1..<length rows]))"
    by (simp add: concat_map_singleton distinct_map inj_on_def)
  ultimately show ?thesis by metis
qed

lemma golden_metrics_named_witness:
  "\<exists>out. GenerateMetrics (\<lambda>f. Inr [[''NumPtsPerMetric'', ''MetricType'', ''NumPtLabels''],
        [''OnePt'', ''IntGauge'', ''NoLabels'']]) ''pairs.txt'' = ret (Inr out) \<and>
     map (map gm_name \<circ> grid_metrics) out = [[''pict_1_metric_0'']] \<and>
     distinct (concat (map (map gm_name \<circ> grid_metrics) out))"
  using golden_metrics_named [of "\<lambda>f. Inr [[''NumPtsPerMetric'', ''MetricType'', ''NumPtLabels''],
        [''OnePt'', ''IntGauge'', ''NoLabels'']]" "''pairs.txt''" "[[''NumPtsPerMetric'', ''MetricType'', ''NumPtLabels''],
        [''OnePt'', ''IntGauge'', ''NoLabels'']]"]
  by (simp add: golden_types_def nat_str_digits_01)

end
