(* ===== verification/Golden_Traces.thy ===== *)
theory Golden_Traces
  imports Test_Data Go_Encoding
begin

text \<open>
  The generators of golden traces (\<open>internal/coreinternal/goldendataset\<close>: traces_generator.go,
  span_generator.go, resource_generator.go): traces, spans, events and links of the shapes that tables of
  pairs name. The keys of attributes are those of the semantic conventions; the files with the tables, the
  stream of random words and the clock are parameters.
\<close>

section \<open>Random bytes and the clock\<close>

text \<open>The words that the seeded generator yields and the successive readings of \<open>UnixNano\<close>, by number.\<close>

record golden_env =
  ge_words :: "nat \<Rightarrow> 64 word"
  ge_clock :: "nat \<Rightarrow> int"

record golden_state =
  gs_words :: nat
  gs_clock :: nat

text \<open>\<open>randReader.Read\<close> into a slice of \<open>n\<close> bytes; it never fails.\<close>

fun readBytes :: "golden_env \<Rightarrow> nat \<Rightarrow> nat \<Rightarrow> string \<times> nat" where
  "readBytes E n i =
     (if 8 \<le> n then (case readBytes E (n - 8) (i + 1) of (p, j) \<Rightarrow> (be_bytes 8 (unat (ge_words E i)) @ p, j))
      else if 0 < n then (take n (be_bytes 8 (unat (ge_words E i))), i + 1)
      else ([], i))"

declare readBytes.simps [simp del]

definition generateTraceID :: "golden_env \<Rightarrow> golden_state \<Rightarrow> string \<times> golden_state" where
  "generateTraceID E st = (case readBytes E 16 (gs_words st) of (p, i) \<Rightarrow> (p, st\<lparr>gs_words := i\<rparr>))"

definition generateSpanID :: "golden_env \<Rightarrow> golden_state \<Rightarrow> string \<times> golden_state" where
  "generateSpanID E st = (case readBytes E 8 (gs_words st) of (p, i) \<Rightarrow> (p, st\<lparr>gs_words := i\<rparr>))"

definition now :: "golden_env \<Rightarrow> golden_state \<Rightarrow> int \<times> golden_state" where
  "now E st = (ge_clock E (gs_clock st), st\<lparr>gs_clock := gs_clock st + 1\<rparr>)"

definition empty_id :: "string \<Rightarrow> bool" where
  "empty_id s = list_all (\<lambda>c. c = CHR 0x00) s"

section \<open>Attributes\<close>

definition put_attrs :: "(string \<times> val) list \<Rightarrow> attrs \<Rightarrow> attrs" where
  "put_attrs kvs m = foldl (\<lambda>m (k, v). attr_put k v m) m kvs"

definition appendDatabaseSQLAttributes :: "attrs \<Rightarrow> attrs" where
  "appendDatabaseSQLAttributes = put_attrs
     [(''db.system'', VStr ''mysql''),
      (''db.connection_string'', VStr ''Server=shopdb.example.com;Database=ShopDb;Uid=billing_user;TableCache=true;UseCompression=True;MinimumPoolSize=10;MaximumPoolSize=50;''),
      (''db.user'', VStr ''billing_user''), (''net.host.ip'', VStr ''192.0.3.122''),
      (''net.host.port'', VInt 51306), (''net.peer.name'', VStr ''shopdb.example.com''),
      (''net.peer.ip'', VStr ''192.0.2.12''), (''net.peer.port'', VInt 3306),
      (''net.transport'', VStr ''IP.TCP''), (''db.name'', VStr ''shopdb''),
      (''db.statement'', VStr (''SELECT * FROM orders WHERE order_id = '' @ [CHR 0x27] @ ''o4711'' @ [CHR 0x27])),
      (''enduser.id'', VStr ''unittest'')]"

definition appendDatabaseNoSQLAttributes :: "attrs \<Rightarrow> attrs" where
  "appendDatabaseNoSQLAttributes = put_attrs
     [(''db.system'', VStr ''mongodb''), (''db.user'', VStr ''the_user''),
      (''net.peer.name'', VStr ''mongodb0.example.com''), (''net.peer.ip'', VStr ''192.0.2.14''),
      (''net.peer.port'', VInt 27017), (''net.transport'', VStr ''IP.TCP''), (''db.name'', VStr ''shopDb''),
      (''db.operation'', VStr ''findAndModify''), (''db.mongodb.collection'', VStr ''products''),
      (''enduser.id'', VStr ''unittest'')]"

definition appendFaaSDatasourceAttributes :: "attrs \<Rightarrow> attrs" where
  "appendFaaSDatasourceAttributes = put_attrs
     [(''faas.trigger'', VStr ''datasource''),
      (''faas.execution'', VStr ''DB85AF51-5E13-473D-8454-1E2D59415EAB''),
      (''faas.document.collection'', VStr ''faa-flight-delay-information-incoming''),
      (''faas.document.operation'', VStr ''insert''),
      (''faas.document.time'', VStr ''2020-05-09T19:50:06Z''),
      (''faas.document.name'', VStr ''delays-20200509-13.csv''), (''enduser.id'', VStr ''unittest'')]"

definition appendFaaSHTTPAttributes :: "bool \<Rightarrow> attrs \<Rightarrow> attrs" where
  "appendFaaSHTTPAttributes includeStatus = put_attrs (
     [(''faas.trigger'', VStr ''http''), (''http.method'', VStr ''POST''), (''http.scheme'', VStr ''https''),
      (''http.host'', VStr ''api.opentelemetry.io''), (''http.target'', VStr ''/blog/posts''),
      (''http.flavor'', VStr ''2'')] @
     (if includeStatus then [(''http.status_code'', VInt 201)] else []) @
     [(''http.user_agent'', VStr ''Mozilla/5.0 (Macintosh; Intel Mac OS X 10_15_4) AppleWebKit/605.1.15 (KHTML, like Gecko) Version/13.1 Safari/605.1.15''),
      (''enduser.id'', VStr ''unittest'')])"

definition appendFaaSPubSubAttributes :: "attrs \<Rightarrow> attrs" where
  "appendFaaSPubSubAttributes = put_attrs
     [(''faas.trigger'', VStr ''pubsub''), (''messaging.system'', VStr ''sqs''),
      (''messaging.destination'', VStr ''video-views-au''), (''messaging.operation'', VStr ''process''),
      (''enduser.id'', VStr ''unittest'')]"

definition appendFaaSTimerAttributes :: "attrs \<Rightarrow> attrs" where
  "appendFaaSTimerAttributes = put_attrs
     [(''faas.trigger'', VStr ''timer''),
      (''faas.execution'', VStr ''73103A4C-E22F-4493-BDE8-EAE5CAB37B50''),
      (''faas.time'', VStr ''2020-05-09T20:00:08Z''), (''faas.cron'', VStr ''0/15 * * * *''),
      (''enduser.id'', VStr ''unittest'')]"

definition appendFaaSOtherAttributes :: "attrs \<Rightarrow> attrs" where
  "appendFaaSOtherAttributes = put_attrs
     [(''faas.trigger'', VStr ''other''), (''processed.count'', VInt 256),
      (''processed.data'', VDouble (rnd (1446 / 100))), (''processed.errors'', VBool False),
      (''enduser.id'', VStr ''unittest'')]"

definition appendHTTPClientAttributes :: "bool \<Rightarrow> attrs \<Rightarrow> attrs" where
  "appendHTTPClientAttributes includeStatus = put_attrs (
     [(''http.method'', VStr ''GET''), (''http.url'', VStr ''https://opentelemetry.io/registry/'')] @
     (if includeStatus then [(''http.status_code'', VInt 200), (''http.status_text'', VStr ''More Than OK'')] else []) @
     [(''enduser.id'', VStr ''unittest'')])"

definition appendHTTPServerAttributes :: "bool \<Rightarrow> attrs \<Rightarrow> attrs" where
  "appendHTTPServerAttributes includeStatus = put_attrs (
     [(''http.method'', VStr ''POST''), (''http.scheme'', VStr ''https''),
      (''http.server_name'', VStr ''api22.opentelemetry.io''), (''net.host.port'', VInt 443),
      (''http.target'', VStr ''/blog/posts''), (''http.flavor'', VStr ''2'')] @
     (if includeStatus then [(''http.status_code'', VInt 201)] else []) @
     [(''http.user_agent'', VStr ''Mozilla/5.0 (Macintosh; Intel Mac OS X 10_15_4) AppleWebKit/537.36 (KHTML, like Gecko) Chrome/81.0.4044.138 Safari/537.36''),
      (''http.route'', VStr ''/blog/posts''), (''http.client_ip'', VStr ''2001:506:71f0:16e::1''),
      (''enduser.id'', VStr ''unittest'')])"

definition appendMessagingProducerAttributes :: "attrs \<Rightarrow> attrs" where
  "appendMessagingProducerAttributes = put_attrs
     [(''messaging.system'', VStr ''nats''), (''messaging.destination'', VStr ''time.us.east.atlanta''),
      (''messaging.destination_kind'', VStr ''topic''),
      (''messaging.message_id'', VStr ''AA7C5438-D93A-43C8-9961-55613204648F''),
      (''messaging.sequence'', VInt 1), (''net.peer.ip'', VStr ''10.10.212.33''),
      (''enduser.id'', VStr ''unittest'')]"

definition appendMessagingConsumerAttributes :: "attrs \<Rightarrow> attrs" where
  "appendMessagingConsumerAttributes = put_attrs
     [(''messaging.system'', VStr ''kafka''),
      (''messaging.destination'', VStr ''infrastructure-events-zone1''),
      (''messaging.operation'', VStr ''receive''),
      (''net.peer.ip'', VStr ''2600:1700:1f00:11c0:4de0:c223:a800:4e87''),
      (''enduser.id'', VStr ''unittest'')]"

definition appendGRPCClientAttributes :: "attrs \<Rightarrow> attrs" where
  "appendGRPCClientAttributes = put_attrs
     [(''rpc.service'', VStr ''PullRequestsService''),
      (''net.peer.ip'', VStr ''2600:1700:1f00:11c0:4de0:c223:a800:4e87''), (''net.host.port'', VInt 8443),
      (''enduser.id'', VStr ''unittest'')]"

definition appendGRPCServerAttributes :: "attrs \<Rightarrow> attrs" where
  "appendGRPCServerAttributes = put_attrs
     [(''rpc.service'', VStr ''PullRequestsService''), (''net.peer.ip'', VStr ''192.168.1.70''),
      (''enduser.id'', VStr ''unittest'')]"

definition appendInternalAttributes :: "attrs \<Rightarrow> attrs" where
  "appendInternalAttributes = put_attrs
     [(''parameters'', VStr ''account=7310,amount=1817.10''), (''enduser.id'', VStr ''unittest'')]"

definition appendMaxCountAttributes :: "bool \<Rightarrow> attrs \<Rightarrow> attrs" where
  "appendMaxCountAttributes includeStatus = put_attrs (
     [(''http.method'', VStr ''POST''), (''http.scheme'', VStr ''https''),
      (''http.host'', VStr ''api.opentelemetry.io''), (''net.host.name'', VStr ''api22.opentelemetry.io''),
      (''net.host.ip'', VStr ''2600:1700:1f00:11c0:1ced:afa5:fd88:9d48''), (''net.host.port'', VInt 443),
      (''http.target'', VStr ''/blog/posts''), (''http.flavor'', VStr ''2'')] @
     (if includeStatus then [(''http.status_code'', VInt 201), (''http.status_text'', VStr ''Created'')] else []) @
     [(''http.user_agent'', VStr ''Mozilla/5.0 (Macintosh; Intel Mac OS X 10_15_4) AppleWebKit/537.36 (KHTML, like Gecko) Chrome/81.0.4044.138 Safari/537.36''),
      (''http.route'', VStr ''/blog/posts''),
      (''http.client_ip'', VStr ''2600:1700:1f00:11c0:1ced:afa5:fd77:9d01''),
      (''peer.service'', VStr ''IdentifyImageService''),
      (''net.peer.ip'', VStr ''2600:1700:1f00:11c0:1ced:afa5:fd77:9ddc''), (''net.peer.port'', VInt 39111),
      (''ai-sampler.weight'', VDouble (rnd (7 / 100))), (''ai-sampler.absolute'', VBool False),
      (''ai-sampler.maxhops'', VInt 6),
      (''application.create.location'', VStr ''https://api.opentelemetry.io/blog/posts/806673B9-4F4D-4284-9635-3A3E3E3805BE''),
      (''application.stages'', VSlice [VStr ''Launch'', VStr ''Injestion'', VStr ''Validation'']),
      (''application.abflags'', VMap [(''UIx'', VBool False), (''UI4'', VBool True), (''flow-alt3'', VBool False)]),
      (''application.thread'', VStr ''proc-pool-14''), (''application.session'', VStr []),
      (''application.persist.size'', VInt 1172184), (''application.queue.size'', VInt 0),
      (''application.job.id'', VStr ''0E38800B-9C4C-484E-8F2B-C7864D854321''),
      (''application.service.sla'', VDouble (rnd (34 / 100))),
      (''application.service.slo'', VDouble (rnd (55 / 100))), (''enduser.id'', VStr ''unittest''),
      (''enduser.role'', VStr ''poweruser''), (''enduser.scope'', VStr ''email profile administrator'')])"

definition appendSpanAttributes :: "string \<Rightarrow> string \<Rightarrow> attrs \<Rightarrow> attrs" where
  "appendSpanAttributes spanTypeID statusStr =
     (let includeStatus = (statusStr \<noteq> ''Unset'')
      in if spanTypeID = ''Empty'' then (\<lambda>m. m)
         else if spanTypeID = ''DatabaseSQL'' then appendDatabaseSQLAttributes
         else if spanTypeID = ''DatabaseNoSQL'' then appendDatabaseNoSQLAttributes
         else if spanTypeID = ''FaaSDatasource'' then appendFaaSDatasourceAttributes
         else if spanTypeID = ''FaaSHTTP'' then appendFaaSHTTPAttributes includeStatus
         else if spanTypeID = ''FaaSPubSub'' then appendFaaSPubSubAttributes
         else if spanTypeID = ''FaaSTimer'' then appendFaaSTimerAttributes
         else if spanTypeID = ''FaaSOther'' then appendFaaSOtherAttributes
         else if spanTypeID = ''HTTPClient'' then appendHTTPClientAttributes includeStatus
         else if spanTypeID = ''HTTPServer'' then appendHTTPServerAttributes includeStatus
         else if spanTypeID = ''MessagingProducer'' then appendMessagingProducerAttributes
         else if spanTypeID = ''MessagingConsumer'' then appendMessagingConsumerAttributes
         else if spanTypeID = ''gRPCClient'' then appendGRPCClientAttributes
         else if spanTypeID = ''gRPCServer'' then appendGRPCServerAttributes
         else if spanTypeID = ''Internal'' then appendInternalAttributes
         else if spanTypeID = ''MaxCount'' then appendMaxCountAttributes includeStatus
         else appendGRPCClientAttributes)"

section \<open>Events and links\<close>

definition calculateListSize :: "string \<Rightarrow> nat" where
  "calculateListSize listCnt =
     (if listCnt = ''One'' then 1 else if listCnt = ''Two'' then 2 else if listCnt = ''Eight'' then 8 else 0)"

definition appendSpanEvent :: "golden_env \<Rightarrow> nat \<Rightarrow> golden_state \<Rightarrow> t_event \<times> golden_state" where
  "appendSpanEvent E index st =
     (let (t, st) = now E st;
          ev = (\<lambda>name kvs. \<lparr>ev_name = name, ev_time = of_int (t - 75000), ev_attrs = put_attrs kvs [], ev_rest = 0\<rparr>)
      in (if index mod 4 = 0 \<or> index mod 4 = 3 then
            ev ''message''
              [(''message.type'', VStr (if index mod 2 = 0 then ''SENT'' else ''RECEIVED'')),
               (''messaging.message_id'', VInt (int (index div 4))),
               (''messaging.message_payload_compressed_size_bytes'', VInt (int (17 * index))),
               (''messaging.message_payload_size_bytes'', VInt (int (24 * index)))]
          else if index mod 4 = 1 then
            ev ''custom''
              [(''app.inretry'', VBool True), (''app.progress'', VDouble (rnd (6 / 10))), (''app.statemap'', VStr ''14|5|202'')]
          else ev ''annotation'' [], st))"

definition appendSpanLink :: "golden_env \<Rightarrow> nat \<Rightarrow> golden_state \<Rightarrow> t_link \<times> golden_state" where
  "appendSpanLink E index st =
     (let (traceID, st) = generateTraceID E st;
          (spanID, st) = generateSpanID E st;
          a = (if index mod 4 \<noteq> 2 then appendMessagingConsumerAttributes [] else []);
          a = (if index mod 4 \<noteq> 2 \<and> index mod 4 = 1
               then put_attrs [(''app.inretry'', VBool True), (''app.progress'', VDouble (rnd (6 / 10))),
                      (''app.statemap'', VStr ''14|5|202'')] a
               else a)
      in (\<lparr>ln_trace = traceID, ln_span = spanID, ln_state = [], ln_attrs = a, ln_rest = 0\<rparr>, st))"

text \<open>A loop over indices that threads the state.\<close>

fun over :: "(nat \<Rightarrow> golden_state \<Rightarrow> 'a \<times> golden_state) \<Rightarrow> nat list \<Rightarrow> golden_state \<Rightarrow> 'a list \<times> golden_state" where
  "over f [] st = ([], st)"
| "over f (i # is) st =
     (let (x, st) = f i st; (xs, st) = over f is st in (x # xs, st))"

definition appendSpanEvents :: "golden_env \<Rightarrow> string \<Rightarrow> golden_state \<Rightarrow> t_event list \<times> golden_state" where
  "appendSpanEvents E eventCnt = over (appendSpanEvent E) [0..<calculateListSize eventCnt]"

definition appendSpanLinks :: "golden_env \<Rightarrow> string \<Rightarrow> golden_state \<Rightarrow> t_link list \<times> golden_state" where
  "appendSpanLinks E linkCnt = over (appendSpanLink E) [0..<calculateListSize linkCnt]"

section \<open>Spans\<close>

record PICTSpanInputs =
  psi_parent :: string
  psi_tracestate :: string
  psi_kind :: string
  psi_attributes :: string
  psi_events :: string
  psi_links :: string
  psi_status :: string

text \<open>A span with the message of its status, which the validator does not read.\<close>

record golden_span = t_span +
  gsp_message :: string

definition generateSpanName :: "PICTSpanInputs \<Rightarrow> string" where
  "generateSpanName p =
     concat (map (\<lambda>s. ''/'' @ s)
       [psi_parent p, psi_tracestate p, psi_kind p, psi_attributes p, psi_events p, psi_links p, psi_status p])"

definition generateTraceState :: "string \<Rightarrow> string" where
  "generateTraceState tracestate =
     (if tracestate = ''One'' then ''lasterror=f39cd56cc44274fd5abd07ef1164246d10ce2955''
      else if tracestate = ''Four'' then ''err@ck=80ee5638,rate@ck=1.62,rojo=00f067aa0ba902b7,congo=t61rcWkgMzE''
      else [])"

text \<open>The kinds of the data model by number.\<close>

definition lookupSpanKind :: "string \<Rightarrow> nat" where
  "lookupSpanKind kind =
     (if kind = ''Client'' then 3 else if kind = ''Server'' then 2 else if kind = ''Producer'' then 4
      else if kind = ''Consumer'' then 5 else if kind = ''Internal'' then 1 else 0)"

text \<open>A missing key of the two maps gives the zero value.\<close>

definition fillStatus :: "string \<Rightarrow> golden_span \<Rightarrow> golden_span" where
  "fillStatus statusStr sp =
     (if statusStr = ''Unset'' then sp
      else sp\<lparr>
        sp_code := (case map_of [(''Unset'', 0), (''Ok'', 1), (''Error'', 2)] statusStr of Some c \<Rightarrow> c | None \<Rightarrow> 0),
        gsp_message := (case map_of [(''Unset'', ''Unset''), (''Ok'', ''Ok''), (''Error'', ''Error'')] statusStr of
                          Some m \<Rightarrow> m | None \<Rightarrow> [])\<rparr>)"

definition fillSpan :: "golden_env \<Rightarrow> string \<Rightarrow> string \<Rightarrow> string \<Rightarrow> PICTSpanInputs \<Rightarrow> golden_state \<Rightarrow> golden_span \<times> golden_state" where
  "fillSpan E traceID parentID spanName p st =
     (let (t, st) = now E st;
          endTime = t - 50000;
          (spanID, st) = generateSpanID E st;
          (events, st) = appendSpanEvents E (psi_events p) st;
          (links, st) = appendSpanLinks E (psi_links p) st
      in (fillStatus (psi_status p)
            \<lparr>sp_trace = traceID, sp_id = spanID, sp_state = generateTraceState (psi_tracestate p), sp_parent = parentID,
             sp_name = spanName, sp_kind = lookupSpanKind (psi_kind p), sp_start = of_int (endTime - 215000000),
             sp_end = of_int endTime, sp_attrs = appendSpanAttributes (psi_attributes p) (psi_status p) [],
             sp_dropped_attrs = 0, sp_events = events, sp_dropped_events = 0, sp_links = links, sp_dropped_links = 0,
             sp_code = 0, sp_rest = 0, gsp_message = []\<rparr>, st))"

fun spanInputs :: "string list \<Rightarrow> PICTSpanInputs go" where
  "spanInputs (a # b # c # d # e # f # g # _) =
     ret \<lparr>psi_parent = a, psi_tracestate = b, psi_kind = c, psi_attributes = d, psi_events = e, psi_links = f, psi_status = g\<rparr>"
| "spanInputs _ = panic ''index out of range''"

text \<open>The trace and the parent that the next span gets.\<close>

definition nextParent :: "golden_env \<Rightarrow> string \<Rightarrow> string \<Rightarrow> string \<Rightarrow> golden_state \<Rightarrow> string \<times> string \<times> golden_state" where
  "nextParent E parent traceID parentID st =
     (if parent = ''Root'' then
        (let (traceID, st) = generateTraceID E st in (traceID, replicate 8 (CHR 0x00), st))
      else if parent = ''Child'' then
        (let (traceID, st) = (if empty_id traceID then generateTraceID E st else (traceID, st));
             (parentID, st) = (if empty_id parentID then generateSpanID E st else (parentID, st))
         in (traceID, parentID, st))
      else (traceID, parentID, st))"

fun appendLoop :: "golden_env \<Rightarrow> string list list \<Rightarrow> nat \<Rightarrow> nat \<Rightarrow> string \<Rightarrow> string \<Rightarrow> golden_state
     \<Rightarrow> (golden_span list \<times> golden_state) go" where
  "appendLoop E rows 0 index traceID parentID st = ret ([], st)"
| "appendLoop E rows (Suc n) index traceID parentID st =
     (let index = (if length rows \<le> index then 1 else index)
      in if length rows \<le> index then panic ''index out of range''
         else andThen (spanInputs (rows ! index)) (\<lambda>p.
           let (traceID, parentID, st) = nextParent E (psi_parent p) traceID parentID st;
               (sp, st) = fillSpan E traceID parentID (generateSpanName p) p st
           in andThen (appendLoop E rows n (index + 1) traceID parentID st)
                (\<lambda>(spans, st). ret (sp # spans, st))))"

text \<open>\<open>load\<close> is \<open>loadPictOutputFile\<close>.\<close>

definition appendSpans :: "golden_env \<Rightarrow> (string \<Rightarrow> string + string list list) \<Rightarrow> int \<Rightarrow> string \<Rightarrow> golden_state
     \<Rightarrow> (string + golden_span list \<times> golden_state) go" where
  "appendSpans E load n pictFile st =
     (case load pictFile of
        Inl e \<Rightarrow> ret (Inl e)
      | Inr rows \<Rightarrow>
          andThen (appendLoop E rows (nat n) 1 (replicate 16 (CHR 0x00)) (replicate 8 (CHR 0x00)) st)
            (\<lambda>r. ret (Inr r)))"

section \<open>Resources\<close>

definition appendOnpremVMAttributes :: "attrs \<Rightarrow> attrs" where
  "appendOnpremVMAttributes = put_attrs
     [(''service.name'', VStr ''customers''), (''service.namespace'', VStr ''production''),
      (''service.version'', VStr ''semver:0.7.3''),
      (''host.name'', VMap [(''public'', VStr ''tc-prod9.internal.example.com''), (''internal'', VStr ''172.18.36.18'')]),
      (''host.image.id'', VStr ''661ADFA6-E293-4870-9EFA-1AA052C49F18''),
      (''telemetry.sdk.language'', VStr ''java''), (''telemetry.sdk.name'', VStr ''opentelemetry''),
      (''telemetry.sdk.version'', VStr ''0.3.0'')]"

definition appendCloudVMAttributes :: "attrs \<Rightarrow> attrs" where
  "appendCloudVMAttributes = put_attrs
     [(''service.name'', VStr ''shoppingcart''), (''service.name'', VStr ''customers''),
      (''service.namespace'', VStr ''production''), (''service.version'', VStr ''semver:0.7.3''),
      (''telemetry.sdk.language'', VStr ''java''), (''telemetry.sdk.name'', VStr ''opentelemetry''),
      (''telemetry.sdk.version'', VStr ''0.3.0''), (''host.id'', VStr ''57e8add1f79a454bae9fb1f7756a009a''),
      (''host.name'', VStr ''env-check''), (''host.image.id'', VStr ''5.3.0-1020-azure''),
      (''host.type'', VStr ''B1ms''), (''cloud.provider'', VStr ''azure''),
      (''cloud.account.id'', VStr ''2f5b8278-4b80-4930-a6bb-d86fc63a2534''),
      (''cloud.region'', VStr ''South Central US'')]"

definition appendOnpremK8sAttributes :: "attrs \<Rightarrow> attrs" where
  "appendOnpremK8sAttributes = put_attrs
     [(''container.name'', VStr ''cert-manager''),
      (''container.image.name'', VStr ''quay.io/jetstack/cert-manager-controller''),
      (''container.image.tag'', VStr ''v0.14.2''), (''k8s.cluster.name'', VStr ''docker-desktop''),
      (''k8s.namespace.name'', VStr ''cert-manager''), (''k8s.deployment.name'', VStr ''cm-1-cert-manager''),
      (''k8s.pod.name'', VStr ''cm-1-cert-manager-6448b4949b-t2jtd''),
      (''host.name'', VStr ''docker-desktop'')]"

definition appendCloudK8sAttributes :: "attrs \<Rightarrow> attrs" where
  "appendCloudK8sAttributes = put_attrs
     [(''container.name'', VStr ''otel-collector''),
      (''container.image.name'', VStr ''otel/opentelemetry-collector-contrib''),
      (''container.image.tag'', VStr ''0.4.0''), (''k8s.cluster.name'', VStr ''erp-dev''),
      (''k8s.namespace.name'', VStr ''monitoring''), (''k8s.deployment.name'', VStr ''otel-collector''),
      (''k8s.deployment.uid'', VStr ''4D614B27-EDAF-409B-B631-6963D8F6FCD4''),
      (''k8s.replicaset.name'', VStr ''otel-collector-2983fd34''),
      (''k8s.replicaset.uid'', VStr ''EC7D59EF-D5B6-48B7-881E-DA6B7DD539B6''),
      (''k8s.pod.name'', VStr ''otel-collector-6484db5844-c6f9m''),
      (''k8s.pod.uid'', VStr ''FDFD941E-2A7A-4945-B601-88DD486161A4''),
      (''host.id'', VStr ''ec2e3fdaffa294348bdf355156b94cda''), (''host.name'', VStr ''10.99.118.157''),
      (''host.image.id'', VStr ''ami-011c865bf7da41a9d''), (''host.type'', VStr ''m5.xlarge''),
      (''cloud.provider'', VStr ''aws''), (''cloud.account.id'', VStr ''12345678901''),
      (''cloud.region'', VStr ''us-east-1''), (''cloud.availability_zone'', VStr ''us-east-1c'')]"

definition appendFassAttributes :: "attrs \<Rightarrow> attrs" where
  "appendFassAttributes = put_attrs
     [(''faas.id'', VStr ''https://us-central1-dist-system-demo.cloudfunctions.net/env-vars-print''),
      (''faas.name'', VStr ''env-vars-print''), (''faas.version'', VStr ''semver:1.0.0''),
      (''cloud.provider'', VStr ''gcp''), (''cloud.account.id'', VStr ''opentelemetry''),
      (''cloud.region'', VStr ''us-central1''), (''cloud.availability_zone'', VStr ''us-central1-a'')]"

definition appendExecAttributes :: "attrs \<Rightarrow> attrs" where
  "appendExecAttributes = put_attrs
     [(''process.executable.name'', VStr ''otelcol''),
      (''process.command_line'', VSlice [VStr ''otelcol'', VStr ''--config=/etc/otel-collector-config.yaml'']),
      (''process.executable.path'', VStr ''/usr/local/bin/otelcol''), (''process.pid'', VInt 2020),
      (''process.owner'', VStr ''otel''), (''os.type'', VStr ''linux''),
      (''os.description'', VStr ''Linux ubuntu 5.4.0-42-generic #46-Ubuntu SMP Fri Jul 10 00:24:02 UTC 2020 x86_64 x86_64 x86_64 GNU/Linux'')]"

definition GenerateResource :: "string \<Rightarrow> attrs" where
  "GenerateResource rscID =
     (if rscID = ''VMOnPrem'' then appendOnpremVMAttributes []
      else if rscID = ''VMCloud'' then appendCloudVMAttributes []
      else if rscID = ''K8sOnPrem'' then appendOnpremK8sAttributes []
      else if rscID = ''K8sCloud'' then appendCloudK8sAttributes []
      else if rscID = ''Faas'' then appendFassAttributes []
      else if rscID = ''Exec'' then appendExecAttributes []
      else [])"

section \<open>Traces\<close>

record PICTTracingInputs =
  pti_resource :: string
  pti_library :: string
  pti_spans :: string

record golden_scope =
  gsc_name :: string
  gsc_version :: string
  gsc_spans :: "golden_span list"

record golden_trace =
  gtr_attrs :: attrs
  gtr_scopes :: "golden_scope list"

definition fillInstrumentationLibrary :: "PICTTracingInputs \<Rightarrow> nat \<Rightarrow> golden_scope \<Rightarrow> golden_scope" where
  "fillInstrumentationLibrary t index scope =
     (if pti_library t = ''None'' then scope
      else scope\<lparr>
        gsc_name := pti_resource t @ ''-'' @ pti_library t @ ''-'' @ pti_spans t @ ''-'' @ nat_str index,
        gsc_version := (if 0 < index then [] else ''semver:1.1.7'')\<rparr>)"

definition countTotalSpanCases :: "(string \<Rightarrow> string + string list list) \<Rightarrow> string \<Rightarrow> string + int" where
  "countTotalSpanCases load f = (case load f of Inl e \<Rightarrow> Inl e | Inr rows \<Rightarrow> Inr (int (length rows) - 1))"

definition fillScopeSpans :: "golden_env \<Rightarrow> (string \<Rightarrow> string + string list list) \<Rightarrow> string \<Rightarrow> PICTTracingInputs \<Rightarrow> nat
     \<Rightarrow> golden_state \<Rightarrow> (string + golden_scope \<times> golden_state) go" where
  "fillScopeSpans E load spanPairsFile t index st =
     (case countTotalSpanCases load spanPairsFile of
        Inl e \<Rightarrow> ret (Inl e)
      | Inr cases \<Rightarrow>
          (let scope = fillInstrumentationLibrary t index \<lparr>gsc_name = [], gsc_version = [], gsc_spans = []\<rparr>
           in if pti_spans t = ''None'' then ret (Inr (scope, st))
              else andThen (appendSpans E load
                       (if pti_spans t = ''One'' then 1 else if pti_spans t = ''Several'' then quot cases 4
                        else if pti_spans t = ''All'' then cases else 16) spanPairsFile st)
                (\<lambda>r. case r of Inl e \<Rightarrow> ret (Inl e)
                            | Inr (spans, st) \<Rightarrow> ret (Inr (scope\<lparr>gsc_spans := spans\<rparr>, st)))))"

fun scopeLoop :: "golden_env \<Rightarrow> (string \<Rightarrow> string + string list list) \<Rightarrow> string \<Rightarrow> PICTTracingInputs \<Rightarrow> nat list
     \<Rightarrow> golden_state \<Rightarrow> (string + golden_scope list \<times> golden_state) go" where
  "scopeLoop E load f t [] st = ret (Inr ([], st))"
| "scopeLoop E load f t (i # is) st =
     andThen (fillScopeSpans E load f t i st) (\<lambda>r. case r of
       Inl e \<Rightarrow> ret (Inl e)
     | Inr (scope, st) \<Rightarrow> andThen (scopeLoop E load f t is st) (\<lambda>r. case r of
         Inl e \<Rightarrow> ret (Inl e) | Inr (scopes, st) \<Rightarrow> ret (Inr (scope # scopes, st))))"

definition appendScopeSpans :: "golden_env \<Rightarrow> (string \<Rightarrow> string + string list list) \<Rightarrow> string \<Rightarrow> PICTTracingInputs
     \<Rightarrow> golden_state \<Rightarrow> (string + golden_scope list \<times> golden_state) go" where
  "appendScopeSpans E load f t =
     scopeLoop E load f t
       [0..<if pti_library t = ''None'' \<or> pti_library t = ''One'' then 1 else if pti_library t = ''Two'' then 2 else 0]"

definition appendResourceSpan :: "golden_env \<Rightarrow> (string \<Rightarrow> string + string list list) \<Rightarrow> string \<Rightarrow> PICTTracingInputs
     \<Rightarrow> golden_state \<Rightarrow> (string + golden_trace \<times> golden_state) go" where
  "appendResourceSpan E load f t st =
     andThen (appendScopeSpans E load f t st) (\<lambda>r. case r of
       Inl e \<Rightarrow> ret (Inl e)
     | Inr (scopes, st) \<Rightarrow> ret (Inr (\<lparr>gtr_attrs = GenerateResource (pti_resource t), gtr_scopes = scopes\<rparr>, st)))"

text \<open>
  The loop over the rows after the headings. When a row fails the function returns nil and \<open>err\<close>, the error of
  loading the table of traces, which is nil there: the error of the spans is lost.
\<close>

fun traceLoop :: "golden_env \<Rightarrow> (string \<Rightarrow> string + string list list) \<Rightarrow> string \<Rightarrow> string list list \<Rightarrow> golden_trace list
     \<Rightarrow> golden_state \<Rightarrow> (golden_trace list option \<times> string option) go" where
  "traceLoop E load f [] traces st = ret (Some traces, None)"
| "traceLoop E load f (values # rows) traces st =
     (case values of
        a # b # c # _ \<Rightarrow>
          andThen (appendResourceSpan E load f \<lparr>pti_resource = a, pti_library = b, pti_spans = c\<rparr> st) (\<lambda>r. case r of
            Inl e \<Rightarrow> ret (None, None)
          | Inr (trace, st) \<Rightarrow> traceLoop E load f rows (traces @ [trace]) st)
      | _ \<Rightarrow> panic ''index out of range'')"

definition GenerateTraces :: "golden_env \<Rightarrow> (string \<Rightarrow> string + string list list) \<Rightarrow> string \<Rightarrow> string
     \<Rightarrow> (golden_trace list option \<times> string option) go" where
  "GenerateTraces E load tracePairsFile spanPairsFile =
     (case load tracePairsFile of
        Inl e \<Rightarrow> ret (None, Some e)
      | Inr [] \<Rightarrow> panic ''makeslice: len out of range''
      | Inr (_ # rows) \<Rightarrow> traceLoop E load spanPairsFile rows [] \<lparr>gs_words = 0, gs_clock = 0\<rparr>)"

text \<open>What the provider of golden data hands on: the resource with its attributes, in it the scopes with the spans.\<close>

definition golden_nested :: "golden_trace \<Rightarrow> t_span nested" where
  "golden_nested t = [(gtr_attrs t, map (\<lambda>sc. map t_span.truncate (gsc_spans sc)) (gtr_scopes t))]"

section \<open>Spans follow the table\<close>

lemma fillSpan_name: "fillSpan E traceID parentID name p st = (sp, st') \<Longrightarrow> sp_name sp = name \<and> sp_parent sp = parentID"
  by (auto simp: fillSpan_def fillStatus_def Let_def split: prod.splits if_splits)

lemma nextParent_cases: "\<exists>t q s. nextParent E parent traceID parentID st = (t, q, s)"
  by (metis prod_cases3)

definition row_name :: "string list \<Rightarrow> string" where
  "row_name r = concat (map (\<lambda>s. ''/'' @ s) (take 7 r))"

lemma spanInputs_ok: "7 \<le> length r \<Longrightarrow> \<exists>p. spanInputs r = ret p \<and> generateSpanName p = row_name r"
proof -
  assume "7 \<le> length r"
  then obtain a b c d e f g rest where "r = a # b # c # d # e # f # g # rest"
    by (auto simp: numeral_eq_Suc Suc_le_length_iff)
  then show ?thesis by (simp add: generateSpanName_def row_name_def)
qed

lemma cycle_index:
  assumes "1 < (n :: nat)" "1 \<le> i" "i \<le> n"
  shows "(if n \<le> i then 1 else i) = 1 + (i - 1) mod (n - 1)"
  using assms by (cases "i = n") auto

lemma appendLoop_names:
  assumes "1 < length rows" "\<forall>r\<in>set (drop 1 rows). 7 \<le> length r" "1 \<le> index" "index \<le> length rows"
  shows "\<exists>spans st'. appendLoop E rows n index traceID parentID st = ret (spans, st') \<and>
     map sp_name spans = map (\<lambda>k. row_name (rows ! (1 + (index - 1 + k) mod (length rows - 1)))) [0..<n]"
  using assms(3,4)
proof (induction n arbitrary: index traceID parentID st)
  case (Suc n)
  let ?i = "if length rows \<le> index then 1 else index"
  let ?m = "length rows - 1"
  have i: "?i < length rows" "1 \<le> ?i" using assms(1) Suc.prems by auto
  then have "rows ! ?i \<in> set (drop 1 rows)" by (auto simp: in_set_conv_nth intro!: exI [of _ "?i - 1"])
  then obtain p where p: "spanInputs (rows ! ?i) = ret p" "generateSpanName p = row_name (rows ! ?i)"
    using assms(2) spanInputs_ok by blast
  obtain t q s where np: "nextParent E (psi_parent p) traceID parentID st = (t, q, s)" using nextParent_cases by blast
  obtain sp s1 where fs: "fillSpan E t q (generateSpanName p) p s = (sp, s1)" by (metis surj_pair)
  have "1 \<le> ?i + 1" "?i + 1 \<le> length rows" using i by auto
  from Suc.IH [OF this, of t q s1] obtain spans st' where IH:
    "appendLoop E rows n (?i + 1) t q s1 = ret (spans, st')"
    "map sp_name spans = map (\<lambda>k. row_name (rows ! (1 + (?i + k) mod ?m))) [0..<n]"
    by auto
  have ci: "?i = 1 + (index - 1) mod ?m" using cycle_index [OF assms(1) Suc.prems] .
  have "(?i + k) mod ?m = (index - 1 + Suc k) mod ?m" for k
    by (subst ci) (metis add.assoc add.commute add_Suc mod_add_left_eq plus_1_eq_Suc)
  moreover have "appendLoop E rows (Suc n) index traceID parentID st = ret (sp # spans, st')"
    using i(1) p(1) np fs IH(1) by (simp add: Let_def)
  moreover have "sp_name sp = row_name (rows ! (1 + (index - 1 + 0) mod ?m))"
    using fillSpan_name [OF fs] p(2) ci by simp
  moreover have "[0..<Suc n] = 0 # map Suc [0..<n]" by (simp add: map_Suc_upt upt_conv_Cons del: upt_Suc)
  ultimately show ?case using IH(2) by (intro exI [of _ "sp # spans"] exI [of _ st']) (simp add: comp_def)
qed simp

text \<open>From a table with at least one row of seven columns after the headings, any number of spans
  is generated, and their names run through the rows in order, beginning anew after the last.\<close>

theorem golden_spans_cycle:
  assumes "load f = Inr rows" "1 < length rows" "\<forall>r\<in>set (drop 1 rows). 7 \<le> length r"
  shows "\<exists>spans st'. appendSpans E load n f st = ret (Inr (spans, st')) \<and> length spans = nat n \<and>
     map sp_name spans = map (\<lambda>k. row_name (rows ! (1 + k mod (length rows - 1)))) [0..<nat n]"
proof -
  obtain spans st' where s: "appendLoop E rows (nat n) 1 (replicate 16 (CHR 0x00)) (replicate 8 (CHR 0x00)) st = ret (spans, st')"
    "map sp_name spans = map (\<lambda>k. row_name (rows ! (1 + k mod (length rows - 1)))) [0..<nat n]"
    using appendLoop_names [OF assms(2,3), of 1 E "nat n" "replicate 16 (CHR 0x00)" "replicate 8 (CHR 0x00)" st] assms(2)
    by auto
  then have "length spans = nat n" by (metis length_map length_upt minus_nat.diff_0)
  with s assms(1) show ?thesis by (simp add: appendSpans_def)
qed

text \<open>A table with headings only makes the loop index past its end.\<close>

lemma headings_only_panics:
  "load f = Inr [hs] \<Longrightarrow> 0 < n \<Longrightarrow> appendSpans E load n f st = panic ''index out of range''"
  by (cases "nat n") (simp_all add: appendSpans_def)

section \<open>Lost errors\<close>

text \<open>Whatever goes wrong with the spans, the error that is reported is that of the table of traces.\<close>

lemma traceLoop_no_error: "traceLoop E load f rows traces st = ret (r, e) \<Longrightarrow> e = None"
proof (induction rows arbitrary: traces st)
  case (Cons vs rows)
  obtain a b c rest where v: "vs = a # b # c # rest"
    using Cons.prems by (auto split: list.splits)
  obtain x where x: "appendResourceSpan E load f \<lparr>pti_resource = a, pti_library = b, pti_spans = c\<rparr> st = ret x"
    using Cons.prems v by (auto simp: andThen_Inr_iff)
  show ?case
  proof (cases x)
    case (Inr y)
    with Cons v x show ?thesis by (cases y) auto
  qed (use Cons.prems v x in \<open>simp\<close>)
qed simp

lemma appendResourceSpan_unreadable:
  "load f = Inl e \<Longrightarrow> pti_library t \<in> {''None'', ''One'', ''Two''} \<Longrightarrow> appendResourceSpan E load f t st = ret (Inl e)"
  by (auto simp: appendResourceSpan_def appendScopeSpans_def fillScopeSpans_def countTotalSpanCases_def upt_rec)

text \<open>
  A table of spans that cannot be read therefore looks to the provider of golden data like a test without
  data: it reports at once that it is done.
\<close>

lemma unreadable_spans_empty_test:
  assumes "load tf = Inr (hs # (a # b # c # rest) # rows)" "b \<in> {''None'', ''One'', ''Two''}" "load sf = Inl e"
  shows "GenerateTraces E load tf sf = ret (None, None)"
    "goldenTraces (map_option (map golden_nested) None) (NewGoldenDataProvider :: 'm goldenDataProvider) sent =
       (NewGoldenDataProvider, sent, [], True)"
  using assms appendResourceSpan_unreadable [of load sf e, OF assms(3)]
  by (simp_all add: GenerateTraces_def goldenTraces_def NewGoldenDataProvider_def sliced_def)

section \<open>Parents\<close>

text \<open>The words of the generator when it repeats none and yields no zero.\<close>

definition fresh_words :: "golden_env \<Rightarrow> bool" where
  "fresh_words E \<longleftrightarrow> inj (ge_words E) \<and> (\<forall>i. ge_words E i \<noteq> 0)"

definition word_id :: "golden_env \<Rightarrow> nat \<Rightarrow> string" where
  "word_id E i = be_bytes 8 (unat (ge_words E i))"

lemma word_id_inject: "fresh_words E \<Longrightarrow> word_id E i = word_id E j \<longleftrightarrow> i = j"
proof -
  assume f: "fresh_words E"
  have "unat (ge_words E k) < 256 ^ 8" for k using unsigned_less [of "ge_words E k"] by simp
  then have "word_id E i = word_id E j \<longleftrightarrow> ge_words E i = ge_words E j"
    by (simp add: word_id_def be_bytes_inject word_unat_eq_iff)
  with f show ?thesis by (auto simp: fresh_words_def dest: injD)
qed

lemma be_bytes_zero: "be_bytes 8 0 = replicate 8 (CHR 0x00)"
  by code_simp

lemma word_id_zero: "fresh_words E \<Longrightarrow> word_id E i \<noteq> replicate 8 (CHR 0x00)"
proof -
  assume f: "fresh_words E"
  have "unat (ge_words E i) < 256 ^ 8" using unsigned_less [of "ge_words E i"] by simp
  then have "word_id E i = be_bytes 8 0 \<longleftrightarrow> ge_words E i = 0"
    by (simp add: word_id_def be_bytes_inject unat_eq_zero)
  with f show ?thesis by (simp add: fresh_words_def be_bytes_zero)
qed

lemma generateSpanID_word: "generateSpanID E st = (word_id E (gs_words st), st\<lparr>gs_words := gs_words st + 1\<rparr>)"
  by (simp add: generateSpanID_def word_id_def readBytes.simps [of E 8] readBytes.simps [of E 0])

lemma generateTraceID_words: "gs_words (snd (generateTraceID E st)) = gs_words st + 2"
  by (simp add: generateTraceID_def readBytes.simps [of E 16] readBytes.simps [of E 8] readBytes.simps [of E 0])

lemma over_words:
  "(\<And>i st. gs_words st \<le> gs_words (snd (f i st))) \<Longrightarrow> gs_words st \<le> gs_words (snd (over f is st))"
  by (induction "is" arbitrary: st) (auto simp: Let_def split: prod.splits, metis order_trans snd_conv)

lemma fillSpan_id:
  assumes "fillSpan E t q name p st = (sp, st')"
  shows "sp_id sp = word_id E (gs_words st)" "gs_words st < gs_words st'"
proof -
  define s1 where "s1 = snd (generateSpanID E (snd (now E st)))"
  define s2 where "s2 = snd (appendSpanEvents E (psi_events p) s1)"
  have "gs_words s1 = gs_words st + 1" by (simp add: s1_def now_def generateSpanID_word)
  moreover have "gs_words s1 \<le> gs_words s2" unfolding s2_def appendSpanEvents_def
    by (rule over_words) (simp add: appendSpanEvent_def now_def)
  moreover have "gs_words s2 \<le> gs_words (snd (appendSpanLinks E (psi_links p) s2))" unfolding appendSpanLinks_def
  proof (rule over_words)
    fix i s
    have "gs_words (snd (appendSpanLink E i s)) = gs_words (snd (generateTraceID E s)) + 1"
      by (simp add: appendSpanLink_def generateSpanID_word Let_def split: prod.splits)
    then show "gs_words s \<le> gs_words (snd (appendSpanLink E i s))" by (simp add: generateTraceID_words)
  qed
  moreover have "st' = snd (appendSpanLinks E (psi_links p) s2)"
    using assms by (auto simp: fillSpan_def s2_def s1_def Let_def split: prod.splits)
  ultimately show "gs_words st < gs_words st'" by simp
  show "sp_id sp = word_id E (gs_words st)"
    using assms by (auto simp: fillSpan_def fillStatus_def now_def generateSpanID_word Let_def split: prod.splits if_splits)
qed

lemma nextParent_parent:
  assumes "nextParent E k t q st = (t', q', st')"
  shows "(q' = q \<and> gs_words st \<le> gs_words st') \<or> (q' = replicate 8 (CHR 0x00) \<and> gs_words st \<le> gs_words st') \<or>
     (\<exists>i. q' = word_id E i \<and> gs_words st \<le> i \<and> i < gs_words st')"
proof -
  obtain x s where x: "generateTraceID E st = (x, s)" by (cases "generateTraceID E st")
  with generateTraceID_words [of E st] have s: "gs_words s = gs_words st + 2" by simp
  show ?thesis
    using assms x s by (auto simp: nextParent_def generateSpanID_word Let_def split: if_splits)
qed

text \<open>
  The words before the current one are partitioned: those below it that became identifiers of spans, and
  those that became parents. A parent is the empty identifier or one of the latter.
\<close>

definition parent_of_words :: "golden_env \<Rightarrow> nat set \<Rightarrow> string \<Rightarrow> bool" where
  "parent_of_words E P q \<longleftrightarrow> q = replicate 8 (CHR 0x00) \<or> (\<exists>i\<in>P. q = word_id E i)"

lemma appendLoop_parents:
  assumes "appendLoop E rows n index t q st = ret (spans, st')" "parent_of_words E P q" "P \<subseteq> {..<gs_words st}"
  shows "\<exists>I P'. I \<inter> P' = {} \<and> I \<subseteq> {gs_words st..} \<and> P' \<subseteq> P \<union> {gs_words st..} \<and>
     (\<forall>sp\<in>set spans. sp_id sp \<in> word_id E ` I \<and> parent_of_words E P' (sp_parent sp))"
  using assms
proof (induction n arbitrary: index t q st spans P)
  case 0
  then show ?case by (intro exI [of _ "{}"]) auto
next
  case (Suc n)
  let ?i = "if length rows \<le> index then 1 else index"
  from Suc.prems(1) obtain p where p: "spanInputs (rows ! ?i) = ret p"
    by (auto simp: Let_def andThen_Inr_iff split: if_splits)
  obtain t1 q1 s1 where np: "nextParent E (psi_parent p) t q st = (t1, q1, s1)" using nextParent_cases by blast
  obtain sp s2 where fs: "fillSpan E t1 q1 (generateSpanName p) p s1 = (sp, s2)" by (metis surj_pair)
  from Suc.prems(1) p np fs obtain spans1 where
    rest: "appendLoop E rows n (?i + 1) t1 q1 s2 = ret (spans1, st')" "spans = sp # spans1"
    by (auto simp: Let_def andThen_Inr_iff split: if_splits)
  have sp: "sp_id sp = word_id E (gs_words s1)" "sp_parent sp = q1" "gs_words s1 < gs_words s2"
    using fillSpan_id [OF fs] fillSpan_name [OF fs] by simp_all
  obtain P1 where P1: "P1 \<subseteq> P \<union> {gs_words st..<gs_words s1}" "parent_of_words E P1 q1" "gs_words st \<le> gs_words s1"
  proof -
    consider "q1 = q" "gs_words st \<le> gs_words s1" | "q1 = replicate 8 (CHR 0x00)" "gs_words st \<le> gs_words s1"
      | i where "q1 = word_id E i" "gs_words st \<le> i" "i < gs_words s1"
      using nextParent_parent [OF np] by blast
    then show thesis
    proof cases
      case 1
      with Suc.prems(2) show thesis by (intro that [of P]) auto
    next
      case 2
      then show thesis by (intro that [of P]) (auto simp: parent_of_words_def)
    next
      case 3
      then show thesis by (intro that [of "insert i P"]) (auto simp: parent_of_words_def)
    qed
  qed
  have below: "P1 \<subseteq> {..<gs_words s1}" using P1(1,3) Suc.prems(3) by fastforce
  then have "P1 \<subseteq> {..<gs_words s2}" using sp(3) by auto
  from Suc.IH [OF rest(1) P1(2) this] obtain I P' where IH: "I \<inter> P' = {}" "I \<subseteq> {gs_words s2..}"
    "P' \<subseteq> P1 \<union> {gs_words s2..}" "\<forall>sp\<in>set spans1. sp_id sp \<in> word_id E ` I \<and> parent_of_words E P' (sp_parent sp)"
    by blast
  let ?I = "insert (gs_words s1) I" and ?P = "P1 \<union> P'"
  have "?I \<inter> ?P = {}" using IH(1,2,3) below sp(3) by fastforce
  moreover have "?I \<subseteq> {gs_words st..}" using IH(2) P1(3) sp(3) by fastforce
  moreover have "?P \<subseteq> P \<union> {gs_words st..}" using IH(3) P1(1,3) sp(3) by fastforce
  moreover have "\<forall>x\<in>set spans. sp_id x \<in> word_id E ` ?I \<and> parent_of_words E ?P (sp_parent x)"
    using IH(4) rest(2) sp P1(2) by (auto simp: parent_of_words_def)
  ultimately show ?case by blast
qed

text \<open>While the random words do not repeat, no generated span is the parent of another: the
  parent of a child is a fresh identifier that no span bears.\<close>

theorem golden_children_orphans:
  assumes "fresh_words E" "appendSpans E load n f st = ret (Inr (spans, st'))"
  shows "sp_id ` set spans \<inter> sp_parent ` set spans = {}"
proof -
  obtain rows where loop:
    "appendLoop E rows (nat n) 1 (replicate 16 (CHR 0x00)) (replicate 8 (CHR 0x00)) st = ret (spans, st')"
    using assms(2) by (auto simp: appendSpans_def andThen_Inr_iff split: sum.splits)
  have "parent_of_words E {} (replicate 8 (CHR 0x00))" by (simp add: parent_of_words_def)
  from appendLoop_parents [OF loop this] obtain I P where IP: "I \<inter> P = {}"
    "\<forall>sp\<in>set spans. sp_id sp \<in> word_id E ` I \<and> parent_of_words E P (sp_parent sp)" by auto
  have "sp_id a \<noteq> sp_parent b" if ab: "a \<in> set spans" "b \<in> set spans" for a b
  proof -
    from IP(2) ab obtain i where i: "i \<in> I" "sp_id a = word_id E i" by auto
    from IP(2) ab have "parent_of_words E P (sp_parent b)" by auto
    with i IP(1) word_id_inject [OF assms(1)] word_id_zero [OF assms(1)] show ?thesis
      by (auto simp: parent_of_words_def)
  qed
  then show ?thesis by auto
qed

section \<open>Attributes\<close>

lemma put_attrs_ok: "gomap_ok m \<Longrightarrow> gomap_ok (put_attrs kvs m)"
  by (induction kvs arbitrary: m) (auto simp: put_attrs_def attr_put_def)

text \<open>A later value of a key replaces the earlier one, as for the name of the service of a cloud machine.\<close>

lemma cloud_service_name: "attr_get (appendCloudVMAttributes []) ''service.name'' = Some (VStr ''customers'')"
  by (simp add: appendCloudVMAttributes_def put_attrs_def attr_put_def attr_get_def)

end
