(* ===== verification/Metric_Harness.thy ===== *)
theory Metric_Harness
  imports Metric_Diff
begin

text \<open>
  The correctness test of metrics (testbed/correctnesstests/metrics: metric_supplier.go, metric_index.go,
  metrics_test_harness.go): a supplier hands out the metrics to be sent, an index remembers which of them came back, and
  the harness, the consumer at the end of the pipeline, compares what it receives with what was sent, closes a channel
  when everything came back, and sends the next metric. The sender is a parameter; the list of accepted differences
  stands for the \<open>diffConsumer\<close>. A step returns the state it leaves and, when it does not return, why.
\<close>

section \<open>The supplier\<close>

record metricSupplier =
  pdms :: "t_resource list list"
  currIdx :: nat

definition newMetricSupplier :: "t_resource list list \<Rightarrow> metricSupplier" where
  "newMetricSupplier ps = \<lparr>pdms = ps, currIdx = 0\<rparr>"

text \<open>The metrics are \<open>None\<close> when the supplier is done; an index past the end panics.\<close>

definition nextMetrics :: "metricSupplier \<Rightarrow> (t_resource list option \<times> metricSupplier) go" where
  "nextMetrics p =
     (if currIdx p = length (pdms p) then ret (None, p)
      else if length (pdms p) < currIdx p then panic ''index out of range''
      else ret (Some (pdms p ! currIdx p), p\<lparr>currIdx := currIdx p + 1\<rparr>))"

section \<open>The index of what was received\<close>

record metricReceived =
  r_pdm :: "t_resource list"
  r_received :: bool

type_synonym metricsReceivedIndex = "(string, metricReceived) gomap"

definition elem_at :: "'a list \<Rightarrow> nat \<Rightarrow> 'a go" where
  "elem_at xs i = (if i < length xs then ret (xs ! i) else panic ''index out of range'')"

text \<open>\<open>pdm.ResourceMetrics().At(0).ScopeMetrics().At(0).Metrics()\<close>\<close>

definition first_metrics :: "t_resource list \<Rightarrow> t_metric list go" where
  "first_metrics p = andThen (elem_at p 0) (\<lambda>r. andThen (elem_at (r_scopes r) 0) (\<lambda>s. ret (s_metrics s)))"

definition first_metric :: "t_resource list \<Rightarrow> t_metric go" where
  "first_metric p = andThen (first_metrics p) (\<lambda>ms. elem_at ms 0)"

fun indexFrom :: "metricsReceivedIndex \<Rightarrow> t_resource list list \<Rightarrow> metricsReceivedIndex go" where
  "indexFrom mi [] = ret mi"
| "indexFrom mi (p # ps) =
     andThen (first_metric p) (\<lambda>m. indexFrom (AList.update (m_name m) \<lparr>r_pdm = p, r_received = False\<rparr> mi) ps)"

definition newMetricsReceivedIndex :: "t_resource list list \<Rightarrow> metricsReceivedIndex go" where
  "newMetricsReceivedIndex ps = indexFrom [] ps"

definition lookup_metric :: "metricsReceivedIndex \<Rightarrow> string \<Rightarrow> metricReceived option" where
  "lookup_metric mi name = map_of mi name"

definition allReceived :: "metricsReceivedIndex \<Rightarrow> bool" where
  "allReceived mi = list_all (\<lambda>(_, m). r_received m) mi"

section \<open>The harness\<close>

record testHarness =
  h_supplier :: metricSupplier
  h_index :: metricsReceivedIndex
  h_sent :: "t_resource list list"
  h_accepted :: "(string \<times> MetricDiff list) list"
  outOfMetrics :: bool
  allMetricsReceived :: bool

type_synonym harness_outcome = "testHarness \<times> string option"

definition newTestHarness :: "metricSupplier \<Rightarrow> metricsReceivedIndex \<Rightarrow> testHarness" where
  "newTestHarness s mi = \<lparr>h_supplier = s, h_index = mi, h_sent = [], h_accepted = [], outOfMetrics = False,
     allMetricsReceived = False\<rparr>"

text \<open>\<open>send n\<close> is the sender's answer to the n-th batch; \<open>require.NoError\<close> ends the goroutine on an error.\<close>

definition sendNextMetric :: "(nat \<Rightarrow> string option) \<Rightarrow> testHarness \<Rightarrow> harness_outcome" where
  "sendNextMetric send h =
     (case nextMetrics (h_supplier h) of
        Inl e \<Rightarrow> (h, Some e)
      | Inr (None, s) \<Rightarrow> (h\<lparr>h_supplier := s, outOfMetrics := True\<rparr>, None)
      | Inr (Some p, s) \<Rightarrow>
          let h' = h\<lparr>h_supplier := s, outOfMetrics := False, h_sent := h_sent h @ [p]\<rparr>
          in (h', send (length (h_sent h))))"

definition accept :: "string \<Rightarrow> MetricDiff list \<Rightarrow> testHarness \<Rightarrow> testHarness" where
  "accept name ds h = h\<lparr>h_accepted := h_accepted h @ [(name, ds)]\<rparr>"

text \<open>\<open>lookup_metric\<close> returns a pointer, nil when the name is not in the index, and the entry is updated through it.\<close>

fun compareLoop :: "lib \<Rightarrow> MetricDiff list \<Rightarrow> t_metric list \<Rightarrow> testHarness \<Rightarrow> harness_outcome" where
  "compareLoop L ds [] h = (h, None)"
| "compareLoop L ds (m # ms) h =
     (case lookup_metric (h_index h) (m_name m) of
        None \<Rightarrow>
          (accept (m_name m) [\<lparr>ExpectedValue = GoString (m_name m), ActualValue = GoNil,
             Msg = ''Metric name not found in index''\<rparr>] h,
           Some ''invalid memory address or nil pointer dereference'')
      | Some r \<Rightarrow>
          if r_received r then compareLoop L ds ms h
          else
            let h1 = h\<lparr>h_index := AList.update (m_name m) (r\<lparr>r_received := True\<rparr>) (h_index h)\<rparr>
            in case andThen (first_metric (r_pdm r)) (\<lambda>e. DiffMetric L ds e m) of
                 Inl e \<Rightarrow> (h1, Some e)
               | Inr ds1 \<Rightarrow> compareLoop L ds1 ms (accept (m_name m) ds1 h1))"

definition compare_received :: "lib \<Rightarrow> t_resource list \<Rightarrow> testHarness \<Rightarrow> harness_outcome" where
  "compare_received L p h = (case first_metrics p of Inl e \<Rightarrow> (h, Some e) | Inr ms \<Rightarrow> compareLoop L [] ms h)"

definition closeReceived :: "testHarness \<Rightarrow> harness_outcome" where
  "closeReceived h =
     (if allMetricsReceived h then (h, Some ''close of closed channel'') else (h\<lparr>allMetricsReceived := True\<rparr>, None))"

definition harnessConsume :: "lib \<Rightarrow> (nat \<Rightarrow> string option) \<Rightarrow> t_resource list \<Rightarrow> testHarness \<Rightarrow> harness_outcome" where
  "harnessConsume L send p h =
     (case compare_received L p h of
        (h1, Some e) \<Rightarrow> (h1, Some e)
      | (h1, None) \<Rightarrow>
          (case (if allReceived (h_index h1) then closeReceived h1 else (h1, None)) of
             (h2, Some e) \<Rightarrow> (h2, Some e)
           | (h2, None) \<Rightarrow> if outOfMetrics h2 then (h2, None) else sendNextMetric send h2))"

section \<open>What was compared\<close>

text \<open>
  In every run that has not panicked, the names accepted are, each once, the names the index marks as received; the
  metrics sent are the first ones of the supplier, and the channel is closed only when everything was received.
\<close>

definition marked :: "metricsReceivedIndex \<Rightarrow> string set" where
  "marked mi = {k. \<exists>r. lookup_metric mi k = Some r \<and> r_received r}"

definition harness_ok :: "testHarness \<Rightarrow> bool" where
  "harness_ok h \<longleftrightarrow> gomap_ok (h_index h) \<and> distinct (map fst (h_accepted h)) \<and>
     set (map fst (h_accepted h)) = marked (h_index h) \<and> (allMetricsReceived h \<longrightarrow> allReceived (h_index h)) \<and>
     currIdx (h_supplier h) \<le> length (pdms (h_supplier h)) \<and>
     h_sent h = take (currIdx (h_supplier h)) (pdms (h_supplier h))"

lemma marked_update: "marked (AList.update k (r\<lparr>r_received := True\<rparr>) mi) = insert k (marked mi)"
  by (auto simp: marked_def lookup_metric_def)

lemma allReceived_update: "allReceived mi \<Longrightarrow> r_received r \<Longrightarrow> allReceived (AList.update k r mi)"
  by (induction mi) (auto simp: allReceived_def)

lemma sendNextMetric_ok: "harness_ok h \<Longrightarrow> harness_ok (fst (sendNextMetric send h))"
  by (auto simp: sendNextMetric_def nextMetrics_def harness_ok_def Let_def take_Suc_conv_app_nth
      split: sum.splits option.splits prod.splits if_splits)

lemma compareLoop_ok:
  "harness_ok h \<Longrightarrow> compareLoop L ds ms h = (h', None) \<Longrightarrow> harness_ok h'"
proof (induction L ds ms h rule: compareLoop.induct)
  case (2 L ds m ms h)
  then obtain r where r: "lookup_metric (h_index h) (m_name m) = Some r" by (auto split: option.splits)
  show ?case
  proof (cases "r_received r")
    case True
    with 2 r show ?thesis by simp
  next
    case False
    define h1 where "h1 = h\<lparr>h_index := AList.update (m_name m) (r\<lparr>r_received := True\<rparr>) (h_index h)\<rparr>"
    from False 2(4) r obtain out where
      out: "andThen (first_metric (r_pdm r)) (\<lambda>e. DiffMetric L ds e m) = Inr out"
      "compareLoop L out ms (accept (m_name m) out h1) = (h', None)"
      by (auto simp: Let_def h1_def split: sum.splits)
    have "m_name m \<notin> marked (h_index h)" using False r by (simp add: marked_def)
    then have "harness_ok (accept (m_name m) out h1)"
      using 2(3) by (auto simp: harness_ok_def accept_def h1_def marked_update allReceived_update)
    with 2(2) [OF r False h1_def out(1)] out(2) show ?thesis by simp
  qed
qed simp

lemma harness_invariant:
  assumes "harness_ok h" "harnessConsume L send p h = (h', None)"
  shows "harness_ok h'"
proof -
  obtain h1 where h1: "compare_received L p h = (h1, None)"
    using assms(2) by (auto simp: harnessConsume_def split: prod.splits option.splits)
  then have ok1: "harness_ok h1"
    using assms(1) by (auto simp: compare_received_def intro: compareLoop_ok split: sum.splits)
  obtain h2 where h2: "(if allReceived (h_index h1) then closeReceived h1 else (h1, None)) = (h2, None)"
    "(if outOfMetrics h2 then (h2, None) else sendNextMetric send h2) = (h', None)"
    using assms(2) h1 by (auto simp: harnessConsume_def split: prod.splits option.splits)
  from h2(1) ok1 have "harness_ok h2" by (auto simp: closeReceived_def harness_ok_def simp del: set_map split: if_splits)
  with h2(2) show ?thesis by (metis fst_conv sendNextMetric_ok)
qed

section \<open>A pipeline that returns what was sent\<close>

text \<open>The first metric is sent, and then the harness receives, one after the other, the metrics it has sent.\<close>

fun echo :: "lib \<Rightarrow> nat \<Rightarrow> testHarness \<Rightarrow> harness_outcome" where
  "echo L 0 h = sendNextMetric (\<lambda>_. None) h"
| "echo L (Suc k) h =
     (case echo L k h of
        (h1, Some e) \<Rightarrow> (h1, Some e)
      | (h1, None) \<Rightarrow> harnessConsume L (\<lambda>_. None) (h_sent h1 ! k) h1)"

definition index_after :: "t_resource list list \<Rightarrow> t_metric list \<Rightarrow> nat \<Rightarrow> metricsReceivedIndex" where
  "index_after ps ms k = map (\<lambda>i. (m_name (ms ! i), \<lparr>r_pdm = ps ! i, r_received = i < k\<rparr>)) [0..<length ps]"

definition echoed :: "t_resource list list \<Rightarrow> t_metric list \<Rightarrow> nat \<Rightarrow> testHarness" where
  "echoed ps ms k = \<lparr>h_supplier = \<lparr>pdms = ps, currIdx = min (Suc k) (length ps)\<rparr>, h_index = index_after ps ms k,
     h_sent = take (Suc k) ps, h_accepted = map (\<lambda>m. (m_name m, [])) (take k ms),
     outOfMetrics = (k = length ps), allMetricsReceived = (k = length ps)\<rparr>"

definition singles :: "t_resource list list \<Rightarrow> t_metric list \<Rightarrow> bool" where
  "singles ps ms \<longleftrightarrow> list_all2 (\<lambda>p m. first_metrics p = ret [m]) ps ms \<and> distinct (map m_name ms)"

lemma singles_at: "singles ps ms \<Longrightarrow> i < length ps \<Longrightarrow> first_metrics (ps ! i) = ret [ms ! i]"
  by (auto simp: singles_def list_all2_conv_all_nth)

lemma singles_length: "singles ps ms \<Longrightarrow> length ms = length ps"
  by (auto simp: singles_def list_all2_lengthD)

lemma singles_name:
  "singles ps ms \<Longrightarrow> i < length ps \<Longrightarrow> j < length ps \<Longrightarrow> m_name (ms ! i) = m_name (ms ! j) \<longleftrightarrow> i = j"
  using singles_length [of ps ms] nth_eq_iff_index_eq [of "map m_name ms" i j] by (simp add: singles_def)

lemma update_fresh: "k \<notin> fst ` set m \<Longrightarrow> AList.update k v m = m @ [(k, v)]"
  by (induction m) auto

lemma update_present:
  "distinct (map fst m) \<Longrightarrow> k \<in> fst ` set m \<Longrightarrow>
     AList.update k v m = map (\<lambda>e. if fst e = k then (k, v) else e) m"
proof (induction m)
  case (Cons e m)
  have "map (\<lambda>e. if fst e = k then (k, v) else e) m = m" if "k \<notin> fst ` set m"
    using that by (intro map_idI) auto
  with Cons show ?case by (cases e) auto
qed simp

lemma indexFrom_singles:
  "list_all2 (\<lambda>p m. first_metrics p = ret [m]) ps ms \<Longrightarrow> distinct (map fst mi @ map m_name ms) \<Longrightarrow>
     indexFrom mi ps = ret (mi @ map2 (\<lambda>p m. (m_name m, \<lparr>r_pdm = p, r_received = False\<rparr>)) ps ms)"
proof (induction ps ms arbitrary: mi rule: list_all2_induct)
  case (Cons p ps m ms)
  then show ?case by (auto simp: first_metric_def elem_at_def update_fresh)
qed simp

lemma index_singles: "singles ps ms \<Longrightarrow> newMetricsReceivedIndex ps = ret (index_after ps ms 0)"
  using indexFrom_singles [of ps ms "[]"] singles_length [of ps ms]
  by (auto simp: singles_def newMetricsReceivedIndex_def index_after_def intro!: nth_equalityI)

lemma index_keys: "map fst (index_after ps ms k) = map (\<lambda>i. m_name (ms ! i)) [0..<length ps]"
  by (simp add: index_after_def)

lemma index_distinct: "singles ps ms \<Longrightarrow> distinct (map fst (index_after ps ms k))"
  by (auto simp: index_keys distinct_map inj_on_def singles_name)

lemma index_lookup:
  "singles ps ms \<Longrightarrow> i < length ps \<Longrightarrow>
     lookup_metric (index_after ps ms k) (m_name (ms ! i)) = Some \<lparr>r_pdm = ps ! i, r_received = i < k\<rparr>"
  unfolding lookup_metric_def using index_distinct [of ps ms k] by (subst map_of_eq_Some_iff) (auto simp: index_after_def)

lemma index_mark:
  assumes "singles ps ms" "k < length ps"
  shows "AList.update (m_name (ms ! k)) \<lparr>r_pdm = ps ! k, r_received = True\<rparr> (index_after ps ms k) = index_after ps ms (Suc k)"
proof -
  have "m_name (ms ! k) \<in> set (map fst (index_after ps ms k))" using assms(2) unfolding index_keys by simp
  then have "m_name (ms ! k) \<in> fst ` set (index_after ps ms k)" by simp
  from update_present [OF index_distinct [OF assms(1)] this] show ?thesis
    using assms by (auto simp: index_after_def singles_name)
qed

lemma index_all: "allReceived (index_after ps ms k) \<longleftrightarrow> length ps \<le> k"
  by (auto simp: allReceived_def index_after_def list_all_iff)

lemma agree_no_diff: "metric_agree e m \<Longrightarrow> DiffMetric L [] e m = ret []"
  using goext_metric [OF ext_refl, of "[]" L e m] by (auto simp: goext_def extends_def split: sum.splits)

lemma echo_compares:
  assumes "singles ps ms" "\<forall>m\<in>set ms. metric_agree m m" "k < length ps"
  shows "compare_received L (ps ! k) (echoed ps ms k) =
    ((echoed ps ms k)\<lparr>h_index := index_after ps ms (Suc k), h_accepted := map (\<lambda>m. (m_name m, [])) (take (Suc k) ms)\<rparr>, None)"
proof -
  note at_k = singles_at [OF assms(1,3)]
  have "metric_agree (ms ! k) (ms ! k)" using assms singles_length by simp
  then have "andThen (first_metric (ps ! k)) (\<lambda>e. DiffMetric L [] e (ms ! k)) = ret []"
    using at_k by (simp add: first_metric_def elem_at_def agree_no_diff)
  moreover have "lookup_metric (h_index (echoed ps ms k)) (m_name (ms ! k)) = Some \<lparr>r_pdm = ps ! k, r_received = False\<rparr>"
    using index_lookup [OF assms(1,3), of k] by (simp add: echoed_def)
  ultimately show ?thesis
    using assms(3) singles_length [OF assms(1)]
    by (simp add: compare_received_def at_k accept_def echoed_def index_mark [OF assms(1,3)] take_Suc_conv_app_nth)
qed

lemma echo_step:
  assumes "singles ps ms" "\<forall>m\<in>set ms. metric_agree m m" "k < length ps"
  shows "harnessConsume L (\<lambda>_. None) (ps ! k) (echoed ps ms k) = (echoed ps ms (Suc k), None)"
proof (cases "Suc k = length ps")
  case True
  then show ?thesis
    by (simp add: harnessConsume_def echo_compares [OF assms] index_all closeReceived_def)
      (simp add: sendNextMetric_def nextMetrics_def echoed_def)
next
  case False
  with assms(3) have "Suc k < length ps" by simp
  then show ?thesis
    by (simp add: harnessConsume_def echo_compares [OF assms] index_all)
      (simp add: sendNextMetric_def nextMetrics_def echoed_def take_Suc_conv_app_nth)
qed

text \<open>
  When the pipeline returns each metric as it was sent, all metrics are sent in order, each is accepted without a
  difference, and the channel is closed after the last one, not earlier.
\<close>

theorem harness_echo:
  assumes "singles ps ms" "\<forall>m\<in>set ms. metric_agree m m" "ps \<noteq> []" "k \<le> length ps"
  shows "newMetricsReceivedIndex ps = ret mi \<Longrightarrow>
    echo L k (newTestHarness (newMetricSupplier ps) mi) = (echoed ps ms k, None)"
proof -
  assume "newMetricsReceivedIndex ps = ret mi"
  then have mi: "mi = index_after ps ms 0" using index_singles [OF assms(1)] by simp
  show ?thesis using assms(4)
  proof (induction k)
    case 0
    from assms(3) have "min (Suc 0) (length ps) = Suc 0" by (cases ps) auto
    then show ?case using assms(3)
      by (simp add: mi newTestHarness_def newMetricSupplier_def sendNextMetric_def nextMetrics_def echoed_def take_Suc_conv_app_nth)
  next
    case (Suc k)
    moreover have "h_sent (echoed ps ms k) ! k = ps ! k" using Suc.prems by (simp add: echoed_def)
    ultimately show ?case by (simp add: echo_step [OF assms(1,2)])
  qed
qed

section \<open>Where it panics\<close>

text \<open>A metric that comes back twice is skipped, but the channel is then closed a second time.\<close>

lemma duplicate_closes_twice:
  assumes "singles ps ms" "i < length ps"
  shows "harnessConsume L send (ps ! i) (echoed ps ms (length ps)) =
    (echoed ps ms (length ps), Some ''close of closed channel'')"
proof -
  have "compare_received L (ps ! i) (echoed ps ms (length ps)) = (echoed ps ms (length ps), None)"
    using index_lookup [OF assms, of "length ps"] assms(2)
    by (simp add: compare_received_def singles_at [OF assms] echoed_def)
  then show ?thesis by (simp add: harnessConsume_def index_all closeReceived_def) (simp add: echoed_def index_all)
qed

text \<open>A metric whose name is not in the index is reported and then dereferenced.\<close>

lemma unknown_name_panics:
  "first_metrics p = ret (m # ms) \<Longrightarrow> lookup_metric (h_index h) (m_name m) = None \<Longrightarrow>
     snd (harnessConsume L send p h) = Some ''invalid memory address or nil pointer dereference''"
  by (simp add: harnessConsume_def compare_received_def)

text \<open>The differences of a batch accumulate: those of one metric are reported again with each later one.\<close>

lemma differences_accumulate:
  assumes "DiffMetric L ds e m = ret out"
  shows "\<exists>new. out = ds @ new"
  using goext_metric [OF ext_refl, of ds L e m] assms
proof -
  have "goext ds (ret out) (True \<and> metric_agree e m)" using goext_metric [OF ext_refl, of ds L e m] assms by metis
  then show ?thesis by (auto simp: goext_def extends_def)
qed

end
