(* ===== verification/Test_Util.thy ===== *)
theory Test_Util
  imports Go_Strings
begin

text \<open>
  The helpers of tests for ports, names and feature gates (common/testutil/testutil.go). The listeners, the command
  that lists the excluded ports of Windows, the Unicode tables and the registry of feature gates are parameters;
  a failed \<open>require\<close> ends the test.
\<close>

section \<open>Splitting\<close>

text \<open>\<open>strings.Split\<close> by a non-empty separator.\<close>

function split_by :: "string \<Rightarrow> string \<Rightarrow> string list" where
  "split_by sep s =
     (if sep = [] then [s]
      else case str_index sep s of
        None \<Rightarrow> [s]
      | Some i \<Rightarrow> take i s # split_by sep (drop (i + length sep) s))"
  by pat_completeness auto
termination
proof (relation "measure (\<lambda>(sep, s). length s)", simp)
  fix sep s :: string and i
  assume "sep \<noteq> []" "str_index sep s = Some i"
  then show "((sep, drop (i + length sep) s), (sep, s)) \<in> measure (\<lambda>(sep, s). length s)"
    using str_index_bound [of sep s i] by (cases sep) auto
qed

declare split_by.simps [simp del]

lemma join_split_by: "sep \<noteq> [] \<Longrightarrow> join sep (split_by sep s) = s"
proof (induction sep s rule: split_by.induct)
  case (1 sep s)
  show ?case
  proof (cases "str_index sep s")
    case None
    then show ?thesis using 1(2) by (simp add: split_by.simps [of sep s])
  next
    case (Some i)
    obtain u v where s: "s = u @ sep @ v" "length u = i" using str_index_Some [OF Some] by blast
    have "split_by sep v \<noteq> []" by (subst split_by.simps) (simp split: option.split)
    then obtain q qs where q: "split_by sep v = q # qs" by (cases "split_by sep v") auto
    have "join sep (split_by sep v) = v" using 1(1) [OF 1(2) Some 1(2)] s by simp
    moreover have "split_by sep s = u # q # qs" using 1(2) Some s q by (subst split_by.simps) simp
    ultimately show ?thesis using s(1) q by simp
  qed
qed

text \<open>\<open>strings.Fields\<close>: the parts between runs of white space.\<close>

lemma strip_space_rune_shorter: "strip_one space_runes s = Some t \<Longrightarrow> length t < length s"
  using space_runes_ends by (fastforce simp: strip_one_def has_prefix_iff find_Some_iff split: option.splits dest: nth_mem)

function fields_from :: "string \<Rightarrow> string \<Rightarrow> string list" where
  "fields_from cur s =
     (case s of
        [] \<Rightarrow> if cur = [] then [] else [cur]
      | c # cs \<Rightarrow>
          (case strip_one space_runes s of
             Some t \<Rightarrow> if cur = [] then fields_from [] t else cur # fields_from [] t
           | None \<Rightarrow> fields_from (cur @ [c]) cs))"
  by pat_completeness auto
termination by (relation "measure (\<lambda>(_, s). length s)") (auto dest: strip_space_rune_shorter)

declare fields_from.simps [simp del]

definition string_fields :: "string \<Rightarrow> string list" where
  "string_fields s = fields_from [] s"

section \<open>Ports that Windows excludes\<close>

record portpair =
  pp_first :: string
  pp_final :: string

text \<open>\<open>None\<close> is a failed requirement. A line without two entries fails, a blank one is skipped.\<close>

fun exclusionLines :: "string list \<Rightarrow> portpair list option" where
  "exclusionLines [] = Some []"
| "exclusionLines (line # lines) =
     (if trim_space line \<noteq> [] then
        (case string_fields (trim_space line) of
           [a, b] \<Rightarrow> map_option (\<lambda>ps. \<lparr>pp_first = a, pp_final = b\<rparr> # ps) (exclusionLines lines)
         | _ \<Rightarrow> None)
      else exclusionLines lines)"

definition createExclusionsList :: "string \<Rightarrow> portpair list option" where
  "createExclusionsList exclusionsText =
     (let parts = split_by ''--------'' exclusionsText
      in if length parts \<noteq> 3 then None
         else
           let portsText = split_by ''*'' (parts ! 2)
           in if length portsText \<le> 1 then None else exclusionLines (split_on (CHR 0x0A) (portsText ! 0)))"

text \<open>The outputs of the two commands, \<open>None\<close> for an error.\<close>

definition getExclusionsList :: "string option \<Rightarrow> string option \<Rightarrow> portpair list option" where
  "getExclusionsList outputTCP outputUDP =
     (case outputTCP of None \<Rightarrow> None | Some tcp \<Rightarrow>
      (case createExclusionsList tcp of None \<Rightarrow> None | Some exclusions \<Rightarrow>
       (case outputUDP of None \<Rightarrow> None | Some udp \<Rightarrow>
        (case createExclusionsList udp of None \<Rightarrow> None | Some udps \<Rightarrow> Some (exclusions @ udps)))))"

text \<open>Strings are compared, bytewise.\<close>

definition inExclusions :: "portpair list \<Rightarrow> string \<Rightarrow> bool" where
  "inExclusions exclusions port = list_ex (\<lambda>pair. pp_first pair \<le> port \<and> port \<le> pp_final pair) exclusions"

text \<open>
  \<open>net.SplitHostPort\<close> of an address, which the listener has written: host, colon and port, where a host with a
  colon is in brackets. \<open>None\<close> is its error.
\<close>

definition splitHostPort :: "string \<Rightarrow> (string \<times> string) option" where
  "splitHostPort hostport =
     (case last_index_any hostport '':'' of
        None \<Rightarrow> None
      | Some i \<Rightarrow>
          (let port = drop (Suc i) hostport
           in if has_prefix hostport ''['' then
                (case str_index '']'' hostport of
                   None \<Rightarrow> None
                 | Some e \<Rightarrow>
                     (let host = take (e - 1) (drop 1 hostport)
                      in if Suc e \<noteq> i \<or> contains host ''['' \<or> contains (drop (Suc e) hostport) '']''
                            \<or> contains (drop (Suc e) hostport) ''['' then None
                         else Some (host, port)))
              else
                (let host = take i hostport
                 in if contains host '':'' \<or> contains hostport ''['' \<or> contains hostport '']'' then None
                    else Some (host, port))))"

text \<open>
  The search for a port: \<open>listen n\<close> is the address the n-th listener gets. It can run for ever, and the result is then
  \<open>None\<close>; \<open>Inl\<close> is a requirement that fails.
\<close>

partial_function (option) searchAddress ::
    "(nat \<Rightarrow> string) \<Rightarrow> bool \<Rightarrow> portpair list \<Rightarrow> nat \<Rightarrow> (string go) option" where
  "searchAddress listen windows exclusions n =
     (case splitHostPort (listen n) of
        None \<Rightarrow> Some (panic ''SplitHostPort'')
      | Some (_, port) \<Rightarrow>
          if windows \<and> inExclusions exclusions port then searchAddress listen windows exclusions (Suc n)
          else Some (ret (listen n)))"

definition GetAvailableLocalNetworkAddress ::
    "(nat \<Rightarrow> string) \<Rightarrow> bool \<Rightarrow> string option \<Rightarrow> string option \<Rightarrow> (string go) option" where
  "GetAvailableLocalNetworkAddress listen windows outputTCP outputUDP =
     (if windows then
        (case getExclusionsList outputTCP outputUDP of
           None \<Rightarrow> Some (panic ''exclusions'')
         | Some exclusions \<Rightarrow> searchAddress listen windows exclusions 0)
      else searchAddress listen windows [] 0)"

definition listen_kind :: "string \<Rightarrow> nat" where
  "listen_kind network =
     (if network \<in> {''tcp'', ''tcp4'', ''tcp6'', ''unix'', ''unixpacket''} then 1
      else if network \<in> {''udp'', ''udp4'', ''udp6'', ''unixgram''} then 2 else 0)"

text \<open>The address a stream listener gets, a packet listener, or none.\<close>

definition findAvailableAddress :: "string \<Rightarrow> string \<Rightarrow> string \<Rightarrow> string" where
  "findAvailableAddress stream packet network =
     (if listen_kind network = 1 then stream else if listen_kind network = 2 then packet else [])"

definition EndpointForPort :: "int \<Rightarrow> string" where
  "EndpointForPort port = ''localhost:'' @ int_str port"

text \<open>\<open>strconv.Atoi\<close>.\<close>

definition atoi :: "string \<Rightarrow> int go" where
  "atoi s =
     (let signed = s \<noteq> [] \<and> hd s \<in> {CHR ''+'', CHR ''-''}; ds = (if signed then tl s else s);
          n = (if signed \<and> hd s = CHR ''-'' then - int (str_nat ds) else int (str_nat ds))
      in if ds \<noteq> [] \<and> list_all is_digit ds \<and> - (2 ^ 63) \<le> n \<and> n < 2 ^ 63 then ret n else panic ''Atoi'')"

definition GetAvailablePort :: "(nat \<Rightarrow> string) \<Rightarrow> bool \<Rightarrow> string option \<Rightarrow> string option \<Rightarrow> (int go) option" where
  "GetAvailablePort listen windows outputTCP outputUDP =
     map_option (\<lambda>r. andThen r (\<lambda>endpoint.
         case splitHostPort endpoint of
           None \<Rightarrow> panic ''SplitHostPort''
         | Some (_, port) \<Rightarrow> atoi port))
       (GetAvailableLocalNetworkAddress listen windows outputTCP outputUDP)"

section \<open>Names of temporary directories\<close>

text \<open>The bytes of one rune, which is kept or dropped; \<open>letter_or_number\<close> is the Unicode table for runes outside ASCII.\<close>

definition allowed :: "char \<Rightarrow> bool" where
  "allowed c \<longleftrightarrow> in_range 48 57 c \<or> in_range 97 122 c \<or> in_range 65 90 c \<or>
     c \<in> set ''!#$%&()+,-.=@^_{}~ ''"

function map_runes :: "(string \<Rightarrow> bool) \<Rightarrow> string \<Rightarrow> string" where
  "map_runes keep [] = []"
| "map_runes keep (c # cs) =
     (let w = rune_width (c # cs); r = take w (c # cs)
      in (if keep r then r else []) @ map_runes keep (drop w (c # cs)))"
  by pat_completeness auto
termination by (relation "measure (\<lambda>(_, s). length s)") (auto simp: rune_width_def Let_def split: list.splits)

definition mapper :: "(string \<Rightarrow> bool) \<Rightarrow> string \<Rightarrow> bool" where
  "mapper letter_or_number r =
     (case r of
        [c] \<Rightarrow> (of_char c :: nat) < 128 \<and> allowed c
      | _ \<Rightarrow> letter_or_number r)"

definition sanitizePattern :: "(string \<Rightarrow> bool) \<Rightarrow> string \<Rightarrow> string" where
  "sanitizePattern letter_or_number pattern = map_runes (mapper letter_or_number) (take (min (length pattern) 64) pattern)"

section \<open>Feature gates\<close>

text \<open>The registry: a gate that is not registered or that is stable refuses a change, as the registry answers.\<close>

definition SetFeatureGateForTest ::
    "(string \<Rightarrow> bool \<Rightarrow> bool) \<Rightarrow> string \<Rightarrow> bool \<Rightarrow> (string \<Rightarrow> bool) \<Rightarrow>
      ((string \<Rightarrow> bool) \<times> ((string \<Rightarrow> bool) \<Rightarrow> (string \<Rightarrow> bool) option)) option" where
  "SetFeatureGateForTest settable gate enabled reg =
     (let originalValue = reg gate
      in if settable gate enabled
         then Some (reg(gate := enabled),
           \<lambda>now. if settable gate originalValue then Some (now(gate := originalValue)) else None)
         else None)"

section \<open>The address that is returned\<close>

definition port_of :: "string \<Rightarrow> string option" where
  "port_of a = map_option snd (splitHostPort a)"

text \<open>The search skips exactly the addresses whose ports are excluded, and returns the first other one.\<close>

lemma search_found:
  assumes "\<forall>i<n. \<exists>p. port_of (listen (k + i)) = Some p \<and> windows \<and> inExclusions ex p"
    "port_of (listen (k + n)) = Some p" "\<not> (windows \<and> inExclusions ex p)"
  shows "searchAddress listen windows ex k = Some (ret (listen (k + n)))"
  using assms
proof (induction n arbitrary: k)
  case 0
  then show ?case by (subst searchAddress.simps) (auto simp: port_of_def)
next
  case (Suc n)
  then have "\<exists>p. port_of (listen k) = Some p \<and> windows \<and> inExclusions ex p" by (metis add_0_right zero_less_Suc)
  moreover have "searchAddress listen windows ex (Suc k) = Some (ret (listen (Suc k + n)))"
  proof (rule Suc.IH)
    show "\<forall>i<n. \<exists>p. port_of (listen (Suc k + i)) = Some p \<and> windows \<and> inExclusions ex p"
      using Suc.prems(1) by (metis Suc_less_eq add_Suc add_Suc_right)
  qed (use Suc.prems in simp_all)
  ultimately show ?case by (subst searchAddress.simps) (auto simp: port_of_def)
qed

lemma search_sound:
  assumes "searchAddress listen windows ex k = Some (ret a)"
  shows "\<exists>n p. a = listen n \<and> port_of a = Some p \<and> \<not> (windows \<and> inExclusions ex p)"
proof -
  let ?P = "\<lambda>(listen :: nat \<Rightarrow> string) windows ex (n :: nat) r. r = ret a \<longrightarrow>
    (\<exists>n p. a = listen n \<and> port_of a = Some p \<and> \<not> (windows \<and> inExclusions ex p))"
  have "?P listen windows ex k (ret a)"
  proof (rule searchAddress.raw_induct [of ?P, OF _ assms])
    fix search listen windows ex n r
    assume IH: "\<And>listen windows ex n r. search listen windows ex n = Some r \<Longrightarrow> ?P listen windows ex n r"
      and step: "(case splitHostPort (listen n) of
        None \<Rightarrow> Some (panic ''SplitHostPort'')
      | Some (_, port) \<Rightarrow>
          if windows \<and> inExclusions ex port then search listen windows ex (Suc n) else Some (ret (listen n))) = Some r"
    show "?P listen windows ex n r"
    proof (cases "splitHostPort (listen n)")
      case None
      with step show ?thesis by auto
    next
      case (Some hp)
      show ?thesis
      proof (cases "windows \<and> inExclusions ex (snd hp)")
        case True
        with step Some have "search listen windows ex (Suc n) = Some r" by (simp split: prod.splits)
        from IH [OF this] show ?thesis .
      next
        case False
        with step Some have "r = ret (listen n)" by (auto split: prod.splits)
        moreover have "port_of (listen n) = Some (snd hp)" using Some by (simp add: port_of_def)
        ultimately show ?thesis using False by auto
      qed
    qed
  qed
  then show ?thesis by simp
qed

text \<open>Only Windows excludes ports: elsewhere the first address is taken.\<close>

lemma first_address:
  "port_of (listen 0) = Some p \<Longrightarrow>
     GetAvailableLocalNetworkAddress listen False tcp udp = Some (ret (listen 0))"
  using search_found [of 0 listen 0 False "[]" p] by (simp add: GetAvailableLocalNetworkAddress_def)

section \<open>Ports as strings\<close>

text \<open>On ports of the same number of digits the comparison of strings is the comparison of numbers.\<close>

lemma digit_order: "is_digit a \<Longrightarrow> is_digit b \<Longrightarrow> a < b \<longleftrightarrow> digit_val a < digit_val b"
  by (auto simp: is_digit_def digit_val_def less_char_def)

lemma digit_val_less: "is_digit a \<Longrightarrow> digit_val a < 10"
  by (auto simp: is_digit_def digit_val_def)

lemma foldl_digits:
  "foldl (\<lambda>a c. 10 * a + digit_val c) x s = x * 10 ^ length s + str_nat s"
proof (induction s arbitrary: x)
  case (Cons c s)
  from Cons [of "10 * x + digit_val c"] Cons [of "digit_val c"] show ?case
    by (simp add: str_nat_def algebra_simps)
qed (simp add: str_nat_def)

lemma str_nat_Cons: "str_nat (c # s) = digit_val c * 10 ^ length s + str_nat s"
  using foldl_digits [of "digit_val c" s] by (simp add: str_nat_def)

lemma str_nat_bound: "list_all is_digit s \<Longrightarrow> str_nat s < 10 ^ length s"
proof (induction s)
  case (Cons c s)
  then have less: "str_nat s < 10 ^ length s" and "digit_val c \<le> 9" using digit_val_less [of c] by auto
  then have "digit_val c * 10 ^ length s \<le> 9 * 10 ^ length s" by (intro mult_right_mono) auto
  with less have "digit_val c * 10 ^ length s + str_nat s < 9 * 10 ^ length s + 10 ^ length s" by linarith
  then show ?case by (simp add: str_nat_Cons)
qed (simp add: str_nat_def)

lemma string_order:
  "length a = length b \<Longrightarrow> list_all is_digit a \<Longrightarrow> list_all is_digit b \<Longrightarrow> a < b \<longleftrightarrow> str_nat a < str_nat b"
proof (induction a b rule: list_induct2)
  case (Cons x a y b)
  have bounds: "str_nat a < 10 ^ length b" "str_nat b < 10 ^ length b"
    using Cons str_nat_bound [of a] str_nat_bound [of b] by simp_all
  have digits: "is_digit x" "is_digit y" using Cons by simp_all
  show ?case
  proof (cases "digit_val x" "digit_val y" rule: linorder_cases)
    case less
    then have "(digit_val x + 1) * 10 ^ length b \<le> digit_val y * 10 ^ length b" by (intro mult_right_mono) auto
    with less bounds Cons.hyps digits show ?thesis by (auto simp: str_nat_Cons digit_order)
  next
    case equal
    then have "x = y" using digits by (metis digit_order less_linear less_irrefl)
    with Cons show ?thesis by (simp add: str_nat_Cons)
  next
    case greater
    then have "(digit_val y + 1) * 10 ^ length b \<le> digit_val x * 10 ^ length b" by (intro mult_right_mono) auto
    with greater bounds Cons.hyps digits show ?thesis using digit_order [of y x] by (auto simp: str_nat_Cons)
  qed
qed simp

lemma same_width_exclusion:
  assumes "\<forall>pair\<in>set ex. list_all is_digit (pp_first pair) \<and> list_all is_digit (pp_final pair) \<and>
      length (pp_first pair) = length port \<and> length (pp_final pair) = length port"
    "list_all is_digit port"
  shows "inExclusions ex port \<longleftrightarrow> (\<exists>pair\<in>set ex. str_nat (pp_first pair) \<le> str_nat port \<and> str_nat port \<le> str_nat (pp_final pair))"
  unfolding inExclusions_def list_ex_iff
  using assms string_order by (metis not_le)

text \<open>A range from a number to a longer one that starts with a smaller digit excludes nothing.\<close>

lemma mixed_width_range: "\<not> inExclusions [\<lparr>pp_first = ''9990'', pp_final = ''10010''\<rparr>] port"
proof -
  have "''10010'' < ''9990''" by (simp add: less_char_def)
  then show ?thesis by (auto simp: inExclusions_def dest: order_trans)
qed

lemma endpoint_split: "splitHostPort (EndpointForPort (int p)) = Some (''localhost'', nat_str p)"
proof -
  have no: "c \<notin> set (nat_str p)" if "\<not> is_digit c" for c
    using that nat_str_digits [of p] by (auto simp: list_all_iff)
  have ends: "CHR '':'' \<notin> set (nat_str p)" "CHR ''['' \<notin> set (nat_str p)" "CHR '']'' \<notin> set (nat_str p)"
    by (simp_all add: no is_digit_def)
  have absent: "str_index [c] s = None" if "c \<notin> set s" for c s
    using that by (induction s) (auto simp: has_prefix_def)
  have tw: "takeWhile (\<lambda>c. c \<notin> {CHR '':''}) (rev (nat_str p) @ rev ''localhost:'') = rev (nat_str p)"
    using ends(1) by (subst takeWhile_append2) auto
  have "last_index_any (EndpointForPort (int p)) '':'' = Some 9"
    using tw by (simp add: last_index_any_def contains_any_def EndpointForPort_def int_str_def)
  moreover have "\<not> contains (EndpointForPort (int p)) ''[''" "\<not> contains (EndpointForPort (int p)) '']''"
  proof -
    have "CHR ''['' \<notin> set (EndpointForPort (int p))" "CHR '']'' \<notin> set (EndpointForPort (int p))"
      using ends by (simp_all add: EndpointForPort_def int_str_def)
    from this [THEN absent] show "\<not> contains (EndpointForPort (int p)) ''[''" "\<not> contains (EndpointForPort (int p)) '']''"
      by (simp_all add: contains_def)
  qed
  moreover have "\<not> contains ''localhost'' '':''" by (simp add: contains_def has_prefix_def)
  ultimately show ?thesis
    by (simp add: splitHostPort_def Let_def) (simp add: EndpointForPort_def int_str_def has_prefix_def)
qed

lemma available_port:
  assumes "listen 0 = EndpointForPort (int p)" "p < 2 ^ 63"
  shows "GetAvailablePort listen False tcp udp = Some (ret (int p))"
proof -
  have "port_of (listen 0) = Some (nat_str p)" using assms(1) endpoint_split by (simp add: port_of_def)
  moreover have "atoi (nat_str p) = ret (int p)"
  proof -
    have "is_digit (hd (nat_str p))" using nat_str_digits [of p] by (cases "nat_str p") auto
    then have "hd (nat_str p) \<notin> {CHR ''+'', CHR ''-''}" by (auto simp: is_digit_def)
    then show ?thesis using assms(2) nat_str_digits [of p] by (simp add: atoi_def Let_def)
  qed
  ultimately show ?thesis using first_address [of listen] endpoint_split assms(1) by (simp add: GetAvailablePort_def)
qed

section \<open>Sanitized names\<close>

lemma rune_width_ascii: "(of_char c :: nat) < 128 \<Longrightarrow> rune_width (c # cs) = 1"
  by (auto simp: rune_width_def in_range_def Let_def split: list.split)

lemma map_runes_ascii:
  "is_ascii s \<Longrightarrow> map_runes keep s = filter (\<lambda>c. keep [c]) s"
  by (induction s) (auto simp: is_ascii_def rune_width_ascii Let_def)

text \<open>A name in ASCII loses what follows its 64th byte and the characters that are not allowed.\<close>

lemma sanitize_ascii: "is_ascii s \<Longrightarrow> sanitizePattern ln s = filter allowed (take 64 s)"
proof -
  assume s: "is_ascii s"
  then have t: "is_ascii (take 64 s)" by (auto simp: is_ascii_def list_all_iff dest: in_set_takeD)
  have "sanitizePattern ln s = filter (\<lambda>c. mapper ln [c]) (take 64 s)"
    using map_runes_ascii [OF t, of "mapper ln"] by (cases "length s \<le> 64") (simp_all add: sanitizePattern_def)
  also have "\<dots> = filter allowed (take 64 s)"
    using t by (intro filter_cong) (auto simp: mapper_def is_ascii_def list_all_iff)
  finally show ?thesis .
qed

lemma map_runes_length: "length (map_runes keep s) \<le> length s"
proof (induction keep s rule: map_runes.induct)
  case (2 keep c cs)
  define w where "w = rune_width (c # cs)"
  have eq: "map_runes keep (c # cs) = (if keep (take w (c # cs)) then take w (c # cs) else []) @ map_runes keep (drop w (c # cs))"
    by (simp add: w_def Let_def)
  have "length (map_runes keep (drop w (c # cs))) \<le> length (c # cs) - w"
    using 2 [OF w_def refl] by (simp del: map_runes.simps)
  then show ?case unfolding eq by (simp del: map_runes.simps drop_Suc_Cons) linarith
qed simp

lemma sanitize_length: "length (sanitizePattern ln s) \<le> 64"
  using map_runes_length [of "mapper ln" "take (min (length s) 64) s"] by (simp add: sanitizePattern_def)

section \<open>The gate is restored\<close>

lemma gate_restored:
  "SetFeatureGateForTest settable gate enabled reg = Some (reg', restore) \<Longrightarrow> settable gate (reg gate) \<Longrightarrow>
     reg' gate = enabled \<and> restore reg' = Some reg"
  by (auto simp: SetFeatureGateForTest_def Let_def split: if_splits)

section \<open>The list of ranges\<close>

lemma strip_graphic: "graphic c \<Longrightarrow> strip_one space_runes (c # cs) = None"
proof -
  assume "graphic c"
  then have "\<not> has_prefix (c # cs) r" if "r \<in> set space_runes" for r
    using graphic_prefix [of "c # cs" r] space_runes_ends [OF that] by simp
  then have "List.find (has_prefix (c # cs)) space_runes = None" by (auto simp: find_None_iff)
  then show ?thesis by (simp add: strip_one_def)
qed

lemma strip_blank: "strip_one space_runes (CHR '' '' # cs) = Some cs"
  by (simp add: strip_one_def space_runes_def has_prefix_def char_of_def bit_0)

lemma fields_word: "list_all graphic w \<Longrightarrow> fields_from cur (w @ s) = fields_from (cur @ w) s"
proof (induction w arbitrary: cur)
  case (Cons c w)
  then show ?case by (subst fields_from.simps) (simp add: strip_graphic)
qed simp

lemma fields_pair:
  assumes "list_all graphic a" "list_all graphic b" "a \<noteq> []" "b \<noteq> []"
  shows "string_fields (a @ '' '' @ b) = [a, b]"
proof -
  have "fields_from [] (b @ []) = [b]" using assms by (subst fields_word) (simp_all add: fields_from.simps)
  moreover have "fields_from [] (a @ '' '' @ b) = fields_from a ('' '' @ b)" using assms by (subst fields_word) simp_all
  moreover have "fields_from a ('' '' @ b) = a # fields_from [] b"
    using assms by (subst fields_from.simps) (simp add: strip_blank)
  ultimately show ?thesis by (simp add: string_fields_def)
qed

text \<open>Ranges, printed one in a line, are read back.\<close>

lemma exclusion_lines_read:
  "\<forall>p\<in>set ps. list_all graphic (pp_first p) \<and> list_all graphic (pp_final p) \<and> pp_first p \<noteq> [] \<and> pp_final p \<noteq> [] \<Longrightarrow>
     exclusionLines (map (\<lambda>p. pp_first p @ '' '' @ pp_final p) ps) = Some ps"
proof (induction ps)
  case (Cons p ps)
  define line where "line = pp_first p @ '' '' @ pp_final p"
  have "line \<noteq> []" "graphic (hd line)" "graphic (last line)"
    using Cons.prems by (auto simp: line_def list_all_iff)
  then have "trim_space line = line" by (rule trim_graphic)
  moreover have "string_fields line = [pp_first p, pp_final p]" unfolding line_def using Cons.prems by (intro fields_pair) auto
  moreover have "map (\<lambda>p. pp_first p @ '' '' @ pp_final p) (p # ps) = line # map (\<lambda>p. pp_first p @ '' '' @ pp_final p) ps"
    by (simp add: line_def)
  ultimately show ?case using Cons \<open>line \<noteq> []\<close> by (simp del: list.map append.simps)
qed simp

end
