(* ===== verification/Log_Senders.thy ===== *)
theory Log_Senders
  imports Test_Data Test_Util Go_Encoding Core_Utils
begin

text \<open>
  The senders of logs of the load tests (testbed/datasenders: k8s.go, fluent.go, tcpudp.go): how a record becomes a line
  or a message, in which order and number the messages are written, and the collector configurations that the writer of
  Kubernetes logs generates. The clock's zone, the texts of floating-point numbers, JSON, files and connections are
  parameters. A step returns the state it leaves and its result; \<open>Inl\<close> is a panic.
\<close>

section \<open>Texts\<close>

text \<open>
  \<open>time_text\<close>: \<open>Time.Format\<close> with a layout, in the local zone, of an instant in nanoseconds; \<open>float_text\<close>:
  \<open>strconv.FormatFloat(f, 'f', -1, 64)\<close>; \<open>quote_runes\<close>: \<open>strconv.Quote\<close> of a string with runes outside ASCII;
  \<open>json_text\<close>: \<open>json.Marshal\<close> of a map of strings.
\<close>

record sender_lib =
  time_text :: "string \<Rightarrow> int \<Rightarrow> string"
  float_text :: "f64 \<Rightarrow> string"
  quote_runes :: "string \<Rightarrow> string"
  json_text :: "(string, string) gomap \<Rightarrow> string + string"

fun attribute_text :: "sender_lib \<Rightarrow> val \<Rightarrow> string go" where
  "attribute_text S (VStr s) = ret s"
| "attribute_text S (VInt i) = ret (int_str i)"
| "attribute_text S (VDouble f) = ret (float_text S f)"
| "attribute_text S (VBool b) = ret (bool_str b)"
| "attribute_text S _ = panic ''missing case''"

definition line_end :: string where
  "line_end = [CHR 0x0A]"

section \<open>Writing record after record\<close>

text \<open>
  The common loop over the records: convert, write, stop at the first error. \<open>write n\<close> is the outcome of the n-th
  write of the sender; what a write that fails has written is not modelled.
\<close>

fun writeAll ::
    "('r \<Rightarrow> 'm go) \<Rightarrow> (nat \<Rightarrow> string option) \<Rightarrow> 'r list \<Rightarrow> 'm list \<Rightarrow> 'm list \<times> (string option) go" where
  "writeAll conv write [] out = (out, ret None)"
| "writeAll conv write (r # rs) out =
     (case conv r of
        Inl e \<Rightarrow> (out, panic e)
      | Inr m \<Rightarrow>
          (case write (length out) of
             Some err \<Rightarrow> (out, ret (Some err))
           | None \<Rightarrow> writeAll conv write rs (out @ [m])))"

section \<open>Lines of a Kubernetes container\<close>

fun lineAttributes :: "sender_lib \<Rightarrow> string \<Rightarrow> attrs \<Rightarrow> string go" where
  "lineAttributes S sb [] = ret sb"
| "lineAttributes S sb ((k, v) # rest) =
     andThen (attribute_text S v) (\<lambda>t. lineAttributes S (sb @ '' '' @ k @ ''='' @ t) rest)"

definition convertLogToTextLine :: "sender_lib \<Rightarrow> t_log \<Rightarrow> string go" where
  "convertLogToTextLine S lr =
     lineAttributes S
       (time_text S ''2006-01-02T15:04:05.000000000Z'' (sint (lg_time lr)) @ '' stderr F '' @ lg_text lr @ '' '' @
        str_of (lg_body lr))
       (lg_attrs lr)"

text \<open>The file, as the lines written to it, and the configuration.\<close>

record FileLogK8sWriter =
  kw_lines :: "string list"
  kw_name :: string
  kw_config :: string

definition k8sConsumeLogs ::
    "sender_lib \<Rightarrow> (nat \<Rightarrow> string option) \<Rightarrow> t_log nested \<Rightarrow> FileLogK8sWriter \<Rightarrow> FileLogK8sWriter \<times> (string option) go" where
  "k8sConsumeLogs S write logs f =
     (let (out, r) = writeAll (\<lambda>lr. andThen (convertLogToTextLine S lr) (\<lambda>line. ret (line @ line_end))) write (items logs) (kw_lines f)
      in (f\<lparr>kw_lines := out\<rparr>, r))"

text \<open>
  \<open>fmt.Sprintf(config, name)\<close> for a format whose verbs are one \<open>%s\<close> and any number of \<open>%%\<close>; \<open>None\<close> stands for the
  result of any other format. The flag says that the name is still to be placed.
\<close>

fun sprintf_name :: "string \<Rightarrow> bool \<Rightarrow> string \<Rightarrow> string option" where
  "sprintf_name name pending [] = (if pending then None else Some [])"
| "sprintf_name name pending [c] = (if c = CHR ''%'' \<or> pending then None else Some [c])"
| "sprintf_name name pending (c # d # cs) =
     (if c \<noteq> CHR ''%'' then map_option ((#) c) (sprintf_name name pending (d # cs))
      else if d = CHR ''%'' then map_option ((#) (CHR ''%'')) (sprintf_name name pending cs)
      else if d = CHR ''s'' \<and> pending then map_option ((@) name) (sprintf_name name False cs)
      else None)"

definition k8sConfig :: "FileLogK8sWriter \<Rightarrow> string option" where
  "k8sConfig f = sprintf_name (kw_name f) True (kw_config f)"

definition config_of :: "string list \<Rightarrow> string" where
  "config_of ls = concat (map (\<lambda>l. line_end @ l) ls)"

text \<open>Making the two directories and the file may fail, each with a panic; else the file has a name and no line.\<close>

definition NewFileLogK8sWriter :: "bool \<Rightarrow> bool \<Rightarrow> string option \<Rightarrow> string \<Rightarrow> FileLogK8sWriter go" where
  "NewFileLogK8sWriter dir_made subdir_made file_name config =
     (if \<not> dir_made \<or> \<not> subdir_made then panic ''failed to create temp dir''
      else case file_name of
        None \<Rightarrow> panic ''failed to create temp file''
      | Some n \<Rightarrow> ret \<lparr>kw_lines = [], kw_name = n, kw_config = config\<rparr>)"

section \<open>The configurations\<close>

definition filelog_head :: "string list" where
  "filelog_head =
    [''  filelog:'',
     ''    include: [ %s ]'',
     ''    start_at: beginning'',
     ''    include_file_path: true'',
     ''    include_file_name: false'',
     ''    operators:'']"

definition find_format :: "string list" where
  "find_format =
    [''      # Find out which format is used by kubernetes'',
     ''      - type: router'',
     ''        id: get-format'',
     ''        routes:'',
     ''          - output: parser-docker'',
     ''            expr: '' @ [CHR 0x27] @ ''body matches '' @ [CHR 0x22] @ ''^'' @ [CHR 0x5C, CHR 0x5C] @ ''{'' @ [CHR 0x22, CHR 0x27],
     ''          - output: parser-crio'',
     ''            expr: '' @ [CHR 0x27] @ ''body matches '' @ [CHR 0x22] @ ''^[^ Z]+ '' @ [CHR 0x22, CHR 0x27],
     ''          - output: parser-containerd'',
     ''            expr: '' @ [CHR 0x27] @ ''body matches '' @ [CHR 0x22] @ ''^[^ Z]+Z'' @ [CHR 0x22, CHR 0x27]]"

definition crio_parser :: "string list" where
  "crio_parser =
    [''      # Parse CRI-O format'',
     ''      - type: regex_parser'',
     ''        id: parser-crio'',
     ''        regex: '' @ [CHR 0x27] @ ''^(?P<time>[^ Z]+) (?P<stream>stdout|stderr) (?P<logtag>[^ ]*) (?P<log>.*)$'' @ [CHR 0x27],
     ''        output: extract_metadata_from_filepath'',
     ''        timestamp:'',
     ''          parse_from: attributes.time'',
     ''          layout_type: gotime'',
     ''          layout: '' @ [CHR 0x27] @ ''2006-01-02T15:04:05.000000000-07:00'' @ [CHR 0x27]]"

text \<open>The parser of the format of containerd, with the operator it hands on to, if any.\<close>

definition containerd_parser :: "string list \<Rightarrow> string list" where
  "containerd_parser handed_on =
    [''      # Parse CRI-Containerd format'',
     ''      - type: regex_parser'',
     ''        id: parser-containerd'',
     ''        regex: '' @ [CHR 0x27] @ ''^(?P<time>[^ ^Z]+Z) (?P<stream>stdout|stderr) (?P<logtag>[^ ]*) (?P<log>.*)$'' @ [CHR 0x27]] @
     handed_on @
    [''        timestamp:'',
     ''          parse_from: attributes.time'',
     ''          layout: '' @ [CHR 0x27] @ ''%%Y-%%m-%%dT%%H:%%M:%%S.%%LZ'' @ [CHR 0x27]]"

definition to_metadata :: "string list" where
  "to_metadata = [''        output: extract_metadata_from_filepath'']"

definition docker_parser :: "string list" where
  "docker_parser =
    [''      # Parse Docker format'',
     ''      - type: json_parser'',
     ''        id: parser-docker'',
     ''        output: extract_metadata_from_filepath'',
     ''        timestamp:'',
     ''          parse_from: attributes.time'',
     ''          layout: '' @ [CHR 0x27] @ ''%%Y-%%m-%%dT%%H:%%M:%%S.%%LZ'' @ [CHR 0x27]]"

definition move_log :: "string list" where
  "move_log =
    [''      - type: move'',
     ''        from: attributes.log'',
     ''        to: body'']"

definition metadata_parser :: "string list" where
  "metadata_parser =
    [''      # Extract metadata from file path'',
     ''      - type: regex_parser'',
     ''        id: extract_metadata_from_filepath'',
     ''        regex: '' @ [CHR 0x27] @ ''^.*'' @ [CHR 0x5C] @ ''/(?P<namespace>[^_]+)_(?P<pod_name>[^_]+)_(?P<uid>[a-f0-9'' @ [CHR 0x5C] @ ''-]{36})'' @ [CHR 0x5C] @ ''/(?P<container_name>[^'' @ [CHR 0x5C] @ ''._]+)'' @ [CHR 0x5C] @ ''/(?P<restart_count>'' @ [CHR 0x5C] @ ''d+)'' @ [CHR 0x5C] @ ''.log$'' @ [CHR 0x27],
     ''        parse_from: attributes['' @ [CHR 0x22] @ ''log.file.path'' @ [CHR 0x22] @ '']'']"

definition move_attributes :: "string list" where
  "move_attributes =
    [''      # Move out attributes to Attributes'',
     ''      - type: move'',
     ''        from: attributes.stream'',
     ''        to: attributes['' @ [CHR 0x22] @ ''log.iostream'' @ [CHR 0x22] @ '']'',
     ''      - type: move'',
     ''        from: attributes.container_name'',
     ''        to: attributes['' @ [CHR 0x22] @ ''k8s.container.name'' @ [CHR 0x22] @ '']'',
     ''      - type: move'',
     ''        from: attributes.namespace'',
     ''        to: attributes['' @ [CHR 0x22] @ ''k8s.namespace.name'' @ [CHR 0x22] @ '']'',
     ''      - type: move'',
     ''        from: attributes.pod_name'',
     ''        to: attributes['' @ [CHR 0x22] @ ''k8s.pod.name'' @ [CHR 0x22] @ '']'',
     ''      - type: move'',
     ''        from: attributes.restart_count'',
     ''        to: attributes['' @ [CHR 0x22] @ ''k8s.container.restart_count'' @ [CHR 0x22] @ '']'',
     ''      - type: move'',
     ''        from: attributes.uid'',
     ''        to: attributes['' @ [CHR 0x22] @ ''k8s.pod.uid'' @ [CHR 0x22] @ '']'']"

definition KubernetesContainer :: "string list" where
  "KubernetesContainer = filelog_head @ find_format @ crio_parser @ containerd_parser to_metadata @ docker_parser @
     move_log @ metadata_parser @ move_attributes @ [''  '']"

definition KubernetesContainerParser :: "string list" where
  "KubernetesContainerParser = filelog_head @
    [''      - type: container'',
     ''        id: container-parser'',
     ''  '']"

definition KubernetesCRIContainerd :: "string list" where
  "KubernetesCRIContainerd = filelog_head @ containerd_parser to_metadata @ metadata_parser @ move_log @
     move_attributes @ [''  '']"

definition KubernetesCRIContainerdNoAttributesOps :: "string list" where
  "KubernetesCRIContainerdNoAttributesOps = filelog_head @ containerd_parser to_metadata @ metadata_parser @ [''  '']"

definition CRIContainerd :: "string list" where
  "CRIContainerd = filelog_head @ containerd_parser [] @ [''  '']"

section \<open>Messages to fluent\<close>

fun mapAttributes :: "sender_lib \<Rightarrow> (string, string) gomap \<Rightarrow> attrs \<Rightarrow> (string, string) gomap go" where
  "mapAttributes S out [] = ret out"
| "mapAttributes S out ((k, v) # rest) =
     andThen (attribute_text S v) (\<lambda>t. mapAttributes S (AList.update k t out) rest)"

definition convertLogToMap :: "sender_lib \<Rightarrow> t_log \<Rightarrow> (string, string) gomap go" where
  "convertLogToMap S lr =
     mapAttributes S (if is_str (lg_body lr) then [(''log'', str_of (lg_body lr))] else []) (lg_attrs lr)"

definition convertLogToJSON :: "sender_lib \<Rightarrow> t_log \<Rightarrow> string go" where
  "convertLogToJSON S lr =
     andThen (mapAttributes S
         [(''time'', time_text S ''02/01/2006:15:04:05Z'' (sint (lg_time lr))), (''log'', str_of (lg_body lr))] (lg_attrs lr))
       (\<lambda>rec. case json_text S rec of Inl err \<Rightarrow> panic (''failed to write log: '' @ err) | Inr b \<Rightarrow> ret b)"

text \<open>The forwarder has a data file, or else a logger that posts the messages.\<close>

record FluentLogsForwarder =
  fl_port :: int
  fl_file :: "string option"
  fl_posted :: "(string, string) gomap list"
  fl_written :: "string list"

text \<open>The values of the two environment variables, and whether the file opens or the logger is made.\<close>

definition NewFluentLogsForwarder :: "string \<Rightarrow> string \<Rightarrow> (string \<Rightarrow> bool) \<Rightarrow> (int \<Rightarrow> bool) \<Rightarrow> int \<Rightarrow> FluentLogsForwarder go" where
  "NewFluentLogsForwarder portOverride dataFileName opens logger port =
     andThen (if portOverride \<noteq> [] then atoi portOverride else ret port) (\<lambda>port.
       if dataFileName \<noteq> [] then
         (if opens dataFileName
          then ret \<lparr>fl_port = port, fl_file = Some dataFileName, fl_posted = [], fl_written = []\<rparr> else panic ''OpenFile'')
       else if logger port then ret \<lparr>fl_port = port, fl_file = None, fl_posted = [], fl_written = []\<rparr> else panic ''fluent.New'')"

definition fluentConsumeLogs ::
    "sender_lib \<Rightarrow> (nat \<Rightarrow> string option) \<Rightarrow> (nat \<Rightarrow> string option) \<Rightarrow> t_log nested \<Rightarrow> FluentLogsForwarder
      \<Rightarrow> FluentLogsForwarder \<times> (string option) go" where
  "fluentConsumeLogs S post write logs f =
     (if fl_file f = None then
        (let (out, r) = writeAll (convertLogToMap S) post (items logs) (fl_posted f) in (f\<lparr>fl_posted := out\<rparr>, r))
      else
        (let (out, r) = writeAll (\<lambda>lr. andThen (convertLogToJSON S lr) (\<lambda>b. ret (b @ line_end))) write (items logs) (fl_written f)
         in (f\<lparr>fl_written := out\<rparr>, r)))"

definition fluentConfig :: "FluentLogsForwarder \<Rightarrow> string" where
  "fluentConfig f = line_end @ ''  fluentforward:'' @ line_end @ ''    endpoint: 127.0.0.1:'' @ int_str (fl_port f)"

section \<open>Syslog messages in batches\<close>

record syslog_record = t_log +
  lg_trace :: string
  lg_span :: string
  lg_flags :: "32 word"

text \<open>\<open>strconv.Quote\<close> of a byte of an ASCII string.\<close>

definition quoted_byte :: "char \<Rightarrow> string" where
  "quoted_byte c =
     (let n = of_char c :: nat
      in if c = CHR 0x22 \<or> c = CHR 0x5C then [CHR 0x5C, c]
         else if 32 \<le> n \<and> n < 127 then [c]
         else case map_of [(7, CHR ''a''), (8, CHR ''b''), (12, CHR ''f''), (10, CHR ''n''), (13, CHR ''r''), (9, CHR ''t''), (11, CHR ''v'')] n of
           Some e \<Rightarrow> [CHR 0x5C, e]
         | None \<Rightarrow> [CHR 0x5C, CHR ''x'', hex_digit (n div 16), hex_digit (n mod 16)])"

definition quoted :: "sender_lib \<Rightarrow> string \<Rightarrow> string" where
  "quoted S s = (if is_ascii s then [CHR 0x22] @ concat (map quoted_byte s) @ [CHR 0x22] else quote_runes S s)"

record TCPUDPWriter =
  tw_network :: string
  tw_bufSize :: int
  tw_buf :: "string list"
  tw_writes :: "(string \<times> bool) list"

definition NewTCPUDPWriter :: "string \<Rightarrow> int \<Rightarrow> TCPUDPWriter" where
  "NewTCPUDPWriter network batchSize = \<lparr>tw_network = network, tw_bufSize = batchSize, tw_buf = [], tw_writes = []\<rparr>"

text \<open>The timestamp counts from 1970 without a sign here: both divisions are of unsigned numbers.\<close>

definition syslogMessage :: "sender_lib \<Rightarrow> syslog_record \<Rightarrow> string" where
  "syslogMessage S lr =
     (let ts = time_text S ''2006-01-02T15:04:05.999999999Z07:00''
            (sint (lg_time lr div 1000000000) * 1000000000 + sint (lg_time lr mod 1000000000));
          sdid = ''trace_id='' @ quoted S (hex_or_empty (lg_trace lr)) @ '' '' @
            ''span_id='' @ quoted S (hex_or_empty (lg_span lr)) @ '' '' @
            ''trace_flags='' @ [CHR 0x22] @ nat_str (unat (lg_flags lr)) @ [CHR 0x22] @ '' '' @
            concat (map (\<lambda>(k, v). k @ ''='' @ quoted S (str_of v) @ '' '') (lg_attrs lr))
      in ''<166> '' @ ts @ '' 127.0.0.1 - - - ['' @ sdid @ ''] '' @ str_of (lg_body lr) @ line_end)"

text \<open>
  \<open>tw_writes\<close> is what the connection was given to write, with whether it succeeded, as \<open>writes n\<close> decides for the n-th
  write; the buffer is emptied and the result is nil in both cases.
\<close>

definition SendCheck :: "(nat \<Rightarrow> bool) \<Rightarrow> TCPUDPWriter \<Rightarrow> TCPUDPWriter \<times> string option" where
  "SendCheck writes f =
     (if int (length (tw_buf f)) = tw_bufSize f
      then (f\<lparr>tw_buf := [], tw_writes := tw_writes f @ [(concat (tw_buf f), writes (length (tw_writes f)))]\<rparr>, None)
      else (f, None))"

definition tcpSend :: "sender_lib \<Rightarrow> (nat \<Rightarrow> bool) \<Rightarrow> syslog_record \<Rightarrow> TCPUDPWriter \<Rightarrow> TCPUDPWriter \<times> string option" where
  "tcpSend S writes lr f = SendCheck writes (f\<lparr>tw_buf := tw_buf f @ [syslogMessage S lr]\<rparr>)"

fun tcpSendAll :: "sender_lib \<Rightarrow> (nat \<Rightarrow> bool) \<Rightarrow> syslog_record list \<Rightarrow> TCPUDPWriter \<Rightarrow> TCPUDPWriter \<times> string option" where
  "tcpSendAll S writes [] f = (f, None)"
| "tcpSendAll S writes (lr # rs) f =
     (case tcpSend S writes lr f of
        (f', Some err) \<Rightarrow> (f', Some err)
      | (f', None) \<Rightarrow> tcpSendAll S writes rs f')"

definition tcpConsumeLogs ::
    "sender_lib \<Rightarrow> (nat \<Rightarrow> bool) \<Rightarrow> syslog_record nested \<Rightarrow> TCPUDPWriter \<Rightarrow> TCPUDPWriter \<times> string option" where
  "tcpConsumeLogs S writes logs f = tcpSendAll S writes (items logs) f"

definition tcpProtocolName :: "TCPUDPWriter \<Rightarrow> string" where
  "tcpProtocolName f = tw_network f @ ''log''"

definition tcpConfig :: "string \<Rightarrow> TCPUDPWriter \<Rightarrow> string" where
  "tcpConfig endpoint f = line_end @ ''  '' @ tw_network f @ ''log:'' @ line_end @ ''    listen_address: '' @ [CHR 0x22] @ endpoint @
     [CHR 0x22] @ line_end"

section \<open>What is written\<close>

text \<open>Every record is converted and written once, in order, unless a record cannot be converted or a write fails.\<close>

lemma writeAll_delivers:
  "list_all2 (\<lambda>r m. conv r = ret m) rs ms \<Longrightarrow> \<forall>n<length out + length rs. write n = None \<Longrightarrow>
     writeAll conv write rs out = (out @ ms, ret None)"
proof (induction rs ms arbitrary: out rule: list_all2_induct)
  case (Cons r rs m ms)
  then show ?case by simp
qed simp

lemma writeAll_stops:
  "list_all2 (\<lambda>r m. conv r = ret m) rs ms \<Longrightarrow> k < length rs \<Longrightarrow> write (length out + k) = Some err \<Longrightarrow>
     \<forall>n<length out + k. write n = None \<Longrightarrow> writeAll conv write rs out = (out @ take k ms, ret (Some err))"
proof (induction rs ms arbitrary: out k rule: list_all2_induct)
  case (Cons r rs m ms)
  then show ?case
  proof (cases k)
    case (Suc j)
    with Cons.prems have "writeAll conv write rs (out @ [m]) = ((out @ [m]) @ take j ms, ret (Some err))"
      by (intro Cons.IH) auto
    moreover have "write (length out) = None" using Cons.prems Suc by simp
    ultimately show ?thesis using Suc Cons.hyps by simp
  qed simp
qed simp

definition simple :: "val \<Rightarrow> bool" where
  "simple v = (case v of VStr _ \<Rightarrow> True | VInt _ \<Rightarrow> True | VDouble _ \<Rightarrow> True | VBool _ \<Rightarrow> True | _ \<Rightarrow> False)"

definition text_of :: "sender_lib \<Rightarrow> val \<Rightarrow> string" where
  "text_of S v = (case attribute_text S v of Inl _ \<Rightarrow> [] | Inr t \<Rightarrow> t)"

lemma attribute_text_simple: "attribute_text S v = (if simple v then ret (text_of S v) else panic ''missing case'')"
  by (cases v) (auto simp: simple_def text_of_def)

lemma lineAttributes_simple:
  "lineAttributes S sb as =
     (if list_all (\<lambda>(_, v). simple v) as
      then ret (sb @ concat (map (\<lambda>(k, v). '' '' @ k @ ''='' @ text_of S v) as)) else panic ''missing case'')"
  by (induction as arbitrary: sb) (auto simp: attribute_text_simple)

lemma mapAttributes_simple:
  "mapAttributes S out as =
     (if list_all (\<lambda>(_, v). simple v) as
      then ret (foldl (\<lambda>m (k, v). AList.update k (text_of S v) m) out as) else panic ''missing case'')"
  by (induction as arbitrary: out) (auto simp: attribute_text_simple)

lemma map_of_updates:
  "gomap_ok as \<Longrightarrow> map_of (foldl (\<lambda>m (k, v). AList.update k (f v) m) out as) k =
     (case map_of as k of Some v \<Rightarrow> Some (f v) | None \<Rightarrow> map_of out k)"
proof (induction as arbitrary: out)
  case (Cons a as)
  obtain j v where a: "a = (j, v)" by (cases a)
  have "map_of as j = None" using Cons.prems by (simp add: a gomap_ok_def map_of_eq_None_iff)
  then show ?case using Cons.IH [of "AList.update j (f v) out"] Cons.prems
    by (auto simp: a gomap_ok_def split: option.split)
qed simp

text \<open>The map of a record: its attributes, and the body as \<open>log\<close>, unless an attribute has that name.\<close>

lemma convertLogToMap_lookup:
  assumes "convertLogToMap S lr = ret m" "gomap_ok (lg_attrs lr)"
  shows "map_of m k =
    (case map_of (lg_attrs lr) k of
       Some v \<Rightarrow> Some (text_of S v)
     | None \<Rightarrow> if k = ''log'' \<and> is_str (lg_body lr) then Some (str_of (lg_body lr)) else None)"
  using assms by (auto simp: convertLogToMap_def mapAttributes_simple map_of_updates split: if_splits option.split)

lemma log_attribute_replaces_body:
  "convertLogToMap S lr = ret m \<Longrightarrow> gomap_ok (lg_attrs lr) \<Longrightarrow> map_of (lg_attrs lr) ''log'' = Some v \<Longrightarrow>
     map_of m ''log'' = Some (text_of S v)"
  by (simp add: convertLogToMap_lookup)

section \<open>Batches of syslog messages\<close>

lemma SendCheck_simps:
  "int (length (tw_buf f)) \<noteq> tw_bufSize f \<Longrightarrow> SendCheck writes f = (f, None)"
  "int (length (tw_buf f)) = tw_bufSize f \<Longrightarrow>
     SendCheck writes f = (f\<lparr>tw_buf := [], tw_writes := tw_writes f @ [(concat (tw_buf f), writes (length (tw_writes f)))]\<rparr>, None)"
  by (simp_all add: SendCheck_def)

definition given :: "TCPUDPWriter \<Rightarrow> string" where
  "given f = concat (map fst (tw_writes f)) @ concat (tw_buf f)"

text \<open>
  The messages are given to the connection in full batches, in order; those of the last, incomplete batch stay in the
  buffer, and nothing empties it, since \<open>Flush\<close> does nothing. The result is nil whatever the writes return.
\<close>

theorem tcp_batches:
  assumes "0 < tw_bufSize f" "int (length (tw_buf f)) < tw_bufSize f" "tcpSendAll S writes rs f = (f', r)"
  shows "r = None \<and> tw_bufSize f' = tw_bufSize f \<and> given f' = given f @ concat (map (syslogMessage S) rs) \<and>
    int (length (tw_buf f')) = (int (length (tw_buf f)) + int (length rs)) mod tw_bufSize f"
  using assms
proof (induction rs arbitrary: f)
  case (Cons lr rs)
  define g where "g = f\<lparr>tw_buf := tw_buf f @ [syslogMessage S lr]\<rparr>"
  obtain h where h: "tcpSend S writes lr f = (h, None)" "tw_bufSize h = tw_bufSize f"
    "given h = given f @ syslogMessage S lr"
    "int (length (tw_buf h)) = (int (length (tw_buf f)) + 1) mod tw_bufSize f"
    "int (length (tw_buf h)) < tw_bufSize f"
  proof (cases "int (length (tw_buf g)) = tw_bufSize g")
    case True
    then have "(int (length (tw_buf f)) + 1) mod tw_bufSize f = 0" by (simp add: g_def add.commute)
    with True show ?thesis using Cons.prems that
      by (simp add: tcpSend_def SendCheck_def g_def given_def)
  next
    case False
    then show ?thesis using Cons.prems that
      by (simp add: tcpSend_def SendCheck_def g_def given_def)
  qed
  then have "tcpSendAll S writes rs h = (f', r)" using Cons.prems(3) by simp
  then show ?case using Cons.IH [of h] h Cons.prems(1)
    by (simp add: mod_simps algebra_simps)
qed simp

corollary tcp_tail_is_lost:
  assumes "tcpConsumeLogs S writes logs (NewTCPUDPWriter network k) = (f', r)" "0 < k" "int (length (items logs)) < k"
  shows "tw_writes f' = [] \<and> r = None"
proof -
  let ?f = "NewTCPUDPWriter network k"
  have "tw_writes f' = tw_writes f \<and> r = None"
    if "tcpSendAll S writes rs f = (f', r)" "int (length (tw_buf f)) + int (length rs) < tw_bufSize f" for rs f
    using that by (induction rs arbitrary: f) (auto simp: tcpSend_def SendCheck_def)
  from this [of "items logs" ?f] show ?thesis using assms by (simp add: tcpConsumeLogs_def NewTCPUDPWriter_def)
qed

text \<open>A writer whose batches have size 0 or less never writes.\<close>

lemma tcp_never_writes:
  "tcpSendAll S writes rs f = (f', r) \<Longrightarrow> tw_bufSize f \<le> 0 \<Longrightarrow> tw_writes f' = tw_writes f"
  by (induction rs arbitrary: f) (auto simp: tcpSend_def SendCheck_def)

section \<open>The configurations are formats\<close>

text \<open>
  Each configuration meets what the constructor asks for: one \<open>%s\<close>, and every other \<open>%\<close> doubled, so that the text is
  the list of its lines with the name of the file in the second and the \<open>%\<close> single; and every operator that another
  names as its output is there.
\<close>

definition percent_ok :: "string \<Rightarrow> bool" where
  "percent_ok l = (sprintf_name [] False l \<noteq> None)"

definition unescaped :: "string \<Rightarrow> string" where
  "unescaped l = the (sprintf_name [] False l)"

lemma not_pending: "sprintf_name name False l = sprintf_name [] False l"
  by (induction name False l rule: sprintf_name.induct) auto

lemma sprintf_append:
  "sprintf_name [] False a = Some t \<Longrightarrow> sprintf_name name p (a @ b) = map_option ((@) t) (sprintf_name name p b)"
proof (induction "[] :: string" False a arbitrary: t rule: sprintf_name.induct)
  case (1)
  then show ?case by (cases "sprintf_name name p b") auto
next
  case (2 c)
  then have c: "c \<noteq> CHR ''%''" "t = [c]" by (auto split: if_splits)
  have "(#) c = (@) [c]" by (rule ext) simp
  with c show ?case by (cases b) auto
next
  case (3 c d cs)
  have "(@) (c # z) = (\<lambda>x. c # z @ x)" for c :: char and z by (rule ext) simp
  with 3 show ?case by (auto split: if_splits simp: option.map_comp comp_def)
qed

lemma config_of_append: "config_of (xs @ ys) = config_of xs @ config_of ys"
  by (simp add: config_of_def)

lemma sprintf_lines:
  "list_all percent_ok ls \<Longrightarrow> sprintf_name name False (config_of ls) = Some (config_of (map unescaped ls))"
proof (induction ls)
  case (Cons l ls)
  then obtain t where t: "sprintf_name [] False l = Some t" by (auto simp: percent_ok_def)
  have "sprintf_name [] False (line_end @ l) = Some (line_end @ t)"
    using t by (cases l) (auto simp: line_end_def)
  from sprintf_append [OF this, of name False "config_of ls"] show ?case
    using Cons t by (simp add: config_of_def unescaped_def)
qed (simp add: config_of_def)

lemma config_instantiated:
  assumes "list_all percent_ok rest"
  shows "sprintf_name name True (config_of (filelog_head @ rest)) =
    Some (config_of ([''  filelog:'', ''    include: [ '' @ name @ '' ]''] @ drop 2 filelog_head @ map unescaped rest))"
proof -
  let ?u = "line_end @ ''  filelog:'' @ line_end @ ''    include: [ ''"
  let ?v = "'' ]'' @ config_of (drop 2 filelog_head)"
  have split: "config_of (filelog_head @ rest) = ?u @ ''%s'' @ ?v @ config_of rest"
    by (simp add: config_of_def filelog_head_def line_end_def)
  have u: "sprintf_name [] False ?u = Some ?u" by (simp add: line_end_def)
  have v: "sprintf_name [] False ?v = Some ?v" by (simp add: line_end_def config_of_def filelog_head_def)
  have "sprintf_name name False (?v @ config_of rest) = Some (?v @ config_of (map unescaped rest))"
    by (simp add: sprintf_append [OF v] sprintf_lines [OF assms] del: append.simps append_assoc)
  then have "sprintf_name name True (''%s'' @ ?v @ config_of rest) = Some (name @ ?v @ config_of (map unescaped rest))"
    by (simp del: append_assoc)
  then show ?thesis
    unfolding split sprintf_append [OF u] by (simp add: config_of_def line_end_def filelog_head_def)
qed

lemma chunks_ok:
  "list_all percent_ok find_format" "list_all percent_ok crio_parser" "list_all percent_ok (containerd_parser [])"
  "list_all percent_ok (containerd_parser to_metadata)" "list_all percent_ok docker_parser" "list_all percent_ok move_log"
  "list_all percent_ok metadata_parser" "list_all percent_ok move_attributes" "percent_ok ''  ''"
  by code_simp+

definition configurations :: "string list list" where
  "configurations = [KubernetesContainer, KubernetesContainerParser, KubernetesCRIContainerd,
     KubernetesCRIContainerdNoAttributesOps, CRIContainerd]"

lemma configurations_are_formats:
  "list_all (\<lambda>ls. take 6 ls = filelog_head \<and> list_all percent_ok (drop 6 ls)) configurations"
proof -
  have six: "length filelog_head = 6" by (simp add: filelog_head_def)
  have "list_all percent_ok [''      - type: container'', ''        id: container-parser'', ''  '']" by code_simp
  then show ?thesis
    by (simp add: configurations_def KubernetesContainer_def KubernetesContainerParser_def KubernetesCRIContainerd_def
        KubernetesCRIContainerdNoAttributesOps_def CRIContainerd_def six chunks_ok)
qed

lemma k8s_config_text:
  assumes "ls \<in> set configurations" "kw_config f = config_of ls"
  shows "\<exists>rest. k8sConfig f = Some (config_of ([''  filelog:'', ''    include: [ '' @ kw_name f @ '' ]''] @ rest)) \<and>
    length rest + 2 = length ls"
proof -
  have ok: "take 6 ls = filelog_head" "list_all percent_ok (drop 6 ls)"
    using assms(1) configurations_are_formats by (auto simp: list_all_iff)
  then have ls: "ls = filelog_head @ drop 6 ls" by (metis append_take_drop_id)
  have "k8sConfig f = Some (config_of ([''  filelog:'', ''    include: [ '' @ kw_name f @ '' ]''] @
      drop 2 filelog_head @ map unescaped (drop 6 ls)))"
    unfolding k8sConfig_def assms(2) by (subst ls) (rule config_instantiated [OF ok(2)])
  moreover have "length (drop 2 filelog_head @ map unescaped (drop 6 ls)) + 2 = length ls"
  proof -
    have "length ls = 6 + length (drop 6 ls)" by (subst ls) (simp add: filelog_head_def)
    then show ?thesis by (simp add: filelog_head_def)
  qed
  ultimately show ?thesis by blast
qed

text \<open>The values of a key, at the start of a line or of a list item.\<close>

definition values_of :: "string \<Rightarrow> string list \<Rightarrow> string list" where
  "values_of key ls = concat (map (\<lambda>l.
     let t = trim_prefix (dropWhile (\<lambda>c. c = CHR '' '') l) ''- ''
     in if has_prefix t (key @ '': '') then [drop (length key + 2) t] else []) ls)"

lemma outputs_resolve:
  "list_all (\<lambda>ls. list_all (\<lambda>out. List.member (values_of ''id'' ls) out) (values_of ''output'' ls)) configurations"
  by code_simp

end
