(* ===== verification/Test_Scenario.thy ===== *)
theory Test_Scenario
  imports Test_Load Log_Senders
begin

text \<open>
  The configurations that the tests of the testbed generate and the checks their scenarios make
  (testbed/correctnesstests/utils.go, testbed/tests/scenarios.go, testbed/testbed/receivers.go, senders.go): the text of a
  collector configuration, the parts the senders and receivers contribute, the table of pipelines, and the identifiers by
  which the scenarios with retries recognise a log.
\<close>

section \<open>What senders and receivers contribute\<close>

text \<open>A sender, a receiver or a connector, as the text and the names it gives to the configuration.\<close>

record config_part =
  cp_yaml :: string
  cp_protocol :: string
  cp_receiver_type :: string

definition otlpConfig :: "string \<Rightarrow> string \<Rightarrow> string" where
  "otlpConfig protocol endpoint =
     config_of [''  otlp:'', ''    protocols:'', ''      '' @ protocol @ '':'',
       ''        endpoint: '' @ [CHR 0x22] @ endpoint @ [CHR 0x22]]"

record BaseOTLPDataReceiver =
  bor_port :: int
  exporterType :: string
  compression :: string
  retry :: string
  sendingQueue :: string
  timeout :: string
  batcher :: string

definition NewOTLPDataReceiver :: "int \<Rightarrow> BaseOTLPDataReceiver" where
  "NewOTLPDataReceiver port = \<lparr>bor_port = port, exporterType = ''otlp'', compression = [], retry = [],
     sendingQueue = [], timeout = [], batcher = []\<rparr>"

definition NewOTLPHTTPDataReceiver :: "int \<Rightarrow> BaseOTLPDataReceiver" where
  "NewOTLPHTTPDataReceiver port = \<lparr>bor_port = port, exporterType = ''otlphttp'', compression = [], retry = [],
     sendingQueue = [], timeout = [], batcher = []\<rparr>"

definition receiverConfig :: "BaseOTLPDataReceiver \<Rightarrow> string" where
  "receiverConfig bor =
     (let addr = ''127.0.0.1:'' @ int_str (bor_port bor);
          addr = (if exporterType bor = ''otlphttp'' then ''http://'' @ addr else addr);
          str = config_of [''  '' @ exporterType bor @ '':'', ''    endpoint: '' @ [CHR 0x22] @ addr @ [CHR 0x22],
            ''    '' @ retry bor, ''    '' @ sendingQueue bor, ''    '' @ timeout bor, ''    '' @ batcher bor,
            ''    tls:'', ''      insecure: true''];
          comp = (if compression bor \<noteq> [] then compression bor else ''none'')
      in str @ config_of [''    compression: '' @ [CHR 0x22] @ comp @ [CHR 0x22]])"

section \<open>The configuration of a test\<close>

record ProcessorNameAndConfigBody =
  pc_name :: string
  pc_body :: string

text \<open>The loop of both functions: the bodies, one after the other, and the names, separated by commas.\<close>

fun sectionsAndList :: "bool \<Rightarrow> (string \<times> string) list \<Rightarrow> string \<Rightarrow> string \<Rightarrow> string \<times> string" where
  "sectionsAndList first [] secs names = (secs, names)"
| "sectionsAndList first ((name, body) # rest) secs names =
     sectionsAndList False rest (secs @ body @ line_end) ((if first then names else names @ '','') @ name)"

definition processorParts :: "ProcessorNameAndConfigBody list \<Rightarrow> string \<times> string" where
  "processorParts ps = sectionsAndList True (map (\<lambda>p. (pc_name p, pc_body p)) ps) [] []"

text \<open>The name of the pipeline, and whether the test goes on without an error.\<close>

definition pipeline_of :: "sender_kind \<Rightarrow> string \<times> bool" where
  "pipeline_of k = (case k of TraceDataSender \<Rightarrow> (''traces'', True) | MetricDataSender \<Rightarrow> (''metrics'', True)
     | LogDataSender \<Rightarrow> (''logs'', True) | OtherSender _ \<Rightarrow> ([], False))"

definition createConfigYaml ::
    "sender_kind \<Rightarrow> config_part \<Rightarrow> config_part \<Rightarrow> string \<Rightarrow> ProcessorNameAndConfigBody list \<Rightarrow> nat list
      \<Rightarrow> (string, string) gomap \<Rightarrow> string \<times> bool" where
  "createConfigYaml kind sender receiver resultDir processors order extensions =
     (let (processorsSections, processorsList) = processorParts processors;
          (extensionsSections, extensionsList) = sectionsAndList True (shuffle order extensions) [] [];
          (pipeline, ok) = pipeline_of kind
      in (config_of
           [''receivers:'' @ cp_yaml sender, ''exporters:'' @ cp_yaml receiver, ''processors:'', ''  '' @ processorsSections,
            [], ''extensions:'', ''  pprof:'', ''    save_to_file: '' @ resultDir @ ''/cpu.prof'', ''  '' @ extensionsSections,
            [], ''service:'', ''  extensions: [pprof, '' @ extensionsList @ '']'', ''  pipelines:'', ''    '' @ pipeline @ '':'',
            ''      receivers: ['' @ cp_protocol sender @ '']'', ''      processors: ['' @ processorsList @ '']'',
            ''      exporters: ['' @ cp_protocol receiver @ '']'', []], ok))"

definition telemetry :: "int \<Rightarrow> string list" where
  "telemetry port =
     [''service:'', ''  telemetry:'', ''    metrics:'', ''      readers:'', ''        - pull:'', ''            exporter:'',
      ''              prometheus:'', ''                host: '' @ [CHR 0x27] @ ''127.0.0.1'' @ [CHR 0x27],
      ''                port: '' @ int_str port, ''    logs:'', ''      level: '' @ [CHR 0x22] @ ''debug'' @ [CHR 0x22],
      ''  extensions:'', ''  pipelines:'']"

text \<open>With a connector the pipeline is in two parts; \<open>port\<close> is an available port.\<close>

definition CreateConfigYaml ::
    "int \<Rightarrow> sender_kind \<Rightarrow> config_part \<Rightarrow> config_part \<Rightarrow> config_part option \<Rightarrow> ProcessorNameAndConfigBody list \<Rightarrow> string \<times> bool" where
  "CreateConfigYaml port kind sender receiver connector processors =
     (let (processorsSections, processorsList) = processorParts processors;
          (pipeline1, ok) = pipeline_of kind;
          head = [''receivers:'' @ cp_yaml sender, ''exporters:'' @ cp_yaml receiver, ''processors:'', ''  '' @ processorsSections,
            [], ''extensions:'', []]
      in (case connector of
            Some c \<Rightarrow>
              config_of (head @ [''connectors:'' @ cp_yaml c, []] @ telemetry port @
                [''    '' @ pipeline1 @ ''/in:'', ''      receivers: ['' @ cp_protocol sender @ '']'',
                 ''      processors: ['' @ processorsList @ '']'', ''      exporters: ['' @ cp_protocol c @ '']'',
                 ''    '' @ cp_receiver_type c @ ''/out:'', ''      receivers: ['' @ cp_protocol c @ '']'',
                 ''      exporters: ['' @ cp_protocol receiver @ '']'', []])
          | None \<Rightarrow>
              config_of (head @ telemetry port @
                [''    '' @ pipeline1 @ '':'', ''      receivers: ['' @ cp_protocol sender @ '']'',
                 ''      processors: ['' @ processorsList @ '']'', ''      exporters: ['' @ cp_protocol receiver @ '']'', []]),
          ok))"

section \<open>The table of pipelines\<close>

record PipelineDef =
  pd_receiver :: string
  pd_exporter :: string

text \<open>The lines of the file; a line without a tab has no second part.\<close>

fun pipelineDefs :: "string list \<Rightarrow> PipelineDef list \<Rightarrow> PipelineDef list go" where
  "pipelineDefs [] defs = ret defs"
| "pipelineDefs (line # lines) defs =
     (let s = split_on (CHR 0x09) line
      in if s ! 0 = ''Receiver'' then pipelineDefs lines defs
         else if length s \<le> 1 then panic ''index out of range''
         else pipelineDefs lines (defs @ [\<lparr>pd_receiver = s ! 0, pd_exporter = s ! 1\<rparr>]))"

text \<open>\<open>Inl\<close> of the outcome is the error of opening the file.\<close>

definition LoadPictOutputPipelineDefs :: "string + string list \<Rightarrow> (string + PipelineDef list) go" where
  "LoadPictOutputPipelineDefs opened =
     (case opened of Inl e \<Rightarrow> ret (Inl e) | Inr lines \<Rightarrow> andThen (pipelineDefs lines []) (\<lambda>ds. ret (Inr ds)))"

section \<open>Recognising logs\<close>

text \<open>
  \<open>FindStringSubmatch\<close> of the expression \<open> key=(\S+) \<close>, given the key with its blank and its equals sign: the leftmost
  match. What \<open>\S+\<close> matches has no blank, so it ends where the blank of the expression has to be.
\<close>

definition non_space :: "char \<Rightarrow> bool" where
  "non_space c \<longleftrightarrow> (of_char c :: nat) \<notin> {9, 10, 12, 13, 32}"

fun find_key :: "string \<Rightarrow> string \<Rightarrow> (string \<times> string) option" where
  "find_key key [] = None"
| "find_key key (c # cs) =
     (let rest = drop (length key) (c # cs); w = takeWhile non_space rest
      in if has_prefix (c # cs) key \<and> w \<noteq> [] \<and> has_prefix (drop (length w) rest) '' '' then Some (key @ w @ '' '', w)
         else find_key key cs)"

definition extractIDFromLog :: "lib \<Rightarrow> t_log \<Rightarrow> string \<times> string" where
  "extractIDFromLog L lr =
     (let body = as_string L (lg_body lr);
          batch = (case find_key '' batch_index='' body of Some (m, _) \<Rightarrow> m | None \<Rightarrow> []);
          batch = (case find_key '' item_index='' body of Some (m, _) \<Rightarrow> m | None \<Rightarrow> batch);
          batch = (case attr_get (lg_attrs lr) ''batch_index'' of Some v \<Rightarrow> as_string L v | None \<Rightarrow> batch);
          item = (case attr_get (lg_attrs lr) ''item_index'' of Some v \<Rightarrow> as_string L v | None \<Rightarrow> [])
      in (batch, item))"

text \<open>Of each batch, the records of the first scope of the first resource.\<close>

definition first_records :: "t_log nested \<Rightarrow> t_log list go" where
  "first_records ld =
     (case ld of
        [] \<Rightarrow> panic ''index out of range''
      | (_, scopes) # _ \<Rightarrow> (case scopes of [] \<Rightarrow> panic ''index out of range'' | rs # _ \<Rightarrow> ret rs))"

definition log_id :: "lib \<Rightarrow> t_log \<Rightarrow> string" where
  "log_id L lr = (let (itemIndex, batchIndex) = extractIDFromLog L lr in batchIndex @ itemIndex)"

fun getLogsID :: "lib \<Rightarrow> t_log nested list \<Rightarrow> string list go" where
  "getLogsID L [] = ret []"
| "getLogsID L (ld # lds) =
     andThen (first_records ld) (\<lambda>rs. andThen (getLogsID L lds) (\<lambda>ids. ret (map (log_id L) rs @ ids)))"

definition allElementsExistInSlice :: "string list \<Rightarrow> string list \<Rightarrow> bool" where
  "allElementsExistInSlice xs ys =
     (let elementMap = foldl (\<lambda>m element. AList.update element True m) [] ys
      in list_all (\<lambda>element. map_of elementMap element \<noteq> None) xs)"

section \<open>Options with random attributes\<close>

text \<open>
  The random names and values are given; \<open>rand.IntN\<close> panics for a bound that is not positive. An attribute whose name was
  drawn before replaces it.
\<close>

definition constructLoadOptions :: "int \<Rightarrow> int \<Rightarrow> (nat \<Rightarrow> string \<times> string) \<Rightarrow> LoadOptions go" where
  "constructLoadOptions attrCount attrSizeByte draw =
     (if 0 < attrCount \<and> attrSizeByte * 2 - 1 \<le> 0 then panic ''invalid argument to IntN''
      else ret \<lparr>DataItemsPerSecond = 1000, ItemsPerBatch = 10,
        Attributes = foldl (\<lambda>m i. AList.update (fst (draw i)) (snd (draw i)) m) [] [0..<nat attrCount], Parallel = 0, MaxDelay = 0\<rparr>)"

section \<open>The lists of names and sections\<close>

lemma sectionsAndList_rest:
  "sectionsAndList False ps secs names =
     (secs @ concat (map (\<lambda>(_, body). body @ line_end) ps), names @ concat (map (\<lambda>(name, _). '','' @ name) ps))"
  by (induction ps arbitrary: secs names) auto

lemma join_comma: "join '','' (p # ps) = p @ concat (map (\<lambda>q. '','' @ q) ps)"
  by (induction ps arbitrary: p) auto

lemma processorParts_eq:
  "processorParts ps = (concat (map (\<lambda>p. pc_body p @ line_end) ps), join '','' (map pc_name ps))"
  by (cases ps) (auto simp: processorParts_def sectionsAndList_rest join_comma comp_def simp del: join.simps(3))

section \<open>The table is read back\<close>

definition cell :: "string \<Rightarrow> bool" where
  "cell s \<longleftrightarrow> CHR 0x09 \<notin> set s"

lemma pipelines_roundtrip:
  assumes "\<forall>d\<in>set ds. cell (pd_receiver d) \<and> cell (pd_exporter d) \<and> pd_receiver d \<noteq> ''Receiver''"
  shows "LoadPictOutputPipelineDefs (Inr ((''Receiver'' @ [CHR 0x09] @ ''Exporter'') #
      map (\<lambda>d. pd_receiver d @ [CHR 0x09] @ pd_exporter d) ds)) = ret (Inr ds)"
proof -
  have row: "split_on (CHR 0x09) (a @ CHR 0x09 # b) = [a, b]" if "cell a" "cell b" for a b
    using that by (simp add: cell_def split_on_append_sep split_on_id)
  have head: "split_on (CHR 0x09) (''Receiver'' @ CHR 0x09 # ''Exporter'') = [''Receiver'', ''Exporter'']"
    by (rule row) (simp_all add: cell_def)
  have rows: "pipelineDefs (map (\<lambda>d. pd_receiver d @ [CHR 0x09] @ pd_exporter d) ds) acc = ret (acc @ ds)" for acc
    using assms
  proof (induction ds arbitrary: acc)
    case (Cons d ds)
    then have "split_on (CHR 0x09) (pd_receiver d @ CHR 0x09 # pd_exporter d) = [pd_receiver d, pd_exporter d]"
      by (intro row) simp_all
    with Cons show ?case by simp
  qed simp
  show ?thesis using head rows [of "[]"] by (simp add: LoadPictOutputPipelineDefs_def)
qed

lemma blank_line_panics: "pipelineDefs ([] # lines) defs = panic ''index out of range''"
  by simp

section \<open>When the logs were retried\<close>

lemma updates_lookup: "map_of (foldl (\<lambda>m e. AList.update e True m) m0 es) e = (if e \<in> set es then Some True else map_of m0 e)"
  by (induction es arbitrary: m0) auto

lemma all_exist_iff: "allElementsExistInSlice xs ys \<longleftrightarrow> set xs \<subseteq> set ys"
  by (auto simp: allElementsExistInSlice_def updates_lookup list_all_iff)

definition numbered :: "nat \<Rightarrow> nat \<Rightarrow> t_log \<Rightarrow> bool" where
  "numbered b i lr \<longleftrightarrow> attr_get (lg_attrs lr) ''batch_index'' = Some (VStr (''batch_'' @ nat_str b)) \<and>
     attr_get (lg_attrs lr) ''item_index'' = Some (VStr (''item_'' @ nat_str i))"

lemma numbered_id: "numbered b i lr \<Longrightarrow> log_id L lr = ''item_'' @ nat_str i @ ''batch_'' @ nat_str b"
  by (simp add: numbered_def log_id_def extractIDFromLog_def)

lemma digits_cancel:
  assumes "list_all is_digit u" "list_all is_digit v" "\<not> is_digit c" "u @ c # x = v @ c # y"
  shows "u = v \<and> x = y"
proof -
  have "takeWhile is_digit (u @ c # x) = u" "takeWhile is_digit (v @ c # y) = v"
    using assms(1-3) by (auto simp: list_all_iff takeWhile_append2)
  with assms(4) show ?thesis by auto
qed

text \<open>Logs with both attributes are recognised by their item and batch.\<close>

lemma numbered_ids_distinct:
  assumes "numbered b i lr" "numbered b' i' lr'"
  shows "log_id L lr = log_id L lr' \<longleftrightarrow> b = b' \<and> i = i'"
proof
  assume "log_id L lr = log_id L lr'"
  then have eq: "nat_str i @ CHR ''b'' # ''atch_'' @ nat_str b = nat_str i' @ CHR ''b'' # ''atch_'' @ nat_str b'"
    using assms by (simp add: numbered_id)
  have "\<not> is_digit (CHR ''b'')" by (simp add: is_digit_def)
  from digits_cancel [OF nat_str_digits nat_str_digits this eq] show "b = b' \<and> i = i'" by simp
qed (use assms in \<open>simp add: numbered_id\<close>)

definition records_of :: "t_log nested list \<Rightarrow> t_log set" where
  "records_of lds = {lr. \<exists>ld rs. ld \<in> set lds \<and> first_records ld = ret rs \<and> lr \<in> set rs}"

lemma getLogsID_ret: "getLogsID L lds = ret ids \<Longrightarrow> set ids = log_id L ` records_of lds"
proof (induction lds arbitrary: ids)
  case (Cons ld lds)
  then obtain rs js where *: "first_records ld = ret rs" "getLogsID L lds = ret js" "ids = map (log_id L) rs @ js"
    by (auto simp: andThen_Inr_iff)
  have "records_of (ld # lds) = set rs \<union> records_of lds" using *(1) by (auto simp: records_of_def)
  with Cons.IH [OF *(2)] *(3) show ?case by auto
qed (simp add: records_of_def)

text \<open>
  The check of the scenarios with retries: every numbered log that was to be retried has been received, up to the
  number of times.
\<close>

lemma retried_iff:
  assumes "getLogsID L again = ret xs" "getLogsID L back_in = ret ys"
    "\<And>lr. lr \<in> records_of again \<union> records_of back_in \<Longrightarrow> \<exists>b i. numbered b i lr"
  shows "allElementsExistInSlice xs ys \<longleftrightarrow>
    (\<forall>lr\<in>records_of again. \<exists>lr'\<in>records_of back_in. \<forall>b i. numbered b i lr \<longrightarrow> numbered b i lr')"
proof -
  have same: "log_id L lr = log_id L lr' \<longleftrightarrow> (\<forall>b i. numbered b i lr \<longrightarrow> numbered b i lr')"
    if members: "lr \<in> records_of again" "lr' \<in> records_of back_in" for lr lr'
  proof -
    obtain b i b' i' where n: "numbered b i lr" "numbered b' i' lr'" using assms(3) members by (meson UnCI)
    then show ?thesis using numbered_ids_distinct [OF n, of L] numbered_ids_distinct by metis
  qed
  have "allElementsExistInSlice xs ys \<longleftrightarrow> (\<forall>lr\<in>records_of again. \<exists>lr'\<in>records_of back_in. log_id L lr = log_id L lr')"
    by (auto simp: all_exist_iff getLogsID_ret [OF assms(1)] getLogsID_ret [OF assms(2)] subset_iff)
  then show ?thesis using same by meson
qed

text \<open>
  Without the attributes the body decides, and the item found there is put in the place of the batch: the identifier is
  the matched text of the item, and logs of different batches with the same item are taken for the same.
\<close>

lemma body_id:
  assumes "attr_get (lg_attrs lr) ''batch_index'' = None" "attr_get (lg_attrs lr) ''item_index'' = None"
    "find_key '' item_index='' (as_string L (lg_body lr)) = Some (m, w)"
  shows "extractIDFromLog L lr = (m, [])"
  using assms by (simp add: extractIDFromLog_def)

lemma body_ids_collide:
  "log_id L \<lparr>lg_severity = 0, lg_text = [], lg_body = VStr ''x batch_index=batch_1 item_index=item_7 y'', lg_sampled = b, lg_time = t, lg_attrs = []\<rparr> =
   log_id L \<lparr>lg_severity = 0, lg_text = [], lg_body = VStr ''x batch_index=batch_2 item_index=item_7 y'', lg_sampled = b, lg_time = t, lg_attrs = []\<rparr>"
  by (simp add: log_id_def extractIDFromLog_def attr_get_def has_prefix_def non_space_def)

end
