(* ===== verification/Scraper_Test.thy ===== *)
theory Scraper_Test
  imports Go_Time Test_Util
begin

text \<open>
  The harness for integration tests of scrapers (coreinternal/scraperinttest/scraperint.go): options, the validation of
  container requests, the start of the containers, the condition that is polled until the metrics agree, and the hook that
  runs a script. Containers, receivers, golden files and the comparison of metrics are parameters; a failed \<open>require\<close>
  ends the test.
\<close>

section \<open>The test and its options\<close>

text \<open>\<open>cr_error\<close> is what the request's own \<open>Validate\<close> returns.\<close>

record ContainerRequest =
  cr_name :: string
  ExposedPorts :: "string list"
  cr_error :: "string option"

record ('cfg, 'opt) IntegrationTest =
  containerRequests :: "ContainerRequest list"
  allowHardcodedHostPort :: bool
  createContainerTimeout :: duration
  customConfig :: 'cfg
  expectedFile :: string
  compareOptions :: "'opt list"
  compareTimeout :: duration
  failOnErrorLogs :: bool
  writeExpected :: bool

datatype ('cfg, 'opt) TestOption =
    WithContainerRequest ContainerRequest
  | AllowHardcodedHostPort
  | WithCreateContainerTimeout duration
  | WithCustomConfig 'cfg
  | WithExpectedFile string
  | FailOnErrorLogs
  | WriteExpected
  | WithCompareOptions "'opt list"
  | WithCompareTimeout duration

fun applyOption :: "('cfg, 'opt) TestOption \<Rightarrow> ('cfg, 'opt) IntegrationTest \<Rightarrow> ('cfg, 'opt) IntegrationTest" where
  "applyOption (WithContainerRequest cr) it = it\<lparr>containerRequests := containerRequests it @ [cr]\<rparr>"
| "applyOption AllowHardcodedHostPort it = it\<lparr>allowHardcodedHostPort := True\<rparr>"
| "applyOption (WithCreateContainerTimeout t) it = it\<lparr>createContainerTimeout := t\<rparr>"
| "applyOption (WithCustomConfig c) it = it\<lparr>customConfig := c\<rparr>"
| "applyOption (WithExpectedFile f) it = it\<lparr>expectedFile := f\<rparr>"
| "applyOption FailOnErrorLogs it = it\<lparr>failOnErrorLogs := True\<rparr>"
| "applyOption WriteExpected it = it\<lparr>writeExpected := True\<rparr>"
| "applyOption (WithCompareOptions os) it = it\<lparr>compareOptions := os\<rparr>"
| "applyOption (WithCompareTimeout t) it = it\<lparr>compareTimeout := t\<rparr>"

text \<open>\<open>keep\<close> is the configuration function that does nothing, \<open>default_file\<close> the joined path of the expected metrics.\<close>

definition NewIntegrationTest :: "'cfg \<Rightarrow> string \<Rightarrow> ('cfg, 'opt) TestOption list \<Rightarrow> ('cfg, 'opt) IntegrationTest" where
  "NewIntegrationTest keep default_file opts =
     foldl (\<lambda>it opt. applyOption opt it)
       \<lparr>containerRequests = [], allowHardcodedHostPort = False, createContainerTimeout = 5 * minute, customConfig = keep,
        expectedFile = default_file, compareOptions = [], compareTimeout = minute, failOnErrorLogs = False,
        writeExpected = False\<rparr> opts"

section \<open>Validation\<close>

text \<open>The requirement that fails first, if any.\<close>

fun validateFrom :: "bool \<Rightarrow> string list \<Rightarrow> ContainerRequest list \<Rightarrow> string option" where
  "validateFrom allow containerNames [] = None"
| "validateFrom allow containerNames (cr # crs) =
     (if cr_name cr \<in> set containerNames then Some (''duplicate container name: '' @ cr_name cr)
      else case (if allow then None else List.find (\<lambda>port. CHR '':'' \<in> set port) (ExposedPorts cr)) of
          Some port \<Rightarrow> Some (''exposed port hardcoded to host port: '' @ port)
        | None \<Rightarrow>
            (case cr_error cr of
               Some e \<Rightarrow> Some e
             | None \<Rightarrow> validateFrom allow (cr_name cr # containerNames) crs))"

definition validateTest :: "('cfg, 'opt) IntegrationTest \<Rightarrow> string option" where
  "validateTest it = validateFrom (allowHardcodedHostPort it) [] (containerRequests it)"

section \<open>Containers\<close>

text \<open>
  Each request is tried once a second until it succeeds or the timeout ends the tries: \<open>tries\<close> is their number, and
  \<open>create cr n\<close> the container that the n-th try makes, if it does. The goroutines add theirs in any order. Whether a
  request has failed is noted, and the test goes on.
\<close>

fun firstSuccess :: "(nat \<Rightarrow> 'c option) \<Rightarrow> nat \<Rightarrow> nat \<Rightarrow> 'c option" where
  "firstSuccess try n 0 = None"
| "firstSuccess try n (Suc left) = (case try n of Some c \<Rightarrow> Some c | None \<Rightarrow> firstSuccess try (Suc n) left)"

definition addContainer :: "(string, 'c) gomap \<Rightarrow> string \<times> 'c option \<Rightarrow> (string, 'c) gomap" where
  "addContainer ci r = (case snd r of Some c \<Rightarrow> AList.update (fst r) c ci | None \<Rightarrow> ci)"

definition createContainers ::
    "(ContainerRequest \<Rightarrow> nat \<Rightarrow> 'c option) \<Rightarrow> nat \<Rightarrow> nat list \<Rightarrow> ContainerRequest list \<Rightarrow> (string, 'c) gomap \<times> bool" where
  "createContainers create tries order reqs =
     (let rs = map (\<lambda>cr. (cr_name cr, firstSuccess (create cr) 0 tries)) reqs
      in (foldl addContainer [] (shuffle order rs), list_ex (\<lambda>r. snd r = None) rs))"

text \<open>A container is required to be there; an error of the container's own lookup fails the test too.\<close>

definition container :: "(string, 'c) gomap \<Rightarrow> string \<Rightarrow> 'c go" where
  "container ci name =
     (if ci = [] then panic ''no containers in use''
      else case map_of ci name of Some c \<Rightarrow> ret c | None \<Rightarrow> panic (''container with name '' @ name @ '' not found''))"

definition HostForNamedContainer :: "('c \<Rightarrow> string go) \<Rightarrow> (string, 'c) gomap \<Rightarrow> string \<Rightarrow> string go" where
  "HostForNamedContainer host ci containerName = andThen (container ci containerName) host"

definition MappedPortForNamedContainer ::
    "('c \<Rightarrow> string \<Rightarrow> string go) \<Rightarrow> (string, 'c) gomap \<Rightarrow> string \<Rightarrow> string \<Rightarrow> string go" where
  "MappedPortForNamedContainer mapped ci containerName port = andThen (container ci containerName) (\<lambda>c. mapped c port)"

section \<open>The condition that is polled\<close>

text \<open>What one evaluation returns, the validation error it leaves, and what it writes or reports.\<close>

record 'm poll =
  poll_done :: bool
  poll_error :: "string option"
  poll_written :: "'m option"
  poll_failed :: bool

text \<open>\<open>compare\<close> is the comparison with the expected metrics; \<open>before\<close> the validation error so far.\<close>

definition pollCondition ::
    "('cfg, 'opt) IntegrationTest \<Rightarrow> ('m \<Rightarrow> string option) \<Rightarrow> 'm list \<Rightarrow> string list \<Rightarrow> string option \<Rightarrow> 'm poll" where
  "pollCondition it compare allMetrics logs before =
     (if allMetrics = [] then \<lparr>poll_done = False, poll_error = before, poll_written = None, poll_failed = False\<rparr>
      else
        (let failed = failOnErrorLogs it \<and> logs \<noteq> []
         in if writeExpected it
            then \<lparr>poll_done = True, poll_error = before, poll_written = Some (hd allMetrics), poll_failed = failed\<rparr>
            else \<lparr>poll_done = compare (last allMetrics) = None, poll_error = compare (last allMetrics), poll_written = None,
                   poll_failed = failed\<rparr>))"

text \<open>
  The polls until one is done; \<open>obs n\<close> is what the sink and the logs hold at the n-th. The result is whether one was,
  the validation error, and whether the test has failed.
\<close>

fun runPolls ::
    "('cfg, 'opt) IntegrationTest \<Rightarrow> ('m \<Rightarrow> string option) \<Rightarrow> (nat \<Rightarrow> 'm list \<times> string list) \<Rightarrow> nat \<Rightarrow> nat \<Rightarrow> string option \<Rightarrow> bool
      \<Rightarrow> bool \<times> string option \<times> bool" where
  "runPolls it compare obs n 0 err failed = (False, err, True)"
| "runPolls it compare obs n (Suc left) err failed =
     (let p = pollCondition it compare (fst (obs n)) (snd (obs n)) err; failed' = failed \<or> poll_failed p
      in if poll_done p then (True, poll_error p, failed') else runPolls it compare obs (Suc n) left (poll_error p) failed')"

section \<open>Scripts\<close>

text \<open>
  The outcome of the script: the error of running it, or its exit code and what reading its output gave. \<open>print\<close> is the
  Unicode table of printable runes.
\<close>

definition RunScript :: "(string \<Rightarrow> bool) \<Rightarrow> string + (int \<times> (string + string)) \<Rightarrow> string option" where
  "RunScript printable outcome =
     (case outcome of
        Inl err \<Rightarrow> Some err
      | Inr (code, output) \<Rightarrow>
          if code = 0 then None
          else (case output of
              Inl _ \<Rightarrow> Some (''setup script returned non-zero exit code: '' @ int_str code)
            | Inr errBytes \<Rightarrow> Some (trim_space (map_runes printable errBytes))))"

section \<open>What is validated\<close>

lemma validateFrom_iff:
  "validateFrom allow names crs = None \<longleftrightarrow>
     distinct (map cr_name crs) \<and> (\<forall>cr\<in>set crs. cr_name cr \<notin> set names \<and>
       (allow \<or> (\<forall>port\<in>set (ExposedPorts cr). CHR '':'' \<notin> set port)) \<and> cr_error cr = None)"
  by (induction crs arbitrary: names) (auto simp: find_None_iff find_Some_iff split: option.splits dest: nth_mem, (metis image_eqI)+)

text \<open>A test is valid exactly when its containers have distinct names, expose no fixed port of the host, unless that is
  allowed, and are valid themselves.\<close>

lemma validate_iff:
  "validateTest it = None \<longleftrightarrow>
     distinct (map cr_name (containerRequests it)) \<and> (\<forall>cr\<in>set (containerRequests it).
       (allowHardcodedHostPort it \<or> (\<forall>port\<in>set (ExposedPorts cr). CHR '':'' \<notin> set port)) \<and> cr_error cr = None)"
  by (simp add: validateTest_def validateFrom_iff)

section \<open>The containers of a valid test\<close>

lemma firstSuccess_Some: "firstSuccess try n left = Some c \<longleftrightarrow>
   (\<exists>k<left. try (n + k) = Some c \<and> (\<forall>j<k. try (n + j) = None))"
proof (induction left arbitrary: n)
  case (Suc left)
  show ?case
  proof (cases "try n")
    case None
    have "(\<exists>k<Suc left. try (n + k) = Some c \<and> (\<forall>j<k. try (n + j) = None)) \<longleftrightarrow>
        (\<exists>k<left. try (Suc n + k) = Some c \<and> (\<forall>j<k. try (Suc n + j) = None))"
      using None by (simp add: Ex_less_Suc2 All_less_Suc2)
    with Suc None show ?thesis by simp
  next
    case (Some d)
    then show ?thesis by (auto intro: exI [of _ 0] dest: spec [of _ 0] simp: gr0_conv_Suc)
  qed
qed simp

lemma addContainer_lookup:
  "distinct (map fst rs) \<Longrightarrow> map_of (foldl addContainer ci rs) k =
     (case map_of rs k of Some (Some c) \<Rightarrow> Some c | _ \<Rightarrow> map_of ci k)"
proof (induction rs arbitrary: ci)
  case (Cons r rs)
  obtain j v where r: "r = (j, v)" by (cases r)
  have "map_of rs j = None" using Cons.prems by (simp add: r map_of_eq_None_iff)
  then show ?case using Cons by (auto simp: r addContainer_def split: option.splits)
qed simp

text \<open>Whatever order they start in, a request's container is the one that its first successful try has made.\<close>

lemma containers_found:
  assumes "validateTest it = None" "cr \<in> set (containerRequests it)"
  shows "map_of (fst (createContainers create tries order (containerRequests it))) (cr_name cr) = firstSuccess (create cr) 0 tries"
proof -
  define rs where "rs = map (\<lambda>cr. (cr_name cr, firstSuccess (create cr) 0 tries)) (containerRequests it)"
  have ok: "gomap_ok rs" using assms(1) by (simp add: validate_iff rs_def gomap_ok_def comp_def)
  then have "map_of (foldl addContainer [] (shuffle order rs)) (cr_name cr) =
      (case map_of rs (cr_name cr) of Some (Some c) \<Rightarrow> Some c | _ \<Rightarrow> None)"
    using addContainer_lookup [of "shuffle order rs" "[]" "cr_name cr"]
    by (simp add: gomap_ok_def [symmetric] split: option.splits)
  moreover have "map_of rs (cr_name cr) = Some (firstSuccess (create cr) 0 tries)"
    using ok assms(2) by (auto simp: gomap_ok_map_of rs_def)
  ultimately show ?thesis by (simp add: createContainers_def rs_def Let_def split: option.split)
qed

section \<open>When the polls succeed\<close>

text \<open>Without writing, the polls succeed exactly when one of them finds metrics whose last agrees with the expected.\<close>

lemma runPolls_iff:
  assumes "\<not> writeExpected it"
  shows "fst (runPolls it compare obs n left err failed) \<longleftrightarrow>
    (\<exists>k<left. fst (obs (n + k)) \<noteq> [] \<and> compare (last (fst (obs (n + k)))) = None)"
proof (induction left arbitrary: n err failed)
  case (Suc left)
  have "(\<exists>k<Suc left. fst (obs (n + k)) \<noteq> [] \<and> compare (last (fst (obs (n + k)))) = None) \<longleftrightarrow>
      fst (obs n) \<noteq> [] \<and> compare (last (fst (obs n))) = None \<or>
      (\<exists>k<left. fst (obs (Suc n + k)) \<noteq> [] \<and> compare (last (fst (obs (Suc n + k)))) = None)"
    by (simp add: Ex_less_Suc2)
  with Suc assms show ?case by (auto simp: pollCondition_def Let_def)
qed simp

text \<open>With \<open>WriteExpected\<close> the first metrics of the sink are taken, whatever they are.\<close>

lemma write_expected_done:
  "writeExpected it \<Longrightarrow> ms \<noteq> [] \<Longrightarrow> poll_done (pollCondition it compare ms logs err) \<and>
     poll_written (pollCondition it compare ms logs err) = Some (hd ms)"
  by (simp add: pollCondition_def Let_def)

end
