(* ===== verification/Fixed_Data.thy ===== *)
theory Fixed_Data
  imports Metric_Diff Test_Data
begin

text \<open>
  The fixed data of tests (coreinternal/testdata: common.go, resource.go, metric.go, trace.go, log.go, profile.go): small
  values of the data model, built step by step. An element is addressed with \<open>At(0)\<close>, which panics when it is not there.
  Parts of the data model that are not set keep their zero values.
\<close>

section \<open>Attributes and resources\<close>

definition initMetricAttributes1 :: attrs where
  "initMetricAttributes1 = [(''label-1'', VStr ''label-value-1'')]"

definition initMetricAttributes12 :: attrs where
  "initMetricAttributes12 = [(''label-1'', VStr ''label-value-1''), (''label-2'', VStr ''label-value-2'')]"

definition initMetricAttributes13 :: attrs where
  "initMetricAttributes13 = [(''label-1'', VStr ''label-value-1''), (''label-3'', VStr ''label-value-3'')]"

definition initMetricAttributes2 :: attrs where
  "initMetricAttributes2 = [(''label-2'', VStr ''label-value-2'')]"

definition initMetricAttachment :: attrs where
  "initMetricAttachment = [(''exemplar-attachment'', VStr ''exemplar-attachment-value'')]"

text \<open>The two resources differ in the value.\<close>

definition initResource :: "nat \<Rightarrow> attrs \<Rightarrow> attrs" where
  "initResource n attrs = attr_put ''resource-attr'' (VStr (''resource-attr-val-'' @ nat_str n)) attrs"

section \<open>Addressing\<close>

definition out_of_range :: "'a go" where
  "out_of_range = panic ''index out of range''"

definition onResource :: "(attrs \<Rightarrow> attrs) \<Rightarrow> 'i nested \<Rightarrow> 'i nested go" where
  "onResource f td = (case td of [] \<Rightarrow> out_of_range | (r, scopes) # rest \<Rightarrow> ret ((f r, scopes) # rest))"

definition appendScope :: "'i nested \<Rightarrow> 'i nested go" where
  "appendScope td = (case td of [] \<Rightarrow> out_of_range | (r, scopes) # rest \<Rightarrow> ret ((r, scopes @ [[]]) # rest))"

definition onItems :: "('i list \<Rightarrow> 'i list go) \<Rightarrow> 'i nested \<Rightarrow> 'i nested go" where
  "onItems f td =
     (case td of
        [] \<Rightarrow> out_of_range
      | (r, scopes) # rest \<Rightarrow>
          (case scopes of
             [] \<Rightarrow> out_of_range
           | xs # others \<Rightarrow> andThen (f xs) (\<lambda>ys. ret ((r, ys # others) # rest))))"

definition appendItem :: "'i \<Rightarrow> 'i nested \<Rightarrow> 'i nested go" where
  "appendItem x = onItems (\<lambda>xs. ret (xs @ [x]))"

definition oneEmptyResource :: "'i nested go" where
  "oneEmptyResource = ret [([], [])]"

definition noLibraries :: "'i nested go" where
  "noLibraries = andThen oneEmptyResource (onResource (initResource 1))"

definition oneEmptyLibrary :: "'i nested go" where
  "oneEmptyLibrary = andThen noLibraries appendScope"

section \<open>Metrics\<close>

definition metricStart :: "64 word" where "metricStart = 1581452772000000321"
definition metricExemplar :: "64 word" where "metricExemplar = 1581452773000000123"
definition metricTime :: "64 word" where "metricTime = 1581452773000000789"

record f_point =
  fp_attrs :: attrs
  fp_start :: "64 word"
  fp_time :: "64 word"
  fp_value :: num_value

record f_exemplar =
  fe_time :: "64 word"
  fe_value :: num_value
  fe_attrs :: attrs

record f_hist =
  fh_attrs :: attrs
  fh_start :: "64 word"
  fh_time :: "64 word"
  fh_count :: "64 word"
  fh_sum :: "f64 option"
  fh_counts :: "64 word list"
  fh_bounds :: "f64 list"
  fh_exemplars :: "f_exemplar list"

record f_summary =
  fs_attrs :: attrs
  fs_start :: "64 word"
  fs_time :: "64 word"
  fs_count :: "64 word"
  fs_sum :: f64
  fs_quantiles :: "(f64 \<times> f64) list"

text \<open>Exponential histograms only have empty points, of which the number is kept.\<close>

datatype f_data = FNone | FGauge "f_point list" | FSum bool nat "f_point list" | FHistogram nat "f_hist list"
  | FExponential nat nat | FSummary "f_summary list"

datatype f_type = FTypeEmpty | FTypeGauge | FTypeSum | FTypeHistogram | FTypeExponential | FTypeSummary

record f_metric =
  fm_name :: string
  fm_description :: string
  fm_unit :: string
  fm_data :: f_data

text \<open>Temporality 0 is unspecified, 2 cumulative.\<close>

definition initMetric :: "string \<Rightarrow> f_type \<Rightarrow> f_metric" where
  "initMetric name ty =
     \<lparr>fm_name = name, fm_description = [], fm_unit = ''1'',
      fm_data = (case ty of FTypeEmpty \<Rightarrow> FNone | FTypeGauge \<Rightarrow> FGauge [] | FTypeSum \<Rightarrow> FSum True 2 []
        | FTypeHistogram \<Rightarrow> FHistogram 2 [] | FTypeExponential \<Rightarrow> FExponential 0 0 | FTypeSummary \<Rightarrow> FSummary [])\<rparr>"

definition pointWith :: "attrs \<Rightarrow> num_value \<Rightarrow> f_point" where
  "pointWith as v = \<lparr>fp_attrs = as, fp_start = metricStart, fp_time = metricTime, fp_value = v\<rparr>"

definition intPoints :: "f_point list" where
  "intPoints = [pointWith initMetricAttributes1 (IntVal 123), pointWith initMetricAttributes2 (IntVal 456)]"

text \<open>The doubles nearest to 1.23, 4.56 and 0.01 are written with the rounding of the floating-point model.\<close>

definition doublePoints :: "f_point list" where
  "doublePoints =
     [pointWith initMetricAttributes12 (DoubleVal (rnd (123 / 100))), pointWith initMetricAttributes13 (DoubleVal (rnd (456 / 100)))]"

definition initGaugeIntMetric :: f_metric where
  "initGaugeIntMetric = (initMetric ''gauge-int'' FTypeGauge)\<lparr>fm_data := FGauge intPoints\<rparr>"

definition initGaugeDoubleMetric :: f_metric where
  "initGaugeDoubleMetric = (initMetric ''gauge-double'' FTypeGauge)\<lparr>fm_data := FGauge (doublePoints)\<rparr>"

definition initSumIntMetric :: f_metric where
  "initSumIntMetric = (initMetric ''counter-int'' FTypeSum)\<lparr>fm_data := FSum True 2 intPoints\<rparr>"

definition initSumDoubleMetric :: f_metric where
  "initSumDoubleMetric = (initMetric ''counter-double'' FTypeSum)\<lparr>fm_data := FSum True 2 (doublePoints)\<rparr>"

definition initDoubleHistogramMetric :: f_metric where
  "initDoubleHistogramMetric = (initMetric ''double-histogram'' FTypeHistogram)\<lparr>fm_data := FHistogram 2
     [\<lparr>fh_attrs = initMetricAttributes13, fh_start = metricStart, fh_time = metricTime, fh_count = 1, fh_sum = Some (Fin 15),
       fh_counts = [], fh_bounds = [], fh_exemplars = []\<rparr>,
      \<lparr>fh_attrs = initMetricAttributes2, fh_start = metricStart, fh_time = metricTime, fh_count = 1, fh_sum = Some (Fin 15),
       fh_counts = [0, 1], fh_bounds = [Fin 1],
       fh_exemplars = [\<lparr>fe_time = metricExemplar, fe_value = DoubleVal (Fin 15), fe_attrs = initMetricAttachment\<rparr>]\<rparr>]\<rparr>"

definition initDoubleSummaryMetric :: f_metric where
  "initDoubleSummaryMetric = (initMetric ''double-summary'' FTypeSummary)\<lparr>fm_data := FSummary
     [\<lparr>fs_attrs = initMetricAttributes13, fs_start = metricStart, fs_time = metricTime, fs_count = 1, fs_sum = Fin 15,
       fs_quantiles = []\<rparr>,
      \<lparr>fs_attrs = initMetricAttributes2, fs_start = metricStart, fs_time = metricTime, fs_count = 1, fs_sum = Fin 15,
       fs_quantiles = [(rnd (1 / 100), Fin 15)]\<rparr>]\<rparr>"

definition appendAll :: "'i list \<Rightarrow> 'i nested go \<Rightarrow> 'i nested go" where
  "appendAll xs td = foldl (\<lambda>td x. andThen td (appendItem x)) td xs"

definition GenerateMetricsOneMetricNoResource :: "f_metric nested go" where
  "GenerateMetricsOneMetricNoResource = andThen (andThen oneEmptyResource appendScope) (appendItem initSumIntMetric)"

definition GenerateMetricsOneMetric :: "f_metric nested go" where
  "GenerateMetricsOneMetric = appendAll [initSumIntMetric] oneEmptyLibrary"

definition GenerateMetricsTwoMetrics :: "f_metric nested go" where
  "GenerateMetricsTwoMetrics = appendAll [initSumIntMetric, initSumIntMetric] oneEmptyLibrary"

definition GenerateMetricsOneCounterOneSummaryMetrics :: "f_metric nested go" where
  "GenerateMetricsOneCounterOneSummaryMetrics = appendAll [initSumIntMetric, initDoubleSummaryMetric] oneEmptyLibrary"

text \<open>\<open>Sum()\<close> of a metric of another type is nil, and its points panic; here the metric is a sum of two points.\<close>

definition clearAttributes :: "f_metric \<Rightarrow> f_metric go" where
  "clearAttributes m =
     (case fm_data m of
        FSum mon t (p # q # ps) \<Rightarrow> ret (m\<lparr>fm_data := FSum mon t (p\<lparr>fp_attrs := []\<rparr> # q\<lparr>fp_attrs := []\<rparr> # ps)\<rparr>)
      | FSum _ _ _ \<Rightarrow> out_of_range
      | _ \<Rightarrow> panic ''invalid memory address or nil pointer dereference'')"

definition GenerateMetricsOneMetricNoAttributes :: "f_metric nested go" where
  "GenerateMetricsOneMetricNoAttributes = andThen GenerateMetricsOneMetric
     (onItems (\<lambda>xs. case xs of [] \<Rightarrow> out_of_range | m # ms \<Rightarrow> andThen (clearAttributes m) (\<lambda>m'. ret (m' # ms))))"

definition allTypes :: "(string \<times> f_type) list" where
  "allTypes = [(''gauge-double'', FTypeGauge), (''gauge-int'', FTypeGauge), (''counter-double'', FTypeSum),
     (''counter-int'', FTypeSum), (''double-histogram'', FTypeHistogram), (''double-summary'', FTypeSummary)]"

definition GenerateMetricsAllTypesNoDataPoints :: "f_metric nested go" where
  "GenerateMetricsAllTypesNoDataPoints = appendAll (map (\<lambda>(n, t). initMetric n t) allTypes) oneEmptyLibrary"

definition emptyPoint :: f_point where
  "emptyPoint = \<lparr>fp_attrs = [], fp_start = 0, fp_time = 0, fp_value = NoVal\<rparr>"

definition withEmptyPoint :: "f_metric \<Rightarrow> f_metric" where
  "withEmptyPoint m = m\<lparr>fm_data := (case fm_data m of
       FGauge ps \<Rightarrow> FGauge (ps @ [emptyPoint])
     | FSum mon t ps \<Rightarrow> FSum mon t (ps @ [emptyPoint])
     | FHistogram t ps \<Rightarrow> FHistogram t (ps @ [\<lparr>fh_attrs = [], fh_start = 0, fh_time = 0, fh_count = 0, fh_sum = None,
         fh_counts = [], fh_bounds = [], fh_exemplars = []\<rparr>])
     | FExponential t n \<Rightarrow> FExponential t (n + 1)
     | FSummary ps \<Rightarrow> FSummary (ps @ [\<lparr>fs_attrs = [], fs_start = 0, fs_time = 0, fs_count = 0, fs_sum = Fin 0, fs_quantiles = []\<rparr>])
     | FNone \<Rightarrow> FNone)\<rparr>"

definition GenerateMetricsAllTypesEmptyDataPoint :: "f_metric nested go" where
  "GenerateMetricsAllTypesEmptyDataPoint =
     appendAll (map (\<lambda>(n, t). withEmptyPoint (initMetric n t)) (allTypes @ [(''exponential-histogram'', FTypeExponential)])) oneEmptyLibrary"

definition GenerateMetricsMetricTypeInvalid :: "f_metric nested go" where
  "GenerateMetricsMetricTypeInvalid = appendAll [initMetric ''counter-int'' FTypeEmpty] oneEmptyLibrary"

definition GeneratMetricsAllTypesWithSampleDatapoints :: "f_metric nested go" where
  "GeneratMetricsAllTypesWithSampleDatapoints =
     appendAll [initGaugeIntMetric, initGaugeDoubleMetric, initSumIntMetric, initSumDoubleMetric,
       initDoubleHistogramMetric, initDoubleSummaryMetric] oneEmptyLibrary"

definition GenerateMetricsManyMetricsSameResource :: "int \<Rightarrow> f_metric nested go" where
  "GenerateMetricsManyMetricsSameResource metricsCount = appendAll (replicate (nat metricsCount) initSumIntMetric) oneEmptyLibrary"

section \<open>Spans\<close>

record f_event =
  fv_time :: "64 word"
  fv_name :: string
  fv_attrs :: attrs
  fv_dropped :: "32 word"

record f_span =
  fsp_name :: string
  fsp_start :: "64 word"
  fsp_end :: "64 word"
  fsp_attrs :: attrs
  fsp_dropped :: "32 word"
  fsp_events :: "f_event list"
  fsp_dropped_events :: "32 word"
  fsp_links :: "(attrs \<times> 32 word) list"
  fsp_dropped_links :: "32 word"
  fsp_status :: "nat \<times> string"

definition namedSpan :: "string \<Rightarrow> f_span" where
  "namedSpan name = \<lparr>fsp_name = name, fsp_start = 1581452772000000321, fsp_end = 1581452773000000789, fsp_attrs = [],
     fsp_dropped = 0, fsp_events = [], fsp_dropped_events = 0, fsp_links = [], fsp_dropped_links = 0, fsp_status = (0, [])\<rparr>"

definition spanEvent :: "string \<Rightarrow> attrs \<Rightarrow> f_event" where
  "spanEvent name as = \<lparr>fv_time = 1581452773000000123, fv_name = name, fv_attrs = as, fv_dropped = 2\<rparr>"

text \<open>Status code 2 is an error.\<close>

definition fillSpanOne :: f_span where
  "fillSpanOne = (namedSpan ''operationA'')\<lparr>fsp_dropped := 1,
     fsp_events := [spanEvent ''event-with-attr'' [(''span-event-attr'', VStr ''span-event-attr-val'')], spanEvent ''event'' []],
     fsp_dropped_events := 1, fsp_status := (2, ''status-cancelled'')\<rparr>"

definition fillSpanTwo :: f_span where
  "fillSpanTwo = (namedSpan ''operationB'')\<lparr>
     fsp_links := [([(''span-link-attr'', VStr ''span-link-attr-val'')], 4), ([], 4)], fsp_dropped_links := 3\<rparr>"

definition fillSpanThree :: f_span where
  "fillSpanThree = (namedSpan ''operationC'')\<lparr>fsp_attrs := [(''span-attr'', VStr ''span-attr-val'')], fsp_dropped := 5\<rparr>"

definition GenerateTracesOneSpanNoResource :: "f_span nested go" where
  "GenerateTracesOneSpanNoResource = andThen (andThen oneEmptyResource appendScope) (appendItem fillSpanOne)"

definition GenerateTracesOneSpan :: "f_span nested go" where
  "GenerateTracesOneSpan = appendAll [fillSpanOne] oneEmptyLibrary"

definition GenerateTracesTwoSpansSameResource :: "f_span nested go" where
  "GenerateTracesTwoSpansSameResource = appendAll [fillSpanOne, fillSpanTwo] oneEmptyLibrary"

definition GenerateTracesTwoSpansSameResourceOneDifferent :: "f_span nested" where
  "GenerateTracesTwoSpansSameResourceOneDifferent =
     [(initResource 1 [], [[fillSpanOne, fillSpanTwo]]), (initResource 2 [], [[fillSpanThree]])]"

definition GenerateTracesManySpansSameResource :: "int \<Rightarrow> f_span nested go" where
  "GenerateTracesManySpansSameResource spanCount = appendAll (replicate (nat spanCount) fillSpanOne) oneEmptyLibrary"

section \<open>Logs\<close>

record f_log =
  fl_time :: "64 word"
  fl_dropped :: "32 word"
  fl_severity :: nat
  fl_severity_text :: string
  fl_span :: "8 word list"
  fl_trace :: "8 word list"
  fl_attrs :: attrs
  fl_body :: val

definition emptyLog :: f_log where
  "emptyLog = \<lparr>fl_time = 0, fl_dropped = 0, fl_severity = 0, fl_severity_text = [], fl_span = replicate 8 0,
     fl_trace = replicate 16 0, fl_attrs = [], fl_body = VEmpty\<rparr>"

text \<open>Severity 9 is information. The attributes are put one by one, into those of the record.\<close>

definition fillLog :: "attrs \<Rightarrow> string \<Rightarrow> f_log \<Rightarrow> f_log" where
  "fillLog as body l = l\<lparr>fl_time := 1581452773000000789, fl_dropped := 1, fl_severity := 9, fl_severity_text := ''Info'',
     fl_attrs := foldl (\<lambda>m (k, v). attr_put k v m) (fl_attrs l) as, fl_body := VStr body\<rparr>"

definition fillLogOne :: "f_log \<Rightarrow> f_log" where
  "fillLogOne l = (fillLog [(''app'', VStr ''server''), (''instance_num'', VInt 1)] ''This is a log message'' l)\<lparr>
     fl_span := [1, 2, 4, 8] @ replicate 4 0, fl_trace := [8, 4, 2, 1] @ replicate 12 0\<rparr>"

definition fillLogTwo :: "f_log \<Rightarrow> f_log" where
  "fillLogTwo = fillLog [(''customer'', VStr ''acme''), (''env'', VStr ''dev'')] ''something happened''"

definition GenerateLogsOneEmptyLogRecord :: "f_log nested go" where
  "GenerateLogsOneEmptyLogRecord = andThen (andThen noLibraries appendScope) (appendItem emptyLog)"

definition GenerateLogsOneLogRecordNoResource :: "f_log nested go" where
  "GenerateLogsOneLogRecordNoResource = andThen (andThen oneEmptyResource appendScope) (appendItem (fillLogOne emptyLog))"

definition firstLog :: "(f_log \<Rightarrow> f_log) \<Rightarrow> f_log list \<Rightarrow> f_log list go" where
  "firstLog f logs = (case logs of [] \<Rightarrow> out_of_range | l # ls \<Rightarrow> ret (f l # ls))"

definition GenerateLogsOneLogRecord :: "f_log nested go" where
  "GenerateLogsOneLogRecord = andThen GenerateLogsOneEmptyLogRecord (onItems (firstLog fillLogOne))"

definition GenerateLogsTwoLogRecordsSameResource :: "f_log nested go" where
  "GenerateLogsTwoLogRecordsSameResource = andThen GenerateLogsOneEmptyLogRecord
     (onItems (\<lambda>logs. andThen (firstLog fillLogOne logs) (\<lambda>logs. ret (logs @ [fillLogTwo emptyLog]))))"

text \<open>One round of the loop: the i-th record is filled, and appended before if it is not there.\<close>

definition fillLogAt :: "nat \<Rightarrow> f_log list \<Rightarrow> f_log list" where
  "fillLogAt i logs =
     (let fill = (if i mod 2 = 0 then fillLogOne else fillLogTwo)
      in if i < length logs then logs[i := fill (logs ! i)] else logs @ [fill emptyLog])"

definition GenerateLogsManyLogRecordsSameResource :: "int \<Rightarrow> f_log nested go" where
  "GenerateLogsManyLogRecordsSameResource n =
     andThen GenerateLogsOneEmptyLogRecord (onItems (\<lambda>logs. ret (foldl (\<lambda>ls i. fillLogAt i ls) logs [0..<nat n])))"

section \<open>Profiles\<close>

record f_profile =
  fpr_time :: "64 word"
  fpr_id :: "8 word list"
  attributeIndices :: "int list"

record f_dictionary =
  attributeTable :: "(int \<times> val) list"
  stringTable :: "string list"

definition emptyProfile :: f_profile where
  "emptyProfile = \<lparr>fpr_time = 0, fpr_id = replicate 16 0, attributeIndices = []\<rparr>"

text \<open>An attribute: the index 0 for the profile, a new entry of the dictionary with a new string.\<close>

definition addProfileAttribute :: "string \<Rightarrow> val \<Rightarrow> f_dictionary \<times> f_profile \<Rightarrow> f_dictionary \<times> f_profile" where
  "addProfileAttribute k v dp =
     (let (d, p) = dp
      in (d\<lparr>attributeTable := attributeTable d @ [(int (length (stringTable d)), v)], stringTable := stringTable d @ [k]\<rparr>,
          p\<lparr>attributeIndices := attributeIndices p @ [0]\<rparr>))"

definition fillProfileOne :: "f_dictionary \<times> f_profile \<Rightarrow> f_dictionary \<times> f_profile" where
  "fillProfileOne dp =
     addProfileAttribute ''instance_num'' (VInt 1) (addProfileAttribute ''app'' (VStr ''server'')
       (fst dp, (snd dp)\<lparr>fpr_time := 1581452773000000789, fpr_id := [1, 2, 3, 4] @ replicate 12 0\<rparr>))"

definition fillProfileTwo :: "f_dictionary \<times> f_profile \<Rightarrow> f_dictionary \<times> f_profile" where
  "fillProfileTwo dp =
     addProfileAttribute ''env'' (VStr ''dev'') (addProfileAttribute ''customer'' (VStr ''acme'')
       (fst dp, (snd dp)\<lparr>fpr_time := 1581452773000000789, fpr_id := [5, 6, 7, 8] @ replicate 12 0\<rparr>))"

definition GenerateProfilesOneEmptyProfile :: "f_profile nested go" where
  "GenerateProfilesOneEmptyProfile = andThen (andThen noLibraries appendScope) (appendItem emptyProfile)"

text \<open>The dictionary of new profiles is given.\<close>

definition firstProfile :: "f_dictionary \<Rightarrow> f_profile nested go \<Rightarrow> (f_dictionary \<times> f_profile nested) go" where
  "firstProfile d pd =
     andThen pd (\<lambda>td. case td of
       (r, (p # ps) # scopes) # rest \<Rightarrow> (case fillProfileOne (d, p) of (d', p') \<Rightarrow> ret (d', (r, (p' # ps) # scopes) # rest))
     | _ \<Rightarrow> out_of_range)"

definition GenerateProfilesOneProfile :: "f_dictionary \<Rightarrow> (f_dictionary \<times> f_profile nested) go" where
  "GenerateProfilesOneProfile d = firstProfile d GenerateProfilesOneEmptyProfile"

definition GenerateProfilesTwoProfilesSameResource :: "f_dictionary \<Rightarrow> (f_dictionary \<times> f_profile nested) go" where
  "GenerateProfilesTwoProfilesSameResource d =
     andThen (firstProfile d GenerateProfilesOneEmptyProfile) (\<lambda>(d', td).
       case fillProfileTwo (d', emptyProfile) of (d'', p) \<Rightarrow> andThen (appendItem p td) (\<lambda>td'. ret (d'', td')))"

text \<open>What an index of a profile stands for.\<close>

definition profileAttribute :: "f_dictionary \<Rightarrow> int \<Rightarrow> (string \<times> val) option" where
  "profileAttribute d i =
     (if 0 \<le> i \<and> nat i < length (attributeTable d) then
        (let (k, v) = attributeTable d ! nat i
         in if 0 \<le> k \<and> nat k < length (stringTable d) then Some (stringTable d ! nat k, v) else None)
      else None)"

section \<open>What is generated\<close>

lemmas fixed_steps = oneEmptyResource_def noLibraries_def oneEmptyLibrary_def onResource_def appendScope_def

lemma oneEmptyLibrary_eq: "oneEmptyLibrary = ret [(initResource 1 [], [[]])]"
  by (simp add: fixed_steps)

lemma appendAll_eq: "appendAll xs (ret [(r, [ys])]) = ret [(r, [ys @ xs])]"
proof (induction xs arbitrary: ys)
  case (Cons x xs)
  then show ?case by (simp add: appendAll_def appendItem_def onItems_def)
qed (simp add: appendAll_def)

text \<open>Data in one scope: whatever is appended is there, in order; nothing panics.\<close>

lemma generated_in_scope: "appendAll xs oneEmptyLibrary = ret [(initResource 1 [], [xs])]"
  by (simp add: oneEmptyLibrary_eq appendAll_eq)

lemma many_metrics:
  "GenerateMetricsManyMetricsSameResource n = ret [(initResource 1 [], [replicate (nat n) initSumIntMetric])]"
  by (simp add: GenerateMetricsManyMetricsSameResource_def generated_in_scope)

lemma many_spans:
  "GenerateTracesManySpansSameResource n = ret [(initResource 1 [], [replicate (nat n) fillSpanOne])]"
  by (simp add: GenerateTracesManySpansSameResource_def generated_in_scope)

lemma no_attributes:
  "\<exists>m. GenerateMetricsOneMetricNoAttributes = ret [(initResource 1 [], [[m]])] \<and> fm_name m = ''counter-int'' \<and>
     fm_data m = FSum True 2 (map (\<lambda>p. p\<lparr>fp_attrs := []\<rparr>) intPoints)"
  by (simp add: GenerateMetricsOneMetricNoAttributes_def GenerateMetricsOneMetric_def generated_in_scope onItems_def
      clearAttributes_def initSumIntMetric_def initMetric_def intPoints_def pointWith_def)

text \<open>The metrics of all types without points, and those with sample points, have no exponential histogram.\<close>

lemma all_types_without_exponential:
  "case GenerateMetricsAllTypesNoDataPoints of Inl _ \<Rightarrow> False
   | Inr td \<Rightarrow> list_all (\<lambda>m. case fm_data m of FExponential _ _ \<Rightarrow> False | _ \<Rightarrow> True) (items td) \<and> length (items td) = 6"
  by (simp add: GenerateMetricsAllTypesNoDataPoints_def generated_in_scope allTypes_def initMetric_def)

lemma all_types_with_point:
  "case GenerateMetricsAllTypesEmptyDataPoint of Inl _ \<Rightarrow> False
   | Inr td \<Rightarrow> list_ex (\<lambda>m. fm_data m = FExponential 0 1) (items td) \<and> length (items td) = 7"
  by (simp add: GenerateMetricsAllTypesEmptyDataPoint_def generated_in_scope allTypes_def initMetric_def withEmptyPoint_def)

section \<open>Many logs\<close>

definition logAt :: "nat \<Rightarrow> f_log" where
  "logAt i = (if i mod 2 = 0 then fillLogOne emptyLog else fillLogTwo emptyLog)"

lemma filled_logs:
  "foldl (\<lambda>ls i. fillLogAt i ls) [emptyLog] [0..<Suc n] = map logAt [0..<Suc n]"
proof (induction n)
  case 0
  then show ?case by (simp add: fillLogAt_def logAt_def)
next
  case (Suc n)
  have "foldl (\<lambda>ls i. fillLogAt i ls) [emptyLog] [0..<Suc (Suc n)] = fillLogAt (Suc n) (map logAt [0..<Suc n])"
    using Suc by simp
  also have "\<dots> = map logAt [0..<Suc (Suc n)]" by (simp add: fillLogAt_def logAt_def)
  finally show ?case .
qed

text \<open>The two kinds of records alternate. For a count of 0, or a negative one, there is still one empty record.\<close>

lemma many_logs:
  "GenerateLogsManyLogRecordsSameResource n =
     ret [(initResource 1 [], [if 0 < n then map logAt [0..<nat n] else [emptyLog]])]"
proof -
  have start: "GenerateLogsOneEmptyLogRecord = ret [(initResource 1 [], [[emptyLog]])]"
    by (simp add: GenerateLogsOneEmptyLogRecord_def fixed_steps appendItem_def onItems_def)
  show ?thesis
  proof (cases "0 < n")
    case True
    then obtain k where "nat n = Suc k" by (cases "nat n") auto
    with True filled_logs [of k] show ?thesis
      by (simp add: GenerateLogsManyLogRecordsSameResource_def start onItems_def del: upt_Suc)
  qed (simp add: GenerateLogsManyLogRecordsSameResource_def start onItems_def)
qed

section \<open>The attributes of a profile\<close>

text \<open>Both indices of a profile are 0: they stand for the first attribute of the dictionary, the others are unused.\<close>

lemma profile_attributes_repeat:
  "case GenerateProfilesTwoProfilesSameResource \<lparr>attributeTable = [], stringTable = []\<rparr> of Inl _ \<Rightarrow> False
   | Inr (d, td) \<Rightarrow>
       map (\<lambda>p. map (profileAttribute d) (attributeIndices p)) (items td) =
         replicate 2 (replicate 2 (Some (''app'', VStr ''server''))) \<and>
       map fst (attributeTable d) = [0, 1, 2, 3]"
  by (simp add: GenerateProfilesTwoProfilesSameResource_def firstProfile_def GenerateProfilesOneEmptyProfile_def fixed_steps
      appendItem_def onItems_def fillProfileOne_def fillProfileTwo_def addProfileAttribute_def emptyProfile_def
      profileAttribute_def numeral_2_eq_2)

end
