(* ===== verification/Spec2Isabelle.thy ===== *)
theory Spec2Isabelle
  imports Atp_System Attr_Proc Aggregate Ttl_Map Priority_Queue Consumer_Retry Parse_Utils Nr_License Metric_Diff Test_Agent
    Use_Case Codecov Time_Layout Core_Utils Golden_Metrics Golden_Traces Metric_Harness Test_Util Log_Senders
    Test_Scenario Scraper_Test Fixed_Data
begin

text \<open>
  A verification library for the nrdot collector components.

  \<^bold>\<open>The program.\<close> The centre of the repository is the adaptive telemetry processor
  (processor/adaptivetelemetryprocessor), a metrics processor of the OpenTelemetry collector. For each
  resource of a batch (a CPU, a disk, a process, ...) it decides whether its metrics are forwarded or
  dropped: resources that are not targeted, zombies, processes on an include list, resources with a metric
  above a static or dynamic threshold, with a high composite score, with an anomaly, or that did one of
  these recently, are forwarded. It tracks every resource in a table that is persisted in a JSON file.
  Beside it the repository holds shared libraries, of which the attribute processor
  (internal/coreinternal/attraction), the aggregation of data points
  (internal/coreinternal/aggregateutil), an expiring map, a priority queue, a retrying consumer and small
  utilities for strings, times, CSV and URIs are modelled, an extension that marks outgoing requests
  (extension/usecaseextension), command line tools for license headers (cmd/nrlicense) and for the configuration
  of Codecov (cmd/codecovgen), and a test bed (testbed/testbed).

  \<^bold>\<open>The layers below the program.\<close>
  \<^item> \<open>Go_Prelude\<close>: code that can panic as the sum type \<open>'a go\<close>; Go maps as association lists with distinct
    keys; the unspecified order of a \<open>range\<close> over a map as a choice sequence (\<open>shuffle\<close>, complete for all
    permutations), so that every statement that quantifies over the choices holds for every order.
  \<^item> \<open>Go_Strings\<close>, \<open>Go_Time\<close>: package \<open>strings\<close> on byte strings; decimal texts; \<open>int64\<close> with wrap-around;
    instants and saturating durations.
  \<^item> \<open>Go_Path\<close>, \<open>Go_Lines\<close>: package \<open>path/filepath\<close> on Unix; the line scanner of package \<open>bufio\<close> with its limit
    on the length of a line, and lemmas on trimming and on lines that are written and read back.
  \<^item> \<open>Go_Encoding\<close>: packages \<open>encoding/hex\<close> and \<open>encoding/binary\<close>, for hashes of attributes and identifiers.
  \<^item> \<open>Go_Float64\<close>: IEEE binary64 as NaN, infinities, negative zero and rationals, with round-to-even; the
    theory proves that the rounding is monotone, exact on representable numbers and idempotent.
  \<^item> \<open>Pdata\<close>: the parts of the OTLP data model that are read, the library functions that are parameters
    (record \<open>lib\<close>), and the interface of attribute maps as the locale \<open>attribute_map\<close>, interpreted by \<open>pmap\<close>.

  \<^bold>\<open>The adaptive telemetry processor\<close>, one theory per part, in the order of the calls:
  \<^item> \<open>Atp_Config\<close> (config.go, constants.go, factory.go): \<open>Config\<close>, \<open>Normalize\<close>, \<open>Validate\<close>. Lemmas: \<open>Normalize\<close>
    establishes the documented ranges and is idempotent; what \<open>Validate\<close> rejects afterwards.
  \<^item> \<open>Atp_Types\<close> (types.go, processor.go): the state \<open>processorImp\<close>, tracked entities, and a heap of value maps,
    because \<open>CurrentValues\<close> and \<open>MaxValues\<close> may be one Go map.
  \<^item> \<open>Atp_Identity\<close> (resource_utils.go, utils.go): the kind and the identity of a resource, executable paths,
    include lists. Lemmas: independence of the order of attributes, injectivity for processes, slice bounds.
  \<^item> \<open>Atp_Composite\<close> (composite_metrics.go, threshold_ingestion.go): the metric values of a resource, the
    threshold in effect, the composite score, the process.atp attribute.
  \<^item> \<open>Atp_Anomaly\<close> (anomaly_detection.go): bounded histories and the verdict.
  \<^item> \<open>Atp_Dynamic\<close> (dynamic_thresholds.go): averages, exponential smoothing, clamping, the schedule.
  \<^item> \<open>Atp_Evaluate\<close> (process_metrics.go): \<open>shouldIncludeResource\<close> with all its stages; the abstract decision
    \<open>decide\<close> and the proof that the code implements it; a frame property for everything else.
  \<^item> \<open>Atp_Storage\<close> (storage.go, storage_unix.go): directories, the check for symbolic links, loading and saving
    over an abstract operating system \<open>os\<close> and codec \<open>entity_codec\<close>.
  \<^item> \<open>Atp_Init\<close> (processor_init.go, persistence.go, factory.go): construction, clean-up, persistence.
  \<^item> \<open>Atp_Process\<close> (process_metrics.go): one batch, with cancellation and the summary.
  \<^item> \<open>Atp_Consume\<close> (consume_metrics.go): the call made by the pipeline, with its fall-backs.
  \<^item> \<open>Atp_System\<close>: the transition system of a processor's life (\<open>reachable\<close>), its invariants, and the end-to-end
    property that what must be kept is always delivered.

  \<^bold>\<open>The shared libraries.\<close>
  \<^item> \<open>Attr_Proc\<close> (attraction.go, type_converter.go, hasher.go, clientutil/client.go): \<open>NewAttrProc\<close> validates a
    list of actions, \<open>Process\<close> applies them to an attribute map. Lemmas: what validation guarantees
    (\<open>action_ok\<close>), that valid actions never panic, and that the operations on the map implement the
    specification \<open>meaning\<close> on lookup functions; conversions and hashes.
  \<^item> \<open>Aggregate\<close> (aggregate.go, type.go): points with \<open>uint64\<close> counts and \<open>int32\<close> offsets as words; grouping is a
    partition by key; the merge of integers, of histograms and of exponential histograms. The locale
    \<open>additive_merge\<close> states that a merge adds a weight; it is interpreted for the sides of an exponential
    histogram and for its points.
  \<^item> \<open>Ttl_Map\<close> (common/ttlmap): the expiring map with its background workers as a transition system
    (\<open>ttl_step\<close>, \<open>ttl_run\<close>); a lookup is characterised by the history alone (\<open>alive\<close>).
  \<^item> \<open>Priority_Queue\<close> (common/priorityqueue): the methods of \<open>heap.Interface\<close>; the locale \<open>heap_interface\<close> is
    that contract, the functions of package container/heap are proved correct from it, and the queue is its
    interpretation \<open>pq\<close>.
  \<^item> \<open>Consumer_Retry\<close> (coreinternal/consumerretry): the retry loop as a partial function; when it returns, with
    what, and what it has sent; the mocks of testutil.go, to which a batch is delivered whole.
  \<^item> \<open>Parse_Utils\<close> (coreinternal/parseutils/parser.go, common/maps, common/sanitize): quote-aware splitting as a
    partial function, key-value pairs, merging of maps, sanitized texts.
  \<^item> \<open>Metric_Diff\<close> (coreinternal/metricstestutil/metric_diff.go): the comparison of metrics for tests. Every
    comparison only appends differences, and appends none exactly when its parts agree (\<open>extends\<close>).
    \<open>Deep_Equal\<close> is \<open>reflect.DeepEqual\<close> on attribute values, shared with the validator of spans.

  \<^item> \<open>Time_Layout\<close> (coreinternal/timeutils): strptime directives and their translation, the year of a timestamp that
    names none, with the arithmetic of the calendar, and the ticker with its loops (\<open>ticker_step\<close>).
  \<^item> \<open>Core_Utils\<close> (coreinternal: parseutils/csv.go, parseutils/uri.go, errorutil, traceutil, tracetranslator, textutils):
    rows of CSV, parts of a URI, status codes of errors, names of trace values, lookup of encodings.

  \<^bold>\<open>The use-case extension.\<close> \<open>Use_Case\<close> (extension/usecaseextension): validation, construction, and the round tripper
  over a memory of header maps, so that it is visible which map is written. The locale \<open>use_case_source\<close> is a
  source that knows its identifier; the static source interprets it.

  \<^bold>\<open>The test bed\<close> (testbed/testbed), which drives a collector with generated data and judges what comes out.
  \<^item> \<open>Test_Data\<close> (data_providers.go): traces, metrics and logs, and the providers that generate them and increment
    the counter of the load generator.
  \<^item> \<open>Golden_Metrics\<close>, \<open>Golden_Traces\<close> (coreinternal/goldendataset): metrics, traces and resources of the shapes that
    tables of pairs name. Lemmas: the shape and the names of the metrics, the buckets of histograms, the rows that spans
    follow, errors that are lost, and that no generated span is the parent of another.
  \<^item> \<open>Test_Load\<close> (load_generator.go, mock_backend.go): the generator, the backend, and the workers between them as a
    transition system (\<open>load_step\<close>). The locales \<open>data_provider\<close> and \<open>data_consumer\<close> state that a provider counts
    what it makes and a consumer what it accepts; \<open>load_test\<close> combines them, proves the accounting of items, and is
    interpreted for every provider and consumer of the code.
  \<^item> \<open>Test_Results\<close> (results.go): results of tests, benchmark values, consolidated failures.
  \<^item> \<open>Span_Validator\<close> (validator.go): every comparison only appends failures, and appends none exactly when its parts
    agree (\<open>adds\<close>), up to \<open>span_agree\<close> for whole spans; what passes although data is wrong or lost; the validator of
    logs against the provider of logs.
  \<^item> \<open>Test_Agent\<close> (child_process_collector.go, options.go, test_case.go): limits, measurements and the watch of the
    process under test, waiting and stopping. Lemmas: what the watch counts, the bound on the average of
    memory, the environment of the process, what happens to the options.
  \<^item> \<open>Log_Senders\<close> (datasenders/k8s.go, fluent.go, tcpudp.go): lines, messages and batches of logs, and the generated
    configurations as lists of lines. Lemmas: what is written when no write fails and where it stops otherwise, the
    batches of syslog messages and the rest that is never sent, that every configuration is a format for one name and
    every operator another refers to is in it.
  \<^item> \<open>Test_Scenario\<close> (tests/scenarios.go, correctnesstests/utils.go, receivers.go, senders.go): configurations of tests,
    the table of pipelines read back, and when the logs to be retried count as received.
  \<^item> \<open>Metric_Harness\<close> (correctnesstests/metrics): supplier, index and harness of the correctness test as steps that
    return the state and the reason of a panic. Lemmas: the invariant of runs without a panic (\<open>harness_ok\<close>), the exact
    run of a pipeline that returns what was sent (\<open>echoed\<close>), and the inputs that panic.
  \<^item> \<open>Fixed_Data\<close> (coreinternal/testdata): the fixed metrics, traces, logs and profiles and what the generators with a
    count return.
  \<^item> \<open>Test_Util\<close> (common/testutil), \<open>Scraper_Test\<close> (coreinternal/scraperinttest): the search for a port as a partial
    function and the comparison of ports as strings, sanitized names, feature gates; validation of container requests,
    their containers in any order of starting, and the polls until the metrics agree.

  \<^bold>\<open>The license checker.\<close>
  \<^item> \<open>Nr_Header\<close> (header.go): parsing, generating, applying and checking the header of a file over the calls of
    the file system (\<open>files\<close>). Lemmas: the generated headers line by line, how they are parsed back, that an
    applied header is accepted and that repeated application settles, and what is lost otherwise.
  \<^item> \<open>Nr_License\<close> (detector.go, processor.go, main.go): the status of a file from git's answers (\<open>world\<close>), the
    processing of the files in any order, the choice of files and the exit codes. Lemmas: the outcomes of
    one file (\<open>processFile_cases\<close>), what a check means, that only a fix writes, a fix followed by a check.

  \<^bold>\<open>The Codecov generator.\<close> \<open>Codecov\<close> (cmd/codecovgen/main.go): sets of patterns and their texts, identifiers of
  components, the walk over the modules, and the section of the file that is rewritten. Lemmas: what the walk
  lists, that the section occurs once, that rewriting is idempotent.

  \<^bold>\<open>Parameters and bounds.\<close> Library code outside the repository is a parameter: texts of composite values, JSON
  (\<open>lib\<close>, \<open>entity_codec\<close>, \<open>agg_lib\<close>), texts of identifiers and Unicode case folding (\<open>id_lib\<close>, \<open>text_lib\<close>), Unicode lower-casing, regular expressions and SHA-256 (\<open>attr_lib\<close>), the file
  system, clocks, contexts and git (\<open>os\<close>, \<open>env\<close>, \<open>batch\<close>, \<open>files\<close>, \<open>world\<close>, \<open>codecov_world\<close>), the parsers of packages time,
  csv and url (\<open>time_lib\<close>, \<open>csv_reads\<close>, \<open>url_lib\<close>), the texts and outcomes of the log senders (\<open>sender_lib\<close>), containers and listeners, random words and clock readings (\<open>golden_env\<close>), the base round tripper, the next consumer. Hypotheses about
  them are named (\<open>zero_getter\<close>, \<open>codec_inverse\<close>, \<open>regexp_ok\<close>, \<open>text_ok\<close>, \<open>lower_laws\<close>, \<open>kept_writes\<close>) and state documented behaviour. Loops over
  finite lists are structural recursions or folds, the sifts of the heap recurse on the index; no fuel is needed,
  and these operations are total, with panics as values. The loops that may run for ever, the two that retry, waiting for
  a condition, the search for a port, and splitting at an empty delimiter, are partial functions, and their lemmas say when they return. Integers of the processor that are counters of elements are natural numbers or
  unbounded integers where the code cannot reach the limits of \<open>int\<close>; \<open>int64\<close> attribute values wrap around
  explicitly; durations saturate.

  \<^bold>\<open>Not modelled.\<close> Logging and metrics about the processor itself; the mutex (each operation holds it for its whole
  effect, so operations are atomic steps); the Windows variant of the storage checks (a parameter
  \<open>reparse_point\<close>); registration of components and generated metadata; the fused multiply-add that Go permits on
  some architectures; what is left in the groups after aggregation consumed them. Starting and
  stopping the senders, receivers and collectors of the test bed, its scenarios and its Docker images only call libraries; the
  no-op exporter and receiver do nothing. The polls of a scraper test are numbered, up to the number that its timeout allows. The parser
  of package time is a parameter, a zone has one offset, and the texts of parse errors are left out; of the license checker and
  the test bed the messages and result files they write, and of the agent under test its start.
\<close>

end
